(* ===== verification/UefiBase.thy ===== *)
theory UefiBase
  imports Main "HOL-Library.Word"
begin

text \<open>
  The vocabulary the component theories share.

  \<^item> Machine integers of an X64 build (\<^verbatim>\<open>UINTN\<close> is 64 bits wide): the types \<open>u8\<close> to
    \<open>u64\<close>, handles and GUIDs.
  \<^item> \<open>EFI_STATUS\<close>, the status codes of \<^verbatim>\<open>MdePkg/Include/Base.h\<close> and
    \<^verbatim>\<open>MdePkg/Include/Uefi/UefiBaseType.h\<close>, with \<open>EFI_ERROR\<close>.
  \<^item> The memory attribute bits of \<^verbatim>\<open>MdePkg/Include/Uefi/UefiSpec.h\<close> and the page constants.
  \<^item> The collections \<open>efi_const\<close> (unfolds the named constants) and \<open>u64_arith\<close> (moves an
    inequality between 64-bit words to the naturals), and lemmas on lists and words that
    several components use.
\<close>

unbundle bit_operations_syntax

named_theorems efi_const \<open>definitions of the numeric constants of the source\<close>
named_theorems u64_arith \<open>word comparisons and sums as comparisons and sums of naturals\<close>

section \<open>Types\<close>

type_synonym u8 = "8 word"
type_synonym u16 = "16 word"
type_synonym u32 = "32 word"
type_synonym u64 = "64 word"

type_synonym UINTN = u64
type_synonym EFI_PHYSICAL_ADDRESS = u64
type_synonym EFI_HANDLE = u64
type_synonym EFI_EVENT = u64

text \<open>A GUID is its 16 bytes.\<close>

type_synonym EFI_GUID = "u8 list"

text \<open>A NULL pointer or handle is the word 0.\<close>

abbreviation NULL :: EFI_HANDLE where
  "NULL \<equiv> 0"

datatype EFI_STATUS =
    EFI_SUCCESS
  | EFI_LOAD_ERROR
  | EFI_INVALID_PARAMETER
  | EFI_UNSUPPORTED
  | EFI_BAD_BUFFER_SIZE
  | EFI_BUFFER_TOO_SMALL
  | EFI_NOT_READY
  | EFI_DEVICE_ERROR
  | EFI_WRITE_PROTECTED
  | EFI_OUT_OF_RESOURCES
  | EFI_VOLUME_CORRUPTED
  | EFI_VOLUME_FULL
  | EFI_NO_MEDIA
  | EFI_MEDIA_CHANGED
  | EFI_NOT_FOUND
  | EFI_ACCESS_DENIED
  | EFI_NO_RESPONSE
  | EFI_NO_MAPPING
  | EFI_TIMEOUT
  | EFI_NOT_STARTED
  | EFI_ALREADY_STARTED
  | EFI_ABORTED
  | EFI_ICMP_ERROR
  | EFI_TFTP_ERROR
  | EFI_PROTOCOL_ERROR
  | EFI_INCOMPATIBLE_VERSION
  | EFI_SECURITY_VIOLATION
  | EFI_CRC_ERROR
  | EFI_END_OF_MEDIA
  | EFI_END_OF_FILE
  | EFI_INVALID_LANGUAGE
  | EFI_COMPROMISED_DATA
  | EFI_NOT_AVAILABLE_YET
  | EFI_HTTP_ERROR
  | EFI_WARN_UNKNOWN_GLYPH
  | EFI_WARN_DELETE_FAILURE
  | EFI_WARN_WRITE_FAILURE
  | EFI_WARN_BUFFER_TOO_SMALL
  | EFI_WARN_STALE_DATA
  | EFI_WARN_FILE_SYSTEM

datatype EFI_LOCK_STATE = EfiLockUninitialized | EfiLockReleased | EfiLockAcquired

text \<open>
  \<^verbatim>\<open>RETURN_ERROR\<close> tests the sign bit: every code made by \<^verbatim>\<open>ENCODE_ERROR\<close> is an error,
  success and the warnings are not.
\<close>

definition EFI_ERROR :: "EFI_STATUS \<Rightarrow> bool" where
  "EFI_ERROR s \<longleftrightarrow> s \<notin> {EFI_SUCCESS, EFI_WARN_UNKNOWN_GLYPH, EFI_WARN_DELETE_FAILURE,
     EFI_WARN_WRITE_FAILURE, EFI_WARN_BUFFER_TOO_SMALL, EFI_WARN_STALE_DATA,
     EFI_WARN_FILE_SYSTEM}"

lemma EFI_ERROR_simps [simp]:
  "\<not> EFI_ERROR EFI_SUCCESS"
  "EFI_ERROR EFI_INVALID_PARAMETER" "EFI_ERROR EFI_UNSUPPORTED" "EFI_ERROR EFI_NOT_FOUND"
  "EFI_ERROR EFI_ACCESS_DENIED" "EFI_ERROR EFI_OUT_OF_RESOURCES"
  "EFI_ERROR EFI_NOT_AVAILABLE_YET" "EFI_ERROR EFI_BUFFER_TOO_SMALL" "EFI_ERROR EFI_NOT_READY"
  "EFI_ERROR EFI_ALREADY_STARTED"
  by (simp_all add: EFI_ERROR_def)

section \<open>Constants\<close>

definition EFI_PAGE_SHIFT :: nat where [efi_const]: "EFI_PAGE_SHIFT = 12"
definition EFI_PAGE_SIZE :: u64 where [efi_const]: "EFI_PAGE_SIZE = 0x1000"
definition EFI_PAGE_MASK :: u64 where [efi_const]: "EFI_PAGE_MASK = 0xFFF"

definition EFI_MEMORY_UC :: u64 where [efi_const]: "EFI_MEMORY_UC = 0x1"
definition EFI_MEMORY_WC :: u64 where [efi_const]: "EFI_MEMORY_WC = 0x2"
definition EFI_MEMORY_WT :: u64 where [efi_const]: "EFI_MEMORY_WT = 0x4"
definition EFI_MEMORY_WB :: u64 where [efi_const]: "EFI_MEMORY_WB = 0x8"
definition EFI_MEMORY_UCE :: u64 where [efi_const]: "EFI_MEMORY_UCE = 0x10"
definition EFI_MEMORY_WP :: u64 where [efi_const]: "EFI_MEMORY_WP = 0x1000"
definition EFI_MEMORY_RP :: u64 where [efi_const]: "EFI_MEMORY_RP = 0x2000"
definition EFI_MEMORY_XP :: u64 where [efi_const]: "EFI_MEMORY_XP = 0x4000"
definition EFI_MEMORY_RO :: u64 where [efi_const]: "EFI_MEMORY_RO = 0x20000"
definition EFI_MEMORY_NV :: u64 where [efi_const]: "EFI_MEMORY_NV = 0x8000"
definition EFI_MEMORY_MORE_RELIABLE :: u64 where
  [efi_const]: "EFI_MEMORY_MORE_RELIABLE = 0x10000"
definition EFI_MEMORY_RUNTIME :: u64 where
  [efi_const]: "EFI_MEMORY_RUNTIME = 0x8000000000000000"
definition EFI_MEMORY_PRESENT :: u64 where
  [efi_const]: "EFI_MEMORY_PRESENT = 0x0100000000000000"
definition EFI_MEMORY_INITIALIZED :: u64 where
  [efi_const]: "EFI_MEMORY_INITIALIZED = 0x0200000000000000"
definition EFI_MEMORY_TESTED :: u64 where
  [efi_const]: "EFI_MEMORY_TESTED = 0x0400000000000000"
definition EFI_MEMORY_PORT_IO :: u64 where
  [efi_const]: "EFI_MEMORY_PORT_IO = 0x4000000000000000"

section \<open>Words\<close>

declare word_le_nat_alt [u64_arith] word_less_nat_alt [u64_arith]

lemma unat_u64_less [simp]: "unat (x :: u64) < 18446744073709551616"
  using unsigned_less [of x, where 'a = nat] by simp

lemma unat_u64_bound: "unat (x :: u64) < 2 ^ 64"
  by simp

lemma unat_add_nowrap:
  "unat (a :: u64) + unat b < 2 ^ 64 \<Longrightarrow> unat (a + b) = unat a + unat b"
  by (simp add: unat_word_ariths)

lemma unat_sub_nowrap: "b \<le> a \<Longrightarrow> unat (a - b :: u64) = unat a - unat b"
  by (rule unat_sub)

text \<open>The last address of a range, \<open>Base + Length - 1\<close>, when the range does not wrap.\<close>

lemma unat_range_end:
  fixes B L :: u64
  assumes "L \<noteq> 0" and "unat B + unat L \<le> 2 ^ 64"
  shows "unat (B + L - 1) = unat B + unat L - 1"
proof -
  have L: "1 \<le> unat L" using assms(1) by (simp add: unat_gt_0 Suc_le_eq)
  then have "unat (L - 1) = unat L - 1"
    by (subst unat_sub_nowrap) (auto simp: word_le_nat_alt)
  moreover have "unat (B + (L - 1)) = unat B + unat (L - 1)"
    by (rule unat_add_nowrap) (use assms L calculation in simp)
  ultimately show ?thesis using L by (simp add: add_diff_eq)
qed

lemma range_end_ge:
  fixes B L :: u64
  assumes "L \<noteq> 0" and "unat B + unat L \<le> 2 ^ 64"
  shows "B \<le> B + L - 1"
proof -
  have "0 < unat L" using assms(1) by (simp add: unat_gt_0)
  then show ?thesis using unat_range_end [OF assms] by (simp add: word_le_nat_alt del: unat_gt_0)
qed

lemma unat_pred: "a \<noteq> 0 \<Longrightarrow> unat (a - 1 :: u64) = unat a - 1"
  by (subst unat_sub_nowrap) (auto simp: word_le_nat_alt unat_gt_0 Suc_le_eq)

lemma unat_succ: "unat (a :: u64) + 1 < 2 ^ 64 \<Longrightarrow> unat (a + 1) = unat a + 1"
  using unat_add_nowrap [of a 1] by simp

section \<open>Lists\<close>

lemma list_split_at:
  assumes "i < length xs"
  shows "xs = take i xs @ xs ! i # drop (Suc i) xs"
  using assms by (rule id_take_nth_drop)

lemma successively_append_iff_last_hd:
  "successively P (xs @ ys) \<longleftrightarrow>
     successively P xs \<and> successively P ys \<and> (xs \<noteq> [] \<longrightarrow> ys \<noteq> [] \<longrightarrow> P (last xs) (hd ys))"
  by (auto simp: successively_append_iff)

end
