(* ===== verification/GcdMap.thy ===== *)
theory GcdMap
  imports UefiBase
begin

text \<open>
  The descriptor map of the Global Coherency Domain
  (\<^verbatim>\<open>MdeModulePkg/Core/Dxe/Gcd/Gcd.c\<close>): its entries and the worker functions that
  search, split and merge them.

  A map (\<^verbatim>\<open>mGcdMemorySpaceMap\<close>, \<^verbatim>\<open>mGcdIoSpaceMap\<close>) is the list of its entries in the
  order of their \<^verbatim>\<open>ForwardLink\<close>s, the list head left out; a \<^verbatim>\<open>LIST_ENTRY *\<close> into it is the
  position of the entry it names.  A position moves when an entry is inserted or removed in
  front of it, so the workers return the position of the link they were given.  The theory
  \<open>LinkedList\<close> shows that the pointer operations these workers use (\<^verbatim>\<open>InsertTailList\<close>,
  \<^verbatim>\<open>InsertHeadList\<close>, \<^verbatim>\<open>RemoveEntryList\<close>) have exactly this effect on the list.
  \<^verbatim>\<open>CoreFreePool\<close> and \<^verbatim>\<open>AllocateZeroPool\<close> are counted: \<open>pool\<close> is the number of live
  \<^verbatim>\<open>EFI_GCD_MAP_ENTRY\<close> blocks.
\<close>

section \<open>Entries\<close>

type_synonym EFI_GCD_MEMORY_TYPE = u32
type_synonym EFI_GCD_IO_TYPE = u32
type_synonym EFI_GCD_ALLOCATE_TYPE = u32

text \<open>
  The C enumerations are 32-bit values, so that the range checks of the services can see an
  argument that names no enumerator.
\<close>

definition EfiGcdMemoryTypeNonExistent :: EFI_GCD_MEMORY_TYPE where
  [efi_const]: "EfiGcdMemoryTypeNonExistent = 0"
definition EfiGcdMemoryTypeReserved :: EFI_GCD_MEMORY_TYPE where
  [efi_const]: "EfiGcdMemoryTypeReserved = 1"
definition EfiGcdMemoryTypeSystemMemory :: EFI_GCD_MEMORY_TYPE where
  [efi_const]: "EfiGcdMemoryTypeSystemMemory = 2"
definition EfiGcdMemoryTypeMemoryMappedIo :: EFI_GCD_MEMORY_TYPE where
  [efi_const]: "EfiGcdMemoryTypeMemoryMappedIo = 3"
definition EfiGcdMemoryTypePersistent :: EFI_GCD_MEMORY_TYPE where
  [efi_const]: "EfiGcdMemoryTypePersistent = 4"
definition EfiGcdMemoryTypeMoreReliable :: EFI_GCD_MEMORY_TYPE where
  [efi_const]: "EfiGcdMemoryTypeMoreReliable = 5"
definition EfiGcdMemoryTypeMaximum :: EFI_GCD_MEMORY_TYPE where
  [efi_const]: "EfiGcdMemoryTypeMaximum = 6"

definition EfiGcdIoTypeNonExistent :: EFI_GCD_IO_TYPE where
  [efi_const]: "EfiGcdIoTypeNonExistent = 0"
definition EfiGcdIoTypeReserved :: EFI_GCD_IO_TYPE where
  [efi_const]: "EfiGcdIoTypeReserved = 1"
definition EfiGcdIoTypeIo :: EFI_GCD_IO_TYPE where
  [efi_const]: "EfiGcdIoTypeIo = 2"
definition EfiGcdIoTypeMaximum :: EFI_GCD_IO_TYPE where
  [efi_const]: "EfiGcdIoTypeMaximum = 3"

definition EfiGcdAllocateAnySearchBottomUp :: EFI_GCD_ALLOCATE_TYPE where
  [efi_const]: "EfiGcdAllocateAnySearchBottomUp = 0"
definition EfiGcdAllocateMaxAddressSearchBottomUp :: EFI_GCD_ALLOCATE_TYPE where
  [efi_const]: "EfiGcdAllocateMaxAddressSearchBottomUp = 1"
definition EfiGcdAllocateAddress :: EFI_GCD_ALLOCATE_TYPE where
  [efi_const]: "EfiGcdAllocateAddress = 2"
definition EfiGcdAllocateAnySearchTopDown :: EFI_GCD_ALLOCATE_TYPE where
  [efi_const]: "EfiGcdAllocateAnySearchTopDown = 3"
definition EfiGcdAllocateMaxAddressSearchTopDown :: EFI_GCD_ALLOCATE_TYPE where
  [efi_const]: "EfiGcdAllocateMaxAddressSearchTopDown = 4"
definition EfiGcdMaxAllocateType :: EFI_GCD_ALLOCATE_TYPE where
  [efi_const]: "EfiGcdMaxAllocateType = 5"

text \<open>\<^verbatim>\<open>SIGNATURE_32 ('g','c','d','m')\<close>.\<close>

definition EFI_GCD_MAP_SIGNATURE :: UINTN where
  [efi_const]: "EFI_GCD_MAP_SIGNATURE = 0x6D646367"

record EFI_GCD_MAP_ENTRY =
  Signature :: UINTN
  BaseAddress :: EFI_PHYSICAL_ADDRESS
  EndAddress :: u64
  Capabilities :: u64
  Attributes :: u64
  GcdMemoryType :: EFI_GCD_MEMORY_TYPE
  GcdIoType :: EFI_GCD_IO_TYPE
  ImageHandle :: EFI_HANDLE
  DeviceHandle :: EFI_HANDLE

type_synonym gcd_map = "EFI_GCD_MAP_ENTRY list"

text \<open>A block from \<^verbatim>\<open>AllocateZeroPool\<close>, and the templates of the two initial entries.\<close>

definition zero_entry :: EFI_GCD_MAP_ENTRY where
  "zero_entry = \<lparr>Signature = 0, BaseAddress = 0, EndAddress = 0, Capabilities = 0,
     Attributes = 0, GcdMemoryType = 0, GcdIoType = 0, ImageHandle = NULL,
     DeviceHandle = NULL\<rparr>"

definition mGcdMemorySpaceMapEntryTemplate :: EFI_GCD_MAP_ENTRY where
  "mGcdMemorySpaceMapEntryTemplate = \<lparr>Signature = EFI_GCD_MAP_SIGNATURE, BaseAddress = 0,
     EndAddress = 0, Capabilities = 0, Attributes = 0,
     GcdMemoryType = EfiGcdMemoryTypeNonExistent, GcdIoType = 0, ImageHandle = NULL,
     DeviceHandle = NULL\<rparr>"

definition mGcdIoSpaceMapEntryTemplate :: EFI_GCD_MAP_ENTRY where
  "mGcdIoSpaceMapEntryTemplate = \<lparr>Signature = EFI_GCD_MAP_SIGNATURE, BaseAddress = 0,
     EndAddress = 0, Capabilities = 0, Attributes = 0,
     GcdMemoryType = 0, GcdIoType = EfiGcdIoTypeNonExistent, ImageHandle = NULL,
     DeviceHandle = NULL\<rparr>"

section \<open>Alignment\<close>

definition AlignValue :: "u64 \<Rightarrow> nat \<Rightarrow> bool \<Rightarrow> u64" where
  "AlignValue Value Alignment RoundUp =
     (let AlignmentMask = push_bit Alignment 1 - 1;
          Value' = (if RoundUp then Value + AlignmentMask else Value)
      in Value' AND (NOT AlignmentMask))"

definition PageAlignAddress :: "u64 \<Rightarrow> u64" where
  "PageAlignAddress Value = AlignValue Value EFI_PAGE_SHIFT True"

definition PageAlignLength :: "u64 \<Rightarrow> u64" where
  "PageAlignLength Value = AlignValue Value EFI_PAGE_SHIFT False"

section \<open>Worker functions\<close>

text \<open>
  \<open>alloc n\<close> says whether \<^verbatim>\<open>AllocateZeroPool\<close> yields a block when \<open>n\<close> entries are live.
  When the second block is refused the first one is freed again.
\<close>

definition CoreAllocateGcdMapEntry ::
  "(nat \<Rightarrow> bool) \<Rightarrow> nat \<Rightarrow> EFI_STATUS \<times> EFI_GCD_MAP_ENTRY \<times> EFI_GCD_MAP_ENTRY \<times> nat" where
  "CoreAllocateGcdMapEntry alloc pool =
     (if \<not> alloc pool then (EFI_OUT_OF_RESOURCES, zero_entry, zero_entry, pool)
      else let pool1 = pool + 1 in
        if \<not> alloc pool1
        then (EFI_OUT_OF_RESOURCES, zero_entry, zero_entry, pool1 - 1)
        else (EFI_SUCCESS, zero_entry, zero_entry, pool1 + 1))"

text \<open>
  Splits the entry at \<open>Link\<close> so that it lies inside \<open>Base .. Base + Length - 1\<close>: what is
  below goes into \<open>Bottom\<close>, inserted in front of \<open>Link\<close>, what is above into \<open>Top\<close>, inserted
  after it.  The result is the map, the new position of \<open>Link\<close> and the two work entries.
\<close>

definition CoreInsertGcdMapEntry ::
  "gcd_map \<Rightarrow> nat \<Rightarrow> u64 \<Rightarrow> u64 \<Rightarrow> EFI_GCD_MAP_ENTRY \<Rightarrow> EFI_GCD_MAP_ENTRY \<Rightarrow>
     gcd_map \<times> nat \<times> EFI_GCD_MAP_ENTRY \<times> EFI_GCD_MAP_ENTRY" where
  "CoreInsertGcdMapEntry Map Link Base Length Top Bottom =
     (let Entry = Map ! Link;
          (Map1, Link1, Bottom1) =
            (if Base > BaseAddress Entry
             then let B = Entry\<lparr>EndAddress := Base - 1\<rparr>
                  in (take Link Map @ B # Entry\<lparr>BaseAddress := Base\<rparr> # drop (Link + 1) Map,
                      Link + 1, B)
             else (Map, Link, Bottom));
          Entry1 = Map1 ! Link1;
          (Map2, Top2) =
            (if Base + Length - 1 < EndAddress Entry1
             then let T = Entry1\<lparr>BaseAddress := Base + Length\<rparr>
                  in (take Link1 Map1 @ Entry1\<lparr>EndAddress := Base + Length - 1\<rparr> # T #
                        drop (Link1 + 1) Map1, T)
             else (Map1, Top))
      in (Map2, Link1, Top2, Bottom1))"

text \<open>
  Merges the entry at \<open>Link\<close> with its neighbour.  The neighbour of the first entry backwards
  and of the last entry forwards is the list head, where there is nothing to merge.
\<close>

definition CoreMergeGcdMapEntry ::
  "gcd_map \<Rightarrow> nat \<Rightarrow> bool \<Rightarrow> nat \<Rightarrow> EFI_STATUS \<times> gcd_map \<times> nat \<times> nat" where
  "CoreMergeGcdMapEntry Map Link Forward pool =
     (if (if Forward then Link + 1 = length Map else Link = 0)
      then (EFI_SUCCESS, Map, Link, pool)
      else let AdjacentLink = (if Forward then Link + 1 else Link - 1);
               Entry = Map ! Link;
               AdjacentEntry = Map ! AdjacentLink
           in if Capabilities Entry \<noteq> Capabilities AdjacentEntry
              then (EFI_UNSUPPORTED, Map, Link, pool)
              else if Attributes Entry \<noteq> Attributes AdjacentEntry
              then (EFI_UNSUPPORTED, Map, Link, pool)
              else if GcdMemoryType Entry \<noteq> GcdMemoryType AdjacentEntry
              then (EFI_UNSUPPORTED, Map, Link, pool)
              else if GcdIoType Entry \<noteq> GcdIoType AdjacentEntry
              then (EFI_UNSUPPORTED, Map, Link, pool)
              else if ImageHandle Entry \<noteq> ImageHandle AdjacentEntry
              then (EFI_UNSUPPORTED, Map, Link, pool)
              else if DeviceHandle Entry \<noteq> DeviceHandle AdjacentEntry
              then (EFI_UNSUPPORTED, Map, Link, pool)
              else if Forward
              then (EFI_SUCCESS,
                    take Link Map @ Entry\<lparr>EndAddress := EndAddress AdjacentEntry\<rparr> #
                      drop (Link + 2) Map, Link, pool - 1)
              else (EFI_SUCCESS,
                    take (Link - 1) Map @ Entry\<lparr>BaseAddress := BaseAddress AdjacentEntry\<rparr> #
                      drop (Link + 1) Map, Link - 1, pool - 1))"

text \<open>
  The loop of \<^verbatim>\<open>CoreCleanupGcdMapEntry\<close>, from \<open>Link\<close> while it is not the entry after
  \<open>EndLink\<close>; when the entry in front of \<open>Link\<close> is removed, \<open>EndLink\<close> moves with \<open>Link\<close>.
\<close>

lemma CoreMergeGcdMapEntry_link:
  "fst (snd (snd (CoreMergeGcdMapEntry Map Link Forward pool))) = Link \<or>
   (0 < Link \<and> fst (snd (snd (CoreMergeGcdMapEntry Map Link Forward pool))) = Link - 1)"
  by (auto simp: CoreMergeGcdMapEntry_def Let_def)

function CoreCleanupGcdMapEntry_loop ::
  "gcd_map \<Rightarrow> nat \<Rightarrow> nat \<Rightarrow> nat \<Rightarrow> gcd_map \<times> nat \<times> nat" where
  "CoreCleanupGcdMapEntry_loop Map Link EndLink pool =
     (if Link \<le> EndLink
      then let (_, Map', Link', pool') = CoreMergeGcdMapEntry Map Link False pool
           in CoreCleanupGcdMapEntry_loop Map' (Link' + 1) (EndLink - (Link - Link')) pool'
      else (Map, EndLink, pool))"
  by pat_completeness auto
termination
proof (relation "measure (\<lambda>(Map, Link, EndLink, pool). EndLink + 1 - Link)", goal_cases)
  case 1
  show ?case by simp
next
  case (2 Map Link EndLink pool x Status y Map' z Link' pool')
  have "Link' = Link \<or> (0 < Link \<and> Link' = Link - 1)"
    using 2 CoreMergeGcdMapEntry_link [of Map Link False pool] by (metis fst_conv snd_conv)
  with 2(1) show ?case by auto
qed

declare CoreCleanupGcdMapEntry_loop.simps [simp del]

definition CoreCleanupGcdMapEntry ::
  "EFI_GCD_MAP_ENTRY \<Rightarrow> EFI_GCD_MAP_ENTRY \<Rightarrow> nat \<Rightarrow> nat \<Rightarrow> gcd_map \<Rightarrow> nat \<Rightarrow>
     EFI_STATUS \<times> gcd_map \<times> nat" where
  "CoreCleanupGcdMapEntry TopEntry BottomEntry StartLink EndLink Map pool =
     (let pool1 = (if Signature TopEntry = 0 then pool - 1 else pool);
          pool2 = (if Signature BottomEntry = 0 then pool1 - 1 else pool1);
          (Map3, EndLink3, pool3) = CoreCleanupGcdMapEntry_loop Map StartLink EndLink pool2;
          (_, Map4, _, pool4) = CoreMergeGcdMapEntry Map3 EndLink3 True pool3
      in (EFI_SUCCESS, Map4, pool4))"

text \<open>
  The search loop: \<open>Link\<close> is the position of the first entry of the rest of the map, and
  \<open>StartLink\<close> the position remembered so far (NULL is \<open>None\<close>).
\<close>

fun CoreSearchGcdMapEntry_loop ::
  "u64 \<Rightarrow> u64 \<Rightarrow> gcd_map \<Rightarrow> nat \<Rightarrow> nat option \<Rightarrow> EFI_STATUS \<times> nat option \<times> nat option" where
  "CoreSearchGcdMapEntry_loop Base Length [] Link StartLink = (EFI_NOT_FOUND, StartLink, None)"
| "CoreSearchGcdMapEntry_loop Base Length (Entry # rest) Link StartLink =
     (let StartLink' = (if Base \<ge> BaseAddress Entry \<and> Base \<le> EndAddress Entry
                        then Some Link else StartLink)
      in if StartLink' \<noteq> None \<and> (Base + Length - 1) \<ge> BaseAddress Entry \<and>
            (Base + Length - 1) \<le> EndAddress Entry
         then (EFI_SUCCESS, StartLink', Some Link)
         else CoreSearchGcdMapEntry_loop Base Length rest (Link + 1) StartLink')"

definition CoreSearchGcdMapEntry ::
  "u64 \<Rightarrow> u64 \<Rightarrow> gcd_map \<Rightarrow> EFI_STATUS \<times> nat option \<times> nat option" where
  "CoreSearchGcdMapEntry Base Length Map = CoreSearchGcdMapEntry_loop Base Length Map 0 None"

text \<open>\<^verbatim>\<open>Count\<close> is a \<^verbatim>\<open>UINTN\<close>.\<close>

fun CoreCountGcdMapEntry_loop :: "gcd_map \<Rightarrow> UINTN \<Rightarrow> UINTN" where
  "CoreCountGcdMapEntry_loop [] Count = Count"
| "CoreCountGcdMapEntry_loop (_ # rest) Count = CoreCountGcdMapEntry_loop rest (Count + 1)"

definition CoreCountGcdMapEntry :: "gcd_map \<Rightarrow> UINTN" where
  "CoreCountGcdMapEntry Map = CoreCountGcdMapEntry_loop Map 0"

section \<open>Well-formed maps\<close>

text \<open>
  \<open>gcd_tiles s Map e\<close>: the entries of the map cover the addresses \<open>s \<le> a < e\<close>, each address
  by exactly one entry, in ascending order.
\<close>

fun gcd_tiles :: "nat \<Rightarrow> gcd_map \<Rightarrow> nat \<Rightarrow> bool" where
  "gcd_tiles s [] e \<longleftrightarrow> s = e"
| "gcd_tiles s (x # xs) e \<longleftrightarrow>
     unat (BaseAddress x) = s \<and> s \<le> unat (EndAddress x) \<and>
     gcd_tiles (unat (EndAddress x) + 1) xs e"

definition gcd_kind :: "EFI_GCD_MAP_ENTRY \<Rightarrow> EFI_GCD_MAP_ENTRY" where
  "gcd_kind x = x\<lparr>BaseAddress := 0, EndAddress := 0\<rparr>"

definition gcd_covers :: "EFI_GCD_MAP_ENTRY \<Rightarrow> u64 \<Rightarrow> bool" where
  "gcd_covers x a \<longleftrightarrow> BaseAddress x \<le> a \<and> a \<le> EndAddress x"

definition gcd_lookup :: "gcd_map \<Rightarrow> u64 \<Rightarrow> EFI_GCD_MAP_ENTRY option" where
  "gcd_lookup Map a = map_option gcd_kind (find (\<lambda>x. gcd_covers x a) Map)"

definition gcd_canonical :: "gcd_map \<Rightarrow> bool" where
  "gcd_canonical Map \<longleftrightarrow> successively (\<lambda>x y. gcd_kind x \<noteq> gcd_kind y) Map"

definition gcd_signed :: "gcd_map \<Rightarrow> bool" where
  "gcd_signed Map \<longleftrightarrow> (\<forall>x \<in> set Map. Signature x = EFI_GCD_MAP_SIGNATURE)"

lemma gcd_tiles_append:
  "gcd_tiles s (xs @ ys) e \<longleftrightarrow> (\<exists>m. gcd_tiles s xs m \<and> gcd_tiles m ys e)"
  by (induction xs arbitrary: s) auto

lemma gcd_tiles_le: "gcd_tiles s xs e \<Longrightarrow> s \<le> e"
  by (induction xs arbitrary: s) fastforce+

lemma gcd_tiles_less: "gcd_tiles s xs e \<Longrightarrow> xs \<noteq> [] \<Longrightarrow> s < e"
  by (cases xs) (auto dest: gcd_tiles_le)

lemma gcd_tiles_member:
  "gcd_tiles s xs e \<Longrightarrow> x \<in> set xs \<Longrightarrow>
     s \<le> unat (BaseAddress x) \<and> unat (BaseAddress x) \<le> unat (EndAddress x) \<and> unat (EndAddress x) < e"
  by (induction xs arbitrary: s) (force dest: gcd_tiles_le)+

lemma gcd_covers_unat:
  "gcd_covers x a \<longleftrightarrow> unat (BaseAddress x) \<le> unat a \<and> unat a \<le> unat (EndAddress x)"
  by (simp add: gcd_covers_def word_le_nat_alt)

lemma gcd_lookup_Nil [simp]: "gcd_lookup [] a = None"
  by (simp add: gcd_lookup_def)

lemma gcd_lookup_Cons:
  "gcd_lookup (x # xs) a = (if gcd_covers x a then Some (gcd_kind x) else gcd_lookup xs a)"
  by (simp add: gcd_lookup_def)

lemma gcd_lookup_append:
  "gcd_lookup (xs @ ys) a =
     (case gcd_lookup xs a of None \<Rightarrow> gcd_lookup ys a | Some k \<Rightarrow> Some k)"
  by (induction xs) (auto simp: gcd_lookup_Cons)

lemma gcd_lookup_None_iff:
  "gcd_tiles s xs e \<Longrightarrow> gcd_lookup xs a = None \<longleftrightarrow> unat a < s \<or> e \<le> unat a"
proof (induction xs arbitrary: s)
  case (Cons x xs)
  then have IH: "gcd_lookup xs a = None \<longleftrightarrow> unat a < unat (EndAddress x) + 1 \<or> e \<le> unat a"
    and "s \<le> unat (EndAddress x)" and "unat (EndAddress x) + 1 \<le> e" and "unat (BaseAddress x) = s"
    by (auto dest: gcd_tiles_le)
  then show ?case by (auto simp: gcd_lookup_Cons gcd_covers_unat)
qed auto

lemma gcd_lookup_append_tiles:
  assumes "gcd_tiles s xs m" "gcd_tiles m ys e"
  shows "gcd_lookup (xs @ ys) a = (if unat a < m then gcd_lookup xs a else gcd_lookup ys a)"
proof (cases "unat a < m")
  case True
  then have "gcd_lookup ys a = None" using gcd_lookup_None_iff [OF assms(2)] by simp
  then show ?thesis using True by (simp add: gcd_lookup_append split: option.split)
next
  case False
  then have "gcd_lookup xs a = None" using gcd_lookup_None_iff [OF assms(1)] by simp
  then show ?thesis using False by (simp add: gcd_lookup_append)
qed

lemma gcd_signed_append [simp]: "gcd_signed (xs @ ys) \<longleftrightarrow> gcd_signed xs \<and> gcd_signed ys"
  by (auto simp: gcd_signed_def)

lemma gcd_signed_Cons [simp]:
  "gcd_signed (x # xs) \<longleftrightarrow> Signature x = EFI_GCD_MAP_SIGNATURE \<and> gcd_signed xs"
  by (auto simp: gcd_signed_def)

lemma gcd_signed_Nil [simp]: "gcd_signed []"
  by (simp add: gcd_signed_def)

lemma gcd_canonical_append:
  "gcd_canonical (xs @ ys) \<longleftrightarrow> gcd_canonical xs \<and> gcd_canonical ys \<and>
     (xs \<noteq> [] \<longrightarrow> ys \<noteq> [] \<longrightarrow> gcd_kind (last xs) \<noteq> gcd_kind (hd ys))"
  by (simp add: gcd_canonical_def successively_append_iff_last_hd)

lemma gcd_canonical_simps [simp]: "gcd_canonical []" "gcd_canonical [x]"
  "gcd_canonical (x # y # xs) \<longleftrightarrow> gcd_kind x \<noteq> gcd_kind y \<and> gcd_canonical (y # xs)"
  by (simp_all add: gcd_canonical_def)

lemma gcd_kind_eq_iff:
  "gcd_kind x = gcd_kind y \<longleftrightarrow> Signature x = Signature y \<and> Capabilities x = Capabilities y \<and>
     Attributes x = Attributes y \<and> GcdMemoryType x = GcdMemoryType y \<and>
     GcdIoType x = GcdIoType y \<and> ImageHandle x = ImageHandle y \<and> DeviceHandle x = DeviceHandle y"
  by (cases x, cases y) (auto simp: gcd_kind_def)

lemma gcd_kind_update_address [simp]:
  "gcd_kind (x\<lparr>BaseAddress := b\<rparr>) = gcd_kind x" "gcd_kind (x\<lparr>EndAddress := b\<rparr>) = gcd_kind x"
  by (simp_all add: gcd_kind_def)

section \<open>Merging\<close>

definition gcd_merge_last :: "gcd_map \<Rightarrow> EFI_GCD_MAP_ENTRY \<Rightarrow> gcd_map" where
  "gcd_merge_last P x =
     (if P \<noteq> [] \<and> gcd_kind (last P) = gcd_kind x
      then butlast P @ [x\<lparr>BaseAddress := BaseAddress (last P)\<rparr>]
      else P @ [x])"

lemma CoreMergeGcdMapEntry_back:
  assumes "gcd_signed (P @ [x])"
  shows "CoreMergeGcdMapEntry (P @ x # Q) (length P) False pool =
     (if P \<noteq> [] \<and> gcd_kind (last P) \<noteq> gcd_kind x then EFI_UNSUPPORTED else EFI_SUCCESS,
      gcd_merge_last P x @ Q, length (gcd_merge_last P x) - 1,
      pool + length (gcd_merge_last P x) - (length P + 1))"
proof (cases P rule: rev_cases)
  case Nil
  then show ?thesis by (simp add: CoreMergeGcdMapEntry_def gcd_merge_last_def)
next
  case (snoc P' y)
  have "Signature y = Signature x" using assms snoc by simp
  then show ?thesis
    using snoc
    by (auto simp: CoreMergeGcdMapEntry_def gcd_merge_last_def gcd_kind_eq_iff nth_append Let_def)
qed

lemma gcd_merge_last_nonempty [simp]: "gcd_merge_last P x \<noteq> []"
  by (simp add: gcd_merge_last_def)

lemma last_gcd_merge_last [simp]: "gcd_kind (last (gcd_merge_last P x)) = gcd_kind x"
  by (simp add: gcd_merge_last_def)

lemma gcd_merge_last_signed [simp]:
  "gcd_signed (gcd_merge_last P x) \<longleftrightarrow> gcd_signed P \<and> Signature x = EFI_GCD_MAP_SIGNATURE"
  by (cases P rule: rev_cases) (auto simp: gcd_merge_last_def gcd_kind_eq_iff)

lemma gcd_merge_last_tiles:
  "gcd_tiles s (P @ [x]) e \<Longrightarrow> gcd_tiles s (gcd_merge_last P x) e"
  by (cases P rule: rev_cases) (auto simp: gcd_merge_last_def gcd_tiles_append)

lemma gcd_merge_last_lookup:
  "gcd_tiles s (P @ [x]) e \<Longrightarrow> gcd_lookup (gcd_merge_last P x) a = gcd_lookup (P @ [x]) a"
  by (cases P rule: rev_cases)
    (auto simp: gcd_merge_last_def gcd_tiles_append gcd_lookup_append gcd_lookup_Cons
       gcd_covers_unat split: option.split)

lemma gcd_merge_last_canonical:
  "gcd_canonical P \<Longrightarrow> gcd_canonical (gcd_merge_last P x)"
  by (cases P rule: rev_cases) (auto simp: gcd_merge_last_def gcd_canonical_append)

lemma gcd_merge_last_length:
  "length P \<le> length (gcd_merge_last P x)" "length (gcd_merge_last P x) \<le> length P + 1"
  by (auto simp: gcd_merge_last_def)


definition gcd_merge_seq :: "gcd_map \<Rightarrow> gcd_map \<Rightarrow> gcd_map" where
  "gcd_merge_seq P seg = foldl gcd_merge_last P seg"

lemma gcd_merge_seq_simps [simp]:
  "gcd_merge_seq P [] = P" "gcd_merge_seq P (x # xs) = gcd_merge_seq (gcd_merge_last P x) xs"
  by (simp_all add: gcd_merge_seq_def)

lemma gcd_merge_seq_signed [simp]:
  "gcd_signed (gcd_merge_seq P seg) \<longleftrightarrow> gcd_signed P \<and> gcd_signed seg"
  by (induction seg arbitrary: P) auto

lemma gcd_merge_seq_nonempty: "seg \<noteq> [] \<or> P \<noteq> [] \<Longrightarrow> gcd_merge_seq P seg \<noteq> []"
  by (induction seg arbitrary: P) auto

lemma gcd_merge_seq_length: "length (gcd_merge_seq P seg) \<le> length P + length seg"
proof (induction seg arbitrary: P)
  case (Cons x xs)
  then show ?case using gcd_merge_last_length(2) [of P x] by (fastforce intro: order_trans)
qed simp

lemma gcd_merge_seq_canonical: "gcd_canonical P \<Longrightarrow> gcd_canonical (gcd_merge_seq P seg)"
  by (induction seg arbitrary: P) (auto intro: gcd_merge_last_canonical)

lemma last_gcd_merge_seq:
  "seg \<noteq> [] \<Longrightarrow> gcd_kind (last (gcd_merge_seq P seg)) = gcd_kind (last seg)"
proof (induction seg arbitrary: P)
  case (Cons x xs)
  then show ?case by (cases "xs = []") auto
qed simp

lemma gcd_merge_seq_tiles:
  "gcd_tiles s (P @ seg) e \<Longrightarrow> gcd_tiles s (gcd_merge_seq P seg) e"
proof (induction seg arbitrary: P)
  case (Cons x xs)
  then obtain m where "gcd_tiles s (P @ [x]) m" and "gcd_tiles m xs e"
    by (auto simp: gcd_tiles_append)
  then have "gcd_tiles s (gcd_merge_last P x @ xs) e"
    using gcd_merge_last_tiles gcd_tiles_append by blast
  then show ?case using Cons.IH by simp
qed simp

lemma gcd_merge_seq_lookup:
  "gcd_tiles s (P @ seg) e \<Longrightarrow> gcd_lookup (gcd_merge_seq P seg) a = gcd_lookup (P @ seg) a"
proof (induction seg arbitrary: P)
  case (Cons x xs)
  then obtain m where m: "gcd_tiles s (P @ [x]) m" "gcd_tiles m xs e"
    by (auto simp: gcd_tiles_append)
  then have "gcd_tiles s (gcd_merge_last P x @ xs) e"
    using gcd_merge_last_tiles gcd_tiles_append by blast
  then have "gcd_lookup (gcd_merge_seq P (x # xs)) a = gcd_lookup (gcd_merge_last P x @ xs) a"
    using Cons.IH by simp
  also have "\<dots> = gcd_lookup ((P @ [x]) @ xs) a"
    by (simp only: gcd_lookup_append gcd_merge_last_lookup [OF m(1)])
  finally show ?case by simp
qed simp

lemma CoreCleanupGcdMapEntry_loop_eq:
  assumes "gcd_signed (P @ seg)" and "Link = length P" and "EndLink + 1 = length P + length seg"
    and "length P + length seg \<le> pool"
  shows "CoreCleanupGcdMapEntry_loop (P @ seg @ Q) Link EndLink pool =
     (gcd_merge_seq P seg @ Q, length (gcd_merge_seq P seg) - 1,
      pool + length (gcd_merge_seq P seg) - (length P + length seg))"
  using assms
proof (induction seg arbitrary: P Link EndLink pool)
  case Nil
  then show ?case by (subst CoreCleanupGcdMapEntry_loop.simps) auto
next
  case (Cons x xs)
  let ?P = "gcd_merge_last P x"
  have merge: "CoreMergeGcdMapEntry (P @ x # xs @ Q) Link False pool =
     (if P \<noteq> [] \<and> gcd_kind (last P) \<noteq> gcd_kind x then EFI_UNSUPPORTED else EFI_SUCCESS,
      ?P @ xs @ Q, length ?P - 1, pool + length ?P - (length P + 1))"
    using CoreMergeGcdMapEntry_back [of P x "xs @ Q" pool] Cons.prems by simp
  have len: "length P \<le> length ?P" "length ?P \<le> length P + 1" "0 < length ?P"
    using gcd_merge_last_length [of P x] by auto
  have "CoreCleanupGcdMapEntry_loop (P @ (x # xs) @ Q) Link EndLink pool =
     CoreCleanupGcdMapEntry_loop (?P @ xs @ Q) (length ?P) (length ?P + length xs - 1)
       (pool + length ?P - (length P + 1))"
  proof -
    have "EndLink - (Link - (length ?P - Suc 0)) = length ?P + length xs - Suc 0"
      and "Link \<le> EndLink"
      using Cons.prems(2,3) len by (simp_all del: length_greater_0_conv)
    then show ?thesis by (subst CoreCleanupGcdMapEntry_loop.simps) (simp add: merge)
  qed
  also have "\<dots> = (gcd_merge_seq ?P xs @ Q, length (gcd_merge_seq ?P xs) - 1,
      pool + length ?P - (length P + 1) + length (gcd_merge_seq ?P xs) - (length ?P + length xs))"
    by (rule Cons.IH) (use Cons.prems len in auto)
  finally show ?case
    using Cons.prems len by simp
qed

text \<open>The last merge, of the entry at \<open>EndLink\<close> with the one after it.\<close>

definition gcd_merge_join :: "gcd_map \<Rightarrow> gcd_map \<Rightarrow> gcd_map" where
  "gcd_merge_join P Q =
     (if Q \<noteq> [] \<and> gcd_kind (last P) = gcd_kind (hd Q)
      then butlast P @ (last P)\<lparr>EndAddress := EndAddress (hd Q)\<rparr> # tl Q
      else P @ Q)"

lemma CoreMergeGcdMapEntry_forward:
  assumes "gcd_signed (P @ Q)" and "P \<noteq> []"
  shows "\<exists>Status Link. CoreMergeGcdMapEntry (P @ Q) (length P - 1) True pool =
     (Status, gcd_merge_join P Q, Link,
      pool + length (gcd_merge_join P Q) - (length P + length Q))"
proof (cases Q)
  case Nil
  then show ?thesis
    using assms by (auto simp: CoreMergeGcdMapEntry_def gcd_merge_join_def)
next
  case (Cons y Q')
  obtain P' x where P: "P = P' @ [x]" using assms(2) by (metis rev_exhaust)
  have "Signature y = Signature x" using assms P Cons by simp
  then show ?thesis
    using P Cons
    by (auto simp: CoreMergeGcdMapEntry_def gcd_merge_join_def gcd_kind_eq_iff nth_append Let_def)
qed

lemma gcd_merge_join_signed:
  "gcd_signed (P @ Q) \<Longrightarrow> P \<noteq> [] \<Longrightarrow> gcd_signed (gcd_merge_join P Q)"
  by (cases P rule: rev_cases; cases Q) (auto simp: gcd_merge_join_def)

lemma gcd_merge_join_tiles:
  "gcd_tiles s (P @ Q) e \<Longrightarrow> P \<noteq> [] \<Longrightarrow> gcd_tiles s (gcd_merge_join P Q) e"
  by (cases P rule: rev_cases; cases Q) (auto simp: gcd_merge_join_def gcd_tiles_append)

lemma gcd_merge_join_lookup:
  "gcd_tiles s (P @ Q) e \<Longrightarrow> P \<noteq> [] \<Longrightarrow>
     gcd_lookup (gcd_merge_join P Q) a = gcd_lookup (P @ Q) a"
  by (cases P rule: rev_cases; cases Q)
    (auto simp: gcd_merge_join_def gcd_tiles_append gcd_lookup_append gcd_lookup_Cons
       gcd_covers_unat split: option.split)

lemma gcd_merge_join_canonical:
  "gcd_canonical P \<Longrightarrow> gcd_canonical Q \<Longrightarrow> P \<noteq> [] \<Longrightarrow> gcd_canonical (gcd_merge_join P Q)"
  by (cases P rule: rev_cases; cases Q)
    (auto simp: gcd_merge_join_def gcd_canonical_append, (case_tac list; auto)+)

lemma CoreCleanupGcdMapEntry_eq:
  assumes "gcd_signed (P @ seg @ Q)" and "seg \<noteq> []"
    and "length P + length seg + length Q \<le> pool2"
    and "pool2 = pool - (if Signature TopEntry = 0 then 1 else 0) - (if Signature BottomEntry = 0 then 1 else 0)"
  shows "CoreCleanupGcdMapEntry TopEntry BottomEntry (length P) (length P + length seg - 1)
           (P @ seg @ Q) pool =
     (EFI_SUCCESS, gcd_merge_join (gcd_merge_seq P seg) Q,
      pool2 + length (gcd_merge_join (gcd_merge_seq P seg) Q) - (length P + length seg + length Q))"
proof -
  let ?M = "gcd_merge_seq P seg"
  have M: "?M \<noteq> []" using assms(2) by (simp add: gcd_merge_seq_nonempty)
  have loop: "CoreCleanupGcdMapEntry_loop (P @ seg @ Q) (length P) (length P + length seg - 1) pool2 =
     (?M @ Q, length ?M - 1, pool2 + length ?M - (length P + length seg))"
    by (rule CoreCleanupGcdMapEntry_loop_eq) (use assms in \<open>auto simp: Suc_le_eq\<close>)
  obtain Status Link where fwd: "CoreMergeGcdMapEntry (?M @ Q) (length ?M - 1) True
      (pool2 + length ?M - (length P + length seg)) =
     (Status, gcd_merge_join ?M Q, Link,
      pool2 + length ?M - (length P + length seg) + length (gcd_merge_join ?M Q) - (length ?M + length Q))"
    using CoreMergeGcdMapEntry_forward [of ?M Q "pool2 + length ?M - (length P + length seg)"]
      M assms(1) by auto
  have "(if Signature BottomEntry = 0 then (if Signature TopEntry = 0 then pool - 1 else pool) - 1
        else (if Signature TopEntry = 0 then pool - 1 else pool)) = pool2"
    using assms(4) by simp
  then show ?thesis
    using loop fwd gcd_merge_seq_length [of P seg] assms(3)
    by (simp add: CoreCleanupGcdMapEntry_def Let_def)
qed

end
