(* ===== verification/GcdRange.thy ===== *)
theory GcdRange
  imports GcdMap
begin

text \<open>
  Searching a range in a GCD map and changing the entries of a range
  (\<^verbatim>\<open>MdeModulePkg/Core/Dxe/Gcd/Gcd.c\<close>).  \<open>gcd_update_range\<close> is the loop that
  \<^verbatim>\<open>CoreConvertSpace\<close> and \<^verbatim>\<open>CoreAllocateSpace\<close> both run; the lemmas follow the map through
  it: the search finds the segment of the range (\<open>CoreSearchGcdMapEntry_cases\<close>), splitting and
  changing replaces exactly that segment (\<open>gcd_update_range_eq\<close>, \<open>gcd_spliced_lookup\<close>), and the
  clean-up merges what can be merged, keeps the map invariant and gives back every block it
  does not need (\<open>gcd_remerged_inv\<close>, \<open>gcd_update_cleanup\<close>).
\<close>

section \<open>Splitting\<close>

definition gcd_lower :: "u64 \<Rightarrow> EFI_GCD_MAP_ENTRY \<Rightarrow> gcd_map" where
  "gcd_lower Base x = (if Base > BaseAddress x then [x\<lparr>EndAddress := Base - 1\<rparr>] else [])"

definition gcd_clip :: "u64 \<Rightarrow> u64 \<Rightarrow> EFI_GCD_MAP_ENTRY \<Rightarrow> EFI_GCD_MAP_ENTRY" where
  "gcd_clip Base Length x = x\<lparr>
     BaseAddress := (if Base > BaseAddress x then Base else BaseAddress x),
     EndAddress := (if Base + Length - 1 < EndAddress x then Base + Length - 1 else EndAddress x)\<rparr>"

definition gcd_upper :: "u64 \<Rightarrow> u64 \<Rightarrow> EFI_GCD_MAP_ENTRY \<Rightarrow> gcd_map" where
  "gcd_upper Base Length x =
     (if Base + Length - 1 < EndAddress x then [x\<lparr>BaseAddress := Base + Length\<rparr>] else [])"

lemma CoreInsertGcdMapEntry_eq:
  "CoreInsertGcdMapEntry (P @ x # Q) (length P) Base Length Top Bottom =
     (P @ gcd_lower Base x @ gcd_clip Base Length x # gcd_upper Base Length x @ Q,
      length P + length (gcd_lower Base x),
      (if gcd_upper Base Length x = [] then Top
       else (gcd_clip Base Length x)\<lparr>BaseAddress := Base + Length, EndAddress := EndAddress x\<rparr>),
      (if gcd_lower Base x = [] then Bottom else hd (gcd_lower Base x)))"
  by (simp add: CoreInsertGcdMapEntry_def gcd_lower_def gcd_clip_def gcd_upper_def nth_append Let_def)

text \<open>
  The loop of \<^verbatim>\<open>CoreConvertSpace\<close> and \<^verbatim>\<open>CoreAllocateSpace\<close> over the entries from
  \<^verbatim>\<open>StartLink\<close> to \<^verbatim>\<open>EndLink\<close>: split, then change the entry.  \<open>n\<close> is the number of entries
  still to visit.  \<open>body\<close> is the change, with the variable \<^verbatim>\<open>Attributes\<close> it may assign.
\<close>

fun gcd_update_range ::
  "(EFI_GCD_MAP_ENTRY \<Rightarrow> u64 \<Rightarrow> EFI_GCD_MAP_ENTRY \<times> u64) \<Rightarrow> u64 \<Rightarrow> u64 \<Rightarrow> nat \<Rightarrow> gcd_map \<Rightarrow> nat \<Rightarrow>
     u64 \<Rightarrow> EFI_GCD_MAP_ENTRY \<Rightarrow> EFI_GCD_MAP_ENTRY \<Rightarrow>
     gcd_map \<times> nat \<times> EFI_GCD_MAP_ENTRY \<times> EFI_GCD_MAP_ENTRY" where
  "gcd_update_range body Base Length 0 Map Link Attrs Top Bottom = (Map, Link - 1, Top, Bottom)"
| "gcd_update_range body Base Length (Suc n) Map Link Attrs Top Bottom =
     (let (Map1, Link1, Top1, Bottom1) = CoreInsertGcdMapEntry Map Link Base Length Top Bottom;
          (Entry, Attrs1) = body (Map1 ! Link1) Attrs
      in gcd_update_range body Base Length n (Map1[Link1 := Entry]) (Link1 + 1) Attrs1
           Top1 Bottom1)"

fun gcd_mids ::
  "(EFI_GCD_MAP_ENTRY \<Rightarrow> u64 \<Rightarrow> EFI_GCD_MAP_ENTRY \<times> u64) \<Rightarrow> u64 \<Rightarrow> u64 \<Rightarrow> gcd_map \<Rightarrow> u64 \<Rightarrow> gcd_map" where
  "gcd_mids body Base Length [] Attrs = []"
| "gcd_mids body Base Length (x # xs) Attrs =
     (let (Entry, Attrs1) = body (gcd_clip Base Length x) Attrs
      in Entry # gcd_mids body Base Length xs Attrs1)"

lemma length_gcd_mids [simp]: "length (gcd_mids body Base Length seg Attrs) = length seg"
  by (induction seg arbitrary: Attrs) (auto split: prod.split)

lemma gcd_update_range_rest:
  assumes "seg \<noteq> []" and "\<forall>x \<in> set seg. gcd_lower Base x = []"
    and "\<forall>x \<in> set (butlast seg). gcd_upper Base Length x = []"
  shows "gcd_update_range body Base Length (length seg) (P @ seg @ Q) (length P) Attrs Top Bottom =
    (P @ gcd_mids body Base Length seg Attrs @ gcd_upper Base Length (last seg) @ Q,
     length P + length seg - 1,
     (if gcd_upper Base Length (last seg) = [] then Top
      else (gcd_clip Base Length (last seg))\<lparr>BaseAddress := Base + Length,
              EndAddress := EndAddress (last seg)\<rparr>),
     Bottom)"
  using assms
proof (induction seg arbitrary: P Attrs)
  case (Cons x xs)
  obtain E A where body: "body (gcd_clip Base Length x) Attrs = (E, A)" by fastforce
  show ?case
  proof (cases "xs = []")
    case True
    then show ?thesis
      using Cons.prems body by (simp add: CoreInsertGcdMapEntry_eq nth_append list_update_append)
  next
    case False
    then have no: "gcd_upper Base Length x = []" "gcd_lower Base x = []" using Cons.prems by auto
    have "gcd_update_range body Base Length (length xs) ((P @ [E]) @ xs @ Q) (length (P @ [E])) A Top Bottom =
      ((P @ [E]) @ gcd_mids body Base Length xs A @ gcd_upper Base Length (last xs) @ Q,
       length (P @ [E]) + length xs - 1,
       (if gcd_upper Base Length (last xs) = [] then Top
        else (gcd_clip Base Length (last xs))\<lparr>BaseAddress := Base + Length,
                EndAddress := EndAddress (last xs)\<rparr>), Bottom)"
      using Cons.IH [of "P @ [E]" A] Cons.prems False by simp
    then show ?thesis
      using False body no by (simp add: CoreInsertGcdMapEntry_eq nth_append list_update_append)
  qed
qed simp

lemma gcd_update_range_eq:
  assumes "seg \<noteq> []" and "\<forall>x \<in> set (tl seg). gcd_lower Base x = []"
    and "\<forall>x \<in> set (butlast seg). gcd_upper Base Length x = []"
  shows "gcd_update_range body Base Length (length seg) (P @ seg @ Q) (length P) Attrs Top Bottom =
    (P @ gcd_lower Base (hd seg) @ gcd_mids body Base Length seg Attrs @
       gcd_upper Base Length (last seg) @ Q,
     length P + length (gcd_lower Base (hd seg)) + length seg - 1,
     (if gcd_upper Base Length (last seg) = [] then Top
      else (gcd_clip Base Length (last seg))\<lparr>BaseAddress := Base + Length,
              EndAddress := EndAddress (last seg)\<rparr>),
     (if gcd_lower Base (hd seg) = [] then Bottom else hd (gcd_lower Base (hd seg))))"
proof -
  obtain x xs where seg: "seg = x # xs" using assms(1) by (cases seg) auto
  obtain E A where body: "body (gcd_clip Base Length x) Attrs = (E, A)" by fastforce
  let ?P = "P @ gcd_lower Base x @ [E]"
  show ?thesis
  proof (cases "xs = []")
    case True
    then show ?thesis
      using seg body by (simp add: CoreInsertGcdMapEntry_eq nth_append list_update_append)
  next
    case False
    then have no: "gcd_upper Base Length x = []" using assms(3) seg by auto
    have "gcd_update_range body Base Length (length xs) (?P @ xs @ Q) (length ?P) A Top
        (if gcd_lower Base x = [] then Bottom else hd (gcd_lower Base x)) =
      (?P @ gcd_mids body Base Length xs A @ gcd_upper Base Length (last xs) @ Q,
       length ?P + length xs - 1,
       (if gcd_upper Base Length (last xs) = [] then Top
        else (gcd_clip Base Length (last xs))\<lparr>BaseAddress := Base + Length,
                EndAddress := EndAddress (last xs)\<rparr>),
       (if gcd_lower Base x = [] then Bottom else hd (gcd_lower Base x)))"
      by (rule gcd_update_range_rest) (use assms seg False in auto)
    then show ?thesis
      using seg False body no by (simp add: CoreInsertGcdMapEntry_eq nth_append list_update_append)
  qed
qed


section \<open>Searching\<close>

text \<open>
  \<open>gcd_segment Map Base End P seg Q\<close>: \<open>seg\<close> are the entries of the map from the one that holds
  \<open>Base\<close> to the one that holds \<open>End\<close>.
\<close>

definition gcd_segment :: "gcd_map \<Rightarrow> u64 \<Rightarrow> u64 \<Rightarrow> gcd_map \<Rightarrow> gcd_map \<Rightarrow> gcd_map \<Rightarrow> bool" where
  "gcd_segment Map Base End P seg Q \<longleftrightarrow> Map = P @ seg @ Q \<and> seg \<noteq> [] \<and>
     gcd_covers (hd seg) Base \<and> gcd_covers (last seg) End"

lemma gcd_search_end_found:
  assumes "gcd_tiles s xs e" and "unat Base < s" and "s \<le> unat (Base + Length - 1)"
    and "unat (Base + Length - 1) < e"
  shows "\<exists>ys y zs. xs = ys @ y # zs \<and> gcd_covers y (Base + Length - 1) \<and>
    CoreSearchGcdMapEntry_loop Base Length xs i (Some k) = (EFI_SUCCESS, Some k, Some (i + length ys))"
  using assms
proof (induction xs arbitrary: s i)
  case (Cons x xs)
  have nb: "\<not> (Base \<ge> BaseAddress x \<and> Base \<le> EndAddress x)"
    using Cons.prems by (auto simp: u64_arith)
  show ?case
  proof (cases "gcd_covers x (Base + Length - 1)")
    case True
    then have "CoreSearchGcdMapEntry_loop Base Length (x # xs) i (Some k) =
          (EFI_SUCCESS, Some k, Some (i + length []))"
      using nb by (auto simp: gcd_covers_def Let_def)
    with True show ?thesis by (metis append_Nil)
  next
    case False
    then obtain ys y zs where "xs = ys @ y # zs" "gcd_covers y (Base + Length - 1)"
      "CoreSearchGcdMapEntry_loop Base Length xs (i + 1) (Some k) =
         (EFI_SUCCESS, Some k, Some (i + 1 + length ys))"
      using Cons.IH [of "unat (EndAddress x) + 1" "i + 1"] Cons.prems
      by (auto simp: gcd_covers_unat)
    moreover have "CoreSearchGcdMapEntry_loop Base Length (x # xs) i (Some k) =
        CoreSearchGcdMapEntry_loop Base Length xs (i + 1) (Some k)"
      using nb False by (auto simp: gcd_covers_def Let_def)
    ultimately show ?thesis by (intro exI [of _ "x # ys"] exI [of _ y] exI [of _ zs]) simp
  qed
qed auto

lemma gcd_search_beyond:
  assumes "gcd_tiles s xs e" and "e \<le> unat (Base + Length - 1)"
  shows "fst (CoreSearchGcdMapEntry_loop Base Length xs i StartLink) = EFI_NOT_FOUND"
  using assms
proof (induction xs arbitrary: s i StartLink)
  case (Cons x xs)
  have "unat (EndAddress x) < e" using gcd_tiles_member [OF Cons.prems(1), of x] by simp
  then have "\<not> Base + Length - 1 \<le> EndAddress x" using Cons.prems(2) by (simp add: u64_arith)
  then show ?case using Cons by (auto simp: Let_def)
qed simp

lemma gcd_search_found:
  assumes "gcd_tiles s xs e" and "s \<le> unat Base" and "unat Base \<le> unat (Base + Length - 1)"
    and "unat (Base + Length - 1) < e"
  shows "\<exists>P seg Q. gcd_segment xs Base (Base + Length - 1) P seg Q \<and>
    CoreSearchGcdMapEntry_loop Base Length xs i None =
      (EFI_SUCCESS, Some (i + length P), Some (i + length P + length seg - 1))"
  using assms
proof (induction xs arbitrary: s i)
  case (Cons x xs)
  have x: "unat (BaseAddress x) = s" "s \<le> unat (EndAddress x)"
    and tl: "gcd_tiles (unat (EndAddress x) + 1) xs e" using Cons.prems(1) by auto
  let ?last = "Base + Length - 1"
  consider (one) "gcd_covers x Base" "gcd_covers x ?last"
    | (first) "gcd_covers x Base" "\<not> gcd_covers x ?last" | (later) "\<not> gcd_covers x Base" by blast
  then show ?case
  proof cases
    case one
    then have "CoreSearchGcdMapEntry_loop Base Length (x # xs) i None = (EFI_SUCCESS, Some i, Some i)"
      by (simp add: gcd_covers_def Let_def)
    with one show ?thesis
      by (intro exI [of _ "[]"] exI [of _ "[x]"] exI [of _ xs]) (simp add: gcd_segment_def)
  next
    case first
    then obtain ys y zs where "xs = ys @ y # zs" "gcd_covers y ?last"
      "CoreSearchGcdMapEntry_loop Base Length xs (i + 1) (Some i) =
         (EFI_SUCCESS, Some i, Some (i + 1 + length ys))"
      using gcd_search_end_found [OF tl, of Base Length "i + 1" i] Cons.prems(2-4) x
      by (auto simp: gcd_covers_unat)
    moreover have "CoreSearchGcdMapEntry_loop Base Length (x # xs) i None =
        CoreSearchGcdMapEntry_loop Base Length xs (i + 1) (Some i)"
      using first by (auto simp: gcd_covers_def Let_def)
    ultimately show ?thesis using first(1)
      by (intro exI [of _ "[]"] exI [of _ "x # ys @ [y]"] exI [of _ zs]) (simp add: gcd_segment_def)
  next
    case later
    then obtain P seg Q where "gcd_segment xs Base ?last P seg Q"
      "CoreSearchGcdMapEntry_loop Base Length xs (i + 1) None =
        (EFI_SUCCESS, Some (i + 1 + length P), Some (i + 1 + length P + length seg - 1))"
      using Cons.IH [OF tl, of "i + 1"] Cons.prems(2-4) x by (auto simp: gcd_covers_unat)
    moreover have "CoreSearchGcdMapEntry_loop Base Length (x # xs) i None =
        CoreSearchGcdMapEntry_loop Base Length xs (i + 1) None"
      using later by (auto simp: gcd_covers_def Let_def)
    ultimately show ?thesis
      by (intro exI [of _ "x # P"] exI [of _ seg] exI [of _ Q]) (simp add: gcd_segment_def)
  qed
qed auto

lemma CoreSearchGcdMapEntry_cases:
  assumes "gcd_tiles 0 Map limit" and "Length \<noteq> 0" and "unat Base + unat Length \<le> 2 ^ 64"
  obtains (found) P seg Q where "unat Base + unat Length \<le> limit"
      "gcd_segment Map Base (Base + Length - 1) P seg Q"
      "CoreSearchGcdMapEntry Base Length Map =
         (EFI_SUCCESS, Some (length P), Some (length P + length seg - 1))"
    | (missing) StartLink EndLink where "limit < unat Base + unat Length"
      "CoreSearchGcdMapEntry Base Length Map = (EFI_NOT_FOUND, StartLink, EndLink)"
proof -
  have L: "0 < unat Length" using assms(2) by (simp add: unat_gt_0)
  note e = unat_range_end [OF assms(2,3)]
  show ?thesis
  proof (cases "unat Base + unat Length \<le> limit")
    case True
    with L e have "unat Base \<le> unat (Base + Length - 1)" "unat (Base + Length - 1) < limit"
      by linarith+
    then show ?thesis
      using gcd_search_found [OF assms(1), of Base Length 0] found [OF True]
      by (auto simp: CoreSearchGcdMapEntry_def)
  next
    case False
    with L e have "limit \<le> unat (Base + Length - 1)" by linarith
    then show ?thesis
      using gcd_search_beyond [OF assms(1), of Base Length 0 None] missing False
      by (cases "CoreSearchGcdMapEntry Base Length Map") (auto simp: CoreSearchGcdMapEntry_def)
  qed
qed

section \<open>Updating a range\<close>

lemma gcd_lookup_member:
  "gcd_tiles s xs e \<Longrightarrow> x \<in> set xs \<Longrightarrow> gcd_covers x a \<Longrightarrow> gcd_lookup xs a = Some (gcd_kind x)"
proof (induction xs arbitrary: s)
  case (Cons y ys)
  show ?case
  proof (cases "x = y")
    case False
    then have "x \<in> set ys" and tl: "gcd_tiles (unat (EndAddress y) + 1) ys e" using Cons.prems by auto
    then have "\<not> gcd_covers y a"
      using gcd_tiles_member [OF tl, of x] Cons.prems(3) by (auto simp: gcd_covers_unat)
    then show ?thesis using Cons.IH [OF tl \<open>x \<in> set ys\<close>] Cons.prems(3) by (simp add: gcd_lookup_Cons)
  qed (use Cons.prems in \<open>simp add: gcd_lookup_Cons\<close>)
qed simp

text \<open>
  \<open>ms\<close> are entries with the addresses of \<open>xs\<close>, each cut down to the range;
  \<open>gcd_changed f ms xs\<close>: what they say besides is changed by \<open>f\<close>.
\<close>

definition gcd_clipped :: "u64 \<Rightarrow> u64 \<Rightarrow> gcd_map \<Rightarrow> gcd_map \<Rightarrow> bool" where
  "gcd_clipped Base Length ms xs \<longleftrightarrow>
     list_all2 (\<lambda>m x. BaseAddress m = BaseAddress (gcd_clip Base Length x) \<and>
       EndAddress m = EndAddress (gcd_clip Base Length x)) ms xs"

definition gcd_changed :: "(EFI_GCD_MAP_ENTRY \<Rightarrow> EFI_GCD_MAP_ENTRY) \<Rightarrow> gcd_map \<Rightarrow> gcd_map \<Rightarrow> bool" where
  "gcd_changed f ms xs \<longleftrightarrow> list_all2 (\<lambda>m x. gcd_kind m = f (gcd_kind x)) ms xs"

lemma gcd_covers_clip:
  "Base \<le> a \<Longrightarrow> a \<le> Base + Length - 1 \<Longrightarrow>
     gcd_covers (gcd_clip Base Length x) a \<longleftrightarrow> gcd_covers x a"
  by (auto simp: gcd_covers_unat gcd_clip_def u64_arith)

lemma gcd_changed_lookup:
  assumes "gcd_clipped Base Length ms xs" and "gcd_changed f ms xs"
    and "Base \<le> a" and "a \<le> Base + Length - 1"
  shows "gcd_lookup ms a = map_option f (gcd_lookup xs a)"
proof -
  have "list_all2 (\<lambda>m x. gcd_kind m = f (gcd_kind x) \<and> (gcd_covers m a \<longleftrightarrow> gcd_covers x a)) ms xs"
    using assms gcd_covers_clip [OF assms(3,4)]
    by (auto simp: gcd_clipped_def gcd_changed_def gcd_covers_def list_all2_conv_all_nth)
  then show ?thesis by (induction ms xs rule: list_all2_induct) (auto simp: gcd_lookup_Cons)
qed

lemma gcd_clipped_tiles_rest:
  assumes "gcd_clipped Base Length ms xs" and "gcd_tiles s xs e" and "xs \<noteq> []"
    and "unat Base \<le> s" and "gcd_covers (last xs) (Base + Length - 1)"
  shows "gcd_tiles s ms (unat (Base + Length - 1) + 1)"
  using assms(1)[unfolded gcd_clipped_def] assms(2-)
proof (induction ms xs arbitrary: s rule: list_all2_induct)
  case (Cons m ms x xs)
  have b: "unat (BaseAddress m) = s"
    using Cons.hyps Cons.prems(1,3) by (auto simp: gcd_clip_def u64_arith)
  show ?case
  proof (cases "xs = []")
    case True
    then have "ms = []" and "unat (EndAddress m) = unat (Base + Length - 1)"
      using Cons.hyps Cons.prems by (auto simp: gcd_clip_def gcd_covers_unat u64_arith)
    then show ?thesis using b Cons.prems True by (auto simp: gcd_covers_unat)
  next
    case False
    have tl: "gcd_tiles (unat (EndAddress x) + 1) xs e" using Cons.prems(1) by simp
    then have "unat (EndAddress x) < unat (Base + Length - 1)"
      using gcd_tiles_member [OF tl last_in_set [OF False]] Cons.prems(4) False
      by (auto simp: gcd_covers_unat)
    then have "EndAddress m = EndAddress x"
      using Cons.hyps by (auto simp: gcd_clip_def u64_arith)
    then show ?thesis
      using Cons.IH [OF tl False] Cons.prems b False by simp
  qed
qed simp

lemma gcd_clipped_tiles:
  assumes "gcd_clipped Base Length ms xs" and "gcd_tiles s xs e" and "xs \<noteq> []"
    and "gcd_covers (hd xs) Base" and "gcd_covers (last xs) (Base + Length - 1)"
    and "unat Base \<le> unat (Base + Length - 1)"
  shows "gcd_tiles (unat Base) ms (unat (Base + Length - 1) + 1)"
proof -
  obtain x xs' where xs: "xs = x # xs'" using assms(3) by (cases xs) auto
  let ?xs = "x\<lparr>BaseAddress := Base\<rparr> # xs'"
  have "gcd_clipped Base Length ms ?xs"
    using assms(1,4) xs by (cases ms) (auto simp: gcd_clipped_def gcd_clip_def gcd_covers_def)
  moreover have "gcd_tiles (unat Base) ?xs e"
    using assms(2,4) xs by (auto simp: gcd_covers_unat)
  moreover have "gcd_covers (last ?xs) (Base + Length - 1)"
    using assms(5,6) xs by (auto simp: gcd_covers_unat)
  ultimately show ?thesis by (intro gcd_clipped_tiles_rest) auto
qed


text \<open>
  What the two loops leave of a map of which \<open>seg\<close> is the segment of the range and \<open>ms\<close> the
  changed entries: first split, then merged.
\<close>

definition gcd_spliced :: "u64 \<Rightarrow> u64 \<Rightarrow> gcd_map \<Rightarrow> gcd_map \<Rightarrow> gcd_map \<Rightarrow> gcd_map \<Rightarrow> gcd_map" where
  "gcd_spliced Base Length P seg ms Q =
     (P @ gcd_lower Base (hd seg)) @ ms @ (gcd_upper Base Length (last seg) @ Q)"

definition gcd_remerged :: "u64 \<Rightarrow> u64 \<Rightarrow> gcd_map \<Rightarrow> gcd_map \<Rightarrow> gcd_map \<Rightarrow> gcd_map \<Rightarrow> gcd_map" where
  "gcd_remerged Base Length P seg ms Q =
     gcd_merge_join (gcd_merge_seq (P @ gcd_lower Base (hd seg)) ms)
       (gcd_upper Base Length (last seg) @ Q)"

lemma gcd_lower_tiles:
  "gcd_covers x Base \<Longrightarrow> gcd_tiles (unat (BaseAddress x)) (gcd_lower Base x) (unat Base)"
proof (cases "BaseAddress x < Base")
  case True
  then have "Base \<noteq> 0" by auto
  then show ?thesis using True unat_pred [of Base] by (auto simp: gcd_lower_def u64_arith)
qed (auto simp: gcd_lower_def gcd_covers_def)

lemma gcd_upper_tiles:
  assumes "gcd_covers x (Base + Length - 1)"
  shows "gcd_tiles (unat (Base + Length - 1) + 1) (gcd_upper Base Length x) (unat (EndAddress x) + 1)"
proof (cases "Base + Length - 1 < EndAddress x")
  case True
  then have "unat (Base + Length - 1) + 1 < 2 ^ 64"
    using unat_u64_bound [of "EndAddress x"] by (simp only: u64_arith)
  then have "unat (Base + Length) = unat (Base + Length - 1) + 1"
    using unat_succ [of "Base + Length - 1"] by simp
  then show ?thesis using True by (auto simp: gcd_upper_def u64_arith)
qed (use assms in \<open>auto simp: gcd_upper_def gcd_covers_def\<close>)

lemma gcd_segment_tiles:
  assumes "gcd_segment Map Base End P seg Q" and "gcd_tiles 0 Map limit"
  shows "gcd_tiles 0 P (unat (BaseAddress (hd seg)))"
    and "gcd_tiles (unat (BaseAddress (hd seg))) seg (unat (EndAddress (last seg)) + 1)"
    and "gcd_tiles (unat (EndAddress (last seg)) + 1) Q limit"
proof -
  obtain p q where pq: "gcd_tiles 0 P p" "gcd_tiles p seg q" "gcd_tiles q Q limit" and "seg \<noteq> []"
    using assms by (auto simp: gcd_segment_def gcd_tiles_append)
  moreover have "p = unat (BaseAddress (hd seg))" using pq(2) \<open>seg \<noteq> []\<close> by (cases seg) auto
  moreover have "q = unat (EndAddress (last seg)) + 1"
    using pq(2) \<open>seg \<noteq> []\<close> by (cases seg rule: rev_cases) (auto simp: gcd_tiles_append)
  ultimately show "gcd_tiles 0 P (unat (BaseAddress (hd seg)))"
    "gcd_tiles (unat (BaseAddress (hd seg))) seg (unat (EndAddress (last seg)) + 1)"
    "gcd_tiles (unat (EndAddress (last seg)) + 1) Q limit" by simp_all
qed

definition gcd_range_change ::
  "gcd_map \<Rightarrow> nat \<Rightarrow> u64 \<Rightarrow> u64 \<Rightarrow> gcd_map \<Rightarrow> gcd_map \<Rightarrow> gcd_map \<Rightarrow> gcd_map \<Rightarrow> bool" where
  "gcd_range_change Map limit Base Length P seg Q ms \<longleftrightarrow>
     gcd_segment Map Base (Base + Length - 1) P seg Q \<and> gcd_tiles 0 Map limit \<and>
     unat Base \<le> unat (Base + Length - 1) \<and> gcd_clipped Base Length ms seg"

lemma gcd_range_change_pieces:
  assumes "gcd_range_change Map limit Base Length P seg Q ms"
  shows "gcd_tiles 0 (P @ gcd_lower Base (hd seg)) (unat Base)"
    and "gcd_tiles (unat Base) ms (unat (Base + Length - 1) + 1)"
    and "gcd_tiles (unat (Base + Length - 1) + 1) (gcd_upper Base Length (last seg) @ Q) limit"
proof -
  note [simp] = gcd_range_change_def gcd_segment_def
  have seg: "gcd_segment Map Base (Base + Length - 1) P seg Q" "gcd_tiles 0 Map limit"
    using assms by auto
  note t = gcd_segment_tiles [OF seg]
  show "gcd_tiles 0 (P @ gcd_lower Base (hd seg)) (unat Base)"
    using t(1) gcd_lower_tiles assms unfolding gcd_tiles_append by auto
  show "gcd_tiles (unat Base) ms (unat (Base + Length - 1) + 1)"
    using assms by (intro gcd_clipped_tiles [OF _ t(2)]) auto
  show "gcd_tiles (unat (Base + Length - 1) + 1) (gcd_upper Base Length (last seg) @ Q) limit"
    using t(3) gcd_upper_tiles assms unfolding gcd_tiles_append by auto
qed

lemma gcd_spliced_tiles:
  "gcd_range_change Map limit Base Length P seg Q ms \<Longrightarrow>
     gcd_tiles 0 (gcd_spliced Base Length P seg ms Q) limit"
  using gcd_range_change_pieces unfolding gcd_spliced_def gcd_tiles_append by meson

lemma gcd_lower_lookup:
  "gcd_covers x Base \<Longrightarrow> BaseAddress x \<le> a \<Longrightarrow> a < Base \<Longrightarrow>
     gcd_lookup (gcd_lower Base x) a = Some (gcd_kind x)"
proof -
  assume "gcd_covers x Base" "BaseAddress x \<le> a" "a < Base"
  moreover from this have "unat (Base - 1) = unat Base - 1" by (intro unat_pred) auto
  ultimately show ?thesis
    by (auto simp: gcd_lower_def gcd_lookup_Cons gcd_covers_unat u64_arith)
qed

lemma gcd_upper_lookup:
  assumes "gcd_covers x (Base + Length - 1)" "Base + Length - 1 < a" "a \<le> EndAddress x"
  shows "gcd_lookup (gcd_upper Base Length x) a = Some (gcd_kind x)"
proof -
  note t = gcd_upper_tiles [OF assms(1)]
  have "gcd_lookup (gcd_upper Base Length x) a \<noteq> None"
    using gcd_lookup_None_iff [OF t, of a] assms(2,3) by (auto simp: u64_arith)
  then show ?thesis by (auto simp: gcd_upper_def gcd_lookup_Cons split: if_splits)
qed

lemma gcd_segment_lookup:
  assumes "gcd_segment Map Base End P seg Q" and "gcd_tiles 0 Map limit"
  shows "gcd_lookup Map a =
    (if unat a < unat (BaseAddress (hd seg)) then gcd_lookup P a
     else if unat a < unat (EndAddress (last seg)) + 1 then gcd_lookup seg a
     else gcd_lookup Q a)"
proof -
  note t = gcd_segment_tiles [OF assms]
  have "gcd_tiles (unat (BaseAddress (hd seg))) (seg @ Q) limit"
    using t gcd_tiles_append by blast
  from gcd_lookup_append_tiles [OF t(1) this] gcd_lookup_append_tiles [OF t(2,3)] show ?thesis
    using assms(1) by (simp add: gcd_segment_def)
qed

lemma gcd_spliced_lookup:
  assumes "gcd_range_change Map limit Base Length P seg Q ms"
  shows "gcd_lookup (gcd_spliced Base Length P seg ms Q) a =
    (if Base \<le> a \<and> a \<le> Base + Length - 1 then gcd_lookup ms a else gcd_lookup Map a)"
proof -
  note pieces = gcd_range_change_pieces [OF assms]
  have seg: "gcd_segment Map Base (Base + Length - 1) P seg Q" "gcd_tiles 0 Map limit"
    and nw: "unat Base \<le> unat (Base + Length - 1)"
    using assms by (auto simp: gcd_range_change_def)
  have s: "hd seg \<in> set seg" "last seg \<in> set seg"
    and c: "gcd_covers (hd seg) Base" "gcd_covers (last seg) (Base + Length - 1)"
    using seg(1) by (auto simp: gcd_segment_def)
  note t = gcd_segment_tiles [OF seg]
  have tms: "gcd_tiles (unat Base) (ms @ gcd_upper Base Length (last seg) @ Q) limit"
    using pieces gcd_tiles_append by blast
  have new: "gcd_lookup (gcd_spliced Base Length P seg ms Q) a =
    (if unat a < unat Base then (if unat a < unat (BaseAddress (hd seg)) then gcd_lookup P a
       else gcd_lookup (gcd_lower Base (hd seg)) a)
     else if unat a < unat (Base + Length - 1) + 1 then gcd_lookup ms a
     else if unat a < unat (EndAddress (last seg)) + 1
       then gcd_lookup (gcd_upper Base Length (last seg)) a else gcd_lookup Q a)"
    using gcd_lookup_append_tiles [OF pieces(1) tms] gcd_lookup_append_tiles [OF pieces(2,3)]
      gcd_lookup_append_tiles [OF t(1) gcd_lower_tiles [OF c(1)]]
      gcd_lookup_append_tiles [OF gcd_upper_tiles [OF c(2)] t(3)]
    by (simp add: gcd_spliced_def)
  note old = gcd_segment_lookup [OF seg, of a]
  consider (low) "unat a < unat Base" | (mid) "Base \<le> a" "a \<le> Base + Length - 1"
    | (high) "unat (Base + Length - 1) < unat a" using nw by (force simp: u64_arith)
  then show ?thesis
  proof cases
    case low
    then show ?thesis
      using new old nw gcd_lower_lookup [OF c(1), of a] gcd_lookup_member [OF t(2) s(1), of a] c
      by (auto simp: gcd_covers_unat u64_arith)
  next
    case mid
    then show ?thesis
      using new c by (auto simp: gcd_covers_unat u64_arith)
  next
    case high
    then show ?thesis
      using new old nw gcd_upper_lookup [OF c(2), of a] gcd_lookup_member [OF t(2) s(2), of a] c
      by (auto simp: gcd_covers_unat u64_arith)
  qed
qed


lemma gcd_canonical_lower:
  assumes "gcd_canonical (P @ x # Q)"
  shows "gcd_canonical (P @ gcd_lower Base x)"
  using assms by (simp add: gcd_canonical_append gcd_lower_def)

lemma gcd_canonical_upper:
  "gcd_canonical (x # Q) \<Longrightarrow> gcd_canonical (gcd_upper Base Length x @ Q)"
  by (cases Q) (simp_all add: gcd_upper_def)

lemma gcd_signed_lower_upper [simp]:
  "Signature x = EFI_GCD_MAP_SIGNATURE \<Longrightarrow> gcd_signed (gcd_lower Base x)"
  "Signature x = EFI_GCD_MAP_SIGNATURE \<Longrightarrow> gcd_signed (gcd_upper Base Length x)"
  by (auto simp: gcd_lower_def gcd_upper_def)

text \<open>
  A map of the GCD: the entries carry the signature, cover the space \<open>0 \<le> a < limit\<close> without
  gap or overlap, and no two neighbours could be merged.
\<close>

definition gcd_map_inv :: "nat \<Rightarrow> gcd_map \<Rightarrow> bool" where
  "gcd_map_inv limit Map \<longleftrightarrow> gcd_tiles 0 Map limit \<and> gcd_signed Map \<and> gcd_canonical Map"

lemma gcd_remerged_inv:
  assumes "gcd_range_change Map limit Base Length P seg Q ms" and "gcd_map_inv limit Map"
    and "gcd_signed ms"
  shows "gcd_map_inv limit (gcd_remerged Base Length P seg ms Q)"
    and "gcd_lookup (gcd_remerged Base Length P seg ms Q) a =
      (if Base \<le> a \<and> a \<le> Base + Length - 1 then gcd_lookup ms a else gcd_lookup Map a)"
proof -
  let ?P = "P @ gcd_lower Base (hd seg)" and ?Q = "gcd_upper Base Length (last seg) @ Q"
  have Map: "Map = P @ seg @ Q" and seg: "seg \<noteq> []" and ms: "ms \<noteq> []"
    using assms(1) by (auto simp: gcd_range_change_def gcd_segment_def gcd_clipped_def)
  have ne: "gcd_merge_seq ?P ms \<noteq> []" using ms by (simp add: gcd_merge_seq_nonempty)
  have spl: "gcd_tiles 0 (?P @ ms @ ?Q) limit"
    using gcd_spliced_tiles [OF assms(1)] by (simp add: gcd_spliced_def)
  then obtain m where m: "gcd_tiles 0 (?P @ ms) m" "gcd_tiles m ?Q limit"
    by (metis append_assoc gcd_tiles_append)
  have t: "gcd_tiles 0 (gcd_merge_seq ?P ms @ ?Q) limit"
    using gcd_merge_seq_tiles [OF m(1)] m(2) gcd_tiles_append by blast
  have s: "gcd_signed Map" and can: "gcd_canonical Map" using assms(2) by (auto simp: gcd_map_inv_def)
  have "Signature (hd seg) = EFI_GCD_MAP_SIGNATURE" "Signature (last seg) = EFI_GCD_MAP_SIGNATURE"
    using s Map seg by (auto simp: gcd_signed_def)
  then have sg: "gcd_signed (gcd_merge_seq ?P ms @ ?Q)" using s Map assms(3) by simp
  have "gcd_canonical (P @ hd seg # tl seg @ Q)" using can Map seg by (cases seg) auto
  then have canP: "gcd_canonical (gcd_merge_seq ?P ms)"
    by (intro gcd_merge_seq_canonical) (rule gcd_canonical_lower)
  have "gcd_canonical ((P @ butlast seg) @ last seg # Q)"
    using can Map seg by (cases seg rule: rev_cases) auto
  then have "gcd_canonical (last seg # Q)" using gcd_canonical_append by blast
  then have canQ: "gcd_canonical ?Q" by (rule gcd_canonical_upper)
  show "gcd_map_inv limit (gcd_remerged Base Length P seg ms Q)"
    using gcd_merge_join_tiles [OF t ne] gcd_merge_join_signed [OF sg ne]
      gcd_merge_join_canonical [OF canP canQ ne]
    by (simp add: gcd_map_inv_def gcd_remerged_def)
  have "gcd_lookup (gcd_remerged Base Length P seg ms Q) a = gcd_lookup (gcd_merge_seq ?P ms @ ?Q) a"
    using gcd_merge_join_lookup [OF t ne] by (simp add: gcd_remerged_def)
  also have "\<dots> = gcd_lookup ((?P @ ms) @ ?Q) a"
    by (simp only: gcd_lookup_append gcd_merge_seq_lookup [OF m(1)])
  finally show "gcd_lookup (gcd_remerged Base Length P seg ms Q) a =
      (if Base \<le> a \<and> a \<le> Base + Length - 1 then gcd_lookup ms a else gcd_lookup Map a)"
    using gcd_spliced_lookup [OF assms(1), of a] by (simp add: gcd_spliced_def)
qed

text \<open>The position of \<^verbatim>\<open>StartLink\<close> after the loop: one further when a bottom entry was inserted.\<close>

definition gcd_start_after :: "gcd_map \<Rightarrow> nat \<Rightarrow> u64 \<Rightarrow> nat" where
  "gcd_start_after Map StartLink Base =
     (if Base > BaseAddress (Map ! StartLink) then StartLink + 1 else StartLink)"

lemma gcd_segment_no_lower:
  assumes "gcd_segment Map Base End P seg Q" and "gcd_tiles 0 Map limit"
  shows "\<forall>x \<in> set (tl seg). gcd_lower Base x = []"
proof
  fix x assume "x \<in> set (tl seg)"
  moreover have "gcd_tiles (unat (EndAddress (hd seg)) + 1) (tl seg) (unat (EndAddress (last seg)) + 1)"
    using gcd_segment_tiles(2) [OF assms] assms(1) by (cases seg) (auto simp: gcd_segment_def)
  ultimately have "unat (EndAddress (hd seg)) + 1 \<le> unat (BaseAddress x)"
    using gcd_tiles_member by blast
  then show "gcd_lower Base x = []"
    using assms(1) by (auto simp: gcd_lower_def gcd_segment_def gcd_covers_unat u64_arith)
qed

lemma gcd_segment_no_upper:
  assumes "gcd_segment Map Base (Base + Length - 1) P seg Q" and "gcd_tiles 0 Map limit"
  shows "\<forall>x \<in> set (butlast seg). gcd_upper Base Length x = []"
proof
  fix x assume "x \<in> set (butlast seg)"
  moreover have "gcd_tiles (unat (BaseAddress (hd seg))) (butlast seg) (unat (BaseAddress (last seg)))"
    using gcd_segment_tiles(2) [OF assms] assms(1)
    by (cases seg rule: rev_cases) (auto simp: gcd_tiles_append gcd_segment_def)
  ultimately have "unat (EndAddress x) < unat (BaseAddress (last seg))"
    using gcd_tiles_member by blast
  then show "gcd_upper Base Length x = []"
    using assms(1) by (auto simp: gcd_upper_def gcd_segment_def gcd_covers_unat u64_arith)
qed

lemma gcd_update_cleanup:
  assumes "gcd_range_change Map limit Base Length P seg Q (gcd_mids body Base Length seg Attrs)"
    and "gcd_map_inv limit Map" and "gcd_signed (gcd_mids body Base Length seg Attrs)"
    and "length Map \<le> pool"
  shows "(case gcd_update_range body Base Length (length seg) Map (length P) Attrs zero_entry zero_entry of
     (Map1, EndLink1, Top1, Bottom1) \<Rightarrow>
       CoreCleanupGcdMapEntry Top1 Bottom1 (gcd_start_after Map (length P) Base) EndLink1 Map1 (pool + 2))
    = (EFI_SUCCESS, gcd_remerged Base Length P seg (gcd_mids body Base Length seg Attrs) Q,
       pool + length (gcd_remerged Base Length P seg (gcd_mids body Base Length seg Attrs) Q) - length Map)"
proof -
  let ?ms = "gcd_mids body Base Length seg Attrs"
  let ?P = "P @ gcd_lower Base (hd seg)" and ?Q = "gcd_upper Base Length (last seg) @ Q"
  have segm: "gcd_segment Map Base (Base + Length - 1) P seg Q" "gcd_tiles 0 Map limit"
    using assms(1) by (auto simp: gcd_range_change_def)
  have Map: "Map = P @ seg @ Q" and seg: "seg \<noteq> []"
    using segm by (auto simp: gcd_segment_def)
  have sg: "gcd_signed Map" using assms(2) by (simp add: gcd_map_inv_def)
  then have sig: "Signature (hd seg) = EFI_GCD_MAP_SIGNATURE" "Signature (last seg) = EFI_GCD_MAP_SIGNATURE"
    using Map seg by (auto simp: gcd_signed_def)
  note no = gcd_segment_no_lower [OF segm] gcd_segment_no_upper [OF segm]
  have upd: "gcd_update_range body Base Length (length seg) Map (length P) Attrs zero_entry zero_entry =
     (?P @ ?ms @ ?Q, length ?P + length seg - 1,
      (if gcd_upper Base Length (last seg) = [] then zero_entry
       else (gcd_clip Base Length (last seg))\<lparr>BaseAddress := Base + Length, EndAddress := EndAddress (last seg)\<rparr>),
      (if gcd_lower Base (hd seg) = [] then zero_entry else hd (gcd_lower Base (hd seg))))"
    using gcd_update_range_eq [OF seg no, of body P Q Attrs zero_entry zero_entry] Map by simp
  have start: "gcd_start_after Map (length P) Base = length ?P"
    using Map seg by (cases seg) (auto simp: gcd_start_after_def gcd_lower_def)
  have nz: "EFI_GCD_MAP_SIGNATURE \<noteq> 0" by (simp add: efi_const)
  define p2 where "p2 = pool + length (gcd_lower Base (hd seg)) + length (gcd_upper Base Length (last seg))"
  have "CoreCleanupGcdMapEntry
      (if gcd_upper Base Length (last seg) = [] then zero_entry
       else (gcd_clip Base Length (last seg))\<lparr>BaseAddress := Base + Length, EndAddress := EndAddress (last seg)\<rparr>)
      (if gcd_lower Base (hd seg) = [] then zero_entry else hd (gcd_lower Base (hd seg)))
      (length ?P) (length ?P + length ?ms - 1) (?P @ ?ms @ ?Q) (pool + 2) =
     (EFI_SUCCESS, gcd_merge_join (gcd_merge_seq ?P ?ms) ?Q,
      p2 + length (gcd_merge_join (gcd_merge_seq ?P ?ms) ?Q) - (length ?P + length ?ms + length ?Q))"
  proof (rule CoreCleanupGcdMapEntry_eq)
    show "?ms \<noteq> []" using seg by (metis length_0_conv length_gcd_mids)
  qed (use sg sig assms(3,4) Map nz in \<open>auto simp: p2_def gcd_lower_def gcd_upper_def gcd_clip_def zero_entry_def\<close>)
  then show ?thesis
    using upd start assms(4) Map by (simp add: gcd_remerged_def p2_def)
qed

end
