(* ===== verification/GcdServices.thy ===== *)
theory GcdServices
  imports GcdRange
begin

text \<open>
  The services of the Global Coherency Domain (\<^verbatim>\<open>MdeModulePkg/Core/Dxe/Gcd/Gcd.c\<close>): adding,
  allocating, freeing and removing memory and I/O space, and setting attributes and
  capabilities.  The state is the module's variables (the two maps and their locks), the number
  of live map entry blocks, and the calls the services make into other parts of the core, in
  order: the CPU protocol's \<^verbatim>\<open>SetMemoryAttributes\<close> and the memory services'
  \<^verbatim>\<open>CoreAddMemoryDescriptor\<close> and \<^verbatim>\<open>CoreUpdateMemoryAttributes\<close>.  The environment
  \<open>gcd_env\<close> holds what the services are given: the pool allocator's answers, the CPU
  architectural protocol (\<open>None\<close> while it is not installed) and the handle of the DXE core.
  \<^verbatim>\<open>DEBUG\<close> output is left out; an \<^verbatim>\<open>ASSERT\<close> is not a branch of the model.
\<close>

section \<open>State\<close>

record gcd_state =
  mGcdMemorySpaceMap :: gcd_map
  mGcdIoSpaceMap :: gcd_map
  mGcdMemorySpaceLock :: EFI_LOCK_STATE
  mGcdIoSpaceLock :: EFI_LOCK_STATE
  gcd_pool :: nat
  cpu_calls :: "(u64 \<times> u64 \<times> u64) list"
  descriptor_calls :: "(u32 \<times> u64 \<times> u64 \<times> u64) list"
  attribute_calls :: "(u64 \<times> u64 \<times> u64) list"

record gcd_env =
  env_AllocateZeroPool :: "nat \<Rightarrow> bool"
  env_SetMemoryAttributes :: "(u64 \<Rightarrow> u64 \<Rightarrow> u64 \<Rightarrow> EFI_STATUS) option"
  env_gDxeCoreImageHandle :: EFI_HANDLE

datatype GCD_OPERATION =
    GCD_ADD_MEMORY_OPERATION
  | GCD_ALLOCATE_MEMORY_OPERATION
  | GCD_FREE_MEMORY_OPERATION
  | GCD_REMOVE_MEMORY_OPERATION
  | GCD_SET_ATTRIBUTES_MEMORY_OPERATION
  | GCD_SET_CAPABILITIES_MEMORY_OPERATION
  | GCD_ADD_IO_OPERATION
  | GCD_ALLOCATE_IO_OPERATION
  | GCD_FREE_IO_OPERATION
  | GCD_REMOVE_IO_OPERATION

text \<open>
  \<^verbatim>\<open>(Operation & GCD_MEMORY_SPACE_OPERATION) != 0\<close>; the other operations have the bit
  \<^verbatim>\<open>GCD_IO_SPACE_OPERATION\<close>.
\<close>

definition GCD_MEMORY_SPACE_OPERATION :: "GCD_OPERATION \<Rightarrow> bool" where
  "GCD_MEMORY_SPACE_OPERATION Operation \<longleftrightarrow>
     Operation \<in> {GCD_ADD_MEMORY_OPERATION, GCD_ALLOCATE_MEMORY_OPERATION,
       GCD_FREE_MEMORY_OPERATION, GCD_REMOVE_MEMORY_OPERATION,
       GCD_SET_ATTRIBUTES_MEMORY_OPERATION, GCD_SET_CAPABILITIES_MEMORY_OPERATION}"

definition CoreAcquireGcdMemoryLock :: "gcd_state \<Rightarrow> gcd_state" where
  "CoreAcquireGcdMemoryLock s = s\<lparr>mGcdMemorySpaceLock := EfiLockAcquired\<rparr>"

definition CoreReleaseGcdMemoryLock :: "gcd_state \<Rightarrow> gcd_state" where
  "CoreReleaseGcdMemoryLock s = s\<lparr>mGcdMemorySpaceLock := EfiLockReleased\<rparr>"

definition CoreAcquireGcdIoLock :: "gcd_state \<Rightarrow> gcd_state" where
  "CoreAcquireGcdIoLock s = s\<lparr>mGcdIoSpaceLock := EfiLockAcquired\<rparr>"

definition CoreReleaseGcdIoLock :: "gcd_state \<Rightarrow> gcd_state" where
  "CoreReleaseGcdIoLock s = s\<lparr>mGcdIoSpaceLock := EfiLockReleased\<rparr>"

text \<open>The lock and the map an operation works on.\<close>

definition gcd_acquire :: "GCD_OPERATION \<Rightarrow> gcd_state \<Rightarrow> gcd_state" where
  "gcd_acquire Operation s =
     (if GCD_MEMORY_SPACE_OPERATION Operation then CoreAcquireGcdMemoryLock s
      else CoreAcquireGcdIoLock s)"

definition gcd_release :: "GCD_OPERATION \<Rightarrow> gcd_state \<Rightarrow> gcd_state" where
  "gcd_release Operation s =
     (if GCD_MEMORY_SPACE_OPERATION Operation then CoreReleaseGcdMemoryLock s
      else CoreReleaseGcdIoLock s)"

definition gcd_get_map :: "GCD_OPERATION \<Rightarrow> gcd_state \<Rightarrow> gcd_map" where
  "gcd_get_map Operation s =
     (if GCD_MEMORY_SPACE_OPERATION Operation then mGcdMemorySpaceMap s else mGcdIoSpaceMap s)"

definition gcd_set_map :: "GCD_OPERATION \<Rightarrow> gcd_map \<Rightarrow> gcd_state \<Rightarrow> gcd_state" where
  "gcd_set_map Operation Map s =
     (if GCD_MEMORY_SPACE_OPERATION Operation then s\<lparr>mGcdMemorySpaceMap := Map\<rparr>
      else s\<lparr>mGcdIoSpaceMap := Map\<rparr>)"

section \<open>Converting space\<close>

definition EXCLUSIVE_MEMORY_ATTRIBUTES :: u64 where
  "EXCLUSIVE_MEMORY_ATTRIBUTES = EFI_MEMORY_UC OR EFI_MEMORY_WC OR EFI_MEMORY_WT OR
     EFI_MEMORY_WB OR EFI_MEMORY_WP OR EFI_MEMORY_UCE"

definition NONEXCLUSIVE_MEMORY_ATTRIBUTES :: u64 where
  "NONEXCLUSIVE_MEMORY_ATTRIBUTES = EFI_MEMORY_XP OR EFI_MEMORY_RP OR EFI_MEMORY_RO"

definition ConverToCpuArchAttributes :: "u64 \<Rightarrow> u64" where
  "ConverToCpuArchAttributes Attrs =
     (let CpuArchAttributes = Attrs AND NONEXCLUSIVE_MEMORY_ATTRIBUTES
      in if Attrs AND EFI_MEMORY_UC = EFI_MEMORY_UC then CpuArchAttributes OR EFI_MEMORY_UC
         else if Attrs AND EFI_MEMORY_WC = EFI_MEMORY_WC then CpuArchAttributes OR EFI_MEMORY_WC
         else if Attrs AND EFI_MEMORY_WT = EFI_MEMORY_WT then CpuArchAttributes OR EFI_MEMORY_WT
         else if Attrs AND EFI_MEMORY_WB = EFI_MEMORY_WB then CpuArchAttributes OR EFI_MEMORY_WB
         else if Attrs AND EFI_MEMORY_UCE = EFI_MEMORY_UCE then CpuArchAttributes OR EFI_MEMORY_UCE
         else if Attrs AND EFI_MEMORY_WP = EFI_MEMORY_WP then CpuArchAttributes OR EFI_MEMORY_WP
         else CpuArchAttributes)"

text \<open>
  The first entry from \<open>Link\<close> to \<open>EndLink\<close> that a check rejects: the verification loops leave at
  it.
\<close>

function gcd_first_error ::
  "(EFI_GCD_MAP_ENTRY \<Rightarrow> EFI_STATUS) \<Rightarrow> gcd_map \<Rightarrow> nat \<Rightarrow> nat \<Rightarrow> nat option" where
  "gcd_first_error check Map Link EndLink =
     (if Link \<le> EndLink
      then if EFI_ERROR (check (Map ! Link)) then Some Link
           else gcd_first_error check Map (Link + 1) EndLink
      else None)"
  by pat_completeness auto
termination
  by (relation "measure (\<lambda>(check, Map, Link, EndLink). EndLink + 1 - Link)") auto

declare gcd_first_error.simps [simp del]

text \<open>The verification of one entry, the first \<^verbatim>\<open>switch\<close> of \<^verbatim>\<open>CoreConvertSpace\<close>.\<close>

fun CoreConvertSpace_check ::
  "GCD_OPERATION \<Rightarrow> u64 \<Rightarrow> u64 \<Rightarrow> u64 \<Rightarrow> u64 \<Rightarrow> EFI_GCD_MAP_ENTRY \<Rightarrow> EFI_STATUS" where
  "CoreConvertSpace_check GCD_ADD_MEMORY_OPERATION Base Length Caps Attrs Entry =
     (if GcdMemoryType Entry \<noteq> EfiGcdMemoryTypeNonExistent \<or> ImageHandle Entry \<noteq> NULL
      then EFI_ACCESS_DENIED else EFI_SUCCESS)"
| "CoreConvertSpace_check GCD_ADD_IO_OPERATION Base Length Caps Attrs Entry =
     (if GcdIoType Entry \<noteq> EfiGcdIoTypeNonExistent \<or> ImageHandle Entry \<noteq> NULL
      then EFI_ACCESS_DENIED else EFI_SUCCESS)"
| "CoreConvertSpace_check GCD_FREE_MEMORY_OPERATION Base Length Caps Attrs Entry =
     (if ImageHandle Entry = NULL then EFI_NOT_FOUND else EFI_SUCCESS)"
| "CoreConvertSpace_check GCD_FREE_IO_OPERATION Base Length Caps Attrs Entry =
     (if ImageHandle Entry = NULL then EFI_NOT_FOUND else EFI_SUCCESS)"
| "CoreConvertSpace_check GCD_REMOVE_MEMORY_OPERATION Base Length Caps Attrs Entry =
     (if GcdMemoryType Entry = EfiGcdMemoryTypeNonExistent then EFI_NOT_FOUND
      else if ImageHandle Entry \<noteq> NULL then EFI_ACCESS_DENIED else EFI_SUCCESS)"
| "CoreConvertSpace_check GCD_REMOVE_IO_OPERATION Base Length Caps Attrs Entry =
     (if GcdIoType Entry = EfiGcdIoTypeNonExistent then EFI_NOT_FOUND
      else if ImageHandle Entry \<noteq> NULL then EFI_ACCESS_DENIED else EFI_SUCCESS)"
| "CoreConvertSpace_check GCD_SET_ATTRIBUTES_MEMORY_OPERATION Base Length Caps Attrs Entry =
     (if Attrs AND EFI_MEMORY_RUNTIME \<noteq> 0 \<and>
         (Base AND EFI_PAGE_MASK \<noteq> 0 \<or> Length AND EFI_PAGE_MASK \<noteq> 0)
      then EFI_INVALID_PARAMETER
      else if Capabilities Entry AND Attrs \<noteq> Attrs then EFI_UNSUPPORTED else EFI_SUCCESS)"
| "CoreConvertSpace_check GCD_SET_CAPABILITIES_MEMORY_OPERATION Base Length Caps Attrs Entry =
     (if Base AND EFI_PAGE_MASK \<noteq> 0 \<or> Length AND EFI_PAGE_MASK \<noteq> 0
      then EFI_INVALID_PARAMETER
      else if Caps AND Attributes Entry \<noteq> Attributes Entry then EFI_UNSUPPORTED
      else EFI_SUCCESS)"
| "CoreConvertSpace_check _ Base Length Caps Attrs Entry = EFI_SUCCESS"

text \<open>
  The change of one entry, the second \<^verbatim>\<open>switch\<close>: the new entry and the new value of the
  function's parameter \<^verbatim>\<open>Attributes\<close>, which the loop carries to the next entry.
\<close>

fun CoreConvertSpace_body ::
  "GCD_OPERATION \<Rightarrow> EFI_GCD_MEMORY_TYPE \<Rightarrow> EFI_GCD_IO_TYPE \<Rightarrow> u64 \<Rightarrow> u64 \<Rightarrow>
     EFI_GCD_MAP_ENTRY \<Rightarrow> u64 \<Rightarrow> EFI_GCD_MAP_ENTRY \<times> u64" where
  "CoreConvertSpace_body GCD_ADD_MEMORY_OPERATION mt iot Caps CpuArch Entry Attrs =
     (Entry\<lparr>GcdMemoryType := mt,
            Capabilities := (if mt = EfiGcdMemoryTypeMemoryMappedIo
              then Caps OR EFI_MEMORY_RUNTIME OR EFI_MEMORY_PORT_IO
              else Caps OR EFI_MEMORY_RUNTIME)\<rparr>, Attrs)"
| "CoreConvertSpace_body GCD_ADD_IO_OPERATION mt iot Caps CpuArch Entry Attrs =
     (Entry\<lparr>GcdIoType := iot\<rparr>, Attrs)"
| "CoreConvertSpace_body GCD_FREE_MEMORY_OPERATION mt iot Caps CpuArch Entry Attrs =
     (Entry\<lparr>ImageHandle := NULL, DeviceHandle := NULL\<rparr>, Attrs)"
| "CoreConvertSpace_body GCD_FREE_IO_OPERATION mt iot Caps CpuArch Entry Attrs =
     (Entry\<lparr>ImageHandle := NULL, DeviceHandle := NULL\<rparr>, Attrs)"
| "CoreConvertSpace_body GCD_REMOVE_MEMORY_OPERATION mt iot Caps CpuArch Entry Attrs =
     (Entry\<lparr>GcdMemoryType := EfiGcdMemoryTypeNonExistent, Capabilities := 0\<rparr>, Attrs)"
| "CoreConvertSpace_body GCD_REMOVE_IO_OPERATION mt iot Caps CpuArch Entry Attrs =
     (Entry\<lparr>GcdIoType := EfiGcdIoTypeNonExistent\<rparr>, Attrs)"
| "CoreConvertSpace_body GCD_SET_ATTRIBUTES_MEMORY_OPERATION mt iot Caps CpuArch Entry Attrs =
     (let Attrs' = (if CpuArch = 0
            then Attrs OR (Attributes Entry AND
                   (EXCLUSIVE_MEMORY_ATTRIBUTES OR NONEXCLUSIVE_MEMORY_ATTRIBUTES))
            else Attrs)
      in (Entry\<lparr>Attributes := Attrs'\<rparr>, Attrs'))"
| "CoreConvertSpace_body GCD_SET_CAPABILITIES_MEMORY_OPERATION mt iot Caps CpuArch Entry Attrs =
     (Entry\<lparr>Capabilities := Caps\<rparr>, Attrs)"
| "CoreConvertSpace_body _ mt iot Caps CpuArch Entry Attrs = (Entry, Attrs)"

text \<open>
  The call of the CPU protocol when attributes are set: nothing happens when no CPU attribute
  is asked for.
\<close>

definition CoreConvertSpace_cpu ::
  "gcd_env \<Rightarrow> GCD_OPERATION \<Rightarrow> u64 \<Rightarrow> u64 \<Rightarrow> u64 \<Rightarrow> gcd_state \<Rightarrow> EFI_STATUS \<times> gcd_state" where
  "CoreConvertSpace_cpu env Operation Base Length CpuArch s =
     (if Operation = GCD_SET_ATTRIBUTES_MEMORY_OPERATION \<and> CpuArch \<noteq> 0
      then case env_SetMemoryAttributes env of
             None \<Rightarrow> (EFI_NOT_AVAILABLE_YET, s)
           | Some SetMemoryAttributes \<Rightarrow>
               (SetMemoryAttributes Base Length CpuArch,
                s\<lparr>cpu_calls := cpu_calls s @ [(Base, Length, CpuArch)]\<rparr>)
      else (EFI_SUCCESS, s))"

definition CoreConvertSpace ::
  "gcd_env \<Rightarrow> GCD_OPERATION \<Rightarrow> EFI_GCD_MEMORY_TYPE \<Rightarrow> EFI_GCD_IO_TYPE \<Rightarrow> u64 \<Rightarrow> u64 \<Rightarrow> u64 \<Rightarrow> u64 \<Rightarrow>
     gcd_state \<Rightarrow> EFI_STATUS \<times> gcd_state" where
  "CoreConvertSpace env Operation mt iot Base Length Caps Attrs s =
     (if Length = 0 then (EFI_INVALID_PARAMETER, s)
      else let s1 = gcd_acquire Operation s;
               Map = gcd_get_map Operation s1;
               (Status, StartLink, EndLink) = CoreSearchGcdMapEntry Base Length Map
        in if EFI_ERROR Status then (EFI_UNSUPPORTED, gcd_release Operation s1)
        else case gcd_first_error (CoreConvertSpace_check Operation Base Length Caps Attrs) Map
                    (the StartLink) (the EndLink) of
               Some Link \<Rightarrow>
                 (CoreConvertSpace_check Operation Base Length Caps Attrs (Map ! Link),
                  gcd_release Operation s1)
             | None \<Rightarrow>
        (let (Status2, TopEntry, BottomEntry, pool) =
               CoreAllocateGcdMapEntry (env_AllocateZeroPool env) (gcd_pool s1)
         in if EFI_ERROR Status2
            then (EFI_OUT_OF_RESOURCES, gcd_release Operation (s1\<lparr>gcd_pool := pool\<rparr>))
            else let CpuArch = (if Operation = GCD_SET_ATTRIBUTES_MEMORY_OPERATION
                       then ConverToCpuArchAttributes Attrs else 0);
                     (Status3, s3) = CoreConvertSpace_cpu env Operation Base Length CpuArch
                       (s1\<lparr>gcd_pool := pool\<rparr>)
              in if EFI_ERROR Status3
                 then (Status3, gcd_release Operation (s3\<lparr>gcd_pool := pool - 1 - 1\<rparr>))
                 else let (Map1, EndLink1, Top1, Bottom1) =
                        gcd_update_range (CoreConvertSpace_body Operation mt iot Caps CpuArch)
                          Base Length (the EndLink + 1 - the StartLink) Map (the StartLink) Attrs
                          TopEntry BottomEntry;
                      (Status4, Map2, pool2) =
                        CoreCleanupGcdMapEntry Top1 Bottom1
                          (gcd_start_after Map (the StartLink) Base) EndLink1 Map1 pool
                   in (Status4,
                       gcd_release Operation
                         (gcd_set_map Operation Map2 (s3\<lparr>gcd_pool := pool2\<rparr>)))))"

section \<open>Allocating space\<close>

definition CoreAllocateSpaceCheckEntry ::
  "GCD_OPERATION \<Rightarrow> EFI_GCD_MEMORY_TYPE \<Rightarrow> EFI_GCD_IO_TYPE \<Rightarrow> EFI_GCD_MAP_ENTRY \<Rightarrow> EFI_STATUS" where
  "CoreAllocateSpaceCheckEntry Operation mt iot Entry =
     (if ImageHandle Entry \<noteq> NULL then EFI_NOT_FOUND
      else case Operation of
             GCD_ALLOCATE_MEMORY_OPERATION \<Rightarrow>
               if GcdMemoryType Entry \<noteq> mt then EFI_NOT_FOUND else EFI_SUCCESS
           | GCD_ALLOCATE_IO_OPERATION \<Rightarrow>
               if GcdIoType Entry \<noteq> iot then EFI_NOT_FOUND else EFI_SUCCESS
           | _ \<Rightarrow> EFI_UNSUPPORTED)"

definition gcd_top_down :: "EFI_GCD_ALLOCATE_TYPE \<Rightarrow> bool" where
  "gcd_top_down at \<longleftrightarrow>
     at = EfiGcdAllocateMaxAddressSearchTopDown \<or> at = EfiGcdAllocateAnySearchTopDown"

text \<open>
  What the search does with an entry that passes the check: skip it (\<^verbatim>\<open>continue\<close>), end the
  search (\<^verbatim>\<open>goto Done\<close>), or try the range that starts at the given address.  The last two
  carry the value of \<^verbatim>\<open>*BaseAddress\<close>.
\<close>

datatype gcd_candidate = Skip | GiveUp u64 | Try u64

definition CoreAllocateSpace_candidate ::
  "bool \<Rightarrow> u64 \<Rightarrow> u64 \<Rightarrow> u64 \<Rightarrow> EFI_GCD_MAP_ENTRY \<Rightarrow> u64 \<Rightarrow> gcd_candidate" where
  "CoreAllocateSpace_candidate top_down AlignmentMask Length MaxAddress Entry Base =
     (if top_down
      then if BaseAddress Entry + Length > MaxAddress then Skip
           else if Length > EndAddress Entry + 1 then GiveUp Base
           else Try (((if EndAddress Entry > MaxAddress then MaxAddress else EndAddress Entry)
                       + 1 - Length) AND (NOT AlignmentMask))
      else let Base' = (BaseAddress Entry + AlignmentMask) AND (NOT AlignmentMask)
           in if Base' + Length - 1 > MaxAddress then GiveUp Base' else Try Base')"

text \<open>
  The search loop.  \<open>Link\<close> is \<open>None\<close> at the list head.  The result is \<^verbatim>\<open>Found\<close>, the two links
  and \<^verbatim>\<open>*BaseAddress\<close>; \<open>None\<close> when the fuel runs out.
\<close>

fun CoreAllocateSpace_search ::
  "nat \<Rightarrow> (EFI_GCD_MAP_ENTRY \<Rightarrow> EFI_STATUS) \<Rightarrow> bool \<Rightarrow> u64 \<Rightarrow> u64 \<Rightarrow> u64 \<Rightarrow> gcd_map \<Rightarrow>
     nat option \<Rightarrow> u64 \<Rightarrow> (bool \<times> nat \<times> nat \<times> u64) option" where
  "CoreAllocateSpace_search 0 check top_down AlignmentMask Length MaxAddress Map Link Base = None"
| "CoreAllocateSpace_search (Suc fuel) check top_down AlignmentMask Length MaxAddress Map Link Base =
     (case Link of
        None \<Rightarrow> Some (False, 0, 0, Base)
      | Some i \<Rightarrow>
          let Entry = Map ! i;
              Link' = (if top_down then (if i = 0 then None else Some (i - 1))
                       else (if i + 1 = length Map then None else Some (i + 1)))
          in if EFI_ERROR (check Entry)
             then CoreAllocateSpace_search fuel check top_down AlignmentMask Length MaxAddress
                    Map Link' Base
             else case CoreAllocateSpace_candidate top_down AlignmentMask Length MaxAddress
                         Entry Base of
                    Skip \<Rightarrow> CoreAllocateSpace_search fuel check top_down AlignmentMask Length
                              MaxAddress Map Link' Base
                  | GiveUp Base' \<Rightarrow> Some (False, 0, 0, Base')
                  | Try Base' \<Rightarrow>
                      (let (Status, StartLink, EndLink) = CoreSearchGcdMapEntry Base' Length Map
                       in if EFI_ERROR Status then Some (False, 0, 0, Base')
                          else case gcd_first_error check Map (the StartLink) (the EndLink) of
                                 None \<Rightarrow> Some (True, the StartLink, the EndLink, Base')
                               | Some SubLink \<Rightarrow>
                                   CoreAllocateSpace_search fuel check top_down AlignmentMask
                                     Length MaxAddress Map (Some SubLink) Base'))"

text \<open>
  Finding the range, for each \<^verbatim>\<open>GcdAllocateType\<close>: an error status with \<^verbatim>\<open>*BaseAddress\<close>, or the
  links of the range with its base.
\<close>

definition CoreAllocateSpace_find ::
  "(EFI_GCD_MAP_ENTRY \<Rightarrow> EFI_STATUS) \<Rightarrow> EFI_GCD_ALLOCATE_TYPE \<Rightarrow> u64 \<Rightarrow> u64 \<Rightarrow> gcd_map \<Rightarrow> u64 \<Rightarrow>
     (EFI_STATUS \<times> nat \<times> nat \<times> u64) option" where
  "CoreAllocateSpace_find check at AlignmentMask Length Map Base =
     (if at = EfiGcdAllocateAddress
      then if Base AND AlignmentMask \<noteq> 0 then Some (EFI_NOT_FOUND, 0, 0, Base)
           else let (Status, StartLink, EndLink) = CoreSearchGcdMapEntry Base Length Map
                in if EFI_ERROR Status then Some (EFI_NOT_FOUND, 0, 0, Base)
                   else case gcd_first_error check Map (the StartLink) (the EndLink) of
                          Some Link \<Rightarrow> Some (check (Map ! Link), 0, 0, Base)
                        | None \<Rightarrow> Some (EFI_SUCCESS, the StartLink, the EndLink, Base)
      else let MaxAddress =
                 (if at = EfiGcdAllocateMaxAddressSearchBottomUp \<or>
                     at = EfiGcdAllocateMaxAddressSearchTopDown
                  then Base else EndAddress (last Map));
               Link = (if Map = [] then None
                       else if gcd_top_down at then Some (length Map - 1) else Some 0)
           in case CoreAllocateSpace_search (length Map + 1) check (gcd_top_down at)
                     AlignmentMask Length MaxAddress Map Link Base of
                None \<Rightarrow> None
              | Some (Found, StartLink, EndLink, Base') \<Rightarrow>
                  Some (if Found then EFI_SUCCESS else EFI_NOT_FOUND, StartLink, EndLink, Base'))"

definition CoreAllocateSpace_body ::
  "EFI_HANDLE \<Rightarrow> EFI_HANDLE \<Rightarrow> EFI_GCD_MAP_ENTRY \<Rightarrow> u64 \<Rightarrow> EFI_GCD_MAP_ENTRY \<times> u64" where
  "CoreAllocateSpace_body ImageH DeviceH Entry Attrs =
     (Entry\<lparr>ImageHandle := ImageH, DeviceHandle := DeviceH\<rparr>, Attrs)"

text \<open>
  \<open>BaseAddr\<close> is what the pointer \<^verbatim>\<open>BaseAddress\<close> points to, \<open>None\<close> for a NULL pointer.  The
  result is \<open>None\<close> only if the search loop does not end.
\<close>

definition CoreAllocateSpace ::
  "gcd_env \<Rightarrow> GCD_OPERATION \<Rightarrow> EFI_GCD_ALLOCATE_TYPE \<Rightarrow> EFI_GCD_MEMORY_TYPE \<Rightarrow> EFI_GCD_IO_TYPE \<Rightarrow>
     UINTN \<Rightarrow> u64 \<Rightarrow> u64 option \<Rightarrow> EFI_HANDLE \<Rightarrow> EFI_HANDLE \<Rightarrow> gcd_state \<Rightarrow>
     (EFI_STATUS \<times> u64 option \<times> gcd_state) option" where
  "CoreAllocateSpace env Operation at mt iot Alignment Length BaseAddr ImageH DeviceH s =
     (if at \<ge> EfiGcdMaxAllocateType then Some (EFI_INVALID_PARAMETER, BaseAddr, s)
      else if mt \<ge> EfiGcdMemoryTypeMaximum then Some (EFI_INVALID_PARAMETER, BaseAddr, s)
      else if iot \<ge> EfiGcdIoTypeMaximum then Some (EFI_INVALID_PARAMETER, BaseAddr, s)
      else case BaseAddr of
        None \<Rightarrow> Some (EFI_INVALID_PARAMETER, BaseAddr, s)
      | Some Base \<Rightarrow>
          if ImageH = NULL then Some (EFI_INVALID_PARAMETER, BaseAddr, s)
          else if Alignment \<ge> 64 then Some (EFI_NOT_FOUND, BaseAddr, s)
          else if Length = 0 then Some (EFI_INVALID_PARAMETER, BaseAddr, s)
          else let s1 = gcd_acquire Operation s;
                   Map = gcd_get_map Operation s1;
                   AlignmentMask = push_bit (unat Alignment) 1 - 1
            in case CoreAllocateSpace_find (CoreAllocateSpaceCheckEntry Operation mt iot) at
                      AlignmentMask Length Map Base of
                 None \<Rightarrow> None
               | Some (Status, StartLink, EndLink, Base') \<Rightarrow>
            if EFI_ERROR Status then Some (Status, Some Base', gcd_release Operation s1)
            else let (Status2, TopEntry, BottomEntry, pool) =
                       CoreAllocateGcdMapEntry (env_AllocateZeroPool env) (gcd_pool s1)
              in if EFI_ERROR Status2
                 then Some (EFI_OUT_OF_RESOURCES, Some Base',
                            gcd_release Operation (s1\<lparr>gcd_pool := pool\<rparr>))
                 else let (Map1, EndLink1, Top1, Bottom1) =
                        gcd_update_range (CoreAllocateSpace_body ImageH DeviceH) Base' Length
                          (EndLink + 1 - StartLink) Map StartLink 0 TopEntry BottomEntry;
                      (Status4, Map2, pool2) =
                        CoreCleanupGcdMapEntry Top1 Bottom1
                          (gcd_start_after Map StartLink Base') EndLink1 Map1 pool
                   in Some (Status4, Some Base',
                        gcd_release Operation
                          (gcd_set_map Operation Map2 (s1\<lparr>gcd_pool := pool2\<rparr>))))"

section \<open>Memory space services\<close>

definition CoreInternalAddMemorySpace ::
  "gcd_env \<Rightarrow> EFI_GCD_MEMORY_TYPE \<Rightarrow> u64 \<Rightarrow> u64 \<Rightarrow> u64 \<Rightarrow> gcd_state \<Rightarrow> EFI_STATUS \<times> gcd_state" where
  "CoreInternalAddMemorySpace env mt Base Length Caps s =
     (if mt \<le> EfiGcdMemoryTypeNonExistent \<or> mt \<ge> EfiGcdMemoryTypeMaximum
      then (EFI_INVALID_PARAMETER, s)
      else CoreConvertSpace env GCD_ADD_MEMORY_OPERATION mt 0 Base Length Caps 0 s)"

definition CoreAllocateMemorySpace ::
  "gcd_env \<Rightarrow> EFI_GCD_ALLOCATE_TYPE \<Rightarrow> EFI_GCD_MEMORY_TYPE \<Rightarrow> UINTN \<Rightarrow> u64 \<Rightarrow> u64 option \<Rightarrow>
     EFI_HANDLE \<Rightarrow> EFI_HANDLE \<Rightarrow> gcd_state \<Rightarrow> (EFI_STATUS \<times> u64 option \<times> gcd_state) option" where
  "CoreAllocateMemorySpace env at mt Alignment Length BaseAddr ImageH DeviceH s =
     CoreAllocateSpace env GCD_ALLOCATE_MEMORY_OPERATION at mt 0 Alignment Length BaseAddr
       ImageH DeviceH s"

text \<open>\<^verbatim>\<open>EfiConventionalMemory\<close> of \<^verbatim>\<open>EFI_MEMORY_TYPE\<close>.\<close>

definition EfiConventionalMemory :: u32 where
  [efi_const]: "EfiConventionalMemory = 7"

definition CoreAddMemoryDescriptor ::
  "u32 \<Rightarrow> u64 \<Rightarrow> u64 \<Rightarrow> u64 \<Rightarrow> gcd_state \<Rightarrow> gcd_state" where
  "CoreAddMemoryDescriptor Type Start NumberOfPages Attrs s =
     s\<lparr>descriptor_calls := descriptor_calls s @ [(Type, Start, NumberOfPages, Attrs)]\<rparr>"

text \<open>
  The page by page loop of \<^verbatim>\<open>CoreAddMemorySpace\<close>, for a \<^verbatim>\<open>PageLength\<close> of \<open>n\<close> pages.
\<close>

fun CoreAddMemorySpace_pages ::
  "gcd_env \<Rightarrow> EFI_GCD_MEMORY_TYPE \<Rightarrow> u64 \<Rightarrow> nat \<Rightarrow> u64 \<Rightarrow> EFI_STATUS \<Rightarrow> gcd_state \<Rightarrow>
     (EFI_STATUS \<times> gcd_state) option" where
  "CoreAddMemorySpace_pages env mt Caps 0 PageBase Status s = Some (Status, s)"
| "CoreAddMemorySpace_pages env mt Caps (Suc n) PageBase Status s =
     (case CoreAllocateMemorySpace env EfiGcdAllocateAddress mt (of_nat EFI_PAGE_SHIFT)
             EFI_PAGE_SIZE (Some PageBase) (env_gDxeCoreImageHandle env) NULL s of
        None \<Rightarrow> None
      | Some (Status1, _, s1) \<Rightarrow>
          CoreAddMemorySpace_pages env mt Caps n (PageBase + EFI_PAGE_SIZE) Status1
            (if EFI_ERROR Status1 then s1
             else CoreAddMemoryDescriptor EfiConventionalMemory PageBase 1 Caps s1))"

definition CoreAddMemorySpace ::
  "gcd_env \<Rightarrow> EFI_GCD_MEMORY_TYPE \<Rightarrow> u64 \<Rightarrow> u64 \<Rightarrow> u64 \<Rightarrow> gcd_state \<Rightarrow>
     (EFI_STATUS \<times> gcd_state) option" where
  "CoreAddMemorySpace env mt Base Length Caps s =
     (let (Status, s1) = CoreInternalAddMemorySpace env mt Base Length Caps s
      in if \<not> EFI_ERROR Status \<and>
            (mt = EfiGcdMemoryTypeSystemMemory \<or> mt = EfiGcdMemoryTypeMoreReliable)
         then let PageBase = PageAlignAddress Base;
                  PageLength = PageAlignLength (Base + Length - PageBase)
              in case CoreAllocateMemorySpace env EfiGcdAllocateAddress mt (of_nat EFI_PAGE_SHIFT)
                        PageLength (Some PageBase) (env_gDxeCoreImageHandle env) NULL s1 of
                   None \<Rightarrow> None
                 | Some (Status2, _, s2) \<Rightarrow>
                     if \<not> EFI_ERROR Status2
                     then Some (Status2, CoreAddMemoryDescriptor EfiConventionalMemory PageBase
                                  (drop_bit EFI_PAGE_SHIFT PageLength) Caps s2)
                     else CoreAddMemorySpace_pages env mt Caps
                            (unat (drop_bit EFI_PAGE_SHIFT PageLength)) PageBase Status2 s2
         else Some (Status, s1))"

definition CoreFreeMemorySpace ::
  "gcd_env \<Rightarrow> u64 \<Rightarrow> u64 \<Rightarrow> gcd_state \<Rightarrow> EFI_STATUS \<times> gcd_state" where
  "CoreFreeMemorySpace env Base Length s =
     CoreConvertSpace env GCD_FREE_MEMORY_OPERATION 0 0 Base Length 0 0 s"

definition CoreRemoveMemorySpace ::
  "gcd_env \<Rightarrow> u64 \<Rightarrow> u64 \<Rightarrow> gcd_state \<Rightarrow> EFI_STATUS \<times> gcd_state" where
  "CoreRemoveMemorySpace env Base Length s =
     CoreConvertSpace env GCD_REMOVE_MEMORY_OPERATION 0 0 Base Length 0 0 s"

definition CoreSetMemorySpaceAttributes ::
  "gcd_env \<Rightarrow> u64 \<Rightarrow> u64 \<Rightarrow> u64 \<Rightarrow> gcd_state \<Rightarrow> EFI_STATUS \<times> gcd_state" where
  "CoreSetMemorySpaceAttributes env Base Length Attrs s =
     CoreConvertSpace env GCD_SET_ATTRIBUTES_MEMORY_OPERATION 0 0 Base Length 0 Attrs s"

definition CoreSetMemorySpaceCapabilities ::
  "gcd_env \<Rightarrow> u64 \<Rightarrow> u64 \<Rightarrow> u64 \<Rightarrow> gcd_state \<Rightarrow> EFI_STATUS \<times> gcd_state" where
  "CoreSetMemorySpaceCapabilities env Base Length Caps s =
     (let (Status, s1) =
            CoreConvertSpace env GCD_SET_CAPABILITIES_MEMORY_OPERATION 0 0 Base Length Caps 0 s
      in (Status,
          if EFI_ERROR Status then s1
          else s1\<lparr>attribute_calls := attribute_calls s1 @
                 [(Base, drop_bit EFI_PAGE_SHIFT Length, Caps AND NOT EFI_MEMORY_RUNTIME)]\<rparr>))"

section \<open>I/O space services\<close>

definition CoreAddIoSpace ::
  "gcd_env \<Rightarrow> EFI_GCD_IO_TYPE \<Rightarrow> u64 \<Rightarrow> u64 \<Rightarrow> gcd_state \<Rightarrow> EFI_STATUS \<times> gcd_state" where
  "CoreAddIoSpace env iot Base Length s =
     (if iot \<le> EfiGcdIoTypeNonExistent \<or> iot \<ge> EfiGcdIoTypeMaximum
      then (EFI_INVALID_PARAMETER, s)
      else CoreConvertSpace env GCD_ADD_IO_OPERATION 0 iot Base Length 0 0 s)"

definition CoreAllocateIoSpace ::
  "gcd_env \<Rightarrow> EFI_GCD_ALLOCATE_TYPE \<Rightarrow> EFI_GCD_IO_TYPE \<Rightarrow> UINTN \<Rightarrow> u64 \<Rightarrow> u64 option \<Rightarrow>
     EFI_HANDLE \<Rightarrow> EFI_HANDLE \<Rightarrow> gcd_state \<Rightarrow> (EFI_STATUS \<times> u64 option \<times> gcd_state) option" where
  "CoreAllocateIoSpace env at iot Alignment Length BaseAddr ImageH DeviceH s =
     CoreAllocateSpace env GCD_ALLOCATE_IO_OPERATION at 0 iot Alignment Length BaseAddr
       ImageH DeviceH s"

definition CoreFreeIoSpace ::
  "gcd_env \<Rightarrow> u64 \<Rightarrow> u64 \<Rightarrow> gcd_state \<Rightarrow> EFI_STATUS \<times> gcd_state" where
  "CoreFreeIoSpace env Base Length s =
     CoreConvertSpace env GCD_FREE_IO_OPERATION 0 0 Base Length 0 0 s"

definition CoreRemoveIoSpace ::
  "gcd_env \<Rightarrow> u64 \<Rightarrow> u64 \<Rightarrow> gcd_state \<Rightarrow> EFI_STATUS \<times> gcd_state" where
  "CoreRemoveIoSpace env Base Length s =
     CoreConvertSpace env GCD_REMOVE_IO_OPERATION 0 0 Base Length 0 0 s"

section \<open>Descriptors\<close>

record EFI_GCD_MEMORY_SPACE_DESCRIPTOR =
  md_BaseAddress :: u64
  md_Length :: u64
  md_Capabilities :: u64
  md_Attributes :: u64
  md_GcdMemoryType :: EFI_GCD_MEMORY_TYPE
  md_ImageHandle :: EFI_HANDLE
  md_DeviceHandle :: EFI_HANDLE

record EFI_GCD_IO_SPACE_DESCRIPTOR =
  iod_BaseAddress :: u64
  iod_Length :: u64
  iod_GcdIoType :: EFI_GCD_IO_TYPE
  iod_ImageHandle :: EFI_HANDLE
  iod_DeviceHandle :: EFI_HANDLE

definition BuildMemoryDescriptor :: "EFI_GCD_MAP_ENTRY \<Rightarrow> EFI_GCD_MEMORY_SPACE_DESCRIPTOR" where
  "BuildMemoryDescriptor Entry =
     \<lparr>md_BaseAddress = BaseAddress Entry,
      md_Length = EndAddress Entry - BaseAddress Entry + 1,
      md_Capabilities = Capabilities Entry,
      md_Attributes = Attributes Entry,
      md_GcdMemoryType = GcdMemoryType Entry,
      md_ImageHandle = ImageHandle Entry,
      md_DeviceHandle = DeviceHandle Entry\<rparr>"

definition BuildIoDescriptor :: "EFI_GCD_MAP_ENTRY \<Rightarrow> EFI_GCD_IO_SPACE_DESCRIPTOR" where
  "BuildIoDescriptor Entry =
     \<lparr>iod_BaseAddress = BaseAddress Entry,
      iod_Length = EndAddress Entry - BaseAddress Entry + 1,
      iod_GcdIoType = GcdIoType Entry,
      iod_ImageHandle = ImageHandle Entry,
      iod_DeviceHandle = DeviceHandle Entry\<rparr>"

text \<open>
  The out parameter \<^verbatim>\<open>Descriptor\<close> is \<open>present\<close> when the pointer is not NULL; the result holds
  what is written to it, if anything.
\<close>

definition CoreGetMemorySpaceDescriptor ::
  "u64 \<Rightarrow> bool \<Rightarrow> gcd_state \<Rightarrow> EFI_STATUS \<times> EFI_GCD_MEMORY_SPACE_DESCRIPTOR option \<times> gcd_state" where
  "CoreGetMemorySpaceDescriptor Base present s =
     (if \<not> present then (EFI_INVALID_PARAMETER, None, s)
      else let s1 = CoreAcquireGcdMemoryLock s;
               (Status, StartLink, EndLink) = CoreSearchGcdMapEntry Base 1 (mGcdMemorySpaceMap s1)
        in if EFI_ERROR Status then (EFI_NOT_FOUND, None, CoreReleaseGcdMemoryLock s1)
           else (Status,
                 Some (BuildMemoryDescriptor (mGcdMemorySpaceMap s1 ! the StartLink)),
                 CoreReleaseGcdMemoryLock s1))"

definition CoreGetIoSpaceDescriptor ::
  "u64 \<Rightarrow> bool \<Rightarrow> gcd_state \<Rightarrow> EFI_STATUS \<times> EFI_GCD_IO_SPACE_DESCRIPTOR option \<times> gcd_state" where
  "CoreGetIoSpaceDescriptor Base present s =
     (if \<not> present then (EFI_INVALID_PARAMETER, None, s)
      else let s1 = CoreAcquireGcdIoLock s;
               (Status, StartLink, EndLink) = CoreSearchGcdMapEntry Base 1 (mGcdIoSpaceMap s1)
        in if EFI_ERROR Status then (EFI_NOT_FOUND, None, CoreReleaseGcdIoLock s1)
           else (Status, Some (BuildIoDescriptor (mGcdIoSpaceMap s1 ! the StartLink)),
                 CoreReleaseGcdIoLock s1))"

text \<open>
  \<^verbatim>\<open>CoreGetMemorySpaceMap\<close> allocates the caller's array outside the lock, and the allocation
  may itself change the map: the two flags say that the out pointers are not NULL, and
  \<open>alloc n s\<close> is the outcome of \<^verbatim>\<open>AllocatePool\<close> for \<open>n\<close> descriptors
  in the state \<open>s\<close>.  The loop counts, allocates and counts again until the count did not change;
  \<open>buf\<close> says whether an array is allocated.
\<close>

partial_function (option) CoreGetMemorySpaceMap_loop ::
  "(UINTN \<Rightarrow> gcd_state \<Rightarrow> bool \<times> gcd_state) \<Rightarrow> UINTN \<Rightarrow> bool \<Rightarrow> gcd_state \<Rightarrow>
     (EFI_STATUS \<times> UINTN \<times> EFI_GCD_MEMORY_SPACE_DESCRIPTOR list option \<times> gcd_state) option" where
  "CoreGetMemorySpaceMap_loop alloc NumberOfDescriptors buf s =
     (let DescriptorCount = CoreCountGcdMapEntry (mGcdMemorySpaceMap s)
      in if DescriptorCount = NumberOfDescriptors \<and> buf
         then Some (EFI_SUCCESS, NumberOfDescriptors,
                    Some (map BuildMemoryDescriptor (mGcdMemorySpaceMap s)),
                    CoreReleaseGcdMemoryLock s)
         else case alloc DescriptorCount (CoreReleaseGcdMemoryLock s) of
                (ok, s1) \<Rightarrow>
                  if \<not> ok then Some (EFI_OUT_OF_RESOURCES, 0, None, s1)
                  else CoreGetMemorySpaceMap_loop alloc DescriptorCount True
                         (CoreAcquireGcdMemoryLock s1))"

declare CoreGetMemorySpaceMap_loop.simps [code]

definition CoreGetMemorySpaceMap ::
  "bool \<Rightarrow> bool \<Rightarrow> (UINTN \<Rightarrow> gcd_state \<Rightarrow> bool \<times> gcd_state) \<Rightarrow> gcd_state \<Rightarrow>
     (EFI_STATUS \<times> UINTN \<times> EFI_GCD_MEMORY_SPACE_DESCRIPTOR list option \<times> gcd_state) option" where
  "CoreGetMemorySpaceMap count_present map_present alloc s =
     (if \<not> count_present then Some (EFI_INVALID_PARAMETER, 0, None, s)
      else if \<not> map_present then Some (EFI_INVALID_PARAMETER, 0, None, s)
      else CoreGetMemorySpaceMap_loop alloc 0 False (CoreAcquireGcdMemoryLock s))"

text \<open>\<^verbatim>\<open>CoreGetIoSpaceMap\<close> allocates under the lock, once.\<close>

definition CoreGetIoSpaceMap ::
  "bool \<Rightarrow> bool \<Rightarrow> (UINTN \<Rightarrow> gcd_state \<Rightarrow> bool \<times> gcd_state) \<Rightarrow> gcd_state \<Rightarrow>
     EFI_STATUS \<times> UINTN \<times> EFI_GCD_IO_SPACE_DESCRIPTOR list option \<times> gcd_state" where
  "CoreGetIoSpaceMap count_present map_present alloc s =
     (if \<not> count_present then (EFI_INVALID_PARAMETER, 0, None, s)
      else if \<not> map_present then (EFI_INVALID_PARAMETER, 0, None, s)
      else let s1 = CoreAcquireGcdIoLock s;
          NumberOfDescriptors = CoreCountGcdMapEntry (mGcdIoSpaceMap s1);
          (ok, s2) = alloc NumberOfDescriptors s1
      in if \<not> ok then (EFI_OUT_OF_RESOURCES, NumberOfDescriptors, None, CoreReleaseGcdIoLock s2)
         else (EFI_SUCCESS, NumberOfDescriptors, Some (map BuildIoDescriptor (mGcdIoSpaceMap s2)),
               CoreReleaseGcdIoLock s2))"

section \<open>The initial maps\<close>

text \<open>
  The module's variables before initialization, and the first step of
  \<^verbatim>\<open>CoreInitializeGcdServices\<close>: each map gets one entry, a copy of its template that covers
  the whole space.  \<^verbatim>\<open>LShiftU64 (1, Size)\<close> asks for a size below 64.
\<close>

definition gcd_module_state :: gcd_state where
  "gcd_module_state = \<lparr>mGcdMemorySpaceMap = [], mGcdIoSpaceMap = [],
     mGcdMemorySpaceLock = EfiLockReleased, mGcdIoSpaceLock = EfiLockReleased,
     gcd_pool = 0, cpu_calls = [], descriptor_calls = [], attribute_calls = []\<rparr>"

definition CoreInitializeGcdServices_maps :: "nat \<Rightarrow> nat \<Rightarrow> gcd_state \<Rightarrow> gcd_state" where
  "CoreInitializeGcdServices_maps SizeOfMemorySpace SizeOfIoSpace s =
     s\<lparr>mGcdMemorySpaceMap :=
         mGcdMemorySpaceMapEntryTemplate\<lparr>EndAddress := push_bit SizeOfMemorySpace 1 - 1\<rparr> #
           mGcdMemorySpaceMap s,
       mGcdIoSpaceMap :=
         mGcdIoSpaceMapEntryTemplate\<lparr>EndAddress := push_bit SizeOfIoSpace 1 - 1\<rparr> #
           mGcdIoSpaceMap s,
       gcd_pool := gcd_pool s + 2\<rparr>"

end
