(* ===== verification/GcdConvert.thy ===== *)
theory GcdConvert
  imports GcdServices
begin

text \<open>
  Correctness of \<^verbatim>\<open>CoreConvertSpace\<close> (\<^verbatim>\<open>MdeModulePkg/Core/Dxe/Gcd/Gcd.c\<close>), the worker behind
  every service that adds, frees or removes space or sets attributes and capabilities.

  The locales state what the loop over a range asks of the change it applies to an entry:
  \<open>gcd_body\<close> (it leaves the addresses and the signature alone) gives the map invariant after the
  loop and the clean-up, \<open>gcd_uniform_body\<close> (it treats every entry alike) the pointwise effect.
  They are interpreted for the changes of \<^verbatim>\<open>CoreConvertSpace\<close> and \<^verbatim>\<open>CoreAllocateSpace\<close>.
  \<open>gcd_inv\<close> is the invariant of the whole state, \<open>CoreConvertSpace_cases\<close> the case analysis of a
  call on which the properties rest.
\<close>

section \<open>The contract of the range loop\<close>

locale gcd_body =
  fixes body :: "EFI_GCD_MAP_ENTRY \<Rightarrow> u64 \<Rightarrow> EFI_GCD_MAP_ENTRY \<times> u64"
  assumes body_base: "BaseAddress (fst (body x a)) = BaseAddress x"
    and body_end: "EndAddress (fst (body x a)) = EndAddress x"
    and body_signature: "Signature (fst (body x a)) = Signature x"
begin

lemma mids_clipped: "gcd_clipped Base Length (gcd_mids body Base Length seg Attrs) seg"
  unfolding gcd_clipped_def
proof (induction seg arbitrary: Attrs)
  case (Cons x xs)
  then show ?case
    using body_base [of "gcd_clip Base Length x" Attrs] body_end [of "gcd_clip Base Length x" Attrs]
    by (auto split: prod.split)
qed simp

lemma mids_signed: "gcd_signed seg \<Longrightarrow> gcd_signed (gcd_mids body Base Length seg Attrs)"
proof (induction seg arbitrary: Attrs)
  case (Cons x xs)
  then show ?case
    using body_signature [of "gcd_clip Base Length x" Attrs]
    by (auto simp: gcd_clip_def split: prod.split)
qed simp

lemma range_update:
  assumes inv: "gcd_map_inv limit Map" and segm: "gcd_segment Map Base (Base + Length - 1) P seg Q"
    and nowrap: "unat Base \<le> unat (Base + Length - 1)" and pool: "length Map \<le> pool"
  obtains Map' where
    "(case gcd_update_range body Base Length (length seg) Map (length P) Attrs zero_entry zero_entry of
       (Map1, EndLink1, Top1, Bottom1) \<Rightarrow>
         CoreCleanupGcdMapEntry Top1 Bottom1 (gcd_start_after Map (length P) Base) EndLink1 Map1
           (pool + 2)) = (EFI_SUCCESS, Map', pool + length Map' - length Map)"
    "gcd_map_inv limit Map'"
    "\<And>a. gcd_lookup Map' a = (if Base \<le> a \<and> a \<le> Base + Length - 1
       then gcd_lookup (gcd_mids body Base Length seg Attrs) a else gcd_lookup Map a)"
proof -
  have ch: "gcd_range_change Map limit Base Length P seg Q (gcd_mids body Base Length seg Attrs)"
    using inv segm nowrap mids_clipped by (simp add: gcd_range_change_def gcd_map_inv_def)
  have "gcd_signed seg" using inv segm by (auto simp: gcd_map_inv_def gcd_segment_def)
  then have sg: "gcd_signed (gcd_mids body Base Length seg Attrs)" by (rule mids_signed)
  from that [OF gcd_update_cleanup [OF ch inv sg pool] gcd_remerged_inv [OF ch inv sg]] show ?thesis .
qed

end

locale gcd_uniform_body = gcd_body +
  fixes f :: "EFI_GCD_MAP_ENTRY \<Rightarrow> EFI_GCD_MAP_ENTRY" and Attrs :: u64
  assumes body_kind: "gcd_kind (fst (body x Attrs)) = f (gcd_kind x)"
    and body_attrs: "snd (body x Attrs) = Attrs"
begin

lemma mids_changed: "gcd_changed f (gcd_mids body Base Length seg Attrs) seg"
  unfolding gcd_changed_def
proof (induction seg)
  case (Cons x xs)
  have "gcd_kind (gcd_clip Base Length x) = gcd_kind x" by (simp add: gcd_clip_def gcd_kind_def)
  then show ?case
    using Cons body_kind [of "gcd_clip Base Length x"] body_attrs [of "gcd_clip Base Length x"]
    by (auto split: prod.split)
qed simp

lemma mids_lookup:
  assumes "gcd_segment Map Base (Base + Length - 1) P seg Q" and "gcd_tiles 0 Map limit"
    and "Base \<le> a" and "a \<le> Base + Length - 1"
  shows "gcd_lookup (gcd_mids body Base Length seg Attrs) a = map_option f (gcd_lookup Map a)"
proof -
  have "gcd_lookup Map a = gcd_lookup seg a"
    using gcd_segment_lookup [OF assms(1,2), of a] assms
    by (auto simp: gcd_segment_def gcd_covers_unat u64_arith)
  then show ?thesis using gcd_changed_lookup [OF mids_clipped mids_changed assms(3,4)] by simp
qed

end

interpretation convert: gcd_body "CoreConvertSpace_body Operation mt iot Caps CpuArch"
  for Operation mt iot Caps CpuArch
proof unfold_locales
  fix x :: EFI_GCD_MAP_ENTRY and a
  show "BaseAddress (fst (CoreConvertSpace_body Operation mt iot Caps CpuArch x a)) = BaseAddress x"
    by (cases Operation) (auto simp: Let_def)
  show "EndAddress (fst (CoreConvertSpace_body Operation mt iot Caps CpuArch x a)) = EndAddress x"
    by (cases Operation) (auto simp: Let_def)
  show "Signature (fst (CoreConvertSpace_body Operation mt iot Caps CpuArch x a)) = Signature x"
    by (cases Operation) (auto simp: Let_def)
qed

interpretation allocate: gcd_uniform_body "CoreAllocateSpace_body Image Device"
    "\<lambda>x. x\<lparr>ImageHandle := Image, DeviceHandle := Device\<rparr>" Attrs
  for Image Device Attrs
  by unfold_locales (simp_all add: CoreAllocateSpace_body_def gcd_kind_def)

section \<open>Verification loops\<close>

lemma gcd_first_error_None:
  "gcd_first_error check Map Link EndLink = None \<longleftrightarrow>
     (\<forall>i. Link \<le> i \<and> i \<le> EndLink \<longrightarrow> \<not> EFI_ERROR (check (Map ! i)))"
proof (induction check Map Link EndLink rule: gcd_first_error.induct)
  case (1 check Map Link EndLink)
  show ?case
  proof (cases "Link \<le> EndLink \<and> \<not> EFI_ERROR (check (Map ! Link))")
    case True
    then have "gcd_first_error check Map Link EndLink = gcd_first_error check Map (Link + 1) EndLink"
      by (simp add: gcd_first_error.simps [of _ _ Link])
    moreover have "Link \<le> i \<and> i \<le> EndLink \<longleftrightarrow> i = Link \<or> (Link + 1 \<le> i \<and> i \<le> EndLink)" for i
      using True by auto
    ultimately show ?thesis using 1 True by auto
  next
    case False
    then show ?thesis by (subst gcd_first_error.simps) auto
  qed
qed

lemma gcd_first_error_Some:
  "gcd_first_error check Map Link EndLink = Some i \<Longrightarrow>
     Link \<le> i \<and> i \<le> EndLink \<and> EFI_ERROR (check (Map ! i))"
proof (induction check Map Link EndLink rule: gcd_first_error.induct)
  case (1 check Map Link EndLink)
  then show ?case
    by (subst (asm) gcd_first_error.simps) (auto split: if_splits)
qed

lemma gcd_first_error_segment:
  assumes "seg \<noteq> []"
  shows "gcd_first_error check (P @ seg @ Q) (length P) (length P + length seg - 1) = None \<longleftrightarrow>
     (\<forall>x \<in> set seg. \<not> EFI_ERROR (check x))"
proof -
  have idx: "(length P \<le> i \<and> i \<le> length P + length seg - 1) \<longleftrightarrow> (\<exists>j < length seg. i = length P + j)" for i
    using assms by (cases seg) (auto intro!: exI [of _ "i - length P"])
  show ?thesis
    unfolding gcd_first_error_None idx by (auto simp: all_set_conv_all_nth nth_append)
qed

lemma gcd_lookup_SomeD:
  "gcd_lookup xs a = Some k \<Longrightarrow> \<exists>x \<in> set xs. gcd_covers x a \<and> k = gcd_kind x"
  by (induction xs) (auto simp: gcd_lookup_Cons split: if_splits)

lemma gcd_tiles_hd_last:
  assumes "gcd_tiles s xs e" and "x \<in> set xs"
  shows "unat (EndAddress (hd xs)) \<le> unat (EndAddress x)"
    and "unat (BaseAddress x) \<le> unat (BaseAddress (last xs))"
proof -
  obtain y ys where xs: "xs = y # ys" using assms(2) by (cases xs) auto
  then have "gcd_tiles (unat (EndAddress y) + 1) ys e" using assms(1) by simp
  then show "unat (EndAddress (hd xs)) \<le> unat (EndAddress x)"
    using gcd_tiles_member [of "unat (EndAddress y) + 1" ys e x] assms(2) xs by force
  obtain z zs where xs: "xs = zs @ [z]" using assms(2) by (cases xs rule: rev_cases) auto
  then have "gcd_tiles s zs (unat (BaseAddress z))" using assms(1) by (auto simp: gcd_tiles_append)
  then show "unat (BaseAddress x) \<le> unat (BaseAddress (last xs))"
    using gcd_tiles_member [of s zs "unat (BaseAddress z)" x] assms(2) xs by force
qed

lemma gcd_segment_lookup_range:
  assumes "gcd_segment Map Base End P seg Q" and "gcd_tiles 0 Map limit"
    and "Base \<le> a" and "a \<le> End"
  shows "gcd_lookup Map a = gcd_lookup seg a" and "gcd_lookup seg a \<noteq> None"
  using gcd_segment_lookup [OF assms(1,2), of a] assms
    gcd_lookup_None_iff [OF gcd_segment_tiles(2) [OF assms(1,2)], of a]
  by (auto simp: gcd_segment_def gcd_covers_unat u64_arith)

lemma gcd_segment_member_range:
  assumes "gcd_segment Map Base End P seg Q" and "gcd_tiles 0 Map limit" and "Base \<le> End"
    and "x \<in> set seg"
  obtains a where "Base \<le> a" "a \<le> End" "gcd_covers x a"
proof
  note t = gcd_segment_tiles(2) [OF assms(1,2)]
  let ?a = "if Base \<le> BaseAddress x then BaseAddress x else Base"
  have "unat Base \<le> unat (EndAddress x)" "unat (BaseAddress x) \<le> unat End"
    using gcd_tiles_hd_last [OF t assms(4)] assms(1) by (auto simp: gcd_segment_def gcd_covers_unat)
  then show "Base \<le> ?a" "?a \<le> End" "gcd_covers x ?a"
    using gcd_tiles_member [OF t assms(4)] assms(3) by (auto simp: gcd_covers_unat u64_arith)
qed

text \<open>
  A check of the verification loops looks at the kind of an entry only, so that it says
  something of the addresses of the range.
\<close>

locale gcd_check =
  fixes check :: "EFI_GCD_MAP_ENTRY \<Rightarrow> EFI_STATUS"
  assumes check_kind: "check (gcd_kind x) = check x"
begin

lemma segment_check:
  assumes segm: "gcd_segment Map Base End P seg Q" and tiles: "gcd_tiles 0 Map limit"
    and le: "Base \<le> End"
  shows "(\<forall>x \<in> set seg. \<not> EFI_ERROR (check x)) \<longleftrightarrow>
    (\<forall>a. Base \<le> a \<and> a \<le> End \<longrightarrow> \<not> EFI_ERROR (check (the (gcd_lookup Map a))))"
proof safe
  fix a assume "\<forall>x \<in> set seg. \<not> EFI_ERROR (check x)" "Base \<le> a" "a \<le> End"
    "EFI_ERROR (check (the (gcd_lookup Map a)))"
  moreover obtain k where "gcd_lookup Map a = Some k" "gcd_lookup seg a = Some k"
    using gcd_segment_lookup_range [OF segm tiles \<open>Base \<le> a\<close> \<open>a \<le> End\<close>] by auto
  ultimately show False using gcd_lookup_SomeD [of seg a k] check_kind by auto
next
  fix x assume all: "\<forall>a. Base \<le> a \<and> a \<le> End \<longrightarrow> \<not> EFI_ERROR (check (the (gcd_lookup Map a)))"
    and x: "x \<in> set seg" and err: "EFI_ERROR (check x)"
  obtain a where a: "Base \<le> a" "a \<le> End" "gcd_covers x a"
    using gcd_segment_member_range [OF segm tiles le x] .
  then have "gcd_lookup Map a = Some (gcd_kind x)"
    using gcd_segment_lookup_range(1) [OF segm tiles a(1,2)]
      gcd_lookup_member [OF gcd_segment_tiles(2) [OF segm tiles] x a(3)] by simp
  then show False using all a err check_kind by fastforce
qed

lemma first_error_None:
  assumes segm: "gcd_segment Map Base End P seg Q" and tiles: "gcd_tiles 0 Map limit"
    and le: "Base \<le> End"
  shows "gcd_first_error check Map (length P) (length P + length seg - 1) = None \<longleftrightarrow>
    (\<forall>a. Base \<le> a \<and> a \<le> End \<longrightarrow> \<not> EFI_ERROR (check (the (gcd_lookup Map a))))"
  using gcd_first_error_segment [of seg check P Q] segment_check [OF assms] segm
  by (simp add: gcd_segment_def)

end

interpretation convert_check: gcd_check "CoreConvertSpace_check Operation Base Length Caps Attrs"
  for Operation Base Length Caps Attrs
proof unfold_locales
  show "CoreConvertSpace_check Operation Base Length Caps Attrs (gcd_kind x) =
    CoreConvertSpace_check Operation Base Length Caps Attrs x" for x
    by (cases Operation) (simp_all add: gcd_kind_def)
qed

interpretation allocate_check: gcd_check "CoreAllocateSpaceCheckEntry Operation mt iot"
  for Operation mt iot
proof unfold_locales
  show "CoreAllocateSpaceCheckEntry Operation mt iot (gcd_kind x) =
    CoreAllocateSpaceCheckEntry Operation mt iot x" for x
    by (cases Operation) (simp_all add: CoreAllocateSpaceCheckEntry_def gcd_kind_def)
qed

section \<open>The state invariant\<close>

text \<open>
  Both maps are well formed, no lock is held, and every live block is in one of the maps.  The
  spaces end at or below \<open>2 ^ 63\<close>: \<^verbatim>\<open>CoreInitializeGcdServices\<close> computes the end of a space
  with \<^verbatim>\<open>LShiftU64 (1, Size)\<close>, whose count is below 64.
\<close>

definition gcd_inv :: "nat \<Rightarrow> nat \<Rightarrow> gcd_state \<Rightarrow> bool" where
  "gcd_inv ml il s \<longleftrightarrow> gcd_map_inv ml (mGcdMemorySpaceMap s) \<and> gcd_map_inv il (mGcdIoSpaceMap s) \<and>
     0 < ml \<and> 0 < il \<and> ml \<le> 2 ^ 63 \<and> il \<le> 2 ^ 63 \<and>
     mGcdMemorySpaceLock s = EfiLockReleased \<and> mGcdIoSpaceLock s = EfiLockReleased \<and>
     gcd_pool s = length (mGcdMemorySpaceMap s) + length (mGcdIoSpaceMap s)"

definition gcd_limit :: "GCD_OPERATION \<Rightarrow> nat \<Rightarrow> nat \<Rightarrow> nat" where
  "gcd_limit Operation ml il = (if GCD_MEMORY_SPACE_OPERATION Operation then ml else il)"

lemmas gcd_access_defs =
  gcd_acquire_def gcd_release_def gcd_get_map_def gcd_set_map_def
  CoreAcquireGcdMemoryLock_def CoreReleaseGcdMemoryLock_def
  CoreAcquireGcdIoLock_def CoreReleaseGcdIoLock_def

lemma gcd_access_simps [simp]:
  "gcd_get_map Operation (gcd_acquire Operation s) = gcd_get_map Operation s"
  "gcd_pool (gcd_acquire Operation s) = gcd_pool s"
  "gcd_release Operation (gcd_acquire Operation s\<lparr>gcd_pool := n\<rparr>) =
     (gcd_release Operation (gcd_acquire Operation s))\<lparr>gcd_pool := n\<rparr>"
  by (auto simp: gcd_access_defs)

lemma gcd_release_acquire [simp]:
  "gcd_inv ml il s \<Longrightarrow> gcd_release Operation (gcd_acquire Operation s) = s"
  by (auto simp: gcd_access_defs gcd_inv_def)

lemma gcd_inv_get_map:
  "gcd_inv ml il s \<Longrightarrow> gcd_map_inv (gcd_limit Operation ml il) (gcd_get_map Operation s)"
  "gcd_inv ml il s \<Longrightarrow> length (gcd_get_map Operation s) \<le> gcd_pool s"
  by (auto simp: gcd_inv_def gcd_get_map_def gcd_limit_def)

lemma gcd_inv_set_map:
  "gcd_inv ml il s \<Longrightarrow> gcd_map_inv (gcd_limit Operation ml il) Map' \<Longrightarrow>
     gcd_inv ml il (gcd_set_map Operation Map'
       (s\<lparr>cpu_calls := calls, gcd_pool := gcd_pool s + length Map' - length (gcd_get_map Operation s)\<rparr>))"
  by (auto simp: gcd_inv_def gcd_access_defs gcd_limit_def)

lemma gcd_set_map_simps [simp]:
  "gcd_get_map Operation (gcd_set_map Operation Map s) = Map"
  "gcd_get_map Operation (s\<lparr>gcd_pool := n\<rparr>) = gcd_get_map Operation s"
  "gcd_get_map Operation (s\<lparr>cpu_calls := calls\<rparr>) = gcd_get_map Operation s"
  "cpu_calls (gcd_set_map Operation Map s) = cpu_calls s"
  by (auto simp: gcd_access_defs)

lemma gcd_inv_cpu_calls [simp]: "gcd_inv ml il (s\<lparr>cpu_calls := calls\<rparr>) \<longleftrightarrow> gcd_inv ml il s"
  by (simp add: gcd_inv_def)

section \<open>Converting space\<close>

abbreviation gcd_cpu_arch :: "GCD_OPERATION \<Rightarrow> u64 \<Rightarrow> u64" where
  "gcd_cpu_arch Operation Attrs \<equiv>
     (if Operation = GCD_SET_ATTRIBUTES_MEMORY_OPERATION then ConverToCpuArchAttributes Attrs else 0)"

definition gcd_alloc_ok :: "gcd_env \<Rightarrow> gcd_state \<Rightarrow> bool" where
  "gcd_alloc_ok env s \<longleftrightarrow>
     env_AllocateZeroPool env (gcd_pool s) \<and> env_AllocateZeroPool env (gcd_pool s + 1)"

definition gcd_cpu_status :: "gcd_env \<Rightarrow> GCD_OPERATION \<Rightarrow> u64 \<Rightarrow> u64 \<Rightarrow> u64 \<Rightarrow> EFI_STATUS" where
  "gcd_cpu_status env Operation Base Length Attrs =
     (if gcd_cpu_arch Operation Attrs = 0 then EFI_SUCCESS
      else case env_SetMemoryAttributes env of None \<Rightarrow> EFI_NOT_AVAILABLE_YET
           | Some f \<Rightarrow> f Base Length (gcd_cpu_arch Operation Attrs))"

definition gcd_cpu_trace :: "gcd_env \<Rightarrow> GCD_OPERATION \<Rightarrow> u64 \<Rightarrow> u64 \<Rightarrow> u64 \<Rightarrow> (u64 \<times> u64 \<times> u64) list" where
  "gcd_cpu_trace env Operation Base Length Attrs =
     (if gcd_cpu_arch Operation Attrs = 0 \<or> env_SetMemoryAttributes env = None then []
      else [(Base, Length, gcd_cpu_arch Operation Attrs)])"

lemma CoreConvertSpace_cpu_eq:
  "CoreConvertSpace_cpu env Operation Base Length (gcd_cpu_arch Operation Attrs) s =
     (gcd_cpu_status env Operation Base Length Attrs,
      s\<lparr>cpu_calls := cpu_calls s @ gcd_cpu_trace env Operation Base Length Attrs\<rparr>)"
  by (auto simp: CoreConvertSpace_cpu_def gcd_cpu_status_def gcd_cpu_trace_def split: option.split)

lemma CoreAllocateGcdMapEntry_eq:
  "CoreAllocateGcdMapEntry alloc pool =
     (if alloc pool \<and> alloc (pool + 1) then (EFI_SUCCESS, zero_entry, zero_entry, pool + 2)
      else (EFI_OUT_OF_RESOURCES, zero_entry, zero_entry, pool))"
  by (simp add: CoreAllocateGcdMapEntry_def)

lemma gcd_release_changed:
  assumes "gcd_inv ml il s"
  shows "gcd_release Operation (gcd_acquire Operation s\<lparr>gcd_pool := n\<rparr>) = s\<lparr>gcd_pool := n\<rparr>"
    and "gcd_release Operation (gcd_acquire Operation s\<lparr>cpu_calls := c, gcd_pool := n\<rparr>) =
      s\<lparr>cpu_calls := c, gcd_pool := n\<rparr>"
    and "gcd_release Operation (gcd_set_map Operation Map (gcd_acquire Operation s\<lparr>gcd_pool := n\<rparr>)) =
      gcd_set_map Operation Map (s\<lparr>gcd_pool := n\<rparr>)"
    and "gcd_release Operation
        (gcd_set_map Operation Map (gcd_acquire Operation s\<lparr>cpu_calls := c, gcd_pool := n\<rparr>)) =
      gcd_set_map Operation Map (s\<lparr>cpu_calls := c, gcd_pool := n\<rparr>)"
  using assms by (simp_all add: gcd_access_defs gcd_inv_def)

lemma gcd_acquire_cpu_calls [simp]: "cpu_calls (gcd_acquire Operation s) = cpu_calls s"
  by (simp add: gcd_access_defs)

lemma gcd_pool_same [simp]: "s\<lparr>gcd_pool := gcd_pool s\<rparr> = (s :: gcd_state)"
  by simp

text \<open>What \<^verbatim>\<open>CoreConvertSpace\<close> does once every entry of the range has passed the check.\<close>

lemma CoreConvertSpace_accepted:
  assumes inv: "gcd_inv ml il s" and "Length \<noteq> 0"
    and "CoreSearchGcdMapEntry Base Length (gcd_get_map Operation s) = (EFI_SUCCESS, Some i, Some (i + n - 1))"
    and "gcd_first_error (CoreConvertSpace_check Operation Base Length Caps Attrs)
           (gcd_get_map Operation s) i (i + n - 1) = None" and "0 < n"
  shows "CoreConvertSpace env Operation mt iot Base Length Caps Attrs s =
    (if \<not> gcd_alloc_ok env s then (EFI_OUT_OF_RESOURCES, s)
     else if EFI_ERROR (gcd_cpu_status env Operation Base Length Attrs)
     then (gcd_cpu_status env Operation Base Length Attrs,
           s\<lparr>cpu_calls := cpu_calls s @ gcd_cpu_trace env Operation Base Length Attrs\<rparr>)
     else (case (case gcd_update_range (CoreConvertSpace_body Operation mt iot Caps (gcd_cpu_arch Operation Attrs))
             Base Length n (gcd_get_map Operation s) i Attrs zero_entry zero_entry of
       (Map1, EndLink1, Top1, Bottom1) \<Rightarrow>
         CoreCleanupGcdMapEntry Top1 Bottom1 (gcd_start_after (gcd_get_map Operation s) i Base) EndLink1 Map1
           (gcd_pool s + 2)) of (Status4, Map2, pool2) \<Rightarrow>
       (Status4, gcd_set_map Operation Map2
          (s\<lparr>cpu_calls := cpu_calls s @ gcd_cpu_trace env Operation Base Length Attrs, gcd_pool := pool2\<rparr>))))"
proof -
  have n: "Suc (i + n - Suc 0) - i = n" using \<open>0 < n\<close> by simp
  note simps = assms(2-4) n gcd_release_changed [OF inv] CoreConvertSpace_def CoreAllocateGcdMapEntry_eq
    CoreConvertSpace_cpu_eq Let_def
  show ?thesis
    using assms by (auto simp: simps gcd_alloc_ok_def simp del: One_nat_def split: prod.split)
qed

lemma CoreConvertSpace_cases:
  assumes inv: "gcd_inv ml il s" and L: "Length \<noteq> 0" and nowrap: "unat Base + unat Length \<le> 2 ^ 64"
  obtains (outside) "gcd_limit Operation ml il < unat Base + unat Length"
      "CoreConvertSpace env Operation mt iot Base Length Caps Attrs s = (EFI_UNSUPPORTED, s)"
    | (rejected) x where "unat Base + unat Length \<le> gcd_limit Operation ml il"
      "EFI_ERROR (CoreConvertSpace_check Operation Base Length Caps Attrs x)"
      "\<not> (\<forall>a. Base \<le> a \<and> a \<le> Base + Length - 1 \<longrightarrow> \<not> EFI_ERROR (CoreConvertSpace_check Operation
          Base Length Caps Attrs (the (gcd_lookup (gcd_get_map Operation s) a))))"
      "CoreConvertSpace env Operation mt iot Base Length Caps Attrs s =
         (CoreConvertSpace_check Operation Base Length Caps Attrs x, s)"
    | (resources) "unat Base + unat Length \<le> gcd_limit Operation ml il" "\<not> gcd_alloc_ok env s"
      "CoreConvertSpace env Operation mt iot Base Length Caps Attrs s = (EFI_OUT_OF_RESOURCES, s)"
    | (cpu) "unat Base + unat Length \<le> gcd_limit Operation ml il"
      "EFI_ERROR (gcd_cpu_status env Operation Base Length Attrs)"
      "CoreConvertSpace env Operation mt iot Base Length Caps Attrs s =
         (gcd_cpu_status env Operation Base Length Attrs,
          s\<lparr>cpu_calls := cpu_calls s @ gcd_cpu_trace env Operation Base Length Attrs\<rparr>)"
    | (converted) P seg Q Map' where "unat Base + unat Length \<le> gcd_limit Operation ml il"
      "\<forall>a. Base \<le> a \<and> a \<le> Base + Length - 1 \<longrightarrow> \<not> EFI_ERROR (CoreConvertSpace_check Operation
          Base Length Caps Attrs (the (gcd_lookup (gcd_get_map Operation s) a)))"
      "gcd_alloc_ok env s" "\<not> EFI_ERROR (gcd_cpu_status env Operation Base Length Attrs)"
      "gcd_segment (gcd_get_map Operation s) Base (Base + Length - 1) P seg Q"
      "gcd_map_inv (gcd_limit Operation ml il) Map'"
      "\<And>a. gcd_lookup Map' a = (if Base \<le> a \<and> a \<le> Base + Length - 1
         then gcd_lookup (gcd_mids (CoreConvertSpace_body Operation mt iot Caps
                (gcd_cpu_arch Operation Attrs)) Base Length seg Attrs) a
         else gcd_lookup (gcd_get_map Operation s) a)"
      "CoreConvertSpace env Operation mt iot Base Length Caps Attrs s =
         (EFI_SUCCESS, gcd_set_map Operation Map'
            (s\<lparr>cpu_calls := cpu_calls s @ gcd_cpu_trace env Operation Base Length Attrs,
              gcd_pool := gcd_pool s + length Map' - length (gcd_get_map Operation s)\<rparr>))"
proof -
  let ?Map = "gcd_get_map Operation s" and ?check = "CoreConvertSpace_check Operation Base Length Caps Attrs"
  let ?body = "CoreConvertSpace_body Operation mt iot Caps (gcd_cpu_arch Operation Attrs)"
  have tiles: "gcd_tiles 0 ?Map (gcd_limit Operation ml il)"
    using gcd_inv_get_map(1) [OF inv] by (simp add: gcd_map_inv_def)
  note defs = CoreConvertSpace_def CoreAllocateGcdMapEntry_eq CoreConvertSpace_cpu_eq Let_def
  show thesis
  proof (cases rule: CoreSearchGcdMapEntry_cases [OF tiles L nowrap, case_names found missing])
    case (missing StartLink EndLink)
    then show thesis using inv L by (intro outside) (auto simp: CoreConvertSpace_def)
  next
    case (found P seg Q)
    note le = range_end_ge [OF L nowrap]
    have seg: "seg \<noteq> []" and Map: "?Map = P @ seg @ Q" using found(2) by (auto simp: gcd_segment_def)
    note ok_iff = convert_check.first_error_None
      [OF found(2) tiles le, of Operation Base Length Caps Attrs]
    show thesis
    proof (cases "gcd_first_error ?check ?Map (length P) (length P + length seg - 1)")
      case (Some i)
      show thesis
      proof (rule rejected [of "?Map ! i"])
        show "EFI_ERROR (?check (?Map ! i))" using gcd_first_error_Some [OF Some] by simp
        show "CoreConvertSpace env Operation mt iot Base Length Caps Attrs s = (?check (?Map ! i), s)"
          using found(3) Some L inv by (simp add: CoreConvertSpace_def Let_def)
      qed (use found(1) ok_iff Some in auto)
    next
      case None
      note status = CoreConvertSpace_accepted [OF inv L found(3) None, of env mt iot]
      show thesis
      proof (cases "gcd_alloc_ok env s")
        case False
        then show thesis using status seg by (intro resources [OF found(1)]) auto
      next
        case alloc: True
        show thesis
        proof (cases "EFI_ERROR (gcd_cpu_status env Operation Base Length Attrs)")
          case True
          then show thesis using status seg alloc by (intro cpu [OF found(1)]) auto
        next
          case False
          obtain Map' where Map': "(case gcd_update_range ?body Base Length (length seg) ?Map (length P)
               Attrs zero_entry zero_entry of
             (Map1, EndLink1, Top1, Bottom1) \<Rightarrow>
               CoreCleanupGcdMapEntry Top1 Bottom1 (gcd_start_after ?Map (length P) Base) EndLink1 Map1
                 (gcd_pool s + 2)) = (EFI_SUCCESS, Map', gcd_pool s + length Map' - length ?Map)"
            "gcd_map_inv (gcd_limit Operation ml il) Map'"
            "\<And>a. gcd_lookup Map' a = (if Base \<le> a \<and> a \<le> Base + Length - 1
               then gcd_lookup (gcd_mids ?body Base Length seg Attrs) a else gcd_lookup ?Map a)"
            using convert.range_update [OF gcd_inv_get_map(1) [OF inv] found(2) _ gcd_inv_get_map(2) [OF inv]]
              le unfolding word_le_nat_alt by blast
          show thesis
          proof (rule converted [OF found(1) _ alloc False found(2) Map'(2,3)])
            show "CoreConvertSpace env Operation mt iot Base Length Caps Attrs s =
              (EFI_SUCCESS, gcd_set_map Operation Map'
                (s\<lparr>cpu_calls := cpu_calls s @ gcd_cpu_trace env Operation Base Length Attrs,
                  gcd_pool := gcd_pool s + length Map' - length ?Map\<rparr>))"
              using status seg alloc False unfolding Map'(1) by simp
          qed (use ok_iff None in blast)
        qed
      qed
    qed
  qed
qed

section \<open>What converting does\<close>

lemma CoreConvertSpace_zero: "CoreConvertSpace env Operation mt iot Base 0 Caps Attrs s = (EFI_INVALID_PARAMETER, s)"
  by (simp add: CoreConvertSpace_def)

lemma CoreConvertSpace_inv:
  assumes "gcd_inv ml il s" and "unat Base + unat Length \<le> 2 ^ 64"
  shows "gcd_inv ml il (snd (CoreConvertSpace env Operation mt iot Base Length Caps Attrs s))"
proof (cases "Length = 0")
  case True
  then show ?thesis using assms by (simp add: CoreConvertSpace_zero)
next
  case False
  from assms(1) False assms(2) show ?thesis
    by (cases rule: CoreConvertSpace_cases [where env = env and Operation = Operation and mt = mt
          and iot = iot and Caps = Caps and Attrs = Attrs])
      (use assms(1) in \<open>auto intro!: gcd_inv_set_map\<close>)
qed

lemma CoreConvertSpace_body_kind:
  "gcd_kind (fst (CoreConvertSpace_body Operation mt iot Caps CpuArch x Attrs)) =
   fst (CoreConvertSpace_body Operation mt iot Caps CpuArch (gcd_kind x) Attrs)"
  by (cases Operation) (simp_all add: gcd_kind_def Let_def)

lemma CoreConvertSpace_body_attrs:
  "Operation \<noteq> GCD_SET_ATTRIBUTES_MEMORY_OPERATION \<or> CpuArch \<noteq> 0 \<Longrightarrow>
     snd (CoreConvertSpace_body Operation mt iot Caps CpuArch x Attrs) = Attrs"
  by (cases Operation) (simp_all add: Let_def)

lemma convert_uniform:
  "Operation \<noteq> GCD_SET_ATTRIBUTES_MEMORY_OPERATION \<or> CpuArch \<noteq> 0 \<Longrightarrow>
     gcd_uniform_body (CoreConvertSpace_body Operation mt iot Caps CpuArch)
       (\<lambda>k. fst (CoreConvertSpace_body Operation mt iot Caps CpuArch k Attrs)) Attrs"
  by unfold_locales (simp_all add: CoreConvertSpace_body_kind CoreConvertSpace_body_attrs)

text \<open>
  The other map and the logs of calls to the memory services.
\<close>

definition gcd_frame :: "GCD_OPERATION \<Rightarrow> gcd_state \<Rightarrow> gcd_map \<times> (u32 \<times> u64 \<times> u64 \<times> u64) list \<times> (u64 \<times> u64 \<times> u64) list" where
  "gcd_frame Operation s =
     (if GCD_MEMORY_SPACE_OPERATION Operation then mGcdIoSpaceMap s else mGcdMemorySpaceMap s,
      descriptor_calls s, attribute_calls s)"

lemma gcd_frame_set_map [simp]:
  "gcd_frame Operation (gcd_set_map Operation Map s) = gcd_frame Operation s"
  "gcd_frame Operation (s\<lparr>gcd_pool := n\<rparr>) = gcd_frame Operation s"
  "gcd_frame Operation (s\<lparr>cpu_calls := c\<rparr>) = gcd_frame Operation s"
  by (simp_all add: gcd_frame_def gcd_set_map_def)

lemma CoreConvertSpace_lookup:
  assumes inv: "gcd_inv ml il s" and nowrap: "unat Base + unat Length \<le> 2 ^ 64"
    and ok: "CoreConvertSpace env Operation mt iot Base Length Caps Attrs s = (EFI_SUCCESS, s')"
    and attrs: "Operation = GCD_SET_ATTRIBUTES_MEMORY_OPERATION \<Longrightarrow> ConverToCpuArchAttributes Attrs \<noteq> 0"
  shows "gcd_lookup (gcd_get_map Operation s') a =
      (if Base \<le> a \<and> a \<le> Base + Length - 1
       then map_option (\<lambda>k. fst (CoreConvertSpace_body Operation mt iot Caps
              (gcd_cpu_arch Operation Attrs) k Attrs)) (gcd_lookup (gcd_get_map Operation s) a)
       else gcd_lookup (gcd_get_map Operation s) a) \<and>
    gcd_frame Operation s' = gcd_frame Operation s"
proof -
  have L: "Length \<noteq> 0" using ok by (auto simp: CoreConvertSpace_zero)
  from inv L nowrap show ?thesis
  proof (cases rule: CoreConvertSpace_cases [where env = env and Operation = Operation and mt = mt
        and iot = iot and Caps = Caps and Attrs = Attrs])
    case (converted P seg Q Map')
    have tiles: "gcd_tiles 0 (gcd_get_map Operation s) (gcd_limit Operation ml il)"
      using gcd_inv_get_map(1) [OF inv] by (simp add: gcd_map_inv_def)
    have "gcd_uniform_body (CoreConvertSpace_body Operation mt iot Caps (gcd_cpu_arch Operation Attrs))
       (\<lambda>k. fst (CoreConvertSpace_body Operation mt iot Caps (gcd_cpu_arch Operation Attrs) k Attrs)) Attrs"
      using attrs by (intro convert_uniform) auto
    from gcd_uniform_body.mids_lookup [OF this converted(5) tiles] converted(7,8) ok
    show ?thesis by auto
  qed (use ok in auto)
qed

section \<open>The initial state\<close>

lemma unat_exp_minus_1: "n < 64 \<Longrightarrow> unat (2 ^ n - 1 :: u64) = 2 ^ n - 1"
proof -
  assume "n < 64"
  then have "unat (2 ^ n :: u64) = 2 ^ n"
    using unsigned_push_bit_eq [of n "1 :: u64", where 'a = nat]
    by (simp add: push_bit_of_1 take_bit_of_exp)
  then show ?thesis by (subst unat_sub_nowrap) (auto simp: word_le_nat_alt)
qed

lemma CoreInitializeGcdServices_maps_inv:
  assumes "m < 64" and "n < 64"
  shows "gcd_inv (2 ^ m) (2 ^ n) (CoreInitializeGcdServices_maps m n gcd_module_state)"
proof -
  have "(2 :: nat) ^ m \<le> 2 ^ 63" "(2 :: nat) ^ n \<le> 2 ^ 63"
    using assms by (simp_all only: power_increasing_iff)
  then show ?thesis
    using assms by (simp add: gcd_inv_def gcd_map_inv_def CoreInitializeGcdServices_maps_def
      gcd_module_state_def mGcdMemorySpaceMapEntryTemplate_def mGcdIoSpaceMapEntryTemplate_def
      push_bit_of_1 unat_exp_minus_1 gcd_canonical_def gcd_signed_def)
qed

text \<open>
  A concrete system for the witnesses: 36 bits of memory space, 16 bits of I/O space, an
  allocator that always succeeds and a CPU protocol that accepts every request.
\<close>

definition sample_env :: gcd_env where
  "sample_env = \<lparr>env_AllocateZeroPool = (\<lambda>_. True),
     env_SetMemoryAttributes = Some (\<lambda>_ _ _. EFI_SUCCESS), env_gDxeCoreImageHandle = 1\<rparr>"

definition sample_state :: gcd_state where
  "sample_state = CoreInitializeGcdServices_maps 36 16 gcd_module_state"

definition sample_added :: gcd_state where
  "sample_added = snd (CoreConvertSpace sample_env GCD_ADD_MEMORY_OPERATION 2 0 0x1000 0x4000 0xF 0
     sample_state)"

lemma sample_state_inv: "gcd_inv 68719476736 65536 sample_state"
  using CoreInitializeGcdServices_maps_inv [of 36 16] by (simp add: sample_state_def)

lemma sample_added_inv: "gcd_inv 68719476736 65536 sample_added"
  unfolding sample_added_def by (rule CoreConvertSpace_inv [OF sample_state_inv]) simp

section \<open>Properties\<close>



text \<open>
  A call that fails leaves everything as it was: both maps, the locks and the pool.  Only a
  request the CPU protocol was asked for and refused leaves its trace there.
\<close>

theorem CoreConvertSpace_error_unchanged:
  assumes "gcd_inv ml il s" and "unat Base + unat Length \<le> 2 ^ 64"
    and "EFI_ERROR (fst (CoreConvertSpace env Operation mt iot Base Length Caps Attrs s))"
  shows "snd (CoreConvertSpace env Operation mt iot Base Length Caps Attrs s) = s \<or>
    (EFI_ERROR (gcd_cpu_status env Operation Base Length Attrs) \<and>
     snd (CoreConvertSpace env Operation mt iot Base Length Caps Attrs s) =
       s\<lparr>cpu_calls := cpu_calls s @ gcd_cpu_trace env Operation Base Length Attrs\<rparr>)"
proof (cases "Length = 0")
  case True
  then show ?thesis by (simp add: CoreConvertSpace_zero)
next
  case False
  from assms(1) False assms(2) show ?thesis
    by (cases rule: CoreConvertSpace_cases [where env = env and Operation = Operation and mt = mt
          and iot = iot and Caps = Caps and Attrs = Attrs]) (use assms(3) in auto)
qed

theorem CoreConvertSpace_error_unchanged_witness:
  "fst (CoreConvertSpace sample_env GCD_FREE_MEMORY_OPERATION 0 0 0x1000 0x4000 0 0 sample_added) = EFI_NOT_FOUND \<and>
   snd (CoreConvertSpace sample_env GCD_FREE_MEMORY_OPERATION 0 0 0x1000 0x4000 0 0 sample_added) = sample_added"
proof -
  have e: "fst (CoreConvertSpace sample_env GCD_FREE_MEMORY_OPERATION 0 0 0x1000 0x4000 0 0 sample_added) = EFI_NOT_FOUND"
    by code_simp
  then show ?thesis
    using CoreConvertSpace_error_unchanged [OF sample_added_inv, of "0x1000" "0x4000" sample_env
      GCD_FREE_MEMORY_OPERATION 0 0 0 0]
    by (auto simp: gcd_cpu_status_def)
qed



lemma gcd_kind_Attributes:
  "gcd_kind (x\<lparr>Attributes := v\<rparr>) = (gcd_kind x)\<lparr>Attributes := v\<rparr>"
  "Attributes (gcd_kind x) = Attributes x"
  "gcd_kind (gcd_clip Base Length x) = gcd_kind x"
  "Attributes (gcd_clip Base Length x) = Attributes x"
  by (simp_all add: gcd_kind_def gcd_clip_def)

lemma gcd_mids_keep_attributes:
  assumes "\<forall>x \<in> set seg. gcd_kind x = k"
    and "Attrs = A \<or> Attrs = A OR (Attributes k AND (EXCLUSIVE_MEMORY_ATTRIBUTES OR NONEXCLUSIVE_MEMORY_ATTRIBUTES))"
  shows "gcd_changed (\<lambda>k. k\<lparr>Attributes := A OR (Attributes k AND
      (EXCLUSIVE_MEMORY_ATTRIBUTES OR NONEXCLUSIVE_MEMORY_ATTRIBUTES))\<rparr>)
    (gcd_mids (CoreConvertSpace_body GCD_SET_ATTRIBUTES_MEMORY_OPERATION mt iot Caps 0) Base Length seg Attrs) seg"
  unfolding gcd_changed_def using assms
proof (induction seg arbitrary: Attrs)
  case (Cons x xs)
  have "Attributes x = Attributes k" using Cons.prems(1) by (auto simp: gcd_kind_def)
  then have "Attrs OR (Attributes x AND (EXCLUSIVE_MEMORY_ATTRIBUTES OR NONEXCLUSIVE_MEMORY_ATTRIBUTES)) =
      A OR (Attributes x AND (EXCLUSIVE_MEMORY_ATTRIBUTES OR NONEXCLUSIVE_MEMORY_ATTRIBUTES))"
    using Cons.prems(2) by (auto simp: or.assoc)
  then show ?case
    using Cons \<open>Attributes x = Attributes k\<close>
    by (auto simp: Let_def gcd_kind_Attributes)
qed simp

text \<open>
  Setting attributes that name no CPU attribute (neither a cache type nor a protection)
  keeps the CPU attributes of every address of the range, when the range has one description;
  the rest of the description stays.
\<close>

theorem CoreSetMemorySpaceAttributes_keeps_cpu_attributes:
  assumes inv: "gcd_inv ml il s" and nowrap: "unat Base + unat Length \<le> 2 ^ 64"
    and ok: "CoreSetMemorySpaceAttributes env Base Length Attrs s = (EFI_SUCCESS, s')"
    and cpu: "ConverToCpuArchAttributes Attrs = 0"
    and one: "\<And>a. Base \<le> a \<Longrightarrow> a \<le> Base + Length - 1 \<Longrightarrow> gcd_lookup (mGcdMemorySpaceMap s) a = Some k"
    and a: "Base \<le> a" "a \<le> Base + Length - 1"
  shows "gcd_lookup (mGcdMemorySpaceMap s') a = Some (k\<lparr>Attributes := Attrs OR (Attributes k AND
      (EXCLUSIVE_MEMORY_ATTRIBUTES OR NONEXCLUSIVE_MEMORY_ATTRIBUTES))\<rparr>)"
proof -
  note ok' = ok [unfolded CoreSetMemorySpaceAttributes_def]
  let ?op = GCD_SET_ATTRIBUTES_MEMORY_OPERATION
  have L: "Length \<noteq> 0" using ok' by (auto simp: CoreConvertSpace_zero)
  have mem: "gcd_get_map ?op s = mGcdMemorySpaceMap s" for s
    by (simp add: gcd_get_map_def GCD_MEMORY_SPACE_OPERATION_def)
  from inv L nowrap show ?thesis
  proof (cases rule: CoreConvertSpace_cases [where env = env and Operation = ?op and mt = 0
        and iot = 0 and Caps = 0 and Attrs = Attrs])
    case (converted P seg Q Map')
    have tiles: "gcd_tiles 0 (mGcdMemorySpaceMap s) ml" using inv by (simp add: gcd_inv_def gcd_map_inv_def)
    note segm = converted(5) [unfolded mem]
    have "gcd_kind x = k" if x: "x \<in> set seg" for x
    proof -
      obtain b where b: "Base \<le> b" "b \<le> Base + Length - 1" "gcd_covers x b"
        using gcd_segment_member_range [OF segm tiles range_end_ge [OF L nowrap] x] .
      then show ?thesis
        using one [OF b(1,2)] gcd_segment_lookup_range(1) [OF segm tiles b(1,2)]
          gcd_lookup_member [OF gcd_segment_tiles(2) [OF segm tiles] x b(3)] by simp
    qed
    then have "gcd_changed (\<lambda>k. k\<lparr>Attributes := Attrs OR (Attributes k AND
          (EXCLUSIVE_MEMORY_ATTRIBUTES OR NONEXCLUSIVE_MEMORY_ATTRIBUTES))\<rparr>)
        (gcd_mids (CoreConvertSpace_body ?op 0 0 0 0) Base Length seg Attrs) seg"
      by (intro gcd_mids_keep_attributes [of seg k]) auto
    from gcd_changed_lookup [OF convert.mids_clipped this a] converted(7,8) ok' a one [OF a] cpu
      gcd_segment_lookup_range(1) [OF segm tiles a] mem [of s']
    show ?thesis by auto
  qed (use ok' in auto)
qed

definition sample_wb :: gcd_state where
  "sample_wb = snd (CoreSetMemorySpaceAttributes sample_env 0x1000 0x4000 EFI_MEMORY_WB sample_added)"

lemma sample_wb_inv: "gcd_inv 68719476736 65536 sample_wb"
  unfolding sample_wb_def CoreSetMemorySpaceAttributes_def
  by (rule CoreConvertSpace_inv [OF sample_added_inv]) simp

lemma sample_wb_entry:
  "mGcdMemorySpaceMap sample_wb ! Suc 0 = \<lparr>Signature = EFI_GCD_MAP_SIGNATURE, BaseAddress = 0x1000,
     EndAddress = 0x4FFF, Capabilities = 0xF OR EFI_MEMORY_RUNTIME, Attributes = EFI_MEMORY_WB,
     GcdMemoryType = 2, GcdIoType = 0, ImageHandle = NULL, DeviceHandle = NULL\<rparr>"
  "length (mGcdMemorySpaceMap sample_wb) = 3"
  by code_simp+

theorem CoreSetMemorySpaceAttributes_keeps_cpu_attributes_witness:
  "fst (CoreSetMemorySpaceAttributes sample_env 0x1000 0x2000 EFI_MEMORY_RUNTIME sample_wb) = EFI_SUCCESS \<and>
   map_option Attributes (gcd_lookup (mGcdMemorySpaceMap
     (snd (CoreSetMemorySpaceAttributes sample_env 0x1000 0x2000 EFI_MEMORY_RUNTIME sample_wb))) 0x1800) =
   Some (EFI_MEMORY_RUNTIME OR EFI_MEMORY_WB)"
proof -
  let ?e = "mGcdMemorySpaceMap sample_wb ! Suc 0"
  have t: "gcd_tiles 0 (mGcdMemorySpaceMap sample_wb) 68719476736"
    using sample_wb_inv by (simp add: gcd_inv_def gcd_map_inv_def)
  have m: "?e \<in> set (mGcdMemorySpaceMap sample_wb)" using sample_wb_entry(2) by simp
  have one: "gcd_lookup (mGcdMemorySpaceMap sample_wb) a = Some (gcd_kind ?e)"
    if "0x1000 \<le> a" "a \<le> 0x1000 + 0x2000 - 1" for a
    by (rule gcd_lookup_member [OF t m])
      (use that in \<open>simp add: sample_wb_entry(1) gcd_covers_def, auto intro: order_trans\<close>)
  have ok: "fst (CoreSetMemorySpaceAttributes sample_env 0x1000 0x2000 EFI_MEMORY_RUNTIME sample_wb) = EFI_SUCCESS"
    by code_simp
  have "gcd_lookup (mGcdMemorySpaceMap
     (snd (CoreSetMemorySpaceAttributes sample_env 0x1000 0x2000 EFI_MEMORY_RUNTIME sample_wb))) 0x1800 =
    Some ((gcd_kind ?e)\<lparr>Attributes := EFI_MEMORY_RUNTIME OR (Attributes (gcd_kind ?e) AND
      (EXCLUSIVE_MEMORY_ATTRIBUTES OR NONEXCLUSIVE_MEMORY_ATTRIBUTES))\<rparr>)"
    by (rule CoreSetMemorySpaceAttributes_keeps_cpu_attributes [OF sample_wb_inv,
          where Base = "0x1000" and Length = "0x2000" and env = sample_env and Attrs = EFI_MEMORY_RUNTIME])
      (use ok one in \<open>auto simp: prod_eq_iff ConverToCpuArchAttributes_def efi_const
         NONEXCLUSIVE_MEMORY_ATTRIBUTES_def\<close>)
  then show ?thesis
    using ok by (simp add: gcd_kind_Attributes sample_wb_entry(1) EXCLUSIVE_MEMORY_ATTRIBUTES_def
      NONEXCLUSIVE_MEMORY_ATTRIBUTES_def efi_const)
qed

definition sample_mixed :: gcd_state where
  "sample_mixed =
     snd (CoreSetMemorySpaceAttributes sample_env 0x2000 0x1000 EFI_MEMORY_UC
      (snd (CoreSetMemorySpaceAttributes sample_env 0x1000 0x1000 EFI_MEMORY_WB
       (snd (CoreInternalAddMemorySpace sample_env EfiGcdMemoryTypeReserved 0x2000 0x1000 EFI_MEMORY_UC
        (snd (CoreInternalAddMemorySpace sample_env EfiGcdMemoryTypeReserved 0x1000 0x1000 EFI_MEMORY_WB
          sample_state)))))))"

text \<open>
  Across descriptors the attributes are not kept apart: the parameter \<^verbatim>\<open>Attributes\<close>
  collects the CPU attributes of every descriptor it has passed, and the next descriptor gets
  them too.  Here a write-back descriptor in front of an uncacheable one makes the second one
  both, beyond what its capabilities allow.
\<close>

theorem CoreSetMemorySpaceAttributes_mixes_descriptors:
  "map_option Attributes (gcd_lookup (mGcdMemorySpaceMap sample_mixed) 0x2000) = Some EFI_MEMORY_UC \<and>
   (case CoreSetMemorySpaceAttributes sample_env 0x1000 0x2000 EFI_MEMORY_RUNTIME sample_mixed of
      (Status, s') \<Rightarrow> Status = EFI_SUCCESS \<and>
        map_option Attributes (gcd_lookup (mGcdMemorySpaceMap s') 0x2000) =
          Some (EFI_MEMORY_RUNTIME OR EFI_MEMORY_WB OR EFI_MEMORY_UC) \<and>
        map_option Capabilities (gcd_lookup (mGcdMemorySpaceMap s') 0x2000) =
          Some (EFI_MEMORY_RUNTIME OR EFI_MEMORY_UC))"
  by code_simp

text \<open>
  Nothing checks that \<^verbatim>\<open>BaseAddress + Length\<close> stays below \<open>2 ^ 64\<close>.  A range that wraps
  around into the descriptor that holds its base is accepted: a descriptor of the new map ends
  before it begins, and the map no longer tiles any space.
\<close>

theorem CoreInternalAddMemorySpace_wraps:
  "case CoreInternalAddMemorySpace sample_env EfiGcdMemoryTypeReserved 5 0xFFFFFFFFFFFFFFFE 0xF sample_state of
     (Status, s') \<Rightarrow> Status = EFI_SUCCESS \<and> (\<forall>limit. \<not> gcd_tiles 0 (mGcdMemorySpaceMap s') limit)"
proof -
  let ?r = "CoreInternalAddMemorySpace sample_env EfiGcdMemoryTypeReserved 5 0xFFFFFFFFFFFFFFFE 0xF sample_state"
  have "fst ?r = EFI_SUCCESS \<and> list_ex (\<lambda>x. EndAddress x < BaseAddress x) (mGcdMemorySpaceMap (snd ?r))"
    by code_simp
  then show ?thesis
    using gcd_tiles_member by (fastforce simp: list_ex_iff u64_arith split: prod.split)
qed

end
