(* ===== verification/GcdAllocate.thy ===== *)
theory GcdAllocate
  imports GcdConvert
begin

text \<open>
  Correctness of \<^verbatim>\<open>CoreAllocateSpace\<close> (\<^verbatim>\<open>MdeModulePkg/Core/Dxe/Gcd/Gcd.c\<close>).  The search loop
  moves strictly through the map (\<open>search_sub_link\<close>), so that it ends within the fuel the model
  gives it; what it finds is aligned, inside the space and free (\<open>candidate_sound\<close>,
  \<open>find_sound\<close>); and the bottom-up search misses nothing (\<open>search_bottom_up_complete\<close>).
  \<open>CoreAllocateSpace_cases\<close> is the case analysis of a call.
\<close>

section \<open>Alignment\<close>

lemma and_not_mask_dvd: "2 ^ n dvd unat (x :: u64) \<longleftrightarrow> x AND (push_bit n 1 - 1) = 0"
  using and_mask_dvd_nat [of n x] by (simp add: mask_eq_exp_minus_1 push_bit_of_1)

lemma unat_align_down: "unat ((x :: u64) AND NOT (push_bit n 1 - 1)) = unat x div 2 ^ n * 2 ^ n"
proof -
  let ?m = "mask n :: u64"
  have "(x AND ?m) + (x AND NOT ?m) = (x AND ?m) OR (x AND NOT ?m)"
    by (rule disjunctive_add_eq_or) (auto intro!: bit_eqI simp: bit_simps)
  moreover have "(x AND ?m) OR (x AND NOT ?m) = x" by (auto intro!: bit_eqI simp: bit_simps)
  ultimately have "x AND NOT ?m = x - (x AND ?m)" by (simp add: eq_diff_eq add.commute)
  then have "unat (x AND NOT ?m) = unat x - unat (x AND ?m)"
    using unat_sub_nowrap [OF word_and_le2 [of x ?m]] by simp
  also have "unat (x AND ?m) = unat x mod 2 ^ n"
    by (simp only: take_bit_eq_mask [symmetric] unsigned_take_bit_eq) (simp only: take_bit_eq_mod)
  finally have "unat (x AND NOT ?m) = unat x - unat x mod 2 ^ n" .
  then show ?thesis
    by (simp add: mask_eq_exp_minus_1 push_bit_of_1 minus_mod_eq_div_mult)
qed

lemma align_down_le: "(x :: u64) AND NOT (push_bit n 1 - 1) \<le> x"
  by (simp add: word_and_le2)

lemma align_down_aligned: "((x :: u64) AND NOT (push_bit n 1 - 1)) AND (push_bit n 1 - 1) = 0"
  by (simp add: and.assoc)

text \<open>Rounding up gives the least aligned address at or above.\<close>

lemma align_up:
  fixes x :: u64
  assumes "n < 64" and "unat x < 2 ^ 63"
  shows "unat x \<le> unat ((x + (push_bit n 1 - 1)) AND NOT (push_bit n 1 - 1))"
    and "unat ((x + (push_bit n 1 - 1)) AND NOT (push_bit n 1 - 1)) < unat x + 2 ^ n"
    and "2 ^ n dvd b \<Longrightarrow> unat x \<le> b \<Longrightarrow>
      unat ((x + (push_bit n 1 - 1)) AND NOT (push_bit n 1 - 1)) \<le> b"
proof -
  have "(2 :: nat) ^ n \<le> 2 ^ 63" using assms(1) by (simp only: power_increasing_iff)
  then have "unat (x + (push_bit n 1 - 1)) = unat x + (2 ^ n - 1)"
    using assms unat_exp_minus_1 [OF assms(1)]
    by (subst unat_add_nowrap) (simp_all add: push_bit_of_1)
  then have e: "unat ((x + (push_bit n 1 - 1)) AND NOT (push_bit n 1 - 1)) =
      (unat x + (2 ^ n - 1)) div 2 ^ n * 2 ^ n" by (simp only: unat_align_down)
  let ?y = "unat x + (2 ^ n - 1)"
  have d: "?y div 2 ^ n * 2 ^ n + ?y mod 2 ^ n = ?y" and m: "?y mod 2 ^ n < 2 ^ n"
    by (rule div_mult_mod_eq) simp
  have p: "0 < (2 :: nat) ^ n" by simp
  show "unat x \<le> unat ((x + (push_bit n 1 - 1)) AND NOT (push_bit n 1 - 1))"
    unfolding e using d m p by linarith
  show "unat ((x + (push_bit n 1 - 1)) AND NOT (push_bit n 1 - 1)) < unat x + 2 ^ n"
    unfolding e using d m p by linarith
  show "unat ((x + (push_bit n 1 - 1)) AND NOT (push_bit n 1 - 1)) \<le> b"
    if dvd: "2 ^ n dvd b" and le: "unat x \<le> b"
  proof -
    obtain q where q: "b = 2 ^ n * q" using dvd by (auto simp: dvd_def)
    have "?y < b + 2 ^ n" using le p by linarith
    then have "?y < (q + 1) * 2 ^ n" unfolding q by (simp only: distrib_right mult_1 mult.commute)
    then have "?y div 2 ^ n < q + 1" by (rule less_mult_imp_div_less)
    then show ?thesis unfolding e q by simp
  qed
qed

section \<open>One step of the search\<close>

lemma gcd_search_loop_found:
  assumes "Map = P @ xs" and "CoreSearchGcdMapEntry_loop Base Length xs (length P) st0 = (EFI_SUCCESS, st, en)"
    and "\<And>i. st0 = Some i \<Longrightarrow> i < length P \<and> gcd_covers (Map ! i) Base"
  shows "\<exists>i j. st = Some i \<and> en = Some j \<and> i < length Map \<and> j < length Map \<and>
    gcd_covers (Map ! i) Base \<and> gcd_covers (Map ! j) (Base + Length - 1)"
  using assms
proof (induction xs arbitrary: P st0)
  case (Cons x xs)
  let ?st = "if Base \<ge> BaseAddress x \<and> Base \<le> EndAddress x then Some (length P) else st0"
  have st: "\<And>i. ?st = Some i \<Longrightarrow> i < length (P @ [x]) \<and> gcd_covers (Map ! i) Base"
    using Cons.prems(1,3) by (auto simp: gcd_covers_def less_Suc_eq split: if_splits)
  show ?case
  proof (cases "?st \<noteq> None \<and> gcd_covers x (Base + Length - 1)")
    case True
    then show ?thesis
      using Cons.prems(1,2) st by (force simp: gcd_covers_def Let_def)
  next
    case False
    then have "CoreSearchGcdMapEntry_loop Base Length xs (length (P @ [x])) ?st = (EFI_SUCCESS, st, en)"
      using Cons.prems(2) by (auto simp: gcd_covers_def Let_def split: if_splits)
    from Cons.IH [of "P @ [x]", OF _ this st] Cons.prems(1) show ?thesis by simp
  qed
qed simp

lemma CoreSearchGcdMapEntry_found:
  assumes "CoreSearchGcdMapEntry Base Length Map = (EFI_SUCCESS, st, en)"
  obtains i j where "st = Some i" "en = Some j" "i < length Map" "j < length Map"
    "gcd_covers (Map ! i) Base" "gcd_covers (Map ! j) (Base + Length - 1)"
  using gcd_search_loop_found [of Map "[]" Map Base Length None st en] assms that
  by (auto simp: CoreSearchGcdMapEntry_def)

lemma CoreSearchGcdMapEntry_status:
  "fst (CoreSearchGcdMapEntry Base Length Map) \<in> {EFI_SUCCESS, EFI_NOT_FOUND}"
proof -
  have "fst (CoreSearchGcdMapEntry_loop Base Length Map i st) \<in> {EFI_SUCCESS, EFI_NOT_FOUND}" for i st
    by (induction Map arbitrary: i st) (auto simp: Let_def)
  then show ?thesis by (simp add: CoreSearchGcdMapEntry_def)
qed

lemma gcd_tiles_nth_less:
  assumes "gcd_tiles s Map e" and "i < j" and "j < length Map"
  shows "unat (EndAddress (Map ! i)) < unat (BaseAddress (Map ! j))"
  using assms
proof (induction Map arbitrary: s i j)
  case (Cons x xs)
  then have tl: "gcd_tiles (unat (EndAddress x) + 1) xs e" by simp
  show ?case
  proof (cases i)
    case 0
    then show ?thesis
      using Cons.prems gcd_tiles_member [OF tl, of "xs ! (j - 1)"] by (auto simp: nth_Cons')
  next
    case (Suc i')
    then show ?thesis using Cons.IH [OF tl, of i' "j - 1"] Cons.prems by (auto simp: nth_Cons')
  qed
qed simp

lemma gcd_tiles_order:
  assumes "gcd_tiles s Map e" and "i < length Map" and "j < length Map"
    and "gcd_covers (Map ! i) a" and "gcd_covers (Map ! j) b" and "unat a \<le> unat b"
  shows "i \<le> j"
  using gcd_tiles_nth_less [OF assms(1) _ assms(2), of j] assms(4-6)
  by (force simp: gcd_covers_unat not_le [symmetric])

lemma candidate_top_down:
  assumes cand: "CoreAllocateSpace_candidate True (push_bit n 1 - 1) Length MaxAddress x Base = Try b"
    and x: "unat (BaseAddress x) \<le> unat (EndAddress x)" "unat (EndAddress x) < 2 ^ 63"
  shows "unat b + unat Length \<le> unat (EndAddress x) + 1" "unat b + unat Length \<le> unat MaxAddress + 1"
    "b AND (push_bit n 1 - 1) = 0"
proof -
  define m where "m = (if EndAddress x > MaxAddress then MaxAddress else EndAddress x)"
  have skip: "\<not> BaseAddress x + Length > MaxAddress" and fit: "\<not> Length > EndAddress x + 1"
    and b: "b = (m + 1 - Length) AND NOT (push_bit n 1 - 1)"
    using cand by (auto simp: CoreAllocateSpace_candidate_def m_def Let_def split: if_splits)
  have L: "unat Length \<le> unat (EndAddress x) + 1"
    using fit x(2) unat_succ [of "EndAddress x"] by (auto simp: u64_arith)
  then have "unat (BaseAddress x + Length) = unat (BaseAddress x) + unat Length"
    using x by (intro unat_add_nowrap) auto
  then have max: "unat Length \<le> unat MaxAddress" using skip by (simp add: u64_arith)
  have le: "unat m \<le> unat (EndAddress x)" "unat m \<le> unat MaxAddress" "unat Length \<le> unat m + 1"
    using L max by (auto simp: u64_arith m_def)
  then have m1: "unat (m + 1) = unat m + 1" using x(2) by (intro unat_succ) simp
  then have "unat (m + 1 - Length) = unat m + 1 - unat Length"
    using le(3) by (subst unat_sub_nowrap) (auto simp: word_le_nat_alt)
  moreover have "unat b \<le> unat (m + 1 - Length)"
    using align_down_le unfolding b word_le_nat_alt by blast
  ultimately show "unat b + unat Length \<le> unat (EndAddress x) + 1"
    "unat b + unat Length \<le> unat MaxAddress + 1" using le by linarith+
  show "b AND (push_bit n 1 - 1) = 0" unfolding b by (rule align_down_aligned)
qed

lemma candidate_bottom_up:
  "CoreAllocateSpace_candidate False M Length MaxAddress x Base =
     (let b = (BaseAddress x + M) AND NOT M
      in if b + Length - 1 > MaxAddress then GiveUp b else Try b)"
  by (simp add: CoreAllocateSpace_candidate_def)

text \<open>The entry where the next iteration goes on after a range was refused lies strictly ahead.\<close>

lemma search_sub_link:
  assumes tiles: "gcd_tiles 0 Map limit" and limit: "limit \<le> 2 ^ 63" and n: "n < 64" and L: "Length \<noteq> 0"
    and i: "i < length Map" "\<not> EFI_ERROR (check (Map ! i))"
    and cand: "CoreAllocateSpace_candidate td (push_bit n 1 - 1) Length MaxAddress (Map ! i) Base = Try b"
    and found: "CoreSearchGcdMapEntry b Length Map = (EFI_SUCCESS, st, en)"
    and err: "gcd_first_error check Map (the st) (the en) = Some j"
  shows "j < length Map \<and> (if td then j < i else i < j)"
proof -
  have x: "unat (BaseAddress (Map ! i)) \<le> unat (EndAddress (Map ! i))" "unat (EndAddress (Map ! i)) < 2 ^ 63"
    using gcd_tiles_member [OF tiles nth_mem [OF i(1)]] limit by auto
  then have cov: "gcd_covers (Map ! i) (BaseAddress (Map ! i))" "gcd_covers (Map ! i) (EndAddress (Map ! i))"
    by (auto simp: gcd_covers_unat)
  obtain k l where kl: "st = Some k" "en = Some l" "k < length Map" "l < length Map"
    "gcd_covers (Map ! k) b" "gcd_covers (Map ! l) (b + Length - 1)"
    using CoreSearchGcdMapEntry_found [OF found] .
  then have j: "k \<le> j" "j \<le> l" "j \<noteq> i" using gcd_first_error_Some [OF err] i(2) by auto
  show ?thesis
  proof (cases td)
    case True
    then have "unat b + unat Length \<le> unat (EndAddress (Map ! i)) + 1"
      using cand by (intro candidate_top_down(1) [OF _ x]) simp
    moreover from this have "unat (b + Length - 1) = unat b + unat Length - 1"
      using x(2) by (intro unat_range_end [OF L]) simp
    ultimately have "unat (b + Length - 1) \<le> unat (EndAddress (Map ! i))" by linarith
    then have "l \<le> i" by (rule gcd_tiles_order [OF tiles kl(4) i(1) kl(6) cov(2)])
    then show ?thesis using True j i by simp
  next
    case False
    then have b: "b = (BaseAddress (Map ! i) + (push_bit n 1 - 1)) AND NOT (push_bit n 1 - 1)"
      using cand by (auto simp: candidate_bottom_up Let_def split: if_splits)
    then have "unat (BaseAddress (Map ! i)) \<le> unat b"
      using align_up(1) [OF n, of "BaseAddress (Map ! i)"] x by simp
    then have "i \<le> k" by (rule gcd_tiles_order [OF tiles i(1) kl(3) cov(1) kl(5)])
    then show ?thesis using False j kl by simp
  qed
qed

lemma search_returns:
  assumes "gcd_tiles 0 Map limit" and "limit \<le> 2 ^ 63" and "n < 64" and "Length \<noteq> 0"
    and "i < length Map" and "(if td then i + 1 else length Map - i) < fuel"
  shows "CoreAllocateSpace_search fuel check td (push_bit n 1 - 1) Length MaxAddress Map (Some i) Base \<noteq> None"
  using assms(5,6)
proof (induction fuel arbitrary: i Base)
  case (Suc fuel)
  let ?Link = "if td then (if i = 0 then None else Some (i - 1))
     else (if i + 1 = length Map then None else Some (i + 1))"
  have nxt: "CoreAllocateSpace_search fuel check td (push_bit n 1 - 1) Length MaxAddress Map ?Link B \<noteq> None" for B
  proof (cases ?Link)
    case None
    moreover have "0 < fuel" using Suc.prems by (auto split: if_splits)
    ultimately show ?thesis by (cases fuel) simp_all
  next
    case (Some i')
    then show ?thesis using Suc.IH [of i' B] Suc.prems by (auto split: if_splits)
  qed
  note sub = search_sub_link [OF assms(1-4) Suc.prems(1), of check td MaxAddress Base]
  show ?case
  proof (cases "EFI_ERROR (check (Map ! i))")
    case False
    show ?thesis
    proof (cases "CoreAllocateSpace_candidate td (push_bit n 1 - 1) Length MaxAddress (Map ! i) Base")
      case (Try b)
      obtain Status st en where res: "CoreSearchGcdMapEntry b Length Map = (Status, st, en)"
        by (cases "CoreSearchGcdMapEntry b Length Map") auto
      show ?thesis
      proof (cases "EFI_ERROR Status")
        case ok: False
        then have "Status = EFI_SUCCESS" using CoreSearchGcdMapEntry_status [of b Length Map] res by auto
        then have "gcd_first_error check Map (the st) (the en) = Some j \<Longrightarrow>
            CoreAllocateSpace_search fuel check td (push_bit n 1 - 1) Length MaxAddress Map (Some j) b \<noteq> None" for j
          using sub [OF False Try, of st en j] res Suc.IH [of j b] Suc.prems(2) by (auto split: if_splits)
        then show ?thesis using Try False ok res by (auto simp: Let_def split: option.split)
      qed (use Try False res in simp)
    qed (use nxt False in \<open>auto simp: Let_def\<close>)
  qed (use nxt in \<open>simp add: Let_def\<close>)
qed simp

text \<open>A range that was found is the candidate of some entry, and every entry of it passed.\<close>

lemma search_found:
  assumes "CoreAllocateSpace_search fuel check td M Length MaxAddress Map Link Base = Some (True, st, en, b)"
    and "\<And>i. Link = Some i \<Longrightarrow> i < length Map"
  shows "\<exists>x \<in> set Map. \<exists>B. CoreAllocateSpace_candidate td M Length MaxAddress x B = Try b \<and>
    CoreSearchGcdMapEntry b Length Map = (EFI_SUCCESS, Some st, Some en) \<and>
    gcd_first_error check Map st en = None"
  using assms
proof (induction fuel arbitrary: Link Base)
  case (Suc fuel)
  then obtain i where i: "Link = Some i" "i < length Map" by (cases Link) auto
  let ?Link = "if td then (if i = 0 then None else Some (i - 1))
     else (if i + 1 = length Map then None else Some (i + 1))"
  have link: "\<And>k. ?Link = Some k \<Longrightarrow> k < length Map" using i by (auto split: if_splits)
  note nxt = Suc.IH [of ?Link Base, OF _ link]
  show ?case
  proof (cases "EFI_ERROR (check (Map ! i))")
    case False
    show ?thesis
    proof (cases "CoreAllocateSpace_candidate td M Length MaxAddress (Map ! i) Base")
      case (Try b')
      obtain Status st' en' where res: "CoreSearchGcdMapEntry b' Length Map = (Status, st', en')"
        by (cases "CoreSearchGcdMapEntry b' Length Map") auto
      have "Status = EFI_SUCCESS"
        using Suc.prems(1) i False Try res CoreSearchGcdMapEntry_status [of b' Length Map] by auto
      with res obtain k l where kl: "st' = Some k" "en' = Some l" "l < length Map"
        using CoreSearchGcdMapEntry_found by metis
      show ?thesis
      proof (cases "gcd_first_error check Map k l")
        case None
        then show ?thesis
          using Suc.prems(1) i False Try res kl \<open>Status = EFI_SUCCESS\<close> nth_mem [OF i(2)] by auto
      next
        case (Some j)
        then have "j < length Map" using gcd_first_error_Some [OF Some] kl by simp
        moreover have "CoreAllocateSpace_search fuel check td M Length MaxAddress Map (Some j) b' =
            Some (True, st, en, b)"
          using Suc.prems(1) i False Try res kl Some \<open>Status = EFI_SUCCESS\<close> by simp
        ultimately show ?thesis using Suc.IH [of "Some j" b'] by simp
      qed
    qed (use nxt Suc.prems(1) i False in \<open>auto simp: Let_def\<close>)
  qed (use nxt Suc.prems(1) i in \<open>simp add: Let_def\<close>)
qed simp

section \<open>Ranges that fit\<close>

text \<open>
  \<open>gcd_fits check limit M Length MaxAddress Map b\<close>: the range at \<open>b\<close> is aligned, lies in the
  space and at or below \<open>MaxAddress\<close>, and every address of it passes the check.
\<close>

definition gcd_fits ::
  "(EFI_GCD_MAP_ENTRY \<Rightarrow> EFI_STATUS) \<Rightarrow> nat \<Rightarrow> u64 \<Rightarrow> u64 \<Rightarrow> u64 \<Rightarrow> gcd_map \<Rightarrow> u64 \<Rightarrow> bool" where
  "gcd_fits check limit M Length MaxAddress Map b \<longleftrightarrow>
     b AND M = 0 \<and> unat b + unat Length \<le> limit \<and> b + Length - 1 \<le> MaxAddress \<and>
     (\<forall>a. b \<le> a \<and> a \<le> b + Length - 1 \<longrightarrow> \<not> EFI_ERROR (check (the (gcd_lookup Map a))))"

lemma gcd_tiles_next:
  assumes "gcd_tiles s Map e" and "i < length Map"
  shows "if i + 1 = length Map then unat (EndAddress (Map ! i)) + 1 = e
    else unat (BaseAddress (Map ! (i + 1))) = unat (EndAddress (Map ! i)) + 1"
proof -
  have "gcd_tiles s (take i Map @ Map ! i # drop (Suc i) Map) e"
    using assms id_take_nth_drop [OF assms(2)] by metis
  then have "gcd_tiles (unat (EndAddress (Map ! i)) + 1) (drop (Suc i) Map) e"
    by (auto simp: gcd_tiles_append)
  then show ?thesis
    using assms(2) by (cases "drop (Suc i) Map") (auto simp: nth_via_drop)
qed

lemma gcd_segment_nth:
  assumes "gcd_segment Map Base End P seg Q" and "length P \<le> j" and "j \<le> length P + length seg - 1"
  shows "Map ! j \<in> set seg"
proof -
  have "0 < length seg" and Map: "Map = P @ seg @ Q" using assms(1) by (simp_all add: gcd_segment_def)
  then have "j - length P < length seg" using assms(2,3) by linarith
  then show ?thesis using assms(2) by (simp add: Map nth_append)
qed

context gcd_check
begin

lemma fits_covered:
  assumes "gcd_fits check limit M Length MaxAddress Map b" and "gcd_tiles 0 Map limit"
    and "x \<in> set Map" and "EFI_ERROR (check x)" and "gcd_covers x a" and "b \<le> a"
  shows "b + Length - 1 < a"
proof (rule ccontr)
  assume "\<not> b + Length - 1 < a"
  then have "\<not> EFI_ERROR (check (the (gcd_lookup Map a)))"
    using assms(1,6) by (auto simp: gcd_fits_def)
  then show False using gcd_lookup_member [OF assms(2,3,5)] assms(4) check_kind by simp
qed

lemma fits_next:
  assumes fits: "gcd_fits check limit M Length MaxAddress Map b" and tiles: "gcd_tiles 0 Map limit"
    and i: "i < length Map" and L: "Length \<noteq> 0" and "unat (EndAddress (Map ! i)) < unat b"
  shows "\<exists>k. (if i + 1 = length Map then None else Some (i + 1)) = Some k \<and>
    unat (BaseAddress (Map ! k)) \<le> unat b"
proof -
  have "0 < unat Length" using L by (simp add: unat_gt_0)
  moreover have "unat b + unat Length \<le> limit" using fits by (simp add: gcd_fits_def)
  ultimately show ?thesis
    using gcd_tiles_next [OF tiles i] assms(5) by (auto split: if_splits)
qed

lemma fits_rejected:
  assumes fits: "gcd_fits check limit M Length MaxAddress Map b" and tiles: "gcd_tiles 0 Map limit"
    and "limit \<le> 2 ^ 63" and L: "Length \<noteq> 0" and x: "x \<in> set Map" "EFI_ERROR (check x)"
    and "unat (BaseAddress x) \<le> unat b"
  shows "unat (EndAddress x) < unat b"
proof (rule ccontr)
  assume "\<not> unat (EndAddress x) < unat b"
  then have "gcd_covers x b" using assms(7) by (simp add: gcd_covers_unat)
  from fits_covered [OF fits tiles x this] have "b + Length - 1 < b" by simp
  moreover have "b \<le> b + Length - 1"
    using fits assms(3) by (intro range_end_ge [OF L]) (simp add: gcd_fits_def)
  ultimately show False by simp
qed

lemma fits_after:
  assumes fits: "gcd_fits check limit M Length MaxAddress Map b0" and tiles: "gcd_tiles 0 Map limit"
    and limit: "limit \<le> 2 ^ 63" and L: "Length \<noteq> 0" and nowrap: "unat b + unat Length \<le> 2 ^ 64"
    and le: "unat b \<le> unat b0" and segm: "gcd_segment Map b (b + Length - 1) P seg Q"
    and x: "x \<in> set seg" "EFI_ERROR (check x)"
  shows "unat (BaseAddress x) \<le> unat b0"
proof -
  obtain a where a: "b \<le> a" "a \<le> b + Length - 1" "gcd_covers x a"
    using gcd_segment_member_range [OF segm tiles range_end_ge [OF L nowrap] x(1)] .
  have "unat (b0 + Length - 1) = unat b0 + unat Length - 1"
    using fits limit by (intro unat_range_end [OF L]) (simp add: gcd_fits_def)
  then have "\<not> b0 + Length - 1 < a" using a(2) le unat_range_end [OF L nowrap] by (simp add: u64_arith)
  moreover have "x \<in> set Map" using segm x(1) by (auto simp: gcd_segment_def)
  ultimately have "\<not> b0 \<le> a" using fits_covered [OF fits tiles _ x(2) a(3)] by blast
  then show ?thesis using a(3) by (simp add: gcd_covers_unat u64_arith)
qed

lemma search_bottom_up_complete:
  assumes tiles: "gcd_tiles 0 Map limit" and limit: "limit \<le> 2 ^ 63" and n: "n < 64"
    and L: "Length \<noteq> 0" "unat Length \<le> 2 ^ 63"
    and "CoreAllocateSpace_search fuel check False (push_bit n 1 - 1) Length MaxAddress Map Link Base =
      Some (found, st, en, b)"
    and "\<And>i. Link = Some i \<Longrightarrow> i < length Map"
    and "\<And>b0. gcd_fits check limit (push_bit n 1 - 1) Length MaxAddress Map b0 \<Longrightarrow>
      \<exists>i. Link = Some i \<and> unat (BaseAddress (Map ! i)) \<le> unat b0"
    and fits: "gcd_fits check limit (push_bit n 1 - 1) Length MaxAddress Map b0"
  shows "found \<and> unat b \<le> unat b0"
  using assms(6-8)
proof (induction fuel arbitrary: Link Base)
  case (Suc fuel)
  let ?fits = "gcd_fits check limit (push_bit n 1 - 1) Length MaxAddress Map"
  obtain i where i: "Link = Some i" "i < length Map" using Suc.prems(2,3) fits by blast
  define x where "x = Map ! i"
  have x: "x \<in> set Map" using i by (simp add: x_def)
  have low: "unat (BaseAddress x) \<le> unat b1" if "?fits b1" for b1
    using Suc.prems(3) [OF that] i by (auto simp: x_def)
  note xlim = gcd_tiles_member [OF tiles x]
  show ?case
  proof (cases "EFI_ERROR (check x)")
    case True
    show ?thesis
    proof (rule Suc.IH)
      show "CoreAllocateSpace_search fuel check False (push_bit n 1 - 1) Length MaxAddress Map
          (if i + 1 = length Map then None else Some (i + 1)) Base = Some (found, st, en, b)"
        using Suc.prems(1) i True by (simp add: x_def Let_def)
      show "\<And>k. (if i + 1 = length Map then None else Some (i + 1)) = Some k \<Longrightarrow> k < length Map"
        using i by (auto split: if_splits)
      show "\<exists>k. (if i + 1 = length Map then None else Some (i + 1)) = Some k \<and>
          unat (BaseAddress (Map ! k)) \<le> unat b1" if "?fits b1" for b1
        using fits_rejected [OF that tiles limit L(1) x True low [OF that]]
        by (intro fits_next [OF that tiles i(2) L(1)]) (simp add: x_def)
    qed
  next
    case ok: False
    define c where "c = (BaseAddress x + (push_bit n 1 - 1)) AND NOT (push_bit n 1 - 1)"
    have x63: "unat (BaseAddress x) < 2 ^ 63" using xlim limit by simp
    have c: "unat c \<le> unat b1" if "?fits b1" for b1
      unfolding c_def using low [OF that] that and_not_mask_dvd [of n b1]
      by (intro align_up(3) [OF n x63]) (auto simp: gcd_fits_def)
    have "unat c \<le> 2 ^ 63"
      unfolding c_def using n x63 by (intro align_up(3) [OF n x63] le_imp_power_dvd) auto
    then have nowrap: "unat c + unat Length \<le> 2 ^ 64" using L by simp
    have fend: "unat (b1 + Length - 1) = unat b1 + unat Length - 1" if "?fits b1" for b1
      using that limit by (intro unat_range_end [OF L(1)]) (simp add: gcd_fits_def)
    have "\<not> c + Length - 1 > MaxAddress"
    proof -
      have "unat (c + Length - 1) \<le> unat (b0 + Length - 1)"
        using c [OF fits] fend [OF fits] unat_range_end [OF L(1) nowrap] by simp
      then show ?thesis using fits by (auto simp: gcd_fits_def u64_arith)
    qed
    then have cand: "CoreAllocateSpace_candidate False (push_bit n 1 - 1) Length MaxAddress (Map ! i) Base = Try c"
      by (simp add: candidate_bottom_up Let_def c_def x_def)
    show ?thesis
    proof (cases rule: CoreSearchGcdMapEntry_cases [OF tiles L(1) nowrap, case_names found missing])
      case (missing st' en')
      then show ?thesis using c [OF fits] fits by (simp add: gcd_fits_def)
    next
      case (found P seg Q)
      show ?thesis
      proof (cases "gcd_first_error check Map (length P) (length P + length seg - 1)")
        case None
        then show ?thesis using Suc.prems(1) i ok cand found c [OF fits] by (simp add: x_def Let_def)
      next
        case (Some j)
        have j: "length P \<le> j" "j \<le> length P + length seg - 1" "EFI_ERROR (check (Map ! j))"
          using gcd_first_error_Some [OF Some] by auto
        have mj: "Map ! j \<in> set seg" by (rule gcd_segment_nth [OF found(2) j(1,2)])
        have jl: "j < length Map" using j(2) found(2) by (cases seg) (auto simp: gcd_segment_def)
        show ?thesis
        proof (rule Suc.IH [of "Some j" c])
          show "CoreAllocateSpace_search fuel check False (push_bit n 1 - 1) Length MaxAddress Map
              (Some j) c = Some (found, st, en, b)"
            using Suc.prems(1) i ok cand found Some by (simp add: x_def Let_def)
          show "\<exists>k. Some j = Some k \<and> unat (BaseAddress (Map ! k)) \<le> unat b1" if "?fits b1" for b1
            using fits_after [OF that tiles limit L(1) nowrap c [OF that] found(2) mj j(3)] by simp
        qed (use jl in simp)
      qed
    qed
  qed
qed simp

end

section \<open>Finding a range\<close>

lemma candidate_sound:
  assumes tiles: "gcd_tiles 0 Map limit" and limit: "limit \<le> 2 ^ 63" and n: "n < 64"
    and L: "Length \<noteq> 0" "unat Length \<le> 2 ^ 63" and x: "x \<in> set Map"
    and cand: "CoreAllocateSpace_candidate td (push_bit n 1 - 1) Length MaxAddress x B = Try b"
  shows "unat b + unat Length \<le> 2 ^ 64" and "b AND (push_bit n 1 - 1) = 0" and "b + Length - 1 \<le> MaxAddress"
proof -
  have xl: "unat (BaseAddress x) \<le> unat (EndAddress x)" "unat (EndAddress x) < 2 ^ 63"
    using gcd_tiles_member [OF tiles x] limit by auto
  then have x63: "unat (BaseAddress x) < 2 ^ 63" by simp
  have "unat b + unat Length \<le> 2 ^ 64 \<and> b AND (push_bit n 1 - 1) = 0 \<and> b + Length - 1 \<le> MaxAddress"
  proof (cases td)
    case True
    then have "CoreAllocateSpace_candidate True (push_bit n 1 - 1) Length MaxAddress x B = Try b"
      using cand by simp
    note c = candidate_top_down [OF this xl]
    have nw: "unat b + unat Length \<le> 2 ^ 64" using c(1) xl by simp
    then show ?thesis using c(2,3) unat_range_end [OF L(1) nw] by (simp add: u64_arith)
  next
    case False
    then have b: "b = (BaseAddress x + (push_bit n 1 - 1)) AND NOT (push_bit n 1 - 1)"
      and max: "b + Length - 1 \<le> MaxAddress"
      using cand by (auto simp: candidate_bottom_up Let_def split: if_splits)
    have "unat b \<le> 2 ^ 63"
      unfolding b using n x63 by (intro align_up(3) [OF n x63] le_imp_power_dvd) auto
    then show ?thesis using L(2) max align_down_aligned unfolding b by simp
  qed
  then show "unat b + unat Length \<le> 2 ^ 64" "b AND (push_bit n 1 - 1) = 0"
    "b + Length - 1 \<le> MaxAddress" by blast+
qed

definition gcd_max_address :: "EFI_GCD_ALLOCATE_TYPE \<Rightarrow> u64 \<Rightarrow> gcd_map \<Rightarrow> u64" where
  "gcd_max_address at Base Map =
     (if at = EfiGcdAllocateMaxAddressSearchBottomUp \<or> at = EfiGcdAllocateMaxAddressSearchTopDown
      then Base else EndAddress (last Map))"

text \<open>What a found range is, for every allocation type.\<close>

definition gcd_granted ::
  "(EFI_GCD_MAP_ENTRY \<Rightarrow> EFI_STATUS) \<Rightarrow> nat \<Rightarrow> EFI_GCD_ALLOCATE_TYPE \<Rightarrow> u64 \<Rightarrow> u64 \<Rightarrow> u64 \<Rightarrow>
     gcd_map \<Rightarrow> u64 \<Rightarrow> bool" where
  "gcd_granted check limit at M Length Base Map b \<longleftrightarrow>
     (if at = EfiGcdAllocateAddress then b = Base \<and> gcd_fits check limit M Length (- 1) Map b
      else gcd_fits check limit M Length (gcd_max_address at Base Map) Map b)"

text \<open>
  The requests whose arithmetic does not wrap: for a fixed address the range ends at or below
  \<open>2 ^ 64\<close>, for a search the length is at most half the address space.
\<close>

definition gcd_no_wrap :: "EFI_GCD_ALLOCATE_TYPE \<Rightarrow> u64 \<Rightarrow> u64 \<Rightarrow> bool" where
  "gcd_no_wrap at Length Base \<longleftrightarrow>
     (if at = EfiGcdAllocateAddress then unat Base + unat Length \<le> 2 ^ 64 else unat Length \<le> 2 ^ 63)"

context gcd_check
begin

lemma found_fits:
  assumes tiles: "gcd_tiles 0 Map limit" and nowrap: "unat b + unat Length \<le> 2 ^ 64" and L: "Length \<noteq> 0"
    and ok: "CoreSearchGcdMapEntry b Length Map = (EFI_SUCCESS, Some st, Some en)"
    and none: "gcd_first_error check Map st en = None"
    and "b AND M = 0" and "b + Length - 1 \<le> MaxAddress"
  shows "gcd_fits check limit M Length MaxAddress Map b"
    and "\<exists>P seg Q. gcd_segment Map b (b + Length - 1) P seg Q \<and> st = length P \<and> en = length P + length seg - 1"
  by (cases rule: CoreSearchGcdMapEntry_cases [OF tiles L nowrap, case_names found missing];
      use assms(4-7) first_error_None [OF _ tiles range_end_ge [OF L nowrap]] in
        \<open>auto simp: gcd_fits_def\<close>)+

lemma find_sound:
  assumes tiles: "gcd_tiles 0 Map limit" and limit: "limit \<le> 2 ^ 63" and n: "n < 64" and L: "Length \<noteq> 0"
    and wrap: "gcd_no_wrap at Length Base" and ne: "Map \<noteq> []"
    and res: "CoreAllocateSpace_find check at (push_bit n 1 - 1) Length Map Base = Some (Status, st, en, b)"
    and ok: "\<not> EFI_ERROR Status"
  shows "Status = EFI_SUCCESS \<and> gcd_granted check limit at (push_bit n 1 - 1) Length Base Map b \<and>
    (\<exists>P seg Q. gcd_segment Map b (b + Length - 1) P seg Q \<and> st = length P \<and> en = length P + length seg - 1)"
proof (cases "at = EfiGcdAllocateAddress")
  case True
  obtain St st' en' where srch: "CoreSearchGcdMapEntry Base Length Map = (St, st', en')"
    by (cases "CoreSearchGcdMapEntry Base Length Map") auto
  have align: "Base AND (push_bit n 1 - 1) = 0" using res ok True
    by (auto simp: CoreAllocateSpace_find_def split: if_splits)
  have "St = EFI_SUCCESS"
    using res ok True srch align CoreSearchGcdMapEntry_status [of Base Length Map]
    by (auto simp: CoreAllocateSpace_find_def)
  then obtain k l where kl: "st' = Some k" "en' = Some l"
    using srch CoreSearchGcdMapEntry_found by metis
  have r: "gcd_first_error check Map k l = None" "Status = EFI_SUCCESS" "st = k" "en = l" "b = Base"
    using res ok True srch align kl \<open>St = EFI_SUCCESS\<close> gcd_first_error_Some
    by (auto simp: CoreAllocateSpace_find_def split: option.splits)
  then show ?thesis
    using found_fits [OF tiles _ L _ r(1), of Base "push_bit n 1 - 1" "- 1"] srch kl align True wrap
      \<open>St = EFI_SUCCESS\<close>
    by (auto simp: gcd_granted_def gcd_no_wrap_def)
next
  case False
  define Link where "Link = (if gcd_top_down at then Some (length Map - 1) else Some 0)"
  have bound: "\<And>i. Link = Some i \<Longrightarrow> i < length Map" using ne by (auto simp: Link_def split: if_splits)
  obtain f where f: "CoreAllocateSpace_search (length Map + 1) check (gcd_top_down at) (push_bit n 1 - 1)
      Length (gcd_max_address at Base Map) Map Link Base = Some (f, st, en, b)"
    "Status = (if f then EFI_SUCCESS else EFI_NOT_FOUND)"
    using res False ne by (auto simp: CoreAllocateSpace_find_def gcd_max_address_def Link_def Let_def
        split: option.splits)
  then have f: "CoreAllocateSpace_search (length Map + 1) check (gcd_top_down at) (push_bit n 1 - 1)
      Length (gcd_max_address at Base Map) Map Link Base = Some (True, st, en, b)" "Status = EFI_SUCCESS"
    using ok by (auto split: if_splits)
  obtain x B where x: "x \<in> set Map"
    "CoreAllocateSpace_candidate (gcd_top_down at) (push_bit n 1 - 1) Length (gcd_max_address at Base Map) x B = Try b"
    "CoreSearchGcdMapEntry b Length Map = (EFI_SUCCESS, Some st, Some en)"
    "gcd_first_error check Map st en = None"
    using search_found [OF f(1) bound] by auto
  have "unat Length \<le> 2 ^ 63" using wrap False by (simp add: gcd_no_wrap_def)
  note c = candidate_sound [OF tiles limit n L this x(1,2)]
  show ?thesis using found_fits [OF tiles c(1) L x(3,4) c(2,3)] f(2) False by (simp add: gcd_granted_def)
qed

lemma find_returns:
  assumes "gcd_tiles 0 Map limit" and "limit \<le> 2 ^ 63" and "n < 64" and "Length \<noteq> 0" and "Map \<noteq> []"
  shows "CoreAllocateSpace_find check at (push_bit n 1 - 1) Length Map Base \<noteq> None"
proof -
  let ?i = "if gcd_top_down at then length Map - 1 else 0"
  have "CoreAllocateSpace_search (length Map + 1) check (gcd_top_down at) (push_bit n 1 - 1) Length
      (gcd_max_address at Base Map) Map (Some ?i) Base \<noteq> None"
    by (rule search_returns [OF assms(1-4)]) (use assms(5) in auto)
  then obtain r where "CoreAllocateSpace_search (length Map + 1) check (gcd_top_down at) (push_bit n 1 - 1) Length
      (gcd_max_address at Base Map) Map (Some ?i) Base = Some r" by blast
  then have "at \<noteq> EfiGcdAllocateAddress \<Longrightarrow> ?thesis"
    using assms(5) by (cases r) (auto simp: CoreAllocateSpace_find_def gcd_max_address_def Let_def
      simp del: CoreAllocateSpace_search.simps)
  moreover have "at = EfiGcdAllocateAddress \<Longrightarrow> ?thesis"
    by (simp add: CoreAllocateSpace_find_def split: option.split prod.split)
  ultimately show ?thesis by blast
qed

end

section \<open>Allocating\<close>

lemma gcd_inv_limits:
  assumes "gcd_inv ml il s"
  shows "gcd_tiles 0 (gcd_get_map Operation s) (gcd_limit Operation ml il)"
    and "gcd_limit Operation ml il \<le> 2 ^ 63" and "gcd_get_map Operation s \<noteq> []"
  using assms by (auto simp: gcd_inv_def gcd_map_inv_def gcd_get_map_def gcd_limit_def)

text \<open>The parameters \<^verbatim>\<open>CoreAllocateSpace\<close> accepts.\<close>

definition gcd_request_ok ::
  "EFI_GCD_ALLOCATE_TYPE \<Rightarrow> EFI_GCD_MEMORY_TYPE \<Rightarrow> EFI_GCD_IO_TYPE \<Rightarrow> UINTN \<Rightarrow> u64 \<Rightarrow> EFI_HANDLE \<Rightarrow> bool" where
  "gcd_request_ok at mt iot Alignment Length ImageH \<longleftrightarrow>
     at < EfiGcdMaxAllocateType \<and> mt < EfiGcdMemoryTypeMaximum \<and> iot < EfiGcdIoTypeMaximum \<and>
     ImageH \<noteq> NULL \<and> Alignment < 64 \<and> Length \<noteq> 0"

lemma CoreAllocateSpace_bad:
  assumes "\<not> gcd_request_ok at mt iot Alignment Length ImageH \<or> BaseAddr = None"
  shows "\<exists>Status. EFI_ERROR Status \<and>
    CoreAllocateSpace env Operation at mt iot Alignment Length BaseAddr ImageH DeviceH s =
      Some (Status, BaseAddr, s)"
proof -
  consider "EfiGcdMaxAllocateType \<le> at \<or> EfiGcdMemoryTypeMaximum \<le> mt \<or> EfiGcdIoTypeMaximum \<le> iot \<or>
      BaseAddr = None \<or> ImageH = 0"
    | Base where "BaseAddr = Some Base" "64 \<le> Alignment \<or> Length = 0"
    using assms by (cases BaseAddr) (auto simp: gcd_request_ok_def not_less)
  then show ?thesis
  proof cases
    case 1
    then have "CoreAllocateSpace env Operation at mt iot Alignment Length BaseAddr ImageH DeviceH s =
        Some (EFI_INVALID_PARAMETER, BaseAddr, s)"
      by (elim disjE; cases BaseAddr) (simp_all add: CoreAllocateSpace_def)
    then show ?thesis by simp
  next
    case 2
    then show ?thesis by (elim disjE) (simp_all add: CoreAllocateSpace_def)
  qed
qed

lemma CoreAllocateSpace_found:
  assumes inv: "gcd_inv ml il s" and req: "gcd_request_ok at mt iot Alignment Length ImageH"
    and find: "CoreAllocateSpace_find (CoreAllocateSpaceCheckEntry Operation mt iot) at
       (push_bit (unat Alignment) 1 - 1) Length (gcd_get_map Operation s) Base = Some (Status, i, j, b)"
  shows "CoreAllocateSpace env Operation at mt iot Alignment Length (Some Base) ImageH DeviceH s =
    Some (if EFI_ERROR Status then (Status, Some b, s)
      else if \<not> gcd_alloc_ok env s then (EFI_OUT_OF_RESOURCES, Some b, s)
      else (case (case gcd_update_range (CoreAllocateSpace_body ImageH DeviceH) b Length (j + 1 - i)
               (gcd_get_map Operation s) i 0 zero_entry zero_entry of
           (Map1, EndLink1, Top1, Bottom1) \<Rightarrow>
             CoreCleanupGcdMapEntry Top1 Bottom1 (gcd_start_after (gcd_get_map Operation s) i b) EndLink1 Map1
               (gcd_pool s + 2)) of (Status4, Map2, pool2) \<Rightarrow>
         (Status4, Some b, gcd_set_map Operation Map2 (s\<lparr>gcd_pool := pool2\<rparr>))))"
proof -
  have r: "\<not> EfiGcdMaxAllocateType \<le> at" "\<not> EfiGcdMemoryTypeMaximum \<le> mt" "\<not> EfiGcdIoTypeMaximum \<le> iot"
    "ImageH \<noteq> 0" "\<not> 64 \<le> Alignment" "Length \<noteq> 0"
    using req by (auto simp: gcd_request_ok_def not_le)
  show ?thesis
    using find r inv
    by (auto simp: CoreAllocateSpace_def gcd_release_changed [OF inv] CoreAllocateGcdMapEntry_eq
        gcd_alloc_ok_def Let_def split: prod.split)
qed

lemma CoreAllocateSpace_cases:
  assumes inv: "gcd_inv ml il s" and wrap: "\<And>Base. BaseAddr = Some Base \<Longrightarrow> gcd_no_wrap at Length Base"
  obtains (refused) Status B where "EFI_ERROR Status"
      "CoreAllocateSpace env Operation at mt iot Alignment Length BaseAddr ImageH DeviceH s = Some (Status, B, s)"
    | (allocated) Base b Map' where "BaseAddr = Some Base" "gcd_request_ok at mt iot Alignment Length ImageH"
      "gcd_granted (CoreAllocateSpaceCheckEntry Operation mt iot) (gcd_limit Operation ml il) at
         (push_bit (unat Alignment) 1 - 1) Length Base (gcd_get_map Operation s) b"
      "gcd_map_inv (gcd_limit Operation ml il) Map'"
      "\<And>a. gcd_lookup Map' a = (if b \<le> a \<and> a \<le> b + Length - 1
         then map_option (\<lambda>k. k\<lparr>ImageHandle := ImageH, DeviceHandle := DeviceH\<rparr>)
                (gcd_lookup (gcd_get_map Operation s) a)
         else gcd_lookup (gcd_get_map Operation s) a)"
      "CoreAllocateSpace env Operation at mt iot Alignment Length BaseAddr ImageH DeviceH s =
         Some (EFI_SUCCESS, Some b, gcd_set_map Operation Map'
           (s\<lparr>gcd_pool := gcd_pool s + length Map' - length (gcd_get_map Operation s)\<rparr>))"
proof (cases "gcd_request_ok at mt iot Alignment Length ImageH \<and> BaseAddr \<noteq> None")
  case False
  then have "\<not> gcd_request_ok at mt iot Alignment Length ImageH \<or> BaseAddr = None" by blast
  from CoreAllocateSpace_bad [OF this] refused show thesis by blast
next
  case True
  then obtain Base where Base: "BaseAddr = Some Base" and req: "gcd_request_ok at mt iot Alignment Length ImageH"
    by auto
  let ?Map = "gcd_get_map Operation s" and ?limit = "gcd_limit Operation ml il"
  note lim = gcd_inv_limits [OF inv, of Operation]
  have n: "unat Alignment < 64" and L: "Length \<noteq> 0" using req by (auto simp: gcd_request_ok_def word_less_nat_alt)
  obtain Status st en b where find: "CoreAllocateSpace_find (CoreAllocateSpaceCheckEntry Operation mt iot) at
      (push_bit (unat Alignment) 1 - 1) Length ?Map Base = Some (Status, st, en, b)"
    using allocate_check.find_returns [OF lim(1,2) n L lim(3)] by (metis option.exhaust prod_cases4)
  note res = CoreAllocateSpace_found [OF inv req find, of env DeviceH]
  show thesis
  proof (cases "EFI_ERROR Status \<or> \<not> gcd_alloc_ok env s")
    case True
    then show thesis using res Base
      by (intro refused [of "if EFI_ERROR Status then Status else EFI_OUT_OF_RESOURCES" "Some b"]) auto
  next
    case False
    obtain P seg Q where sound: "gcd_granted (CoreAllocateSpaceCheckEntry Operation mt iot) ?limit at
         (push_bit (unat Alignment) 1 - 1) Length Base ?Map b"
      and seg: "gcd_segment ?Map b (b + Length - 1) P seg Q" "st = length P" "en = length P + length seg - 1"
      using allocate_check.find_sound [OF lim(1,2) n L wrap [OF Base] lim(3) find] False by blast
    have "unat b + unat Length \<le> 2 ^ 64"
      using sound lim(2) by (auto simp: gcd_granted_def gcd_fits_def split: if_splits)
    then have le: "unat b \<le> unat (b + Length - 1)" using range_end_ge [OF L] by (simp add: word_le_nat_alt)
    have len: "en + 1 - length P = length seg" using seg by (cases seg) (auto simp: gcd_segment_def)
    obtain Map' where Map': "(case gcd_update_range (CoreAllocateSpace_body ImageH DeviceH) b Length (length seg)
          ?Map (length P) 0 zero_entry zero_entry of
         (Map1, EndLink1, Top1, Bottom1) \<Rightarrow>
           CoreCleanupGcdMapEntry Top1 Bottom1 (gcd_start_after ?Map (length P) b) EndLink1 Map1
             (gcd_pool s + 2)) = (EFI_SUCCESS, Map', gcd_pool s + length Map' - length ?Map)"
        "gcd_map_inv ?limit Map'"
        "\<And>a. gcd_lookup Map' a = (if b \<le> a \<and> a \<le> b + Length - 1
           then gcd_lookup (gcd_mids (CoreAllocateSpace_body ImageH DeviceH) b Length seg 0) a
           else gcd_lookup ?Map a)"
      using allocate.range_update [OF gcd_inv_get_map(1) [OF inv] seg(1) le gcd_inv_get_map(2) [OF inv]]
      by blast
    show thesis
    proof (rule allocated [OF Base req sound Map'(2)])
      show "CoreAllocateSpace env Operation at mt iot Alignment Length BaseAddr ImageH DeviceH s =
         Some (EFI_SUCCESS, Some b, gcd_set_map Operation Map'
           (s\<lparr>gcd_pool := gcd_pool s + length Map' - length ?Map\<rparr>))"
        using res False unfolding seg(2) len Map'(1) Base by simp
    qed (simp add: Map'(3) allocate.mids_lookup [OF seg(1) lim(1)])
  qed
qed

lemma CoreCleanupGcdMapEntry_status:
  "CoreCleanupGcdMapEntry Top Bottom StartLink EndLink Map pool = (Status, Map', pool') \<Longrightarrow> Status = EFI_SUCCESS"
  by (auto simp: CoreCleanupGcdMapEntry_def Let_def split: prod.splits)

lemma find_bottom_up:
  assumes inv: "gcd_inv ml il s" and req: "gcd_request_ok at mt iot Alignment Length ImageH"
    and at: "at = EfiGcdAllocateAnySearchBottomUp \<or> at = EfiGcdAllocateMaxAddressSearchBottomUp"
    and L63: "unat Length \<le> 2 ^ 63"
    and fits: "gcd_fits (CoreAllocateSpaceCheckEntry Operation mt iot) (gcd_limit Operation ml il)
      (push_bit (unat Alignment) 1 - 1) Length (gcd_max_address at Base (gcd_get_map Operation s))
      (gcd_get_map Operation s) b0"
    and res: "CoreAllocateSpace_find (CoreAllocateSpaceCheckEntry Operation mt iot) at
      (push_bit (unat Alignment) 1 - 1) Length (gcd_get_map Operation s) Base = Some (Status, st, en, b)"
  shows "Status = EFI_SUCCESS \<and> unat b \<le> unat b0"
proof -
  let ?Map = "gcd_get_map Operation s"
  note lim = gcd_inv_limits [OF inv, of Operation]
  have n: "unat Alignment < 64" and L: "Length \<noteq> 0" using req by (auto simp: gcd_request_ok_def word_less_nat_alt)
  have td: "\<not> gcd_top_down at" "at \<noteq> EfiGcdAllocateAddress"
    using at by (auto simp: gcd_top_down_def efi_const)
  have first: "unat (BaseAddress (?Map ! 0)) = 0" using lim(1,3) by (cases ?Map) auto
  obtain f where f: "CoreAllocateSpace_search (length ?Map + 1) (CoreAllocateSpaceCheckEntry Operation mt iot)
      False (push_bit (unat Alignment) 1 - 1) Length (gcd_max_address at Base ?Map) ?Map (Some 0) Base =
      Some (f, st, en, b)" and St: "Status = (if f then EFI_SUCCESS else EFI_NOT_FOUND)"
    using res td lim(3) by (auto simp: CoreAllocateSpace_find_def gcd_max_address_def Let_def
      simp del: CoreAllocateSpace_search.simps split: option.splits)
  have "f \<and> unat b \<le> unat b0"
    by (rule allocate_check.search_bottom_up_complete [OF lim(1,2) n L L63 f _ _ fits])
      (use lim(3) first in auto)
  then show ?thesis using St by simp
qed

section \<open>Properties\<close>

text \<open>
  C3.  \<^verbatim>\<open>CoreAllocateSpace\<close> returns, whatever it is asked for: the search, which jumps back and
  forth in the map, ends.
\<close>

theorem CoreAllocateSpace_terminates:
  assumes inv: "gcd_inv ml il s"
  shows "\<exists>r. CoreAllocateSpace env Operation at mt iot Alignment Length BaseAddr ImageH DeviceH s = Some r"
proof (cases "gcd_request_ok at mt iot Alignment Length ImageH \<and> BaseAddr \<noteq> None")
  case False
  then have "\<not> gcd_request_ok at mt iot Alignment Length ImageH \<or> BaseAddr = None" by blast
  from CoreAllocateSpace_bad [OF this] show ?thesis by blast
next
  case True
  then obtain Base where Base: "BaseAddr = Some Base" and req: "gcd_request_ok at mt iot Alignment Length ImageH"
    by auto
  note lim = gcd_inv_limits [OF inv, of Operation]
  have n: "unat Alignment < 64" and L: "Length \<noteq> 0" using req by (auto simp: gcd_request_ok_def word_less_nat_alt)
  obtain Status st en b where "CoreAllocateSpace_find (CoreAllocateSpaceCheckEntry Operation mt iot) at
      (push_bit (unat Alignment) 1 - 1) Length (gcd_get_map Operation s) Base = Some (Status, st, en, b)"
    using allocate_check.find_returns [OF lim(1,2) n L lim(3)] by (metis option.exhaust prod_cases4)
  from CoreAllocateSpace_found [OF inv req this] Base show ?thesis by blast
qed

theorem CoreAllocateSpace_terminates_witness:
  "\<exists>r. CoreAllocateSpace sample_env GCD_ALLOCATE_MEMORY_OPERATION EfiGcdAllocateAnySearchTopDown 2 0 12
     0x1000 (Some 0) 1 0 sample_added = Some r"
  by (rule CoreAllocateSpace_terminates [OF sample_added_inv])


definition sample_owned :: gcd_state where
  "sample_owned = snd (snd (the (CoreAllocateMemorySpace sample_env EfiGcdAllocateAnySearchTopDown 2 12
     0x1000 (Some 0) 7 9 sample_added)))"

lemma sample_owned_eq:
  "CoreAllocateSpace sample_env GCD_ALLOCATE_MEMORY_OPERATION EfiGcdAllocateAnySearchTopDown 2 0 12
     0x1000 (Some 0) 7 9 sample_added = Some (EFI_SUCCESS, Some 0x4000, sample_owned)"
proof -
  let ?r = "CoreAllocateSpace sample_env GCD_ALLOCATE_MEMORY_OPERATION EfiGcdAllocateAnySearchTopDown 2 0 12
     0x1000 (Some 0) 7 9 sample_added"
  have "map_option (\<lambda>(Status, B, s'). (Status, B)) ?r = Some (EFI_SUCCESS, Some 0x4000)" by code_simp
  then show ?thesis by (auto simp: sample_owned_def CoreAllocateMemorySpace_def)
qed




text \<open>
  An allocation that fails leaves the state exactly as it was.
\<close>

theorem CoreAllocateSpace_error_unchanged:
  assumes inv: "gcd_inv ml il s" and wrap: "gcd_no_wrap at Length Base"
    and res: "CoreAllocateSpace env Operation at mt iot Alignment Length (Some Base) ImageH DeviceH s =
      Some (Status, B, s')"
    and err: "EFI_ERROR Status"
  shows "s' = s"
proof (cases rule: CoreAllocateSpace_cases [OF inv, where BaseAddr = "Some Base" and at = at and Length = Length
      and env = env and Operation = Operation and mt = mt and iot = iot and Alignment = Alignment
      and ImageH = ImageH and DeviceH = DeviceH, case_names wrap refused allocated])
qed (use assms in auto)

theorem CoreAllocateSpace_error_unchanged_witness:
  "CoreAllocateSpace sample_env GCD_ALLOCATE_MEMORY_OPERATION EfiGcdAllocateAddress 2 0 12
     0x8000 (Some 0x1000) 7 9 sample_added = Some (EFI_NOT_FOUND, Some 0x1000, sample_added)"
proof -
  let ?r = "CoreAllocateSpace sample_env GCD_ALLOCATE_MEMORY_OPERATION EfiGcdAllocateAddress 2 0 12
     0x8000 (Some 0x1000) 7 9 sample_added"
  have "map_option (\<lambda>(Status, B, s'). (Status, B)) ?r = Some (EFI_NOT_FOUND, Some 0x1000)" by code_simp
  then obtain s' where r: "?r = Some (EFI_NOT_FOUND, Some 0x1000, s')" by auto
  have "gcd_no_wrap EfiGcdAllocateAddress 0x8000 0x1000" by (simp add: gcd_no_wrap_def)
  from CoreAllocateSpace_error_unchanged [OF sample_added_inv this r] r show ?thesis by simp
qed

text \<open>
  The top-down search leaves out a range that ends exactly at the maximum: its test
  \<^verbatim>\<open>(Entry->BaseAddress + Length) > MaxAddress\<close> is one too strict.  Here the whole free block
  \<open>0x1000 .. 0x4FFF\<close> is asked for with the maximum \<open>0x4FFF\<close>: bottom-up finds it, top-down does
  not.
\<close>

theorem CoreAllocateSpace_top_down_exact_fit:
  "map_option (\<lambda>(Status, B, s'). (Status, B)) (CoreAllocateMemorySpace sample_env
     EfiGcdAllocateMaxAddressSearchBottomUp 2 12 0x4000 (Some 0x4FFF) 7 9 sample_added) =
     Some (EFI_SUCCESS, Some 0x1000) \<and>
   map_option (\<lambda>(Status, B, s'). (Status, B)) (CoreAllocateMemorySpace sample_env
     EfiGcdAllocateMaxAddressSearchTopDown 2 12 0x4000 (Some 0x4FFF) 7 9 sample_added) =
     Some (EFI_NOT_FOUND, Some 0x4FFF)"
  by code_simp

text \<open>
  The top-down search also misses a free range that spans two descriptors when the upper
  one alone is too small for the maximum: \<open>sample_mixed\<close> has two free reserved pages at
  \<open>0x1000\<close> and \<open>0x2000\<close> with different attributes.
\<close>

theorem CoreAllocateSpace_top_down_spanning:
  "map_option (\<lambda>(Status, B, s'). (Status, B)) (CoreAllocateMemorySpace sample_env
     EfiGcdAllocateMaxAddressSearchBottomUp 1 12 0x2000 (Some 0x3000) 7 9 sample_mixed) =
     Some (EFI_SUCCESS, Some 0x1000) \<and>
   map_option (\<lambda>(Status, B, s'). Status) (CoreAllocateMemorySpace sample_env
     EfiGcdAllocateMaxAddressSearchTopDown 1 12 0x2000 (Some 0x3000) 7 9 sample_mixed) =
     Some EFI_NOT_FOUND"
  by code_simp

end
