(* ===== verification/GcdReach.thy ===== *)
theory GcdReach
  imports GcdAllocate
begin

text \<open>
  The services of the GCD as a system: a step relation with one rule per service, the invariant
  of its reachable states, and what a sequence of services does.  A map is determined by what it
  says of the addresses (\<open>gcd_map_unique\<close>), so that undoing a change gives back the very same
  list of descriptors.
\<close>

section \<open>Maps are canonical\<close>

lemma gcd_kind_eqD:
  "gcd_kind x = gcd_kind y \<Longrightarrow> BaseAddress x = BaseAddress y \<Longrightarrow> EndAddress x = EndAddress y \<Longrightarrow> x = y"
  by (cases x; cases y) (simp add: gcd_kind_def)

lemma gcd_lookup_first:
  "gcd_tiles s (x # xs) e \<Longrightarrow> s \<le> unat a \<Longrightarrow> unat a \<le> unat (EndAddress x) \<Longrightarrow>
     gcd_lookup (x # xs) a = Some (gcd_kind x)"
  by (simp add: gcd_lookup_Cons gcd_covers_unat)

lemma gcd_canonical_end:
  assumes t: "gcd_tiles s (x # xs) e" "gcd_tiles s (y # ys) e" and can: "gcd_canonical (x # xs)"
    and same: "\<And>a. gcd_lookup (x # xs) a = gcd_lookup (y # ys) a"
  shows "unat (EndAddress y) \<le> unat (EndAddress x)"
proof (rule ccontr)
  assume less: "\<not> ?thesis"
  have ends: "unat (EndAddress y) < e" using gcd_tiles_member [OF t(2), of y] by simp
  obtain z zs where xs: "xs = z # zs" using t(1) less ends by (cases xs) auto
  have z: "unat (BaseAddress z) = unat (EndAddress x) + 1" "unat (BaseAddress z) \<le> unat (EndAddress z)"
    using t(1) xs by auto
  have "gcd_lookup (x # xs) (BaseAddress z) = Some (gcd_kind z)"
    by (rule gcd_lookup_member [OF t(1)]) (use xs z in \<open>auto simp: gcd_covers_unat\<close>)
  moreover have "gcd_lookup (y # ys) (BaseAddress z) = Some (gcd_kind y)"
    by (rule gcd_lookup_first [OF t(2)]) (use t z less in auto)
  moreover have "gcd_kind x = gcd_kind y"
    using gcd_lookup_first [OF t(1), of "BaseAddress x"] gcd_lookup_first [OF t(2), of "BaseAddress x"]
      same [of "BaseAddress x"] t by auto
  ultimately show False using same [of "BaseAddress z"] can xs by (simp add: gcd_canonical_def)
qed

lemma gcd_map_unique:
  assumes "gcd_tiles s xs e" "gcd_tiles s ys e" and "gcd_canonical xs" "gcd_canonical ys"
    and "\<And>a. gcd_lookup xs a = gcd_lookup ys a"
  shows "xs = ys"
  using assms
proof (induction xs arbitrary: s ys)
  case Nil
  then show ?case by (cases ys) (auto dest: gcd_tiles_le)
next
  case (Cons x xs)
  then obtain y ys' where ys: "ys = y # ys'" by (cases ys) (auto dest: gcd_tiles_le)
  note t = Cons.prems(1) Cons.prems(2) [unfolded ys]
  have same: "\<And>a. gcd_lookup (x # xs) a = gcd_lookup (y # ys') a" using Cons.prems(5) ys by simp
  have "unat (EndAddress x) = unat (EndAddress y)"
    using gcd_canonical_end [OF t Cons.prems(3) same] Cons.prems(4) ys
      gcd_canonical_end [OF t(2,1) _ same [symmetric]] by force
  then have E: "EndAddress x = EndAddress y" by (simp add: word_unat_eq_iff)
  have B: "BaseAddress x = BaseAddress y" using t by (auto simp: word_unat_eq_iff)
  have "gcd_kind x = gcd_kind y"
    using gcd_lookup_first [OF t(1), of "BaseAddress x"] gcd_lookup_first [OF t(2), of "BaseAddress x"]
      same [of "BaseAddress x"] t by auto
  then have xy: "x = y" using E B by (rule_tac gcd_kind_eqD)
  have tl: "gcd_tiles (unat (EndAddress x) + 1) xs e" "gcd_tiles (unat (EndAddress x) + 1) ys' e"
    using t E by auto
  have "gcd_lookup xs a = gcd_lookup ys' a" for a
  proof (cases "unat a \<le> unat (EndAddress x)")
    case True
    then show ?thesis using gcd_lookup_None_iff [OF tl(1), of a] gcd_lookup_None_iff [OF tl(2), of a] by simp
  next
    case False
    then show ?thesis using same [of a] E by (simp add: gcd_lookup_Cons gcd_covers_unat)
  qed
  moreover have "gcd_canonical xs" "gcd_canonical ys'"
    using Cons.prems(3,4) ys by (auto simp: gcd_canonical_def successively_Cons)
  ultimately show ?case using Cons.IH [OF tl] xy ys by blast
qed

section \<open>Ownership\<close>

text \<open>An address without an owner has no device either.\<close>

definition gcd_owned :: "EFI_GCD_MAP_ENTRY \<Rightarrow> bool" where
  "gcd_owned k \<longleftrightarrow> (ImageHandle k = NULL \<longrightarrow> DeviceHandle k = NULL)"

definition gcd_owned_map :: "gcd_map \<Rightarrow> bool" where
  "gcd_owned_map Map \<longleftrightarrow> (\<forall>a k. gcd_lookup Map a = Some k \<longrightarrow> gcd_owned k)"

definition gcd_good :: "nat \<Rightarrow> nat \<Rightarrow> gcd_state \<Rightarrow> bool" where
  "gcd_good ml il s \<longleftrightarrow> gcd_inv ml il s \<and> gcd_owned_map (mGcdMemorySpaceMap s) \<and> gcd_owned_map (mGcdIoSpaceMap s)"

context gcd_body
begin

lemma mids_lookup_pred:
  assumes "\<forall>x \<in> set seg. P (gcd_kind x)" and "\<And>x a. P (gcd_kind x) \<Longrightarrow> P (gcd_kind (fst (body x a)))"
  shows "gcd_lookup (gcd_mids body Base Length seg Attrs) a = Some k \<Longrightarrow> P k"
  using assms(1)
proof (induction seg arbitrary: Attrs)
  case (Cons x xs)
  have "P (gcd_kind (fst (body (gcd_clip Base Length x) Attrs)))"
    using Cons.prems(2) by (intro assms(2)) (simp add: gcd_kind_Attributes)
  then show ?case
    using Cons by (auto simp: gcd_lookup_Cons split: prod.splits if_splits)
qed (simp add: gcd_lookup_def)

end

lemma gcd_owned_map_segment:
  assumes "gcd_segment Map Base End P seg Q" and "gcd_tiles 0 Map limit" and "gcd_owned_map Map"
  shows "\<forall>x \<in> set seg. gcd_owned (gcd_kind x)"
proof
  fix x assume "x \<in> set seg"
  then have "x \<in> set Map" using assms(1) by (auto simp: gcd_segment_def)
  then have "gcd_lookup Map (BaseAddress x) = Some (gcd_kind x)"
    using gcd_tiles_member [OF assms(2)] by (intro gcd_lookup_member [OF assms(2)]) (auto simp: gcd_covers_unat)
  then show "gcd_owned (gcd_kind x)" using assms(3) by (simp add: gcd_owned_map_def)
qed

lemma gcd_owned_map_set:
  "gcd_owned_map (mGcdMemorySpaceMap s) \<Longrightarrow> gcd_owned_map (mGcdIoSpaceMap s) \<Longrightarrow> gcd_owned_map Map \<Longrightarrow>
     gcd_owned_map (mGcdMemorySpaceMap (gcd_set_map Operation Map s)) \<and>
     gcd_owned_map (mGcdIoSpaceMap (gcd_set_map Operation Map s))"
  by (simp add: gcd_set_map_def)

lemma gcd_good_get_map: "gcd_good ml il s \<Longrightarrow> gcd_owned_map (gcd_get_map Operation s)"
  by (simp add: gcd_good_def gcd_get_map_def)

lemma CoreConvertSpace_body_owned:
  "gcd_owned (gcd_kind x) \<Longrightarrow> gcd_owned (gcd_kind (fst (CoreConvertSpace_body Operation mt iot Caps CpuArch x a)))"
  by (cases Operation) (simp_all add: gcd_owned_def gcd_kind_def Let_def)

lemma CoreConvertSpace_good:
  assumes good: "gcd_good ml il s" and wrap: "unat Base + unat Length \<le> 2 ^ 64"
  shows "gcd_good ml il (snd (CoreConvertSpace env Operation mt iot Base Length Caps Attrs s))"
proof -
  have inv: "gcd_inv ml il s" using good by (simp add: gcd_good_def)
  have "gcd_owned_map (mGcdMemorySpaceMap (snd (CoreConvertSpace env Operation mt iot Base Length Caps Attrs s))) \<and>
    gcd_owned_map (mGcdIoSpaceMap (snd (CoreConvertSpace env Operation mt iot Base Length Caps Attrs s)))"
  proof (cases "Length = 0")
    case True
    then show ?thesis using good by (simp add: CoreConvertSpace_zero gcd_good_def)
  next
    case False
    from inv False wrap show ?thesis
    proof (cases rule: CoreConvertSpace_cases [where env = env and Operation = Operation and mt = mt
          and iot = iot and Caps = Caps and Attrs = Attrs])
      case (converted P seg Q Map')
      have own: "gcd_owned k" if "gcd_lookup (gcd_mids (CoreConvertSpace_body Operation mt iot Caps
                (gcd_cpu_arch Operation Attrs)) Base Length seg Attrs) a = Some k" for a k
        by (rule convert.mids_lookup_pred [OF gcd_owned_map_segment [OF converted(5) gcd_inv_limits(1) [OF inv]
              gcd_good_get_map [OF good]] CoreConvertSpace_body_owned that])
      have "gcd_owned_map Map'"
        using own gcd_good_get_map [OF good, of Operation] converted(7)
        by (auto simp: gcd_owned_map_def split: if_splits)
      then show ?thesis
        unfolding converted(8) snd_conv using good by (intro gcd_owned_map_set) (auto simp: gcd_good_def)
    qed (use good in \<open>auto simp: gcd_good_def\<close>)
  qed
  then show ?thesis using CoreConvertSpace_inv [OF inv wrap] by (simp add: gcd_good_def)
qed

lemma CoreAllocateSpace_good:
  assumes good: "gcd_good ml il s" and wrap: "\<And>Base. BaseAddr = Some Base \<Longrightarrow> gcd_no_wrap at Length Base"
    and res: "CoreAllocateSpace env Operation at mt iot Alignment Length BaseAddr ImageH DeviceH s = Some (Status, B, s')"
  shows "gcd_good ml il s'"
proof -
  have inv: "gcd_inv ml il s" using good by (simp add: gcd_good_def)
  show ?thesis
  proof (cases rule: CoreAllocateSpace_cases [OF inv, where BaseAddr = BaseAddr and at = at and Length = Length
        and env = env and Operation = Operation and mt = mt and iot = iot and Alignment = Alignment
        and ImageH = ImageH and DeviceH = DeviceH, case_names wrap refused allocated])
    case (wrap Base)
    then show ?case by (rule assms(2))
  next
    case (refused Status B)
    then show ?thesis using res good by simp
  next
    case (allocated Base b Map')
    have s': "s' = gcd_set_map Operation Map' (s\<lparr>cpu_calls := cpu_calls s,
        gcd_pool := gcd_pool s + length Map' - length (gcd_get_map Operation s)\<rparr>)"
      using allocated res by simp
    have "gcd_owned_map Map'"
      using allocated(2,5) gcd_good_get_map [OF good, of Operation]
      by (auto simp: gcd_owned_map_def gcd_owned_def gcd_request_ok_def split: if_splits)
    then show ?thesis
      using gcd_inv_set_map [OF inv allocated(4), of "cpu_calls s"] gcd_owned_map_set good
      unfolding s' by (simp add: gcd_good_def)
  qed
qed

section \<open>Adding memory\<close>

lemma gcd_good_frame [simp]:
  "gcd_good ml il (s\<lparr>descriptor_calls := c\<rparr>) \<longleftrightarrow> gcd_good ml il s"
  "gcd_good ml il (s\<lparr>attribute_calls := d\<rparr>) \<longleftrightarrow> gcd_good ml il s"
  "gcd_good ml il (CoreAddMemoryDescriptor Type Start Pages Attrs s) \<longleftrightarrow> gcd_good ml il s"
  by (simp_all add: gcd_good_def gcd_inv_def CoreAddMemoryDescriptor_def)

text \<open>A page aligned page does not wrap.\<close>

lemma page_no_wrap:
  assumes "Base AND EFI_PAGE_MASK = 0"
  shows "unat Base + unat EFI_PAGE_SIZE \<le> 2 ^ 64"
proof -
  have "(2 :: nat) ^ 12 dvd unat Base"
    using assms and_not_mask_dvd [of 12 Base] by (simp add: efi_const push_bit_of_1)
  then obtain q where "unat Base = 2 ^ 12 * q" by (auto simp: dvd_def)
  moreover have "unat Base < 2 ^ 64" by (rule unat_u64_bound)
  ultimately show ?thesis by (simp add: efi_const)
qed

lemma page_step: "Base AND EFI_PAGE_MASK = 0 \<Longrightarrow> (Base + EFI_PAGE_SIZE) AND EFI_PAGE_MASK = 0"
proof -
  assume "Base AND EFI_PAGE_MASK = 0"
  then have "(2 :: nat) ^ 12 dvd unat Base"
    using and_not_mask_dvd [of 12 Base] by (simp add: efi_const push_bit_of_1)
  then have "(2 :: nat) ^ 12 dvd (unat Base + unat EFI_PAGE_SIZE) mod 2 ^ 64"
    by (intro dvd_mod) (auto simp: efi_const)
  then have "(2 :: nat) ^ 12 dvd unat (Base + EFI_PAGE_SIZE)" by (simp add: unat_word_ariths)
  then show ?thesis using and_not_mask_dvd [of 12 "Base + EFI_PAGE_SIZE"] by (simp add: efi_const push_bit_of_1)
qed

lemma PageAlignAddress_aligned: "PageAlignAddress Base AND EFI_PAGE_MASK = 0"
  using align_down_aligned [of "Base + 0xFFF" 12]
  by (simp add: PageAlignAddress_def AlignValue_def efi_const push_bit_of_1 Let_def)

lemma CoreAddMemorySpace_pages_good:
  assumes "gcd_good ml il s" and "PageBase AND EFI_PAGE_MASK = 0"
    and "CoreAddMemorySpace_pages env mt Caps n PageBase Status0 s = Some (Status, s')"
  shows "gcd_good ml il s'"
  using assms
proof (induction n arbitrary: PageBase Status0 s)
  case (Suc n)
  then obtain Status1 B s1 where a: "CoreAllocateMemorySpace env EfiGcdAllocateAddress mt (of_nat EFI_PAGE_SHIFT)
      EFI_PAGE_SIZE (Some PageBase) (env_gDxeCoreImageHandle env) NULL s = Some (Status1, B, s1)"
    by (auto split: option.splits)
  have "gcd_no_wrap EfiGcdAllocateAddress EFI_PAGE_SIZE PageBase"
    using page_no_wrap [OF Suc.prems(2)] by (simp add: gcd_no_wrap_def)
  then have "gcd_good ml il s1"
    using CoreAllocateSpace_good [OF Suc.prems(1) _ a [unfolded CoreAllocateMemorySpace_def]] by simp
  moreover define s2 where "s2 = (if EFI_ERROR Status1 then s1
     else CoreAddMemoryDescriptor EfiConventionalMemory PageBase 1 Caps s1)"
  ultimately have "gcd_good ml il s2" by simp
  moreover have "CoreAddMemorySpace_pages env mt Caps n (PageBase + EFI_PAGE_SIZE) Status1 s2 = Some (Status, s')"
    using Suc.prems(3) a by (simp add: s2_def)
  ultimately show ?case using Suc.IH [OF _ page_step [OF Suc.prems(2)]] by blast
qed simp

text \<open>
  The requests of \<^verbatim>\<open>CoreAddMemorySpace\<close> whose page arithmetic does not wrap: some page boundary
  lies in the range or at its end.
\<close>

definition gcd_add_no_wrap :: "u64 \<Rightarrow> u64 \<Rightarrow> bool" where
  "gcd_add_no_wrap Base Length \<longleftrightarrow> unat Base + unat Length < 2 ^ 64 \<and> PageAlignAddress Base \<le> Base + Length"

lemma PageAlignLength_le: "PageAlignLength x \<le> x"
  by (simp add: PageAlignLength_def AlignValue_def word_and_le2 Let_def)

lemma CoreAddMemorySpace_good:
  assumes good: "gcd_good ml il s" and wrap: "gcd_add_no_wrap Base Length"
    and res: "CoreAddMemorySpace env mt Base Length Caps s = Some (Status, s')"
  shows "gcd_good ml il s'"
proof -
  obtain Status1 s1 where add: "CoreInternalAddMemorySpace env mt Base Length Caps s = (Status1, s1)" by fastforce
  have "unat Base + unat Length \<le> 2 ^ 64" using wrap by (simp add: gcd_add_no_wrap_def)
  from CoreConvertSpace_good [OF good this, of env GCD_ADD_MEMORY_OPERATION mt 0 Caps 0]
  have good1: "gcd_good ml il s1" using add good by (auto simp: CoreInternalAddMemorySpace_def split: if_splits)
  let ?PB = "PageAlignAddress Base" and ?PL = "PageAlignLength (Base + Length - PageAlignAddress Base)"
  have "unat ?PB + unat ?PL \<le> 2 ^ 64"
  proof -
    have "unat ?PL \<le> unat (Base + Length - ?PB)" using PageAlignLength_le by (simp add: word_le_nat_alt)
    also have "\<dots> = unat (Base + Length) - unat ?PB"
      using wrap by (intro unat_sub_nowrap) (simp add: gcd_add_no_wrap_def)
    finally have "unat ?PL \<le> unat (Base + Length) - unat ?PB" .
    moreover have "unat ?PB \<le> unat (Base + Length)" using wrap by (simp add: gcd_add_no_wrap_def word_le_nat_alt)
    moreover have "unat (Base + Length) < 2 ^ 64" by (rule unat_u64_bound)
    ultimately show ?thesis by linarith
  qed
  then have nw: "gcd_no_wrap EfiGcdAllocateAddress ?PL ?PB" by (simp add: gcd_no_wrap_def)
  show ?thesis
  proof (cases "\<not> EFI_ERROR Status1 \<and> (mt = EfiGcdMemoryTypeSystemMemory \<or> mt = EfiGcdMemoryTypeMoreReliable)")
    case False
    then show ?thesis using res add good1 by (auto simp: CoreAddMemorySpace_def)
  next
    case True
    then obtain Status2 B s2 where a: "CoreAllocateMemorySpace env EfiGcdAllocateAddress mt (of_nat EFI_PAGE_SHIFT)
        ?PL (Some ?PB) (env_gDxeCoreImageHandle env) NULL s1 = Some (Status2, B, s2)"
      using res add by (auto simp: CoreAddMemorySpace_def Let_def split: option.splits)
    have good2: "gcd_good ml il s2"
      using CoreAllocateSpace_good [OF good1 _ a [unfolded CoreAllocateMemorySpace_def]] nw by simp
    show ?thesis
      using res add a True good2 CoreAddMemorySpace_pages_good [OF good2 PageAlignAddress_aligned]
      by (auto simp: CoreAddMemorySpace_def Let_def split: if_splits)
  qed
qed

section \<open>The system\<close>

text \<open>
  One rule per service.  The environment of a call is arbitrary: the allocator may refuse at any
  time and the CPU protocol may appear or change its mind.  The side conditions keep the
  address arithmetic from wrapping; the properties on ranges that wrap and on ranges without a
  page show what happens without them.
\<close>

inductive gcd_step :: "gcd_state \<Rightarrow> gcd_state \<Rightarrow> bool" where
  add_memory: "gcd_add_no_wrap Base Length \<Longrightarrow>
    CoreAddMemorySpace env mt Base Length Caps s = Some (Status, s') \<Longrightarrow> gcd_step s s'"
| allocate_memory: "gcd_no_wrap at Length Base \<Longrightarrow>
    CoreAllocateMemorySpace env at mt Alignment Length (Some Base) ImageH DeviceH s = Some (Status, B, s') \<Longrightarrow>
    gcd_step s s'"
| free_memory: "unat Base + unat Length \<le> 2 ^ 64 \<Longrightarrow>
    CoreFreeMemorySpace env Base Length s = (Status, s') \<Longrightarrow> gcd_step s s'"
| remove_memory: "unat Base + unat Length \<le> 2 ^ 64 \<Longrightarrow>
    CoreRemoveMemorySpace env Base Length s = (Status, s') \<Longrightarrow> gcd_step s s'"
| set_attributes: "unat Base + unat Length \<le> 2 ^ 64 \<Longrightarrow>
    CoreSetMemorySpaceAttributes env Base Length Attrs s = (Status, s') \<Longrightarrow> gcd_step s s'"
| set_capabilities: "unat Base + unat Length \<le> 2 ^ 64 \<Longrightarrow>
    CoreSetMemorySpaceCapabilities env Base Length Caps s = (Status, s') \<Longrightarrow> gcd_step s s'"
| get_memory_descriptor: "CoreGetMemorySpaceDescriptor Base present s = (Status, D, s') \<Longrightarrow> gcd_step s s'"
| add_io: "unat Base + unat Length \<le> 2 ^ 64 \<Longrightarrow>
    CoreAddIoSpace env iot Base Length s = (Status, s') \<Longrightarrow> gcd_step s s'"
| allocate_io: "gcd_no_wrap at Length Base \<Longrightarrow>
    CoreAllocateIoSpace env at iot Alignment Length (Some Base) ImageH DeviceH s = Some (Status, B, s') \<Longrightarrow>
    gcd_step s s'"
| free_io: "unat Base + unat Length \<le> 2 ^ 64 \<Longrightarrow>
    CoreFreeIoSpace env Base Length s = (Status, s') \<Longrightarrow> gcd_step s s'"
| remove_io: "unat Base + unat Length \<le> 2 ^ 64 \<Longrightarrow>
    CoreRemoveIoSpace env Base Length s = (Status, s') \<Longrightarrow> gcd_step s s'"
| get_io_descriptor: "CoreGetIoSpaceDescriptor Base present s = (Status, D', s') \<Longrightarrow> gcd_step s s'"

lemma gcd_query_state:
  assumes "gcd_inv ml il s"
  shows "snd (snd (CoreGetMemorySpaceDescriptor Base present s)) = s"
    and "snd (snd (CoreGetIoSpaceDescriptor Base present s)) = s"
  using assms
  by (auto simp: CoreGetMemorySpaceDescriptor_def CoreGetIoSpaceDescriptor_def gcd_access_defs gcd_inv_def
      Let_def split: prod.split)

lemma gcd_step_good: "gcd_step s s' \<Longrightarrow> gcd_good ml il s \<Longrightarrow> gcd_good ml il s'"
proof (induction rule: gcd_step.induct)
  case add_memory
  then show ?case by (auto intro: CoreAddMemorySpace_good)
next
  case allocate_memory
  then show ?case unfolding CoreAllocateMemorySpace_def by (auto elim!: CoreAllocateSpace_good [rotated 2])
next
  case free_memory
  then show ?case unfolding CoreFreeMemorySpace_def by (metis CoreConvertSpace_good snd_conv)
next
  case remove_memory
  then show ?case unfolding CoreRemoveMemorySpace_def by (metis CoreConvertSpace_good snd_conv)
next
  case set_attributes
  then show ?case unfolding CoreSetMemorySpaceAttributes_def by (metis CoreConvertSpace_good snd_conv)
next
  case (set_capabilities Base Length env Caps s Status s')
  from CoreConvertSpace_good [OF set_capabilities(3,1), of env GCD_SET_CAPABILITIES_MEMORY_OPERATION 0 0 Caps 0]
  show ?case using set_capabilities(2)
    by (auto simp: CoreSetMemorySpaceCapabilities_def split: prod.splits if_splits)
next
  case (get_memory_descriptor Base present s Status D s')
  then show ?case using gcd_query_state(1) [of ml il s Base present] by (simp add: gcd_good_def)
next
  case (add_io Base Length env iot s Status s')
  from CoreConvertSpace_good [OF add_io(3,1), of env GCD_ADD_IO_OPERATION 0 iot 0 0]
  show ?case using add_io(2,3) by (auto simp: CoreAddIoSpace_def split: if_splits)
next
  case allocate_io
  then show ?case unfolding CoreAllocateIoSpace_def by (auto elim!: CoreAllocateSpace_good [rotated 2])
next
  case free_io
  then show ?case unfolding CoreFreeIoSpace_def by (metis CoreConvertSpace_good snd_conv)
next
  case remove_io
  then show ?case unfolding CoreRemoveIoSpace_def by (metis CoreConvertSpace_good snd_conv)
next
  case (get_io_descriptor Base present s Status D' s')
  then show ?case using gcd_query_state(2) [of ml il s Base present] by (simp add: gcd_good_def)
qed

lemma initial_good:
  assumes "m < 64" and "n < 64"
  shows "gcd_good (2 ^ m) (2 ^ n) (CoreInitializeGcdServices_maps m n gcd_module_state)"
  using CoreInitializeGcdServices_maps_inv [OF assms]
  by (auto simp: gcd_good_def gcd_owned_map_def gcd_owned_def CoreInitializeGcdServices_maps_def
      gcd_module_state_def mGcdMemorySpaceMapEntryTemplate_def mGcdIoSpaceMapEntryTemplate_def
      gcd_lookup_Cons gcd_kind_def split: if_splits)

section \<open>Properties\<close>



lemma gcd_set_map_twice:
  "gcd_set_map Operation Map2 (gcd_set_map Operation Map1 s\<lparr>cpu_calls := c, gcd_pool := p\<rparr>) =
   gcd_set_map Operation Map2 (s\<lparr>cpu_calls := c, gcd_pool := p\<rparr>)"
  by (simp add: gcd_set_map_def)

lemma gcd_set_map_same:
  "gcd_set_map Operation (gcd_get_map Operation s) s = s"
  "gcd_pool (gcd_set_map Operation Map s) = gcd_pool s"
  by (simp_all add: gcd_set_map_def gcd_get_map_def)

lemma gcd_free_check:
  assumes "CoreAllocateSpaceCheckEntry GCD_ALLOCATE_MEMORY_OPERATION mt iot k = EFI_SUCCESS" and "gcd_owned k"
  shows "k\<lparr>ImageHandle := NULL, DeviceHandle := NULL\<rparr> = k"
  using assms by (cases k) (auto simp: CoreAllocateSpaceCheckEntry_def gcd_owned_def split: if_splits)

lemma CoreAllocateSpaceCheckEntry_status:
  "\<not> EFI_ERROR (CoreAllocateSpaceCheckEntry GCD_ALLOCATE_MEMORY_OPERATION mt iot k) \<Longrightarrow>
     CoreAllocateSpaceCheckEntry GCD_ALLOCATE_MEMORY_OPERATION mt iot k = EFI_SUCCESS"
  by (auto simp: CoreAllocateSpaceCheckEntry_def split: if_splits)


lemma sample_added_good: "gcd_good 68719476736 65536 sample_added"
  unfolding sample_added_def
  by (rule CoreConvertSpace_good) (use initial_good [of 36 16] in \<open>simp_all add: sample_state_def\<close>)


text \<open>
  \<^verbatim>\<open>CoreGetMemorySpaceDescriptor\<close> finds the descriptor of every address of the space, and
  nothing above it; the descriptor it returns covers the address and says what the map says.
\<close>

theorem CoreGetMemorySpaceDescriptor_correct:
  assumes inv: "gcd_inv ml il s"
  shows "if unat Base < ml
    then \<exists>D k. CoreGetMemorySpaceDescriptor Base True s = (EFI_SUCCESS, Some D, s) \<and>
      gcd_lookup (mGcdMemorySpaceMap s) Base = Some k \<and>
      unat (md_BaseAddress D) \<le> unat Base \<and> unat Base < unat (md_BaseAddress D) + unat (md_Length D) \<and>
      md_Capabilities D = Capabilities k \<and> md_Attributes D = Attributes k \<and>
      md_GcdMemoryType D = GcdMemoryType k \<and> md_ImageHandle D = ImageHandle k \<and> md_DeviceHandle D = DeviceHandle k
    else CoreGetMemorySpaceDescriptor Base True s = (EFI_NOT_FOUND, None, s)"
proof -
  let ?Map = "mGcdMemorySpaceMap s"
  have tiles: "gcd_tiles 0 ?Map ml" and ml: "ml \<le> 2 ^ 63" and lock: "mGcdMemorySpaceLock s = EfiLockReleased"
    using inv by (auto simp: gcd_inv_def gcd_map_inv_def)
  have nw: "unat Base + unat (1 :: u64) \<le> 2 ^ 64"
    using Suc_leI [OF unat_u64_bound [of Base]] by (simp del: unat_u64_less)
  have s: "CoreReleaseGcdMemoryLock (CoreAcquireGcdMemoryLock s) = s"
    using lock by (simp add: CoreReleaseGcdMemoryLock_def CoreAcquireGcdMemoryLock_def)
  have map_s: "mGcdMemorySpaceMap (CoreAcquireGcdMemoryLock s) = ?Map" by (simp add: CoreAcquireGcdMemoryLock_def)
  show ?thesis
  proof (cases rule: CoreSearchGcdMapEntry_cases [OF tiles _ nw, case_names one found missing])
    case one
    show ?case by simp
  next
    case (found P seg Q)
    define x where "x = hd seg"
    have x: "?Map ! length P = x" "x \<in> set ?Map" "gcd_covers x Base"
      using found(2) by (auto simp: gcd_segment_def nth_append hd_conv_nth x_def)
    have lim: "unat (BaseAddress x) \<le> unat (EndAddress x)" "unat (EndAddress x) < ml"
      using gcd_tiles_member [OF tiles x(2)] by auto
    have "unat (EndAddress x - BaseAddress x + 1) = unat (EndAddress x) - unat (BaseAddress x) + 1"
      using lim ml by (subst unat_succ) (auto simp: unat_sub_nowrap word_le_nat_alt)
    then show ?thesis
      using found x lim gcd_lookup_member [OF tiles x(2,3)] s
      by (simp add: CoreGetMemorySpaceDescriptor_def BuildMemoryDescriptor_def map_s gcd_covers_unat gcd_kind_def)
  next
    case (missing st en)
    then show ?thesis using s by (simp add: CoreGetMemorySpaceDescriptor_def map_s)
  qed
qed

theorem CoreGetMemorySpaceDescriptor_correct_witness:
  "\<exists>D. CoreGetMemorySpaceDescriptor 0x4800 True sample_added = (EFI_SUCCESS, Some D, sample_added) \<and>
     md_GcdMemoryType D = 2 \<and> unat (md_BaseAddress D) \<le> 0x4800"
proof -
  have "map_option GcdMemoryType (gcd_lookup (mGcdMemorySpaceMap sample_added) 0x4800) = Some 2" by code_simp
  then show ?thesis
    using CoreGetMemorySpaceDescriptor_correct [OF sample_added_inv, of "0x4800"] by (auto split: if_splits)
qed

text \<open>
  \<^verbatim>\<open>CoreGetMemorySpaceMap\<close> takes a consistent snapshot although it allocates the array with
  the lock released and the allocation may change the map: when it succeeds, the array lists
  the descriptors of the map as it is on return, and the count is their number.
\<close>

theorem CoreGetMemorySpaceMap_snapshot:
  assumes "CoreGetMemorySpaceMap count_present map_present alloc s = Some (EFI_SUCCESS, n, ds, s')"
  shows "ds = Some (map BuildMemoryDescriptor (mGcdMemorySpaceMap s')) \<and>
    n = CoreCountGcdMapEntry (mGcdMemorySpaceMap s') \<and> mGcdMemorySpaceLock s' = EfiLockReleased"
proof -
  have "case r of (Status, n, ds, s') \<Rightarrow> Status = EFI_SUCCESS \<longrightarrow>
      ds = Some (map BuildMemoryDescriptor (mGcdMemorySpaceMap s')) \<and>
      n = CoreCountGcdMapEntry (mGcdMemorySpaceMap s') \<and> mGcdMemorySpaceLock s' = EfiLockReleased"
    if "CoreGetMemorySpaceMap_loop alloc N buf t = Some r" for N buf t r
    using that
  proof (induction rule: CoreGetMemorySpaceMap_loop.raw_induct [rotated, consumes 1, case_names step])
    case (step loop alloc N buf t r)
    from step(2) show ?case
      by (auto simp: Let_def CoreReleaseGcdMemoryLock_def split: if_splits prod.splits dest!: step(1))
  qed
  then show ?thesis
    using assms by (fastforce simp: CoreGetMemorySpaceMap_def split: if_splits)
qed

lemma CoreCountGcdMapEntry_length: "CoreCountGcdMapEntry Map = of_nat (length Map)"
proof -
  have "CoreCountGcdMapEntry_loop Map c = c + of_nat (length Map)" for c
    by (induction Map arbitrary: c) simp_all
  then show ?thesis by (simp add: CoreCountGcdMapEntry_def)
qed

text \<open>
  It returns: after one allocation when the allocator leaves the number of descriptors
  alone.
\<close>

theorem CoreGetMemorySpaceMap_returns:
  assumes alloc: "\<And>n t. fst (alloc n t)"
    and keeps: "\<And>n t. mGcdMemorySpaceMap (snd (alloc n t)) = mGcdMemorySpaceMap t"
  shows "\<exists>s'. CoreGetMemorySpaceMap True True alloc s =
    Some (EFI_SUCCESS, of_nat (length (mGcdMemorySpaceMap s)),
      Some (map BuildMemoryDescriptor (mGcdMemorySpaceMap s)), s')"
proof -
  let ?n = "CoreCountGcdMapEntry (mGcdMemorySpaceMap s)"
  let ?s1 = "CoreAcquireGcdMemoryLock (snd (alloc ?n (CoreReleaseGcdMemoryLock (CoreAcquireGcdMemoryLock s))))"
  have same: "mGcdMemorySpaceMap ?s1 = mGcdMemorySpaceMap s" "mGcdMemorySpaceMap (CoreAcquireGcdMemoryLock s) = mGcdMemorySpaceMap s"
    by (simp_all add: keeps CoreAcquireGcdMemoryLock_def CoreReleaseGcdMemoryLock_def)
  have "CoreGetMemorySpaceMap True True alloc s = CoreGetMemorySpaceMap_loop alloc ?n True ?s1"
    using alloc by (simp add: CoreGetMemorySpaceMap_def CoreGetMemorySpaceMap_loop.simps [of alloc 0] same
        Let_def split_beta)
  also have "\<dots> = Some (EFI_SUCCESS, ?n, Some (map BuildMemoryDescriptor (mGcdMemorySpaceMap s)), CoreReleaseGcdMemoryLock ?s1)"
    by (subst CoreGetMemorySpaceMap_loop.simps) (simp add: same Let_def)
  finally show ?thesis by (simp add: CoreCountGcdMapEntry_length)
qed

definition sample_pool_alloc :: "UINTN \<Rightarrow> gcd_state \<Rightarrow> bool \<times> gcd_state" where
  "sample_pool_alloc n s = (True, s)"

theorem CoreGetMemorySpaceMap_returns_witness:
  "\<exists>s'. CoreGetMemorySpaceMap True True sample_pool_alloc sample_added =
    Some (EFI_SUCCESS, 3, Some (map BuildMemoryDescriptor (mGcdMemorySpaceMap sample_added)), s')"
proof -
  have "length (mGcdMemorySpaceMap sample_added) = 3" by code_simp
  then show ?thesis
    using CoreGetMemorySpaceMap_returns [of sample_pool_alloc sample_added] by (simp add: sample_pool_alloc_def)
qed

theorem CoreGetMemorySpaceMap_snapshot_witness:
  "\<exists>n ds s'. CoreGetMemorySpaceMap True True sample_pool_alloc sample_added = Some (EFI_SUCCESS, n, ds, s') \<and>
     n = CoreCountGcdMapEntry (mGcdMemorySpaceMap s')"
proof -
  let ?r = "CoreGetMemorySpaceMap True True sample_pool_alloc sample_added"
  have "?r = Some (EFI_SUCCESS, 3, Some (map BuildMemoryDescriptor (mGcdMemorySpaceMap sample_added)), sample_added)"
    by code_simp
  from CoreGetMemorySpaceMap_snapshot [OF this] this show ?thesis by blast
qed

text \<open>
  \<^verbatim>\<open>CoreAddMemorySpace\<close> does not check that the range holds a page boundary.  Adding 16
  bytes of system memory inside a page makes \<^verbatim>\<open>PageLength\<close> wrap, and after the first
  allocation failed the page loop runs over the rest of the 64-bit space, \<open>2 ^ 52 - 1\<close> pages.
\<close>

theorem CoreAddMemorySpace_short_range:
  "\<exists>s1. CoreAddMemorySpace sample_env EfiGcdMemoryTypeSystemMemory 0x1001 0x10 0xF sample_state =
     CoreAddMemorySpace_pages sample_env EfiGcdMemoryTypeSystemMemory 0xF (2 ^ 52 - 1) 0x2000 EFI_NOT_FOUND s1"
proof -
  let ?add = "CoreInternalAddMemorySpace sample_env EfiGcdMemoryTypeSystemMemory 0x1001 0x10 0xF sample_state"
  let ?alloc = "CoreAllocateMemorySpace sample_env EfiGcdAllocateAddress EfiGcdMemoryTypeSystemMemory
     (of_nat EFI_PAGE_SHIFT) 0xFFFFFFFFFFFFF000 (Some 0x2000) (env_gDxeCoreImageHandle sample_env) NULL (snd ?add)"
  have add: "fst ?add = EFI_SUCCESS" by code_simp
  have base: "PageAlignAddress 0x1001 = 0x2000" by code_simp
  have len: "PageAlignLength (0x1001 + 0x10 - 0x2000) = 0xFFFFFFFFFFFFF000" by code_simp
  have "map_option fst ?alloc = Some EFI_NOT_FOUND" by code_simp
  then obtain B s1 where alloc: "?alloc = Some (EFI_NOT_FOUND, B, s1)" by auto
  have pages: "unat (drop_bit EFI_PAGE_SHIFT 0xFFFFFFFFFFFFF000 :: u64) = 2 ^ 52 - 1" by (simp add: efi_const)
  obtain s0 where s0: "?add = (EFI_SUCCESS, s0)" using add by (metis prod.collapse)
  show ?thesis
    using alloc unfolding CoreAddMemorySpace_def s0 base Let_def len pages by auto
qed

lemma single_bit_and: "(x :: u64) AND 2 ^ k \<noteq> 2 ^ k \<Longrightarrow> x AND 2 ^ k = 0"
proof (rule ccontr)
  assume ne: "x AND 2 ^ k \<noteq> 2 ^ k" and "x AND 2 ^ k \<noteq> 0"
  then have "bit x k" by (simp add: and_exp_eq_0_iff_not_bit)
  then have "x AND 2 ^ k = 2 ^ k" by (auto intro!: bit_eqI simp: bit_simps)
  with ne show False by simp
qed

lemma single_bits:
  "EFI_MEMORY_UC = 2 ^ 0" "EFI_MEMORY_WC = 2 ^ 1" "EFI_MEMORY_WT = 2 ^ 2" "EFI_MEMORY_WB = 2 ^ 3"
  "EFI_MEMORY_UCE = 2 ^ 4" "EFI_MEMORY_WP = 2 ^ 12"
  by (simp_all add: efi_const)

text \<open>
  The CPU attributes asked of the CPU protocol: the protections of the request, and at
  most one cache type, which the request names.
\<close>

theorem ConverToCpuArchAttributes_correct:
  "ConverToCpuArchAttributes Attrs AND NONEXCLUSIVE_MEMORY_ATTRIBUTES = Attrs AND NONEXCLUSIVE_MEMORY_ATTRIBUTES \<and>
   (\<exists>t \<in> {0, EFI_MEMORY_UC, EFI_MEMORY_WC, EFI_MEMORY_WT, EFI_MEMORY_WB, EFI_MEMORY_UCE, EFI_MEMORY_WP}.
      ConverToCpuArchAttributes Attrs = (Attrs AND NONEXCLUSIVE_MEMORY_ATTRIBUTES) OR t \<and> Attrs AND t = t \<and>
      (t = 0 \<longrightarrow> Attrs AND EXCLUSIVE_MEMORY_ATTRIBUTES = 0))"
proof -
  let ?N = NONEXCLUSIVE_MEMORY_ATTRIBUTES
  have keep: "((Attrs AND ?N) OR t) AND ?N = Attrs AND ?N" if "t AND ?N = 0" for t
    using that by (simp add: bit.conj_disj_distrib2 and.assoc)
  have disj: "EFI_MEMORY_UC AND ?N = 0" "EFI_MEMORY_WC AND ?N = 0" "EFI_MEMORY_WT AND ?N = 0"
    "EFI_MEMORY_WB AND ?N = 0" "EFI_MEMORY_UCE AND ?N = 0" "EFI_MEMORY_WP AND ?N = 0"
    by code_simp+
  have none: "Attrs AND EXCLUSIVE_MEMORY_ATTRIBUTES = 0"
    if "Attrs AND EFI_MEMORY_UC \<noteq> EFI_MEMORY_UC" "Attrs AND EFI_MEMORY_WC \<noteq> EFI_MEMORY_WC"
      "Attrs AND EFI_MEMORY_WT \<noteq> EFI_MEMORY_WT" "Attrs AND EFI_MEMORY_WB \<noteq> EFI_MEMORY_WB"
      "Attrs AND EFI_MEMORY_UCE \<noteq> EFI_MEMORY_UCE" "Attrs AND EFI_MEMORY_WP \<noteq> EFI_MEMORY_WP"
    unfolding EXCLUSIVE_MEMORY_ATTRIBUTES_def bit.conj_disj_distrib
    using that [unfolded single_bits, THEN single_bit_and] by (simp only: single_bits or.left_neutral)
  define pick where "pick = (if Attrs AND EFI_MEMORY_UC = EFI_MEMORY_UC then EFI_MEMORY_UC
     else if Attrs AND EFI_MEMORY_WC = EFI_MEMORY_WC then EFI_MEMORY_WC
     else if Attrs AND EFI_MEMORY_WT = EFI_MEMORY_WT then EFI_MEMORY_WT
     else if Attrs AND EFI_MEMORY_WB = EFI_MEMORY_WB then EFI_MEMORY_WB
     else if Attrs AND EFI_MEMORY_UCE = EFI_MEMORY_UCE then EFI_MEMORY_UCE
     else if Attrs AND EFI_MEMORY_WP = EFI_MEMORY_WP then EFI_MEMORY_WP else 0)"
  have "ConverToCpuArchAttributes Attrs = (Attrs AND ?N) OR pick"
    by (simp add: ConverToCpuArchAttributes_def pick_def Let_def)
  moreover have "pick \<in> {0, EFI_MEMORY_UC, EFI_MEMORY_WC, EFI_MEMORY_WT, EFI_MEMORY_WB, EFI_MEMORY_UCE, EFI_MEMORY_WP}"
    by (simp add: pick_def)
  moreover have "Attrs AND pick = pick" by (simp add: pick_def)
  moreover have "pick AND ?N = 0" by (simp add: pick_def disj)
  moreover have "Attrs AND EXCLUSIVE_MEMORY_ATTRIBUTES = 0" if "pick = 0"
    by (rule none; use that in \<open>simp add: pick_def efi_const split: if_splits\<close>)
  ultimately show ?thesis using keep [of pick] by (intro conjI bexI [of _ pick]) simp_all
qed

theorem ConverToCpuArchAttributes_correct_witness:
  "ConverToCpuArchAttributes 0x4009 = 0x4001 \<and>
   ConverToCpuArchAttributes 0x4009 AND NONEXCLUSIVE_MEMORY_ATTRIBUTES = 0x4009 AND NONEXCLUSIVE_MEMORY_ATTRIBUTES"
proof -
  have "ConverToCpuArchAttributes 0x4009 = 0x4001" by code_simp
  then show ?thesis using ConverToCpuArchAttributes_correct [of "0x4009"] by blast
qed

text \<open>
  \<^verbatim>\<open>AlignValue\<close> rounds to a multiple of the alignment: down to the greatest one at or below
  the value, and up to the least one at or above it when the sum does not wrap.
\<close>

theorem AlignValue_rounds:
  assumes "n < 64" and "unat Value < 2 ^ 63"
  shows "2 ^ n dvd unat (AlignValue Value n RoundUp) \<and>
    (if RoundUp
     then unat Value \<le> unat (AlignValue Value n RoundUp) \<and> unat (AlignValue Value n RoundUp) < unat Value + 2 ^ n
     else unat (AlignValue Value n RoundUp) \<le> unat Value \<and> unat Value < unat (AlignValue Value n RoundUp) + 2 ^ n)"
proof (cases RoundUp)
  case True
  then show ?thesis
    using align_up(1,2) [OF assms] and_not_mask_dvd [of n "AlignValue Value n True"]
      align_down_aligned [of "Value + (push_bit n 1 - 1)" n]
    by (simp add: AlignValue_def Let_def)
next
  case False
  have e: "unat (AlignValue Value n False) = unat Value div 2 ^ n * 2 ^ n"
    using unat_align_down [of Value n] by (simp add: AlignValue_def Let_def)
  have d: "unat Value div 2 ^ n * 2 ^ n + unat Value mod 2 ^ n = unat Value" and m: "unat Value mod 2 ^ n < 2 ^ n"
    by (rule div_mult_mod_eq) simp
  have "unat Value div 2 ^ n * 2 ^ n \<le> unat Value" "unat Value < unat Value div 2 ^ n * 2 ^ n + 2 ^ n"
    using d m by linarith+
  then show ?thesis using False e by simp
qed

theorem AlignValue_rounds_witness: "unat (AlignValue 0x1234 12 True) = 0x2000 \<and> unat (AlignValue 0x1234 12 False) = 0x1000"
proof -
  have "unat (AlignValue 0x1234 12 True) = 0x2000" "unat (AlignValue 0x1234 12 False) = 0x1000" by code_simp+
  then show ?thesis using AlignValue_rounds [of 12 "0x1234" True] AlignValue_rounds [of 12 "0x1234" False] by simp
qed

end
