(* ===== verification/LinkedList.thy ===== *)
theory LinkedList
  imports UefiBase
begin

text \<open>
  The doubly linked lists of the base library (\<^verbatim>\<open>MdePkg/Library/BaseLib/LinkedList.c\<close>).  Every
  structure of the core that is kept in a list embeds a \<^verbatim>\<open>LIST_ENTRY\<close>; the head is a
  \<^verbatim>\<open>LIST_ENTRY\<close> of its own, and head and nodes form a ring.

  The memory is the two link fields of every address, so that aliasing is as in C: an operation
  writes through the pointers it finds.  \<open>dlist h head xs\<close> says that in \<open>h\<close> the list with the
  given head holds the nodes \<open>xs\<close>; the properties show that each operation is the operation on
  \<open>xs\<close> its name says and leaves the links of every other list alone.  An \<^verbatim>\<open>ASSERT\<close> is not a
  branch of the model; the checks behind it, \<^verbatim>\<open>InternalBaseLibIsListValid\<close> and
  \<^verbatim>\<open>IsNodeInList\<close>, are modelled as the functions they are, with
  \<^verbatim>\<open>PcdMaximumLinkedListLength\<close> as a parameter.
\<close>

section \<open>Model\<close>

type_synonym list_ptr = u64

record list_memory =
  ForwardLink :: "list_ptr \<Rightarrow> list_ptr"
  BackLink :: "list_ptr \<Rightarrow> list_ptr"

definition set_ForwardLink :: "list_ptr \<Rightarrow> list_ptr \<Rightarrow> list_memory \<Rightarrow> list_memory" where
  "set_ForwardLink p q h = h\<lparr>ForwardLink := (ForwardLink h)(p := q)\<rparr>"

definition set_BackLink :: "list_ptr \<Rightarrow> list_ptr \<Rightarrow> list_memory \<Rightarrow> list_memory" where
  "set_BackLink p q h = h\<lparr>BackLink := (BackLink h)(p := q)\<rparr>"

text \<open>
  The loop of \<^verbatim>\<open>InternalBaseLibIsListValid\<close>; \<^verbatim>\<open>Count\<close> stays at or below the 32-bit maximum, so
  that it does not wrap.
\<close>

function InternalBaseLibIsListValid_loop ::
  "nat \<Rightarrow> list_memory \<Rightarrow> list_ptr \<Rightarrow> list_ptr \<Rightarrow> nat \<Rightarrow> nat" where
  "InternalBaseLibIsListValid_loop MaxLength h List Ptr Count =
     (let Ptr' = ForwardLink h Ptr; Count' = Count + 1
      in if Ptr' \<noteq> List \<and> Count' < MaxLength
         then InternalBaseLibIsListValid_loop MaxLength h List Ptr' Count' else Count')"
  by pat_completeness auto
termination
  by (relation "measure (\<lambda>(MaxLength, h, List, Ptr, Count). MaxLength - Count)") auto

declare InternalBaseLibIsListValid_loop.simps [simp del]

definition InternalBaseLibIsListValid :: "nat \<Rightarrow> list_memory \<Rightarrow> list_ptr \<Rightarrow> bool" where
  "InternalBaseLibIsListValid MaxLength h List =
     (if MaxLength > 0 then InternalBaseLibIsListValid_loop MaxLength h List List 0 < MaxLength else True)"

text \<open>\<^verbatim>\<open>IsNodeInList\<close> follows a ring that may be broken, so that its loop may not end.\<close>

partial_function (option) IsNodeInList_loop ::
  "nat \<Rightarrow> list_memory \<Rightarrow> list_ptr \<Rightarrow> list_ptr \<Rightarrow> list_ptr \<Rightarrow> nat \<Rightarrow> bool option" where
  "IsNodeInList_loop MaxLength h FirstEntry SecondEntry Ptr Count =
     (let Ptr' = ForwardLink h Ptr;
          Count' = (if MaxLength > 0 then Count + 1 else Count)
      in if MaxLength > 0 \<and> Count' = MaxLength then Some (Ptr' = SecondEntry)
         else if Ptr' = SecondEntry then Some True
         else if Ptr' \<noteq> FirstEntry
         then IsNodeInList_loop MaxLength h FirstEntry SecondEntry Ptr' Count'
         else Some False)"

declare IsNodeInList_loop.simps [code]

definition IsNodeInList :: "nat \<Rightarrow> list_memory \<Rightarrow> list_ptr \<Rightarrow> list_ptr \<Rightarrow> bool option" where
  "IsNodeInList MaxLength h FirstEntry SecondEntry =
     IsNodeInList_loop MaxLength h FirstEntry SecondEntry FirstEntry 0"

definition InitializeListHead :: "list_ptr \<Rightarrow> list_memory \<Rightarrow> list_ptr \<times> list_memory" where
  "InitializeListHead ListHead h =
     (ListHead, set_BackLink ListHead ListHead (set_ForwardLink ListHead ListHead h))"

definition InsertHeadList :: "list_ptr \<Rightarrow> list_ptr \<Rightarrow> list_memory \<Rightarrow> list_ptr \<times> list_memory" where
  "InsertHeadList ListHead Entry h =
     (let h1 = set_ForwardLink Entry (ForwardLink h ListHead) h;
          h2 = set_BackLink Entry ListHead h1;
          h3 = set_BackLink (ForwardLink h2 Entry) Entry h2;
          h4 = set_ForwardLink ListHead Entry h3
      in (ListHead, h4))"

definition InsertTailList :: "list_ptr \<Rightarrow> list_ptr \<Rightarrow> list_memory \<Rightarrow> list_ptr \<times> list_memory" where
  "InsertTailList ListHead Entry h =
     (let h1 = set_ForwardLink Entry ListHead h;
          h2 = set_BackLink Entry (BackLink h1 ListHead) h1;
          h3 = set_ForwardLink (BackLink h2 Entry) Entry h2;
          h4 = set_BackLink ListHead Entry h3
      in (ListHead, h4))"

definition GetFirstNode :: "list_ptr \<Rightarrow> list_memory \<Rightarrow> list_ptr" where
  "GetFirstNode List h = ForwardLink h List"

definition GetNextNode :: "list_ptr \<Rightarrow> list_ptr \<Rightarrow> list_memory \<Rightarrow> list_ptr" where
  "GetNextNode List Node h = ForwardLink h Node"

definition GetPreviousNode :: "list_ptr \<Rightarrow> list_ptr \<Rightarrow> list_memory \<Rightarrow> list_ptr" where
  "GetPreviousNode List Node h = BackLink h Node"

definition IsListEmpty :: "list_ptr \<Rightarrow> list_memory \<Rightarrow> bool" where
  "IsListEmpty ListHead h \<longleftrightarrow> ForwardLink h ListHead = ListHead"

definition IsNull :: "list_ptr \<Rightarrow> list_ptr \<Rightarrow> list_memory \<Rightarrow> bool" where
  "IsNull List Node h \<longleftrightarrow> Node = List"

definition IsNodeAtEnd :: "list_ptr \<Rightarrow> list_ptr \<Rightarrow> list_memory \<Rightarrow> bool" where
  "IsNodeAtEnd List Node h \<longleftrightarrow> \<not> IsNull List Node h \<and> BackLink h List = Node"

definition RemoveEntryList :: "list_ptr \<Rightarrow> list_memory \<Rightarrow> list_ptr \<times> list_memory" where
  "RemoveEntryList Entry h =
     (let h1 = set_BackLink (ForwardLink h Entry) (BackLink h Entry) h;
          h2 = set_ForwardLink (BackLink h1 Entry) (ForwardLink h1 Entry) h1
      in (ForwardLink h2 Entry, h2))"

definition SwapListEntries :: "list_ptr \<Rightarrow> list_ptr \<Rightarrow> list_memory \<Rightarrow> list_ptr \<times> list_memory" where
  "SwapListEntries FirstEntry SecondEntry h =
     (if FirstEntry = SecondEntry then (SecondEntry, h)
      else let (Ptr, h1) = RemoveEntryList FirstEntry h
        in if BackLink h1 Ptr = SecondEntry then InsertTailList SecondEntry FirstEntry h1
           else let (r, h2) = InsertHeadList SecondEntry FirstEntry h1
             in if Ptr = r then (Ptr, h2)
                else let (_, h3) = RemoveEntryList SecondEntry h2;
                         (_, h4) = InsertTailList Ptr SecondEntry h3
                  in (SecondEntry, h4))"

section \<open>Rings\<close>

text \<open>\<open>chain h p xs q\<close>: the links lead from \<open>p\<close> through \<open>xs\<close> to \<open>q\<close>, and back.\<close>

fun chain :: "list_memory \<Rightarrow> list_ptr \<Rightarrow> list_ptr list \<Rightarrow> list_ptr \<Rightarrow> bool" where
  "chain h p [] q \<longleftrightarrow> ForwardLink h p = q \<and> BackLink h q = p"
| "chain h p (x # xs) q \<longleftrightarrow> ForwardLink h p = x \<and> BackLink h x = p \<and> chain h x xs q"

definition dlist :: "list_memory \<Rightarrow> list_ptr \<Rightarrow> list_ptr list \<Rightarrow> bool" where
  "dlist h head xs \<longleftrightarrow> distinct (head # xs) \<and> chain h head xs head"

lemma link_simps [simp]:
  "ForwardLink (set_ForwardLink p q h) = (ForwardLink h)(p := q)"
  "BackLink (set_ForwardLink p q h) = BackLink h"
  "ForwardLink (set_BackLink p q h) = ForwardLink h"
  "BackLink (set_BackLink p q h) = (BackLink h)(p := q)"
  by (simp_all add: set_ForwardLink_def set_BackLink_def)

lemma chain_append: "chain h p (xs @ x # ys) q \<longleftrightarrow> chain h p xs x \<and> chain h x ys q"
  by (induction xs arbitrary: p) auto

lemma chain_first: "chain h p xs q \<Longrightarrow> ForwardLink h p = hd (xs @ [q])"
  by (cases xs) auto

lemma chain_last: "chain h p xs q \<Longrightarrow> BackLink h q = last (p # xs)"
  by (induction xs arbitrary: p) auto

lemma chain_frame:
  "(\<And>a. a \<in> set (p # xs) \<Longrightarrow> ForwardLink h' a = ForwardLink h a) \<Longrightarrow>
   (\<And>a. a \<in> set (xs @ [q]) \<Longrightarrow> BackLink h' a = BackLink h a) \<Longrightarrow>
   chain h' p xs q \<longleftrightarrow> chain h p xs q"
  by (induction xs arbitrary: p) auto

text \<open>Any node of the ring can be seen as the head.\<close>

lemma dlist_rotate: "dlist h head (xs @ x # ys) \<longleftrightarrow> dlist h x (ys @ head # xs)"
  by (auto simp: dlist_def chain_append)

lemma dlist_frame:
  "(\<And>a. a \<in> set (head # xs) \<Longrightarrow> ForwardLink h' a = ForwardLink h a \<and> BackLink h' a = BackLink h a) \<Longrightarrow>
   dlist h' head xs \<longleftrightarrow> dlist h head xs"
  unfolding dlist_def by (subst chain_frame [of head xs h' h]) auto

text \<open>The addresses whose links an operation may change.\<close>

definition list_unchanged :: "list_ptr set \<Rightarrow> list_memory \<Rightarrow> list_memory \<Rightarrow> bool" where
  "list_unchanged A h h' \<longleftrightarrow> (\<forall>a. a \<notin> A \<longrightarrow> ForwardLink h' a = ForwardLink h a \<and> BackLink h' a = BackLink h a)"

lemma list_unchanged_dlist:
  "list_unchanged A h h' \<Longrightarrow> set (head # xs) \<inter> A = {} \<Longrightarrow> dlist h' head xs \<longleftrightarrow> dlist h head xs"
  by (rule dlist_frame) (auto simp: list_unchanged_def)

lemma list_unchanged_trans:
  "list_unchanged A h1 h2 \<Longrightarrow> list_unchanged A h2 h3 \<Longrightarrow> list_unchanged A h1 h3"
  by (simp add: list_unchanged_def)

lemma list_unchanged_mono: "list_unchanged A h1 h2 \<Longrightarrow> A \<subseteq> B \<Longrightarrow> list_unchanged B h1 h2"
  by (auto simp: list_unchanged_def)

lemma chain_ends_in:
  "chain h p xs q \<Longrightarrow> ForwardLink h p \<in> set (xs @ [q]) \<and> BackLink h q \<in> set (p # xs)"
  using chain_first [of h p xs q] chain_last [of h p xs q] by (metis append_is_Nil_conv hd_in_set last_in_set list.discI)

lemma InsertHeadList_dlist:
  assumes l: "dlist h head xs" and e: "e \<notin> set (head # xs)"
  shows "fst (InsertHeadList head e h) = head" and "dlist (snd (InsertHeadList head e h)) head (e # xs)"
    and "list_unchanged (set (head # e # xs)) h (snd (InsertHeadList head e h))"
proof -
  let ?h = "snd (InsertHeadList head e h)"
  have c: "chain h head xs head" and d: "distinct (head # xs)" using l by (auto simp: dlist_def)
  have F: "ForwardLink ?h = (ForwardLink h)(e := ForwardLink h head, head := e)"
    and B: "BackLink ?h = (BackLink h)(e := head, ForwardLink h head := e)"
    by (simp_all add: InsertHeadList_def Let_def)
  show "fst (InsertHeadList head e h) = head" by (simp add: InsertHeadList_def Let_def)
  have "chain ?h e xs head"
  proof (cases xs)
    case Nil
    then show ?thesis using c e by (simp add: F B)
  next
    case (Cons x ys)
    then have cx: "chain h x ys head" "ForwardLink h head = x" using c by auto
    have "chain ?h x ys head"
      using cx(1) by (subst chain_frame [of x ys ?h h]) (use e d Cons cx(2) in \<open>auto simp: F B\<close>)
    then show ?thesis using Cons cx e d by (auto simp: F B)
  qed
  moreover have "ForwardLink ?h head = e" "BackLink ?h e = head"
    using e chain_ends_in [OF c] by (auto simp: F B)
  ultimately show "dlist ?h head (e # xs)" using e d by (auto simp: dlist_def)
  show "list_unchanged (set (head # e # xs)) h ?h"
    using chain_ends_in [OF c] by (auto simp: list_unchanged_def F B)
qed

lemma InsertTailList_dlist:
  assumes l: "dlist h head xs" and e: "e \<notin> set (head # xs)"
  shows "fst (InsertTailList head e h) = head" and "dlist (snd (InsertTailList head e h)) head (xs @ [e])"
    and "list_unchanged (set (head # e # xs)) h (snd (InsertTailList head e h))"
proof -
  let ?h = "snd (InsertTailList head e h)"
  have c: "chain h head xs head" and d: "distinct (head # xs)" using l by (auto simp: dlist_def)
  have F: "ForwardLink ?h = (ForwardLink h)(e := head, BackLink h head := e)"
    and B: "BackLink ?h = (BackLink h)(e := BackLink h head, head := e)"
    by (simp_all add: InsertTailList_def Let_def)
  show "fst (InsertTailList head e h) = head" by (simp add: InsertTailList_def Let_def)
  have "chain ?h head xs e"
  proof (cases xs rule: rev_cases)
    case Nil
    then show ?thesis using c e by (simp add: F B)
  next
    case (snoc ys y)
    then have cx: "chain h head ys y" "BackLink h head = y" using c by (auto simp: chain_append)
    have "chain ?h head ys y"
      using cx(1) by (subst chain_frame [of head ys ?h h y]) (use e d snoc cx(2) in \<open>auto simp: F B\<close>)
    then show ?thesis using snoc cx e d by (auto simp: F B chain_append)
  qed
  moreover have "ForwardLink ?h e = head" "BackLink ?h head = e"
    using e chain_ends_in [OF c] by (auto simp: F B)
  ultimately show "dlist ?h head (xs @ [e])" using e d by (auto simp: dlist_def chain_append)
  show "list_unchanged (set (head # e # xs)) h ?h"
    using chain_ends_in [OF c] by (auto simp: list_unchanged_def F B)
qed

lemma RemoveEntryList_dlist:
  assumes l: "dlist h head (xs @ e # ys)"
  shows "fst (RemoveEntryList e h) = hd (ys @ [head])" and "dlist (snd (RemoveEntryList e h)) head (xs @ ys)"
    and "list_unchanged (set (head # xs @ ys)) h (snd (RemoveEntryList e h))"
proof -
  let ?h = "snd (RemoveEntryList e h)"
  define n p where "n = ForwardLink h e" and "p = BackLink h e"
  have c: "chain h head xs e" "chain h e ys head" and d: "distinct (head # xs @ e # ys)"
    using l by (auto simp: dlist_def chain_append)
  have n: "n = hd (ys @ [head])" and p: "p = last (head # xs)"
    using chain_first [OF c(2)] chain_last [OF c(1)] by (simp_all add: n_def p_def)
  have nin: "n \<in> set (ys @ [head])" "p \<in> set (head # xs)"
    using chain_ends_in [OF c(2)] chain_ends_in [OF c(1)] by (auto simp: n_def p_def)
  have F: "ForwardLink ?h = (ForwardLink h)(p := n)" and B: "BackLink ?h = (BackLink h)(n := p)"
    using nin d by (auto simp: RemoveEntryList_def Let_def n_def p_def)
  show "fst (RemoveEntryList e h) = hd (ys @ [head])"
    using nin d by (auto simp: RemoveEntryList_def Let_def n [symmetric] n_def [symmetric] p_def [symmetric])
  show "list_unchanged (set (head # xs @ ys)) h ?h" using nin by (auto simp: list_unchanged_def F B)
  have "chain ?h head (xs @ ys) head"
  proof (cases ys)
    case Nil
    show ?thesis
    proof (cases xs rule: rev_cases)
      case Nil
      then show ?thesis using \<open>ys = []\<close> n p by (simp add: F B)
    next
      case (snoc zs z)
      have "chain h head zs z" using c(1) snoc by (simp add: chain_append)
      then have "chain ?h head zs z"
        by (subst chain_frame [of head zs ?h h z]) (use d snoc \<open>ys = []\<close> n p in \<open>auto simp: F B\<close>)
      then show ?thesis using snoc \<open>ys = []\<close> n p by (simp add: F B chain_append)
    qed
  next
    case (Cons y zs)
    have "chain h y zs head" using c(2) Cons by simp
    then have 1: "chain ?h y zs head"
      by (subst chain_frame [of y zs ?h h head]) (use d Cons n nin(2) in \<open>auto simp: F B\<close>)
    have 2: "chain ?h head xs y"
    proof (cases xs rule: rev_cases)
      case Nil
      then show ?thesis using Cons n p by (simp add: F B)
    next
      case (snoc us u)
      have "chain h head us u" using c(1) snoc by (simp add: chain_append)
      then have "chain ?h head us u"
        by (subst chain_frame [of head us ?h h u]) (use d snoc Cons n p in \<open>auto simp: F B\<close>)
      then show ?thesis using snoc Cons n p by (simp add: F B chain_append)
    qed
    from 1 2 Cons show ?thesis by (simp add: chain_append)
  qed
  then show "dlist ?h head (xs @ ys)" using d by (simp add: dlist_def)
qed

text \<open>Inserting after or in front of a node that is not the head.\<close>

lemma InsertHeadList_at:
  assumes "dlist h head (xs @ x # ys)" and "e \<notin> set (head # xs @ x # ys)"
  shows "dlist (snd (InsertHeadList x e h)) head (xs @ x # e # ys)"
    and "list_unchanged (set (head # xs @ e # x # ys)) h (snd (InsertHeadList x e h))"
proof -
  have l: "dlist h x (ys @ head # xs)" using assms(1) dlist_rotate by blast
  have e: "e \<notin> set (x # ys @ head # xs)" using assms(2) by auto
  show "dlist (snd (InsertHeadList x e h)) head (xs @ x # e # ys)"
    using InsertHeadList_dlist(2) [OF l e] dlist_rotate [of _ head xs x "e # ys"] by simp
  show "list_unchanged (set (head # xs @ e # x # ys)) h (snd (InsertHeadList x e h))"
    using InsertHeadList_dlist(3) [OF l e] by (auto simp: list_unchanged_def)
qed

lemma InsertTailList_at:
  assumes "dlist h head (xs @ x # ys)" and "e \<notin> set (head # xs @ x # ys)"
  shows "dlist (snd (InsertTailList x e h)) head (xs @ e # x # ys)"
    and "list_unchanged (set (head # xs @ e # x # ys)) h (snd (InsertTailList x e h))"
proof -
  have l: "dlist h x (ys @ head # xs)" using assms(1) dlist_rotate by blast
  have e: "e \<notin> set (x # ys @ head # xs)" using assms(2) by auto
  show "dlist (snd (InsertTailList x e h)) head (xs @ e # x # ys)"
    using InsertTailList_dlist(2) [OF l e] dlist_rotate [of _ head "xs @ [e]" x ys] by simp
  show "list_unchanged (set (head # xs @ e # x # ys)) h (snd (InsertTailList x e h))"
    using InsertTailList_dlist(3) [OF l e] by (auto simp: list_unchanged_def)
qed

lemma dlist_BackLink:
  "dlist h head (xs @ x # ys) \<Longrightarrow> BackLink h x = last (head # xs)"
  "dlist h head xs \<Longrightarrow> BackLink h head = last (head # xs)"
  by (auto simp: dlist_def chain_append dest: chain_last)

lemma dlist_distinct: "dlist h head xs \<Longrightarrow> distinct (head # xs)"
  by (simp add: dlist_def)

section \<open>Swapping\<close>

lemma SwapListEntries_forward:
  assumes l: "dlist h head (xs @ a # ys @ b # zs)"
  shows "fst (SwapListEntries a b h) = b \<and> dlist (snd (SwapListEntries a b h)) head (xs @ b # ys @ a # zs) \<and>
    list_unchanged (set (head # xs @ a # ys @ b # zs)) h (snd (SwapListEntries a b h))"
proof -
  let ?S = "set (head # xs @ a # ys @ b # zs)"
  note d = dlist_distinct [OF l]
  obtain p h1 where r1: "RemoveEntryList a h = (p, h1)" by fastforce
  have h1: "p = hd (ys @ b # zs)" "dlist h1 head (xs @ ys @ b # zs)" "list_unchanged ?S h h1"
    using RemoveEntryList_dlist [OF l] r1 by (auto simp: list_unchanged_def hd_append)
  have "BackLink h1 p = last (head # xs)"
    using dlist_BackLink(1) [of h1 head xs p "tl (ys @ b # zs)"] h1 by (cases ys) auto
  then have nb: "BackLink h1 p \<noteq> b" using d by (auto split: if_splits)
  obtain r h2 where r2: "InsertHeadList b a h1 = (r, h2)" by fastforce
  have rb: "r = b" using r2 by (simp add: InsertHeadList_def Let_def)
  have h2: "dlist h2 head (xs @ ys @ b # a # zs)" "list_unchanged ?S h1 h2"
    using InsertHeadList_at [of h1 head "xs @ ys" b zs a] h1(2) d r2 by (auto simp: list_unchanged_def)
  show ?thesis
  proof (cases ys)
    case Nil
    then have "SwapListEntries a b h = (b, h2)"
      using d r1 r2 rb nb h1(1) by (simp add: SwapListEntries_def)
    then show ?thesis using Nil h2(1) list_unchanged_trans [OF h1(3) h2(2)] by simp
  next
    case (Cons y ys')
    obtain q h3 where r3: "RemoveEntryList b h2 = (q, h3)" by fastforce
    have h3: "dlist h3 head (xs @ ys @ a # zs)" "list_unchanged ?S h2 h3"
      using RemoveEntryList_dlist [of h2 head "xs @ ys" b "a # zs"] h2(1) r3
      by (auto simp: list_unchanged_def)
    obtain w h4 where r4: "InsertTailList p b h3 = (w, h4)" by fastforce
    have "dlist h4 head (xs @ b # ys @ a # zs)" "list_unchanged ?S h3 h4"
      using InsertTailList_at [of h3 head xs y "ys' @ a # zs" b] h3(1) d r4 Cons h1(1)
      by (auto simp: list_unchanged_def)
    moreover have "a \<noteq> b" "p \<noteq> b" using d Cons h1(1) by auto
    then have "SwapListEntries a b h = (b, h4)"
      using r1 r2 r3 r4 rb nb by (simp add: SwapListEntries_def)
    ultimately show ?thesis
      using list_unchanged_trans [OF list_unchanged_trans [OF list_unchanged_trans [OF h1(3) h2(2)] h3(2)]] by simp
  qed
qed

lemma SwapListEntries_backward:
  assumes l: "dlist h head (xs @ b # ys @ a # zs)"
  shows "fst (SwapListEntries a b h) = b \<and> dlist (snd (SwapListEntries a b h)) head (xs @ a # ys @ b # zs) \<and>
    list_unchanged (set (head # xs @ a # ys @ b # zs)) h (snd (SwapListEntries a b h))"
proof -
  let ?S = "set (head # xs @ a # ys @ b # zs)"
  have l': "dlist h head ((xs @ b # ys) @ a # zs)" using l by simp
  note d = dlist_distinct [OF l]
  obtain p h1 where r1: "RemoveEntryList a h = (p, h1)" by fastforce
  have h1: "p = hd (zs @ [head])" "dlist h1 head (xs @ b # ys @ zs)" "list_unchanged ?S h h1"
    using RemoveEntryList_dlist [OF l'] r1 by (auto simp: list_unchanged_def)
  have prev: "BackLink h1 p = last (b # ys)"
    using dlist_BackLink(1) [of h1 head "xs @ b # ys" p "tl zs"] dlist_BackLink(2) [of h1 head "xs @ b # ys @ zs"] h1
    by (cases zs) auto
  show ?thesis
  proof (cases ys)
    case Nil
    obtain w h2 where r2: "InsertTailList b a h1 = (w, h2)" by fastforce
    have "dlist h2 head (xs @ a # b # zs)" "list_unchanged ?S h1 h2"
      using InsertTailList_at [of h1 head xs b zs a] h1(2) d r2 Nil by (auto simp: list_unchanged_def)
    moreover have "SwapListEntries a b h = (b, h2)"
      using d r1 r2 prev Nil by (auto simp: SwapListEntries_def InsertTailList_def Let_def)
    ultimately show ?thesis using Nil list_unchanged_trans [OF h1(3)] by simp
  next
    case (Cons y ys')
    then have nb: "BackLink h1 p \<noteq> b" using prev d by (auto split: if_splits)
    obtain r h2 where r2: "InsertHeadList b a h1 = (r, h2)" by fastforce
    have rb: "r = b" using r2 by (simp add: InsertHeadList_def Let_def)
    have h2: "dlist h2 head (xs @ b # a # ys @ zs)" "list_unchanged ?S h1 h2"
      using InsertHeadList_at [of h1 head xs b "ys @ zs" a] h1(2) d r2 by (auto simp: list_unchanged_def)
    obtain q h3 where r3: "RemoveEntryList b h2 = (q, h3)" by fastforce
    have h3: "dlist h3 head (xs @ a # ys @ zs)" "list_unchanged ?S h2 h3"
      using RemoveEntryList_dlist [OF h2(1)] r3 by (auto simp: list_unchanged_def)
    obtain w h4 where r4: "InsertTailList p b h3 = (w, h4)" by fastforce
    have "dlist h4 head (xs @ a # ys @ b # zs) \<and> list_unchanged ?S h3 h4"
    proof (cases zs)
      case Nil
      then show ?thesis
        using InsertTailList_dlist [OF h3(1), of b] d r4 h1(1) by (auto simp: list_unchanged_def)
    next
      case (Cons z zs')
      then show ?thesis
        using InsertTailList_at [of h3 head "xs @ a # ys" z zs' b] h3(1) d r4 h1(1) by (auto simp: list_unchanged_def)
    qed
    moreover have "a \<noteq> b" "p \<noteq> b" using h1(1) d by (cases zs; auto)+
    then have "SwapListEntries a b h = (b, h4)"
      using r1 r2 r3 r4 rb nb by (simp add: SwapListEntries_def)
    ultimately show ?thesis
      using list_unchanged_trans [OF list_unchanged_trans [OF list_unchanged_trans [OF h1(3) h2(2)] h3(2)]] by simp
  qed
qed

section \<open>Walking the ring\<close>

lemma IsNodeInList_walk:
  assumes "chain h p ys head" and "head \<notin> set ys" and "MaxLength = 0 \<or> c + length ys + 1 < MaxLength"
  shows "IsNodeInList_loop MaxLength h head n p c = Some (n \<in> set (head # ys))"
  using assms
proof (induction ys arbitrary: p c)
  case Nil
  then show ?case by (subst IsNodeInList_loop.simps) (auto simp: Let_def)
next
  case (Cons y ys)
  then have "IsNodeInList_loop MaxLength h head n y (if MaxLength > 0 then c + 1 else c) = Some (n \<in> set (head # ys))"
    by (intro Cons.IH) auto
  then show ?case using Cons.prems by (subst IsNodeInList_loop.simps) (auto simp: Let_def)
qed

lemma IsListValid_walk:
  assumes "chain h p ys head" and "head \<notin> set ys" and "c < MaxLength"
  shows "InternalBaseLibIsListValid_loop MaxLength h head p c = min (c + length ys + 1) MaxLength"
  using assms
proof (induction ys arbitrary: p c)
  case Nil
  then show ?case by (subst InternalBaseLibIsListValid_loop.simps) simp
next
  case (Cons y ys)
  show ?case
  proof (cases "c + 1 < MaxLength")
    case True
    then have "InternalBaseLibIsListValid_loop MaxLength h head y (c + 1) = min (c + 1 + length ys + 1) MaxLength"
      using Cons.prems by (intro Cons.IH) auto
    then show ?thesis using Cons.prems True by (subst InternalBaseLibIsListValid_loop.simps) auto
  next
    case False
    then show ?thesis using Cons.prems by (subst InternalBaseLibIsListValid_loop.simps) auto
  qed
qed

section \<open>The interface\<close>

text \<open>
  What the rest of the core relies on: a list is filled at either end, its first node is found
  and any node can be taken out.
\<close>

locale node_list =
  fixes holds :: "'m \<Rightarrow> 'p \<Rightarrow> 'p list \<Rightarrow> bool"
    and empty_at :: "'p \<Rightarrow> 'm \<Rightarrow> 'm"
    and insert_tail :: "'p \<Rightarrow> 'p \<Rightarrow> 'm \<Rightarrow> 'm"
    and insert_head :: "'p \<Rightarrow> 'p \<Rightarrow> 'm \<Rightarrow> 'm"
    and remove :: "'p \<Rightarrow> 'm \<Rightarrow> 'm"
    and first :: "'p \<Rightarrow> 'm \<Rightarrow> 'p"
    and is_empty :: "'p \<Rightarrow> 'm \<Rightarrow> bool"
  assumes empty_at: "holds (empty_at l m) l []"
    and insert_tail: "holds m l xs \<Longrightarrow> e \<notin> set (l # xs) \<Longrightarrow> holds (insert_tail l e m) l (xs @ [e])"
    and insert_head: "holds m l xs \<Longrightarrow> e \<notin> set (l # xs) \<Longrightarrow> holds (insert_head l e m) l (e # xs)"
    and remove: "holds m l (xs @ e # ys) \<Longrightarrow> holds (remove e m) l (xs @ ys)"
    and first: "holds m l (x # xs) \<Longrightarrow> first l m = x"
    and is_empty: "holds m l xs \<Longrightarrow> is_empty l m \<longleftrightarrow> xs = []"
begin

lemma fill_tail: "holds m l xs \<Longrightarrow> distinct (l # xs @ es) \<Longrightarrow> holds (fold (insert_tail l) es m) l (xs @ es)"
proof (induction es arbitrary: m xs)
  case (Cons e es)
  have "holds (insert_tail l e m) l (xs @ [e])" using Cons.prems by (intro insert_tail) auto
  then show ?case using Cons.IH [of "insert_tail l e m" "xs @ [e]"] Cons.prems(2) by simp
qed simp

lemma fill_head: "holds m l xs \<Longrightarrow> distinct (l # es @ xs) \<Longrightarrow> holds (fold (insert_head l) es m) l (rev es @ xs)"
proof (induction es arbitrary: m xs)
  case (Cons e es)
  have "holds (insert_head l e m) l (e # xs)" using Cons.prems by (intro insert_head) auto
  then show ?case using Cons.IH [of "insert_head l e m" "e # xs"] Cons.prems(2) by simp
qed simp

lemma drain: "holds m l (xs @ ys) \<Longrightarrow> holds (fold remove xs m) l ys"
proof (induction xs arbitrary: m)
  case (Cons x xs)
  then show ?case using remove [of m l "[]" x "xs @ ys"] by simp
qed simp

lemma fifo:
  assumes "distinct (l # es)" and "i < length es"
  shows "first l (fold remove (take i es) (fold (insert_tail l) es (empty_at l m))) = es ! i"
proof -
  have "holds (fold (insert_tail l) es (empty_at l m)) l ([] @ es)"
    using assms(1) by (intro fill_tail empty_at) simp
  then have "holds (fold remove (take i es) (fold (insert_tail l) es (empty_at l m))) l (drop i es)"
    by (intro drain) simp
  then show ?thesis using first assms(2) by (metis Cons_nth_drop_Suc)
qed

lemma drained_empty:
  assumes "distinct (l # es)"
  shows "is_empty l (fold remove es (fold (insert_tail l) es (empty_at l m)))"
proof -
  have "holds (fold (insert_tail l) es (empty_at l m)) l ([] @ es)"
    using assms by (intro fill_tail empty_at) simp
  then have "holds (fold remove es (fold (insert_tail l) es (empty_at l m))) l []"
    by (intro drain) simp
  then show ?thesis using is_empty by blast
qed

end

interpretation link_list: node_list dlist "\<lambda>l h. snd (InitializeListHead l h)" "\<lambda>l e h. snd (InsertTailList l e h)"
  "\<lambda>l e h. snd (InsertHeadList l e h)" "\<lambda>e h. snd (RemoveEntryList e h)" GetFirstNode IsListEmpty
proof unfold_locales
  fix h :: list_memory and l e x xs ys
  show "dlist (snd (InitializeListHead l h)) l []" by (simp add: InitializeListHead_def dlist_def)
  show "dlist h l xs \<Longrightarrow> e \<notin> set (l # xs) \<Longrightarrow> dlist (snd (InsertTailList l e h)) l (xs @ [e])"
    by (rule InsertTailList_dlist)
  show "dlist h l xs \<Longrightarrow> e \<notin> set (l # xs) \<Longrightarrow> dlist (snd (InsertHeadList l e h)) l (e # xs)"
    by (rule InsertHeadList_dlist)
  show "dlist h l (xs @ e # ys) \<Longrightarrow> dlist (snd (RemoveEntryList e h)) l (xs @ ys)"
    by (rule RemoveEntryList_dlist)
  show "dlist h l (x # xs) \<Longrightarrow> GetFirstNode l h = x" by (simp add: dlist_def GetFirstNode_def)
  show "dlist h l xs \<Longrightarrow> IsListEmpty l h \<longleftrightarrow> xs = []"
    by (cases xs) (auto simp: dlist_def IsListEmpty_def)
qed

section \<open>Properties\<close>

text \<open>
  Inserting a node that is in no list puts it in front of the first node or behind the last
  one, or directly in front of or behind a given node; a list that shares no node with it keeps
  its content.
\<close>

theorem InsertList_correct:
  assumes "dlist h head (xs @ x # ys)" and "e \<notin> set (head # xs @ x # ys)"
    and "dlist h head' zs" and "set (head' # zs) \<inter> set (head # e # xs @ x # ys) = {}"
  shows "dlist (snd (InsertHeadList head e h)) head (e # xs @ x # ys) \<and>
    dlist (snd (InsertTailList head e h)) head (xs @ x # ys @ [e]) \<and>
    dlist (snd (InsertTailList x e h)) head (xs @ e # x # ys) \<and>
    dlist (snd (InsertHeadList x e h)) head (xs @ x # e # ys) \<and>
    dlist (snd (InsertHeadList head e h)) head' zs \<and> dlist (snd (InsertTailList head e h)) head' zs \<and>
    dlist (snd (InsertTailList x e h)) head' zs \<and> dlist (snd (InsertHeadList x e h)) head' zs"
proof -
  have keep: "dlist h' head' zs" if "list_unchanged A h h'" "A = set (head # e # xs @ x # ys)" for A h'
    using list_unchanged_dlist [OF that(1), of head' zs] that(2) assms(3,4) by blast
  show ?thesis
    using InsertHeadList_dlist(2) [OF assms(1,2)] InsertTailList_dlist(2) [OF assms(1,2)]
      InsertTailList_at(1) [OF assms(1,2)] InsertHeadList_at(1) [OF assms(1,2)]
      keep [OF InsertHeadList_dlist(3) [OF assms(1,2)]] keep [OF InsertTailList_dlist(3) [OF assms(1,2)]]
      keep [OF InsertTailList_at(2) [OF assms(1,2)]] keep [OF InsertHeadList_at(2) [OF assms(1,2)]]
    by (simp add: insert_commute)
qed

definition sample_memory :: list_memory where
  "sample_memory = snd (InitializeListHead 9 (fold (\<lambda>e h. snd (InsertTailList 1 e h)) [2, 3, 4, 5]
     (snd (InitializeListHead 1 \<lparr>ForwardLink = (\<lambda>_. 0), BackLink = (\<lambda>_. 0)\<rparr>))))"

lemma InitializeListHead_unchanged: "list_unchanged {l} h (snd (InitializeListHead l h))"
  by (simp add: list_unchanged_def InitializeListHead_def)

lemma sample_memory_lists: "dlist sample_memory 1 [2, 3, 4, 5]" "dlist sample_memory 9 []"
  unfolding sample_memory_def
  using link_list.fill_tail [OF link_list.empty_at, of 1 "[2, 3, 4, 5]"]
  by (subst list_unchanged_dlist [OF InitializeListHead_unchanged]) (auto intro: link_list.empty_at)

theorem InsertList_correct_witness:
  "dlist (snd (InsertTailList 4 7 sample_memory)) 1 [2, 3, 7, 4, 5] \<and> dlist (snd (InsertTailList 4 7 sample_memory)) 9 []"
  using InsertList_correct [of sample_memory 1 "[2, 3]" 4 "[5]" 7 9 "[]"] sample_memory_lists by simp

text \<open>
  Removing a node takes exactly that node out of its list and returns the node that
  followed it (the head when it was the last one); other lists keep their content.
\<close>

theorem RemoveEntryList_correct:
  assumes "dlist h head (xs @ e # ys)" and "dlist h head' zs" and "set (head' # zs) \<inter> set (head # xs @ e # ys) = {}"
  shows "fst (RemoveEntryList e h) = hd (ys @ [head]) \<and> dlist (snd (RemoveEntryList e h)) head (xs @ ys) \<and>
    dlist (snd (RemoveEntryList e h)) head' zs"
proof -
  have "set (head' # zs) \<inter> set (head # xs @ ys) = {}" using assms(3) by auto
  from list_unchanged_dlist [OF RemoveEntryList_dlist(3) [OF assms(1)] this] show ?thesis
    using RemoveEntryList_dlist(1,2) [OF assms(1)] assms(2) by simp
qed

theorem RemoveEntryList_correct_witness:
  "fst (RemoveEntryList 5 sample_memory) = 1 \<and> dlist (snd (RemoveEntryList 5 sample_memory)) 1 [2, 3, 4] \<and>
   dlist (snd (RemoveEntryList 5 sample_memory)) 9 []"
  using RemoveEntryList_correct [of sample_memory 1 "[2, 3, 4]" 5 "[]" 9 "[]"] sample_memory_lists by simp

text \<open>
  \<^verbatim>\<open>SwapListEntries\<close> exchanges the places of two different nodes, neighbours or not and in
  either order, returns the second one and touches no link outside the list.
\<close>

theorem SwapListEntries_correct:
  assumes "dlist h head (xs @ a # ys @ b # zs)"
  shows "(case SwapListEntries a b h of (r, h') \<Rightarrow>
      r = b \<and> dlist h' head (xs @ b # ys @ a # zs) \<and> list_unchanged (set (head # xs @ a # ys @ b # zs)) h h') \<and>
    (case SwapListEntries b a h of (r, h') \<Rightarrow>
      r = a \<and> dlist h' head (xs @ b # ys @ a # zs) \<and> list_unchanged (set (head # xs @ a # ys @ b # zs)) h h')"
proof -
  have "set (head # xs @ b # ys @ a # zs) = set (head # xs @ a # ys @ b # zs)" by auto
  then show ?thesis
    using SwapListEntries_forward [OF assms] SwapListEntries_backward [of h head xs a ys b zs] assms
    by (auto simp: split_beta)
qed

theorem SwapListEntries_correct_witness:
  "dlist (snd (SwapListEntries 2 5 sample_memory)) 1 [5, 3, 4, 2] \<and> dlist (snd (SwapListEntries 4 3 sample_memory)) 1 [2, 4, 3, 5]"
  using SwapListEntries_correct [of sample_memory 1 "[]" 2 "[3, 4]" 5 "[]"] sample_memory_lists
    SwapListEntries_correct [of sample_memory 1 "[2]" 3 "[]" 4 "[5]"] by (auto simp: split_beta)

text \<open>
  The checks behind the assertions.  \<^verbatim>\<open>InternalBaseLibIsListValid\<close> accepts a well-formed
  list exactly when head and nodes together are fewer than the maximum (or there is none), and
  \<^verbatim>\<open>IsNodeInList\<close> then returns and says whether the node is on the ring.
\<close>

theorem IsNodeInList_correct:
  assumes "dlist h head xs"
  shows "(InternalBaseLibIsListValid MaxLength h head \<longleftrightarrow> MaxLength = 0 \<or> length (head # xs) < MaxLength) \<and>
    (InternalBaseLibIsListValid MaxLength h head \<longrightarrow>
      IsNodeInList MaxLength h head n = Some (n \<in> set (head # xs)))"
proof -
  have c: "chain h head xs head" "head \<notin> set xs" using assms by (auto simp: dlist_def)
  have "InternalBaseLibIsListValid MaxLength h head \<longleftrightarrow> MaxLength = 0 \<or> length (head # xs) < MaxLength"
    using IsListValid_walk [OF c, of 0 MaxLength] by (auto simp: InternalBaseLibIsListValid_def)
  then show ?thesis using IsNodeInList_walk [OF c, of MaxLength 0 n] by (auto simp: IsNodeInList_def)
qed

theorem IsNodeInList_correct_witness:
  "InternalBaseLibIsListValid 6 sample_memory 1 \<and> \<not> InternalBaseLibIsListValid 5 sample_memory 1 \<and>
   IsNodeInList 6 sample_memory 1 4 = Some True \<and> IsNodeInList 6 sample_memory 1 9 = Some False"
  using IsNodeInList_correct [OF sample_memory_lists(1), of 6 4] IsNodeInList_correct [OF sample_memory_lists(1), of 6 9]
    IsNodeInList_correct [OF sample_memory_lists(1), of 5 4] by simp

text \<open>
  C35.  A list that is filled at its tail and emptied at its front is a first-in first-out queue,
  and empty again at the end.
\<close>

theorem link_list_fifo:
  fixes h :: list_memory
  assumes "distinct (l # es)" and "i < length es"
  defines "filled \<equiv> fold (\<lambda>e h. snd (InsertTailList l e h)) es (snd (InitializeListHead l h))"
  shows "GetFirstNode l (fold (\<lambda>e h. snd (RemoveEntryList e h)) (take i es) filled) = es ! i \<and>
    IsListEmpty l (fold (\<lambda>e h. snd (RemoveEntryList e h)) es filled)"
  unfolding filled_def using link_list.fifo [OF assms(1,2)] link_list.drained_empty [OF assms(1)] by blast

theorem link_list_fifo_witness:
  "GetFirstNode 1 (fold (\<lambda>e h. snd (RemoveEntryList e h)) (take 2 [2, 3, 4, 5])
     (fold (\<lambda>e h. snd (InsertTailList 1 e h)) [2, 3, 4, 5]
       (snd (InitializeListHead 1 \<lparr>ForwardLink = (\<lambda>_. 0), BackLink = (\<lambda>_. 0)\<rparr>)))) = 4"
  using link_list_fifo [of 1 "[2, 3, 4, 5]" 2] by simp

end
