(* ===== verification/Depex.thy ===== *)
theory Depex
  imports UefiBase
begin

text \<open>
  The dependency expression evaluator of the DXE dispatcher
  (\<^verbatim>\<open>MdeModulePkg/Core/Dxe/Dispatcher/Dependency.c\<close>): a stack machine over the bytes of a
  driver's dependency section.

  The evaluation stack is a block of \<^verbatim>\<open>BOOLEAN\<close>s that grows; the model keeps its cells, its size
  (0 while no block is allocated) and the index of the stack pointer.  The environment holds the
  pool allocator (its answer is the content of the new block), the protocol database and the
  check for the architectural protocols.  The expression is the list of the bytes of the pool
  buffer; reading behind the buffer is the outcome \<open>ReadPastBuffer\<close>.  Evaluation rewrites the
  buffer: the opcode of a GUID that was found becomes \<^verbatim>\<open>EFI_DEP_REPLACE_TRUE\<close>.
\<close>

section \<open>Model\<close>

definition EFI_DEP_BEFORE :: u8 where [efi_const]: "EFI_DEP_BEFORE = 0x00"
definition EFI_DEP_AFTER :: u8 where [efi_const]: "EFI_DEP_AFTER = 0x01"
definition EFI_DEP_PUSH :: u8 where [efi_const]: "EFI_DEP_PUSH = 0x02"
definition EFI_DEP_AND :: u8 where [efi_const]: "EFI_DEP_AND = 0x03"
definition EFI_DEP_OR :: u8 where [efi_const]: "EFI_DEP_OR = 0x04"
definition EFI_DEP_NOT :: u8 where [efi_const]: "EFI_DEP_NOT = 0x05"
definition EFI_DEP_TRUE :: u8 where [efi_const]: "EFI_DEP_TRUE = 0x06"
definition EFI_DEP_FALSE :: u8 where [efi_const]: "EFI_DEP_FALSE = 0x07"
definition EFI_DEP_END :: u8 where [efi_const]: "EFI_DEP_END = 0x08"
definition EFI_DEP_SOR :: u8 where [efi_const]: "EFI_DEP_SOR = 0x09"
definition EFI_DEP_REPLACE_TRUE :: u8 where [efi_const]: "EFI_DEP_REPLACE_TRUE = 0xff"

definition DEPEX_STACK_SIZE_INCREMENT :: nat where
  "DEPEX_STACK_SIZE_INCREMENT = 0x1000"

record depex_stack =
  mDepexEvaluationStack :: "nat \<Rightarrow> bool"
  mDepexEvaluationStackEnd :: nat
  mDepexEvaluationStackPointer :: nat

record depex_env =
  env_AllocatePool :: "nat \<Rightarrow> (nat \<Rightarrow> bool) option"
  env_CoreLocateProtocol :: "EFI_GUID \<Rightarrow> EFI_STATUS"
  env_CoreAllEfiServicesAvailable :: EFI_STATUS

text \<open>The fields of \<^verbatim>\<open>EFI_CORE_DRIVER_ENTRY\<close> that the evaluator uses; \<^verbatim>\<open>Depex\<close> may be NULL.\<close>

record EFI_CORE_DRIVER_ENTRY =
  Depex_field :: "u8 list option"
  DepexSize :: nat
  Before :: bool
  After :: bool
  BeforeAfterGuid :: EFI_GUID
  Dependent :: bool
  Unrequested :: bool

definition GrowDepexStack :: "depex_env \<Rightarrow> depex_stack \<Rightarrow> EFI_STATUS \<times> depex_stack" where
  "GrowDepexStack env s =
     (let Size = DEPEX_STACK_SIZE_INCREMENT + mDepexEvaluationStackEnd s
      in case env_AllocatePool env Size of
           None \<Rightarrow> (EFI_OUT_OF_RESOURCES, s)
         | Some NewStack \<Rightarrow>
             (EFI_SUCCESS,
              s\<lparr>mDepexEvaluationStack := (\<lambda>i. if i < mDepexEvaluationStackEnd s
                   then mDepexEvaluationStack s i else NewStack i),
                mDepexEvaluationStackEnd := Size\<rparr>))"

definition PushBool :: "depex_env \<Rightarrow> bool \<Rightarrow> depex_stack \<Rightarrow> EFI_STATUS \<times> depex_stack" where
  "PushBool env Value s =
     (let (Status, s1) = (if mDepexEvaluationStackPointer s = mDepexEvaluationStackEnd s
                          then GrowDepexStack env s else (EFI_SUCCESS, s))
      in if EFI_ERROR Status then (Status, s1)
         else (EFI_SUCCESS,
               s1\<lparr>mDepexEvaluationStack :=
                    (mDepexEvaluationStack s1)(mDepexEvaluationStackPointer s1 := Value),
                  mDepexEvaluationStackPointer := mDepexEvaluationStackPointer s1 + 1\<rparr>))"

text \<open>\<open>Value\<close> is the content of the out parameter, unchanged on underflow.\<close>

definition PopBool :: "bool \<Rightarrow> depex_stack \<Rightarrow> EFI_STATUS \<times> bool \<times> depex_stack" where
  "PopBool Value s =
     (if mDepexEvaluationStackPointer s = 0 then (EFI_ACCESS_DENIED, Value, s)
      else let p = mDepexEvaluationStackPointer s - 1
        in (EFI_SUCCESS, mDepexEvaluationStack s p, s\<lparr>mDepexEvaluationStackPointer := p\<rparr>))"

definition CorePreProcessDepex :: "EFI_CORE_DRIVER_ENTRY \<Rightarrow> EFI_CORE_DRIVER_ENTRY option" where
  "CorePreProcessDepex DriverEntry =
     (case Depex_field DriverEntry of
        Some (op # rest) \<Rightarrow>
          let d1 = (if op = EFI_DEP_SOR then DriverEntry\<lparr>Unrequested := True\<rparr>
                    else DriverEntry\<lparr>Dependent := True\<rparr>);
              d2 = (if op = EFI_DEP_BEFORE then d1\<lparr>Before := True\<rparr>
                    else if op = EFI_DEP_AFTER then d1\<lparr>After := True\<rparr> else d1)
          in if Before d2 \<or> After d2
             then if length rest < 16 then None
                  else Some (d2\<lparr>BeforeAfterGuid := take 16 rest\<rparr>)
             else Some d2
      | _ \<Rightarrow> None)"

datatype depex_outcome = Schedulable bool | ReadPastBuffer

datatype depex_next = Return depex_outcome | Continue nat

text \<open>
  One pass of the loop, at the index \<open>i\<close> of \<^verbatim>\<open>Iterator\<close>: the outcome, or the index for the
  next pass; with it the buffer, the variables \<^verbatim>\<open>Operator\<close> and \<^verbatim>\<open>Operator2\<close> and the stack.
  \<open>depex_binary\<close> is the code that \<^verbatim>\<open>EFI_DEP_AND\<close> and \<^verbatim>\<open>EFI_DEP_OR\<close> share, \<open>depex_push\<close> a push
  that ends the evaluation when it fails.
\<close>

type_synonym depex_locals = "bool \<times> bool \<times> depex_stack"

definition depex_push :: "depex_env \<Rightarrow> bool \<Rightarrow> u8 list \<Rightarrow> nat \<Rightarrow> depex_locals \<Rightarrow> depex_next \<times> u8 list \<times> depex_locals" where
  "depex_push env Value D i l =
     (case l of (Operator, Operator2, s) \<Rightarrow>
        let (Status, s1) = PushBool env Value s
        in (if EFI_ERROR Status then Return (Schedulable False) else Continue i,
            D, Operator, Operator2, s1))"

definition depex_binary ::
  "depex_env \<Rightarrow> (bool \<Rightarrow> bool \<Rightarrow> bool) \<Rightarrow> u8 list \<Rightarrow> nat \<Rightarrow> depex_locals \<Rightarrow> depex_next \<times> u8 list \<times> depex_locals" where
  "depex_binary env f D i l =
     (case l of (Operator, Operator2, s) \<Rightarrow>
        let (Status1, Operator', s1) = PopBool Operator s
        in if EFI_ERROR Status1 then (Return (Schedulable False), D, Operator', Operator2, s1)
           else let (Status2, Operator2', s2) = PopBool Operator2 s1
             in if EFI_ERROR Status2 then (Return (Schedulable False), D, Operator', Operator2', s2)
                else depex_push env (f Operator' Operator2') D i (Operator', Operator2', s2))"

definition depex_step ::
  "depex_env \<Rightarrow> u8 list \<Rightarrow> nat \<Rightarrow> depex_locals \<Rightarrow> depex_next \<times> u8 list \<times> depex_locals" where
  "depex_step env D i l =
     (let op = D ! i
      in if op = EFI_DEP_BEFORE \<or> op = EFI_DEP_AFTER \<or> op = EFI_DEP_SOR
         then (if i \<noteq> 0 then Return (Schedulable False) else Continue (i + 1), D, l)
         else if op = EFI_DEP_PUSH
         then if length D < i + 17 then (Return ReadPastBuffer, D, l)
              else if EFI_ERROR (env_CoreLocateProtocol env (take 16 (drop (i + 1) D)))
              then depex_push env False D (i + 17) l
              else depex_push env True (D[i := EFI_DEP_REPLACE_TRUE]) (i + 17) l
         else if op = EFI_DEP_AND then depex_binary env (\<and>) D (i + 1) l
         else if op = EFI_DEP_OR then depex_binary env (\<or>) D (i + 1) l
         else if op = EFI_DEP_NOT
         then case l of (Operator, Operator2, s) \<Rightarrow>
                let (Status, Operator', s1) = PopBool Operator s
                in if EFI_ERROR Status then (Return (Schedulable False), D, Operator', Operator2, s1)
                   else depex_push env (\<not> Operator') D (i + 1) (Operator', Operator2, s1)
         else if op = EFI_DEP_TRUE then depex_push env True D (i + 1) l
         else if op = EFI_DEP_FALSE then depex_push env False D (i + 1) l
         else if op = EFI_DEP_END
         then case l of (Operator, Operator2, s) \<Rightarrow>
                let (Status, Operator', s1) = PopBool Operator s
                in (Return (Schedulable (if EFI_ERROR Status then False else Operator')),
                    D, Operator', Operator2, s1)
         else if op = EFI_DEP_REPLACE_TRUE
         then if length D < i + 17 then (Return ReadPastBuffer, D, l)
              else depex_push env True D (i + 17) l
         else (Return (Schedulable False), D, l))"

lemma depex_push_index: "depex_push env Value D i l = (Continue i', D', l') \<Longrightarrow> i' = i"
  by (auto simp: depex_push_def split: prod.splits if_splits)

lemma depex_binary_index: "depex_binary env f D i l = (Continue i', D', l') \<Longrightarrow> i' = i"
  by (auto simp: depex_binary_def split: prod.splits if_splits dest: depex_push_index)

lemma depex_step_index: "depex_step env D i l = (Continue i', D', l') \<Longrightarrow> i < i'"
  by (auto simp: depex_step_def Let_def split: prod.splits if_splits
      dest!: depex_push_index depex_binary_index)

function CoreIsSchedulable_loop ::
  "depex_env \<Rightarrow> nat \<Rightarrow> u8 list \<Rightarrow> nat \<Rightarrow> depex_locals \<Rightarrow> depex_outcome \<times> u8 list \<times> depex_stack" where
  "CoreIsSchedulable_loop env Size D i l =
     (if i \<ge> Size then (Schedulable False, D, snd (snd l))
      else if i \<ge> length D then (ReadPastBuffer, D, snd (snd l))
      else case depex_step env D i l of
             (Return r, D', l') \<Rightarrow> (r, D', snd (snd l'))
           | (Continue i', D', l') \<Rightarrow> CoreIsSchedulable_loop env Size D' i' l')"
  by pat_completeness auto
termination
  by (relation "measure (\<lambda>(env, Size, D, i, l). Size - i)") (auto dest!: depex_step_index [OF sym])

declare CoreIsSchedulable_loop.simps [simp del]

definition CoreIsSchedulable ::
  "depex_env \<Rightarrow> EFI_CORE_DRIVER_ENTRY \<Rightarrow> depex_stack \<Rightarrow>
     depex_outcome \<times> EFI_CORE_DRIVER_ENTRY \<times> depex_stack" where
  "CoreIsSchedulable env DriverEntry s =
     (if After DriverEntry \<or> Before DriverEntry then (Schedulable False, DriverEntry, s)
      else case Depex_field DriverEntry of
             None \<Rightarrow>
               (Schedulable (\<not> EFI_ERROR (env_CoreAllEfiServicesAvailable env)), DriverEntry, s)
           | Some D \<Rightarrow>
               (let (r, D', s') = CoreIsSchedulable_loop env (DepexSize DriverEntry) D 0
                      (False, False, s\<lparr>mDepexEvaluationStackPointer := 0\<rparr>)
                in (r, DriverEntry\<lparr>Depex_field := Some D'\<rparr>, s')))"

section \<open>The evaluation stack\<close>

definition ds_ok :: "depex_stack \<Rightarrow> bool" where
  "ds_ok s \<longleftrightarrow> mDepexEvaluationStackPointer s \<le> mDepexEvaluationStackEnd s"

definition ds_list :: "depex_stack \<Rightarrow> bool list" where
  "ds_list s = map (mDepexEvaluationStack s) [0..<mDepexEvaluationStackPointer s]"

text \<open>
  The stack as the evaluator uses it: its content as a list, pushed and popped at the end.
\<close>

locale bool_stack =
  fixes content :: "'s \<Rightarrow> bool list" and ok :: "'s \<Rightarrow> bool"
    and push :: "bool \<Rightarrow> 's \<Rightarrow> EFI_STATUS \<times> 's" and pop :: "bool \<Rightarrow> 's \<Rightarrow> EFI_STATUS \<times> bool \<times> 's"
  assumes push_content: "ok s \<Longrightarrow> push v s = (st, s') \<Longrightarrow> \<not> EFI_ERROR st \<Longrightarrow> ok s' \<and> content s' = content s @ [v]"
    and push_refused: "ok s \<Longrightarrow> push v s = (st, s') \<Longrightarrow> EFI_ERROR st \<Longrightarrow> s' = s"
    and pop_content: "ok s \<Longrightarrow> content s = xs @ [v] \<Longrightarrow>
      \<exists>s'. pop d s = (EFI_SUCCESS, v, s') \<and> ok s' \<and> content s' = xs"
    and pop_empty: "ok s \<Longrightarrow> content s = [] \<Longrightarrow> pop d s = (EFI_ACCESS_DENIED, d, s)"
begin

lemma push_pop:
  assumes "ok s" and "push v s = (st, s1)" and "\<not> EFI_ERROR st"
  shows "\<exists>s2. pop d s1 = (EFI_SUCCESS, v, s2) \<and> ok s2 \<and> content s2 = content s"
  using push_content [OF assms] pop_content by blast

end

lemma ds_list_snoc: "ds_list s = xs @ [v] \<Longrightarrow>
    mDepexEvaluationStackPointer s = Suc (length xs) \<and> mDepexEvaluationStack s (length xs) = v \<and>
    map (mDepexEvaluationStack s) [0..<length xs] = xs"
proof -
  assume a: "ds_list s = xs @ [v]"
  then have "length (ds_list s) = Suc (length xs)" by simp
  then have p: "mDepexEvaluationStackPointer s = Suc (length xs)" by (simp add: ds_list_def)
  with a show ?thesis by (simp add: ds_list_def)
qed

interpretation depex: bool_stack ds_list ds_ok "PushBool env" PopBool for env
proof unfold_locales
  fix s s' :: depex_stack and v d :: bool and st xs
  assume ok: "ds_ok s"
  show "PushBool env v s = (st, s') \<Longrightarrow> \<not> EFI_ERROR st \<Longrightarrow> ds_ok s' \<and> ds_list s' = ds_list s @ [v]"
    using ok by (auto simp: PushBool_def GrowDepexStack_def ds_ok_def ds_list_def DEPEX_STACK_SIZE_INCREMENT_def
        Let_def split: if_splits option.splits)
  show "PushBool env v s = (st, s') \<Longrightarrow> EFI_ERROR st \<Longrightarrow> s' = s"
    by (auto simp: PushBool_def GrowDepexStack_def Let_def split: if_splits option.splits)
  show "\<exists>s'. PopBool d s = (EFI_SUCCESS, v, s') \<and> ds_ok s' \<and> ds_list s' = xs" if "ds_list s = xs @ [v]"
    using ok ds_list_snoc [OF that] by (simp add: PopBool_def ds_ok_def ds_list_def Let_def)
  show "ds_list s = [] \<Longrightarrow> PopBool d s = (EFI_ACCESS_DENIED, d, s)"
    by (simp add: PopBool_def ds_list_def)
qed

definition depex_alloc_ok :: "depex_env \<Rightarrow> bool" where
  "depex_alloc_ok env \<longleftrightarrow> (\<forall>n. env_AllocatePool env n \<noteq> None)"

lemma PushBool_ok:
  assumes "depex_alloc_ok env" and "ds_ok s"
  obtains s' where "PushBool env v s = (EFI_SUCCESS, s')" "ds_ok s'" "ds_list s' = ds_list s @ [v]"
proof -
  obtain st s' where p: "PushBool env v s = (st, s')" by fastforce
  have "st = EFI_SUCCESS"
    using p assms(1) [unfolded depex_alloc_ok_def, rule_format,
        of "DEPEX_STACK_SIZE_INCREMENT + mDepexEvaluationStackEnd s"]
    by (auto simp: PushBool_def GrowDepexStack_def Let_def split: if_splits)
  then show ?thesis using that p depex.push_content [OF assms(2) p] by simp
qed

section \<open>Expressions\<close>

text \<open>
  The expressions a dependency section encodes in postfix form.  A GUID that a former evaluation
  has found carries the flag \<open>True\<close>.
\<close>

datatype depex_expr =
    Installed bool EFI_GUID
  | DTrue
  | DFalse
  | DNot depex_expr
  | DAnd depex_expr depex_expr
  | DOr depex_expr depex_expr

fun depex_code :: "depex_expr \<Rightarrow> u8 list" where
  "depex_code (Installed r g) = (if r then EFI_DEP_REPLACE_TRUE else EFI_DEP_PUSH) # g"
| "depex_code DTrue = [EFI_DEP_TRUE]"
| "depex_code DFalse = [EFI_DEP_FALSE]"
| "depex_code (DNot e) = depex_code e @ [EFI_DEP_NOT]"
| "depex_code (DAnd e1 e2) = depex_code e1 @ depex_code e2 @ [EFI_DEP_AND]"
| "depex_code (DOr e1 e2) = depex_code e1 @ depex_code e2 @ [EFI_DEP_OR]"

fun depex_wf :: "depex_expr \<Rightarrow> bool" where
  "depex_wf (Installed r g) \<longleftrightarrow> length g = 16"
| "depex_wf (DNot e) \<longleftrightarrow> depex_wf e"
| "depex_wf (DAnd e1 e2) \<longleftrightarrow> depex_wf e1 \<and> depex_wf e2"
| "depex_wf (DOr e1 e2) \<longleftrightarrow> depex_wf e1 \<and> depex_wf e2"
| "depex_wf _ \<longleftrightarrow> True"

definition depex_found :: "depex_env \<Rightarrow> EFI_GUID \<Rightarrow> bool" where
  "depex_found env g \<longleftrightarrow> \<not> EFI_ERROR (env_CoreLocateProtocol env g)"

fun depex_eval :: "depex_env \<Rightarrow> depex_expr \<Rightarrow> bool" where
  "depex_eval env (Installed r g) \<longleftrightarrow> r \<or> depex_found env g"
| "depex_eval env DTrue \<longleftrightarrow> True"
| "depex_eval env DFalse \<longleftrightarrow> False"
| "depex_eval env (DNot e) \<longleftrightarrow> \<not> depex_eval env e"
| "depex_eval env (DAnd e1 e2) \<longleftrightarrow> depex_eval env e1 \<and> depex_eval env e2"
| "depex_eval env (DOr e1 e2) \<longleftrightarrow> depex_eval env e1 \<or> depex_eval env e2"

fun depex_latch :: "depex_env \<Rightarrow> depex_expr \<Rightarrow> depex_expr" where
  "depex_latch env (Installed r g) = Installed (r \<or> depex_found env g) g"
| "depex_latch env (DNot e) = DNot (depex_latch env e)"
| "depex_latch env (DAnd e1 e2) = DAnd (depex_latch env e1) (depex_latch env e2)"
| "depex_latch env (DOr e1 e2) = DOr (depex_latch env e1) (depex_latch env e2)"
| "depex_latch env e = e"

lemma length_depex_latch [simp]: "length (depex_code (depex_latch env e)) = length (depex_code e)"
  by (induction e) auto

lemma depex_wf_latch [simp]: "depex_wf (depex_latch env e) \<longleftrightarrow> depex_wf e"
  by (induction e) auto

section \<open>Running the code of an expression\<close>

lemma loop_continue:
  "i < Size \<Longrightarrow> i < length D \<Longrightarrow> depex_step env D i l = (Continue i', D', l') \<Longrightarrow>
     CoreIsSchedulable_loop env Size D i l = CoreIsSchedulable_loop env Size D' i' l'"
  by (subst CoreIsSchedulable_loop.simps) simp

text \<open>\<open>depex_runs env Size D i s D' i' xs\<close>: the loop goes on at \<open>i'\<close> with the stack content \<open>xs\<close>.\<close>

definition depex_runs ::
  "depex_env \<Rightarrow> nat \<Rightarrow> u8 list \<Rightarrow> nat \<Rightarrow> bool list \<Rightarrow> u8 list \<Rightarrow> nat \<Rightarrow> bool list \<Rightarrow> bool" where
  "depex_runs env Size D i xs D' i' xs' \<longleftrightarrow>
     (\<forall>a b s. ds_ok s \<and> ds_list s = xs \<longrightarrow> (\<exists>a' b' s'. ds_ok s' \<and> ds_list s' = xs' \<and>
        CoreIsSchedulable_loop env Size D i (a, b, s) = CoreIsSchedulable_loop env Size D' i' (a', b', s')))"

lemma depex_runs_trans:
  "depex_runs env Size D i xs D1 i1 xs1 \<Longrightarrow> depex_runs env Size D1 i1 xs1 D2 i2 xs2 \<Longrightarrow>
     depex_runs env Size D i xs D2 i2 xs2"
  unfolding depex_runs_def by metis

lemma depex_push_runs:
  assumes alloc: "depex_alloc_ok env" and i: "i < Size" "i < length D"
    and step: "\<And>l. depex_step env D i l = depex_push env v D' i' l"
  shows "depex_runs env Size D i xs D' i' (xs @ [v])"
  unfolding depex_runs_def
proof clarify
  fix a b s assume ok: "ds_ok s" "xs = ds_list s"
  obtain s' where s': "PushBool env v s = (EFI_SUCCESS, s')" "ds_ok s'" "ds_list s' = ds_list s @ [v]"
    using PushBool_ok [OF alloc ok(1)] .
  then have "depex_step env D i (a, b, s) = (Continue i', D', a, b, s')" by (simp add: step depex_push_def)
  from loop_continue [OF i this] s' ok show "\<exists>a' b' s'. ds_ok s' \<and> ds_list s' = ds_list s @ [v] \<and>
      CoreIsSchedulable_loop env Size D i (a, b, s) = CoreIsSchedulable_loop env Size D' i' (a', b', s')" by blast
qed

lemma depex_binary_runs:
  assumes alloc: "depex_alloc_ok env" and i: "i < Size" "i < length D"
    and step: "\<And>l. depex_step env D i l = depex_binary env f D i' l"
  shows "depex_runs env Size D i (xs @ [x, y]) D i' (xs @ [f y x])"
  unfolding depex_runs_def
proof clarify
  fix a b s assume ok: "ds_ok s" and l: "ds_list s = xs @ [x, y]"
  obtain s1 where s1: "PopBool a s = (EFI_SUCCESS, y, s1)" "ds_ok s1" "ds_list s1 = xs @ [x]"
    using depex.pop_content [OF ok, of "xs @ [x]" y a] l by auto
  obtain s2 where s2: "PopBool b s1 = (EFI_SUCCESS, x, s2)" "ds_ok s2" "ds_list s2 = xs"
    using depex.pop_content [OF s1(2,3), of b] by auto
  obtain s3 where s3: "PushBool env (f y x) s2 = (EFI_SUCCESS, s3)" "ds_ok s3" "ds_list s3 = xs @ [f y x]"
    using PushBool_ok [OF alloc s2(2)] s2(3) by metis
  have "depex_step env D i (a, b, s) = (Continue i', D, y, x, s3)"
    using s1 s2 s3 by (simp add: step depex_binary_def depex_push_def)
  from loop_continue [OF i this] s3 show "\<exists>a' b' s'. ds_ok s' \<and> ds_list s' = xs @ [f y x] \<and>
      CoreIsSchedulable_loop env Size D i (a, b, s) = CoreIsSchedulable_loop env Size D i' (a', b', s')" by blast
qed

lemma depex_not_runs:
  assumes alloc: "depex_alloc_ok env" and i: "i < Size" "i < length D" and op: "D ! i = EFI_DEP_NOT"
  shows "depex_runs env Size D i (xs @ [x]) D (i + 1) (xs @ [\<not> x])"
  unfolding depex_runs_def
proof clarify
  fix a b s assume ok: "ds_ok s" and l: "ds_list s = xs @ [x]"
  obtain s1 where s1: "PopBool a s = (EFI_SUCCESS, x, s1)" "ds_ok s1" "ds_list s1 = xs"
    using depex.pop_content [OF ok l, of a] by auto
  obtain s2 where s2: "PushBool env (\<not> x) s1 = (EFI_SUCCESS, s2)" "ds_ok s2" "ds_list s2 = xs @ [\<not> x]"
    using PushBool_ok [OF alloc s1(2)] s1(3) by metis
  have "depex_step env D i (a, b, s) = (Continue (i + 1), D, x, b, s2)"
    using s1 s2 op by (simp add: depex_step_def depex_push_def efi_const)
  from loop_continue [OF i this] s2 show "\<exists>a' b' s'. ds_ok s' \<and> ds_list s' = xs @ [\<not> x] \<and>
      CoreIsSchedulable_loop env Size D i (a, b, s) = CoreIsSchedulable_loop env Size D (i + 1) (a', b', s')" by blast
qed

lemma depex_expr_runs:
  assumes alloc: "depex_alloc_ok env" and "depex_wf e" and "length P + length (depex_code e) \<le> Size"
  shows "depex_runs env Size (P @ depex_code e @ R) (length P) xs
    (P @ depex_code (depex_latch env e) @ R) (length P + length (depex_code e)) (xs @ [depex_eval env e])"
  using assms(2,3)
proof (induction e arbitrary: P R xs)
  case (Installed r g)
  let ?D = "P @ depex_code (Installed r g) @ R"
  have g: "take 16 (drop (length P + 1) ?D) = g" "length P + 17 \<le> length ?D" using Installed.prems by auto
  have "depex_step env ?D (length P) l = depex_push env (depex_eval env (Installed r g))
      (P @ depex_code (depex_latch env (Installed r g)) @ R) (length P + 17) l" for l
    using g by (auto simp: depex_step_def depex_found_def efi_const nth_append list_update_append Let_def)
  from depex_push_runs [OF alloc _ _ this] Installed.prems show ?case by simp
next
  case DTrue
  have "depex_step env (P @ EFI_DEP_TRUE # R) (length P) l =
      depex_push env True (P @ EFI_DEP_TRUE # R) (length P + 1) l" for l
    by (simp add: depex_step_def efi_const nth_append)
  from depex_push_runs [OF alloc _ _ this] DTrue show ?case by simp
next
  case DFalse
  have "depex_step env (P @ EFI_DEP_FALSE # R) (length P) l =
      depex_push env False (P @ EFI_DEP_FALSE # R) (length P + 1) l" for l
    by (simp add: depex_step_def efi_const nth_append)
  from depex_push_runs [OF alloc _ _ this] DFalse show ?case by simp
next
  case (DNot e)
  let ?D = "P @ depex_code (depex_latch env e) @ EFI_DEP_NOT # R"
  have "depex_runs env Size ?D (length P + length (depex_code e)) (xs @ [depex_eval env e])
      ?D (length P + length (depex_code e) + 1) (xs @ [\<not> depex_eval env e])"
    using DNot.prems by (intro depex_not_runs [OF alloc]) (auto simp: nth_append)
  from depex_runs_trans [OF DNot.IH [of P "EFI_DEP_NOT # R" xs] this] DNot.prems show ?case by simp
next
  case (DAnd e1 e2)
  let ?D = "P @ depex_code (depex_latch env e1) @ depex_code (depex_latch env e2) @ EFI_DEP_AND # R"
  let ?i = "length P + length (depex_code e1) + length (depex_code e2)"
  have op: "?D ! ?i = EFI_DEP_AND" by (simp add: nth_append)
  then have "depex_step env ?D ?i l = depex_binary env (\<and>) ?D (?i + 1) l" for l
    unfolding depex_step_def op Let_def by (simp add: efi_const)
  then have "depex_runs env Size ?D ?i (xs @ [depex_eval env e1, depex_eval env e2]) ?D (?i + 1)
      (xs @ [depex_eval env e2 \<and> depex_eval env e1])"
    using DAnd.prems by (intro depex_binary_runs [OF alloc]) auto
  from depex_runs_trans [OF depex_runs_trans [OF DAnd.IH(1) [of P "depex_code e2 @ EFI_DEP_AND # R" xs]
      DAnd.IH(2) [of "P @ depex_code (depex_latch env e1)" "EFI_DEP_AND # R" "xs @ [depex_eval env e1]",
        simplified]] this] DAnd.prems
  show ?case by (simp add: conj_commute add.assoc)
next
  case (DOr e1 e2)
  let ?D = "P @ depex_code (depex_latch env e1) @ depex_code (depex_latch env e2) @ EFI_DEP_OR # R"
  let ?i = "length P + length (depex_code e1) + length (depex_code e2)"
  have op: "?D ! ?i = EFI_DEP_OR" by (simp add: nth_append)
  then have "depex_step env ?D ?i l = depex_binary env (\<or>) ?D (?i + 1) l" for l
    unfolding depex_step_def op Let_def by (simp add: efi_const)
  then have "depex_runs env Size ?D ?i (xs @ [depex_eval env e1, depex_eval env e2]) ?D (?i + 1)
      (xs @ [depex_eval env e2 \<or> depex_eval env e1])"
    using DOr.prems by (intro depex_binary_runs [OF alloc]) auto
  from depex_runs_trans [OF depex_runs_trans [OF DOr.IH(1) [of P "depex_code e2 @ EFI_DEP_OR # R" xs]
      DOr.IH(2) [of "P @ depex_code (depex_latch env e1)" "EFI_DEP_OR # R" "xs @ [depex_eval env e1]",
        simplified]] this] DOr.prems
  show ?case by (simp add: disj_commute add.assoc)
qed

text \<open>A dependency section: the expression behind an optional \<^verbatim>\<open>SOR\<close>, and the end.\<close>

definition depex_section :: "bool \<Rightarrow> depex_expr \<Rightarrow> u8 list \<Rightarrow> u8 list" where
  "depex_section sor e rest = (if sor then [EFI_DEP_SOR] else []) @ depex_code e @ EFI_DEP_END # rest"

definition depex_driver :: "bool \<Rightarrow> depex_expr \<Rightarrow> u8 list \<Rightarrow> EFI_CORE_DRIVER_ENTRY \<Rightarrow> bool" where
  "depex_driver sor e rest d \<longleftrightarrow> \<not> Before d \<and> \<not> After d \<and> depex_wf e \<and>
     Depex_field d = Some (depex_section sor e rest) \<and> DepexSize d = length (depex_section sor e rest)"

lemma depex_section_loop:
  assumes alloc: "depex_alloc_ok env" and wf: "depex_wf e" and ok: "ds_ok s" "ds_list s = []"
    and Size: "Size = length (depex_section sor e rest)"
  shows "\<exists>s'. CoreIsSchedulable_loop env Size (depex_section sor e rest) 0 (a, b, s) =
    (Schedulable (depex_eval env e), depex_section sor (depex_latch env e) rest, s') \<and> ds_ok s'"
proof -
  let ?P = "if sor then [EFI_DEP_SOR] else []" and ?e = "depex_latch env e"
  have "CoreIsSchedulable_loop env Size (depex_section sor e rest) 0 (a, b, s) =
      CoreIsSchedulable_loop env Size (depex_section sor e rest) (length ?P) (a, b, s)"
    using Size by (cases sor) (auto simp: depex_section_def depex_step_def intro!: loop_continue)
  moreover have "depex_runs env Size (?P @ depex_code e @ EFI_DEP_END # rest) (length ?P) []
      (?P @ depex_code ?e @ EFI_DEP_END # rest) (length ?P + length (depex_code e)) ([] @ [depex_eval env e])"
    by (rule depex_expr_runs [OF alloc wf]) (simp add: Size depex_section_def)
  then obtain a' b' s1 where s1: "ds_ok s1" "ds_list s1 = [] @ [depex_eval env e]"
    "CoreIsSchedulable_loop env Size (?P @ depex_code e @ EFI_DEP_END # rest) (length ?P) (a, b, s) =
     CoreIsSchedulable_loop env Size (?P @ depex_code ?e @ EFI_DEP_END # rest) (length ?P + length (depex_code e)) (a', b', s1)"
    using ok unfolding depex_runs_def by blast
  obtain s2 where s2: "PopBool a' s1 = (EFI_SUCCESS, depex_eval env e, s2)" "ds_ok s2"
    using depex.pop_content [OF s1(1,2)] by blast
  have op: "(?P @ depex_code ?e @ EFI_DEP_END # rest) ! (length ?P + length (depex_code e)) = EFI_DEP_END"
    by (simp add: nth_append)
  have "depex_step env (?P @ depex_code ?e @ EFI_DEP_END # rest) (length ?P + length (depex_code e)) (a', b', s1) =
      (Return (Schedulable (depex_eval env e)), ?P @ depex_code ?e @ EFI_DEP_END # rest, depex_eval env e, b', s2)"
    unfolding depex_step_def op Let_def using s2(1) by (simp add: efi_const)
  then have "CoreIsSchedulable_loop env Size (?P @ depex_code ?e @ EFI_DEP_END # rest)
      (length ?P + length (depex_code e)) (a', b', s1) =
      (Schedulable (depex_eval env e), ?P @ depex_code ?e @ EFI_DEP_END # rest, s2)"
    using Size by (subst CoreIsSchedulable_loop.simps) (simp add: depex_section_def)
  ultimately show ?thesis using s1(3) s2(2) by (simp add: depex_section_def)
qed

lemma CoreIsSchedulable_section:
  assumes "depex_alloc_ok env" and d: "depex_driver sor e rest d"
  obtains s' where "CoreIsSchedulable env d s =
    (Schedulable (depex_eval env e), d\<lparr>Depex_field := Some (depex_section sor (depex_latch env e) rest)\<rparr>, s')"
proof -
  have "ds_ok (s\<lparr>mDepexEvaluationStackPointer := 0\<rparr>)" "ds_list (s\<lparr>mDepexEvaluationStackPointer := 0\<rparr>) = []"
    by (simp_all add: ds_ok_def ds_list_def)
  moreover have "depex_wf e" using d by (simp add: depex_driver_def)
  ultimately obtain s' where "CoreIsSchedulable_loop env (DepexSize d) (depex_section sor e rest) 0
      (False, False, s\<lparr>mDepexEvaluationStackPointer := 0\<rparr>) =
      (Schedulable (depex_eval env e), depex_section sor (depex_latch env e) rest, s')"
    using depex_section_loop [OF assms(1)] d unfolding depex_driver_def by blast
  then show ?thesis using that d by (simp add: CoreIsSchedulable_def depex_driver_def)
qed

lemma depex_driver_latch:
  "depex_driver sor e rest d \<Longrightarrow>
     depex_driver sor (depex_latch env e) rest (d\<lparr>Depex_field := Some (depex_section sor (depex_latch env e) rest)\<rparr>)"
  by (simp add: depex_driver_def depex_section_def)

section \<open>Properties\<close>

text \<open>
  C36.  On the encoding of a dependency expression, behind a leading \<^verbatim>\<open>SOR\<close> or not, the
  evaluator returns the value of the expression for the protocols that are installed, whatever
  an earlier malformed expression left on the stack, and marks the GUIDs it has found.
\<close>

theorem CoreIsSchedulable_evaluates:
  assumes "depex_alloc_ok env" and "depex_driver sor e rest d"
  shows "\<exists>s'. CoreIsSchedulable env d s =
    (Schedulable (depex_eval env e), d\<lparr>Depex_field := Some (depex_section sor (depex_latch env e) rest)\<rparr>, s')"
  by (rule CoreIsSchedulable_section [OF assms]) blast

definition sample_depex_env :: depex_env where
  "sample_depex_env = \<lparr>env_AllocatePool = (\<lambda>_. Some (\<lambda>_. False)),
     env_CoreLocateProtocol = (\<lambda>g. if hd g = 0xAA then EFI_SUCCESS else EFI_NOT_FOUND),
     env_CoreAllEfiServicesAvailable = EFI_NOT_FOUND\<rparr>"

definition sample_expr :: depex_expr where
  "sample_expr = DAnd (Installed False (replicate 16 0xAA)) (DNot (Installed False (replicate 16 0xBB)))"

definition sample_driver :: EFI_CORE_DRIVER_ENTRY where
  "sample_driver = \<lparr>Depex_field = Some (depex_section True sample_expr []),
     DepexSize = length (depex_section True sample_expr []), Before = False, After = False,
     BeforeAfterGuid = [], Dependent = False, Unrequested = True\<rparr>"

definition sample_stack :: depex_stack where
  "sample_stack = \<lparr>mDepexEvaluationStack = (\<lambda>_. False), mDepexEvaluationStackEnd = 0, mDepexEvaluationStackPointer = 0\<rparr>"

lemma sample_driver_ok: "depex_alloc_ok sample_depex_env" "depex_driver True sample_expr [] sample_driver"
  by (simp_all add: depex_alloc_ok_def sample_depex_env_def depex_driver_def sample_driver_def sample_expr_def)

lemma sample_expr_eval: "depex_eval sample_depex_env sample_expr"
  by (simp add: sample_expr_def sample_depex_env_def depex_found_def)

theorem CoreIsSchedulable_evaluates_witness:
  "fst (CoreIsSchedulable sample_depex_env sample_driver sample_stack) = Schedulable True"
  using CoreIsSchedulable_evaluates [OF sample_driver_ok, of sample_stack] sample_expr_eval by auto

fun depex_positive :: "depex_expr \<Rightarrow> bool" where
  "depex_positive (DNot e) \<longleftrightarrow> False"
| "depex_positive (DAnd e1 e2) \<longleftrightarrow> depex_positive e1 \<and> depex_positive e2"
| "depex_positive (DOr e1 e2) \<longleftrightarrow> depex_positive e1 \<and> depex_positive e2"
| "depex_positive _ \<longleftrightarrow> True"

lemma depex_latch_positive:
  "depex_positive e \<Longrightarrow> depex_eval env e \<Longrightarrow> depex_eval env' (depex_latch env e)"
  by (induction e) auto

text \<open>
  A found protocol counts as found for good: a driver with an expression without negation
  that was schedulable once stays schedulable, even when protocols have disappeared since.
\<close>

theorem CoreIsSchedulable_latches:
  assumes "depex_alloc_ok env" "depex_alloc_ok env'" and "depex_driver sor e rest d" and "depex_positive e"
    and "CoreIsSchedulable env d s = (Schedulable True, d1, s1)"
  shows "fst (CoreIsSchedulable env' d1 s2) = Schedulable True"
proof -
  have e: "depex_eval env e" and d1: "d1 = d\<lparr>Depex_field := Some (depex_section sor (depex_latch env e) rest)\<rparr>"
    using CoreIsSchedulable_section [OF assms(1,3), of s] assms(5) by auto
  have "depex_driver sor (depex_latch env e) rest d1" unfolding d1 by (rule depex_driver_latch [OF assms(3)])
  from CoreIsSchedulable_section [OF assms(2) this, of s2] depex_latch_positive [OF assms(4) e, of env']
  show ?thesis by (metis fst_conv)
qed

definition sample_positive_driver :: EFI_CORE_DRIVER_ENTRY where
  "sample_positive_driver = sample_driver\<lparr>
     Depex_field := Some (depex_section False (Installed False (replicate 16 0xAA)) []), DepexSize := 18\<rparr>"

theorem CoreIsSchedulable_latches_witness:
  "fst (CoreIsSchedulable sample_depex_env sample_positive_driver sample_stack) = Schedulable True \<and>
   fst (CoreIsSchedulable (sample_depex_env\<lparr>env_CoreLocateProtocol := (\<lambda>_. EFI_NOT_FOUND)\<rparr>)
     (fst (snd (CoreIsSchedulable sample_depex_env sample_positive_driver sample_stack))) sample_stack) = Schedulable True"
proof -
  have d: "depex_driver False (Installed False (replicate 16 0xAA)) [] sample_positive_driver"
    by (simp add: depex_driver_def sample_positive_driver_def sample_driver_def depex_section_def)
  have a: "depex_alloc_ok (sample_depex_env\<lparr>env_CoreLocateProtocol := (\<lambda>_. EFI_NOT_FOUND)\<rparr>)"
    by (simp add: depex_alloc_ok_def sample_depex_env_def)
  obtain r d1 s1 where r: "CoreIsSchedulable sample_depex_env sample_positive_driver sample_stack = (r, d1, s1)"
    by (cases "CoreIsSchedulable sample_depex_env sample_positive_driver sample_stack") auto
  moreover have "r = Schedulable True"
    using CoreIsSchedulable_section [OF sample_driver_ok(1) d, of sample_stack] r
    by (auto simp: sample_depex_env_def depex_found_def)
  ultimately show ?thesis
    using CoreIsSchedulable_latches [OF sample_driver_ok(1) a d, of sample_stack d1 s1 sample_stack] by simp
qed

lemma depex_push_buffer: "depex_push env v D i l = (nxt, D', l') \<Longrightarrow> D' = D \<and> nxt \<noteq> Return ReadPastBuffer"
  by (auto simp: depex_push_def split: prod.splits if_splits)

lemma depex_step_buffer:
  assumes "depex_step env D i l = (nxt, D', l')" and "i + 17 \<le> length D"
  shows "length D' = length D \<and> nxt \<noteq> Return ReadPastBuffer"
proof -
  have "\<And>f j. depex_binary env f D j l = (nxt, D', l') \<Longrightarrow> D' = D \<and> nxt \<noteq> Return ReadPastBuffer"
    by (auto simp: depex_binary_def split: prod.splits if_splits dest: depex_push_buffer)
  then show ?thesis
    using assms by (auto simp: depex_step_def Let_def split: if_splits prod.splits dest!: depex_push_buffer)
qed

text \<open>
  C37.  Whatever the bytes are, the evaluator reads nothing behind the buffer when the buffer has
  room for one more GUID behind \<^verbatim>\<open>DepexSize\<close>; and it never changes the size of the buffer.
\<close>

theorem CoreIsSchedulable_in_bounds:
  assumes "Depex_field d = Some D" and "DepexSize d + 16 \<le> length D"
  shows "fst (CoreIsSchedulable env d s) \<noteq> ReadPastBuffer \<and>
    map_option length (Depex_field (fst (snd (CoreIsSchedulable env d s)))) = Some (length D)"
proof -
  have loop: "fst (CoreIsSchedulable_loop env Size D0 i l) \<noteq> ReadPastBuffer \<and>
      length (fst (snd (CoreIsSchedulable_loop env Size D0 i l))) = length D0" if "Size + 16 \<le> length D0" for Size D0 i l
    using that
  proof (induction env Size D0 i l rule: CoreIsSchedulable_loop.induct)
    case (1 env Size D0 i l)
    show ?case
    proof (cases "i < Size")
      case True
      obtain nxt D' l' where st: "depex_step env D0 i l = (nxt, D', l')" by (cases "depex_step env D0 i l") auto
      note b = depex_step_buffer [OF st]
      show ?thesis
      proof (cases nxt)
        case (Return r)
        then show ?thesis using True 1(2) st b by (subst (1 2) CoreIsSchedulable_loop.simps) auto
      next
        case (Continue i')
        then have "CoreIsSchedulable_loop env Size D0 i l = CoreIsSchedulable_loop env Size D' i' l'"
          using True 1(2) st by (intro loop_continue) auto
        then show ?thesis using 1(1) [OF _ _ st [symmetric]] True 1(2) st b Continue by simp
      qed
    qed (subst (1 2) CoreIsSchedulable_loop.simps, simp)
  qed
  show ?thesis
    using loop [OF assms(2), of 0 "(False, False, s\<lparr>mDepexEvaluationStackPointer := 0\<rparr>)"] assms(1)
    by (auto simp: CoreIsSchedulable_def split: prod.split)
qed

definition garbage_driver :: "u8 list \<Rightarrow> nat \<Rightarrow> EFI_CORE_DRIVER_ENTRY" where
  "garbage_driver D n = sample_driver\<lparr>Depex_field := Some D, DepexSize := n\<rparr>"

theorem CoreIsSchedulable_in_bounds_witness:
  "fst (CoreIsSchedulable sample_depex_env (garbage_driver (EFI_DEP_PUSH # replicate 16 0) 1) sample_stack) \<noteq> ReadPastBuffer"
  using CoreIsSchedulable_in_bounds [of "garbage_driver (EFI_DEP_PUSH # replicate 16 0) 1" "EFI_DEP_PUSH # replicate 16 0"
      sample_depex_env sample_stack]
  by (simp add: garbage_driver_def)

text \<open>
  Without that room it does: the check at the top of the loop is for the opcode alone, and
  a section that ends in \<^verbatim>\<open>EFI_DEP_PUSH\<close> makes \<^verbatim>\<open>CopyMem\<close> read the GUID from behind the buffer.
\<close>

theorem CoreIsSchedulable_truncated_push:
  "fst (CoreIsSchedulable sample_depex_env (garbage_driver [EFI_DEP_TRUE, EFI_DEP_PUSH] 2) sample_stack) = ReadPastBuffer"
  by code_simp

text \<open>
  The evaluation stack: a value that could be pushed is the one the next pop returns, the
  values below it survive the growing of the block, the pointer stays inside the block, and a
  push that fails for lack of memory changes nothing.
\<close>

theorem PushBool_PopBool:
  assumes "ds_ok s" and "PushBool env v s = (Status, s1)"
  shows "if EFI_ERROR Status then s1 = s
    else ds_ok s1 \<and> ds_list s1 = ds_list s @ [v] \<and>
      (\<exists>s2. PopBool d s1 = (EFI_SUCCESS, v, s2) \<and> ds_ok s2 \<and> ds_list s2 = ds_list s)"
  using depex.push_refused [OF assms] depex.push_content [OF assms] depex.push_pop [OF assms] by simp

theorem PushBool_PopBool_witness:
  "\<exists>s1. PushBool sample_depex_env True sample_stack = (EFI_SUCCESS, s1) \<and> ds_list s1 = [True]"
proof -
  have ok: "ds_ok sample_stack" "ds_list sample_stack = []" by (simp_all add: ds_ok_def sample_stack_def ds_list_def)
  obtain s1 where "PushBool sample_depex_env True sample_stack = (EFI_SUCCESS, s1)"
    using PushBool_ok [OF sample_driver_ok(1) ok(1)] by metis
  with PushBool_PopBool [OF ok(1) this, of False] ok(2) show ?thesis by simp
qed

text \<open>
  Preprocessing: a section that begins with \<^verbatim>\<open>SOR\<close> makes the driver unrequested, any other
  makes it dependent, and the GUID behind \<^verbatim>\<open>BEFORE\<close> or \<^verbatim>\<open>AFTER\<close> is recorded; a driver that
  waits for another one is then never schedulable by itself.
\<close>

theorem CorePreProcessDepex_correct:
  assumes "Depex_field d = Some (op # g @ rest)" and "length g = 16" and "\<not> Before d" and "\<not> After d"
  shows "\<exists>d'. CorePreProcessDepex d = Some d' \<and>
    Unrequested d' = (Unrequested d \<or> op = EFI_DEP_SOR) \<and> Dependent d' = (Dependent d \<or> op \<noteq> EFI_DEP_SOR) \<and>
    Before d' = (op = EFI_DEP_BEFORE) \<and> After d' = (op = EFI_DEP_AFTER) \<and>
    (if Before d' \<or> After d' then BeforeAfterGuid d' = g \<and> CoreIsSchedulable env d' s = (Schedulable False, d', s)
     else BeforeAfterGuid d' = BeforeAfterGuid d)"
  using assms by (auto simp: CorePreProcessDepex_def CoreIsSchedulable_def efi_const Let_def)

theorem CorePreProcessDepex_correct_witness:
  "\<exists>d'. CorePreProcessDepex (garbage_driver (EFI_DEP_AFTER # replicate 16 5 @ [EFI_DEP_END]) 18) = Some d' \<and>
     After d' \<and> BeforeAfterGuid d' = replicate 16 5"
  using CorePreProcessDepex_correct [of "garbage_driver (EFI_DEP_AFTER # replicate 16 5 @ [EFI_DEP_END]) 18"
      EFI_DEP_AFTER "replicate 16 5" "[EFI_DEP_END]" sample_depex_env sample_stack]
  by (auto simp: garbage_driver_def sample_driver_def efi_const)

end
