(* ===== verification/SafeIntConv.thy ===== *)
theory SafeIntConv
  imports UefiBase
begin

text \<open>
  The checked integer library, \<^verbatim>\<open>MdePkg/Library/BaseSafeIntLib\<close>: the integer types and their
  limits (\<^verbatim>\<open>MdePkg/Include/Base.h\<close>, \<^verbatim>\<open>MdePkg/Include/X64/ProcessorBind.h\<close>), the contract every
  function of the library has, and the 72 conversions of \<^verbatim>\<open>SafeIntLib.c\<close> and
  \<^verbatim>\<open>SafeIntLib64.c\<close>.

  An integer of either signedness is a word; \<open>sint\<close> and \<open>uint\<close> read it and a C cast is \<open>scast\<close>
  from a signed and \<open>ucast\<close> from an unsigned type.  A call takes whether \<^verbatim>\<open>Result\<close> is a pointer
  (not \<^verbatim>\<open>NULL\<close>) and gives the status and the value stored through \<^verbatim>\<open>Result\<close>, if one is.

  The contract is \<open>safe_result\<close>: a \<^verbatim>\<open>NULL\<close> pointer is refused, a value the result type can hold
  is stored exactly, and any other value stores the error value of the type.  The locale
  \<open>c_integer\<close> states what a C integer type promises and derives the rules the proofs use; it is
  interpreted for the eight types and for \<^verbatim>\<open>CHAR8\<close>, whose portable values are 0 to 0x7F.
\<close>

section \<open>Types and limits\<close>

type_synonym INT8 = u8
type_synonym UINT8 = u8
type_synonym CHAR8 = u8
type_synonym INT16 = u16
type_synonym UINT16 = u16
type_synonym INT32 = u32
type_synonym UINT32 = u32
type_synonym INT64 = u64
type_synonym UINT64 = u64
type_synonym INTN = u64

definition MAX_INT8 :: int where [efi_const]: "MAX_INT8 = 0x7F"
definition MAX_UINT8 :: int where [efi_const]: "MAX_UINT8 = 0xFF"
definition MAX_INT16 :: int where [efi_const]: "MAX_INT16 = 0x7FFF"
definition MAX_UINT16 :: int where [efi_const]: "MAX_UINT16 = 0xFFFF"
definition MAX_INT32 :: int where [efi_const]: "MAX_INT32 = 0x7FFFFFFF"
definition MAX_UINT32 :: int where [efi_const]: "MAX_UINT32 = 0xFFFFFFFF"
definition MAX_INT64 :: int where [efi_const]: "MAX_INT64 = 0x7FFFFFFFFFFFFFFF"
definition MAX_UINT64 :: int where [efi_const]: "MAX_UINT64 = 0xFFFFFFFFFFFFFFFF"
definition MAX_INTN :: int where [efi_const]: "MAX_INTN = 0x7FFFFFFFFFFFFFFF"
definition MAX_UINTN :: int where [efi_const]: "MAX_UINTN = 0xFFFFFFFFFFFFFFFF"

definition MIN_INT8 :: int where [efi_const]: "MIN_INT8 = - 127 - 1"
definition MIN_INT16 :: int where [efi_const]: "MIN_INT16 = - 32767 - 1"
definition MIN_INT32 :: int where [efi_const]: "MIN_INT32 = - 2147483647 - 1"
definition MIN_INT64 :: int where [efi_const]: "MIN_INT64 = - 9223372036854775807 - 1"
definition MIN_INTN :: int where [efi_const]: "MIN_INTN = - 9223372036854775807 - 1"

text \<open>The error values of \<^verbatim>\<open>MdePkg/Include/Library/SafeIntLib.h\<close>.\<close>

definition INT8_ERROR :: INT8 where [efi_const]: "INT8_ERROR = - 1"
definition UINT8_ERROR :: UINT8 where [efi_const]: "UINT8_ERROR = word_of_int MAX_UINT8"
definition CHAR8_ERROR :: CHAR8 where [efi_const]: "CHAR8_ERROR = word_of_int MAX_INT8"
definition INT16_ERROR :: INT16 where [efi_const]: "INT16_ERROR = - 1"
definition UINT16_ERROR :: UINT16 where [efi_const]: "UINT16_ERROR = word_of_int MAX_UINT16"
definition INT32_ERROR :: INT32 where [efi_const]: "INT32_ERROR = - 1"
definition UINT32_ERROR :: UINT32 where [efi_const]: "UINT32_ERROR = word_of_int MAX_UINT32"
definition INT64_ERROR :: INT64 where [efi_const]: "INT64_ERROR = - 1"
definition UINT64_ERROR :: UINT64 where [efi_const]: "UINT64_ERROR = word_of_int MAX_UINT64"
definition INTN_ERROR :: INTN where [efi_const]: "INTN_ERROR = - 1"
definition UINTN_ERROR :: UINTN where [efi_const]: "UINTN_ERROR = word_of_int MAX_UINTN"

text \<open>What a call gives: its status and the value it stored through \<^verbatim>\<open>Result\<close>.\<close>

type_synonym 'a safe_outcome = "EFI_STATUS \<times> 'a option"

named_theorems safe_int_defs \<open>definitions of the functions of the checked integer library\<close>

section \<open>Conversions of SafeIntLib.c\<close>

subsection \<open>From INT8\<close>

definition SafeInt8ToUint8 :: "INT8 \<Rightarrow> bool \<Rightarrow> UINT8 safe_outcome" where [safe_int_defs]:
  "SafeInt8ToUint8 Operand Result =
     (if \<not> Result then (EFI_INVALID_PARAMETER, None)
      else if sint Operand \<ge> 0 then (EFI_SUCCESS, Some (scast Operand))
      else (EFI_BUFFER_TOO_SMALL, Some UINT8_ERROR))"

definition SafeInt8ToChar8 :: "INT8 \<Rightarrow> bool \<Rightarrow> CHAR8 safe_outcome" where [safe_int_defs]:
  "SafeInt8ToChar8 Operand Result =
     (if \<not> Result then (EFI_INVALID_PARAMETER, None)
      else if sint Operand \<ge> 0 then (EFI_SUCCESS, Some (scast Operand))
      else (EFI_BUFFER_TOO_SMALL, Some CHAR8_ERROR))"

definition SafeInt8ToUint16 :: "INT8 \<Rightarrow> bool \<Rightarrow> UINT16 safe_outcome" where [safe_int_defs]:
  "SafeInt8ToUint16 Operand Result =
     (if \<not> Result then (EFI_INVALID_PARAMETER, None)
      else if sint Operand \<ge> 0 then (EFI_SUCCESS, Some (scast Operand))
      else (EFI_BUFFER_TOO_SMALL, Some UINT16_ERROR))"

definition SafeInt8ToUint32 :: "INT8 \<Rightarrow> bool \<Rightarrow> UINT32 safe_outcome" where [safe_int_defs]:
  "SafeInt8ToUint32 Operand Result =
     (if \<not> Result then (EFI_INVALID_PARAMETER, None)
      else if sint Operand \<ge> 0 then (EFI_SUCCESS, Some (scast Operand))
      else (EFI_BUFFER_TOO_SMALL, Some UINT32_ERROR))"

definition SafeInt8ToUintn :: "INT8 \<Rightarrow> bool \<Rightarrow> UINTN safe_outcome" where [safe_int_defs]:
  "SafeInt8ToUintn Operand Result =
     (if \<not> Result then (EFI_INVALID_PARAMETER, None)
      else if sint Operand \<ge> 0 then (EFI_SUCCESS, Some (scast Operand))
      else (EFI_BUFFER_TOO_SMALL, Some UINTN_ERROR))"

definition SafeInt8ToUint64 :: "INT8 \<Rightarrow> bool \<Rightarrow> UINT64 safe_outcome" where [safe_int_defs]:
  "SafeInt8ToUint64 Operand Result =
     (if \<not> Result then (EFI_INVALID_PARAMETER, None)
      else if sint Operand \<ge> 0 then (EFI_SUCCESS, Some (scast Operand))
      else (EFI_BUFFER_TOO_SMALL, Some UINT64_ERROR))"

subsection \<open>From UINT8\<close>

definition SafeUint8ToInt8 :: "UINT8 \<Rightarrow> bool \<Rightarrow> INT8 safe_outcome" where [safe_int_defs]:
  "SafeUint8ToInt8 Operand Result =
     (if \<not> Result then (EFI_INVALID_PARAMETER, None)
      else if uint Operand \<le> MAX_INT8 then (EFI_SUCCESS, Some (ucast Operand))
      else (EFI_BUFFER_TOO_SMALL, Some INT8_ERROR))"

definition SafeUint8ToChar8 :: "UINT8 \<Rightarrow> bool \<Rightarrow> CHAR8 safe_outcome" where [safe_int_defs]:
  "SafeUint8ToChar8 Operand Result =
     (if \<not> Result then (EFI_INVALID_PARAMETER, None)
      else if uint Operand \<le> MAX_INT8 then (EFI_SUCCESS, Some (ucast Operand))
      else (EFI_BUFFER_TOO_SMALL, Some CHAR8_ERROR))"

subsection \<open>From INT16\<close>

definition SafeInt16ToInt8 :: "INT16 \<Rightarrow> bool \<Rightarrow> INT8 safe_outcome" where [safe_int_defs]:
  "SafeInt16ToInt8 Operand Result =
     (if \<not> Result then (EFI_INVALID_PARAMETER, None)
      else if sint Operand \<ge> MIN_INT8 \<and> sint Operand \<le> MAX_INT8 then (EFI_SUCCESS, Some (scast Operand))
      else (EFI_BUFFER_TOO_SMALL, Some INT8_ERROR))"

definition SafeInt16ToChar8 :: "INT16 \<Rightarrow> bool \<Rightarrow> CHAR8 safe_outcome" where [safe_int_defs]:
  "SafeInt16ToChar8 Operand Result =
     (if \<not> Result then (EFI_INVALID_PARAMETER, None)
      else if sint Operand \<ge> 0 \<and> sint Operand \<le> MAX_INT8 then (EFI_SUCCESS, Some (scast Operand))
      else (EFI_BUFFER_TOO_SMALL, Some CHAR8_ERROR))"

definition SafeInt16ToUint8 :: "INT16 \<Rightarrow> bool \<Rightarrow> UINT8 safe_outcome" where [safe_int_defs]:
  "SafeInt16ToUint8 Operand Result =
     (if \<not> Result then (EFI_INVALID_PARAMETER, None)
      else if sint Operand \<ge> 0 \<and> sint Operand \<le> MAX_UINT8 then (EFI_SUCCESS, Some (scast Operand))
      else (EFI_BUFFER_TOO_SMALL, Some UINT8_ERROR))"

definition SafeInt16ToUint16 :: "INT16 \<Rightarrow> bool \<Rightarrow> UINT16 safe_outcome" where [safe_int_defs]:
  "SafeInt16ToUint16 Operand Result =
     (if \<not> Result then (EFI_INVALID_PARAMETER, None)
      else if sint Operand \<ge> 0 then (EFI_SUCCESS, Some (scast Operand))
      else (EFI_BUFFER_TOO_SMALL, Some UINT16_ERROR))"

definition SafeInt16ToUint32 :: "INT16 \<Rightarrow> bool \<Rightarrow> UINT32 safe_outcome" where [safe_int_defs]:
  "SafeInt16ToUint32 Operand Result =
     (if \<not> Result then (EFI_INVALID_PARAMETER, None)
      else if sint Operand \<ge> 0 then (EFI_SUCCESS, Some (scast Operand))
      else (EFI_BUFFER_TOO_SMALL, Some UINT32_ERROR))"

definition SafeInt16ToUintn :: "INT16 \<Rightarrow> bool \<Rightarrow> UINTN safe_outcome" where [safe_int_defs]:
  "SafeInt16ToUintn Operand Result =
     (if \<not> Result then (EFI_INVALID_PARAMETER, None)
      else if sint Operand \<ge> 0 then (EFI_SUCCESS, Some (scast Operand))
      else (EFI_BUFFER_TOO_SMALL, Some UINTN_ERROR))"

definition SafeInt16ToUint64 :: "INT16 \<Rightarrow> bool \<Rightarrow> UINT64 safe_outcome" where [safe_int_defs]:
  "SafeInt16ToUint64 Operand Result =
     (if \<not> Result then (EFI_INVALID_PARAMETER, None)
      else if sint Operand \<ge> 0 then (EFI_SUCCESS, Some (scast Operand))
      else (EFI_BUFFER_TOO_SMALL, Some UINT64_ERROR))"

subsection \<open>From UINT16\<close>

definition SafeUint16ToInt8 :: "UINT16 \<Rightarrow> bool \<Rightarrow> INT8 safe_outcome" where [safe_int_defs]:
  "SafeUint16ToInt8 Operand Result =
     (if \<not> Result then (EFI_INVALID_PARAMETER, None)
      else if uint Operand \<le> MAX_INT8 then (EFI_SUCCESS, Some (ucast Operand))
      else (EFI_BUFFER_TOO_SMALL, Some INT8_ERROR))"

definition SafeUint16ToChar8 :: "UINT16 \<Rightarrow> bool \<Rightarrow> CHAR8 safe_outcome" where [safe_int_defs]:
  "SafeUint16ToChar8 Operand Result =
     (if \<not> Result then (EFI_INVALID_PARAMETER, None)
      else if uint Operand \<le> MAX_INT8 then (EFI_SUCCESS, Some (ucast Operand :: INT8))
      else (EFI_BUFFER_TOO_SMALL, Some CHAR8_ERROR))"

definition SafeUint16ToUint8 :: "UINT16 \<Rightarrow> bool \<Rightarrow> UINT8 safe_outcome" where [safe_int_defs]:
  "SafeUint16ToUint8 Operand Result =
     (if \<not> Result then (EFI_INVALID_PARAMETER, None)
      else if uint Operand \<le> MAX_UINT8 then (EFI_SUCCESS, Some (ucast Operand))
      else (EFI_BUFFER_TOO_SMALL, Some UINT8_ERROR))"

definition SafeUint16ToInt16 :: "UINT16 \<Rightarrow> bool \<Rightarrow> INT16 safe_outcome" where [safe_int_defs]:
  "SafeUint16ToInt16 Operand Result =
     (if \<not> Result then (EFI_INVALID_PARAMETER, None)
      else if uint Operand \<le> MAX_INT16 then (EFI_SUCCESS, Some (ucast Operand))
      else (EFI_BUFFER_TOO_SMALL, Some INT16_ERROR))"

subsection \<open>From INT32\<close>

definition SafeInt32ToInt8 :: "INT32 \<Rightarrow> bool \<Rightarrow> INT8 safe_outcome" where [safe_int_defs]:
  "SafeInt32ToInt8 Operand Result =
     (if \<not> Result then (EFI_INVALID_PARAMETER, None)
      else if sint Operand \<ge> MIN_INT8 \<and> sint Operand \<le> MAX_INT8 then (EFI_SUCCESS, Some (scast Operand))
      else (EFI_BUFFER_TOO_SMALL, Some INT8_ERROR))"

definition SafeInt32ToChar8 :: "INT32 \<Rightarrow> bool \<Rightarrow> CHAR8 safe_outcome" where [safe_int_defs]:
  "SafeInt32ToChar8 Operand Result =
     (if \<not> Result then (EFI_INVALID_PARAMETER, None)
      else if sint Operand \<ge> 0 \<and> sint Operand \<le> MAX_INT8 then (EFI_SUCCESS, Some (scast Operand))
      else (EFI_BUFFER_TOO_SMALL, Some CHAR8_ERROR))"

definition SafeInt32ToUint8 :: "INT32 \<Rightarrow> bool \<Rightarrow> UINT8 safe_outcome" where [safe_int_defs]:
  "SafeInt32ToUint8 Operand Result =
     (if \<not> Result then (EFI_INVALID_PARAMETER, None)
      else if sint Operand \<ge> 0 \<and> sint Operand \<le> MAX_UINT8 then (EFI_SUCCESS, Some (scast Operand))
      else (EFI_BUFFER_TOO_SMALL, Some UINT8_ERROR))"

definition SafeInt32ToInt16 :: "INT32 \<Rightarrow> bool \<Rightarrow> INT16 safe_outcome" where [safe_int_defs]:
  "SafeInt32ToInt16 Operand Result =
     (if \<not> Result then (EFI_INVALID_PARAMETER, None)
      else if sint Operand \<ge> MIN_INT16 \<and> sint Operand \<le> MAX_INT16 then (EFI_SUCCESS, Some (scast Operand))
      else (EFI_BUFFER_TOO_SMALL, Some INT16_ERROR))"

definition SafeInt32ToUint16 :: "INT32 \<Rightarrow> bool \<Rightarrow> UINT16 safe_outcome" where [safe_int_defs]:
  "SafeInt32ToUint16 Operand Result =
     (if \<not> Result then (EFI_INVALID_PARAMETER, None)
      else if sint Operand \<ge> 0 \<and> sint Operand \<le> MAX_UINT16 then (EFI_SUCCESS, Some (scast Operand))
      else (EFI_BUFFER_TOO_SMALL, Some UINT16_ERROR))"

definition SafeInt32ToUint32 :: "INT32 \<Rightarrow> bool \<Rightarrow> UINT32 safe_outcome" where [safe_int_defs]:
  "SafeInt32ToUint32 Operand Result =
     (if \<not> Result then (EFI_INVALID_PARAMETER, None)
      else if sint Operand \<ge> 0 then (EFI_SUCCESS, Some (scast Operand))
      else (EFI_BUFFER_TOO_SMALL, Some UINT32_ERROR))"

definition SafeInt32ToUint64 :: "INT32 \<Rightarrow> bool \<Rightarrow> UINT64 safe_outcome" where [safe_int_defs]:
  "SafeInt32ToUint64 Operand Result =
     (if \<not> Result then (EFI_INVALID_PARAMETER, None)
      else if sint Operand \<ge> 0 then (EFI_SUCCESS, Some (scast Operand))
      else (EFI_BUFFER_TOO_SMALL, Some UINT64_ERROR))"

subsection \<open>From UINT32\<close>

definition SafeUint32ToInt8 :: "UINT32 \<Rightarrow> bool \<Rightarrow> INT8 safe_outcome" where [safe_int_defs]:
  "SafeUint32ToInt8 Operand Result =
     (if \<not> Result then (EFI_INVALID_PARAMETER, None)
      else if uint Operand \<le> MAX_INT8 then (EFI_SUCCESS, Some (ucast Operand))
      else (EFI_BUFFER_TOO_SMALL, Some INT8_ERROR))"

definition SafeUint32ToChar8 :: "UINT32 \<Rightarrow> bool \<Rightarrow> CHAR8 safe_outcome" where [safe_int_defs]:
  "SafeUint32ToChar8 Operand Result =
     (if \<not> Result then (EFI_INVALID_PARAMETER, None)
      else if uint Operand \<le> MAX_INT8 then (EFI_SUCCESS, Some (ucast Operand :: INT8))
      else (EFI_BUFFER_TOO_SMALL, Some CHAR8_ERROR))"

definition SafeUint32ToUint8 :: "UINT32 \<Rightarrow> bool \<Rightarrow> UINT8 safe_outcome" where [safe_int_defs]:
  "SafeUint32ToUint8 Operand Result =
     (if \<not> Result then (EFI_INVALID_PARAMETER, None)
      else if uint Operand \<le> MAX_UINT8 then (EFI_SUCCESS, Some (ucast Operand))
      else (EFI_BUFFER_TOO_SMALL, Some UINT8_ERROR))"

definition SafeUint32ToInt16 :: "UINT32 \<Rightarrow> bool \<Rightarrow> INT16 safe_outcome" where [safe_int_defs]:
  "SafeUint32ToInt16 Operand Result =
     (if \<not> Result then (EFI_INVALID_PARAMETER, None)
      else if uint Operand \<le> MAX_INT16 then (EFI_SUCCESS, Some (ucast Operand))
      else (EFI_BUFFER_TOO_SMALL, Some INT16_ERROR))"

definition SafeUint32ToUint16 :: "UINT32 \<Rightarrow> bool \<Rightarrow> UINT16 safe_outcome" where [safe_int_defs]:
  "SafeUint32ToUint16 Operand Result =
     (if \<not> Result then (EFI_INVALID_PARAMETER, None)
      else if uint Operand \<le> MAX_UINT16 then (EFI_SUCCESS, Some (ucast Operand))
      else (EFI_BUFFER_TOO_SMALL, Some UINT16_ERROR))"

definition SafeUint32ToInt32 :: "UINT32 \<Rightarrow> bool \<Rightarrow> INT32 safe_outcome" where [safe_int_defs]:
  "SafeUint32ToInt32 Operand Result =
     (if \<not> Result then (EFI_INVALID_PARAMETER, None)
      else if uint Operand \<le> MAX_INT32 then (EFI_SUCCESS, Some (ucast Operand))
      else (EFI_BUFFER_TOO_SMALL, Some INT32_ERROR))"

subsection \<open>From INTN\<close>

definition SafeIntnToInt8 :: "INTN \<Rightarrow> bool \<Rightarrow> INT8 safe_outcome" where [safe_int_defs]:
  "SafeIntnToInt8 Operand Result =
     (if \<not> Result then (EFI_INVALID_PARAMETER, None)
      else if sint Operand \<ge> MIN_INT8 \<and> sint Operand \<le> MAX_INT8 then (EFI_SUCCESS, Some (scast Operand))
      else (EFI_BUFFER_TOO_SMALL, Some INT8_ERROR))"

definition SafeIntnToChar8 :: "INTN \<Rightarrow> bool \<Rightarrow> CHAR8 safe_outcome" where [safe_int_defs]:
  "SafeIntnToChar8 Operand Result =
     (if \<not> Result then (EFI_INVALID_PARAMETER, None)
      else if sint Operand \<ge> 0 \<and> sint Operand \<le> MAX_INT8 then (EFI_SUCCESS, Some (scast Operand))
      else (EFI_BUFFER_TOO_SMALL, Some CHAR8_ERROR))"

definition SafeIntnToUint8 :: "INTN \<Rightarrow> bool \<Rightarrow> UINT8 safe_outcome" where [safe_int_defs]:
  "SafeIntnToUint8 Operand Result =
     (if \<not> Result then (EFI_INVALID_PARAMETER, None)
      else if sint Operand \<ge> 0 \<and> sint Operand \<le> MAX_UINT8 then (EFI_SUCCESS, Some (scast Operand))
      else (EFI_BUFFER_TOO_SMALL, Some UINT8_ERROR))"

definition SafeIntnToInt16 :: "INTN \<Rightarrow> bool \<Rightarrow> INT16 safe_outcome" where [safe_int_defs]:
  "SafeIntnToInt16 Operand Result =
     (if \<not> Result then (EFI_INVALID_PARAMETER, None)
      else if sint Operand \<ge> MIN_INT16 \<and> sint Operand \<le> MAX_INT16 then (EFI_SUCCESS, Some (scast Operand))
      else (EFI_BUFFER_TOO_SMALL, Some INT16_ERROR))"

definition SafeIntnToUint16 :: "INTN \<Rightarrow> bool \<Rightarrow> UINT16 safe_outcome" where [safe_int_defs]:
  "SafeIntnToUint16 Operand Result =
     (if \<not> Result then (EFI_INVALID_PARAMETER, None)
      else if sint Operand \<ge> 0 \<and> sint Operand \<le> MAX_UINT16 then (EFI_SUCCESS, Some (scast Operand))
      else (EFI_BUFFER_TOO_SMALL, Some UINT16_ERROR))"

definition SafeIntnToUintn :: "INTN \<Rightarrow> bool \<Rightarrow> UINTN safe_outcome" where [safe_int_defs]:
  "SafeIntnToUintn Operand Result =
     (if \<not> Result then (EFI_INVALID_PARAMETER, None)
      else if sint Operand \<ge> 0 then (EFI_SUCCESS, Some (scast Operand))
      else (EFI_BUFFER_TOO_SMALL, Some UINTN_ERROR))"

definition SafeIntnToUint64 :: "INTN \<Rightarrow> bool \<Rightarrow> UINT64 safe_outcome" where [safe_int_defs]:
  "SafeIntnToUint64 Operand Result =
     (if \<not> Result then (EFI_INVALID_PARAMETER, None)
      else if sint Operand \<ge> 0 then (EFI_SUCCESS, Some (scast Operand))
      else (EFI_BUFFER_TOO_SMALL, Some UINT64_ERROR))"

subsection \<open>From UINTN\<close>

definition SafeUintnToInt8 :: "UINTN \<Rightarrow> bool \<Rightarrow> INT8 safe_outcome" where [safe_int_defs]:
  "SafeUintnToInt8 Operand Result =
     (if \<not> Result then (EFI_INVALID_PARAMETER, None)
      else if uint Operand \<le> MAX_INT8 then (EFI_SUCCESS, Some (ucast Operand))
      else (EFI_BUFFER_TOO_SMALL, Some INT8_ERROR))"

definition SafeUintnToChar8 :: "UINTN \<Rightarrow> bool \<Rightarrow> CHAR8 safe_outcome" where [safe_int_defs]:
  "SafeUintnToChar8 Operand Result =
     (if \<not> Result then (EFI_INVALID_PARAMETER, None)
      else if uint Operand \<le> MAX_INT8 then (EFI_SUCCESS, Some (ucast Operand :: INT8))
      else (EFI_BUFFER_TOO_SMALL, Some CHAR8_ERROR))"

definition SafeUintnToUint8 :: "UINTN \<Rightarrow> bool \<Rightarrow> UINT8 safe_outcome" where [safe_int_defs]:
  "SafeUintnToUint8 Operand Result =
     (if \<not> Result then (EFI_INVALID_PARAMETER, None)
      else if uint Operand \<le> MAX_UINT8 then (EFI_SUCCESS, Some (ucast Operand))
      else (EFI_BUFFER_TOO_SMALL, Some UINT8_ERROR))"

definition SafeUintnToInt16 :: "UINTN \<Rightarrow> bool \<Rightarrow> INT16 safe_outcome" where [safe_int_defs]:
  "SafeUintnToInt16 Operand Result =
     (if \<not> Result then (EFI_INVALID_PARAMETER, None)
      else if uint Operand \<le> MAX_INT16 then (EFI_SUCCESS, Some (ucast Operand))
      else (EFI_BUFFER_TOO_SMALL, Some INT16_ERROR))"

definition SafeUintnToUint16 :: "UINTN \<Rightarrow> bool \<Rightarrow> UINT16 safe_outcome" where [safe_int_defs]:
  "SafeUintnToUint16 Operand Result =
     (if \<not> Result then (EFI_INVALID_PARAMETER, None)
      else if uint Operand \<le> MAX_UINT16 then (EFI_SUCCESS, Some (ucast Operand))
      else (EFI_BUFFER_TOO_SMALL, Some UINT16_ERROR))"

definition SafeUintnToInt32 :: "UINTN \<Rightarrow> bool \<Rightarrow> INT32 safe_outcome" where [safe_int_defs]:
  "SafeUintnToInt32 Operand Result =
     (if \<not> Result then (EFI_INVALID_PARAMETER, None)
      else if uint Operand \<le> MAX_INT32 then (EFI_SUCCESS, Some (ucast Operand))
      else (EFI_BUFFER_TOO_SMALL, Some INT32_ERROR))"

definition SafeUintnToIntn :: "UINTN \<Rightarrow> bool \<Rightarrow> INTN safe_outcome" where [safe_int_defs]:
  "SafeUintnToIntn Operand Result =
     (if \<not> Result then (EFI_INVALID_PARAMETER, None)
      else if uint Operand \<le> MAX_INTN then (EFI_SUCCESS, Some (ucast Operand))
      else (EFI_BUFFER_TOO_SMALL, Some INTN_ERROR))"

subsection \<open>From INT64\<close>

definition SafeInt64ToInt8 :: "INT64 \<Rightarrow> bool \<Rightarrow> INT8 safe_outcome" where [safe_int_defs]:
  "SafeInt64ToInt8 Operand Result =
     (if \<not> Result then (EFI_INVALID_PARAMETER, None)
      else if sint Operand \<ge> MIN_INT8 \<and> sint Operand \<le> MAX_INT8 then (EFI_SUCCESS, Some (scast Operand))
      else (EFI_BUFFER_TOO_SMALL, Some INT8_ERROR))"

definition SafeInt64ToChar8 :: "INT64 \<Rightarrow> bool \<Rightarrow> CHAR8 safe_outcome" where [safe_int_defs]:
  "SafeInt64ToChar8 Operand Result =
     (if \<not> Result then (EFI_INVALID_PARAMETER, None)
      else if sint Operand \<ge> 0 \<and> sint Operand \<le> MAX_INT8 then (EFI_SUCCESS, Some (scast Operand))
      else (EFI_BUFFER_TOO_SMALL, Some CHAR8_ERROR))"

definition SafeInt64ToUint8 :: "INT64 \<Rightarrow> bool \<Rightarrow> UINT8 safe_outcome" where [safe_int_defs]:
  "SafeInt64ToUint8 Operand Result =
     (if \<not> Result then (EFI_INVALID_PARAMETER, None)
      else if sint Operand \<ge> 0 \<and> sint Operand \<le> MAX_UINT8 then (EFI_SUCCESS, Some (scast Operand))
      else (EFI_BUFFER_TOO_SMALL, Some UINT8_ERROR))"

definition SafeInt64ToInt16 :: "INT64 \<Rightarrow> bool \<Rightarrow> INT16 safe_outcome" where [safe_int_defs]:
  "SafeInt64ToInt16 Operand Result =
     (if \<not> Result then (EFI_INVALID_PARAMETER, None)
      else if sint Operand \<ge> MIN_INT16 \<and> sint Operand \<le> MAX_INT16 then (EFI_SUCCESS, Some (scast Operand))
      else (EFI_BUFFER_TOO_SMALL, Some INT16_ERROR))"

definition SafeInt64ToUint16 :: "INT64 \<Rightarrow> bool \<Rightarrow> UINT16 safe_outcome" where [safe_int_defs]:
  "SafeInt64ToUint16 Operand Result =
     (if \<not> Result then (EFI_INVALID_PARAMETER, None)
      else if sint Operand \<ge> 0 \<and> sint Operand \<le> MAX_UINT16 then (EFI_SUCCESS, Some (scast Operand))
      else (EFI_BUFFER_TOO_SMALL, Some UINT16_ERROR))"

definition SafeInt64ToInt32 :: "INT64 \<Rightarrow> bool \<Rightarrow> INT32 safe_outcome" where [safe_int_defs]:
  "SafeInt64ToInt32 Operand Result =
     (if \<not> Result then (EFI_INVALID_PARAMETER, None)
      else if sint Operand \<ge> MIN_INT32 \<and> sint Operand \<le> MAX_INT32 then (EFI_SUCCESS, Some (scast Operand))
      else (EFI_BUFFER_TOO_SMALL, Some INT32_ERROR))"

definition SafeInt64ToUint32 :: "INT64 \<Rightarrow> bool \<Rightarrow> UINT32 safe_outcome" where [safe_int_defs]:
  "SafeInt64ToUint32 Operand Result =
     (if \<not> Result then (EFI_INVALID_PARAMETER, None)
      else if sint Operand \<ge> 0 \<and> sint Operand \<le> MAX_UINT32 then (EFI_SUCCESS, Some (scast Operand))
      else (EFI_BUFFER_TOO_SMALL, Some UINT32_ERROR))"

definition SafeInt64ToUint64 :: "INT64 \<Rightarrow> bool \<Rightarrow> UINT64 safe_outcome" where [safe_int_defs]:
  "SafeInt64ToUint64 Operand Result =
     (if \<not> Result then (EFI_INVALID_PARAMETER, None)
      else if sint Operand \<ge> 0 then (EFI_SUCCESS, Some (scast Operand))
      else (EFI_BUFFER_TOO_SMALL, Some UINT64_ERROR))"

subsection \<open>From UINT64\<close>

definition SafeUint64ToInt8 :: "UINT64 \<Rightarrow> bool \<Rightarrow> INT8 safe_outcome" where [safe_int_defs]:
  "SafeUint64ToInt8 Operand Result =
     (if \<not> Result then (EFI_INVALID_PARAMETER, None)
      else if uint Operand \<le> MAX_INT8 then (EFI_SUCCESS, Some (ucast Operand))
      else (EFI_BUFFER_TOO_SMALL, Some INT8_ERROR))"

definition SafeUint64ToChar8 :: "UINT64 \<Rightarrow> bool \<Rightarrow> CHAR8 safe_outcome" where [safe_int_defs]:
  "SafeUint64ToChar8 Operand Result =
     (if \<not> Result then (EFI_INVALID_PARAMETER, None)
      else if uint Operand \<le> MAX_INT8 then (EFI_SUCCESS, Some (ucast Operand :: INT8))
      else (EFI_BUFFER_TOO_SMALL, Some CHAR8_ERROR))"

definition SafeUint64ToUint8 :: "UINT64 \<Rightarrow> bool \<Rightarrow> UINT8 safe_outcome" where [safe_int_defs]:
  "SafeUint64ToUint8 Operand Result =
     (if \<not> Result then (EFI_INVALID_PARAMETER, None)
      else if uint Operand \<le> MAX_UINT8 then (EFI_SUCCESS, Some (ucast Operand))
      else (EFI_BUFFER_TOO_SMALL, Some UINT8_ERROR))"

definition SafeUint64ToInt16 :: "UINT64 \<Rightarrow> bool \<Rightarrow> INT16 safe_outcome" where [safe_int_defs]:
  "SafeUint64ToInt16 Operand Result =
     (if \<not> Result then (EFI_INVALID_PARAMETER, None)
      else if uint Operand \<le> MAX_INT16 then (EFI_SUCCESS, Some (ucast Operand))
      else (EFI_BUFFER_TOO_SMALL, Some INT16_ERROR))"

definition SafeUint64ToUint16 :: "UINT64 \<Rightarrow> bool \<Rightarrow> UINT16 safe_outcome" where [safe_int_defs]:
  "SafeUint64ToUint16 Operand Result =
     (if \<not> Result then (EFI_INVALID_PARAMETER, None)
      else if uint Operand \<le> MAX_UINT16 then (EFI_SUCCESS, Some (ucast Operand))
      else (EFI_BUFFER_TOO_SMALL, Some UINT16_ERROR))"

definition SafeUint64ToInt32 :: "UINT64 \<Rightarrow> bool \<Rightarrow> INT32 safe_outcome" where [safe_int_defs]:
  "SafeUint64ToInt32 Operand Result =
     (if \<not> Result then (EFI_INVALID_PARAMETER, None)
      else if uint Operand \<le> MAX_INT32 then (EFI_SUCCESS, Some (ucast Operand))
      else (EFI_BUFFER_TOO_SMALL, Some INT32_ERROR))"

definition SafeUint64ToUint32 :: "UINT64 \<Rightarrow> bool \<Rightarrow> UINT32 safe_outcome" where [safe_int_defs]:
  "SafeUint64ToUint32 Operand Result =
     (if \<not> Result then (EFI_INVALID_PARAMETER, None)
      else if uint Operand \<le> MAX_UINT32 then (EFI_SUCCESS, Some (ucast Operand))
      else (EFI_BUFFER_TOO_SMALL, Some UINT32_ERROR))"

definition SafeUint64ToIntn :: "UINT64 \<Rightarrow> bool \<Rightarrow> INTN safe_outcome" where [safe_int_defs]:
  "SafeUint64ToIntn Operand Result =
     (if \<not> Result then (EFI_INVALID_PARAMETER, None)
      else if uint Operand \<le> MAX_INTN then (EFI_SUCCESS, Some (ucast Operand))
      else (EFI_BUFFER_TOO_SMALL, Some INTN_ERROR))"

definition SafeUint64ToInt64 :: "UINT64 \<Rightarrow> bool \<Rightarrow> INT64 safe_outcome" where [safe_int_defs]:
  "SafeUint64ToInt64 Operand Result =
     (if \<not> Result then (EFI_INVALID_PARAMETER, None)
      else if uint Operand \<le> MAX_INT64 then (EFI_SUCCESS, Some (ucast Operand))
      else (EFI_BUFFER_TOO_SMALL, Some INT64_ERROR))"

section \<open>Conversions of SafeIntLib64.c\<close>

text \<open>The build with a 64-bit \<^verbatim>\<open>UINTN\<close>: a cast between \<^verbatim>\<open>UINTN\<close> and \<^verbatim>\<open>UINT64\<close> changes nothing.\<close>

definition SafeInt32ToUintn :: "INT32 \<Rightarrow> bool \<Rightarrow> UINTN safe_outcome" where [safe_int_defs]:
  "SafeInt32ToUintn Operand Result = SafeInt32ToUint64 Operand Result"

definition SafeUint32ToIntn :: "UINT32 \<Rightarrow> bool \<Rightarrow> INTN safe_outcome" where [safe_int_defs]:
  "SafeUint32ToIntn Operand Result =
     (if \<not> Result then (EFI_INVALID_PARAMETER, None) else (EFI_SUCCESS, Some (ucast Operand)))"

definition SafeIntnToInt32 :: "INTN \<Rightarrow> bool \<Rightarrow> INT32 safe_outcome" where [safe_int_defs]:
  "SafeIntnToInt32 Operand Result = SafeInt64ToInt32 Operand Result"

definition SafeIntnToUint32 :: "INTN \<Rightarrow> bool \<Rightarrow> UINT32 safe_outcome" where [safe_int_defs]:
  "SafeIntnToUint32 Operand Result = SafeInt64ToUint32 Operand Result"

definition SafeUintnToUint32 :: "UINTN \<Rightarrow> bool \<Rightarrow> UINT32 safe_outcome" where [safe_int_defs]:
  "SafeUintnToUint32 Operand Result = SafeUint64ToUint32 Operand Result"

definition SafeUintnToInt64 :: "UINTN \<Rightarrow> bool \<Rightarrow> INT64 safe_outcome" where [safe_int_defs]:
  "SafeUintnToInt64 Operand Result = SafeUint64ToInt64 Operand Result"

definition SafeInt64ToIntn :: "INT64 \<Rightarrow> bool \<Rightarrow> INTN safe_outcome" where [safe_int_defs]:
  "SafeInt64ToIntn Operand Result =
     (if \<not> Result then (EFI_INVALID_PARAMETER, None) else (EFI_SUCCESS, Some Operand))"

definition SafeInt64ToUintn :: "INT64 \<Rightarrow> bool \<Rightarrow> UINTN safe_outcome" where [safe_int_defs]:
  "SafeInt64ToUintn Operand Result = SafeInt64ToUint64 Operand Result"

definition SafeUint64ToUintn :: "UINT64 \<Rightarrow> bool \<Rightarrow> UINTN safe_outcome" where [safe_int_defs]:
  "SafeUint64ToUintn Operand Result =
     (if \<not> Result then (EFI_INVALID_PARAMETER, None) else (EFI_SUCCESS, Some Operand))"

section \<open>The contract\<close>

text \<open>
  \<open>safe_result val lo hi err f x\<close>: the call \<open>f\<close> with the exact mathematical result \<open>x\<close>, for a
  result type that is read by \<open>val\<close>, holds the values from \<open>lo\<close> to \<open>hi\<close> and has the error value
  \<open>err\<close>.
\<close>

definition safe_result ::
  "('w::len word \<Rightarrow> int) \<Rightarrow> int \<Rightarrow> int \<Rightarrow> 'w word \<Rightarrow> (bool \<Rightarrow> 'w word safe_outcome) \<Rightarrow> int \<Rightarrow> bool"
  where
  "safe_result val lo hi err f x \<longleftrightarrow>
     f False = (EFI_INVALID_PARAMETER, None) \<and>
     (if lo \<le> x \<and> x \<le> hi then \<exists>r. f True = (EFI_SUCCESS, Some r) \<and> val r = x
      else f True = (EFI_BUFFER_TOO_SMALL, Some err))"

abbreviation "safe_INT8 \<equiv> safe_result sint MIN_INT8 MAX_INT8 INT8_ERROR"
abbreviation "safe_UINT8 \<equiv> safe_result uint 0 MAX_UINT8 UINT8_ERROR"
abbreviation "safe_CHAR8 \<equiv> safe_result uint 0 MAX_INT8 CHAR8_ERROR"
abbreviation "safe_INT16 \<equiv> safe_result sint MIN_INT16 MAX_INT16 INT16_ERROR"
abbreviation "safe_UINT16 \<equiv> safe_result uint 0 MAX_UINT16 UINT16_ERROR"
abbreviation "safe_INT32 \<equiv> safe_result sint MIN_INT32 MAX_INT32 INT32_ERROR"
abbreviation "safe_UINT32 \<equiv> safe_result uint 0 MAX_UINT32 UINT32_ERROR"
abbreviation "safe_INT64 \<equiv> safe_result sint MIN_INT64 MAX_INT64 INT64_ERROR"
abbreviation "safe_UINT64 \<equiv> safe_result uint 0 MAX_UINT64 UINT64_ERROR"
abbreviation "safe_INTN \<equiv> safe_result sint MIN_INTN MAX_INTN INTN_ERROR"
abbreviation "safe_UINTN \<equiv> safe_result uint 0 MAX_UINTN UINTN_ERROR"

text \<open>
  What an integer type promises: a word is determined by its value, and every value between the
  limits is the value of a word.
\<close>

locale c_integer =
  fixes val :: "'w::len word \<Rightarrow> int" and lo hi :: int
  assumes of_val: "word_of_int (val w) = w"
    and val_of: "\<lbrakk>lo \<le> x; x \<le> hi\<rbrakk> \<Longrightarrow> val (word_of_int x) = x"
begin

lemma safe_result_iff:
  "safe_result val lo hi err f x \<longleftrightarrow>
     f False = (EFI_INVALID_PARAMETER, None) \<and>
     f True = (if lo \<le> x \<and> x \<le> hi then (EFI_SUCCESS, Some (word_of_int x))
               else (EFI_BUFFER_TOO_SMALL, Some err))"
  unfolding safe_result_def using val_of of_val by auto

text \<open>Two calls that meet the contract for the same value cannot be told apart.\<close>

lemma safe_result_unique:
  assumes "safe_result val lo hi err f x" and "safe_result val lo hi err g x"
  shows "f = g"
proof
  fix Result
  show "f Result = g Result"
    using assms by (cases Result) (auto simp: safe_result_iff)
qed

lemma safe_result_success:
  assumes "safe_result val lo hi err f x"
  shows "fst (f True) = EFI_SUCCESS \<longleftrightarrow> lo \<le> x \<and> x \<le> hi"
  using assms by (auto simp: safe_result_iff)

end

text \<open>The values of the words of a width, as the two signednesses read them.\<close>

lemma val_of_uint: "\<lbrakk>0 \<le> x; x < 2 ^ LENGTH('a)\<rbrakk> \<Longrightarrow> uint (word_of_int x :: 'a::len word) = x"
  by (simp add: uint_word_of_int)

lemma val_of_sint:
  "\<lbrakk>- (2 ^ (LENGTH('a) - 1)) \<le> x; x < 2 ^ (LENGTH('a) - 1)\<rbrakk>
     \<Longrightarrow> sint (word_of_int x :: 'a::len word) = x"
  by (simp add: sint_sbintrunc' signed_take_bit_int_eq_self)

interpretation UINT8: c_integer "uint :: UINT8 \<Rightarrow> int" 0 MAX_UINT8
  by unfold_locales (simp_all add: val_of_uint efi_const)

interpretation UINT16: c_integer "uint :: UINT16 \<Rightarrow> int" 0 MAX_UINT16
  by unfold_locales (simp_all add: val_of_uint efi_const)

interpretation UINT32: c_integer "uint :: UINT32 \<Rightarrow> int" 0 MAX_UINT32
  by unfold_locales (simp_all add: val_of_uint efi_const)

interpretation UINT64: c_integer "uint :: UINT64 \<Rightarrow> int" 0 MAX_UINT64
  by unfold_locales (simp_all add: val_of_uint efi_const)

interpretation UINTN: c_integer "uint :: UINTN \<Rightarrow> int" 0 MAX_UINTN
  by unfold_locales (simp_all add: val_of_uint efi_const)

interpretation CHAR8: c_integer "uint :: CHAR8 \<Rightarrow> int" 0 MAX_INT8
  by unfold_locales (simp_all add: val_of_uint efi_const)

interpretation INT8: c_integer "sint :: INT8 \<Rightarrow> int" MIN_INT8 MAX_INT8
  by unfold_locales (simp_all add: val_of_sint efi_const)

interpretation INT16: c_integer "sint :: INT16 \<Rightarrow> int" MIN_INT16 MAX_INT16
  by unfold_locales (simp_all add: val_of_sint efi_const)

interpretation INT32: c_integer "sint :: INT32 \<Rightarrow> int" MIN_INT32 MAX_INT32
  by unfold_locales (simp_all add: val_of_sint efi_const)

interpretation INT64: c_integer "sint :: INT64 \<Rightarrow> int" MIN_INT64 MAX_INT64
  by unfold_locales (simp_all add: val_of_sint efi_const)

interpretation INTN: c_integer "sint :: INTN \<Rightarrow> int" MIN_INTN MAX_INTN
  by unfold_locales (simp_all add: val_of_sint efi_const)

lemmas safe_result_iffs =
  UINT8.safe_result_iff UINT16.safe_result_iff UINT32.safe_result_iff UINT64.safe_result_iff
  UINTN.safe_result_iff CHAR8.safe_result_iff INT8.safe_result_iff INT16.safe_result_iff
  INT32.safe_result_iff INT64.safe_result_iff INTN.safe_result_iff

text \<open>The values of each type, as facts for linear arithmetic.\<close>

lemma sint_limits:
  "- 128 \<le> sint (i8 :: INT8) \<and> sint i8 \<le> 127"
  "- 32768 \<le> sint (i16 :: INT16) \<and> sint i16 \<le> 32767"
  "- 2147483648 \<le> sint (i32 :: INT32) \<and> sint i32 \<le> 2147483647"
  "- 9223372036854775808 \<le> sint (i64 :: INT64) \<and> sint i64 \<le> 9223372036854775807"
  using sint_ge [of i8] sint_lt [of i8] sint_ge [of i16] sint_lt [of i16]
    sint_ge [of i32] sint_lt [of i32] sint_ge [of i64] sint_lt [of i64] by simp_all

lemma uint_limits:
  "0 \<le> uint (u8 :: UINT8) \<and> uint u8 \<le> 255"
  "0 \<le> uint (u16 :: UINT16) \<and> uint u16 \<le> 65535"
  "0 \<le> uint (u32 :: UINT32) \<and> uint u32 \<le> 4294967295"
  "0 \<le> uint (u64 :: UINT64) \<and> uint u64 \<le> 18446744073709551615"
  using uint_lt2p [of u8] uint_lt2p [of u16] uint_lt2p [of u32] uint_lt2p [of u64] by simp_all

lemma neg_numeral_le_uint [simp]: "- numeral n \<le> uint (w :: 'a::len word)"
  by (rule order_trans [of _ 0]) simp_all

section \<open>Conversions keep the value or report it\<close>

text \<open>
  C38: Every conversion from a signed type stores the operand's value exactly when
  the result type can hold it, and otherwise stores the error value of that type and returns
  \<^verbatim>\<open>RETURN_BUFFER_TOO_SMALL\<close>; a \<^verbatim>\<open>NULL\<close> pointer gives \<^verbatim>\<open>RETURN_INVALID_PARAMETER\<close>.
\<close>

theorem SafeInt_signed_conversions:
  "safe_UINT8 (SafeInt8ToUint8 i8) (sint i8) \<and>
   safe_CHAR8 (SafeInt8ToChar8 i8) (sint i8) \<and>
   safe_UINT16 (SafeInt8ToUint16 i8) (sint i8) \<and>
   safe_UINT32 (SafeInt8ToUint32 i8) (sint i8) \<and>
   safe_UINTN (SafeInt8ToUintn i8) (sint i8) \<and>
   safe_UINT64 (SafeInt8ToUint64 i8) (sint i8) \<and>
   safe_INT8 (SafeInt16ToInt8 i16) (sint i16) \<and>
   safe_CHAR8 (SafeInt16ToChar8 i16) (sint i16) \<and>
   safe_UINT8 (SafeInt16ToUint8 i16) (sint i16) \<and>
   safe_UINT16 (SafeInt16ToUint16 i16) (sint i16) \<and>
   safe_UINT32 (SafeInt16ToUint32 i16) (sint i16) \<and>
   safe_UINTN (SafeInt16ToUintn i16) (sint i16) \<and>
   safe_UINT64 (SafeInt16ToUint64 i16) (sint i16) \<and>
   safe_INT8 (SafeInt32ToInt8 i32) (sint i32) \<and>
   safe_CHAR8 (SafeInt32ToChar8 i32) (sint i32) \<and>
   safe_UINT8 (SafeInt32ToUint8 i32) (sint i32) \<and>
   safe_INT16 (SafeInt32ToInt16 i32) (sint i32) \<and>
   safe_UINT16 (SafeInt32ToUint16 i32) (sint i32) \<and>
   safe_UINT32 (SafeInt32ToUint32 i32) (sint i32) \<and>
   safe_UINT64 (SafeInt32ToUint64 i32) (sint i32) \<and>
   safe_INT8 (SafeIntnToInt8 i) (sint i) \<and>
   safe_CHAR8 (SafeIntnToChar8 i) (sint i) \<and>
   safe_UINT8 (SafeIntnToUint8 i) (sint i) \<and>
   safe_INT16 (SafeIntnToInt16 i) (sint i) \<and>
   safe_UINT16 (SafeIntnToUint16 i) (sint i) \<and>
   safe_UINTN (SafeIntnToUintn i) (sint i) \<and>
   safe_UINT64 (SafeIntnToUint64 i) (sint i) \<and>
   safe_INT8 (SafeInt64ToInt8 i64) (sint i64) \<and>
   safe_CHAR8 (SafeInt64ToChar8 i64) (sint i64) \<and>
   safe_UINT8 (SafeInt64ToUint8 i64) (sint i64) \<and>
   safe_INT16 (SafeInt64ToInt16 i64) (sint i64) \<and>
   safe_UINT16 (SafeInt64ToUint16 i64) (sint i64) \<and>
   safe_INT32 (SafeInt64ToInt32 i64) (sint i64) \<and>
   safe_UINT32 (SafeInt64ToUint32 i64) (sint i64) \<and>
   safe_UINT64 (SafeInt64ToUint64 i64) (sint i64) \<and>
   safe_UINTN (SafeInt32ToUintn i32) (sint i32) \<and>
   safe_INT32 (SafeIntnToInt32 i) (sint i) \<and>
   safe_UINT32 (SafeIntnToUint32 i) (sint i) \<and>
   safe_INTN (SafeInt64ToIntn i64) (sint i64) \<and>
   safe_UINTN (SafeInt64ToUintn i64) (sint i64)"
  unfolding safe_result_iffs
  using sint_limits(1) [of i8] sint_limits(2) [of i16] sint_limits(3) [of i32] sint_limits(4) [of i64]
    sint_limits(4) [of i]
  by (intro conjI) (auto simp: safe_int_defs efi_const)

text \<open>
  The same holds of every conversion from an unsigned type.
\<close>

theorem SafeInt_unsigned_conversions:
  "safe_INT8 (SafeUint8ToInt8 u8) (uint u8) \<and>
   safe_CHAR8 (SafeUint8ToChar8 u8) (uint u8) \<and>
   safe_INT8 (SafeUint16ToInt8 u16) (uint u16) \<and>
   safe_CHAR8 (SafeUint16ToChar8 u16) (uint u16) \<and>
   safe_UINT8 (SafeUint16ToUint8 u16) (uint u16) \<and>
   safe_INT16 (SafeUint16ToInt16 u16) (uint u16) \<and>
   safe_INT8 (SafeUint32ToInt8 u32) (uint u32) \<and>
   safe_CHAR8 (SafeUint32ToChar8 u32) (uint u32) \<and>
   safe_UINT8 (SafeUint32ToUint8 u32) (uint u32) \<and>
   safe_INT16 (SafeUint32ToInt16 u32) (uint u32) \<and>
   safe_UINT16 (SafeUint32ToUint16 u32) (uint u32) \<and>
   safe_INT32 (SafeUint32ToInt32 u32) (uint u32) \<and>
   safe_INT8 (SafeUintnToInt8 u) (uint u) \<and>
   safe_CHAR8 (SafeUintnToChar8 u) (uint u) \<and>
   safe_UINT8 (SafeUintnToUint8 u) (uint u) \<and>
   safe_INT16 (SafeUintnToInt16 u) (uint u) \<and>
   safe_UINT16 (SafeUintnToUint16 u) (uint u) \<and>
   safe_INT32 (SafeUintnToInt32 u) (uint u) \<and>
   safe_INTN (SafeUintnToIntn u) (uint u) \<and>
   safe_INT8 (SafeUint64ToInt8 u64) (uint u64) \<and>
   safe_CHAR8 (SafeUint64ToChar8 u64) (uint u64) \<and>
   safe_UINT8 (SafeUint64ToUint8 u64) (uint u64) \<and>
   safe_INT16 (SafeUint64ToInt16 u64) (uint u64) \<and>
   safe_UINT16 (SafeUint64ToUint16 u64) (uint u64) \<and>
   safe_INT32 (SafeUint64ToInt32 u64) (uint u64) \<and>
   safe_UINT32 (SafeUint64ToUint32 u64) (uint u64) \<and>
   safe_INTN (SafeUint64ToIntn u64) (uint u64) \<and>
   safe_INT64 (SafeUint64ToInt64 u64) (uint u64) \<and>
   safe_INTN (SafeUint32ToIntn u32) (uint u32) \<and>
   safe_UINT32 (SafeUintnToUint32 u) (uint u) \<and>
   safe_INT64 (SafeUintnToInt64 u) (uint u) \<and>
   safe_UINTN (SafeUint64ToUintn u64) (uint u64)"
  unfolding safe_result_iffs
  using uint_limits(1) [of u8] uint_limits(2) [of u16] uint_limits(3) [of u32] uint_limits(4) [of u64]
    uint_limits(4) [of u]
  by (intro conjI) (auto simp: safe_int_defs efi_const)

end
