(* ===== verification/BaseBits.thy ===== *)
theory BaseBits
  imports UefiBase
begin

text \<open>
  Bit functions of the base library (\<^verbatim>\<open>MdePkg/Library/BaseLib\<close>): the 64-bit shifts and products
  of a 64-bit build, the highest set bit of a word and the power of two at it.  A count or an
  index that the callers keep below 64 is a natural number; a result that may be \<open>- 1\<close> is an
  integer.
\<close>

section \<open>Shifts and products\<close>

definition RShiftU64 :: "u64 \<Rightarrow> nat \<Rightarrow> u64" where
  "RShiftU64 Operand Count = drop_bit Count Operand"

definition LShiftU64 :: "u64 \<Rightarrow> nat \<Rightarrow> u64" where
  "LShiftU64 Operand Count = push_bit Count Operand"

definition MultU64x64 :: "u64 \<Rightarrow> u64 \<Rightarrow> u64" where
  "MultU64x64 Multiplicand Multiplier = Multiplicand * Multiplier"

definition MultS64x64 :: "u64 \<Rightarrow> u64 \<Rightarrow> u64" where
  "MultS64x64 Multiplicand Multiplier = MultU64x64 Multiplicand Multiplier"

section \<open>The highest set bit\<close>

text \<open>
  The loop of \<^verbatim>\<open>HighBitSet32\<close> shifts the operand left until its sign bit is set.  As long as the
  signed value is positive, a shift doubles the unsigned one.
\<close>

lemma sint_negative_iff: "sint w < 0 \<longleftrightarrow> 2 ^ 31 \<le> unat w" for w :: u32
proof -
  have "sint w < 0 \<longleftrightarrow> bit w 31" using bit_last_iff [of w] by simp
  also have "\<dots> \<longleftrightarrow> drop_bit 31 w \<noteq> 0" using drop_bit_eq_zero_iff_not_bit_last [of w] by simp
  also have "\<dots> \<longleftrightarrow> unat w div 2 ^ 31 \<noteq> 0"
    by (metis drop_bit_eq_div unat_drop_bit_eq unsigned_eq_0_iff)
  finally show ?thesis by (simp add: div_eq_0_iff not_less)
qed

lemma sint_positive_iff: "0 < sint w \<longleftrightarrow> 0 < unat w \<and> unat w < 2 ^ 31" for w :: u32
  using sint_negative_iff [of w] signed_eq_0_iff [of w, where 'a = int] unsigned_eq_0_iff [of w, where 'a = nat]
  by linarith

lemma signed_positive_double: "0 < sint w \<Longrightarrow> unat (push_bit 1 w) = 2 * unat w" for w :: u32
  by (simp add: sint_positive_iff push_bit_eq_mult unat_word_ariths)

text \<open>\<^verbatim>\<open>BitIndex\<close> is an \<^verbatim>\<open>INTN\<close>.\<close>

function HighBitSet32_loop :: "u32 \<Rightarrow> int \<Rightarrow> int" where
  "HighBitSet32_loop Operand BitIndex =
     (if sint Operand > 0 then HighBitSet32_loop (push_bit 1 Operand) (BitIndex - 1) else BitIndex)"
  by pat_completeness auto
termination
proof (relation "measure (\<lambda>(Operand, BitIndex). 2 ^ 32 - unat Operand)", goal_cases)
  case (2 Operand BitIndex)
  then show ?case
    using signed_positive_double [of Operand] sint_positive_iff [of Operand] by auto
qed simp

declare HighBitSet32_loop.simps [simp del]

definition HighBitSet32 :: "u32 \<Rightarrow> int" where
  "HighBitSet32 Operand = (if Operand = 0 then - 1 else HighBitSet32_loop Operand 31)"

definition HighBitSet64 :: "u64 \<Rightarrow> int" where
  "HighBitSet64 Operand =
     (if Operand = ucast (ucast Operand :: u32) then HighBitSet32 (ucast Operand)
      else HighBitSet32 (ucast (RShiftU64 Operand 32)) + 32)"

definition GetPowerOfTwo64 :: "u64 \<Rightarrow> u64" where
  "GetPowerOfTwo64 Operand =
     (if Operand = 0 then 0 else LShiftU64 1 (nat (HighBitSet64 Operand)))"

lemma HighBitSet32_loop_step:
  assumes "0 < sint Operand"
  shows "HighBitSet32_loop Operand i = HighBitSet32_loop (push_bit 1 Operand) (i - 1)"
  by (subst HighBitSet32_loop.simps) (simp only: assms if_True)

lemma HighBitSet32_loop_stop:
  assumes "\<not> 0 < sint Operand"
  shows "HighBitSet32_loop Operand i = i"
  by (subst HighBitSet32_loop.simps) (simp only: assms if_False)

lemma HighBitSet32_loop_spec:
  assumes "Operand \<noteq> 0"
  shows "\<exists>k. HighBitSet32_loop Operand i = i - int k \<and>
    2 ^ 31 \<le> unat Operand * 2 ^ k \<and> unat Operand * 2 ^ k < 2 ^ 32"
  using assms
proof (induction "2 ^ 32 - unat Operand" arbitrary: Operand i rule: less_induct)
  case less
  show ?case
  proof (cases "0 < sint Operand")
    case True
    note dbl = signed_positive_double [OF True]
    have lt: "0 < unat Operand" "unat Operand < 2 ^ 31" using True by (simp_all add: sint_positive_iff)
    have nz: "push_bit 1 Operand \<noteq> 0"
    proof
      assume "push_bit 1 Operand = 0"
      then have "2 * unat Operand = 0" unfolding dbl [symmetric] by simp
      then show False using lt by simp
    qed
    have "2 ^ 32 - unat (push_bit 1 Operand) < 2 ^ 32 - unat Operand" using lt unfolding dbl by simp
    from less(1) [OF this nz, of "i - 1"] obtain k
      where "HighBitSet32_loop Operand i = i - 1 - int k"
        and "2 ^ 31 \<le> 2 * unat Operand * 2 ^ k" and "2 * unat Operand * 2 ^ k < 2 ^ 32"
      unfolding dbl HighBitSet32_loop_step [OF True] by blast
    then have "HighBitSet32_loop Operand i = i - int (Suc k)"
      "2 ^ 31 \<le> unat Operand * 2 ^ Suc k" "unat Operand * 2 ^ Suc k < 2 ^ 32"
      by (simp_all add: ac_simps)
    then show ?thesis by blast
  next
    case False
    then have "2 ^ 31 \<le> unat Operand * 2 ^ 0" "unat Operand * 2 ^ 0 < 2 ^ 32"
      using less(2) sint_positive_iff [of Operand] unsigned_less [of Operand, where 'a = nat]
      by (simp_all add: unat_gt_0)
    then show ?thesis unfolding HighBitSet32_loop_stop [OF False] by (intro exI [of _ 0]) simp
  qed
qed

text \<open>The bits of a word of a given size, by their values.\<close>

lemma unat_high_bit:
  fixes w :: "'a::len word"
  assumes "2 ^ n \<le> unat w" and "unat w < 2 ^ Suc n"
  shows "bit w n" and "\<And>m. bit w m \<Longrightarrow> m \<le> n"
proof -
  have "unat w div 2 ^ n = 1" using assms by (simp add: div_nat_eqI)
  then have "bit (unat w) n" by (simp add: bit_iff_odd)
  then show "bit w n" by (simp add: bit_unsigned_iff)
  show "m \<le> n" if "bit w m" for m
  proof (rule ccontr)
    assume "\<not> m \<le> n"
    then have "unat w < 2 ^ m" using assms(2) power_increasing [of "Suc n" m "2 :: nat"] by simp
    then have "\<not> bit (unat w) m" by (simp add: bit_iff_odd)
    then show False using that by (simp add: bit_unsigned_iff)
  qed
qed

lemma HighBitSet32_range:
  assumes "Operand \<noteq> 0"
  obtains n where "HighBitSet32 Operand = int n" and "2 ^ n \<le> unat Operand" and "unat Operand < 2 ^ Suc n"
proof -
  obtain k where k: "HighBitSet32_loop Operand 31 = 31 - int k"
    and lo: "2 ^ 31 \<le> unat Operand * 2 ^ k" and hi: "unat Operand * 2 ^ k < 2 ^ 32"
    using HighBitSet32_loop_spec [OF assms] by blast
  have "1 * 2 ^ k \<le> unat Operand * 2 ^ k"
    using assms by (intro mult_right_mono) (simp_all add: Suc_le_eq unat_gt_0)
  then have "2 ^ k < (2 :: nat) ^ 32" using hi by linarith
  then have "k \<le> 31" by (simp add: power_strict_increasing_iff del: power_numeral)
  then obtain n where n: "31 = n + k" by (metis le_add_diff_inverse2)
  have e: "(2 :: nat) ^ 31 = 2 ^ n * 2 ^ k" "(2 :: nat) ^ 32 = 2 ^ Suc n * 2 ^ k"
    unfolding power_add [symmetric] using n by simp_all
  have "2 ^ n \<le> unat Operand" using lo unfolding e by (simp only: mult_le_cancel2) simp
  moreover have "unat Operand < 2 ^ Suc n" using hi unfolding e by (simp only: mult_less_cancel2)
  moreover have "HighBitSet32 Operand = int n" using assms k n by (simp add: HighBitSet32_def)
  ultimately show ?thesis by (rule that [rotated])
qed

lemma HighBitSet64_range:
  assumes "Operand \<noteq> 0"
  obtains n where "HighBitSet64 Operand = int n" and "2 ^ n \<le> unat Operand" and "unat Operand < 2 ^ Suc n"
proof (cases "Operand = ucast (ucast Operand :: u32)")
  case True
  have u: "unat (ucast Operand :: u32) = unat Operand"
    by (subst (2) True) (simp add: unsigned_ucast_eq unsigned_take_bit_eq)
  then have "(ucast Operand :: u32) \<noteq> 0" using assms by (metis unsigned_0 unsigned_eq_0_iff)
  then show ?thesis
    by (rule HighBitSet32_range) (use True u that in \<open>auto simp: HighBitSet64_def\<close>)
next
  case False
  let ?h = "ucast (RShiftU64 Operand 32) :: u32"
  have "unat Operand div 2 ^ 32 < 2 ^ 32"
    using unat_u64_bound [of Operand] by (simp add: div_less_iff_less_mult)
  then have h: "unat ?h = unat Operand div 2 ^ 32"
    by (simp add: RShiftU64_def unsigned_ucast_eq unsigned_drop_bit_eq take_bit_nat_eq_self drop_bit_eq_div unat_div_distrib)
  have "2 ^ 32 \<le> unat Operand"
  proof (rule ccontr)
    assume "\<not> 2 ^ 32 \<le> unat Operand"
    then have "unat (ucast (ucast Operand :: u32) :: u64) = unat Operand"
      by (simp add: unsigned_ucast_eq unsigned_take_bit_eq take_bit_nat_eq_self)
    then show False using False by (metis word_unat_eq_iff)
  qed
  then have "0 < unat ?h" unfolding h by (simp add: div_greater_zero_iff)
  then have "?h \<noteq> 0" by (simp add: unat_gt_0)
  then obtain n where n: "HighBitSet32 ?h = int n" "2 ^ n \<le> unat ?h" "unat ?h < 2 ^ Suc n"
    by (rule HighBitSet32_range)
  have "2 ^ n * 2 ^ 32 \<le> unat Operand div 2 ^ 32 * 2 ^ 32" using n(2) unfolding h by simp
  also have "\<dots> \<le> unat Operand" by simp
  finally have "2 ^ (n + 32) \<le> unat Operand" by (simp only: power_add)
  moreover have "unat Operand < 2 ^ Suc n * 2 ^ 32"
    using n(3) unfolding h by (rule div_less_iff_less_mult [THEN iffD1, rotated]) simp
  then have "unat Operand < 2 ^ Suc (n + 32)" by (simp only: power_add [symmetric] add_Suc)
  moreover have "HighBitSet64 Operand = int (n + 32)" using False n(1) by (simp add: HighBitSet64_def)
  ultimately show ?thesis by (rule that [rotated])
qed

text \<open>
  \<^verbatim>\<open>HighBitSet64\<close> finds the highest set bit, and \<^verbatim>\<open>GetPowerOfTwo64\<close> is the greatest power of two
  that is at most its operand.
\<close>

lemma HighBitSet64_bit:
  assumes "Operand \<noteq> 0"
  obtains n where "HighBitSet64 Operand = int n" and "bit Operand n" and "\<And>m. bit Operand m \<Longrightarrow> m \<le> n"
proof -
  obtain n where n: "HighBitSet64 Operand = int n" "2 ^ n \<le> unat Operand" "unat Operand < 2 ^ Suc n"
    using assms by (rule HighBitSet64_range)
  show ?thesis by (rule that [OF n(1) unat_high_bit [OF n(2,3)]])
qed

lemma GetPowerOfTwo64_range:
  assumes "Operand \<noteq> 0"
  shows "unat (GetPowerOfTwo64 Operand) \<le> unat Operand" and "unat Operand < 2 * unat (GetPowerOfTwo64 Operand)"
    and "\<exists>n. unat (GetPowerOfTwo64 Operand) = 2 ^ n"
proof -
  obtain n where n: "HighBitSet64 Operand = int n" "2 ^ n \<le> unat Operand" "unat Operand < 2 ^ Suc n"
    using assms by (rule HighBitSet64_range)
  have "(2 :: nat) ^ n < 2 ^ 64" using n(2) unat_u64_bound [of Operand] by (rule order.strict_trans1)
  then have "n < 64" by (simp only: power_strict_increasing_iff)
  then have "unat (push_bit n (1 :: u64)) = 2 ^ n"
    by (simp only: unsigned_push_bit_eq) (simp add: take_bit_nat_eq_self push_bit_eq_mult)
  then have "unat (GetPowerOfTwo64 Operand) = 2 ^ n"
    using assms n(1) by (simp add: GetPowerOfTwo64_def LShiftU64_def)
  then show "unat (GetPowerOfTwo64 Operand) \<le> unat Operand" "unat Operand < 2 * unat (GetPowerOfTwo64 Operand)"
    "\<exists>n. unat (GetPowerOfTwo64 Operand) = 2 ^ n" using n by auto
qed

end
