(* ===== verification/SafeIntMath.thy ===== *)
theory SafeIntMath
  imports SafeIntConv BaseBits
begin

text \<open>
  The addition, subtraction and multiplication functions of the checked integer library
  (\<^verbatim>\<open>SafeIntLib.c\<close>, \<^verbatim>\<open>SafeIntLib64.c\<close>).  C arithmetic is word arithmetic at the width the code
  computes in, so that a test which overflowed would be seen to; the properties show that every
  function meets the contract of \<open>SafeIntConv\<close> for the mathematical sum, difference or product
  of the values of its operands.
\<close>

text \<open>A local variable after a call that was given its address.\<close>

definition stored :: "'a \<Rightarrow> 'a safe_outcome \<Rightarrow> 'a" where
  "stored old out = (case snd out of None \<Rightarrow> old | Some v \<Rightarrow> v)"

section \<open>Unsigned arithmetic\<close>

definition SafeUint8Add :: "UINT8 \<Rightarrow> UINT8 \<Rightarrow> bool \<Rightarrow> UINT8 safe_outcome" where [safe_int_defs]:
  "SafeUint8Add Augend Addend Result =
     (if \<not> Result then (EFI_INVALID_PARAMETER, None)
      else if Augend + Addend \<ge> Augend then (EFI_SUCCESS, Some (Augend + Addend))
      else (EFI_BUFFER_TOO_SMALL, Some UINT8_ERROR))"

definition SafeUint16Add :: "UINT16 \<Rightarrow> UINT16 \<Rightarrow> bool \<Rightarrow> UINT16 safe_outcome" where [safe_int_defs]:
  "SafeUint16Add Augend Addend Result =
     (if \<not> Result then (EFI_INVALID_PARAMETER, None)
      else if Augend + Addend \<ge> Augend then (EFI_SUCCESS, Some (Augend + Addend))
      else (EFI_BUFFER_TOO_SMALL, Some UINT16_ERROR))"

definition SafeUint32Add :: "UINT32 \<Rightarrow> UINT32 \<Rightarrow> bool \<Rightarrow> UINT32 safe_outcome" where [safe_int_defs]:
  "SafeUint32Add Augend Addend Result =
     (if \<not> Result then (EFI_INVALID_PARAMETER, None)
      else if Augend + Addend \<ge> Augend then (EFI_SUCCESS, Some (Augend + Addend))
      else (EFI_BUFFER_TOO_SMALL, Some UINT32_ERROR))"

definition SafeUint64Add :: "UINT64 \<Rightarrow> UINT64 \<Rightarrow> bool \<Rightarrow> UINT64 safe_outcome" where [safe_int_defs]:
  "SafeUint64Add Augend Addend Result =
     (if \<not> Result then (EFI_INVALID_PARAMETER, None)
      else if Augend + Addend \<ge> Augend then (EFI_SUCCESS, Some (Augend + Addend))
      else (EFI_BUFFER_TOO_SMALL, Some UINT64_ERROR))"

definition SafeUint8Sub :: "UINT8 \<Rightarrow> UINT8 \<Rightarrow> bool \<Rightarrow> UINT8 safe_outcome" where [safe_int_defs]:
  "SafeUint8Sub Minuend Subtrahend Result =
     (if \<not> Result then (EFI_INVALID_PARAMETER, None)
      else if Minuend \<ge> Subtrahend then (EFI_SUCCESS, Some (Minuend - Subtrahend))
      else (EFI_BUFFER_TOO_SMALL, Some UINT8_ERROR))"

definition SafeUint16Sub :: "UINT16 \<Rightarrow> UINT16 \<Rightarrow> bool \<Rightarrow> UINT16 safe_outcome" where [safe_int_defs]:
  "SafeUint16Sub Minuend Subtrahend Result =
     (if \<not> Result then (EFI_INVALID_PARAMETER, None)
      else if Minuend \<ge> Subtrahend then (EFI_SUCCESS, Some (Minuend - Subtrahend))
      else (EFI_BUFFER_TOO_SMALL, Some UINT16_ERROR))"

definition SafeUint32Sub :: "UINT32 \<Rightarrow> UINT32 \<Rightarrow> bool \<Rightarrow> UINT32 safe_outcome" where [safe_int_defs]:
  "SafeUint32Sub Minuend Subtrahend Result =
     (if \<not> Result then (EFI_INVALID_PARAMETER, None)
      else if Minuend \<ge> Subtrahend then (EFI_SUCCESS, Some (Minuend - Subtrahend))
      else (EFI_BUFFER_TOO_SMALL, Some UINT32_ERROR))"

definition SafeUint64Sub :: "UINT64 \<Rightarrow> UINT64 \<Rightarrow> bool \<Rightarrow> UINT64 safe_outcome" where [safe_int_defs]:
  "SafeUint64Sub Minuend Subtrahend Result =
     (if \<not> Result then (EFI_INVALID_PARAMETER, None)
      else if Minuend \<ge> Subtrahend then (EFI_SUCCESS, Some (Minuend - Subtrahend))
      else (EFI_BUFFER_TOO_SMALL, Some UINT64_ERROR))"

definition SafeUint8Mult :: "UINT8 \<Rightarrow> UINT8 \<Rightarrow> bool \<Rightarrow> UINT8 safe_outcome" where [safe_int_defs]:
  "SafeUint8Mult Multiplicand Multiplier Result =
     (let IntermediateResult = (ucast Multiplicand :: UINT32) * ucast Multiplier
      in SafeUint32ToUint8 IntermediateResult Result)"

definition SafeUint16Mult :: "UINT16 \<Rightarrow> UINT16 \<Rightarrow> bool \<Rightarrow> UINT16 safe_outcome" where [safe_int_defs]:
  "SafeUint16Mult Multiplicand Multiplier Result =
     (let IntermediateResult = (ucast Multiplicand :: UINT32) * ucast Multiplier
      in SafeUint32ToUint16 IntermediateResult Result)"

definition SafeUint32Mult :: "UINT32 \<Rightarrow> UINT32 \<Rightarrow> bool \<Rightarrow> UINT32 safe_outcome" where [safe_int_defs]:
  "SafeUint32Mult Multiplicand Multiplier Result =
     (let IntermediateResult = (ucast Multiplicand :: UINT64) * ucast Multiplier
      in SafeUint64ToUint32 IntermediateResult Result)"

definition SafeUint64Mult :: "UINT64 \<Rightarrow> UINT64 \<Rightarrow> bool \<Rightarrow> UINT64 safe_outcome" where
  "SafeUint64Mult Multiplicand Multiplier Result =
     (if \<not> Result then (EFI_INVALID_PARAMETER, None)
      else
        let DwordA = (ucast (RShiftU64 Multiplicand 32) :: UINT32);
            DwordC = (ucast (RShiftU64 Multiplier 32) :: UINT32);
            DwordB = (ucast Multiplicand :: UINT32);
            DwordD = (ucast Multiplier :: UINT32);
            Overflow = (EFI_BUFFER_TOO_SMALL, Some UINT64_ERROR)
        in if DwordA = 0 \<and> DwordC = 0 then (EFI_SUCCESS, Some (ucast DwordB * ucast DwordD))
           else if DwordA = 0 \<or> DwordC = 0 then
             let ProductAD = (ucast DwordA * ucast DwordD :: UINT64)
             in if ProductAD AND 0xffffffff00000000 = 0 then
                  let ProductBC = (ucast DwordB * ucast DwordC :: UINT64)
                  in if ProductBC AND 0xffffffff00000000 = 0 then
                       let Sum = SafeUint64Add (LShiftU64 ProductBC 32) (LShiftU64 ProductAD 32) True
                       in if \<not> EFI_ERROR (fst Sum) then
                            let UnsignedResult = stored 0 Sum;
                                ProductBD = (ucast DwordB * ucast DwordD :: UINT64);
                                Total = SafeUint64Add UnsignedResult ProductBD True
                            in if \<not> EFI_ERROR (fst Total)
                               then (EFI_SUCCESS, Some (stored UnsignedResult Total))
                               else Overflow
                          else Overflow
                     else Overflow
                else Overflow
           else Overflow)"

section \<open>Signed arithmetic\<close>

definition SafeInt8Add :: "INT8 \<Rightarrow> INT8 \<Rightarrow> bool \<Rightarrow> INT8 safe_outcome" where [safe_int_defs]:
  "SafeInt8Add Augend Addend Result =
     SafeInt32ToInt8 ((scast Augend :: INT32) + scast Addend) Result"

definition SafeInt16Add :: "INT16 \<Rightarrow> INT16 \<Rightarrow> bool \<Rightarrow> INT16 safe_outcome" where [safe_int_defs]:
  "SafeInt16Add Augend Addend Result =
     SafeInt32ToInt16 ((scast Augend :: INT32) + scast Addend) Result"

definition SafeInt32Add :: "INT32 \<Rightarrow> INT32 \<Rightarrow> bool \<Rightarrow> INT32 safe_outcome" where [safe_int_defs]:
  "SafeInt32Add Augend Addend Result =
     SafeInt64ToInt32 ((scast Augend :: INT64) + scast Addend) Result"

definition SafeInt8Sub :: "INT8 \<Rightarrow> INT8 \<Rightarrow> bool \<Rightarrow> INT8 safe_outcome" where [safe_int_defs]:
  "SafeInt8Sub Minuend Subtrahend Result =
     SafeInt32ToInt8 ((scast Minuend :: INT32) - scast Subtrahend) Result"

definition SafeInt16Sub :: "INT16 \<Rightarrow> INT16 \<Rightarrow> bool \<Rightarrow> INT16 safe_outcome" where [safe_int_defs]:
  "SafeInt16Sub Minuend Subtrahend Result =
     SafeInt32ToInt16 ((scast Minuend :: INT32) - scast Subtrahend) Result"

definition SafeInt32Sub :: "INT32 \<Rightarrow> INT32 \<Rightarrow> bool \<Rightarrow> INT32 safe_outcome" where [safe_int_defs]:
  "SafeInt32Sub Minuend Subtrahend Result =
     SafeInt64ToInt32 ((scast Minuend :: INT64) - scast Subtrahend) Result"

definition SafeInt8Mult :: "INT8 \<Rightarrow> INT8 \<Rightarrow> bool \<Rightarrow> INT8 safe_outcome" where [safe_int_defs]:
  "SafeInt8Mult Multiplicand Multiplier Result =
     SafeInt32ToInt8 ((scast Multiplier :: INT32) * scast Multiplicand) Result"

definition SafeInt16Mult :: "INT16 \<Rightarrow> INT16 \<Rightarrow> bool \<Rightarrow> INT16 safe_outcome" where [safe_int_defs]:
  "SafeInt16Mult Multiplicand Multiplier Result =
     SafeInt32ToInt16 ((scast Multiplicand :: INT32) * scast Multiplier) Result"

definition SafeInt32Mult :: "INT32 \<Rightarrow> INT32 \<Rightarrow> bool \<Rightarrow> INT32 safe_outcome" where [safe_int_defs]:
  "SafeInt32Mult Multiplicand Multiplier Result =
     SafeInt64ToInt32 (MultS64x64 (scast Multiplicand) (scast Multiplier)) Result"

definition SafeInt64Add :: "INT64 \<Rightarrow> INT64 \<Rightarrow> bool \<Rightarrow> INT64 safe_outcome" where [safe_int_defs]:
  "SafeInt64Add Augend Addend Result =
     (if \<not> Result then (EFI_INVALID_PARAMETER, None)
      else if (sint Addend > 0 \<and> sint Augend > sint (word_of_int MAX_INT64 - Addend)) \<or>
              (sint Addend < 0 \<and> sint Augend < sint (word_of_int MIN_INT64 - Addend))
      then (EFI_BUFFER_TOO_SMALL, Some INT64_ERROR)
      else (EFI_SUCCESS, Some (Augend + Addend)))"

definition SafeInt64Sub :: "INT64 \<Rightarrow> INT64 \<Rightarrow> bool \<Rightarrow> INT64 safe_outcome" where [safe_int_defs]:
  "SafeInt64Sub Minuend Subtrahend Result =
     (if \<not> Result then (EFI_INVALID_PARAMETER, None)
      else if (sint Subtrahend > 0 \<and> sint Minuend < sint (word_of_int MIN_INT64 + Subtrahend)) \<or>
              (sint Subtrahend < 0 \<and> sint Minuend > sint (word_of_int MAX_INT64 + Subtrahend))
      then (EFI_BUFFER_TOO_SMALL, Some INT64_ERROR)
      else (EFI_SUCCESS, Some (Minuend - Subtrahend)))"

definition MIN_INT64_MAGNITUDE :: UINT64 where [efi_const]:
  "MIN_INT64_MAGNITUDE = word_of_int (- (MIN_INT64 + 1)) + 1"

definition SafeInt64Mult :: "INT64 \<Rightarrow> INT64 \<Rightarrow> bool \<Rightarrow> INT64 safe_outcome" where
  "SafeInt64Mult Multiplicand Multiplier Result =
     (if \<not> Result then (EFI_INVALID_PARAMETER, None)
      else
        let UnsignedMultiplicand =
              (if sint Multiplicand < 0 then - (Multiplicand + 1) + 1 else Multiplicand);
            UnsignedMultiplier =
              (if sint Multiplier < 0 then - (Multiplier + 1) + 1 else Multiplier);
            Product = SafeUint64Mult UnsignedMultiplicand UnsignedMultiplier True;
            Status = fst Product;
            UnsignedResult = stored 0 Product
        in if \<not> EFI_ERROR Status then
             if (sint Multiplicand < 0) \<noteq> (sint Multiplier < 0) then
               if UnsignedResult > MIN_INT64_MAGNITUDE
               then (EFI_BUFFER_TOO_SMALL, Some INT64_ERROR)
               else if UnsignedResult = MIN_INT64_MAGNITUDE
               then (Status, Some (word_of_int MIN_INT64))
               else (Status, Some (- UnsignedResult))
             else if uint UnsignedResult > MAX_INT64
             then (EFI_BUFFER_TOO_SMALL, Some INT64_ERROR)
             else (Status, Some UnsignedResult)
           else (Status, Some INT64_ERROR))"

section \<open>CHAR8 arithmetic\<close>

text \<open>
  Whether \<^verbatim>\<open>CHAR8\<close>, the plain \<^verbatim>\<open>char\<close> of C, is signed is the compiler's choice; it is the first
  argument.
\<close>

definition CHAR8_to_INT32 :: "bool \<Rightarrow> CHAR8 \<Rightarrow> INT32" where
  "CHAR8_to_INT32 char_signed c = (if char_signed then scast c else ucast c)"

definition SafeChar8Add :: "bool \<Rightarrow> CHAR8 \<Rightarrow> CHAR8 \<Rightarrow> bool \<Rightarrow> CHAR8 safe_outcome" where
  [safe_int_defs]:
  "SafeChar8Add char_signed Augend Addend Result =
     (if \<not> Result then (EFI_INVALID_PARAMETER, None)
      else
        let Augend32 = CHAR8_to_INT32 char_signed Augend;
            Addend32 = CHAR8_to_INT32 char_signed Addend
        in if sint Augend32 < 0 \<or> sint Augend32 > MAX_INT8
           then (EFI_BUFFER_TOO_SMALL, Some CHAR8_ERROR)
           else if sint Addend32 < 0 \<or> sint Addend32 > MAX_INT8
           then (EFI_BUFFER_TOO_SMALL, Some CHAR8_ERROR)
           else SafeInt32ToChar8 (Augend32 + Addend32) Result)"

definition SafeChar8Sub :: "bool \<Rightarrow> CHAR8 \<Rightarrow> CHAR8 \<Rightarrow> bool \<Rightarrow> CHAR8 safe_outcome" where
  [safe_int_defs]:
  "SafeChar8Sub char_signed Minuend Subtrahend Result =
     (if \<not> Result then (EFI_INVALID_PARAMETER, None)
      else
        let Minuend32 = CHAR8_to_INT32 char_signed Minuend;
            Subtrahend32 = CHAR8_to_INT32 char_signed Subtrahend
        in if sint Minuend32 < 0 \<or> sint Minuend32 > MAX_INT8
           then (EFI_BUFFER_TOO_SMALL, Some CHAR8_ERROR)
           else if sint Subtrahend32 < 0 \<or> sint Subtrahend32 > MAX_INT8
           then (EFI_BUFFER_TOO_SMALL, Some CHAR8_ERROR)
           else SafeInt32ToChar8 (Minuend32 - Subtrahend32) Result)"

definition SafeChar8Mult :: "bool \<Rightarrow> CHAR8 \<Rightarrow> CHAR8 \<Rightarrow> bool \<Rightarrow> CHAR8 safe_outcome" where
  [safe_int_defs]:
  "SafeChar8Mult char_signed Multiplicand Multiplier Result =
     (if \<not> Result then (EFI_INVALID_PARAMETER, None)
      else
        let Multiplicand32 = CHAR8_to_INT32 char_signed Multiplicand;
            Multiplier32 = CHAR8_to_INT32 char_signed Multiplier
        in if sint Multiplicand32 < 0 \<or> sint Multiplicand32 > MAX_INT8
           then (EFI_BUFFER_TOO_SMALL, Some CHAR8_ERROR)
           else if sint Multiplier32 < 0 \<or> sint Multiplier32 > MAX_INT8
           then (EFI_BUFFER_TOO_SMALL, Some CHAR8_ERROR)
           else SafeInt32ToChar8 (Multiplicand32 * Multiplier32) Result)"

section \<open>UINTN and INTN of SafeIntLib64.c\<close>

definition SafeUintnAdd :: "UINTN \<Rightarrow> UINTN \<Rightarrow> bool \<Rightarrow> UINTN safe_outcome" where [safe_int_defs]:
  "SafeUintnAdd Augend Addend Result = SafeUint64Add Augend Addend Result"

definition SafeUintnSub :: "UINTN \<Rightarrow> UINTN \<Rightarrow> bool \<Rightarrow> UINTN safe_outcome" where [safe_int_defs]:
  "SafeUintnSub Minuend Subtrahend Result = SafeUint64Sub Minuend Subtrahend Result"

definition SafeUintnMult :: "UINTN \<Rightarrow> UINTN \<Rightarrow> bool \<Rightarrow> UINTN safe_outcome" where [safe_int_defs]:
  "SafeUintnMult Multiplicand Multiplier Result = SafeUint64Mult Multiplicand Multiplier Result"

definition SafeIntnAdd :: "INTN \<Rightarrow> INTN \<Rightarrow> bool \<Rightarrow> INTN safe_outcome" where [safe_int_defs]:
  "SafeIntnAdd Augend Addend Result = SafeInt64Add Augend Addend Result"

definition SafeIntnSub :: "INTN \<Rightarrow> INTN \<Rightarrow> bool \<Rightarrow> INTN safe_outcome" where [safe_int_defs]:
  "SafeIntnSub Minuend Subtrahend Result = SafeInt64Sub Minuend Subtrahend Result"

definition SafeIntnMult :: "INTN \<Rightarrow> INTN \<Rightarrow> bool \<Rightarrow> INTN safe_outcome" where [safe_int_defs]:
  "SafeIntnMult Multiplicand Multiplier Result = SafeInt64Mult Multiplicand Multiplier Result"

section \<open>Unsigned sums and differences\<close>

lemma word_add_no_wrap: "a \<le> a + b \<longleftrightarrow> uint a + uint b < 2 ^ LENGTH('a)" for a b :: "'a::len word"
  by (rule no_olen_add)

lemma SafeUint64Add_safe: "safe_UINT64 (SafeUint64Add a b) (uint a + uint b)"
  unfolding UINT64.safe_result_iff
  by (auto simp: safe_int_defs efi_const word_add_no_wrap)

lemma SafeUint_add:
  "safe_UINT8 (SafeUint8Add a8 b8) (uint a8 + uint b8)"
  "safe_UINT16 (SafeUint16Add a16 b16) (uint a16 + uint b16)"
  "safe_UINT32 (SafeUint32Add a32 b32) (uint a32 + uint b32)"
  "safe_UINTN (SafeUintnAdd a b) (uint a + uint b)"
  unfolding safe_result_iffs by (auto simp: safe_int_defs efi_const word_add_no_wrap)

lemma uint_diff_le: "uint b \<le> M \<Longrightarrow> uint b - uint c \<le> M" for b c :: "'a::len word"
  using unsigned_greater_eq [of c, where 'a = int] by linarith

lemma SafeUint_sub:
  "safe_UINT8 (SafeUint8Sub a8 b8) (uint a8 - uint b8)"
  "safe_UINT16 (SafeUint16Sub a16 b16) (uint a16 - uint b16)"
  "safe_UINT32 (SafeUint32Sub a32 b32) (uint a32 - uint b32)"
  "safe_UINT64 (SafeUint64Sub a64 b64) (uint a64 - uint b64)"
  "safe_UINTN (SafeUintnSub a b) (uint a - uint b)"
  unfolding safe_result_iffs
  by (auto simp: safe_int_defs efi_const word_le_def uint_diff_le uint_limits)

text \<open>
  Every unsigned addition and subtraction stores the mathematical sum or difference when the
  type can hold it; a sum that would wrap and a difference below zero are reported, with the
  type's error value stored.
\<close>

theorem SafeUint_add_sub:
  "safe_UINT8 (SafeUint8Add a8 b8) (uint a8 + uint b8) \<and>
   safe_UINT16 (SafeUint16Add a16 b16) (uint a16 + uint b16) \<and>
   safe_UINT32 (SafeUint32Add a32 b32) (uint a32 + uint b32) \<and>
   safe_UINT64 (SafeUint64Add a64 b64) (uint a64 + uint b64) \<and>
   safe_UINTN (SafeUintnAdd a b) (uint a + uint b) \<and>
   safe_UINT8 (SafeUint8Sub a8 b8) (uint a8 - uint b8) \<and>
   safe_UINT16 (SafeUint16Sub a16 b16) (uint a16 - uint b16) \<and>
   safe_UINT32 (SafeUint32Sub a32 b32) (uint a32 - uint b32) \<and>
   safe_UINT64 (SafeUint64Sub a64 b64) (uint a64 - uint b64) \<and>
   safe_UINTN (SafeUintnSub a b) (uint a - uint b)"
  by (intro conjI SafeUint64Add_safe SafeUint_add SafeUint_sub)

section \<open>Operations that compute in a wider type and narrow the result\<close>

lemma narrowing:
  "safe_UINT8 (SafeUint32ToUint8 u32) (uint u32)"
  "safe_UINT16 (SafeUint32ToUint16 u32) (uint u32)"
  "safe_UINT32 (SafeUint64ToUint32 u64) (uint u64)"
  "safe_INT8 (SafeInt32ToInt8 i32) (sint i32)"
  "safe_INT16 (SafeInt32ToInt16 i32) (sint i32)"
  "safe_INT32 (SafeInt64ToInt32 i64) (sint i64)"
  "safe_CHAR8 (SafeInt32ToChar8 i32) (sint i32)"
  unfolding safe_result_iffs by (auto simp: safe_int_defs efi_const)

lemma narrow_calls:
  "SafeUint8Mult a8 b8 = SafeUint32ToUint8 (ucast a8 * ucast b8)"
  "SafeUint16Mult a16 b16 = SafeUint32ToUint16 (ucast a16 * ucast b16)"
  "SafeUint32Mult a32 b32 = SafeUint64ToUint32 (ucast a32 * ucast b32)"
  "SafeInt8Add c8 d8 = SafeInt32ToInt8 (scast c8 + scast d8)"
  "SafeInt16Add c16 d16 = SafeInt32ToInt16 (scast c16 + scast d16)"
  "SafeInt32Add c32 d32 = SafeInt64ToInt32 (scast c32 + scast d32)"
  "SafeInt8Sub c8 d8 = SafeInt32ToInt8 (scast c8 - scast d8)"
  "SafeInt16Sub c16 d16 = SafeInt32ToInt16 (scast c16 - scast d16)"
  "SafeInt32Sub c32 d32 = SafeInt64ToInt32 (scast c32 - scast d32)"
  "SafeInt8Mult c8 d8 = SafeInt32ToInt8 (scast c8 * scast d8)"
  "SafeInt16Mult c16 d16 = SafeInt32ToInt16 (scast c16 * scast d16)"
  "SafeInt32Mult c32 d32 = SafeInt64ToInt32 (scast c32 * scast d32)"
  "SafeUintnMult a b = SafeUint64Mult a b"
  "SafeIntnAdd c d = SafeInt64Add c d"
  "SafeIntnSub c d = SafeInt64Sub c d"
  "SafeIntnMult c d = SafeInt64Mult c d"
  by (rule ext;
      simp add: SafeUint8Mult_def SafeUint16Mult_def SafeUint32Mult_def SafeInt8Add_def
        SafeInt16Add_def SafeInt32Add_def SafeInt8Sub_def SafeInt16Sub_def SafeInt32Sub_def
        SafeInt8Mult_def SafeInt16Mult_def SafeInt32Mult_def SafeUintnMult_def SafeIntnAdd_def
        SafeIntnSub_def SafeIntnMult_def MultS64x64_def MultU64x64_def mult.commute)+

section \<open>Products in a wider type\<close>

lemma uint_wide_mult:
  fixes a b :: "'a::len word"
  assumes "2 * LENGTH('a) \<le> LENGTH('b::len)"
  shows "uint (ucast a * ucast b :: 'b word) = uint a * uint b"
proof -
  have "uint a * uint b < 2 ^ LENGTH('a) * 2 ^ LENGTH('a)"
    by (rule mult_strict_mono) (simp_all add: uint_lt2p)
  also have "\<dots> = 2 ^ (2 * LENGTH('a))" by (simp add: mult_2 power_add)
  also have "\<dots> \<le> 2 ^ LENGTH('b)" using assms by (intro power_increasing) simp_all
  finally have "uint a * uint b < 2 ^ LENGTH('b)" .
  moreover have "(ucast a * ucast b :: 'b word) = word_of_int (uint a * uint b)" by simp
  ultimately show ?thesis by (simp only: uint_word_of_int) (simp add: take_bit_int_eq_self)
qed

lemma high_dword_clear: "w AND 0xffffffff00000000 = 0 \<longleftrightarrow> uint w < 2 ^ 32" for w :: UINT64
proof -
  have m: "(0xffffffff00000000 :: UINT64) = NOT (mask 32)" by (simp add: mask_eq_exp_minus_1)
  have "w AND NOT (mask 32) = 0 \<longleftrightarrow> take_bit 32 w = w"
    by (auto simp: bit_eq_iff bit_and_iff bit_not_iff bit_mask_iff bit_take_bit_iff)
  also have "\<dots> \<longleftrightarrow> take_bit 32 (uint w) = uint w"
    by (metis unsigned_take_bit_eq word_uint_eq_iff)
  also have "\<dots> \<longleftrightarrow> uint w < 2 ^ 32" by (simp add: take_bit_int_eq_self_iff)
  finally show ?thesis unfolding m .
qed

section \<open>The 64-bit product\<close>

lemma high_dword: "uint (ucast (RShiftU64 w 32) :: UINT32) = uint w div 2 ^ 32"
proof -
  have "0 \<le> uint w div 2 ^ 32" and "uint w div 2 ^ 32 < 2 ^ 32" using uint_limits(4) [of w]
    by (simp_all add: pos_imp_zdiv_nonneg_iff)
  then show ?thesis
    by (simp add: RShiftU64_def drop_bit_eq_div unsigned_ucast_eq uint_div_distrib
        take_bit_int_eq_self)
qed

lemma low_dword: "uint (ucast w :: UINT32) = uint w mod 2 ^ 32" for w :: UINT64
  by (simp add: unsigned_ucast_eq take_bit_eq_mod)

lemma uint_LShiftU64: "uint w < 2 ^ 32 \<Longrightarrow> uint (LShiftU64 w 32) = uint w * 2 ^ 32"
  by (simp add: LShiftU64_def push_bit_eq_mult uint_word_ariths)

lemma SafeUint64Add_True:
  "SafeUint64Add a b True =
     (if uint a + uint b < 2 ^ 64 then (EFI_SUCCESS, Some (a + b))
      else (EFI_BUFFER_TOO_SMALL, Some UINT64_ERROR))"
  by (simp add: SafeUint64Add_def word_add_no_wrap)

text \<open>
  Schoolbook multiplication by halves: when a cross product does not fit a half word, or both
  high halves are set, the product needs more than 64 bits.
\<close>

lemma mult_halves_overflow:
  fixes A B C D :: int
  assumes "0 \<le> A" "0 \<le> B" "0 \<le> C" "0 \<le> D"
    and "(A \<noteq> 0 \<and> C \<noteq> 0) \<or> 2 ^ 32 \<le> A * D \<or> 2 ^ 32 \<le> B * C"
  shows "2 ^ 64 \<le> (A * 2 ^ 32 + B) * (C * 2 ^ 32 + D)"
proof -
  have split: "(A * 2 ^ 32 + B) * (C * 2 ^ 32 + D) =
      A * C * 2 ^ 64 + (A * D + B * C) * 2 ^ 32 + B * D"
    by (simp add: algebra_simps)
  have nn: "0 \<le> A * C" "0 \<le> A * D" "0 \<le> B * C" "0 \<le> B * D" using assms(1-4) by simp_all
  from assms(5) have "1 \<le> A * C \<or> 2 ^ 32 \<le> A * D + B * C"
  proof (elim disjE conjE)
    assume "A \<noteq> 0" "C \<noteq> 0"
    then have "0 < A * C" using assms(1,3) by simp
    then show ?thesis by simp
  qed (use nn in simp_all)
  then show ?thesis unfolding split using nn by auto
qed

lemma SafeUint64Mult_halves:
  fixes M N :: UINT64
  defines "A \<equiv> uint M div 2 ^ 32" and "B \<equiv> uint M mod 2 ^ 32"
    and "C \<equiv> uint N div 2 ^ 32" and "D \<equiv> uint N mod 2 ^ 32"
  shows "SafeUint64Mult M N True =
    (if (A = 0 \<or> C = 0) \<and> A * D < 2 ^ 32 \<and> B * C < 2 ^ 32 \<and>
        (A * D + B * C) * 2 ^ 32 + B * D < 2 ^ 64
     then (EFI_SUCCESS, Some (word_of_int ((A * D + B * C) * 2 ^ 32 + B * D)))
     else (EFI_BUFFER_TOO_SMALL, Some UINT64_ERROR))"
proof -
  let ?a = "ucast (RShiftU64 M 32) :: UINT32" and ?b = "ucast M :: UINT32"
  let ?c = "ucast (RShiftU64 N 32) :: UINT32" and ?d = "ucast N :: UINT32"
  have abcd: "uint ?a = A" "uint ?b = B" "uint ?c = C" "uint ?d = D"
    by (simp_all only: high_dword A_def C_def) (simp_all only: low_dword B_def D_def)
  have zero: "?a = 0 \<longleftrightarrow> A = 0" "?c = 0 \<longleftrightarrow> C = 0"
    by (simp_all flip: abcd add: unsigned_eq_0_iff)
  have wide: "uint (ucast x * ucast y :: UINT64) = uint x * uint y" for x y :: UINT32
    by (rule uint_wide_mult) simp
  have prods: "uint (ucast ?a * ucast ?d :: UINT64) = A * D"
    "uint (ucast ?b * ucast ?c :: UINT64) = B * C" "uint (ucast ?b * ucast ?d :: UINT64) = B * D"
    by (simp_all only: wide abcd)
  let ?AD = "ucast ?a * ucast ?d :: UINT64" and ?BC = "ucast ?b * ucast ?c :: UINT64"
    and ?BD = "ucast ?b * ucast ?d :: UINT64"
  have nn: "0 \<le> A" "0 \<le> B" "0 \<le> C" "0 \<le> D" and lt: "B < 2 ^ 32" "D < 2 ^ 32"
    by (simp_all add: A_def B_def C_def D_def pos_imp_zdiv_nonneg_iff)
  have BD: "B * D < 2 ^ 32 * 2 ^ 32" using nn lt by (intro mult_strict_mono) simp_all
  note run = SafeUint64Mult_def Let_def zero high_dword_clear prods SafeUint64Add_True stored_def
  consider (low) "A = 0" "C = 0" | (high) "A \<noteq> 0" "C \<noteq> 0"
    | (cross) "(A = 0) \<noteq> (C = 0)" by blast
  then show ?thesis
  proof cases
    case low
    have "word_of_int (B * D) = ?BD" by (simp flip: prods(3))
    then show ?thesis using low BD by (simp add: run)
  next
    case high
    then show ?thesis by (simp add: run)
  next
    case cross
    show ?thesis
    proof (cases "A * D < 2 ^ 32 \<and> B * C < 2 ^ 32")
      case False
      then show ?thesis using cross by (auto simp: run)
    next
      case True
      let ?S = "LShiftU64 ?BC 32 + LShiftU64 ?AD 32"
      have sh: "uint (LShiftU64 ?AD 32) = A * D * 2 ^ 32" "uint (LShiftU64 ?BC 32) = B * C * 2 ^ 32"
        using True by (simp_all only: uint_LShiftU64 prods)
      have S: "B * C * 2 ^ 32 + A * D * 2 ^ 32 < 2 ^ 64" using cross True by auto
      have "uint ?S = (B * C * 2 ^ 32 + A * D * 2 ^ 32) mod 2 ^ 64"
        by (simp only: uint_word_ariths sh) simp
      then have uS: "uint ?S = (A * D + B * C) * 2 ^ 32"
        using nn S by (simp add: distrib_right)
      have "?S + ?BD = word_of_int (uint ?S + uint ?BD)" by simp
      then have "?S + ?BD = word_of_int ((A * D + B * C) * 2 ^ 32 + B * D)"
        by (simp only: uS prods)
      then show ?thesis using cross True S by (auto simp: run sh uS)
    qed
  qed
qed

lemma SafeUint64Mult_safe: "safe_UINT64 (SafeUint64Mult M N) (uint M * uint N)"
proof -
  define A B C D where "A = uint M div 2 ^ 32" and "B = uint M mod 2 ^ 32"
    and "C = uint N div 2 ^ 32" and "D = uint N mod 2 ^ 32"
  note dwords = this
  have MN: "uint M = A * 2 ^ 32 + B" "uint N = C * 2 ^ 32 + D" by (simp_all add: dwords)
  have nn: "0 \<le> A" "0 \<le> B" "0 \<le> C" "0 \<le> D"
    by (simp_all add: dwords pos_imp_zdiv_nonneg_iff)
  have prod: "uint M * uint N = A * C * 2 ^ 64 + ((A * D + B * C) * 2 ^ 32 + B * D)"
    unfolding MN by (simp add: algebra_simps)
  note halves = SafeUint64Mult_halves [of M N, folded dwords]
  have range: "x \<le> MAX_UINT64 \<longleftrightarrow> x < 2 ^ 64" for x by (auto simp: efi_const)
  have null: "SafeUint64Mult M N False = (EFI_INVALID_PARAMETER, None)"
    by (simp add: SafeUint64Mult_def)
  show ?thesis
  proof (cases "(A \<noteq> 0 \<and> C \<noteq> 0) \<or> 2 ^ 32 \<le> A * D \<or> 2 ^ 32 \<le> B * C")
    case True
    then have "2 ^ 64 \<le> uint M * uint N" unfolding MN by (rule mult_halves_overflow [OF nn])
    then show ?thesis using True by (auto simp: UINT64.safe_result_iff null halves range)
  next
    case False
    then have "A * C = 0" by auto
    moreover have "0 \<le> A * D" "0 \<le> B * C" "0 \<le> B * D" using nn by simp_all
    ultimately show ?thesis
      using False by (auto simp: UINT64.safe_result_iff null halves range prod)
  qed
qed

text \<open>
  C39: Every unsigned multiplication stores the mathematical product when the type can hold it
  and reports it otherwise; the 64-bit one, which works on 32-bit halves and never computes a
  product wider than 64 bits, included.
\<close>

theorem SafeUint_mult:
  "safe_UINT8 (SafeUint8Mult a8 b8) (uint a8 * uint b8) \<and>
   safe_UINT16 (SafeUint16Mult a16 b16) (uint a16 * uint b16) \<and>
   safe_UINT32 (SafeUint32Mult a32 b32) (uint a32 * uint b32) \<and>
   safe_UINT64 (SafeUint64Mult a64 b64) (uint a64 * uint b64) \<and>
   safe_UINTN (SafeUintnMult a b) (uint a * uint b)"
  unfolding narrow_calls
  using narrowing(1) [of "ucast a8 * ucast b8"] narrowing(2) [of "ucast a16 * ucast b16"]
    narrowing(3) [of "ucast a32 * ucast b32"] SafeUint64Mult_safe [of a64 b64]
    SafeUint64Mult_safe [of a b]
  by (simp add: uint_wide_mult efi_const)

section \<open>Signed sums and differences\<close>

lemma scast_ring:
  "(scast a + scast b :: 'b::len word) = word_of_int (sint a + sint b)"
  "(scast a - scast b :: 'b::len word) = word_of_int (sint a - sint b)"
  "(scast a * scast b :: 'b::len word) = word_of_int (sint a * sint b)"
  for a b :: "'a::len word"
  by simp_all

text \<open>Within the limits, a sum, difference or product of sign-extended operands does not wrap.\<close>

lemma sint_wide:
  fixes a b :: "'a::len word"
  assumes "- (2 ^ (LENGTH('b::len) - 1)) \<le> x" and "x < 2 ^ (LENGTH('b) - 1)"
  shows "x = sint a + sint b \<Longrightarrow> sint (scast a + scast b :: 'b word) = x"
    and "x = sint a - sint b \<Longrightarrow> sint (scast a - scast b :: 'b word) = x"
    and "x = sint a * sint b \<Longrightarrow> sint (scast a * scast b :: 'b word) = x"
  using val_of_sint [OF assms] by (simp_all only: scast_ring)

lemma sint_wide_add:
  "sint (scast a8 + scast b8 :: INT32) = sint (a8 :: INT8) + sint (b8 :: INT8)"
  "sint (scast a16 + scast b16 :: INT32) = sint (a16 :: INT16) + sint (b16 :: INT16)"
  "sint (scast a32 + scast b32 :: INT64) = sint (a32 :: INT32) + sint (b32 :: INT32)"
  using sint_limits(1) [of a8] sint_limits(1) [of b8] sint_limits(2) [of a16] sint_limits(2) [of b16]
    sint_limits(3) [of a32] sint_limits(3) [of b32]
  by (auto intro!: sint_wide(1))

lemma sint_wide_sub:
  "sint (scast a8 - scast b8 :: INT32) = sint (a8 :: INT8) - sint (b8 :: INT8)"
  "sint (scast a16 - scast b16 :: INT32) = sint (a16 :: INT16) - sint (b16 :: INT16)"
  "sint (scast a32 - scast b32 :: INT64) = sint (a32 :: INT32) - sint (b32 :: INT32)"
  using sint_limits(1) [of a8] sint_limits(1) [of b8] sint_limits(2) [of a16] sint_limits(2) [of b16]
    sint_limits(3) [of a32] sint_limits(3) [of b32]
  by (auto intro!: sint_wide(2))

lemma sint_const_add:
  "\<lbrakk>MIN_INT64 \<le> k + sint w; k + sint w \<le> MAX_INT64\<rbrakk>
     \<Longrightarrow> sint (word_of_int k + w :: INT64) = k + sint w"
  "\<lbrakk>MIN_INT64 \<le> k - sint w; k - sint w \<le> MAX_INT64\<rbrakk>
     \<Longrightarrow> sint (word_of_int k - w :: INT64) = k - sint w"
  using INT64.val_of [of "k + sint w"] INT64.val_of [of "k - sint w"] by simp_all

lemma SafeInt64Add_safe: "safe_INT64 (SafeInt64Add a b) (sint a + sint b)"
  unfolding INT64.safe_result_iff
  using sint_limits(4) [of a] sint_limits(4) [of b]
    sint_const_add(2) [of MAX_INT64 b] sint_const_add(2) [of MIN_INT64 b]
  by (auto simp: SafeInt64Add_def MAX_INT64_def MIN_INT64_def)

lemma SafeInt64Sub_safe: "safe_INT64 (SafeInt64Sub a b) (sint a - sint b)"
  unfolding INT64.safe_result_iff
  using sint_limits(4) [of a] sint_limits(4) [of b]
    sint_const_add(1) [of MAX_INT64 b] sint_const_add(1) [of MIN_INT64 b]
  by (auto simp: SafeInt64Sub_def MAX_INT64_def MIN_INT64_def)

text \<open>
  Every signed addition and subtraction stores the mathematical sum or difference when the
  type can hold it and reports it otherwise, and the tests of the 64-bit ones do not overflow
  themselves.
\<close>

theorem SafeInt_add_sub:
  "safe_INT8 (SafeInt8Add a8 b8) (sint a8 + sint b8) \<and>
   safe_INT16 (SafeInt16Add a16 b16) (sint a16 + sint b16) \<and>
   safe_INT32 (SafeInt32Add a32 b32) (sint a32 + sint b32) \<and>
   safe_INT64 (SafeInt64Add a64 b64) (sint a64 + sint b64) \<and>
   safe_INTN (SafeIntnAdd a b) (sint a + sint b) \<and>
   safe_INT8 (SafeInt8Sub a8 b8) (sint a8 - sint b8) \<and>
   safe_INT16 (SafeInt16Sub a16 b16) (sint a16 - sint b16) \<and>
   safe_INT32 (SafeInt32Sub a32 b32) (sint a32 - sint b32) \<and>
   safe_INT64 (SafeInt64Sub a64 b64) (sint a64 - sint b64) \<and>
   safe_INTN (SafeIntnSub a b) (sint a - sint b)"
  unfolding narrow_calls sint_wide_add [symmetric] sint_wide_sub [symmetric]
  using narrowing(4-6) SafeInt64Add_safe SafeInt64Sub_safe
  by (simp add: INTN_ERROR_def INT64_ERROR_def MIN_INTN_def MIN_INT64_def MAX_INTN_def MAX_INT64_def)

section \<open>Signed products\<close>

lemma abs_mult_le:
  fixes x y K :: int
  assumes "\<bar>x\<bar> \<le> K" and "\<bar>y\<bar> \<le> K"
  shows "\<bar>x * y\<bar> \<le> K * K"
  using assms by (simp add: abs_mult mult_mono)

lemma sint_wide_mult:
  fixes a b :: "'a::len word"
  assumes "2 * LENGTH('a) \<le> LENGTH('b::len)"
  shows "sint (scast a * scast b :: 'b word) = sint a * sint b"
proof (rule sint_wide(3) [OF _ _ refl])
  let ?K = "2 ^ (LENGTH('a) - 1) :: int"
  have "\<bar>sint w\<bar> \<le> ?K" for w :: "'a word"
    using sint_ge [of w] sint_lt [of w] by (simp add: abs_le_iff)
  then have "\<bar>sint a * sint b\<bar> \<le> ?K * ?K" by (intro abs_mult_le)
  also have "\<dots> = 2 ^ (2 * (LENGTH('a) - 1))" by (simp add: mult_2 power_add)
  also have "\<dots> < 2 ^ (LENGTH('b) - 1)"
    using assms len_gt_0 [where 'a = 'a] by (intro power_strict_increasing) linarith+
  finally show "- (2 ^ (LENGTH('b) - 1)) \<le> sint a * sint b"
    and "sint a * sint b < 2 ^ (LENGTH('b) - 1)" by (simp_all add: abs_if split: if_splits)
qed

text \<open>The magnitude of a 64-bit number as \<^verbatim>\<open>SafeInt64Mult\<close> takes it, the most negative one included.\<close>

lemma uint_magnitude:
  "uint (if sint w < 0 then - (w + 1) + 1 else w :: INT64) = \<bar>sint w\<bar>"
proof -
  have "(if sint w < 0 then - (w + 1) + 1 else w) = word_of_int \<bar>sint w\<bar>"
    by (simp add: abs_if)
  moreover have "uint (word_of_int \<bar>sint w\<bar> :: UINT64) = \<bar>sint w\<bar>"
    using sint_limits(4) [of w] by (intro UINT64.val_of) (auto simp: efi_const)
  ultimately show ?thesis by simp
qed

lemma SafeUint64Mult_True:
  "SafeUint64Mult M N True =
     (if uint M * uint N \<le> MAX_UINT64 then (EFI_SUCCESS, Some (word_of_int (uint M * uint N)))
      else (EFI_BUFFER_TOO_SMALL, Some UINT64_ERROR))"
  using SafeUint64Mult_safe [of M N] by (simp add: UINT64.safe_result_iff)

lemma SafeInt64Mult_safe: "safe_INT64 (SafeInt64Mult M N) (sint M * sint N)"
proof -
  define R where "R = \<bar>sint M\<bar> * \<bar>sint N\<bar>"
  have R0: "0 \<le> R" by (simp add: R_def)
  have signs: "sint M * sint N = (if (sint M < 0) \<noteq> (sint N < 0) then - R else R)"
    by (auto simp: R_def abs_if)
  let ?P = "SafeUint64Mult (if sint M < 0 then - (M + 1) + 1 else M)
              (if sint N < 0 then - (N + 1) + 1 else N) True"
  have P: "?P = (if R \<le> MAX_UINT64 then (EFI_SUCCESS, Some (word_of_int R))
                 else (EFI_BUFFER_TOO_SMALL, Some UINT64_ERROR))"
    by (simp only: SafeUint64Mult_True uint_magnitude R_def)
  have uR: "uint (word_of_int R :: UINT64) = R" if "R \<le> MAX_UINT64"
    using R0 that by (rule UINT64.val_of)
  have mag: "word_of_int R > MIN_INT64_MAGNITUDE \<longleftrightarrow> R > 2 ^ 63"
    "word_of_int R = MIN_INT64_MAGNITUDE \<longleftrightarrow> R = 2 ^ 63" if "R \<le> MAX_UINT64"
    using uR [OF that] by (simp_all add: word_less_def word_uint_eq_iff efi_const)
  show ?thesis
    unfolding INT64.safe_result_iff signs SafeInt64Mult_def Let_def P
    using R0 mag uR by (auto simp: stored_def efi_const)
qed

text \<open>
  C40: Every signed multiplication stores the mathematical product when the type can hold it and
  reports it otherwise; the 64-bit one, which multiplies magnitudes, is right for the most
  negative number too.
\<close>

theorem SafeInt_mult:
  "safe_INT8 (SafeInt8Mult a8 b8) (sint a8 * sint b8) \<and>
   safe_INT16 (SafeInt16Mult a16 b16) (sint a16 * sint b16) \<and>
   safe_INT32 (SafeInt32Mult a32 b32) (sint a32 * sint b32) \<and>
   safe_INT64 (SafeInt64Mult a64 b64) (sint a64 * sint b64) \<and>
   safe_INTN (SafeIntnMult a b) (sint a * sint b)"
  unfolding narrow_calls
  using narrowing(4) [of "scast a8 * scast b8"] narrowing(5) [of "scast a16 * scast b16"]
    narrowing(6) [of "scast a32 * scast b32"] SafeInt64Mult_safe [of a64 b64]
    SafeInt64Mult_safe [of a b]
  by (simp add: sint_wide_mult INTN_ERROR_def INT64_ERROR_def MIN_INTN_def MIN_INT64_def
      MAX_INTN_def MAX_INT64_def)

section \<open>CHAR8\<close>

text \<open>
  The contract of a \<^verbatim>\<open>CHAR8\<close> operation: both operands have to be portable characters (0 to
  0x7F); \<open>x\<close> is the mathematical result.
\<close>

definition safe_CHAR8_operation ::
  "(bool \<Rightarrow> CHAR8 safe_outcome) \<Rightarrow> CHAR8 \<Rightarrow> CHAR8 \<Rightarrow> int \<Rightarrow> bool" where
  "safe_CHAR8_operation f a b x \<longleftrightarrow>
     (if uint a \<le> MAX_INT8 \<and> uint b \<le> MAX_INT8 then safe_CHAR8 f x
      else f False = (EFI_INVALID_PARAMETER, None) \<and>
           f True = (EFI_BUFFER_TOO_SMALL, Some CHAR8_ERROR))"

lemma uint_CHAR8: "uint c = (if 0 \<le> sint c then sint c else sint c + 256)" for c :: CHAR8
proof -
  have "uint c = sint c mod 256" using uint_word_of_int [of "sint c", where 'a = 8] by simp
  moreover have "x mod 256 = (if 0 \<le> x then x else x + 256)" if "- 128 \<le> x \<and> x \<le> 127" for x :: int
    using that mod_pos_pos_trivial [of x 256] mod_pos_pos_trivial [of "x + 256" 256] by auto
  ultimately show ?thesis using sint_limits(1) [of c] by simp
qed

text \<open>Both readings of a \<^verbatim>\<open>CHAR8\<close> agree on which characters are portable and on their values.\<close>

lemma CHAR8_to_INT32_portable:
  "sint (CHAR8_to_INT32 s c) < 0 \<or> sint (CHAR8_to_INT32 s c) > MAX_INT8 \<longleftrightarrow>
     \<not> uint c \<le> MAX_INT8" (is ?P)
  "uint c \<le> MAX_INT8 \<Longrightarrow> CHAR8_to_INT32 s c = word_of_int (uint c)" (is "_ \<Longrightarrow> ?Q")
proof -
  have s: "sint (CHAR8_to_INT32 s c) = (if s then sint c else uint c)"
    using sint_limits(1) [of c] uint_limits(1) [of c]
      val_of_sint [of "sint c", where 'a = 32] val_of_sint [of "uint c", where 'a = 32]
    by (simp add: CHAR8_to_INT32_def)
  show ?P unfolding s using uint_CHAR8 [of c] sint_limits(1) [of c] by (auto simp: efi_const)
  assume "uint c \<le> MAX_INT8"
  then have "sint c = uint c" using uint_CHAR8 [of c] sint_limits(1) [of c]
    by (auto simp: efi_const split: if_splits)
  then have "scast c = (word_of_int (uint c) :: INT32)" by (metis scast_eq)
  then show ?Q by (simp add: CHAR8_to_INT32_def)
qed

lemma SafeChar8_guarded:
  "SafeChar8Add s a b Result =
     (if \<not> Result then (EFI_INVALID_PARAMETER, None)
      else if uint a \<le> MAX_INT8 \<and> uint b \<le> MAX_INT8
      then SafeInt32ToChar8 (word_of_int (uint a + uint b)) Result
      else (EFI_BUFFER_TOO_SMALL, Some CHAR8_ERROR))"
  "SafeChar8Sub s a b Result =
     (if \<not> Result then (EFI_INVALID_PARAMETER, None)
      else if uint a \<le> MAX_INT8 \<and> uint b \<le> MAX_INT8
      then SafeInt32ToChar8 (word_of_int (uint a - uint b)) Result
      else (EFI_BUFFER_TOO_SMALL, Some CHAR8_ERROR))"
  "SafeChar8Mult s a b Result =
     (if \<not> Result then (EFI_INVALID_PARAMETER, None)
      else if uint a \<le> MAX_INT8 \<and> uint b \<le> MAX_INT8
      then SafeInt32ToChar8 (word_of_int (uint a * uint b)) Result
      else (EFI_BUFFER_TOO_SMALL, Some CHAR8_ERROR))"
  unfolding SafeChar8Add_def SafeChar8Sub_def SafeChar8Mult_def Let_def CHAR8_to_INT32_portable(1)
  by (simp_all add: CHAR8_to_INT32_portable(2))

text \<open>
  The \<^verbatim>\<open>CHAR8\<close> operations accept exactly the portable characters 0 to 0x7F, whether the
  compiler's \<^verbatim>\<open>char\<close> is signed or not, and store the mathematical result when it is a portable
  character again; everything else stores \<^verbatim>\<open>CHAR8_ERROR\<close> and is reported.
\<close>

theorem SafeChar8_arithmetic:
  "safe_CHAR8_operation (SafeChar8Add s a b) a b (uint a + uint b) \<and>
   safe_CHAR8_operation (SafeChar8Sub s a b) a b (uint a - uint b) \<and>
   safe_CHAR8_operation (SafeChar8Mult s a b) a b (uint a * uint b)"
proof (cases "uint a \<le> MAX_INT8 \<and> uint b \<le> MAX_INT8")
  case True
  have "uint a * uint b \<le> 127 * 127" using True by (intro mult_mono) (simp_all add: efi_const)
  moreover have "- 127 \<le> uint a - uint b" "uint a - uint b \<le> 127"
    using True uint_limits(1) [of a] uint_limits(1) [of b] unfolding MAX_INT8_def by linarith+
  ultimately have "sint (word_of_int x :: INT32) = x"
    if "x \<in> {uint a + uint b, uint a - uint b, uint a * uint b}" for x
    using that True
    by (intro INT32.val_of) (auto simp: efi_const intro: order_trans [of _ 0])
  then have narrow: "safe_CHAR8 (SafeInt32ToChar8 (word_of_int x)) x"
    if "x \<in> {uint a + uint b, uint a - uint b, uint a * uint b}" for x
    using that narrowing(7) [of "word_of_int x"] by metis
  have "SafeInt32ToChar8 x False = (EFI_INVALID_PARAMETER, None)" for x
    by (simp add: SafeInt32ToChar8_def)
  then show ?thesis
    using True narrow [of "uint a + uint b"] narrow [of "uint a - uint b"]
      narrow [of "uint a * uint b"]
    by (simp only: safe_CHAR8_operation_def CHAR8.safe_result_iff SafeChar8_guarded) simp
next
  case False
  then show ?thesis by (auto simp: safe_CHAR8_operation_def SafeChar8_guarded)
qed

end
