(* ===== verification/EventServices.thy ===== *)
theory EventServices
  imports BaseBits "HOL-Library.Monad_Syntax"
begin

text \<open>
  Events, task priority levels and timers of the DXE core
  (\<^verbatim>\<open>MdeModulePkg/Core/Dxe/Event/Event.c\<close>, \<^verbatim>\<open>Tpl.c\<close>, \<^verbatim>\<open>Timer.c\<close> and the locks of
  \<^verbatim>\<open>Library/Library.c\<close>).

  The state holds the module's variables.  A list of events is the HOL list of their addresses
  (the rings of \<open>LinkedList\<close>, seen through \<open>dlist\<close>), and of a link in an event the model keeps
  whether its \<^verbatim>\<open>ForwardLink\<close> is set, which the code tests.  \<open>ievent\<close> is the memory of the event
  structures; a closed event stays there with its signature cleared.  \<open>notify_log\<close> records each
  call of a notification function with the priority it ran at; it is not part of the program.

  Lowering the priority runs pending notifications, which may call any service.  A notification
  function is the parameter \<open>notify\<close>, a state transformer that may fail to return.  The loops
  that wait for it run on fuel; the result is \<open>None\<close> when the fuel is used up.
\<close>

section \<open>Constants and state\<close>

definition EVT_TIMER :: u32 where [efi_const]: "EVT_TIMER = 0x80000000"
definition EVT_RUNTIME :: u32 where [efi_const]: "EVT_RUNTIME = 0x40000000"
definition EVT_NOTIFY_WAIT :: u32 where [efi_const]: "EVT_NOTIFY_WAIT = 0x00000100"
definition EVT_NOTIFY_SIGNAL :: u32 where [efi_const]: "EVT_NOTIFY_SIGNAL = 0x00000200"
definition EVT_SIGNAL_EXIT_BOOT_SERVICES :: u32 where
  [efi_const]: "EVT_SIGNAL_EXIT_BOOT_SERVICES = 0x00000201"
definition EVT_SIGNAL_VIRTUAL_ADDRESS_CHANGE :: u32 where
  [efi_const]: "EVT_SIGNAL_VIRTUAL_ADDRESS_CHANGE = 0x60000202"

definition TPL_APPLICATION :: nat where [efi_const]: "TPL_APPLICATION = 4"
definition TPL_CALLBACK :: nat where [efi_const]: "TPL_CALLBACK = 8"
definition TPL_NOTIFY :: nat where [efi_const]: "TPL_NOTIFY = 16"
definition TPL_HIGH_LEVEL :: nat where [efi_const]: "TPL_HIGH_LEVEL = 31"

definition EVT_EXFLAG_EVENT_GROUP :: u8 where [efi_const]: "EVT_EXFLAG_EVENT_GROUP = 0x01"
definition EVT_EXFLAG_EVENT_PROTOCOL_NOTIFICATION :: u8 where
  [efi_const]: "EVT_EXFLAG_EVENT_PROTOCOL_NOTIFICATION = 0x02"

text \<open>\<^verbatim>\<open>SIGNATURE_32 ('e','v','n','t')\<close> and the delays of \<^verbatim>\<open>EFI_TIMER_DELAY\<close>.\<close>

definition EVENT_SIGNATURE :: UINTN where [efi_const]: "EVENT_SIGNATURE = 0x746E7665"

definition TimerCancel :: u32 where [efi_const]: "TimerCancel = 0"
definition TimerPeriodic :: u32 where [efi_const]: "TimerPeriodic = 1"
definition TimerRelative :: u32 where [efi_const]: "TimerRelative = 2"

record EFI_LOCK =
  lock_Tpl :: nat
  OwnerTpl :: nat
  lock_Lock :: EFI_LOCK_STATE

record EFI_RUNTIME_EVENT_ENTRY =
  rt_Type :: u32
  rt_NotifyTpl :: nat
  rt_NotifyFunction :: u64
  rt_NotifyContext :: u64
  rt_Event :: EFI_EVENT

text \<open>The four links of an \<^verbatim>\<open>IEVENT\<close> are whether their \<^verbatim>\<open>ForwardLink\<close> is set.\<close>

record IEVENT =
  ev_Signature :: UINTN
  ev_Type :: u32
  ev_SignalCount :: u32
  ev_SignalLink :: bool
  ev_NotifyTpl :: nat
  ev_NotifyFunction :: u64
  ev_NotifyContext :: u64
  ev_EventGroup :: EFI_GUID
  ev_NotifyLink :: bool
  ev_ExFlag :: u8
  ev_RuntimeLink :: bool
  ev_RuntimeData :: EFI_RUNTIME_EVENT_ENTRY
  ev_TimerLink :: bool
  ev_TriggerTime :: u64
  ev_Period :: u64

text \<open>What \<^verbatim>\<open>AllocateZeroPool\<close> gives; the group GUID is all zeros.\<close>

definition zero_IEVENT :: IEVENT where
  "zero_IEVENT = \<lparr>ev_Signature = 0, ev_Type = 0, ev_SignalCount = 0, ev_SignalLink = False,
     ev_NotifyTpl = 0, ev_NotifyFunction = 0, ev_NotifyContext = 0,
     ev_EventGroup = replicate 16 0, ev_NotifyLink = False, ev_ExFlag = 0,
     ev_RuntimeLink = False,
     ev_RuntimeData = \<lparr>rt_Type = 0, rt_NotifyTpl = 0, rt_NotifyFunction = 0,
       rt_NotifyContext = 0, rt_Event = 0\<rparr>,
     ev_TimerLink = False, ev_TriggerTime = 0, ev_Period = 0\<rparr>"

record event_state =
  gEfiCurrentTpl :: nat
  gEventQueueLock :: EFI_LOCK
  gEventQueue :: "nat \<Rightarrow> EFI_EVENT list"
  gEventPending :: u64
  gEventSignalQueue :: "EFI_EVENT list"
  gIdleLoopEvent :: EFI_EVENT
  gRuntimeEventHead :: "EFI_EVENT list"
  mEfiTimerList :: "EFI_EVENT list"
  mEfiTimerLock :: EFI_LOCK
  mEfiCheckTimerEvent :: EFI_EVENT
  mEfiSystemTimeLock :: EFI_LOCK
  mEfiSystemTime :: u64
  ievent :: "EFI_EVENT \<Rightarrow> IEVENT"
  InterruptsEnabled :: bool
  unregister_calls :: "EFI_EVENT list"
  notify_log :: "(EFI_EVENT \<times> nat) list"

text \<open>
  The environment: the CPU protocol (\<^verbatim>\<open>gCpu\<close> may be NULL), the SMM base protocol with the
  answer of \<^verbatim>\<open>InSmm\<close>, the pool (the address of a new event, 0 when there is none, for the
  runtime pool or the boot pool), the period of the timer, the GUIDs of the two groups, and the
  status of \<^verbatim>\<open>CoreFreePool\<close>.
\<close>

record event_env =
  env_gCpu :: bool
  env_InSmm :: "(EFI_STATUS \<times> bool) option"
  env_AllocateEvent :: "bool \<Rightarrow> event_state \<Rightarrow> EFI_EVENT"
  env_GetTimerPeriod :: u64
  gEfiEventExitBootServicesGuid :: EFI_GUID
  gEfiEventVirtualAddressChangeGuid :: EFI_GUID
  gIdleLoopEventGuid :: EFI_GUID
  env_FreeEvent :: "EFI_EVENT \<Rightarrow> EFI_STATUS"

text \<open>The variables as they are initialized: \<^verbatim>\<open>EFI_INITIALIZE_LOCK_VARIABLE\<close> gives a released lock.\<close>

definition EFI_INITIALIZE_LOCK_VARIABLE :: "nat \<Rightarrow> EFI_LOCK" where
  "EFI_INITIALIZE_LOCK_VARIABLE Priority = \<lparr>lock_Tpl = Priority, OwnerTpl = TPL_APPLICATION, lock_Lock = EfiLockReleased\<rparr>"

definition event_statics :: event_state where
  "event_statics = \<lparr>gEfiCurrentTpl = TPL_APPLICATION,
     gEventQueueLock = EFI_INITIALIZE_LOCK_VARIABLE TPL_HIGH_LEVEL, gEventQueue = (\<lambda>_. []),
     gEventPending = 0, gEventSignalQueue = [], gIdleLoopEvent = NULL, gRuntimeEventHead = [],
     mEfiTimerList = [], mEfiTimerLock = EFI_INITIALIZE_LOCK_VARIABLE (TPL_HIGH_LEVEL - 1),
     mEfiCheckTimerEvent = NULL, mEfiSystemTimeLock = EFI_INITIALIZE_LOCK_VARIABLE TPL_HIGH_LEVEL,
     mEfiSystemTime = 0, ievent = (\<lambda>_. zero_IEVENT), InterruptsEnabled = False,
     unregister_calls = [], notify_log = []\<rparr>"

type_synonym event_notify = "EFI_EVENT \<Rightarrow> event_state \<Rightarrow> event_state option"

definition update_event :: "EFI_EVENT \<Rightarrow> (IEVENT \<Rightarrow> IEVENT) \<Rightarrow> event_state \<Rightarrow> event_state" where
  "update_event Event f s = s\<lparr>ievent := (ievent s)(Event := f (ievent s Event))\<rparr>"

section \<open>Priority levels and locks\<close>

definition CoreSetInterruptState :: "event_env \<Rightarrow> bool \<Rightarrow> event_state \<Rightarrow> event_state" where
  "CoreSetInterruptState env Enable s =
     (if \<not> env_gCpu env then s
      else if \<not> Enable then s\<lparr>InterruptsEnabled := False\<rparr>
      else case env_InSmm env of
             None \<Rightarrow> s\<lparr>InterruptsEnabled := True\<rparr>
           | Some (Status, InSmm) \<Rightarrow>
               if \<not> EFI_ERROR Status \<and> \<not> InSmm then s\<lparr>InterruptsEnabled := True\<rparr> else s)"

definition CoreRaiseTpl :: "event_env \<Rightarrow> nat \<Rightarrow> event_state \<Rightarrow> nat \<times> event_state" where
  "CoreRaiseTpl env NewTpl s =
     (let OldTpl = gEfiCurrentTpl s;
          s1 = (if NewTpl \<ge> TPL_HIGH_LEVEL \<and> OldTpl < TPL_HIGH_LEVEL
                then CoreSetInterruptState env False s else s)
      in (OldTpl, s1\<lparr>gEfiCurrentTpl := NewTpl\<rparr>))"

text \<open>
  The lock operations of \<^verbatim>\<open>Library.c\<close>, for the lock that \<open>get\<close> reads and \<open>upd\<close> updates.
\<close>

definition CoreAcquireLock ::
  "event_env \<Rightarrow> (event_state \<Rightarrow> EFI_LOCK) \<Rightarrow> ((EFI_LOCK \<Rightarrow> EFI_LOCK) \<Rightarrow> event_state \<Rightarrow> event_state) \<Rightarrow>
     event_state \<Rightarrow> event_state" where
  "CoreAcquireLock env get upd s =
     (let (OldTpl, s1) = CoreRaiseTpl env (lock_Tpl (get s)) s
      in upd (\<lambda>l. l\<lparr>OwnerTpl := OldTpl, lock_Lock := EfiLockAcquired\<rparr>) s1)"

definition CoreAcquireEventLock :: "event_env \<Rightarrow> event_state \<Rightarrow> event_state" where
  "CoreAcquireEventLock env s = CoreAcquireLock env gEventQueueLock gEventQueueLock_update s"

text \<open>
  \<^verbatim>\<open>(UINTN)(1 << Tpl)\<close>: the shift is of an \<^verbatim>\<open>int\<close>.
\<close>

definition event_bit :: "nat \<Rightarrow> u64" where
  "event_bit Tpl = scast (push_bit Tpl 1 :: u32)"

text \<open>
  Restoring the priority dispatches, and dispatching releases a lock, which restores the
  priority: the two functions of the code and their loops are mutually recursive.
\<close>

function CoreRestoreTpl :: "nat \<Rightarrow> event_env \<Rightarrow> event_notify \<Rightarrow> nat \<Rightarrow> event_state \<Rightarrow> event_state option"
  and CoreRestoreTpl_loop ::
    "nat \<Rightarrow> event_env \<Rightarrow> event_notify \<Rightarrow> nat \<Rightarrow> event_state \<Rightarrow> event_state option"
  and CoreDispatchEventNotifies ::
    "nat \<Rightarrow> event_env \<Rightarrow> event_notify \<Rightarrow> nat \<Rightarrow> event_state \<Rightarrow> event_state option"
  and CoreDispatchEventNotifies_loop ::
    "nat \<Rightarrow> event_env \<Rightarrow> event_notify \<Rightarrow> nat \<Rightarrow> event_state \<Rightarrow> event_state option"
where
  "CoreRestoreTpl 0 env notify NewTpl s = None"
| "CoreRestoreTpl (Suc n) env notify NewTpl s =
     (let s0 = (if gEfiCurrentTpl s \<ge> TPL_HIGH_LEVEL \<and> NewTpl < TPL_HIGH_LEVEL
                then s\<lparr>gEfiCurrentTpl := TPL_HIGH_LEVEL\<rparr> else s)
      in do {
        s1 \<leftarrow> CoreRestoreTpl_loop n env notify NewTpl s0;
        let s2 = s1\<lparr>gEfiCurrentTpl := NewTpl\<rparr>;
        Some (if NewTpl < TPL_HIGH_LEVEL then CoreSetInterruptState env True s2 else s2)
      })"
| "CoreRestoreTpl_loop 0 env notify NewTpl s = None"
| "CoreRestoreTpl_loop (Suc n) env notify NewTpl s =
     (if gEventPending s = 0 then Some s
      else let PendingTpl = nat (HighBitSet64 (gEventPending s))
        in if PendingTpl \<le> NewTpl then Some s
           else do {
             let s1 = s\<lparr>gEfiCurrentTpl := PendingTpl\<rparr>;
             let s2 = (if PendingTpl < TPL_HIGH_LEVEL then CoreSetInterruptState env True s1 else s1);
             s3 \<leftarrow> CoreDispatchEventNotifies n env notify PendingTpl s2;
             CoreRestoreTpl_loop n env notify NewTpl s3
           })"
| "CoreDispatchEventNotifies 0 env notify Priority s = None"
| "CoreDispatchEventNotifies (Suc n) env notify Priority s =
     do {
       s1 \<leftarrow> CoreDispatchEventNotifies_loop n env notify Priority (CoreAcquireEventLock env s);
       let s2 = s1\<lparr>gEventPending := gEventPending s1 AND NOT (event_bit Priority)\<rparr>;
       CoreRestoreTpl n env notify (OwnerTpl (gEventQueueLock s2))
         (s2\<lparr>gEventQueueLock := (gEventQueueLock s2)\<lparr>lock_Lock := EfiLockReleased\<rparr>\<rparr>)
     }"
| "CoreDispatchEventNotifies_loop 0 env notify Priority s = None"
| "CoreDispatchEventNotifies_loop (Suc n) env notify Priority s =
     (case gEventQueue s Priority of
        [] \<Rightarrow> Some s
      | Event # rest \<Rightarrow>
          do {
            let s1 = update_event Event (\<lambda>e. e\<lparr>ev_NotifyLink := False\<rparr>)
                       (s\<lparr>gEventQueue := (gEventQueue s)(Priority := rest)\<rparr>);
            let s2 = (if ev_Type (ievent s1 Event) AND EVT_NOTIFY_SIGNAL \<noteq> 0
                      then update_event Event (\<lambda>e. e\<lparr>ev_SignalCount := 0\<rparr>) s1 else s1);
            s3 \<leftarrow> CoreRestoreTpl n env notify (OwnerTpl (gEventQueueLock s2))
                   (s2\<lparr>gEventQueueLock := (gEventQueueLock s2)\<lparr>lock_Lock := EfiLockReleased\<rparr>\<rparr>);
            s4 \<leftarrow> notify Event (s3\<lparr>notify_log := notify_log s3 @ [(Event, gEfiCurrentTpl s3)]\<rparr>);
            CoreDispatchEventNotifies_loop n env notify Priority (CoreAcquireEventLock env s4)
          })"
  by pat_completeness simp_all
termination
  by (relation "measure (\<lambda>x. case x of Inl (Inl (n, _)) \<Rightarrow> n | Inl (Inr (n, _)) \<Rightarrow> n
        | Inr (Inl (n, _)) \<Rightarrow> n | Inr (Inr (n, _)) \<Rightarrow> n)") simp_all

definition CoreReleaseLock ::
  "nat \<Rightarrow> event_env \<Rightarrow> event_notify \<Rightarrow> (event_state \<Rightarrow> EFI_LOCK) \<Rightarrow>
     ((EFI_LOCK \<Rightarrow> EFI_LOCK) \<Rightarrow> event_state \<Rightarrow> event_state) \<Rightarrow> event_state \<Rightarrow> event_state option" where
  "CoreReleaseLock n env notify get upd s =
     CoreRestoreTpl n env notify (OwnerTpl (get s)) (upd (\<lambda>l. l\<lparr>lock_Lock := EfiLockReleased\<rparr>) s)"

definition CoreReleaseEventLock ::
  "nat \<Rightarrow> event_env \<Rightarrow> event_notify \<Rightarrow> event_state \<Rightarrow> event_state option" where
  "CoreReleaseEventLock n env notify s =
     CoreReleaseLock n env notify gEventQueueLock gEventQueueLock_update s"

section \<open>Signalling\<close>

text \<open>\<^verbatim>\<open>RemoveEntryList\<close> takes an event out of the queue it is in, whichever it is.\<close>

definition CoreNotifyEvent :: "EFI_EVENT \<Rightarrow> event_state \<Rightarrow> event_state" where
  "CoreNotifyEvent Event s =
     (let s1 = (if ev_NotifyLink (ievent s Event)
                then s\<lparr>gEventQueue := (\<lambda>p. remove1 Event (gEventQueue s p))\<rparr> else s);
          Tpl = ev_NotifyTpl (ievent s Event)
      in update_event Event (\<lambda>e. e\<lparr>ev_NotifyLink := True\<rparr>)
           (s1\<lparr>gEventQueue := (gEventQueue s1)(Tpl := gEventQueue s1 Tpl @ [Event]),
               gEventPending := gEventPending s1 OR event_bit Tpl\<rparr>))"

definition CoreNotifySignalList ::
  "nat \<Rightarrow> event_env \<Rightarrow> event_notify \<Rightarrow> EFI_GUID \<Rightarrow> event_state \<Rightarrow> event_state option" where
  "CoreNotifySignalList n env notify EventGroup s =
     (let s1 = CoreAcquireEventLock env s
      in CoreReleaseEventLock n env notify
           (fold (\<lambda>Event s. if ev_EventGroup (ievent s Event) = EventGroup
                            then CoreNotifyEvent Event s else s) (gEventSignalQueue s1) s1))"

definition CoreSignalEvent ::
  "nat \<Rightarrow> event_env \<Rightarrow> event_notify \<Rightarrow> EFI_EVENT \<Rightarrow> event_state \<Rightarrow> (EFI_STATUS \<times> event_state) option" where
  "CoreSignalEvent n env notify UserEvent s =
     (if UserEvent = NULL then Some (EFI_INVALID_PARAMETER, s)
      else if ev_Signature (ievent s UserEvent) \<noteq> EVENT_SIGNATURE
      then Some (EFI_INVALID_PARAMETER, s)
      else do {
        let s1 = CoreAcquireEventLock env s;
        s2 \<leftarrow> (if ev_SignalCount (ievent s1 UserEvent) = 0
               then let s11 = update_event UserEvent (\<lambda>e. e\<lparr>ev_SignalCount := ev_SignalCount e + 1\<rparr>) s1
                 in if ev_Type (ievent s11 UserEvent) AND EVT_NOTIFY_SIGNAL \<noteq> 0
                    then if ev_ExFlag (ievent s11 UserEvent) AND EVT_EXFLAG_EVENT_GROUP \<noteq> 0
                         then do {
                           s12 \<leftarrow> CoreReleaseEventLock n env notify s11;
                           s13 \<leftarrow> CoreNotifySignalList n env notify
                                   (ev_EventGroup (ievent s12 UserEvent)) s12;
                           Some (CoreAcquireEventLock env s13)
                         }
                         else Some (CoreNotifyEvent UserEvent s11)
                    else Some s11
               else Some s1);
        s3 \<leftarrow> CoreReleaseEventLock n env notify s2;
        Some (EFI_SUCCESS, s3)
      })"

definition CoreCheckEvent ::
  "nat \<Rightarrow> event_env \<Rightarrow> event_notify \<Rightarrow> EFI_EVENT \<Rightarrow> event_state \<Rightarrow> (EFI_STATUS \<times> event_state) option" where
  "CoreCheckEvent n env notify UserEvent s =
     (if UserEvent = NULL then Some (EFI_INVALID_PARAMETER, s)
      else if ev_Signature (ievent s UserEvent) \<noteq> EVENT_SIGNATURE
      then Some (EFI_INVALID_PARAMETER, s)
      else if ev_Type (ievent s UserEvent) AND EVT_NOTIFY_SIGNAL \<noteq> 0
      then Some (EFI_INVALID_PARAMETER, s)
      else do {
        s1 \<leftarrow> (if ev_SignalCount (ievent s UserEvent) = 0 \<and>
                  ev_Type (ievent s UserEvent) AND EVT_NOTIFY_WAIT \<noteq> 0
               then let s01 = CoreAcquireEventLock env s
                 in CoreReleaseEventLock n env notify
                      (if ev_SignalCount (ievent s01 UserEvent) = 0
                       then CoreNotifyEvent UserEvent s01 else s01)
               else Some s);
        if ev_SignalCount (ievent s1 UserEvent) \<noteq> 0
        then do {
          let s11 = CoreAcquireEventLock env s1;
          let (Status, s12) =
            (if ev_SignalCount (ievent s11 UserEvent) \<noteq> 0
             then (EFI_SUCCESS, update_event UserEvent (\<lambda>e. e\<lparr>ev_SignalCount := 0\<rparr>) s11)
             else (EFI_NOT_READY, s11));
          s13 \<leftarrow> CoreReleaseEventLock n env notify s12;
          Some (Status, s13)
        }
        else Some (EFI_NOT_READY, s1)
      })"

text \<open>
  \<^verbatim>\<open>CoreWaitForEvent\<close>: one pass over the events, from \<open>Index\<close> on, and the loop around it.  The
  result is the status and the index the caller gets.
\<close>

fun CoreWaitForEvent_pass ::
  "nat \<Rightarrow> event_env \<Rightarrow> event_notify \<Rightarrow> EFI_EVENT list \<Rightarrow> nat \<Rightarrow> event_state \<Rightarrow>
     (EFI_STATUS \<times> nat \<times> event_state) option" where
  "CoreWaitForEvent_pass n env notify [] Index s = Some (EFI_NOT_READY, Index, s)"
| "CoreWaitForEvent_pass n env notify (Event # Events) Index s =
     do {
       (Status, s1) \<leftarrow> CoreCheckEvent n env notify Event s;
       if Status \<noteq> EFI_NOT_READY then Some (Status, Index, s1)
       else CoreWaitForEvent_pass n env notify Events (Index + 1) s1
     }"

fun CoreWaitForEvent_loop ::
  "nat \<Rightarrow> event_env \<Rightarrow> event_notify \<Rightarrow> EFI_EVENT list \<Rightarrow> event_state \<Rightarrow>
     (EFI_STATUS \<times> nat \<times> event_state) option" where
  "CoreWaitForEvent_loop 0 env notify UserEvents s = None"
| "CoreWaitForEvent_loop (Suc n) env notify UserEvents s =
     do {
       (Status, Index, s1) \<leftarrow> CoreWaitForEvent_pass n env notify UserEvents 0 s;
       if Status \<noteq> EFI_NOT_READY then Some (Status, Index, s1)
       else do {
         (_, s2) \<leftarrow> CoreSignalEvent n env notify (gIdleLoopEvent s1) s1;
         CoreWaitForEvent_loop n env notify UserEvents s2
       }
     }"

definition CoreWaitForEvent ::
  "nat \<Rightarrow> event_env \<Rightarrow> event_notify \<Rightarrow> nat \<Rightarrow> EFI_EVENT list option \<Rightarrow> event_state \<Rightarrow>
     (EFI_STATUS \<times> nat option \<times> event_state) option" where
  "CoreWaitForEvent n env notify NumberOfEvents UserEvents s =
     (if gEfiCurrentTpl s \<noteq> TPL_APPLICATION then Some (EFI_UNSUPPORTED, None, s)
      else if NumberOfEvents = 0 then Some (EFI_INVALID_PARAMETER, None, s)
      else case UserEvents of
             None \<Rightarrow> Some (EFI_INVALID_PARAMETER, None, s)
           | Some Events \<Rightarrow>
               do {
                 (Status, Index, s1) \<leftarrow>
                   CoreWaitForEvent_loop n env notify (take NumberOfEvents Events) s;
                 Some (Status, Some Index, s1)
               })"

section \<open>Timers\<close>

text \<open>Insertion in front of the first timer that triggers later.\<close>

definition CoreInsertEventTimer :: "EFI_EVENT \<Rightarrow> event_state \<Rightarrow> event_state" where
  "CoreInsertEventTimer Event s =
     (let TriggerTime = ev_TriggerTime (ievent s Event);
          earlier = (\<lambda>Event2. \<not> ev_TriggerTime (ievent s Event2) > TriggerTime)
      in update_event Event (\<lambda>e. e\<lparr>ev_TimerLink := True\<rparr>)
           (s\<lparr>mEfiTimerList := takeWhile earlier (mEfiTimerList s) @ Event #
                dropWhile earlier (mEfiTimerList s)\<rparr>))"

definition CoreCurrentSystemTime ::
  "nat \<Rightarrow> event_env \<Rightarrow> event_notify \<Rightarrow> event_state \<Rightarrow> (u64 \<times> event_state) option" where
  "CoreCurrentSystemTime n env notify s =
     do {
       let s1 = CoreAcquireLock env mEfiSystemTimeLock mEfiSystemTimeLock_update s;
       let SystemTime = mEfiSystemTime s1;
       s2 \<leftarrow> CoreReleaseLock n env notify mEfiSystemTimeLock mEfiSystemTimeLock_update s1;
       Some (SystemTime, s2)
     }"

text \<open>The loop of \<^verbatim>\<open>CoreCheckTimers\<close>, and its body for a timer that is due.\<close>

definition CoreCheckTimers_expire ::
  "nat \<Rightarrow> event_env \<Rightarrow> event_notify \<Rightarrow> u64 \<Rightarrow> EFI_EVENT \<Rightarrow> event_state \<Rightarrow> event_state option" where
  "CoreCheckTimers_expire n env notify SystemTime Event s =
     do {
       let s1 = update_event Event (\<lambda>e. e\<lparr>ev_TimerLink := False\<rparr>)
                  (s\<lparr>mEfiTimerList := remove1 Event (mEfiTimerList s)\<rparr>);
       (_, s2) \<leftarrow> CoreSignalEvent n env notify Event s1;
       if ev_Period (ievent s2 Event) \<noteq> 0
       then do {
         let s3 = update_event Event
               (\<lambda>e. e\<lparr>ev_TriggerTime := ev_TriggerTime e + ev_Period e\<rparr>) s2;
         s4 \<leftarrow> (if ev_TriggerTime (ievent s3 Event) \<le> SystemTime
                then do {
                  (_, s31) \<leftarrow> CoreSignalEvent n env notify (mEfiCheckTimerEvent s3)
                    (update_event Event (\<lambda>e. e\<lparr>ev_TriggerTime := SystemTime\<rparr>) s3);
                  Some s31
                }
                else Some s3);
         Some (CoreInsertEventTimer Event s4)
       }
       else Some s2
     }"

fun CoreCheckTimers_loop ::
  "nat \<Rightarrow> event_env \<Rightarrow> event_notify \<Rightarrow> u64 \<Rightarrow> event_state \<Rightarrow> event_state option" where
  "CoreCheckTimers_loop 0 env notify SystemTime s = None"
| "CoreCheckTimers_loop (Suc n) env notify SystemTime s =
     (case mEfiTimerList s of
        [] \<Rightarrow> Some s
      | Event # _ \<Rightarrow>
          if ev_TriggerTime (ievent s Event) > SystemTime then Some s
          else do {
            s1 \<leftarrow> CoreCheckTimers_expire n env notify SystemTime Event s;
            CoreCheckTimers_loop n env notify SystemTime s1
          })"

definition CoreCheckTimers ::
  "nat \<Rightarrow> event_env \<Rightarrow> event_notify \<Rightarrow> event_state \<Rightarrow> event_state option" where
  "CoreCheckTimers n env notify s =
     do {
       let s1 = CoreAcquireLock env mEfiTimerLock mEfiTimerLock_update s;
       (SystemTime, s2) \<leftarrow> CoreCurrentSystemTime n env notify s1;
       s3 \<leftarrow> CoreCheckTimers_loop n env notify SystemTime s2;
       CoreReleaseLock n env notify mEfiTimerLock mEfiTimerLock_update s3
     }"

definition CoreTimerTick ::
  "nat \<Rightarrow> event_env \<Rightarrow> event_notify \<Rightarrow> u64 \<Rightarrow> event_state \<Rightarrow> event_state option" where
  "CoreTimerTick n env notify Duration s =
     do {
       let s1 = CoreAcquireLock env mEfiSystemTimeLock mEfiSystemTimeLock_update s;
       let s2 = s1\<lparr>mEfiSystemTime := mEfiSystemTime s1 + Duration\<rparr>;
       s3 \<leftarrow> (case mEfiTimerList s2 of
                [] \<Rightarrow> Some s2
              | Event # _ \<Rightarrow>
                  if ev_TriggerTime (ievent s2 Event) \<le> mEfiSystemTime s2
                  then do {
                    (_, s21) \<leftarrow> CoreSignalEvent n env notify (mEfiCheckTimerEvent s2) s2;
                    Some s21
                  }
                  else Some s2);
       CoreReleaseLock n env notify mEfiSystemTimeLock mEfiSystemTimeLock_update s3
     }"

definition CoreSetTimer ::
  "nat \<Rightarrow> event_env \<Rightarrow> event_notify \<Rightarrow> EFI_EVENT \<Rightarrow> u32 \<Rightarrow> u64 \<Rightarrow> event_state \<Rightarrow>
     (EFI_STATUS \<times> event_state) option" where
  "CoreSetTimer n env notify UserEvent Type TriggerTime s =
     (if UserEvent = NULL then Some (EFI_INVALID_PARAMETER, s)
      else if ev_Signature (ievent s UserEvent) \<noteq> EVENT_SIGNATURE
      then Some (EFI_INVALID_PARAMETER, s)
      else if Type > TimerRelative \<or> ev_Type (ievent s UserEvent) AND EVT_TIMER = 0
      then Some (EFI_INVALID_PARAMETER, s)
      else do {
        let s1 = CoreAcquireLock env mEfiTimerLock mEfiTimerLock_update s;
        let s2 = (if ev_TimerLink (ievent s1 UserEvent)
                  then update_event UserEvent (\<lambda>e. e\<lparr>ev_TimerLink := False\<rparr>)
                         (s1\<lparr>mEfiTimerList := remove1 UserEvent (mEfiTimerList s1)\<rparr>)
                  else s1);
        let s3 = update_event UserEvent (\<lambda>e. e\<lparr>ev_TriggerTime := 0, ev_Period := 0\<rparr>) s2;
        s4 \<leftarrow> (if Type \<noteq> TimerCancel
               then do {
                 let TriggerTime1 = (if Type = TimerPeriodic \<and> TriggerTime = 0
                                     then env_GetTimerPeriod env else TriggerTime);
                 let s31 = (if Type = TimerPeriodic
                            then update_event UserEvent (\<lambda>e. e\<lparr>ev_Period := TriggerTime1\<rparr>) s3
                            else s3);
                 (SystemTime, s32) \<leftarrow> CoreCurrentSystemTime n env notify s31;
                 let s33 = CoreInsertEventTimer UserEvent
                       (update_event UserEvent
                          (\<lambda>e. e\<lparr>ev_TriggerTime := SystemTime + TriggerTime1\<rparr>) s32);
                 if TriggerTime1 = 0
                 then do {
                   (_, s34) \<leftarrow> CoreSignalEvent n env notify (mEfiCheckTimerEvent s33) s33;
                   Some s34
                 }
                 else Some s33
               }
               else Some s3);
        s5 \<leftarrow> CoreReleaseLock n env notify mEfiTimerLock mEfiTimerLock_update s4;
        Some (EFI_SUCCESS, s5)
      })"

section \<open>Creating and closing events\<close>

text \<open>The types that may be created, \<^verbatim>\<open>mEventTable\<close>.\<close>

definition mEventTable :: "u32 list" where
  "mEventTable = [EVT_TIMER OR EVT_NOTIFY_SIGNAL, EVT_TIMER, EVT_NOTIFY_WAIT, EVT_NOTIFY_SIGNAL,
     EVT_SIGNAL_EXIT_BOOT_SERVICES, EVT_SIGNAL_VIRTUAL_ADDRESS_CHANGE, 0,
     EVT_TIMER OR EVT_NOTIFY_WAIT]"

text \<open>The type and group of an event: \<^verbatim>\<open>Type\<close> and \<^verbatim>\<open>EventGroup\<close> are converted into each other.\<close>

definition CoreCreateEventInternal_group ::
  "event_env \<Rightarrow> u32 \<Rightarrow> EFI_GUID option \<Rightarrow> u32 \<times> EFI_GUID option" where
  "CoreCreateEventInternal_group env Type EventGroup =
     (case EventGroup of
        Some g \<Rightarrow>
          (if g = gEfiEventExitBootServicesGuid env then EVT_SIGNAL_EXIT_BOOT_SERVICES
           else if g = gEfiEventVirtualAddressChangeGuid env then EVT_SIGNAL_VIRTUAL_ADDRESS_CHANGE
           else Type, Some g)
      | None \<Rightarrow>
          (Type,
           if Type = EVT_SIGNAL_EXIT_BOOT_SERVICES then Some (gEfiEventExitBootServicesGuid env)
           else if Type = EVT_SIGNAL_VIRTUAL_ADDRESS_CHANGE
           then Some (gEfiEventVirtualAddressChangeGuid env) else None))"

text \<open>The fields of the new event.\<close>

definition CoreCreateEventInternal_init ::
  "u32 \<Rightarrow> nat \<Rightarrow> u64 \<Rightarrow> u64 \<Rightarrow> EFI_GUID option \<Rightarrow> EFI_EVENT \<Rightarrow> IEVENT" where
  "CoreCreateEventInternal_init Type NotifyTpl NotifyFunction NotifyContext EventGroup IEvent =
     (let e1 = zero_IEVENT\<lparr>ev_Signature := EVENT_SIGNATURE, ev_Type := Type,
            ev_NotifyTpl := NotifyTpl, ev_NotifyFunction := NotifyFunction,
            ev_NotifyContext := NotifyContext\<rparr>;
          e2 = (case EventGroup of
                  None \<Rightarrow> e1
                | Some g \<Rightarrow> e1\<lparr>ev_EventGroup := g,
                    ev_ExFlag := ev_ExFlag e1 OR EVT_EXFLAG_EVENT_GROUP\<rparr>)
      in if Type AND EVT_RUNTIME \<noteq> 0
         then e2\<lparr>ev_RuntimeData := \<lparr>rt_Type = Type, rt_NotifyTpl = NotifyTpl,
                   rt_NotifyFunction = NotifyFunction, rt_NotifyContext = NotifyContext,
                   rt_Event = IEvent\<rparr>,
                 ev_RuntimeLink := True\<rparr>
         else e2)"

text \<open>
  \<open>EventPtr\<close>: the out parameter \<^verbatim>\<open>Event\<close> is not NULL; the result holds what is stored there.
\<close>

definition CoreCreateEventInternal ::
  "nat \<Rightarrow> event_env \<Rightarrow> event_notify \<Rightarrow> u32 \<Rightarrow> nat \<Rightarrow> u64 \<Rightarrow> u64 \<Rightarrow> EFI_GUID option \<Rightarrow> bool \<Rightarrow>
     event_state \<Rightarrow> (EFI_STATUS \<times> EFI_EVENT option \<times> event_state) option" where
  "CoreCreateEventInternal n env notify Type NotifyTpl NotifyFunction NotifyContext EventGroup
     EventPtr s =
     (if \<not> EventPtr then Some (EFI_INVALID_PARAMETER, None, s)
      else if Type \<notin> set mEventTable then Some (EFI_INVALID_PARAMETER, None, s)
      else if EventGroup \<noteq> None \<and>
              (Type = EVT_SIGNAL_EXIT_BOOT_SERVICES \<or> Type = EVT_SIGNAL_VIRTUAL_ADDRESS_CHANGE)
      then Some (EFI_INVALID_PARAMETER, None, s)
      else
        let (Type1, EventGroup1) = CoreCreateEventInternal_group env Type EventGroup;
            notifies = (Type1 AND (EVT_NOTIFY_WAIT OR EVT_NOTIFY_SIGNAL) \<noteq> 0)
        in if notifies \<and> (NotifyFunction = 0 \<or> NotifyTpl \<le> TPL_APPLICATION \<or>
                          NotifyTpl \<ge> TPL_HIGH_LEVEL)
           then Some (EFI_INVALID_PARAMETER, None, s)
           else
             let IEvent = env_AllocateEvent env (Type1 AND EVT_RUNTIME \<noteq> 0) s
             in if IEvent = NULL then Some (EFI_OUT_OF_RESOURCES, None, s)
                else
                  let e = CoreCreateEventInternal_init Type1 (if notifies then NotifyTpl else 0)
                        (if notifies then NotifyFunction else 0)
                        (if notifies then NotifyContext else 0) EventGroup1 IEvent;
                      s1 = update_event IEvent (\<lambda>_. e)
                             (if Type1 AND EVT_RUNTIME \<noteq> 0
                              then s\<lparr>gRuntimeEventHead := gRuntimeEventHead s @ [IEvent]\<rparr> else s);
                      s2 = CoreAcquireEventLock env s1;
                      s3 = (if Type1 AND EVT_NOTIFY_SIGNAL \<noteq> 0
                            then update_event IEvent (\<lambda>e. e\<lparr>ev_SignalLink := True\<rparr>)
                                   (s2\<lparr>gEventSignalQueue := IEvent # gEventSignalQueue s2\<rparr>)
                            else s2)
                  in do {
                    s4 \<leftarrow> CoreReleaseEventLock n env notify s3;
                    Some (EFI_SUCCESS, Some IEvent, s4)
                  })"

definition CoreCreateEventEx ::
  "nat \<Rightarrow> event_env \<Rightarrow> event_notify \<Rightarrow> u32 \<Rightarrow> nat \<Rightarrow> u64 \<Rightarrow> u64 \<Rightarrow> EFI_GUID option \<Rightarrow> bool \<Rightarrow>
     event_state \<Rightarrow> (EFI_STATUS \<times> EFI_EVENT option \<times> event_state) option" where
  "CoreCreateEventEx n env notify Type NotifyTpl NotifyFunction NotifyContext EventGroup EventPtr s =
     (if Type AND (EVT_NOTIFY_WAIT OR EVT_NOTIFY_SIGNAL) \<noteq> 0 \<and>
         NotifyTpl \<noteq> TPL_APPLICATION \<and> NotifyTpl \<noteq> TPL_CALLBACK \<and> NotifyTpl \<noteq> TPL_NOTIFY
      then Some (EFI_INVALID_PARAMETER, None, s)
      else CoreCreateEventInternal n env notify Type NotifyTpl NotifyFunction NotifyContext
             EventGroup EventPtr s)"

definition CoreCreateEvent ::
  "nat \<Rightarrow> event_env \<Rightarrow> event_notify \<Rightarrow> u32 \<Rightarrow> nat \<Rightarrow> u64 \<Rightarrow> u64 \<Rightarrow> bool \<Rightarrow>
     event_state \<Rightarrow> (EFI_STATUS \<times> EFI_EVENT option \<times> event_state) option" where
  "CoreCreateEvent n env notify Type NotifyTpl NotifyFunction NotifyContext EventPtr s =
     CoreCreateEventEx n env notify Type NotifyTpl NotifyFunction NotifyContext None EventPtr s"

text \<open>
  \<^verbatim>\<open>CoreUnregisterProtocolNotify\<close> belongs to the handle database; its call is recorded.
\<close>

definition CoreCloseEvent ::
  "nat \<Rightarrow> event_env \<Rightarrow> event_notify \<Rightarrow> EFI_EVENT \<Rightarrow> event_state \<Rightarrow> (EFI_STATUS \<times> event_state) option" where
  "CoreCloseEvent n env notify UserEvent s =
     (if UserEvent = NULL then Some (EFI_INVALID_PARAMETER, s)
      else if ev_Signature (ievent s UserEvent) \<noteq> EVENT_SIGNATURE
      then Some (EFI_INVALID_PARAMETER, s)
      else do {
        s1 \<leftarrow> (if ev_Type (ievent s UserEvent) AND EVT_TIMER \<noteq> 0
               then do { (_, s01) \<leftarrow> CoreSetTimer n env notify UserEvent TimerCancel 0 s; Some s01 }
               else Some s);
        let s2 = CoreAcquireEventLock env s1;
        let s3 = (if ev_RuntimeLink (ievent s2 UserEvent)
                  then s2\<lparr>gRuntimeEventHead := remove1 UserEvent (gRuntimeEventHead s2)\<rparr> else s2);
        let s4 = (if ev_NotifyLink (ievent s3 UserEvent)
                  then s3\<lparr>gEventQueue := (\<lambda>p. remove1 UserEvent (gEventQueue s3 p))\<rparr> else s3);
        let s5 = (if ev_SignalLink (ievent s4 UserEvent)
                  then s4\<lparr>gEventSignalQueue := remove1 UserEvent (gEventSignalQueue s4)\<rparr> else s4);
        s6 \<leftarrow> CoreReleaseEventLock n env notify s5;
        let s7 = (if ev_ExFlag (ievent s6 UserEvent) AND EVT_EXFLAG_EVENT_PROTOCOL_NOTIFICATION \<noteq> 0
                  then s6\<lparr>unregister_calls := unregister_calls s6 @ [UserEvent]\<rparr> else s6);
        Some (env_FreeEvent env UserEvent, update_event UserEvent (\<lambda>e. e\<lparr>ev_Signature := 0\<rparr>) s7)
      })"

text \<open>
  The notification functions of the core itself: \<open>CoreCheckTimers_address\<close> stands for the
  address of \<^verbatim>\<open>CoreCheckTimers\<close> and \<open>EfiEventEmptyFunction_address\<close> for that of
  \<^verbatim>\<open>EfiEventEmptyFunction\<close>.  Every other function is a driver's, the parameter \<open>driver\<close>.
\<close>

definition CoreCheckTimers_address :: u64 where "CoreCheckTimers_address = 1"
definition EfiEventEmptyFunction_address :: u64 where "EfiEventEmptyFunction_address = 2"

definition EfiEventEmptyFunction :: event_notify where
  "EfiEventEmptyFunction Event s = Some s"

fun event_notify_function :: "nat \<Rightarrow> event_env \<Rightarrow> event_notify \<Rightarrow> event_notify" where
  "event_notify_function 0 env driver Event s = None"
| "event_notify_function (Suc n) env driver Event s =
     (if ev_NotifyFunction (ievent s Event) = CoreCheckTimers_address
      then CoreCheckTimers n env (event_notify_function n env driver) s
      else if ev_NotifyFunction (ievent s Event) = EfiEventEmptyFunction_address
      then EfiEventEmptyFunction Event s
      else driver Event s)"

definition CoreInitializeTimer ::
  "nat \<Rightarrow> event_env \<Rightarrow> event_notify \<Rightarrow> event_state \<Rightarrow> event_state option" where
  "CoreInitializeTimer n env notify s =
     do {
       (Status, Event, s1) \<leftarrow> CoreCreateEventInternal n env notify EVT_NOTIFY_SIGNAL
         (TPL_HIGH_LEVEL - 1) CoreCheckTimers_address 0 None True s;
       Some (case Event of None \<Rightarrow> s1 | Some e \<Rightarrow> s1\<lparr>mEfiCheckTimerEvent := e\<rparr>)
     }"

definition CoreInitializeEventServices ::
  "nat \<Rightarrow> event_env \<Rightarrow> event_notify \<Rightarrow> event_state \<Rightarrow> (EFI_STATUS \<times> event_state) option" where
  "CoreInitializeEventServices n env notify s =
     do {
       let s1 = s\<lparr>gEventQueue := (\<lambda>p. if p \<le> TPL_HIGH_LEVEL then [] else gEventQueue s p)\<rparr>;
       s2 \<leftarrow> CoreInitializeTimer n env notify s1;
       (Status, Event, s3) \<leftarrow> CoreCreateEventEx n env notify EVT_NOTIFY_SIGNAL TPL_NOTIFY
         EfiEventEmptyFunction_address 0 (Some (gIdleLoopEventGuid env)) True s2;
       Some (EFI_SUCCESS, case Event of None \<Rightarrow> s3 | Some e \<Rightarrow> s3\<lparr>gIdleLoopEvent := e\<rparr>)
     }"

end
