(* ===== verification/EventTpl.thy ===== *)
theory EventTpl
  imports EventServices
begin

text \<open>
  Priority levels and the dispatch of notifications: the invariant of the event database, what a
  notification function owes the core (locale \<open>notify_contract\<close>), and that lowering the priority
  keeps the invariant and leaves nothing pending above the new level.
\<close>

section \<open>Pending bits\<close>

lemma event_bit_eq: "p < 31 \<Longrightarrow> event_bit p = push_bit p 1"
  unfolding event_bit_def
  by (rule bit_word_eqI) (auto simp: bit_signed_iff bit_exp_iff min_def)

lemma bit_event_bit: "p < 31 \<Longrightarrow> bit (event_bit p) q \<longleftrightarrow> q = p"
  by (auto simp: event_bit_eq bit_exp_iff)

section \<open>The invariant\<close>

definition ev_live :: "event_state \<Rightarrow> EFI_EVENT \<Rightarrow> bool" where
  "ev_live s e \<longleftrightarrow> ev_Signature (ievent s e) = EVENT_SIGNATURE"

text \<open>
  The notification queues hold live events once, each in the queue of its priority, and a queue
  that is not empty has its pending bit set.
\<close>

definition ev_queues_ok :: "event_state \<Rightarrow> bool" where
  "ev_queues_ok s \<longleftrightarrow>
     (\<forall>p. distinct (gEventQueue s p)) \<and>
     (\<forall>p e. e \<in> set (gEventQueue s p) \<longrightarrow>
        ev_live s e \<and> ev_NotifyLink (ievent s e) \<and> ev_NotifyTpl (ievent s e) = p \<and> p < TPL_HIGH_LEVEL) \<and>
     (\<forall>e. ev_live s e \<and> ev_NotifyLink (ievent s e) \<longrightarrow>
        e \<in> set (gEventQueue s (ev_NotifyTpl (ievent s e)))) \<and>
     (\<forall>p. gEventQueue s p \<noteq> [] \<longrightarrow> bit (gEventPending s) p) \<and>
     (\<forall>p. bit (gEventPending s) p \<longrightarrow> p < TPL_HIGH_LEVEL)"

text \<open>The signal queue holds the live events that are notified when signalled.\<close>

definition ev_signals_ok :: "event_state \<Rightarrow> bool" where
  "ev_signals_ok s \<longleftrightarrow>
     distinct (gEventSignalQueue s) \<and>
     (\<forall>e. e \<in> set (gEventSignalQueue s) \<longleftrightarrow> ev_live s e \<and> ev_SignalLink (ievent s e)) \<and>
     (\<forall>e. ev_live s e \<longrightarrow>
        (ev_SignalLink (ievent s e) \<longleftrightarrow> ev_Type (ievent s e) AND EVT_NOTIFY_SIGNAL \<noteq> 0) \<and>
        (ev_Type (ievent s e) AND (EVT_NOTIFY_WAIT OR EVT_NOTIFY_SIGNAL) \<noteq> 0 \<longrightarrow>
           TPL_APPLICATION < ev_NotifyTpl (ievent s e) \<and> ev_NotifyTpl (ievent s e) < TPL_HIGH_LEVEL))"

text \<open>The timer list holds the live events with a running timer in the order of their times.\<close>

definition ev_timers_ok :: "event_state \<Rightarrow> bool" where
  "ev_timers_ok s \<longleftrightarrow>
     distinct (mEfiTimerList s) \<and>
     sorted_wrt (\<lambda>e f. ev_TriggerTime (ievent s e) \<le> ev_TriggerTime (ievent s f)) (mEfiTimerList s) \<and>
     (\<forall>e. e \<in> set (mEfiTimerList s) \<longleftrightarrow> ev_live s e \<and> ev_TimerLink (ievent s e)) \<and>
     (\<forall>e. ev_live s e \<and> ev_TimerLink (ievent s e) \<longrightarrow> ev_Type (ievent s e) AND EVT_TIMER \<noteq> 0) \<and>
     NULL \<notin> set (mEfiTimerList s)"

definition ev_locks_ok :: "event_state \<Rightarrow> bool" where
  "ev_locks_ok s \<longleftrightarrow>
     lock_Tpl (gEventQueueLock s) = TPL_HIGH_LEVEL \<and> lock_Tpl (mEfiTimerLock s) = TPL_HIGH_LEVEL - 1 \<and>
     lock_Tpl (mEfiSystemTimeLock s) = TPL_HIGH_LEVEL"

definition ev_inv :: "event_state \<Rightarrow> bool" where
  "ev_inv s \<longleftrightarrow> ev_queues_ok s \<and> ev_signals_ok s \<and> ev_timers_ok s \<and> ev_locks_ok s"

definition ev_unlocked :: "event_state \<Rightarrow> bool" where
  "ev_unlocked s \<longleftrightarrow> lock_Lock (gEventQueueLock s) = EfiLockReleased"

lemmas ev_inv_defs = ev_inv_def ev_queues_ok_def ev_signals_ok_def ev_timers_ok_def ev_locks_ok_def
  ev_live_def ev_unlocked_def

text \<open>Updates that leave the database alone.\<close>

lemma ev_inv_frame [simp]:
  "ev_inv (s\<lparr>gEfiCurrentTpl := p\<rparr>) \<longleftrightarrow> ev_inv s"
  "ev_inv (s\<lparr>InterruptsEnabled := b\<rparr>) \<longleftrightarrow> ev_inv s"
  "ev_inv (s\<lparr>notify_log := l\<rparr>) \<longleftrightarrow> ev_inv s"
  "ev_inv (s\<lparr>mEfiSystemTime := t\<rparr>) \<longleftrightarrow> ev_inv s"
  "ev_inv (s\<lparr>gIdleLoopEvent := e\<rparr>) \<longleftrightarrow> ev_inv s"
  "ev_inv (s\<lparr>mEfiCheckTimerEvent := e\<rparr>) \<longleftrightarrow> ev_inv s"
  "ev_inv (s\<lparr>unregister_calls := es\<rparr>) \<longleftrightarrow> ev_inv s"
  "ev_inv (s\<lparr>gRuntimeEventHead := es\<rparr>) \<longleftrightarrow> ev_inv s"
  by (simp_all add: ev_inv_defs)

lemma ev_inv_lock [simp]:
  "lock_Tpl l = lock_Tpl (gEventQueueLock s) \<Longrightarrow> ev_inv (s\<lparr>gEventQueueLock := l\<rparr>) \<longleftrightarrow> ev_inv s"
  "lock_Tpl l = lock_Tpl (mEfiTimerLock s) \<Longrightarrow> ev_inv (s\<lparr>mEfiTimerLock := l\<rparr>) \<longleftrightarrow> ev_inv s"
  "lock_Tpl l = lock_Tpl (mEfiSystemTimeLock s) \<Longrightarrow> ev_inv (s\<lparr>mEfiSystemTimeLock := l\<rparr>) \<longleftrightarrow> ev_inv s"
  by (simp_all add: ev_inv_defs)

text \<open>
  The interrupt flag and the locks as single updates.
\<close>

definition interrupt_flag :: "event_env \<Rightarrow> bool \<Rightarrow> bool \<Rightarrow> bool" where
  "interrupt_flag env Enable old = InterruptsEnabled
     (CoreSetInterruptState env Enable ((undefined :: event_state)\<lparr>InterruptsEnabled := old\<rparr>))"

lemma CoreSetInterruptState_eq:
  "CoreSetInterruptState env Enable s =
     s\<lparr>InterruptsEnabled := interrupt_flag env Enable (InterruptsEnabled s)\<rparr>"
  by (auto simp: CoreSetInterruptState_def interrupt_flag_def split: option.split)

definition lock_flag :: "event_env \<Rightarrow> event_state \<Rightarrow> bool" where
  "lock_flag env s = (if gEfiCurrentTpl s < TPL_HIGH_LEVEL
     then interrupt_flag env False (InterruptsEnabled s) else InterruptsEnabled s)"

lemma CoreAcquireEventLock_eq:
  assumes "lock_Tpl (gEventQueueLock s) = TPL_HIGH_LEVEL"
  shows "CoreAcquireEventLock env s =
    s\<lparr>gEfiCurrentTpl := TPL_HIGH_LEVEL, InterruptsEnabled := lock_flag env s,
      gEventQueueLock := (gEventQueueLock s)\<lparr>OwnerTpl := gEfiCurrentTpl s, lock_Lock := EfiLockAcquired\<rparr>\<rparr>"
  using assms
  by (cases s) (auto simp: CoreAcquireEventLock_def CoreAcquireLock_def CoreRaiseTpl_def
      CoreSetInterruptState_eq lock_flag_def)

lemma ev_inv_lockD: "ev_inv s \<Longrightarrow> lock_Tpl (gEventQueueLock s) = TPL_HIGH_LEVEL"
  by (simp add: ev_inv_def ev_locks_ok_def)

text \<open>
  Between the calls of services the event lock is free and nothing is pending above the current
  priority.
\<close>

definition ev_quiet :: "nat \<Rightarrow> event_state \<Rightarrow> bool" where
  "ev_quiet Tpl s \<longleftrightarrow> (\<forall>p. bit (gEventPending s) p \<longrightarrow> p \<le> Tpl)"

definition ev_settled :: "nat \<Rightarrow> event_state \<Rightarrow> bool" where
  "ev_settled Tpl s \<longleftrightarrow> ev_inv s \<and> ev_unlocked s \<and> gEfiCurrentTpl s = Tpl \<and> ev_quiet Tpl s"

section \<open>Notification functions\<close>

text \<open>
  What a notification function owes the core: called in a settled state it returns, if it
  returns, in a settled state and at the priority it was called at.
\<close>

locale notify_contract =
  fixes env :: event_env and notify :: event_notify
  assumes keeps: "\<lbrakk>ev_settled Tpl s; notify e s = Some s'\<rbrakk> \<Longrightarrow> ev_settled Tpl s'"

section \<open>Updates of one event\<close>

lemma update_event_fields [simp]:
  "gEfiCurrentTpl (update_event e f s) = gEfiCurrentTpl s"
  "gEventQueueLock (update_event e f s) = gEventQueueLock s"
  "gEventQueue (update_event e f s) = gEventQueue s"
  "gEventPending (update_event e f s) = gEventPending s"
  "gEventSignalQueue (update_event e f s) = gEventSignalQueue s"
  "mEfiTimerList (update_event e f s) = mEfiTimerList s"
  "mEfiTimerLock (update_event e f s) = mEfiTimerLock s"
  "mEfiSystemTimeLock (update_event e f s) = mEfiSystemTimeLock s"
  "mEfiSystemTime (update_event e f s) = mEfiSystemTime s"
  "mEfiCheckTimerEvent (update_event e f s) = mEfiCheckTimerEvent s"
  "notify_log (update_event e f s) = notify_log s"
  by (simp_all add: update_event_def)

lemma update_event_same:
  assumes "\<And>x. g (f x) = g x"
  shows "g (ievent (update_event e f s) e') = g (ievent s e')"
  using assms by (simp add: update_event_def)

lemma ev_signals_ok_update:
  assumes "\<And>x. ev_Signature (f x) = ev_Signature x" "\<And>x. ev_Type (f x) = ev_Type x"
    "\<And>x. ev_SignalLink (f x) = ev_SignalLink x" "\<And>x. ev_NotifyTpl (f x) = ev_NotifyTpl x"
  shows "ev_signals_ok (update_event e f s) \<longleftrightarrow> ev_signals_ok s"
  by (simp add: ev_signals_ok_def ev_live_def update_event_same [of ev_Signature, OF assms(1)]
      update_event_same [of ev_Type, OF assms(2)] update_event_same [of ev_SignalLink, OF assms(3)]
      update_event_same [of ev_NotifyTpl, OF assms(4)])

lemma ev_timers_ok_update:
  assumes "\<And>x. ev_Signature (f x) = ev_Signature x" "\<And>x. ev_Type (f x) = ev_Type x"
    "\<And>x. ev_TimerLink (f x) = ev_TimerLink x" "\<And>x. ev_TriggerTime (f x) = ev_TriggerTime x"
  shows "ev_timers_ok (update_event e f s) \<longleftrightarrow> ev_timers_ok s"
  by (simp add: ev_timers_ok_def ev_live_def update_event_same [of ev_Signature, OF assms(1)]
      update_event_same [of ev_Type, OF assms(2)] update_event_same [of ev_TimerLink, OF assms(3)]
      update_event_same [of ev_TriggerTime, OF assms(4)])

lemma ev_queues_ok_update:
  assumes "\<And>x. ev_Signature (f x) = ev_Signature x" "\<And>x. ev_NotifyLink (f x) = ev_NotifyLink x"
    "\<And>x. ev_NotifyTpl (f x) = ev_NotifyTpl x"
  shows "ev_queues_ok (update_event e f s) \<longleftrightarrow> ev_queues_ok s"
  by (simp add: ev_queues_ok_def ev_live_def update_event_same [of ev_Signature, OF assms(1)]
      update_event_same [of ev_NotifyLink, OF assms(2)] update_event_same [of ev_NotifyTpl, OF assms(3)])

lemma ev_locks_ok_update [simp]: "ev_locks_ok (update_event e f s) \<longleftrightarrow> ev_locks_ok s"
  by (simp add: ev_locks_ok_def)

lemmas ev_ok_update = ev_signals_ok_update ev_timers_ok_update ev_queues_ok_update

lemma ev_ok_queue [simp]:
  "ev_signals_ok (s\<lparr>gEventQueue := q\<rparr>) \<longleftrightarrow> ev_signals_ok s"
  "ev_timers_ok (s\<lparr>gEventQueue := q\<rparr>) \<longleftrightarrow> ev_timers_ok s"
  "ev_locks_ok (s\<lparr>gEventQueue := q\<rparr>) \<longleftrightarrow> ev_locks_ok s"
  "ev_signals_ok (s\<lparr>gEventPending := b\<rparr>) \<longleftrightarrow> ev_signals_ok s"
  "ev_timers_ok (s\<lparr>gEventPending := b\<rparr>) \<longleftrightarrow> ev_timers_ok s"
  "ev_locks_ok (s\<lparr>gEventPending := b\<rparr>) \<longleftrightarrow> ev_locks_ok s"
  by (simp_all add: ev_signals_ok_def ev_timers_ok_def ev_locks_ok_def ev_live_def)

lemma ev_queues_okD:
  assumes "ev_queues_ok s"
  shows "distinct (gEventQueue s p)"
    and "e \<in> set (gEventQueue s p) \<Longrightarrow>
      ev_live s e \<and> ev_NotifyLink (ievent s e) \<and> ev_NotifyTpl (ievent s e) = p \<and> p < TPL_HIGH_LEVEL"
    and "\<lbrakk>ev_live s e; ev_NotifyLink (ievent s e)\<rbrakk> \<Longrightarrow> e \<in> set (gEventQueue s (ev_NotifyTpl (ievent s e)))"
    and "gEventQueue s p \<noteq> [] \<Longrightarrow> bit (gEventPending s) p"
    and "bit (gEventPending s) p \<Longrightarrow> p < TPL_HIGH_LEVEL"
  using assms unfolding ev_queues_ok_def by blast+

lemma ev_queues_okI:
  assumes "\<And>p. distinct (gEventQueue s p)"
    and "\<And>p e. e \<in> set (gEventQueue s p) \<Longrightarrow>
      ev_live s e \<and> ev_NotifyLink (ievent s e) \<and> ev_NotifyTpl (ievent s e) = p \<and> p < TPL_HIGH_LEVEL"
    and "\<And>e. \<lbrakk>ev_live s e; ev_NotifyLink (ievent s e)\<rbrakk> \<Longrightarrow> e \<in> set (gEventQueue s (ev_NotifyTpl (ievent s e)))"
    and "\<And>p. gEventQueue s p \<noteq> [] \<Longrightarrow> bit (gEventPending s) p"
    and "\<And>p. bit (gEventPending s) p \<Longrightarrow> p < TPL_HIGH_LEVEL"
  shows "ev_queues_ok s"
  using assms unfolding ev_queues_ok_def by blast

text \<open>Taking the first event out of a queue, and clearing the count of an event.\<close>

lemma dequeue_inv:
  assumes inv: "ev_inv s" and q: "gEventQueue s p = e # rest"
  shows "ev_inv (update_event e (\<lambda>x. x\<lparr>ev_NotifyLink := False\<rparr>)
    (s\<lparr>gEventQueue := (gEventQueue s)(p := rest)\<rparr>))"
proof -
  let ?s = "update_event e (\<lambda>x. x\<lparr>ev_NotifyLink := False\<rparr>) (s\<lparr>gEventQueue := (gEventQueue s)(p := rest)\<rparr>)"
  have qs: "ev_queues_ok s" using inv by (simp add: ev_inv_def)
  have e: "e \<notin> set rest" "distinct rest" "ev_live s e" "ev_NotifyTpl (ievent s e) = p"
    using qs q by (auto simp: ev_queues_ok_def dest: spec [of _ p])
  have other: "e \<notin> set (gEventQueue s p')" if "p' \<noteq> p" for p'
    using qs that e(4) by (auto simp: ev_queues_ok_def)
  note D = ev_queues_okD [OF qs]
  have "ev_queues_ok ?s"
  proof (rule ev_queues_okI)
    show "distinct (gEventQueue ?s p')" for p' using D(1) [of p'] e(2) by simp
    show "ev_live ?s e' \<and> ev_NotifyLink (ievent ?s e') \<and> ev_NotifyTpl (ievent ?s e') = p' \<and> p' < TPL_HIGH_LEVEL"
      if "e' \<in> set (gEventQueue ?s p')" for e' p'
      using that D(2) [of e' p'] e(1) other [of p'] q
      by (cases "p' = p"; cases "e' = e") (auto simp: update_event_def ev_live_def)
    show "e' \<in> set (gEventQueue ?s (ev_NotifyTpl (ievent ?s e')))"
      if "ev_live ?s e'" "ev_NotifyLink (ievent ?s e')" for e'
      using that D(3) [of e'] q by (cases "e' = e") (auto simp: update_event_def ev_live_def)
    show "bit (gEventPending ?s) p'" if "gEventQueue ?s p' \<noteq> []" for p'
      using that D(4) [of p'] q by (cases "p' = p") auto
    show "p' < TPL_HIGH_LEVEL" if "bit (gEventPending ?s) p'" for p'
      using that D(5) [of p'] by simp
  qed
  then show ?thesis using inv by (simp add: ev_inv_def ev_ok_update)
qed

lemma update_SignalCount_inv [simp]:
  "ev_inv (update_event e (\<lambda>x. x\<lparr>ev_SignalCount := c x\<rparr>) s) \<longleftrightarrow> ev_inv s"
  by (simp add: ev_inv_def ev_ok_update)

lemma clear_pending_inv:
  assumes "ev_inv s" and "gEventQueue s p = []" and "p < TPL_HIGH_LEVEL"
  shows "ev_inv (s\<lparr>gEventPending := gEventPending s AND NOT (event_bit p)\<rparr>)"
  using assms
  by (auto simp: ev_inv_def ev_queues_ok_def ev_live_def bit_and_iff bit_not_iff bit_event_bit efi_const)

section \<open>Lowering the priority\<close>

text \<open>Nothing is pending above a level once the highest pending bit is not above it.\<close>

lemma ev_quiet_iff:
  "ev_quiet Tpl s \<longleftrightarrow> gEventPending s = 0 \<or> nat (HighBitSet64 (gEventPending s)) \<le> Tpl"
proof (cases "gEventPending s = 0")
  case True
  then show ?thesis by (simp add: ev_quiet_def)
next
  case False
  then obtain h where "HighBitSet64 (gEventPending s) = int h" "bit (gEventPending s) h"
    "\<forall>m. bit (gEventPending s) m \<longrightarrow> m \<le> h"
    by (rule HighBitSet64_bit) blast
  with False show ?thesis unfolding ev_quiet_def by (auto intro: order_trans)
qed

lemma pending_level:
  assumes "ev_inv s" and "gEventPending s \<noteq> 0"
  shows "nat (HighBitSet64 (gEventPending s)) < TPL_HIGH_LEVEL"
    and "bit (gEventPending s) (nat (HighBitSet64 (gEventPending s)))"
proof -
  from assms(2) obtain h where "HighBitSet64 (gEventPending s) = int h" "bit (gEventPending s) h"
    by (rule HighBitSet64_bit)
  then show "nat (HighBitSet64 (gEventPending s)) < TPL_HIGH_LEVEL"
    "bit (gEventPending s) (nat (HighBitSet64 (gEventPending s)))"
    using assms(1) ev_queues_okD(5) by (auto simp: ev_inv_def)
qed

definition ev_owned :: "nat \<Rightarrow> event_state \<Rightarrow> bool" where
  "ev_owned Tpl s \<longleftrightarrow> ev_inv s \<and> OwnerTpl (gEventQueueLock s) = Tpl"

lemma acquire_owned: "ev_settled Tpl s \<Longrightarrow> ev_owned Tpl (CoreAcquireEventLock env s)"
  by (simp add: ev_settled_def ev_owned_def CoreAcquireEventLock_eq ev_inv_lockD)

lemma release_ready:
  "ev_owned Tpl s \<Longrightarrow>
     ev_inv (s\<lparr>gEventQueueLock := (gEventQueueLock s)\<lparr>lock_Lock := EfiLockReleased\<rparr>\<rparr>) \<and>
     ev_unlocked (s\<lparr>gEventQueueLock := (gEventQueueLock s)\<lparr>lock_Lock := EfiLockReleased\<rparr>\<rparr>)"
  by (simp add: ev_owned_def ev_unlocked_def)

lemma dequeue_owned:
  assumes "ev_owned Tpl s" and "gEventQueue s p = e # rest"
  shows "ev_owned Tpl (update_event e (\<lambda>x. x\<lparr>ev_NotifyLink := False\<rparr>)
    (s\<lparr>gEventQueue := (gEventQueue s)(p := rest)\<rparr>))"
  using assms dequeue_inv by (simp add: ev_owned_def)

lemma CoreRestoreTpl_loop_done:
  "ev_quiet Tpl s \<Longrightarrow> CoreRestoreTpl_loop (Suc n) env notify Tpl s = Some s"
  by (auto simp: Let_def ev_quiet_iff)

lemma CoreRestoreTpl_loop_dispatch:
  assumes "\<not> ev_quiet Tpl s" and "nat (HighBitSet64 (gEventPending s)) < TPL_HIGH_LEVEL"
  shows "CoreRestoreTpl_loop (Suc n) env notify Tpl s =
    (case CoreDispatchEventNotifies n env notify (nat (HighBitSet64 (gEventPending s)))
            (CoreSetInterruptState env True (s\<lparr>gEfiCurrentTpl := nat (HighBitSet64 (gEventPending s))\<rparr>)) of
       None \<Rightarrow> None | Some s' \<Rightarrow> CoreRestoreTpl_loop n env notify Tpl s')"
  using assms by (simp add: Let_def ev_quiet_iff Option.bind_def not_le split: option.split)

text \<open>With nothing pending above the new level the priority is just set.\<close>

definition restored :: "event_env \<Rightarrow> nat \<Rightarrow> event_state \<Rightarrow> event_state" where
  "restored env Tpl s = s\<lparr>gEfiCurrentTpl := Tpl, InterruptsEnabled :=
     (if Tpl < TPL_HIGH_LEVEL then interrupt_flag env True (InterruptsEnabled s) else InterruptsEnabled s)\<rparr>"

lemma ev_quiet_frame [simp]: "ev_quiet Tpl (s\<lparr>gEfiCurrentTpl := p\<rparr>) \<longleftrightarrow> ev_quiet Tpl s"
  by (simp add: ev_quiet_def)

lemma CoreRestoreTpl_quiet:
  assumes "ev_quiet Tpl s"
  shows "CoreRestoreTpl (Suc (Suc n)) env notify Tpl s = Some (restored env Tpl s)"
  using assms
  by (simp add: Let_def CoreRestoreTpl_loop_done CoreSetInterruptState_eq restored_def
      del: CoreRestoreTpl_loop.simps)

lemma CoreRestoreTpl_quietD:
  assumes "CoreRestoreTpl n env notify Tpl s = Some s'" and "ev_quiet Tpl s"
  shows "s' = restored env Tpl s"
proof -
  obtain m where "n = Suc (Suc m)"
    using assms(1) by (cases n; cases "n - 1") (auto simp: Let_def)
  then show ?thesis using assms CoreRestoreTpl_quiet by simp
qed

context notify_contract
begin

lemma dispatch_correct:
  "(\<forall>Tpl s s'. ev_inv s \<and> ev_unlocked s \<and> CoreRestoreTpl n env notify Tpl s = Some s' \<longrightarrow>
      ev_settled Tpl s') \<and>
   (\<forall>Tpl s s'. ev_inv s \<and> ev_unlocked s \<and> CoreRestoreTpl_loop n env notify Tpl s = Some s' \<longrightarrow>
      ev_inv s' \<and> ev_unlocked s' \<and> ev_quiet Tpl s') \<and>
   (\<forall>Tpl s s'. ev_settled Tpl s \<and> Tpl < TPL_HIGH_LEVEL \<and>
      CoreDispatchEventNotifies n env notify Tpl s = Some s' \<longrightarrow> ev_settled Tpl s') \<and>
   (\<forall>Tpl s s'. ev_owned Tpl s \<and> CoreDispatchEventNotifies_loop n env notify Tpl s = Some s' \<longrightarrow>
      ev_owned Tpl s' \<and> gEventQueue s' Tpl = [])"
proof (induction n)
  case 0
  show ?case by simp
next
  case (Suc n)
  have R: "ev_settled Tpl s'"
    if "ev_inv s" "ev_unlocked s" "CoreRestoreTpl n env notify Tpl s = Some s'" for Tpl s s'
    using Suc that by blast
  have RL: "ev_inv s' \<and> ev_unlocked s' \<and> ev_quiet Tpl s'"
    if "ev_inv s" "ev_unlocked s" "CoreRestoreTpl_loop n env notify Tpl s = Some s'" for Tpl s s'
    using Suc that by blast
  have Di: "ev_settled Tpl s'"
    if "ev_settled Tpl s" "Tpl < TPL_HIGH_LEVEL" "CoreDispatchEventNotifies n env notify Tpl s = Some s'" for Tpl s s'
    using Suc that by blast
  have DL: "ev_owned Tpl s'" "gEventQueue s' Tpl = []"
    if "ev_owned Tpl s" "CoreDispatchEventNotifies_loop n env notify Tpl s = Some s'" for Tpl s s'
    using Suc that by blast+
  have r: "ev_settled Tpl s'"
    if s: "ev_inv s" "ev_unlocked s" and run: "CoreRestoreTpl (Suc n) env notify Tpl s = Some s'" for Tpl s s'
  proof -
    obtain s0 s1 where l: "CoreRestoreTpl_loop n env notify Tpl s0 = Some s1"
      and s0: "ev_inv s0" "ev_unlocked s0" and s': "s' = (if Tpl < TPL_HIGH_LEVEL
        then CoreSetInterruptState env True (s1\<lparr>gEfiCurrentTpl := Tpl\<rparr>) else s1\<lparr>gEfiCurrentTpl := Tpl\<rparr>)"
      using run s by (auto simp: Let_def bind_eq_Some_conv ev_unlocked_def split: if_splits)
    show ?thesis using RL [OF s0 l] unfolding s'
      by (simp add: ev_settled_def ev_unlocked_def ev_quiet_def CoreSetInterruptState_eq)
  qed
  have rl: "ev_inv s' \<and> ev_unlocked s' \<and> ev_quiet Tpl s'"
    if s: "ev_inv s" "ev_unlocked s" and run: "CoreRestoreTpl_loop (Suc n) env notify Tpl s = Some s'" for Tpl s s'
  proof (cases "ev_quiet Tpl s")
    case True
    then have "s' = s" using run CoreRestoreTpl_loop_done [OF True] by simp
    then show ?thesis using s True by blast
  next
    case False
    let ?p = "nat (HighBitSet64 (gEventPending s))"
    let ?s1 = "s\<lparr>gEfiCurrentTpl := ?p\<rparr>"
    have p: "?p < TPL_HIGH_LEVEL" using pending_level(1) [OF s(1)] False by (simp add: ev_quiet_iff)
    obtain s3 where d: "CoreDispatchEventNotifies n env notify ?p (CoreSetInterruptState env True ?s1) = Some s3"
      and l: "CoreRestoreTpl_loop n env notify Tpl s3 = Some s'"
      using run False p CoreRestoreTpl_loop_dispatch [of Tpl s n env notify] by (auto split: option.splits simp del: CoreRestoreTpl_loop.simps)
    have "ev_settled ?p (CoreSetInterruptState env True ?s1)"
      using s by (simp add: ev_settled_def ev_unlocked_def ev_quiet_iff CoreSetInterruptState_eq)
    then have "ev_settled ?p s3" using Di p d by blast
    then have "ev_inv s3" "ev_unlocked s3" by (simp_all add: ev_settled_def)
    from RL [OF this l] show ?thesis by blast
  qed
  have d: "ev_settled Tpl s'"
    if s: "ev_settled Tpl s" "Tpl < TPL_HIGH_LEVEL"
      and run: "CoreDispatchEventNotifies (Suc n) env notify Tpl s = Some s'" for Tpl s s'
  proof -
    obtain s1 where l: "CoreDispatchEventNotifies_loop n env notify Tpl (CoreAcquireEventLock env s) = Some s1"
      using run by (auto simp: bind_eq_Some_conv)
    let ?s2 = "s1\<lparr>gEventPending := gEventPending s1 AND NOT (event_bit Tpl)\<rparr>"
    note s1 = DL [OF acquire_owned [OF s(1)] l]
    then have s2: "ev_owned Tpl ?s2" using clear_pending_inv s(2) by (simp add: ev_owned_def)
    then have "OwnerTpl (gEventQueueLock ?s2) = Tpl" by (simp add: ev_owned_def)
    with run l have "CoreRestoreTpl n env notify Tpl
        (?s2\<lparr>gEventQueueLock := (gEventQueueLock ?s2)\<lparr>lock_Lock := EfiLockReleased\<rparr>\<rparr>) = Some s'"
      by (simp add: Let_def)
    with release_ready [OF s2] show ?thesis using R by blast
  qed
  have dl: "ev_owned Tpl s' \<and> gEventQueue s' Tpl = []"
    if s: "ev_owned Tpl s" and run: "CoreDispatchEventNotifies_loop (Suc n) env notify Tpl s = Some s'" for Tpl s s'
  proof (cases "gEventQueue s Tpl")
    case Nil
    then show ?thesis using run s by simp
  next
    case (Cons e rest)
    let ?s1 = "update_event e (\<lambda>x. x\<lparr>ev_NotifyLink := False\<rparr>) (s\<lparr>gEventQueue := (gEventQueue s)(Tpl := rest)\<rparr>)"
    let ?s2 = "if ev_Type (ievent ?s1 e) AND EVT_NOTIFY_SIGNAL \<noteq> 0
               then update_event e (\<lambda>e. e\<lparr>ev_SignalCount := 0\<rparr>) ?s1 else ?s1"
    have s2: "ev_owned Tpl ?s2" using dequeue_owned [OF s Cons] by (simp add: ev_owned_def)
    then have owner: "OwnerTpl (gEventQueueLock ?s2) = Tpl" by (simp add: ev_owned_def)
    obtain s3 s4 where rest: "CoreRestoreTpl n env notify Tpl
        (?s2\<lparr>gEventQueueLock := (gEventQueueLock ?s2)\<lparr>lock_Lock := EfiLockReleased\<rparr>\<rparr>) = Some s3"
      and n4: "notify e (s3\<lparr>notify_log := notify_log s3 @ [(e, gEfiCurrentTpl s3)]\<rparr>) = Some s4"
      and l: "CoreDispatchEventNotifies_loop n env notify Tpl (CoreAcquireEventLock env s4) = Some s'"
      using run Cons owner by (auto simp only: CoreDispatchEventNotifies_loop.simps list.case Let_def bind_eq_Some_conv)
    have "ev_settled Tpl s3" using release_ready [OF s2] R rest by blast
    then have "ev_settled Tpl (s3\<lparr>notify_log := notify_log s3 @ [(e, gEfiCurrentTpl s3)]\<rparr>)"
      by (simp add: ev_settled_def ev_unlocked_def ev_quiet_def)
    then have "ev_settled Tpl s4" using keeps n4 by blast
    then show ?thesis using DL [OF acquire_owned l] by blast
  qed
  show ?case using r rl d dl by blast
qed

lemma RestoreTpl_settled:
  "\<lbrakk>ev_inv s; ev_unlocked s; CoreRestoreTpl n env notify Tpl s = Some s'\<rbrakk> \<Longrightarrow> ev_settled Tpl s'"
  using dispatch_correct [of n] by blast

end

lemma ev_settled_queues:
  assumes "ev_settled Tpl s" and "Tpl < p"
  shows "gEventQueue s p = []"
proof (rule ccontr)
  assume "gEventQueue s p \<noteq> []"
  then have "bit (gEventPending s) p"
    using assms(1) ev_queues_okD(4) by (simp add: ev_settled_def ev_inv_def)
  then show False using assms by (auto simp: ev_settled_def ev_quiet_def)
qed

end
