(* ===== verification/EventInv.thy ===== *)
theory EventInv
  imports EventTpl
begin

text \<open>
  The services of the event database keep its invariant: each of them, called in a settled state,
  returns in a settled state at the same priority.
\<close>

section \<open>Queueing a notification\<close>

lemma ev_notifies_Tpl:
  assumes "ev_inv s" and "ev_live s e"
    and "ev_Type (ievent s e) AND EVT_NOTIFY_SIGNAL \<noteq> 0 \<or> ev_Type (ievent s e) AND EVT_NOTIFY_WAIT \<noteq> 0"
  shows "TPL_APPLICATION < ev_NotifyTpl (ievent s e)" and "ev_NotifyTpl (ievent s e) < TPL_HIGH_LEVEL"
proof -
  have "ev_Type (ievent s e) AND (EVT_NOTIFY_WAIT OR EVT_NOTIFY_SIGNAL) \<noteq> 0"
    using assms(3) by (auto simp: bit.conj_disj_distrib or_eq_0_iff)
  then show "TPL_APPLICATION < ev_NotifyTpl (ievent s e)" "ev_NotifyTpl (ievent s e) < TPL_HIGH_LEVEL"
    using assms(1,2) by (auto simp: ev_inv_def ev_signals_ok_def)
qed

lemma CoreNotifyEvent_eq:
  assumes "ev_inv s" and "ev_live s e"
  shows "CoreNotifyEvent e s = update_event e (\<lambda>x. x\<lparr>ev_NotifyLink := True\<rparr>)
    (s\<lparr>gEventQueue := (gEventQueue s)(ev_NotifyTpl (ievent s e) :=
         remove1 e (gEventQueue s (ev_NotifyTpl (ievent s e))) @ [e]),
       gEventPending := gEventPending s OR event_bit (ev_NotifyTpl (ievent s e))\<rparr>)"
proof -
  have D: "ev_queues_ok s" using assms(1) by (simp add: ev_inv_def)
  let ?t = "ev_NotifyTpl (ievent s e)"
  have "e \<notin> set (gEventQueue s p)" if "p \<noteq> ?t \<or> \<not> ev_NotifyLink (ievent s e)" for p
    using ev_queues_okD(2) [OF D, of e p] that by blast
  then have "(\<lambda>p. remove1 e (gEventQueue s p)) = (gEventQueue s)(?t := remove1 e (gEventQueue s ?t))"
    and "\<not> ev_NotifyLink (ievent s e) \<Longrightarrow> remove1 e (gEventQueue s ?t) = gEventQueue s ?t"
    by (auto simp: fun_eq_iff remove1_idem)
  then show ?thesis by (simp add: CoreNotifyEvent_def Let_def)
qed

lemma CoreNotifyEvent_inv:
  assumes inv: "ev_inv s" and live: "ev_live s e" and t: "ev_NotifyTpl (ievent s e) < TPL_HIGH_LEVEL"
  shows "ev_inv (CoreNotifyEvent e s)"
proof -
  have D: "ev_queues_ok s" using inv by (simp add: ev_inv_def)
  let ?t = "ev_NotifyTpl (ievent s e)"
  let ?s = "update_event e (\<lambda>x. x\<lparr>ev_NotifyLink := True\<rparr>)
    (s\<lparr>gEventQueue := (gEventQueue s)(?t := remove1 e (gEventQueue s ?t) @ [e]),
       gEventPending := gEventPending s OR event_bit ?t\<rparr>)"
  have other: "e \<notin> set (gEventQueue s p)" if "p \<noteq> ?t" for p
    using ev_queues_okD(2) [OF D, of e p] that by blast
  have t31: "?t < 31" using t by (simp add: efi_const)
  have "ev_queues_ok ?s"
  proof (rule ev_queues_okI)
    show "distinct (gEventQueue ?s p)" for p
      using ev_queues_okD(1) [OF D, of p] by (auto simp: distinct_remove1)
    show "ev_live ?s f \<and> ev_NotifyLink (ievent ?s f) \<and> ev_NotifyTpl (ievent ?s f) = p \<and> p < TPL_HIGH_LEVEL"
      if "f \<in> set (gEventQueue ?s p)" for f p
      using that ev_queues_okD(2) [OF D, of f p] live t other [of p] notin_set_remove1 [of f "gEventQueue s ?t" e]
      by (cases "f = e"; cases "p = ?t") (auto simp: update_event_def ev_live_def)
    show "f \<in> set (gEventQueue ?s (ev_NotifyTpl (ievent ?s f)))"
      if "ev_live ?s f" "ev_NotifyLink (ievent ?s f)" for f
      using that ev_queues_okD(3) [OF D, of f]
      by (cases "f = e") (auto simp: update_event_def ev_live_def in_set_remove1)
    show "bit (gEventPending ?s) p" if "gEventQueue ?s p \<noteq> []" for p
      using that ev_queues_okD(4) [OF D, of p]
      by (cases "p = ?t") (auto simp: bit_or_iff bit_event_bit [OF t31])
    show "p < TPL_HIGH_LEVEL" if "bit (gEventPending ?s) p" for p
      using that ev_queues_okD(5) [OF D, of p] t by (auto simp: bit_or_iff bit_event_bit [OF t31])
  qed
  then show ?thesis using inv by (simp add: CoreNotifyEvent_eq [OF inv live] ev_inv_def ev_ok_update)
qed

lemma CoreNotifyEvent_fields [simp]:
  "gEfiCurrentTpl (CoreNotifyEvent e s) = gEfiCurrentTpl s"
  "gEventQueueLock (CoreNotifyEvent e s) = gEventQueueLock s"
  "gEventSignalQueue (CoreNotifyEvent e s) = gEventSignalQueue s"
  "InterruptsEnabled (CoreNotifyEvent e s) = InterruptsEnabled s"
  "mEfiTimerList (CoreNotifyEvent e s) = mEfiTimerList s"
  "mEfiTimerLock (CoreNotifyEvent e s) = mEfiTimerLock s"
  "mEfiCheckTimerEvent (CoreNotifyEvent e s) = mEfiCheckTimerEvent s"
  "mEfiSystemTimeLock (CoreNotifyEvent e s) = mEfiSystemTimeLock s"
  "mEfiSystemTime (CoreNotifyEvent e s) = mEfiSystemTime s"
  by (simp_all add: CoreNotifyEvent_def Let_def update_event_def)

lemma CoreNotifyEvent_ievent:
  "ievent (CoreNotifyEvent e s) = (ievent s)(e := (ievent s e)\<lparr>ev_NotifyLink := True\<rparr>)"
  by (simp add: CoreNotifyEvent_def Let_def update_event_def)

lemma ev_live_NotifyEvent [simp]: "ev_live (CoreNotifyEvent e s) f \<longleftrightarrow> ev_live s f"
  by (simp add: ev_live_def CoreNotifyEvent_ievent)

lemma CoreAcquireEventLock_fields:
  assumes "ev_inv s"
  shows "ievent (CoreAcquireEventLock env s) = ievent s"
    "gEventSignalQueue (CoreAcquireEventLock env s) = gEventSignalQueue s"
    "gEventPending (CoreAcquireEventLock env s) = gEventPending s"
    "gEventQueue (CoreAcquireEventLock env s) = gEventQueue s"
    "mEfiTimerList (CoreAcquireEventLock env s) = mEfiTimerList s"
    "mEfiTimerLock (CoreAcquireEventLock env s) = mEfiTimerLock s"
    "mEfiCheckTimerEvent (CoreAcquireEventLock env s) = mEfiCheckTimerEvent s"
    "mEfiSystemTimeLock (CoreAcquireEventLock env s) = mEfiSystemTimeLock s"
    "mEfiSystemTime (CoreAcquireEventLock env s) = mEfiSystemTime s"
    "gRuntimeEventHead (CoreAcquireEventLock env s) = gRuntimeEventHead s"
  using assms by (simp_all add: CoreAcquireEventLock_eq ev_inv_lockD)

lemma notify_owned:
  assumes "ev_owned Tpl s" and "ev_live s e"
    and "ev_Type (ievent s e) AND EVT_NOTIFY_SIGNAL \<noteq> 0 \<or> ev_Type (ievent s e) AND EVT_NOTIFY_WAIT \<noteq> 0"
  shows "ev_owned Tpl (CoreNotifyEvent e s)"
  using assms CoreNotifyEvent_inv [of s e] ev_notifies_Tpl(2) [of s e] by (simp add: ev_owned_def)

lemma count_owned [simp]:
  "ev_owned Tpl (update_event e (\<lambda>x. x\<lparr>ev_SignalCount := c x\<rparr>) s) \<longleftrightarrow> ev_owned Tpl s"
  by (simp add: ev_owned_def)

lemma signal_list_owned:
  assumes "ev_owned Tpl s" and "\<forall>e \<in> set es. ev_live s e \<and> ev_Type (ievent s e) AND EVT_NOTIFY_SIGNAL \<noteq> 0"
  shows "ev_owned Tpl (fold (\<lambda>e s. if ev_EventGroup (ievent s e) = g then CoreNotifyEvent e s else s) es s)"
  using assms
proof (induction es arbitrary: s)
  case (Cons e es)
  let ?s = "if ev_EventGroup (ievent s e) = g then CoreNotifyEvent e s else s"
  have "ev_owned Tpl ?s" using Cons.prems notify_owned [of Tpl s e] by simp
  moreover have "\<forall>f \<in> set es. ev_live ?s f \<and> ev_Type (ievent ?s f) AND EVT_NOTIFY_SIGNAL \<noteq> 0"
    using Cons.prems(2) by (auto simp: CoreNotifyEvent_ievent)
  ultimately show ?case using Cons.IH [of ?s] by simp
qed simp

lemma signal_queue_notifies:
  "\<lbrakk>ev_inv s; e \<in> set (gEventSignalQueue s)\<rbrakk>
     \<Longrightarrow> ev_live s e \<and> ev_Type (ievent s e) AND EVT_NOTIFY_SIGNAL \<noteq> 0"
  unfolding ev_inv_def ev_signals_ok_def by blast

text \<open>An argument that is not a live event is refused by every service.\<close>

lemma invalid_event:
  assumes "e = NULL \<or> \<not> ev_live s e"
  shows "CoreSignalEvent n env notify e s = Some (EFI_INVALID_PARAMETER, s)"
    and "CoreCheckEvent n env notify e s = Some (EFI_INVALID_PARAMETER, s)"
    and "CoreSetTimer n env notify e Type t s = Some (EFI_INVALID_PARAMETER, s)"
    and "CoreCloseEvent n env notify e s = Some (EFI_INVALID_PARAMETER, s)"
  using assms unfolding CoreSignalEvent_def CoreCheckEvent_def CoreSetTimer_def CoreCloseEvent_def ev_live_def
  by argo+

section \<open>Signalling and checking\<close>

lemma CoreReleaseEventLock_eq:
  "CoreReleaseEventLock n env notify s = CoreRestoreTpl n env notify (OwnerTpl (gEventQueueLock s))
     (s\<lparr>gEventQueueLock := (gEventQueueLock s)\<lparr>lock_Lock := EfiLockReleased\<rparr>\<rparr>)"
  by (cases s) (simp add: CoreReleaseEventLock_def CoreReleaseLock_def)

definition counted :: "event_env \<Rightarrow> EFI_EVENT \<Rightarrow> event_state \<Rightarrow> event_state" where
  "counted env e s = update_event e (\<lambda>x. x\<lparr>ev_SignalCount := ev_SignalCount x + 1\<rparr>) (CoreAcquireEventLock env s)"

lemma CoreSignalEvent_eq:
  assumes "e \<noteq> NULL" and "ev_live s e" and "ev_inv s"
  shows "CoreSignalEvent n env notify e s = map_option (Pair EFI_SUCCESS)
    (if ev_SignalCount (ievent s e) \<noteq> 0 then CoreReleaseEventLock n env notify (CoreAcquireEventLock env s)
     else if ev_Type (ievent s e) AND EVT_NOTIFY_SIGNAL = 0 then CoreReleaseEventLock n env notify (counted env e s)
     else if ev_ExFlag (ievent s e) AND EVT_EXFLAG_EVENT_GROUP = 0
     then CoreReleaseEventLock n env notify (CoreNotifyEvent e (counted env e s))
     else do { s12 \<leftarrow> CoreReleaseEventLock n env notify (counted env e s);
               s13 \<leftarrow> CoreNotifySignalList n env notify (ev_EventGroup (ievent s12 e)) s12;
               CoreReleaseEventLock n env notify (CoreAcquireEventLock env s13) })"
  using assms unfolding CoreSignalEvent_def counted_def ev_live_def Let_def
  by (simp add: CoreAcquireEventLock_fields update_event_def map_option_bind map_conv_bind_option
      cong: bind_option_cong)

text \<open>The second half of \<^verbatim>\<open>CoreCheckEvent\<close>: take the signal if there is one.\<close>

definition event_take ::
  "nat \<Rightarrow> event_env \<Rightarrow> event_notify \<Rightarrow> EFI_EVENT \<Rightarrow> event_state \<Rightarrow> (EFI_STATUS \<times> event_state) option" where
  "event_take n env notify e s =
     (if ev_SignalCount (ievent s e) \<noteq> 0
      then let s1 = CoreAcquireEventLock env s
        in if ev_SignalCount (ievent s1 e) \<noteq> 0
           then map_option (Pair EFI_SUCCESS)
             (CoreReleaseEventLock n env notify (update_event e (\<lambda>x. x\<lparr>ev_SignalCount := 0\<rparr>) s1))
           else map_option (Pair EFI_NOT_READY) (CoreReleaseEventLock n env notify s1)
      else Some (EFI_NOT_READY, s))"

lemma CoreCheckEvent_eq:
  assumes "e \<noteq> NULL" and "ev_live s e" and "ev_inv s" and "ev_Type (ievent s e) AND EVT_NOTIFY_SIGNAL = 0"
  shows "CoreCheckEvent n env notify e s =
    (if ev_SignalCount (ievent s e) = 0 \<and> ev_Type (ievent s e) AND EVT_NOTIFY_WAIT \<noteq> 0
     then CoreReleaseEventLock n env notify (CoreNotifyEvent e (CoreAcquireEventLock env s)) \<bind>
       event_take n env notify e
     else event_take n env notify e s)"
  using assms unfolding CoreCheckEvent_def ev_live_def event_take_def [abs_def] Let_def
  by (auto simp: CoreAcquireEventLock_fields map_conv_bind_option Let_def intro!: bind_option_cong)

context notify_contract
begin

lemma release_settled:
  assumes "ev_owned Tpl s" and "CoreReleaseEventLock n env notify s = Some s'"
  shows "ev_settled Tpl s'"
  using RestoreTpl_settled [OF conjunct1 conjunct2, OF release_ready release_ready, OF assms(1,1)] assms
  by (simp add: CoreReleaseEventLock_eq ev_owned_def)

lemma CoreNotifySignalList_settled:
  assumes s: "ev_settled Tpl s" and run: "CoreNotifySignalList n env notify g s = Some s'"
  shows "ev_settled Tpl s'"
proof -
  let ?s1 = "CoreAcquireEventLock env s"
  have o: "ev_owned Tpl ?s1" using s by (rule acquire_owned)
  then have "ev_owned Tpl (fold (\<lambda>e s. if ev_EventGroup (ievent s e) = g then CoreNotifyEvent e s else s)
      (gEventSignalQueue ?s1) ?s1)"
    by (rule signal_list_owned) (use o signal_queue_notifies [of ?s1] in \<open>auto simp: ev_owned_def\<close>)
  then show ?thesis using run release_settled by (auto simp: CoreNotifySignalList_def Let_def)
qed

lemma CoreSignalEvent_settled:
  assumes s: "ev_settled Tpl s" and run: "CoreSignalEvent n env notify e s = Some (Status, s')"
  shows "ev_settled Tpl s'"
proof (cases "e = NULL \<or> \<not> ev_live s e")
  case True
  then show ?thesis using s run by (simp add: invalid_event)
next
  case False
  have inv: "ev_inv s" using s by (simp add: ev_settled_def)
  have o: "ev_owned Tpl (CoreAcquireEventLock env s)" using s by (rule acquire_owned)
  then have o1: "ev_owned Tpl (counted env e s)" by (simp add: counted_def)
  have notify: "ev_owned Tpl (CoreNotifyEvent e (counted env e s))"
    if "ev_Type (ievent s e) AND EVT_NOTIFY_SIGNAL \<noteq> 0"
    using o1 by (rule notify_owned)
      (use False that in \<open>simp_all add: counted_def ev_live_def update_event_def CoreAcquireEventLock_fields [OF inv]\<close>)
  note rules = release_settled [OF o] release_settled [OF o1] release_settled [OF notify]
    release_settled [OF acquire_owned] CoreNotifySignalList_settled
  show ?thesis using run False inv
    by (auto simp: CoreSignalEvent_eq bind_eq_Some_conv split: if_splits elim: rules) (meson rules)
qed

lemma event_take_settled:
  assumes s: "ev_settled Tpl s" and run: "event_take n env notify e s = Some (Status, s')"
  shows "ev_settled Tpl s'"
proof -
  have o: "ev_owned Tpl (CoreAcquireEventLock env s)" using s by (rule acquire_owned)
  then have o0: "ev_owned Tpl (update_event e (\<lambda>x. x\<lparr>ev_SignalCount := 0\<rparr>) (CoreAcquireEventLock env s))"
    by simp
  show ?thesis using run s release_settled [OF o] release_settled [OF o0]
    by (auto simp: event_take_def Let_def bind_eq_Some_conv split: if_splits)
qed

lemma CoreCheckEvent_settled:
  assumes s: "ev_settled Tpl s" and run: "CoreCheckEvent n env notify e s = Some (Status, s')"
  shows "ev_settled Tpl s'"
proof (cases "e = NULL \<or> \<not> ev_live s e \<or> ev_Type (ievent s e) AND EVT_NOTIFY_SIGNAL \<noteq> 0")
  case True
  then have "CoreCheckEvent n env notify e s = Some (EFI_INVALID_PARAMETER, s)"
    by (auto simp: CoreCheckEvent_def ev_live_def)
  then show ?thesis using s run by simp
next
  case False
  have inv: "ev_inv s" using s by (simp add: ev_settled_def)
  have "ev_owned Tpl (CoreNotifyEvent e (CoreAcquireEventLock env s))"
    if "ev_Type (ievent s e) AND EVT_NOTIFY_WAIT \<noteq> 0"
    by (intro notify_owned acquire_owned s)
      (use False that in \<open>simp_all add: ev_live_def CoreAcquireEventLock_fields [OF inv]\<close>)
  then have "ev_settled Tpl s1"
    if "ev_Type (ievent s e) AND EVT_NOTIFY_WAIT \<noteq> 0"
      "CoreReleaseEventLock n env notify (CoreNotifyEvent e (CoreAcquireEventLock env s)) = Some s1" for s1
    using that release_settled by blast
  then show ?thesis using run s event_take_settled False inv
    by (auto simp: CoreCheckEvent_eq bind_eq_Some_conv split: if_splits)
qed

lemma CoreWaitForEvent_pass_settled:
  assumes "ev_settled Tpl s" and "CoreWaitForEvent_pass n env notify es i s = Some (Status, j, s')"
  shows "ev_settled Tpl s'"
  using assms
  by (induction es arbitrary: i s) (auto simp: bind_eq_Some_conv split: if_splits dest: CoreCheckEvent_settled)

lemma CoreWaitForEvent_loop_settled:
  assumes "ev_settled Tpl s" and "CoreWaitForEvent_loop n env notify es s = Some (Status, j, s')"
  shows "ev_settled Tpl s'"
  using assms
proof (induction n arbitrary: s)
  case (Suc n)
  then show ?case
    by (auto simp: bind_eq_Some_conv split: if_splits)
      (meson CoreWaitForEvent_pass_settled CoreSignalEvent_settled)+
qed simp

lemma CoreWaitForEvent_settled:
  assumes "ev_settled Tpl s" and "CoreWaitForEvent n env notify k es s = Some (Status, j, s')"
  shows "ev_settled Tpl s'"
  using assms CoreWaitForEvent_loop_settled [of Tpl s n]
  by (auto simp: CoreWaitForEvent_def bind_eq_Some_conv split: if_splits option.splits)

end

end
