(* ===== verification/EventTimer.thy ===== *)
theory EventTimer
  imports EventInv
begin

text \<open>
  Timers (\<^verbatim>\<open>Timer.c\<close>): the timer list stays sorted by trigger time, the services keep the
  invariant, and what \<^verbatim>\<open>CoreCheckTimers\<close> does with the timers that are due.
\<close>

section \<open>What the timer code sees\<close>

text \<open>
  The part of the state that the timer code works on.  At \<^verbatim>\<open>TPL_HIGH_LEVEL - 1\<close>, where that code
  runs, nothing is dispatched, and signalling leaves this part alone.
\<close>

definition ev_timer_view :: "event_state \<Rightarrow>
  EFI_EVENT list \<times> EFI_LOCK \<times> EFI_EVENT \<times> u64 \<times> (EFI_EVENT \<Rightarrow> UINTN \<times> u32 \<times> bool \<times> u64 \<times> u64 \<times> u64)" where
  "ev_timer_view s = (mEfiTimerList s, mEfiTimerLock s, mEfiCheckTimerEvent s, mEfiSystemTime s,
     \<lambda>e. let x = ievent s e
       in (ev_Signature x, ev_Type x, ev_TimerLink x, ev_TriggerTime x, ev_Period x, ev_NotifyFunction x))"

lemma ev_timer_viewD:
  assumes "ev_timer_view s' = ev_timer_view s"
  shows "mEfiTimerList s' = mEfiTimerList s" "mEfiTimerLock s' = mEfiTimerLock s"
    "mEfiCheckTimerEvent s' = mEfiCheckTimerEvent s" "mEfiSystemTime s' = mEfiSystemTime s"
    "ev_live s' e = ev_live s e" "ev_Type (ievent s' e) = ev_Type (ievent s e)"
    "ev_TimerLink (ievent s' e) = ev_TimerLink (ievent s e)"
    "ev_TriggerTime (ievent s' e) = ev_TriggerTime (ievent s e)"
    "ev_Period (ievent s' e) = ev_Period (ievent s e)"
    "ev_NotifyFunction (ievent s' e) = ev_NotifyFunction (ievent s e)"
  using assms by (auto simp: ev_timer_view_def ev_live_def Let_def dest: fun_cong [where x = e])

text \<open>The signal counts.\<close>

definition ev_counts :: "event_state \<Rightarrow> EFI_EVENT \<Rightarrow> u32" where
  "ev_counts s = (\<lambda>e. ev_SignalCount (ievent s e))"

lemma ev_timer_view_update:
  assumes "\<And>x. ev_Signature (f x) = ev_Signature x" "\<And>x. ev_Type (f x) = ev_Type x"
    "\<And>x. ev_TimerLink (f x) = ev_TimerLink x" "\<And>x. ev_TriggerTime (f x) = ev_TriggerTime x"
    "\<And>x. ev_Period (f x) = ev_Period x" "\<And>x. ev_NotifyFunction (f x) = ev_NotifyFunction x"
  shows "ev_timer_view (update_event e f s) = ev_timer_view s"
  using assms by (auto simp: ev_timer_view_def update_event_def fun_eq_iff Let_def)

lemma ev_timer_view_frame [simp]:
  "ev_timer_view (s\<lparr>gEfiCurrentTpl := p\<rparr>) = ev_timer_view s"
  "ev_timer_view (s\<lparr>InterruptsEnabled := b\<rparr>) = ev_timer_view s"
  "ev_timer_view (s\<lparr>gEventQueueLock := l\<rparr>) = ev_timer_view s"
  "ev_timer_view (s\<lparr>mEfiSystemTimeLock := l\<rparr>) = ev_timer_view s"
  "ev_timer_view (s\<lparr>gEventQueue := q\<rparr>) = ev_timer_view s"
  "ev_timer_view (s\<lparr>gEventPending := x\<rparr>) = ev_timer_view s"
  "ev_timer_view (restored env Tpl s) = ev_timer_view s"
  "ev_counts (restored env Tpl s) = ev_counts s"
  "mEfiSystemTimeLock (restored env Tpl s) = mEfiSystemTimeLock s"
  by (simp_all add: ev_timer_view_def ev_counts_def restored_def)

lemma ev_timer_view_NotifyEvent [simp]:
  "ev_timer_view (CoreNotifyEvent e s) = ev_timer_view s"
  "ev_counts (CoreNotifyEvent e s) = ev_counts s"
  by (simp add: CoreNotifyEvent_def Let_def ev_timer_view_update)
    (simp add: ev_counts_def CoreNotifyEvent_ievent fun_eq_iff)

lemma ev_timer_view_acquire:
  "ev_inv s \<Longrightarrow> ev_timer_view (CoreAcquireEventLock env s) = ev_timer_view s"
  "ev_inv s \<Longrightarrow> ev_counts (CoreAcquireEventLock env s) = ev_counts s"
  by (simp_all add: CoreAcquireEventLock_eq ev_inv_lockD ev_counts_def)

lemma ev_timer_view_counted:
  "ev_inv s \<Longrightarrow> ev_timer_view (counted env e s) = ev_timer_view s"
  "ev_inv s \<Longrightarrow> ev_counts (counted env e s) = (ev_counts s)(e := ev_counts s e + 1)"
  by (simp add: counted_def ev_timer_view_update ev_timer_view_acquire)
    (simp add: counted_def ev_counts_def update_event_def CoreAcquireEventLock_fields fun_eq_iff)

lemma ev_timer_view_signal_list:
  "ev_timer_view (fold (\<lambda>e s. if ev_EventGroup (ievent s e) = g then CoreNotifyEvent e s else s) es s)
     = ev_timer_view s"
  "ev_counts (fold (\<lambda>e s. if ev_EventGroup (ievent s e) = g then CoreNotifyEvent e s else s) es s)
     = ev_counts s"
  "mEfiSystemTimeLock (fold (\<lambda>e s. if ev_EventGroup (ievent s e) = g then CoreNotifyEvent e s else s) es s)
     = mEfiSystemTimeLock s"
  by (induction es arbitrary: s) simp_all

section \<open>Signalling at high priority\<close>

lemma ev_quiet_high: "\<lbrakk>ev_inv s; TPL_HIGH_LEVEL - 1 \<le> Tpl\<rbrakk> \<Longrightarrow> ev_quiet Tpl s"
  using ev_queues_okD(5) [of s] unfolding ev_quiet_def ev_inv_def by fastforce

lemma restored_settled:
  assumes "ev_inv s" and "ev_unlocked s" and "ev_quiet Tpl s"
  shows "ev_settled Tpl (restored env Tpl s)"
  using assms by (simp add: ev_settled_def restored_def ev_unlocked_def ev_quiet_def)

text \<open>Releasing the event lock when nothing is pending above the owner.\<close>

definition unlocked_restored :: "event_env \<Rightarrow> nat \<Rightarrow> event_state \<Rightarrow> event_state" where
  "unlocked_restored env Tpl s =
     restored env Tpl (s\<lparr>gEventQueueLock := (gEventQueueLock s)\<lparr>lock_Lock := EfiLockReleased\<rparr>\<rparr>)"

lemma release_quiet:
  assumes "ev_owned Tpl s" and "ev_quiet Tpl s"
  shows "CoreReleaseEventLock (Suc (Suc n)) env notify s = Some (unlocked_restored env Tpl s)"
    and "CoreReleaseEventLock n env notify s = Some s' \<Longrightarrow> s' = unlocked_restored env Tpl s"
    and "ev_settled Tpl (unlocked_restored env Tpl s)"
proof -
  let ?s = "s\<lparr>gEventQueueLock := (gEventQueueLock s)\<lparr>lock_Lock := EfiLockReleased\<rparr>\<rparr>"
  have q: "ev_quiet Tpl ?s" using assms(2) by (simp add: ev_quiet_def)
  show "CoreReleaseEventLock (Suc (Suc n)) env notify s = Some (unlocked_restored env Tpl s)"
    using assms(1) CoreRestoreTpl_quiet [OF q] 
    by (simp add: CoreReleaseEventLock_eq ev_owned_def unlocked_restored_def del: CoreRestoreTpl.simps)
  show "s' = unlocked_restored env Tpl s" if "CoreReleaseEventLock n env notify s = Some s'"
    using assms(1) that CoreRestoreTpl_quietD [OF _ q]
    by (auto simp: CoreReleaseEventLock_eq ev_owned_def unlocked_restored_def)
  show "ev_settled Tpl (unlocked_restored env Tpl s)"
    unfolding unlocked_restored_def using release_ready [OF assms(1)] q by (blast intro: restored_settled)
qed

lemma ev_timer_view_unlocked [simp]:
  "ev_timer_view (unlocked_restored env Tpl s) = ev_timer_view s"
  "ev_counts (unlocked_restored env Tpl s) = ev_counts s"
  "mEfiSystemTimeLock (unlocked_restored env Tpl s) = mEfiSystemTimeLock s"
  by (simp_all add: unlocked_restored_def) (simp add: ev_counts_def)

lemma release_high:
  assumes "ev_owned Tpl s" and "TPL_HIGH_LEVEL - 1 \<le> Tpl"
  shows "CoreReleaseEventLock (Suc (Suc n)) env notify s = Some (unlocked_restored env Tpl s)"
    and "CoreReleaseEventLock n env notify s = Some s' \<Longrightarrow> s' = unlocked_restored env Tpl s"
    and "ev_settled Tpl (unlocked_restored env Tpl s)"
  using release_quiet [OF assms(1) ev_quiet_high] assms by (simp_all add: ev_owned_def)

lemma counted_owned: "ev_settled Tpl s \<Longrightarrow> ev_owned Tpl (counted env e s)"
  using acquire_owned by (simp add: counted_def)

lemma counted_notify_owned:
  assumes "ev_settled Tpl s" and "ev_live s e" and "ev_Type (ievent s e) AND EVT_NOTIFY_SIGNAL \<noteq> 0"
  shows "ev_owned Tpl (CoreNotifyEvent e (counted env e s))"
proof -
  have "ev_inv s" using assms(1) by (simp add: ev_settled_def)
  then show ?thesis
    by (intro notify_owned counted_owned assms(1))
      (use assms in \<open>simp_all add: counted_def ev_live_def update_event_def CoreAcquireEventLock_fields\<close>)
qed

text \<open>The state after notifying the events of a group.\<close>

definition group_notified :: "event_env \<Rightarrow> EFI_GUID \<Rightarrow> event_state \<Rightarrow> event_state" where
  "group_notified env g s =
     fold (\<lambda>e s. if ev_EventGroup (ievent s e) = g then CoreNotifyEvent e s else s)
       (gEventSignalQueue s) (CoreAcquireEventLock env s)"

lemma group_notified_owned: "ev_settled Tpl s \<Longrightarrow> ev_owned Tpl (group_notified env g s)"
  unfolding group_notified_def
  using acquire_owned [of Tpl s env] signal_queue_notifies [of s]
  by (intro signal_list_owned) (auto simp: ev_settled_def ev_live_def CoreAcquireEventLock_fields)

lemma CoreNotifySignalList_eq:
  "ev_inv s \<Longrightarrow> CoreNotifySignalList n env notify g s = CoreReleaseEventLock n env notify (group_notified env g s)"
  by (simp add: CoreNotifySignalList_def group_notified_def Let_def CoreAcquireEventLock_fields)

lemma ev_timer_view_group:
  "ev_inv s \<Longrightarrow> ev_timer_view (group_notified env g s) = ev_timer_view s"
  "ev_inv s \<Longrightarrow> ev_counts (group_notified env g s) = ev_counts s"
  "ev_inv s \<Longrightarrow> mEfiSystemTimeLock (group_notified env g s) = mEfiSystemTimeLock s"
  by (simp_all add: group_notified_def ev_timer_view_signal_list ev_timer_view_acquire CoreAcquireEventLock_fields)

definition ev_signalled :: "EFI_EVENT \<Rightarrow> event_state \<Rightarrow> event_state \<Rightarrow> bool" where
  "ev_signalled e s s' \<longleftrightarrow> ev_timer_view s' = ev_timer_view s \<and>
     mEfiSystemTimeLock s' = mEfiSystemTimeLock s \<and>
     ev_counts s' = (if e \<noteq> NULL \<and> ev_live s e \<and> ev_counts s e = 0 then (ev_counts s)(e := 1) else ev_counts s)"

lemma CoreSignalEvent_high:
  assumes s: "ev_settled Tpl s" and Tpl: "TPL_HIGH_LEVEL - 1 \<le> Tpl"
    and run: "CoreSignalEvent n env notify e s = Some (Status, s')"
  shows "ev_settled Tpl s'" and "ev_signalled e s s'"
proof -
  define view where "view s = (ev_timer_view s, ev_counts s, mEfiSystemTimeLock s)" for s
  have inv: "ev_inv s" using s by (simp add: ev_settled_def)
  have rel: "ev_settled Tpl t' \<and> view t' = view t"
    if "ev_owned Tpl t" "CoreReleaseEventLock n env notify t = Some t'" for t t'
    using release_high(2) [OF that(1) Tpl that(2)] release_high(3) [OF that(1) Tpl] by (simp add: view_def)
  have acq: "ev_settled Tpl t' \<and> view t' = view t"
    if "ev_settled Tpl t" "CoreReleaseEventLock n env notify (CoreAcquireEventLock env t) = Some t'" for t t'
    using rel [OF acquire_owned [OF that(1)] that(2)] that(1) ev_timer_view_acquire [of t env]
    by (simp add: ev_settled_def view_def CoreAcquireEventLock_fields)
  have list: "ev_settled Tpl t' \<and> view t' = view t"
    if "ev_settled Tpl t" "CoreNotifySignalList n env notify g t = Some t'" for g t t'
    using rel [OF group_notified_owned [OF that(1)]] that ev_timer_view_group [of t env g]
    by (simp add: ev_settled_def CoreNotifySignalList_eq view_def)
  have group: "ev_settled Tpl s' \<and> view s' = view (counted env e s)"
    if "CoreReleaseEventLock n env notify (counted env e s) = Some y"
      "CoreNotifySignalList n env notify g y = Some z"
      "CoreReleaseEventLock n env notify (CoreAcquireEventLock env z) = Some s'" for g y z
  proof -
    have "ev_settled Tpl y \<and> view y = view (counted env e s)" using rel [OF counted_owned [OF s] that(1)] .
    then have "ev_settled Tpl z \<and> view z = view (counted env e s)" using list [OF _ that(2)] by simp
    then show ?thesis using acq [OF _ that(3)] by simp
  qed
  have "view (CoreNotifyEvent e (counted env e s)) = view (counted env e s)" by (simp add: view_def)
  then have "ev_settled Tpl s' \<and> view s' = (if e = NULL \<or> \<not> ev_live s e \<or> ev_counts s e \<noteq> 0
      then view s else view (counted env e s))"
    using run s inv acq [OF s] rel [OF counted_owned [OF s]] rel [OF counted_notify_owned [OF s]]
    by (cases "e = NULL \<or> \<not> ev_live s e")
      (auto simp: invalid_event CoreSignalEvent_eq ev_counts_def bind_eq_Some_conv split: if_splits dest: group)
  moreover have "mEfiSystemTimeLock (counted env e s) = mEfiSystemTimeLock s"
    by (simp add: counted_def CoreAcquireEventLock_fields [OF inv])
  ultimately show "ev_settled Tpl s'" "ev_signalled e s s'"
    using ev_timer_view_counted [OF inv, of env e]
    by (auto simp: ev_signalled_def view_def split: if_splits)
qed

lemma CoreSignalEvent_high_returns:
  assumes s: "ev_settled Tpl s" and Tpl: "TPL_HIGH_LEVEL - 1 \<le> Tpl" and n: "2 \<le> n"
  shows "\<exists>Status s'. CoreSignalEvent n env notify e s = Some (Status, s')"
proof (cases "e = NULL \<or> \<not> ev_live s e")
  case True
  then show ?thesis by (simp add: invalid_event)
next
  case False
  obtain m where m: "n = Suc (Suc m)" using n by (metis add_2_eq_Suc le_Suc_ex)
  have inv: "ev_inv s" using s by (simp add: ev_settled_def)
  have rel: "\<exists>t'. CoreReleaseEventLock n env notify t = Some t' \<and> ev_settled Tpl t'" if "ev_owned Tpl t" for t
    using release_high [OF that Tpl] m by blast
  have acq: "\<exists>t'. CoreReleaseEventLock n env notify (CoreAcquireEventLock env t) = Some t'"
    if "ev_settled Tpl t" for t using rel [OF acquire_owned [OF that]] by blast
  have list: "\<exists>t'. CoreNotifySignalList n env notify g t = Some t' \<and> ev_settled Tpl t'"
    if "ev_settled Tpl t" for g t
    using rel [OF group_notified_owned [OF that]] that by (simp add: ev_settled_def CoreNotifySignalList_eq)
  obtain s12 where s12: "CoreReleaseEventLock n env notify (counted env e s) = Some s12" "ev_settled Tpl s12"
    using rel [OF counted_owned [OF s]] by blast
  obtain s13 where s13: "CoreNotifySignalList n env notify (ev_EventGroup (ievent s12 e)) s12 = Some s13" "ev_settled Tpl s13"
    using list [OF s12(2)] by blast
  show ?thesis using False inv acq [OF s] acq [OF s13(2)] s12 s13 rel [OF counted_notify_owned [OF s]]
    by (auto simp: CoreSignalEvent_eq)
qed

section \<open>The timer list\<close>

lemma sorted_wrt_insert:
  fixes k :: "'a \<Rightarrow> 'b :: linorder"
  assumes "sorted_wrt (\<lambda>x y. k x \<le> k y) xs"
  shows "sorted_wrt (\<lambda>x y. k x \<le> k y)
    (takeWhile (\<lambda>x. \<not> k a < k x) xs @ a # dropWhile (\<lambda>x. \<not> k a < k x) xs)"
  using assms
proof (induction xs)
  case (Cons x xs)
  have "\<forall>y \<in> set (takeWhile (\<lambda>x. \<not> k a < k x) xs @ a # dropWhile (\<lambda>x. \<not> k a < k x) xs). k x \<le> k y"
    if "\<not> k a < k x"
    using Cons.prems that by (auto dest: set_takeWhileD set_dropWhileD)
  then show ?case using Cons by auto
qed simp

lemma ev_timers_okD:
  assumes "ev_timers_ok s"
  shows "distinct (mEfiTimerList s)"
    and "sorted_wrt (\<lambda>e f. ev_TriggerTime (ievent s e) \<le> ev_TriggerTime (ievent s f)) (mEfiTimerList s)"
    and "e \<in> set (mEfiTimerList s) \<longleftrightarrow> ev_live s e \<and> ev_TimerLink (ievent s e)"
    and "\<lbrakk>ev_live s e; ev_TimerLink (ievent s e)\<rbrakk> \<Longrightarrow> ev_Type (ievent s e) AND EVT_TIMER \<noteq> 0"
    and "NULL \<notin> set (mEfiTimerList s)"
  using assms unfolding ev_timers_ok_def by blast+

lemma ev_ok_timer_list [simp]:
  "ev_signals_ok (s\<lparr>mEfiTimerList := l\<rparr>) \<longleftrightarrow> ev_signals_ok s"
  "ev_queues_ok (s\<lparr>mEfiTimerList := l\<rparr>) \<longleftrightarrow> ev_queues_ok s"
  "ev_locks_ok (s\<lparr>mEfiTimerList := l\<rparr>) \<longleftrightarrow> ev_locks_ok s"
  by (simp_all add: ev_signals_ok_def ev_queues_ok_def ev_locks_ok_def ev_live_def)

text \<open>Unlinking a timer, giving an unlinked timer a new time, and linking it.\<close>

lemma timer_relinked_inv:
  assumes inv: "ev_inv s" and "distinct l"
    and l: "sorted_wrt (\<lambda>e f. ev_TriggerTime (ievent s e) \<le> ev_TriggerTime (ievent s f)) l"
    and set: "set l = (if b then insert e (set (mEfiTimerList s)) else set (mEfiTimerList s) - {e})"
    and b: "b \<Longrightarrow> e \<noteq> NULL \<and> ev_live s e \<and> ev_Type (ievent s e) AND EVT_TIMER \<noteq> 0"
  shows "ev_inv (update_event e (\<lambda>x. x\<lparr>ev_TimerLink := b\<rparr>) (s\<lparr>mEfiTimerList := l\<rparr>))" (is "ev_inv ?s")
proof -
  have T: "ev_timers_ok s" using inv by (simp add: ev_inv_def)
  note D = ev_timers_okD [OF T]
  have "ev_TriggerTime (ievent ?s f) = ev_TriggerTime (ievent s f)" for f
    by (simp add: update_event_def)
  then have "sorted_wrt (\<lambda>f g. ev_TriggerTime (ievent ?s f) \<le> ev_TriggerTime (ievent ?s g)) l"
    using l by simp
  moreover have "f \<in> set l \<longleftrightarrow> ev_live ?s f \<and> ev_TimerLink (ievent ?s f)" for f
    using D(3) [of f] set b by (cases "f = e") (auto simp: update_event_def ev_live_def)
  moreover have "ev_Type (ievent ?s f) AND EVT_TIMER \<noteq> 0" if "ev_live ?s f" "ev_TimerLink (ievent ?s f)" for f
    using D(4) [of f] b that by (cases "f = e") (auto simp: update_event_def ev_live_def)
  moreover have "NULL \<notin> set l" using D(5) set b by (auto split: if_splits)
  ultimately have "ev_timers_ok ?s" unfolding ev_timers_ok_def using assms(2) by simp
  then show ?thesis using inv by (simp add: ev_inv_def ev_ok_update)
qed

definition timer_unlinked :: "EFI_EVENT \<Rightarrow> event_state \<Rightarrow> event_state" where
  "timer_unlinked e s = update_event e (\<lambda>x. x\<lparr>ev_TimerLink := False\<rparr>)
     (s\<lparr>mEfiTimerList := remove1 e (mEfiTimerList s)\<rparr>)"

lemma timer_unlinked_inv:
  assumes "ev_inv s"
  shows "ev_inv (timer_unlinked e s)"
proof -
  have T: "ev_timers_ok s" using assms by (simp add: ev_inv_def)
  note D = ev_timers_okD [OF T]
  show ?thesis unfolding timer_unlinked_def
  proof (rule timer_relinked_inv [OF assms])
    show "sorted_wrt (\<lambda>e f. ev_TriggerTime (ievent s e) \<le> ev_TriggerTime (ievent s f)) (remove1 e (mEfiTimerList s))"
      using D(1,2) by (simp add: distinct_remove1_removeAll removeAll_filter_not_eq sorted_wrt_filter)
  qed (use D(1) in \<open>simp_all add: set_remove1_eq\<close>)
qed

lemma timer_retimed_inv:
  assumes "ev_inv s" and "\<not> ev_TimerLink (ievent s e)"
  shows "ev_inv (update_event e (\<lambda>x. x\<lparr>ev_TriggerTime := t x\<rparr>) s)"
proof -
  have T: "ev_timers_ok s" using assms by (simp add: ev_inv_def)
  note D = ev_timers_okD [OF T]
  let ?s = "update_event e (\<lambda>x. x\<lparr>ev_TriggerTime := t x\<rparr>) s"
  have e: "e \<notin> set (mEfiTimerList s)" using D(3) assms(2) by blast
  have "sorted_wrt (\<lambda>f g. ev_TriggerTime (ievent ?s f) \<le> ev_TriggerTime (ievent ?s g)) (mEfiTimerList s)"
    using D(2) e by (subst sorted_wrt_mono_rel [of _ "\<lambda>f g. ev_TriggerTime (ievent s f) \<le> ev_TriggerTime (ievent s g)"])
      (auto simp: update_event_def)
  then have "ev_timers_ok ?s"
    unfolding ev_timers_ok_def using D(1,3,4,5) by (auto simp: update_event_def ev_live_def)
  then show ?thesis using assms by (simp add: ev_inv_def ev_ok_update)
qed

lemma timer_period_inv [simp]:
  "ev_inv (update_event e (\<lambda>x. x\<lparr>ev_Period := t x\<rparr>) s) \<longleftrightarrow> ev_inv s"
  by (simp add: ev_inv_def ev_ok_update)

lemma CoreInsertEventTimer_inv:
  assumes "ev_inv s" and "\<not> ev_TimerLink (ievent s e)" and "e \<noteq> NULL" and "ev_live s e"
    and "ev_Type (ievent s e) AND EVT_TIMER \<noteq> 0"
  shows "ev_inv (CoreInsertEventTimer e s)"
proof -
  have T: "ev_timers_ok s" using assms by (simp add: ev_inv_def)
  note D = ev_timers_okD [OF T]
  let ?P = "\<lambda>x. \<not> ev_TriggerTime (ievent s e) < ev_TriggerTime (ievent s x)"
  let ?l = "takeWhile ?P (mEfiTimerList s) @ e # dropWhile ?P (mEfiTimerList s)"
  have e: "e \<notin> set (mEfiTimerList s)" using D(3) assms(2) by blast
  have tl: "takeWhile ?P (mEfiTimerList s) @ dropWhile ?P (mEfiTimerList s) = mEfiTimerList s" by simp
  have s': "CoreInsertEventTimer e s = update_event e (\<lambda>x. x\<lparr>ev_TimerLink := True\<rparr>) (s\<lparr>mEfiTimerList := ?l\<rparr>)"
    by (simp add: CoreInsertEventTimer_def Let_def)
  show ?thesis unfolding s'
  proof (rule timer_relinked_inv [OF assms(1)])
    have "distinct (takeWhile ?P (mEfiTimerList s) @ dropWhile ?P (mEfiTimerList s))" using D(1) tl by simp
    then show "distinct ?l" using e by (auto dest: set_takeWhileD set_dropWhileD simp only: distinct_append distinct.simps list.set)
    show "set ?l = (if True then insert e (set (mEfiTimerList s)) else set (mEfiTimerList s) - {e})"
      using tl by (metis Un_insert_right list.set(2) set_append)
    show "sorted_wrt (\<lambda>e f. ev_TriggerTime (ievent s e) \<le> ev_TriggerTime (ievent s f)) ?l"
      using D(2) by (rule sorted_wrt_insert)
  qed (use assms in simp_all)
qed

end
