(* ===== verification/TimerCheck.thy ===== *)
theory TimerCheck
  imports EventTimer
begin

text \<open>
  The timer check takes and releases the timer lock and the locks of the events; what one expired
  timer changes.
\<close>

section \<open>The locks of the timer code\<close>

lemma acquire_timer_lock:
  assumes "ev_inv s"
  shows "CoreAcquireLock env mEfiTimerLock mEfiTimerLock_update s =
    s\<lparr>gEfiCurrentTpl := TPL_HIGH_LEVEL - 1,
      mEfiTimerLock := (mEfiTimerLock s)\<lparr>OwnerTpl := gEfiCurrentTpl s, lock_Lock := EfiLockAcquired\<rparr>\<rparr>"
  using assms
  by (cases s) (auto simp: ev_inv_def ev_locks_ok_def CoreAcquireLock_def CoreRaiseTpl_def efi_const)

lemma acquire_timer_settled:
  assumes "ev_settled Tpl s"
  shows "ev_settled (TPL_HIGH_LEVEL - 1) (CoreAcquireLock env mEfiTimerLock mEfiTimerLock_update s)"
    and "OwnerTpl (mEfiTimerLock (CoreAcquireLock env mEfiTimerLock mEfiTimerLock_update s)) = Tpl"
proof -
  have "ev_inv s" using assms by (simp add: ev_settled_def)
  then show "ev_settled (TPL_HIGH_LEVEL - 1) (CoreAcquireLock env mEfiTimerLock mEfiTimerLock_update s)"
    "OwnerTpl (mEfiTimerLock (CoreAcquireLock env mEfiTimerLock mEfiTimerLock_update s)) = Tpl"
    using assms ev_quiet_high [of s "TPL_HIGH_LEVEL - 1"]
    by (simp_all add: acquire_timer_lock ev_settled_def ev_unlocked_def ev_quiet_def)
qed

lemma acquire_time_lock:
  assumes "ev_inv s"
  shows "CoreAcquireLock env mEfiSystemTimeLock mEfiSystemTimeLock_update s =
    s\<lparr>gEfiCurrentTpl := TPL_HIGH_LEVEL, InterruptsEnabled := lock_flag env s,
      mEfiSystemTimeLock := (mEfiSystemTimeLock s)\<lparr>OwnerTpl := gEfiCurrentTpl s, lock_Lock := EfiLockAcquired\<rparr>\<rparr>"
  using assms
  by (cases s) (auto simp: ev_inv_def ev_locks_ok_def CoreAcquireLock_def CoreRaiseTpl_def
      CoreSetInterruptState_eq lock_flag_def)

lemma CoreReleaseLock_timer_eq:
  "CoreReleaseLock n env notify mEfiTimerLock mEfiTimerLock_update s =
     CoreRestoreTpl n env notify (OwnerTpl (mEfiTimerLock s))
       (s\<lparr>mEfiTimerLock := (mEfiTimerLock s)\<lparr>lock_Lock := EfiLockReleased\<rparr>\<rparr>)"
  "CoreReleaseLock n env notify mEfiSystemTimeLock mEfiSystemTimeLock_update s =
     CoreRestoreTpl n env notify (OwnerTpl (mEfiSystemTimeLock s))
       (s\<lparr>mEfiSystemTimeLock := (mEfiSystemTimeLock s)\<lparr>lock_Lock := EfiLockReleased\<rparr>\<rparr>)"
  by (cases s, simp add: CoreReleaseLock_def)+

text \<open>Reading the time.\<close>

definition time_read :: "event_env \<Rightarrow> nat \<Rightarrow> event_state \<Rightarrow> event_state" where
  "time_read env Tpl s = restored env Tpl (s\<lparr>gEfiCurrentTpl := TPL_HIGH_LEVEL, InterruptsEnabled := lock_flag env s,
     mEfiSystemTimeLock := (mEfiSystemTimeLock s)\<lparr>OwnerTpl := Tpl, lock_Lock := EfiLockReleased\<rparr>\<rparr>)"

lemma CoreCurrentSystemTime_settled:
  assumes s: "ev_settled Tpl s"
  shows "CoreCurrentSystemTime (Suc (Suc n)) env notify s = Some (mEfiSystemTime s, time_read env Tpl s)"
    and "CoreCurrentSystemTime n env notify s = Some (t, s') \<Longrightarrow> t = mEfiSystemTime s \<and> s' = time_read env Tpl s"
    and "ev_settled Tpl (time_read env Tpl s)" and "ev_timer_view (time_read env Tpl s) = ev_timer_view s"
proof -
  let ?s = "s\<lparr>gEfiCurrentTpl := TPL_HIGH_LEVEL, InterruptsEnabled := lock_flag env s,
     mEfiSystemTimeLock := (mEfiSystemTimeLock s)\<lparr>OwnerTpl := Tpl, lock_Lock := EfiLockReleased\<rparr>\<rparr>"
  have inv: "ev_inv s" and Tpl: "gEfiCurrentTpl s = Tpl" using s by (simp_all add: ev_settled_def)
  have q: "ev_quiet Tpl ?s" using s by (simp add: ev_settled_def ev_quiet_def)
  have eq: "CoreCurrentSystemTime n env notify s = map_option (Pair (mEfiSystemTime s)) (CoreRestoreTpl n env notify Tpl ?s)" for n
    by (simp add: CoreCurrentSystemTime_def acquire_time_lock [OF inv] CoreReleaseLock_timer_eq Tpl Let_def map_conv_bind_option comp_def)
  show "CoreCurrentSystemTime (Suc (Suc n)) env notify s = Some (mEfiSystemTime s, time_read env Tpl s)"
    unfolding eq CoreRestoreTpl_quiet [OF q] by (simp add: time_read_def)
  show "CoreCurrentSystemTime n env notify s = Some (t, s') \<Longrightarrow> t = mEfiSystemTime s \<and> s' = time_read env Tpl s"
    unfolding eq using CoreRestoreTpl_quietD [OF _ q] by (auto simp: time_read_def)
  show "ev_settled Tpl (time_read env Tpl s)" unfolding time_read_def
    using s q by (intro restored_settled) (simp_all add: ev_settled_def ev_unlocked_def)
  show "ev_timer_view (time_read env Tpl s) = ev_timer_view s" by (simp add: time_read_def)
qed

section \<open>Checking the timers\<close>

text \<open>
  What the body does to the timers: the event is signalled and leaves the list, or gets its next
  time.
\<close>

definition next_trigger :: "u64 \<Rightarrow> u64 \<Rightarrow> u64 \<Rightarrow> u64" where
  "next_trigger t trigger period = (if trigger + period \<le> t then t else trigger + period)"

definition timer_frame :: "EFI_EVENT \<Rightarrow> event_state \<Rightarrow> event_state \<Rightarrow> bool" where
  "timer_frame e s s' \<longleftrightarrow>
     mEfiTimerLock s' = mEfiTimerLock s \<and> mEfiCheckTimerEvent s' = mEfiCheckTimerEvent s \<and>
     mEfiSystemTime s' = mEfiSystemTime s \<and>
     (\<forall>f. ev_live s' f = ev_live s f \<and> ev_Type (ievent s' f) = ev_Type (ievent s f) \<and>
        ev_Period (ievent s' f) = ev_Period (ievent s f) \<and>
        (f \<noteq> e \<longrightarrow> ev_TriggerTime (ievent s' f) = ev_TriggerTime (ievent s f)))"

definition timer_expired :: "u64 \<Rightarrow> EFI_EVENT \<Rightarrow> event_state \<Rightarrow> event_state \<Rightarrow> bool" where
  "timer_expired t e s s' \<longleftrightarrow> timer_frame e s s' \<and>
     (if ev_Period (ievent s e) = 0
      then set (mEfiTimerList s') = set (mEfiTimerList s) - {e} \<and>
        ev_TriggerTime (ievent s' e) = ev_TriggerTime (ievent s e)
      else set (mEfiTimerList s') = set (mEfiTimerList s) \<and>
        ev_TriggerTime (ievent s' e) = next_trigger t (ev_TriggerTime (ievent s e)) (ev_Period (ievent s e))) \<and>
     (\<forall>f. ev_counts s' f = 0 \<longrightarrow> ev_counts s f = 0) \<and> ev_counts s' e \<noteq> 0 \<and>
     (\<forall>f. f \<noteq> e \<and> f \<noteq> mEfiCheckTimerEvent s \<longrightarrow> ev_counts s' f = ev_counts s f)"

lemma settled_update_event:
  assumes "ev_settled Tpl s" and "ev_inv (update_event e f s)"
  shows "ev_settled Tpl (update_event e f s)"
  using assms by (simp add: ev_settled_def ev_unlocked_def ev_quiet_def)

lemma settled_timer_list:
  assumes "ev_settled Tpl s" and "ev_inv (update_event e f (s\<lparr>mEfiTimerList := l\<rparr>))"
  shows "ev_settled Tpl (update_event e f (s\<lparr>mEfiTimerList := l\<rparr>))"
  using assms by (simp add: ev_settled_def ev_unlocked_def ev_quiet_def)

lemma timer_unlinked_settled: "ev_settled Tpl s \<Longrightarrow> ev_settled Tpl (timer_unlinked e s)"
  using settled_timer_list [of Tpl s] timer_unlinked_inv [of s e]
  by (simp add: timer_unlinked_def ev_settled_def)

lemma timer_retimed_settled:
  "\<lbrakk>ev_settled Tpl s; \<not> ev_TimerLink (ievent s e)\<rbrakk> \<Longrightarrow>
     ev_settled Tpl (update_event e (\<lambda>x. x\<lparr>ev_TriggerTime := t x\<rparr>) s)"
  by (rule settled_update_event) (simp_all add: timer_retimed_inv ev_settled_def)

text \<open>An unlinked timer.\<close>

definition timer_idle :: "EFI_EVENT \<Rightarrow> event_state \<Rightarrow> bool" where
  "timer_idle e s \<longleftrightarrow> \<not> ev_TimerLink (ievent s e) \<and> e \<noteq> NULL \<and> ev_live s e \<and> ev_Type (ievent s e) AND EVT_TIMER \<noteq> 0"

lemma timer_idle_view: "ev_timer_view s' = ev_timer_view s \<Longrightarrow> timer_idle e s' \<longleftrightarrow> timer_idle e s"
  using ev_timer_viewD(5-7) [of s' s e] by (simp add: timer_idle_def)

lemma insert_timer_settled:
  assumes "ev_settled Tpl s" and "timer_idle e s"
  shows "ev_settled Tpl (CoreInsertEventTimer e s)"
proof -
  have "ev_inv (CoreInsertEventTimer e s)"
    using assms CoreInsertEventTimer_inv by (simp add: ev_settled_def timer_idle_def)
  then show ?thesis using assms(1) unfolding CoreInsertEventTimer_def Let_def by (blast intro: settled_timer_list)
qed

lemma takeWhile_insert_set: "set (takeWhile P xs @ a # dropWhile P xs) = insert a (set xs)"
  by (induction xs) auto

lemma insert_timer_fields [simp]:
  "set (mEfiTimerList (CoreInsertEventTimer e s)) = insert e (set (mEfiTimerList s))"
  "mEfiTimerLock (CoreInsertEventTimer e s) = mEfiTimerLock s"
  "mEfiCheckTimerEvent (CoreInsertEventTimer e s) = mEfiCheckTimerEvent s"
  "mEfiSystemTime (CoreInsertEventTimer e s) = mEfiSystemTime s"
  "ievent (CoreInsertEventTimer e s) = (ievent s)(e := (ievent s e)\<lparr>ev_TimerLink := True\<rparr>)"
  using takeWhile_insert_set by (simp_all add: CoreInsertEventTimer_def Let_def update_event_def)

lemma timer_unlinked_fields [simp]:
  "mEfiTimerList (timer_unlinked e s) = remove1 e (mEfiTimerList s)"
  "mEfiTimerLock (timer_unlinked e s) = mEfiTimerLock s"
  "mEfiCheckTimerEvent (timer_unlinked e s) = mEfiCheckTimerEvent s"
  "mEfiSystemTime (timer_unlinked e s) = mEfiSystemTime s"
  "ievent (timer_unlinked e s) = (ievent s)(e := (ievent s e)\<lparr>ev_TimerLink := False\<rparr>)"
  "ev_counts (timer_unlinked e s) = ev_counts s"
  by (simp_all add: timer_unlinked_def update_event_def ev_counts_def fun_eq_iff)

lemma ev_signalledD:
  assumes "ev_signalled e s s'"
  shows "ev_timer_view s' = ev_timer_view s"
    and "ev_counts s' f = 0 \<Longrightarrow> ev_counts s f = 0" and "f \<noteq> e \<Longrightarrow> ev_counts s' f = ev_counts s f"
    and "\<lbrakk>e \<noteq> NULL; ev_live s e\<rbrakk> \<Longrightarrow> ev_counts s' e \<noteq> 0"
  using assms by (auto simp: ev_signalled_def split: if_splits)

lemma timer_view_frame:
  assumes "ev_timer_view s' = ev_timer_view s"
  shows "timer_frame e s s'" and "mEfiTimerList s' = mEfiTimerList s"
    and "ev_TriggerTime (ievent s' f) = ev_TriggerTime (ievent s f)"
    and "ev_TimerLink (ievent s' f) = ev_TimerLink (ievent s f)"
  using ev_timer_viewD [OF assms] by (simp_all add: timer_frame_def)

lemma timer_frame_trans: "\<lbrakk>timer_frame e s s1; timer_frame e s1 s2\<rbrakk> \<Longrightarrow> timer_frame e s s2"
  unfolding timer_frame_def by simp

lemma timer_frame_update:
  assumes "\<And>x. ev_Signature (f x) = ev_Signature x" "\<And>x. ev_Type (f x) = ev_Type x" "\<And>x. ev_Period (f x) = ev_Period x"
  shows "timer_frame e s (update_event e f s)"
  using assms by (simp add: timer_frame_def update_event_def ev_live_def)

text \<open>Giving a periodic timer its next time.\<close>

definition timer_rearm ::
  "nat \<Rightarrow> event_env \<Rightarrow> event_notify \<Rightarrow> u64 \<Rightarrow> EFI_EVENT \<Rightarrow> event_state \<Rightarrow> event_state option" where
  "timer_rearm n env notify t e s =
     do {
       let s3 = update_event e (\<lambda>e. e\<lparr>ev_TriggerTime := ev_TriggerTime e + ev_Period e\<rparr>) s;
       s4 \<leftarrow> (if ev_TriggerTime (ievent s3 e) \<le> t
              then do { (_, s31) \<leftarrow> CoreSignalEvent n env notify (mEfiCheckTimerEvent s3)
                  (update_event e (\<lambda>e. e\<lparr>ev_TriggerTime := t\<rparr>) s3); Some s31 }
              else Some s3);
       Some (CoreInsertEventTimer e s4)
     }"

lemma CoreCheckTimers_expire_eq:
  "CoreCheckTimers_expire n env notify t e s =
     do {
       (_, s2) \<leftarrow> CoreSignalEvent n env notify e (timer_unlinked e s);
       if ev_Period (ievent s2 e) \<noteq> 0 then timer_rearm n env notify t e s2 else Some s2
     }"
  by (auto simp: CoreCheckTimers_expire_def timer_rearm_def timer_unlinked_def intro!: bind_option_cong)

lemma timer_rearm_correct:
  assumes s: "ev_settled Tpl s" and Tpl: "TPL_HIGH_LEVEL - 1 \<le> Tpl" and idle: "timer_idle e s"
    and run: "timer_rearm n env notify t e s = Some s'"
  shows "ev_settled Tpl s'" and "timer_frame e s s'"
    and "set (mEfiTimerList s') = insert e (set (mEfiTimerList s))"
    and "ev_TriggerTime (ievent s' e) = next_trigger t (ev_TriggerTime (ievent s e)) (ev_Period (ievent s e))"
    and "ev_counts s' f = 0 \<Longrightarrow> ev_counts s f = 0"
    and "f \<noteq> mEfiCheckTimerEvent s \<Longrightarrow> ev_counts s' f = ev_counts s f"
proof -
  let ?tr = "next_trigger t (ev_TriggerTime (ievent s e)) (ev_Period (ievent s e))"
  let ?s3 = "update_event e (\<lambda>x. x\<lparr>ev_TriggerTime := ?tr\<rparr>) s"
  have s3: "ev_settled Tpl ?s3" using s idle by (simp add: timer_retimed_settled timer_idle_def)
  obtain s4 where s4: "s4 = ?s3 \<or> (\<exists>st. CoreSignalEvent n env notify (mEfiCheckTimerEvent s) ?s3 = Some (st, s4))"
    and s': "s' = CoreInsertEventTimer e s4"
  proof (cases "ev_TriggerTime (ievent s e) + ev_Period (ievent s e) \<le> t")
    case True
    have "update_event e (\<lambda>e. e\<lparr>ev_TriggerTime := t\<rparr>)
        (update_event e (\<lambda>e. e\<lparr>ev_TriggerTime := ev_TriggerTime e + ev_Period e\<rparr>) s) = ?s3"
      using True by (simp add: update_event_def next_trigger_def)
    then show thesis using that run True
      by (auto simp: timer_rearm_def Let_def bind_eq_Some_conv update_event_def)
  next
    case False
    have "update_event e (\<lambda>e. e\<lparr>ev_TriggerTime := ev_TriggerTime e + ev_Period e\<rparr>) s = ?s3"
      using False by (simp add: update_event_def next_trigger_def)
    moreover have "ev_TriggerTime (ievent ?s3 e) = ?tr" "\<not> ?tr \<le> t"
      using False by (simp_all add: update_event_def next_trigger_def)
    ultimately show thesis using that [of ?s3] run by (simp add: timer_rearm_def Let_def)
  qed
  have sig: "ev_settled Tpl s4 \<and> ev_timer_view s4 = ev_timer_view ?s3 \<and>
      (\<forall>f. ev_counts s4 f = 0 \<longrightarrow> ev_counts ?s3 f = 0) \<and>
      (\<forall>f. f \<noteq> mEfiCheckTimerEvent s \<longrightarrow> ev_counts s4 f = ev_counts ?s3 f)"
    using s4
  proof (elim disjE exE)
    fix st
    assume "CoreSignalEvent n env notify (mEfiCheckTimerEvent s) ?s3 = Some (st, s4)"
    note H = CoreSignalEvent_high [OF s3 Tpl this]
    show ?thesis using H(1) ev_signalledD(1,2,3) [OF H(2)] by blast
  qed (use s3 in simp)
  then have v: "ev_timer_view s4 = ev_timer_view ?s3" by blast
  have counts: "ev_counts s' = ev_counts s4" "ev_counts ?s3 = ev_counts s"
    by (simp_all add: s' ev_counts_def fun_eq_iff update_event_def)
  have "timer_idle e s4" using timer_idle_view [OF v, of e] idle by (simp add: timer_idle_def update_event_def ev_live_def)
  then show "ev_settled Tpl s'" using sig unfolding s' by (simp add: insert_timer_settled)
  have "timer_frame e s ?s3" by (rule timer_frame_update) simp_all
  moreover have "timer_frame e ?s3 s4" using v by (rule timer_view_frame)
  moreover have "timer_frame e s4 s'" unfolding s' by (simp add: timer_frame_def ev_live_def)
  ultimately show "timer_frame e s s'" by (blast intro: timer_frame_trans)
  show "set (mEfiTimerList s') = insert e (set (mEfiTimerList s))"
    using timer_view_frame(2) [OF v] by (simp add: s')
  show "ev_TriggerTime (ievent s' e) = ?tr"
    using timer_view_frame(3) [OF v, of e] by (simp add: s' update_event_def)
  show "ev_counts s' f = 0 \<Longrightarrow> ev_counts s f = 0"
    and "f \<noteq> mEfiCheckTimerEvent s \<Longrightarrow> ev_counts s' f = ev_counts s f"
    using sig counts by simp_all
qed

lemma CoreCheckTimers_expire_correct:
  assumes s: "ev_settled Tpl s" and Tpl: "TPL_HIGH_LEVEL - 1 \<le> Tpl" and e: "e \<in> set (mEfiTimerList s)"
    and run: "CoreCheckTimers_expire n env notify t e s = Some s'"
  shows "ev_settled Tpl s'" and "timer_expired t e s s'"
proof -
  have T: "ev_timers_ok s" using s by (simp add: ev_settled_def ev_inv_def)
  note D = ev_timers_okD [OF T]
  have ev: "e \<noteq> NULL" "ev_live s e" "ev_Type (ievent s e) AND EVT_TIMER \<noteq> 0" using D e by auto
  let ?s1 = "timer_unlinked e s"
  have s1: "ev_settled Tpl ?s1" "\<not> ev_TimerLink (ievent ?s1 e)" "ev_live ?s1 e"
    using s ev by (simp_all add: timer_unlinked_settled ev_live_def)
  have set1: "set (mEfiTimerList ?s1) = set (mEfiTimerList s) - {e}" using D(1) by (simp add: set_remove1_eq)
  have ev1: "timer_idle e ?s1" using s1 ev by (simp add: timer_idle_def)
  have fr1: "timer_frame e s ?s1" by (simp add: timer_frame_def ev_live_def)
  obtain st2 s2 where sig: "CoreSignalEvent n env notify e ?s1 = Some (st2, s2)"
    and rest: "(if ev_Period (ievent s2 e) \<noteq> 0 then timer_rearm n env notify t e s2 else Some s2) = Some s'"
    using run by (auto simp: CoreCheckTimers_expire_eq bind_eq_Some_conv)
  note s2 = CoreSignalEvent_high [OF s1(1) Tpl sig]
  note v = ev_signalledD(1) [OF s2(2)]
  have fr2: "timer_frame e s s2" using fr1 timer_view_frame(1) [OF v] by (rule timer_frame_trans)
  have p: "ev_Period (ievent s2 e) = ev_Period (ievent s e)" "mEfiCheckTimerEvent s2 = mEfiCheckTimerEvent s"
    using fr2 by (simp_all add: timer_frame_def)
  have tr: "ev_TriggerTime (ievent s2 e) = ev_TriggerTime (ievent s e)"
    using timer_view_frame(3) [OF v, of e] by simp
  have set2: "set (mEfiTimerList s2) = set (mEfiTimerList s) - {e}"
    using timer_view_frame(2) [OF v] set1 by simp
  have c2: "ev_counts s2 e \<noteq> 0" "\<forall>f. ev_counts s2 f = 0 \<longrightarrow> ev_counts s f = 0" "\<forall>f. f \<noteq> e \<longrightarrow> ev_counts s2 f = ev_counts s f"
    using ev_signalledD [OF s2(2)] ev1 by (auto simp: timer_idle_def)
  have "ev_settled Tpl s' \<and> timer_expired t e s s'"
  proof (cases "ev_Period (ievent s e) = 0")
    case True
    then have "s' = s2" using rest p by simp
    then show ?thesis using s2(1) fr2 set2 tr c2 True by (simp add: timer_expired_def)
  next
    case False
    then have re: "timer_rearm n env notify t e s2 = Some s'" using rest p by simp
    have "timer_idle e s2" using timer_idle_view [OF v] ev1 by simp
    note R = timer_rearm_correct [OF s2(1) Tpl this re]
    have "timer_frame e s s'" using fr2 R(2) by (rule timer_frame_trans)
    moreover have "\<forall>f. ev_counts s' f = 0 \<longrightarrow> ev_counts s f = 0" "ev_counts s' e \<noteq> 0"
      "\<forall>f. f \<noteq> e \<and> f \<noteq> mEfiCheckTimerEvent s \<longrightarrow> ev_counts s' f = ev_counts s f"
      using c2 R(5,6) p(2) by metis+
    ultimately show ?thesis using R(1,3,4) set2 tr p False e by (auto simp: timer_expired_def)
  qed
  then show "ev_settled Tpl s'" "timer_expired t e s s'" by blast+
qed

section \<open>The loop over the timers that are due\<close>

lemma CoreCheckTimers_loop_Suc:
  "CoreCheckTimers_loop (Suc n) env notify t s =
     (if mEfiTimerList s = [] \<or> t < ev_TriggerTime (ievent s (hd (mEfiTimerList s))) then Some s
      else CoreCheckTimers_expire n env notify t (hd (mEfiTimerList s)) s \<bind> CoreCheckTimers_loop n env notify t)"
  by (simp split: list.split)

text \<open>
  When the loop returns, every timer in the list lies in the future, and every timer that was due
  has been signalled.
\<close>

lemma CoreCheckTimers_loop_correct:
  assumes s: "ev_settled Tpl s" and Tpl: "TPL_HIGH_LEVEL - 1 \<le> Tpl"
    and run: "CoreCheckTimers_loop n env notify t s = Some s'"
  shows "ev_settled Tpl s' \<and> mEfiTimerLock s' = mEfiTimerLock s \<and>
    (\<forall>e \<in> set (mEfiTimerList s'). t < ev_TriggerTime (ievent s' e)) \<and>
    (\<forall>e \<in> set (mEfiTimerList s). ev_TriggerTime (ievent s e) \<le> t \<longrightarrow> ev_counts s' e \<noteq> 0) \<and>
    (\<forall>e. ev_counts s' e = 0 \<longrightarrow> ev_counts s e = 0) \<and>
    set (mEfiTimerList s') = {e \<in> set (mEfiTimerList s). t < ev_TriggerTime (ievent s e) \<or> ev_Period (ievent s e) \<noteq> 0} \<and>
    (\<forall>e. t < ev_TriggerTime (ievent s e) \<and> e \<noteq> mEfiCheckTimerEvent s \<longrightarrow> 
       ev_TriggerTime (ievent s' e) = ev_TriggerTime (ievent s e) \<and> ev_counts s' e = ev_counts s e)"
  using s run
proof (induction n arbitrary: s)
  case (Suc n)
  have T: "ev_timers_ok s" using Suc.prems by (simp add: ev_settled_def ev_inv_def)
  note D = ev_timers_okD [OF T]
  show ?case
  proof (cases "mEfiTimerList s = [] \<or> t < ev_TriggerTime (ievent s (hd (mEfiTimerList s)))")
    case True
    then have "s' = s" using Suc.prems(2) unfolding CoreCheckTimers_loop_Suc by simp
    moreover have "\<forall>e \<in> set (mEfiTimerList s). t < ev_TriggerTime (ievent s e)"
      using True D(2) by (cases "mEfiTimerList s") auto
    ultimately show ?thesis using Suc.prems(1) by auto
  next
    case False
    let ?e = "hd (mEfiTimerList s)"
    obtain s1 where ex: "CoreCheckTimers_expire n env notify t ?e s = Some s1"
      and loop: "CoreCheckTimers_loop n env notify t s1 = Some s'"
      using Suc.prems(2) False unfolding CoreCheckTimers_loop_Suc by (auto simp: bind_eq_Some_conv)
    have e: "?e \<in> set (mEfiTimerList s)" "ev_TriggerTime (ievent s ?e) \<le> t" using False by auto
    note E = CoreCheckTimers_expire_correct [OF Suc.prems(1) Tpl e(1) ex]
    note IH = Suc.IH [OF E(1) loop]
    have fr: "timer_frame ?e s s1" and cnt: "\<forall>f. ev_counts s1 f = 0 \<longrightarrow> ev_counts s f = 0" "ev_counts s1 ?e \<noteq> 0"
      "\<forall>f. f \<noteq> ?e \<and> f \<noteq> mEfiCheckTimerEvent s \<longrightarrow> ev_counts s1 f = ev_counts s f"
      and cs: "if ev_Period (ievent s ?e) = 0
      then set (mEfiTimerList s1) = set (mEfiTimerList s) - {?e} \<and>
        ev_TriggerTime (ievent s1 ?e) = ev_TriggerTime (ievent s ?e)
      else set (mEfiTimerList s1) = set (mEfiTimerList s) \<and>
        ev_TriggerTime (ievent s1 ?e) = next_trigger t (ev_TriggerTime (ievent s ?e)) (ev_Period (ievent s ?e))"
      using E(2) unfolding timer_expired_def by blast+
    have F: "mEfiTimerLock s1 = mEfiTimerLock s" "mEfiCheckTimerEvent s1 = mEfiCheckTimerEvent s"
      "\<And>f. ev_Period (ievent s1 f) = ev_Period (ievent s f)"
      "\<And>f. f \<noteq> ?e \<Longrightarrow> ev_TriggerTime (ievent s1 f) = ev_TriggerTime (ievent s f)"
      using fr by (simp_all add: timer_frame_def)
    have 1: "\<forall>f \<in> set (mEfiTimerList s). ev_TriggerTime (ievent s f) \<le> t \<longrightarrow> ev_counts s' f \<noteq> 0"
    proof (intro ballI impI)
      fix f assume f: "f \<in> set (mEfiTimerList s)" "ev_TriggerTime (ievent s f) \<le> t"
      show "ev_counts s' f \<noteq> 0"
      proof (cases "f = ?e")
        case True then show ?thesis using IH cnt(2) by blast
      next
        case False
        then have "f \<in> set (mEfiTimerList s1)" using f cs by (auto split: if_splits)
        then show ?thesis using IH F(4) [OF False] f(2) by auto
      qed
    qed
    have 2: "set (mEfiTimerList s') = {e \<in> set (mEfiTimerList s). t < ev_TriggerTime (ievent s e) \<or> ev_Period (ievent s e) \<noteq> 0}"
    proof -
      have "f \<in> set (mEfiTimerList s1) \<and> (t < ev_TriggerTime (ievent s1 f) \<or> ev_Period (ievent s1 f) \<noteq> 0) \<longleftrightarrow>
        f \<in> set (mEfiTimerList s) \<and> (t < ev_TriggerTime (ievent s f) \<or> ev_Period (ievent s f) \<noteq> 0)" for f
        using cs e F(3) [of f] F(4) [of f] by (cases "f = ?e") (auto split: if_splits)
      then show ?thesis using IH by blast
    qed
    have 3: "ev_TriggerTime (ievent s' f) = ev_TriggerTime (ievent s f) \<and> ev_counts s' f = ev_counts s f"
      if "t < ev_TriggerTime (ievent s f) \<and> f \<noteq> mEfiCheckTimerEvent s" for f
    proof -
      have "f \<noteq> ?e" using that e by auto
      then show ?thesis using IH F that cnt(3) by simp
    qed
    show ?thesis
      by (intro conjI, use IH in blast, use IH F(1) in simp, use IH in blast, rule 1,
          use IH cnt(1) in blast, rule 2, use 3 in blast)
  qed
qed simp

end
