(* ===== verification/TimerServices.thy ===== *)
theory TimerServices
  imports TimerCheck
begin

text \<open>
  The loop of the timer check returns and the timer services keep the invariant of the events.
\<close>

section \<open>The loop returns\<close>

lemma timer_rearm_returns:
  assumes s: "ev_settled Tpl s" and Tpl: "TPL_HIGH_LEVEL - 1 \<le> Tpl" and idle: "timer_idle e s" and n: "2 \<le> n"
  shows "\<exists>s'. timer_rearm n env notify t e s = Some s'"
proof -
  let ?s = "update_event e (\<lambda>x. x\<lparr>ev_TriggerTime := ev_TriggerTime x + ev_Period x\<rparr>) s"
  have "ev_settled Tpl ?s" using s idle by (simp add: timer_retimed_settled timer_idle_def)
  then have "ev_settled Tpl (update_event e (\<lambda>x. x\<lparr>ev_TriggerTime := t\<rparr>) ?s)"
    by (rule timer_retimed_settled) (use idle in \<open>simp add: timer_idle_def update_event_def\<close>)
  then obtain st s4 where "CoreSignalEvent n env notify (mEfiCheckTimerEvent ?s)
      (update_event e (\<lambda>x. x\<lparr>ev_TriggerTime := t\<rparr>) ?s) = Some (st, s4)"
    using CoreSignalEvent_high_returns [OF _ Tpl n] by blast
  then show ?thesis by (auto simp: timer_rearm_def Let_def)
qed

lemma timer_list_event:
  assumes "ev_settled Tpl s" and "e \<in> set (mEfiTimerList s)"
  shows "timer_idle e (timer_unlinked e s)"
proof -
  have T: "ev_timers_ok s" using assms(1) by (simp add: ev_settled_def ev_inv_def)
  show ?thesis using ev_timers_okD(3-5) [OF T] assms(2) by (auto simp: timer_idle_def ev_live_def)
qed

lemma CoreCheckTimers_expire_returns:
  assumes s: "ev_settled Tpl s" and Tpl: "TPL_HIGH_LEVEL - 1 \<le> Tpl" and e: "e \<in> set (mEfiTimerList s)" and n: "2 \<le> n"
  shows "\<exists>s'. CoreCheckTimers_expire n env notify t e s = Some s'"
proof -
  have s1: "ev_settled Tpl (timer_unlinked e s)" using s by (rule timer_unlinked_settled)
  obtain st s2 where sig: "CoreSignalEvent n env notify e (timer_unlinked e s) = Some (st, s2)"
    using CoreSignalEvent_high_returns [OF s1 Tpl n] by blast
  note s2 = CoreSignalEvent_high [OF s1 Tpl sig]
  have "timer_idle e s2"
    using timer_list_event [OF s e] timer_idle_view [OF ev_signalledD(1) [OF s2(2)], of e] by simp
  then show ?thesis using sig timer_rearm_returns [OF s2(1) Tpl _ n]
    by (auto simp: CoreCheckTimers_expire_eq)
qed

text \<open>
  The rounds a timer still takes part in: none when it lies in the future, two when it is
  periodic and late by a period or more.
\<close>

definition timer_rounds :: "u64 \<Rightarrow> event_state \<Rightarrow> EFI_EVENT \<Rightarrow> nat" where
  "timer_rounds t s e =
     (if t < ev_TriggerTime (ievent s e) then 0
      else if ev_Period (ievent s e) = 0 \<or> t < ev_TriggerTime (ievent s e) + ev_Period (ievent s e) then 1 else 2)"

lemma timer_rounds_expired:
  assumes exp: "timer_expired t e s s'" and e: "e \<in> set (mEfiTimerList s)" "ev_TriggerTime (ievent s e) \<le> t"
    and p: "ev_Period (ievent s e) = 0 \<or> t < t + ev_Period (ievent s e)"
  shows "sum (timer_rounds t s') (set (mEfiTimerList s')) < sum (timer_rounds t s) (set (mEfiTimerList s))"
proof -
  let ?S = "set (mEfiTimerList s)"
  have F: "ev_Period (ievent s' f) = ev_Period (ievent s f)"
    "f \<noteq> e \<Longrightarrow> ev_TriggerTime (ievent s' f) = ev_TriggerTime (ievent s f)" for f
    using exp by (simp_all add: timer_expired_def timer_frame_def)
  have rest: "sum (timer_rounds t s') (?S - {e}) = sum (timer_rounds t s) (?S - {e})"
    by (rule sum.cong) (auto simp: timer_rounds_def F)
  have S: "sum (timer_rounds t s) ?S = timer_rounds t s e + sum (timer_rounds t s) (?S - {e})"
    using e(1) by (simp add: sum.remove)
  show ?thesis
  proof (cases "ev_Period (ievent s e) = 0")
    case True
    then have "set (mEfiTimerList s') = ?S - {e}" "timer_rounds t s e = 1"
      using exp e by (auto simp: timer_expired_def timer_rounds_def)
    then show ?thesis using rest S by simp
  next
    case False
    then have set: "set (mEfiTimerList s') = ?S"
      and tr: "ev_TriggerTime (ievent s' e) = next_trigger t (ev_TriggerTime (ievent s e)) (ev_Period (ievent s e))"
      using exp by (simp_all add: timer_expired_def)
    have "timer_rounds t s' e < timer_rounds t s e"
      using False p e by (auto simp: timer_rounds_def tr F(1) next_trigger_def)
    then show ?thesis using rest S e(1) by (simp add: set sum.remove)
  qed
qed

lemma CoreCheckTimers_loop_returns:
  assumes "ev_settled Tpl s" and Tpl: "TPL_HIGH_LEVEL - 1 \<le> Tpl"
    and "\<forall>e \<in> set (mEfiTimerList s). ev_Period (ievent s e) = 0 \<or> t < t + ev_Period (ievent s e)"
    and "sum (timer_rounds t s) (set (mEfiTimerList s)) + 3 \<le> n"
  shows "\<exists>s'. CoreCheckTimers_loop n env notify t s = Some s'"
  using assms(1,3,4)
proof (induction n arbitrary: s)
  case (Suc n)
  show ?case
  proof (cases "mEfiTimerList s = [] \<or> t < ev_TriggerTime (ievent s (hd (mEfiTimerList s)))")
    case True
    then show ?thesis unfolding CoreCheckTimers_loop_Suc by simp
  next
    case False
    let ?e = "hd (mEfiTimerList s)"
    have e: "?e \<in> set (mEfiTimerList s)" "ev_TriggerTime (ievent s ?e) \<le> t" using False by auto
    have "2 \<le> n" using Suc.prems(3) by simp
    then obtain s1 where ex: "CoreCheckTimers_expire n env notify t ?e s = Some s1"
      using CoreCheckTimers_expire_returns [OF Suc.prems(1) Tpl e(1)] by blast
    note E = CoreCheckTimers_expire_correct [OF Suc.prems(1) Tpl e(1) ex]
    have "sum (timer_rounds t s1) (set (mEfiTimerList s1)) + 3 \<le> n"
      using timer_rounds_expired [OF E(2) e] e(1) Suc.prems(2,3) by fastforce
    moreover have "\<forall>f \<in> set (mEfiTimerList s1). ev_Period (ievent s1 f) = 0 \<or> t < t + ev_Period (ievent s1 f)"
      using E(2) Suc.prems(2) by (auto simp: timer_expired_def timer_frame_def split: if_splits)
    ultimately have "\<exists>s'. CoreCheckTimers_loop n env notify t s1 = Some s'" using Suc.IH E(1) by blast
    then show ?thesis using False ex unfolding CoreCheckTimers_loop_Suc by simp
  qed
qed simp

lemma timer_rounds_le: "sum (timer_rounds t s) (set (mEfiTimerList s)) \<le> 2 * length (mEfiTimerList s)"
proof -
  have "sum (timer_rounds t s) (set (mEfiTimerList s)) \<le> of_nat (card (set (mEfiTimerList s))) * 2"
    by (rule sum_bounded_above) (simp add: timer_rounds_def)
  then show ?thesis using card_length [of "mEfiTimerList s"] by simp
qed

text \<open>
  When adding the period to the time wraps round, the timer is set back to the current time in
  every round.
\<close>

lemma CoreCheckTimers_loop_never:
  assumes s: "ev_settled Tpl s" and Tpl: "TPL_HIGH_LEVEL - 1 \<le> Tpl"
    and e: "e \<in> set (mEfiTimerList s)" "ev_TriggerTime (ievent s e) \<le> t"
      "ev_TriggerTime (ievent s e) + ev_Period (ievent s e) \<le> t"
    and p: "ev_Period (ievent s e) \<noteq> 0" "t + ev_Period (ievent s e) \<le> t"
  shows "CoreCheckTimers_loop n env notify t s = None"
  using s e p
proof (induction n arbitrary: s)
  case (Suc n)
  have T: "ev_timers_ok s" using Suc.prems(1) by (simp add: ev_settled_def ev_inv_def)
  let ?h = "hd (mEfiTimerList s)"
  have h: "mEfiTimerList s \<noteq> []" "ev_TriggerTime (ievent s ?h) \<le> t"
    using Suc.prems(2,3) ev_timers_okD(2) [OF T] by (cases "mEfiTimerList s"; force)+
  show ?case
  proof (cases "CoreCheckTimers_expire n env notify t ?h s")
    case None
    then show ?thesis using h unfolding CoreCheckTimers_loop_Suc by simp
  next
    case (Some s1)
    note E = CoreCheckTimers_expire_correct [OF Suc.prems(1) Tpl _ Some]
    have s1: "ev_settled Tpl s1" "timer_expired t ?h s s1" using E h(1) by simp_all
    have "e \<in> set (mEfiTimerList s1)" "ev_Period (ievent s1 e) = ev_Period (ievent s e)"
      "ev_TriggerTime (ievent s1 e) = (if e = ?h then t else ev_TriggerTime (ievent s e))"
      using s1(2) Suc.prems by (auto simp: timer_expired_def timer_frame_def next_trigger_def split: if_splits)
    then have "CoreCheckTimers_loop n env notify t s1 = None"
      using Suc.IH [OF s1(1)] Suc.prems by (cases "e = ?h") simp_all
    then show ?thesis using h Some unfolding CoreCheckTimers_loop_Suc by simp
  qed
qed simp

section \<open>The timer services keep the invariant\<close>

lemma release_timer_ready:
  assumes "ev_settled Tpl s"
  shows "ev_inv (s\<lparr>mEfiTimerLock := (mEfiTimerLock s)\<lparr>lock_Lock := EfiLockReleased\<rparr>\<rparr>)"
    and "ev_unlocked (s\<lparr>mEfiTimerLock := (mEfiTimerLock s)\<lparr>lock_Lock := EfiLockReleased\<rparr>\<rparr>)"
    and "ev_inv (s\<lparr>mEfiSystemTimeLock := (mEfiSystemTimeLock s)\<lparr>lock_Lock := EfiLockReleased\<rparr>\<rparr>)"
    and "ev_unlocked (s\<lparr>mEfiSystemTimeLock := (mEfiSystemTimeLock s)\<lparr>lock_Lock := EfiLockReleased\<rparr>\<rparr>)"
  using assms by (simp_all add: ev_settled_def ev_unlocked_def)

context notify_contract
begin

lemma release_timer_settled:
  assumes "ev_settled Tpl s" and "CoreReleaseLock n env notify mEfiTimerLock mEfiTimerLock_update s = Some s'"
  shows "ev_settled (OwnerTpl (mEfiTimerLock s)) s'"
  using RestoreTpl_settled [OF release_timer_ready(1,2) [OF assms(1)]] assms(2)
  by (simp add: CoreReleaseLock_timer_eq)

lemma release_time_settled:
  assumes "ev_settled Tpl s"
    and "CoreReleaseLock n env notify mEfiSystemTimeLock mEfiSystemTimeLock_update s = Some s'"
  shows "ev_settled (OwnerTpl (mEfiSystemTimeLock s)) s'"
  using RestoreTpl_settled [OF release_timer_ready(3,4) [OF assms(1)]] assms(2)
  by (simp add: CoreReleaseLock_timer_eq)

lemma CoreCheckTimers_settled:
  assumes s: "ev_settled Tpl s" and run: "CoreCheckTimers n env notify s = Some s'"
  shows "ev_settled Tpl s'"
proof -
  let ?s1 = "CoreAcquireLock env mEfiTimerLock mEfiTimerLock_update s"
  note s1 = acquire_timer_settled [OF s, of env]
  obtain t s2 s3 where t: "CoreCurrentSystemTime n env notify ?s1 = Some (t, s2)"
    and loop: "CoreCheckTimers_loop n env notify t s2 = Some s3"
    and rel: "CoreReleaseLock n env notify mEfiTimerLock mEfiTimerLock_update s3 = Some s'"
    using run by (auto simp: CoreCheckTimers_def bind_eq_Some_conv)
  note C = CoreCurrentSystemTime_settled [OF s1(1)]
  have s2: "ev_settled (TPL_HIGH_LEVEL - 1) s2" "mEfiTimerLock s2 = mEfiTimerLock ?s1"
    using C(2) [OF t] C(3) [of env] ev_timer_viewD(2) [OF C(4) [of env]] by simp_all
  have "ev_settled (TPL_HIGH_LEVEL - 1) s3" "mEfiTimerLock s3 = mEfiTimerLock ?s1"
    using CoreCheckTimers_loop_correct [OF s2(1) order_refl loop] s2(2) by auto
  then show ?thesis using release_timer_settled [OF _ rel] s1(2) by simp
qed

lemma CoreTimerTick_settled:
  assumes s: "ev_settled Tpl s" and run: "CoreTimerTick n env notify d s = Some s'"
  shows "ev_settled Tpl s'"
proof -
  have inv: "ev_inv s" and Tpl: "gEfiCurrentTpl s = Tpl" using s by (simp_all add: ev_settled_def)
  let ?s2 = "s\<lparr>gEfiCurrentTpl := TPL_HIGH_LEVEL, InterruptsEnabled := lock_flag env s,
      mEfiSystemTimeLock := (mEfiSystemTimeLock s)\<lparr>OwnerTpl := gEfiCurrentTpl s, lock_Lock := EfiLockAcquired\<rparr>,
      mEfiSystemTime := mEfiSystemTime s + d\<rparr>"
  have s2: "ev_settled TPL_HIGH_LEVEL ?s2"
    using s ev_quiet_high [OF inv, of TPL_HIGH_LEVEL] by (simp add: ev_settled_def ev_unlocked_def ev_quiet_def)
  have eq: "CoreTimerTick n env notify d s = do {
      s3 \<leftarrow> (if mEfiTimerList s \<noteq> [] \<and> ev_TriggerTime (ievent s (hd (mEfiTimerList s))) \<le> mEfiSystemTime s + d
        then map_option snd (CoreSignalEvent n env notify (mEfiCheckTimerEvent s) ?s2) else Some ?s2);
      CoreReleaseLock n env notify mEfiSystemTimeLock mEfiSystemTimeLock_update s3 }"
    unfolding CoreTimerTick_def acquire_time_lock [OF inv] Let_def
    by (auto simp: map_conv_bind_option intro!: bind_option_cong split: list.split)
  obtain s3 where s3: "s3 = ?s2 \<or> (\<exists>st. CoreSignalEvent n env notify (mEfiCheckTimerEvent s) ?s2 = Some (st, s3))"
    and rel: "CoreReleaseLock n env notify mEfiSystemTimeLock mEfiSystemTimeLock_update s3 = Some s'"
  proof (cases "mEfiTimerList s \<noteq> [] \<and> ev_TriggerTime (ievent s (hd (mEfiTimerList s))) \<le> mEfiSystemTime s + d")
    case True
    then obtain a b where "CoreSignalEvent n env notify (mEfiCheckTimerEvent s) ?s2 = Some (a, b)"
      "CoreReleaseLock n env notify mEfiSystemTimeLock mEfiSystemTimeLock_update b = Some s'"
      using run unfolding eq by (auto simp: bind_eq_Some_conv)
    then show thesis using that by blast
  next
    case False
    show thesis using that [of ?s2] run unfolding eq if_not_P [OF False] by simp
  qed
  have "ev_settled TPL_HIGH_LEVEL s3" "mEfiSystemTimeLock s3 = mEfiSystemTimeLock ?s2"
    using s3 s2 CoreSignalEvent_high [OF s2] by (auto simp: ev_signalled_def)
  then show ?thesis using release_time_settled [OF _ rel] Tpl by simp
qed

end

text \<open>
  \<^verbatim>\<open>CoreSetTimer\<close> for a timer event: the timer is unlinked and cleared, and set anew.
\<close>

definition timer_cleared :: "event_env \<Rightarrow> EFI_EVENT \<Rightarrow> event_state \<Rightarrow> event_state" where
  "timer_cleared env e s =
     (let s1 = CoreAcquireLock env mEfiTimerLock mEfiTimerLock_update s
      in update_event e (\<lambda>x. x\<lparr>ev_TriggerTime := 0, ev_Period := 0\<rparr>)
           (if ev_TimerLink (ievent s e) then timer_unlinked e s1 else s1))"

definition timer_armed ::
  "nat \<Rightarrow> event_env \<Rightarrow> event_notify \<Rightarrow> EFI_EVENT \<Rightarrow> u32 \<Rightarrow> u64 \<Rightarrow> event_state \<Rightarrow> event_state option" where
  "timer_armed n env notify e Type trigger s =
     do {
       (t, s1) \<leftarrow> CoreCurrentSystemTime n env notify
         (if Type = TimerPeriodic then update_event e (\<lambda>x. x\<lparr>ev_Period := trigger\<rparr>) s else s);
       let s2 = CoreInsertEventTimer e (update_event e (\<lambda>x. x\<lparr>ev_TriggerTime := t + trigger\<rparr>) s1);
       if trigger = 0 then map_option snd (CoreSignalEvent n env notify (mEfiCheckTimerEvent s2) s2) else Some s2
     }"

lemma CoreSetTimer_eq:
  assumes "e \<noteq> NULL" and "ev_live s e" and "Type \<le> TimerRelative" and "ev_Type (ievent s e) AND EVT_TIMER \<noteq> 0"
    and inv: "ev_inv s"
  shows "CoreSetTimer n env notify e Type trigger s =
    do {
      s4 \<leftarrow> (if Type = TimerCancel then Some (timer_cleared env e s)
             else timer_armed n env notify e Type
               (if Type = TimerPeriodic \<and> trigger = 0 then env_GetTimerPeriod env else trigger) (timer_cleared env e s));
      map_option (Pair EFI_SUCCESS) (CoreReleaseLock n env notify mEfiTimerLock mEfiTimerLock_update s4)
    }"
proof -
  have "ievent (CoreAcquireLock env mEfiTimerLock mEfiTimerLock_update s) = ievent s"
    by (simp add: acquire_timer_lock [OF inv])
  then show ?thesis using assms(1-4)
    unfolding CoreSetTimer_def ev_live_def timer_cleared_def timer_armed_def timer_unlinked_def Let_def
    by (auto simp: map_conv_bind_option not_less [symmetric] intro!: bind_option_cong)
qed

lemma timer_cleared_settled:
  assumes s: "ev_settled Tpl s"
  shows "ev_settled (TPL_HIGH_LEVEL - 1) (timer_cleared env e s)"
    and "OwnerTpl (mEfiTimerLock (timer_cleared env e s)) = Tpl"
    and "\<lbrakk>e \<noteq> NULL; ev_live s e; ev_Type (ievent s e) AND EVT_TIMER \<noteq> 0\<rbrakk> \<Longrightarrow> timer_idle e (timer_cleared env e s)"
    and "\<not> ev_TimerLink (ievent (timer_cleared env e s) e)"
    and "gEventPending (timer_cleared env e s) = gEventPending s"
proof -
  have inv: "ev_inv s" using s by (simp add: ev_settled_def)
  let ?s1 = "CoreAcquireLock env mEfiTimerLock mEfiTimerLock_update s"
  let ?s2 = "if ev_TimerLink (ievent s e) then timer_unlinked e ?s1 else ?s1"
  note s1 = acquire_timer_settled [OF s, of env]
  have i1: "ievent ?s1 = ievent s" by (simp add: acquire_timer_lock [OF inv])
  have s2: "ev_settled (TPL_HIGH_LEVEL - 1) ?s2" using s1(1) by (simp add: timer_unlinked_settled)
  have un: "\<not> ev_TimerLink (ievent ?s2 e)" by (simp add: i1)
  have eq: "timer_cleared env e s =
      update_event e (\<lambda>x. x\<lparr>ev_Period := 0\<rparr>) (update_event e (\<lambda>x. x\<lparr>ev_TriggerTime := 0\<rparr>) ?s2)"
    by (simp add: timer_cleared_def Let_def update_event_def i1)
  have "ev_settled (TPL_HIGH_LEVEL - 1) (update_event e (\<lambda>x. x\<lparr>ev_TriggerTime := 0\<rparr>) ?s2)"
    using s2 un by (rule timer_retimed_settled)
  then show "ev_settled (TPL_HIGH_LEVEL - 1) (timer_cleared env e s)"
    unfolding eq by (rule settled_update_event) (use \<open>ev_settled _ (update_event _ _ ?s2)\<close> in \<open>simp add: ev_settled_def\<close>)
  show "OwnerTpl (mEfiTimerLock (timer_cleared env e s)) = Tpl"
    using s1(2) by (simp add: eq)
  show "\<not> ev_TimerLink (ievent (timer_cleared env e s) e)" using un by (simp add: eq update_event_def)
  then show "timer_idle e (timer_cleared env e s)"
    if "e \<noteq> NULL" "ev_live s e" "ev_Type (ievent s e) AND EVT_TIMER \<noteq> 0"
    using that by (simp add: timer_idle_def) (simp add: eq update_event_def ev_live_def i1)
  show "gEventPending (timer_cleared env e s) = gEventPending s"
    by (simp add: eq timer_unlinked_def acquire_timer_lock [OF inv])
qed

lemma timer_armed_settled:
  assumes s: "ev_settled Tpl s" and Tpl: "TPL_HIGH_LEVEL - 1 \<le> Tpl" and idle: "timer_idle e s"
    and run: "timer_armed n env notify e Type trigger s = Some s'"
  shows "ev_settled Tpl s'" and "mEfiTimerLock s' = mEfiTimerLock s"
    and "e \<in> set (mEfiTimerList s')" and "ev_TriggerTime (ievent s' e) = mEfiSystemTime s + trigger"
    and "ev_Period (ievent s' e) = (if Type = TimerPeriodic then trigger else ev_Period (ievent s e))"
proof -
  let ?s0 = "if Type = TimerPeriodic then update_event e (\<lambda>x. x\<lparr>ev_Period := trigger\<rparr>) s else s"
  have s0: "ev_settled Tpl ?s0" using s settled_update_event [OF s] by (simp add: ev_settled_def)
  have idle0: "timer_idle e ?s0" using idle by (simp add: timer_idle_def update_event_def ev_live_def)
  obtain t s1 where time: "CoreCurrentSystemTime n env notify ?s0 = Some (t, s1)"
    and rest: "(let s2 = CoreInsertEventTimer e (update_event e (\<lambda>x. x\<lparr>ev_TriggerTime := t + trigger\<rparr>) s1)
      in if trigger = 0 then map_option snd (CoreSignalEvent n env notify (mEfiCheckTimerEvent s2) s2) else Some s2) = Some s'"
    using run by (auto simp: timer_armed_def bind_eq_Some_conv)
  note C = CoreCurrentSystemTime_settled [OF s0]
  have t: "t = mEfiSystemTime s" and s1: "ev_settled Tpl s1" and v1: "ev_timer_view s1 = ev_timer_view ?s0"
    using C(2) [OF time] C(3,4) [of env] by auto
  let ?s1 = "update_event e (\<lambda>x. x\<lparr>ev_TriggerTime := t + trigger\<rparr>) s1"
  have idle1: "timer_idle e s1" using timer_idle_view [OF v1] idle0 by simp
  have "ev_settled Tpl ?s1" using s1 idle1 by (simp add: timer_retimed_settled timer_idle_def)
  moreover have "timer_idle e ?s1" using idle1 by (simp add: timer_idle_def update_event_def ev_live_def)
  ultimately have s2: "ev_settled Tpl (CoreInsertEventTimer e ?s1)" by (rule insert_timer_settled)
  have v: "ev_settled Tpl s' \<and> ev_timer_view s' = ev_timer_view (CoreInsertEventTimer e ?s1)"
  proof (cases "trigger = 0")
    case True
    then obtain st where "CoreSignalEvent n env notify (mEfiCheckTimerEvent (CoreInsertEventTimer e ?s1))
        (CoreInsertEventTimer e ?s1) = Some (st, s')"
      using rest by (auto simp: Let_def)
    from CoreSignalEvent_high [OF s2 Tpl this] show ?thesis by (simp add: ev_signalled_def)
  qed (use rest s2 in \<open>simp add: Let_def\<close>)
  then show "ev_settled Tpl s'" by blast
  note V = ev_timer_viewD [OF conjunct2 [OF v]] and V1 = ev_timer_viewD [OF v1]
  show "mEfiTimerLock s' = mEfiTimerLock s" "e \<in> set (mEfiTimerList s')"
    "ev_TriggerTime (ievent s' e) = mEfiSystemTime s + trigger"
    using V(1,2) V(8) [of e] V1(2) by (auto simp: t update_event_def)
  show "ev_Period (ievent s' e) = (if Type = TimerPeriodic then trigger else ev_Period (ievent s e))"
    using V(9) [of e] V1(9) [of e] by (simp add: update_event_def)
qed

lemma CoreSetTimer_invalid:
  assumes "e = NULL \<or> \<not> ev_live s e \<or> TimerRelative < Type \<or> ev_Type (ievent s e) AND EVT_TIMER = 0"
  shows "CoreSetTimer n env notify e Type trigger s = Some (EFI_INVALID_PARAMETER, s)"
  using assms unfolding CoreSetTimer_def ev_live_def by argo

context notify_contract
begin

lemma CoreSetTimer_settled:
  assumes s: "ev_settled Tpl s" and run: "CoreSetTimer n env notify e Type trigger s = Some (Status, s')"
  shows "ev_settled Tpl s'"
proof (cases "e = NULL \<or> \<not> ev_live s e \<or> TimerRelative < Type \<or> ev_Type (ievent s e) AND EVT_TIMER = 0")
  case True
  then show ?thesis using s run by (simp add: CoreSetTimer_invalid)
next
  case False
  then have ev: "e \<noteq> NULL" "ev_live s e" "Type \<le> TimerRelative" "ev_Type (ievent s e) AND EVT_TIMER \<noteq> 0"
    by (simp_all add: not_less)
  have inv: "ev_inv s" using s by (simp add: ev_settled_def)
  let ?tr = "if Type = TimerPeriodic \<and> trigger = 0 then env_GetTimerPeriod env else trigger"
  note c = timer_cleared_settled [OF s, where env = env and e = e]
  obtain s4 where s4: "(if Type = TimerCancel then Some (timer_cleared env e s)
      else timer_armed n env notify e Type ?tr (timer_cleared env e s)) = Some s4"
    and rel: "CoreReleaseLock n env notify mEfiTimerLock mEfiTimerLock_update s4 = Some s'"
    using run by (auto simp: CoreSetTimer_eq [OF ev inv] bind_eq_Some_conv)
  have "ev_settled (TPL_HIGH_LEVEL - 1) s4 \<and> mEfiTimerLock s4 = mEfiTimerLock (timer_cleared env e s)"
  proof (cases "Type = TimerCancel")
    case False
    then have "timer_armed n env notify e Type ?tr (timer_cleared env e s) = Some s4" using s4 by simp
    from timer_armed_settled(1,2) [OF c(1) order_refl c(3) [OF ev(1,2,4)] this] show ?thesis by blast
  qed (use s4 c(1) in simp)
  then show ?thesis using release_timer_settled [OF _ rel] c(2) by auto
qed

end

end
