(* ===== verification/EventLife.thy ===== *)
theory EventLife
  imports TimerServices
begin

text \<open>
  Creating and closing events, the reachable states of the event database, and what its services
  guarantee in them.
\<close>

section \<open>A new event\<close>

lemma ev_signals_okD:
  assumes "ev_signals_ok s"
  shows "distinct (gEventSignalQueue s)"
    and "e \<in> set (gEventSignalQueue s) \<longleftrightarrow> ev_live s e \<and> ev_SignalLink (ievent s e)"
    and "ev_live s e \<Longrightarrow> ev_SignalLink (ievent s e) \<longleftrightarrow> ev_Type (ievent s e) AND EVT_NOTIFY_SIGNAL \<noteq> 0"
    and "\<lbrakk>ev_live s e; ev_Type (ievent s e) AND (EVT_NOTIFY_WAIT OR EVT_NOTIFY_SIGNAL) \<noteq> 0\<rbrakk>
      \<Longrightarrow> TPL_APPLICATION < ev_NotifyTpl (ievent s e) \<and> ev_NotifyTpl (ievent s e) < TPL_HIGH_LEVEL"
  using assms unfolding ev_signals_ok_def by blast+

lemma ev_signals_okI:
  assumes "distinct (gEventSignalQueue s)"
    and "\<And>e. e \<in> set (gEventSignalQueue s) \<longleftrightarrow> ev_live s e \<and> ev_SignalLink (ievent s e)"
    and "\<And>e. ev_live s e \<Longrightarrow> ev_SignalLink (ievent s e) \<longleftrightarrow> ev_Type (ievent s e) AND EVT_NOTIFY_SIGNAL \<noteq> 0"
    and "\<And>e. \<lbrakk>ev_live s e; ev_Type (ievent s e) AND (EVT_NOTIFY_WAIT OR EVT_NOTIFY_SIGNAL) \<noteq> 0\<rbrakk>
      \<Longrightarrow> TPL_APPLICATION < ev_NotifyTpl (ievent s e) \<and> ev_NotifyTpl (ievent s e) < TPL_HIGH_LEVEL"
  shows "ev_signals_ok s"
  using assms unfolding ev_signals_ok_def by blast

lemma ev_ok_signal_queue [simp]:
  "ev_queues_ok (s\<lparr>gEventSignalQueue := q\<rparr>) \<longleftrightarrow> ev_queues_ok s"
  "ev_timers_ok (s\<lparr>gEventSignalQueue := q\<rparr>) \<longleftrightarrow> ev_timers_ok s"
  by (simp_all add: ev_queues_ok_def ev_timers_ok_def ev_live_def)

lemma timers_ok_replace:
  assumes ok: "ev_timers_ok s" and a: "a \<notin> set (mEfiTimerList s)"
    and x: "ev_Signature x = EVENT_SIGNATURE \<Longrightarrow> \<not> ev_TimerLink x"
  shows "ev_timers_ok (s\<lparr>ievent := (ievent s)(a := x)\<rparr>)" (is "ev_timers_ok ?s")
proof -
  note T = ev_timers_okD [OF ok]
  have "sorted_wrt (\<lambda>f g. ev_TriggerTime (ievent ?s f) \<le> ev_TriggerTime (ievent ?s g)) (mEfiTimerList s)"
    using T(2) a
    by (subst sorted_wrt_mono_rel [of _ "\<lambda>f g. ev_TriggerTime (ievent s f) \<le> ev_TriggerTime (ievent s g)"]) auto
  moreover have "f \<in> set (mEfiTimerList s) \<longleftrightarrow> ev_live ?s f \<and> ev_TimerLink (ievent ?s f)" for f
    using T(3) [of f] a x by (cases "f = a") (auto simp: ev_live_def)
  moreover have "ev_Type (ievent ?s f) AND EVT_TIMER \<noteq> 0" if "ev_live ?s f" "ev_TimerLink (ievent ?s f)" for f
    using T(4) [of f] x that by (cases "f = a") (auto simp: ev_live_def)
  ultimately show ?thesis unfolding ev_timers_ok_def using T(1,5) by simp
qed

text \<open>
  Replacing the contents of one event that is neither in a notification queue nor in the timer
  list, before or after.
\<close>

lemma replace_event_inv:
  assumes inv: "ev_inv s"
    and old: "\<And>p. a \<notin> set (gEventQueue s p)" "a \<notin> set (mEfiTimerList s)" "a \<notin> set (gEventSignalQueue s)"
    and new: "ev_Signature x = EVENT_SIGNATURE \<Longrightarrow> \<not> ev_NotifyLink x \<and> \<not> ev_TimerLink x \<and>
      (ev_SignalLink x \<longleftrightarrow> ev_Type x AND EVT_NOTIFY_SIGNAL \<noteq> 0) \<and>
      (ev_Type x AND (EVT_NOTIFY_WAIT OR EVT_NOTIFY_SIGNAL) \<noteq> 0 \<longrightarrow>
         TPL_APPLICATION < ev_NotifyTpl x \<and> ev_NotifyTpl x < TPL_HIGH_LEVEL)"
    and q: "q = (if ev_Signature x = EVENT_SIGNATURE \<and> ev_SignalLink x then a # gEventSignalQueue s else gEventSignalQueue s)"
  shows "ev_inv (s\<lparr>ievent := (ievent s)(a := x), gEventSignalQueue := q\<rparr>)" (is "ev_inv ?s")
proof -
  have ok: "ev_queues_ok s" "ev_signals_ok s" "ev_timers_ok s" "ev_locks_ok s" using inv by (simp_all add: ev_inv_def)
  note Q = ev_queues_okD [OF ok(1)] and S = ev_signals_okD [OF ok(2)] and T = ev_timers_okD [OF ok(3)]
  have "ev_queues_ok ?s"
  proof (rule ev_queues_okI)
    show "ev_live ?s f \<and> ev_NotifyLink (ievent ?s f) \<and> ev_NotifyTpl (ievent ?s f) = p \<and> p < TPL_HIGH_LEVEL"
      if "f \<in> set (gEventQueue ?s p)" for f p
      using that Q(2) [of f p] old(1) [of p] by (auto simp: ev_live_def)
    show "f \<in> set (gEventQueue ?s (ev_NotifyTpl (ievent ?s f)))"
      if "ev_live ?s f" "ev_NotifyLink (ievent ?s f)" for f
      using that Q(3) [of f] new by (cases "f = a") (auto simp: ev_live_def)
  qed (use Q in simp_all)
  moreover have "ev_signals_ok ?s"
  proof (rule ev_signals_okI)
    show "distinct (gEventSignalQueue ?s)" using S(1) old(3) by (simp add: q)
    show "f \<in> set (gEventSignalQueue ?s) \<longleftrightarrow> ev_live ?s f \<and> ev_SignalLink (ievent ?s f)" for f
      using S(2) [of f] old(3) by (cases "f = a") (auto simp: ev_live_def q)
    show "ev_SignalLink (ievent ?s f) \<longleftrightarrow> ev_Type (ievent ?s f) AND EVT_NOTIFY_SIGNAL \<noteq> 0" if "ev_live ?s f" for f
      using S(3) [of f] new that by (cases "f = a") (auto simp: ev_live_def)
    show "TPL_APPLICATION < ev_NotifyTpl (ievent ?s f) \<and> ev_NotifyTpl (ievent ?s f) < TPL_HIGH_LEVEL"
      if "ev_live ?s f" "ev_Type (ievent ?s f) AND (EVT_NOTIFY_WAIT OR EVT_NOTIFY_SIGNAL) \<noteq> 0" for f
      using S(4) [of f] new that by (cases "f = a") (auto simp: ev_live_def)
  qed
  moreover have "ev_timers_ok ?s" using timers_ok_replace [OF ok(3) old(2)] new by simp
  ultimately show ?thesis using ok(4) by (simp add: ev_inv_def ev_locks_ok_def)
qed

lemma not_live_nowhere:
  assumes "ev_inv s" and "\<not> ev_live s a"
  shows "a \<notin> set (gEventQueue s p)" and "a \<notin> set (mEfiTimerList s)" and "a \<notin> set (gEventSignalQueue s)"
proof -
  have ok: "ev_queues_ok s" "ev_signals_ok s" "ev_timers_ok s" using assms(1) by (simp_all add: ev_inv_def)
  show "a \<notin> set (gEventQueue s p)" "a \<notin> set (mEfiTimerList s)" "a \<notin> set (gEventSignalQueue s)"
    using ev_queues_okD(2) [OF ok(1)] ev_signals_okD(2) [OF ok(2)] ev_timers_okD(3) [OF ok(3)] assms(2) by blast+
qed

text \<open>Taking an event out of every list and clearing its signature.\<close>

lemma close_event_inv:
  assumes inv: "ev_inv s" and live: "ev_live s a" and timer: "\<not> ev_TimerLink (ievent s a)"
    and x: "ev_Signature x \<noteq> EVENT_SIGNATURE"
  shows "ev_inv (s\<lparr>ievent := (ievent s)(a := x), gEventQueue := (\<lambda>p. remove1 a (gEventQueue s p)),
    gEventSignalQueue := remove1 a (gEventSignalQueue s)\<rparr>)" (is "ev_inv ?s")
proof -
  have ok: "ev_queues_ok s" "ev_signals_ok s" "ev_timers_ok s" "ev_locks_ok s" using inv by (simp_all add: ev_inv_def)
  note Q = ev_queues_okD [OF ok(1)] and S = ev_signals_okD [OF ok(2)] and T = ev_timers_okD [OF ok(3)]
  have a: "a \<notin> set (mEfiTimerList s)" using T(3) timer by blast
  have live': "ev_live ?s f \<longleftrightarrow> f \<noteq> a \<and> ev_live s f" for f using x by (simp add: ev_live_def)
  have other: "ievent ?s f = ievent s f" if "f \<noteq> a" for f using that by simp
  have sub: "set (remove1 a (gEventQueue s p)) = set (gEventQueue s p) - {a}" for p using Q(1) by (rule set_remove1_eq)
  have subS: "set (remove1 a (gEventSignalQueue s)) = set (gEventSignalQueue s) - {a}" using S(1) by (rule set_remove1_eq)
  have "ev_queues_ok ?s"
  proof (rule ev_queues_okI)
    show "distinct (gEventQueue ?s p)" for p using Q(1) by (simp add: distinct_remove1)
    show "ev_live ?s f \<and> ev_NotifyLink (ievent ?s f) \<and> ev_NotifyTpl (ievent ?s f) = p \<and> p < TPL_HIGH_LEVEL"
      if "f \<in> set (gEventQueue ?s p)" for f p
      using that Q(2) [of f p] live' [of f] by (auto simp: sub)
    show "f \<in> set (gEventQueue ?s (ev_NotifyTpl (ievent ?s f)))"
      if "ev_live ?s f" "ev_NotifyLink (ievent ?s f)" for f
      using that Q(3) [of f] live' [of f] by (auto simp: sub)
    show "bit (gEventPending ?s) p" if "gEventQueue ?s p \<noteq> []" for p
      using that Q(4) [of p] by (cases "gEventQueue s p") auto
  qed (use Q(5) in simp)
  moreover have "ev_signals_ok ?s"
  proof (rule ev_signals_okI)
    show "distinct (gEventSignalQueue ?s)" using S(1) by (simp add: distinct_remove1)
    show "f \<in> set (gEventSignalQueue ?s) \<longleftrightarrow> ev_live ?s f \<and> ev_SignalLink (ievent ?s f)" for f
      using S(2) [of f] live' [of f] by (cases "f = a") (auto simp: subS)
  qed (use S(3,4) live' in auto)
  moreover have "ev_timers_ok ?s" using timers_ok_replace [OF ok(3) a] x by simp
  ultimately show ?thesis using ok(4) by (simp add: ev_inv_def ev_locks_ok_def)
qed

section \<open>Creating an event\<close>

text \<open>What the allocator promises: an address that is not NULL is not that of a live event.\<close>

definition ev_alloc_fresh :: "event_env \<Rightarrow> event_state \<Rightarrow> bool" where
  "ev_alloc_fresh env s \<longleftrightarrow> (\<forall>rt. env_AllocateEvent env rt s = NULL \<or> \<not> ev_live s (env_AllocateEvent env rt s))"

definition new_event_ok :: "IEVENT \<Rightarrow> bool" where
  "new_event_ok x \<longleftrightarrow> ev_Signature x = EVENT_SIGNATURE \<and> \<not> ev_NotifyLink x \<and> \<not> ev_TimerLink x \<and> \<not> ev_SignalLink x \<and>
     ev_SignalCount x = 0 \<and>
     (ev_Type x AND (EVT_NOTIFY_WAIT OR EVT_NOTIFY_SIGNAL) \<noteq> 0 \<longrightarrow>
        TPL_APPLICATION < ev_NotifyTpl x \<and> ev_NotifyTpl x < TPL_HIGH_LEVEL)"

text \<open>The state in which the event lock is released.\<close>

definition event_linked :: "event_env \<Rightarrow> EFI_EVENT \<Rightarrow> IEVENT \<Rightarrow> EFI_EVENT list \<Rightarrow> event_state \<Rightarrow> event_state" where
  "event_linked env a x r s =
     (let s2 = CoreAcquireEventLock env (update_event a (\<lambda>_. x) (s\<lparr>gRuntimeEventHead := r\<rparr>))
      in if ev_Type x AND EVT_NOTIFY_SIGNAL \<noteq> 0
         then update_event a (\<lambda>e. e\<lparr>ev_SignalLink := True\<rparr>) (s2\<lparr>gEventSignalQueue := a # gEventSignalQueue s2\<rparr>)
         else s2)"

lemma event_linked_owned:
  assumes s: "ev_settled Tpl s" and a: "\<not> ev_live s a" and x: "new_event_ok x"
  shows "ev_owned Tpl (event_linked env a x r s)" and "gEventPending (event_linked env a x r s) = gEventPending s"
    and "ev_live (event_linked env a x r s) a"
proof -
  have inv: "ev_inv s" and Tpl: "gEfiCurrentTpl s = Tpl" using s by (simp_all add: ev_settled_def)
  let ?b = "ev_Type x AND EVT_NOTIFY_SIGNAL \<noteq> 0"
  let ?x = "x\<lparr>ev_SignalLink := ?b\<rparr>"
  let ?q = "if ?b then a # gEventSignalQueue s else gEventSignalQueue s"
  have x0: "x\<lparr>ev_SignalLink := False\<rparr> = x" using x by (simp add: new_event_ok_def)
  have lock: "lock_Tpl (gEventQueueLock (update_event a (\<lambda>_. x) (s\<lparr>gRuntimeEventHead := r\<rparr>))) = TPL_HIGH_LEVEL"
    using ev_inv_lockD [OF inv] by simp
  obtain b l where l: "OwnerTpl l = Tpl" "lock_Tpl l = TPL_HIGH_LEVEL"
    and eq: "event_linked env a x r s = (s\<lparr>ievent := (ievent s)(a := ?x), gEventSignalQueue := ?q\<rparr>)
      \<lparr>gRuntimeEventHead := r, gEfiCurrentTpl := TPL_HIGH_LEVEL, InterruptsEnabled := b, gEventQueueLock := l\<rparr>"
  proof
    let ?l = "(gEventQueueLock s)\<lparr>OwnerTpl := Tpl, lock_Lock := EfiLockAcquired\<rparr>"
    show "event_linked env a x r s = (s\<lparr>ievent := (ievent s)(a := ?x), gEventSignalQueue := ?q\<rparr>)
      \<lparr>gRuntimeEventHead := r, gEfiCurrentTpl := TPL_HIGH_LEVEL,
       InterruptsEnabled := lock_flag env (update_event a (\<lambda>_. x) (s\<lparr>gRuntimeEventHead := r\<rparr>)), gEventQueueLock := ?l\<rparr>"
      using x0 Tpl unfolding event_linked_def CoreAcquireEventLock_eq [OF lock] Let_def
      by (cases s) (auto simp: update_event_def)
  qed (use ev_inv_lockD [OF inv] in simp_all)
  have "ev_inv (s\<lparr>ievent := (ievent s)(a := ?x), gEventSignalQueue := ?q\<rparr>)"
    by (rule replace_event_inv [OF inv]) (use not_live_nowhere [OF inv a] x in \<open>auto simp: new_event_ok_def\<close>)
  then show "ev_owned Tpl (event_linked env a x r s)"
    using l ev_inv_lockD [OF inv] by (simp add: eq ev_owned_def)
  show "gEventPending (event_linked env a x r s) = gEventPending s" by (simp add: eq)
  show "ev_live (event_linked env a x r s) a" using x by (simp add: eq ev_live_def new_event_ok_def)
qed

lemma CoreCreateEventInternal_cases:
  assumes "CoreCreateEventInternal n env notify Type NotifyTpl NotifyFunction NotifyContext EventGroup EventPtr s =
    Some (Status, E, s')"
  obtains (error) "Status = EFI_INVALID_PARAMETER \<or> Status = EFI_OUT_OF_RESOURCES" "E = None" "s' = s"
  | (created) rt x r where "env_AllocateEvent env rt s \<noteq> NULL" "new_event_ok x"
      "Status = EFI_SUCCESS" "E = Some (env_AllocateEvent env rt s)"
      "CoreReleaseEventLock n env notify (event_linked env (env_AllocateEvent env rt s) x r s) = Some s'"
proof -
  obtain T1 G1 where g: "CoreCreateEventInternal_group env Type EventGroup = (T1, G1)" by fastforce
  let ?nf = "T1 AND (EVT_NOTIFY_WAIT OR EVT_NOTIFY_SIGNAL) \<noteq> 0"
  let ?rt = "T1 AND EVT_RUNTIME \<noteq> 0"
  let ?a = "env_AllocateEvent env ?rt s"
  let ?x = "CoreCreateEventInternal_init T1 (if ?nf then NotifyTpl else 0) (if ?nf then NotifyFunction else 0)
    (if ?nf then NotifyContext else 0) G1 ?a"
  let ?r = "if ?rt then gRuntimeEventHead s @ [?a] else gRuntimeEventHead s"
  let ?s3 = "let s2 = CoreAcquireEventLock env (update_event ?a (\<lambda>_. ?x)
         (if ?rt then s\<lparr>gRuntimeEventHead := gRuntimeEventHead s @ [?a]\<rparr> else s))
       in if T1 AND EVT_NOTIFY_SIGNAL \<noteq> 0
          then update_event ?a (\<lambda>e. e\<lparr>ev_SignalLink := True\<rparr>) (s2\<lparr>gEventSignalQueue := ?a # gEventSignalQueue s2\<rparr>)
          else s2"
  let ?bad = "?nf \<and> (NotifyFunction = 0 \<or> NotifyTpl \<le> TPL_APPLICATION \<or> NotifyTpl \<ge> TPL_HIGH_LEVEL)"
  let ?refused = "EventGroup \<noteq> None \<and>
      (Type = EVT_SIGNAL_EXIT_BOOT_SERVICES \<or> Type = EVT_SIGNAL_VIRTUAL_ADDRESS_CHANGE)"
  have run: "(if \<not> EventPtr then Some (EFI_INVALID_PARAMETER, None, s)
      else if Type \<notin> set mEventTable then Some (EFI_INVALID_PARAMETER, None, s)
      else if ?refused then Some (EFI_INVALID_PARAMETER, None, s)
      else if ?bad then Some (EFI_INVALID_PARAMETER, None, s)
      else if ?a = NULL then Some (EFI_OUT_OF_RESOURCES, None, s)
      else do { s4 \<leftarrow> CoreReleaseEventLock n env notify ?s3; Some (EFI_SUCCESS, Some ?a, s4) }) = Some (Status, E, s')"
    using assms unfolding CoreCreateEventInternal_def g prod.case Let_def .
  show thesis
  proof (cases "\<not> EventPtr \<or> Type \<notin> set mEventTable \<or> ?refused \<or> ?bad \<or> ?a = NULL")
    case True
    then have "(Status = EFI_INVALID_PARAMETER \<or> Status = EFI_OUT_OF_RESOURCES) \<and> E = None \<and> s' = s"
      using run by (simp only: split: if_split_asm) simp_all
    then show thesis using error by blast
  next
    case False
    then have "do { s4 \<leftarrow> CoreReleaseEventLock n env notify ?s3; Some (EFI_SUCCESS, Some ?a, s4) } = Some (Status, E, s')"
      using run by argo
    then have c: "Status = EFI_SUCCESS" "E = Some ?a" "CoreReleaseEventLock n env notify ?s3 = Some s'"
      unfolding bind_eq_Some_conv by auto
    have "ev_Type ?x = T1" by (simp add: CoreCreateEventInternal_init_def Let_def split: option.split)
    moreover have "(if ?rt then s\<lparr>gRuntimeEventHead := gRuntimeEventHead s @ [?a]\<rparr> else s) = s\<lparr>gRuntimeEventHead := ?r\<rparr>"
      by simp
    ultimately have s3: "?s3 = event_linked env ?a ?x ?r s" by (simp only: event_linked_def)
    have "new_event_ok ?x" using False
      by (auto simp: new_event_ok_def CoreCreateEventInternal_init_def Let_def zero_IEVENT_def not_le split: option.split)
    then show thesis using created [of ?rt ?x ?r] c False unfolding s3 by blast
  qed
qed

lemma CoreCreateEventInternal_settled:
  assumes s: "ev_settled Tpl s" and fresh: "ev_alloc_fresh env s"
    and run: "CoreCreateEventInternal n env notify Type NotifyTpl NotifyFunction NotifyContext EventGroup EventPtr s =
      Some (Status, E, s')"
  shows "ev_settled Tpl s'"
    and "Status = EFI_SUCCESS \<Longrightarrow> \<exists>e. E = Some e \<and> e \<noteq> NULL \<and> \<not> ev_live s e \<and> ev_live s' e"
    and "Status \<noteq> EFI_SUCCESS \<Longrightarrow> E = None \<and> s' = s"
proof -
  have "ev_settled Tpl s' \<and>
      (Status = EFI_SUCCESS \<longrightarrow> (\<exists>e. E = Some e \<and> e \<noteq> NULL \<and> \<not> ev_live s e \<and> ev_live s' e)) \<and>
      (Status \<noteq> EFI_SUCCESS \<longrightarrow> E = None \<and> s' = s)"
    using run
  proof (cases rule: CoreCreateEventInternal_cases)
    case error
    then show ?thesis using s by (auto simp: efi_const)
  next
    case (created rt x r)
    let ?a = "env_AllocateEvent env rt s"
    have a: "\<not> ev_live s ?a" using fresh created(1) by (auto simp: ev_alloc_fresh_def)
    note L = event_linked_owned [OF s a created(2), of env r]
    have q: "ev_quiet Tpl (event_linked env ?a x r s)" using s L(2) by (simp add: ev_settled_def ev_quiet_def)
    have s': "s' = unlocked_restored env Tpl (event_linked env ?a x r s)"
      using release_quiet(2) [OF L(1) q created(5)] .
    have "ev_live s' ?a" using L(3) by (simp add: s' unlocked_restored_def restored_def ev_live_def)
    then show ?thesis using release_quiet(3) [OF L(1) q] created a s' by simp
  qed
  then show "ev_settled Tpl s'"
    "Status = EFI_SUCCESS \<Longrightarrow> \<exists>e. E = Some e \<and> e \<noteq> NULL \<and> \<not> ev_live s e \<and> ev_live s' e"
    "Status \<noteq> EFI_SUCCESS \<Longrightarrow> E = None \<and> s' = s" by blast+
qed

lemma CoreCreateEvent_settled:
  assumes "ev_settled Tpl s" and "ev_alloc_fresh env s"
    and "CoreCreateEventEx n env notify Type NotifyTpl NotifyFunction NotifyContext EventGroup EventPtr s =
      Some (Status, E, s')"
  shows "ev_settled Tpl s'"
  using assms CoreCreateEventInternal_settled(1) by (auto simp: CoreCreateEventEx_def split: if_splits)

section \<open>Closing an event\<close>

definition close_prepared ::
  "nat \<Rightarrow> event_env \<Rightarrow> event_notify \<Rightarrow> EFI_EVENT \<Rightarrow> event_state \<Rightarrow> event_state option" where
  "close_prepared n env notify e s =
     (if ev_Type (ievent s e) AND EVT_TIMER \<noteq> 0
      then do { (_, s1) \<leftarrow> CoreSetTimer n env notify e TimerCancel 0 s; Some s1 } else Some s)"

lemma close_prepared_correct:
  assumes s: "ev_settled Tpl s" and e: "e \<noteq> NULL" "ev_live s e"
    and run: "close_prepared n env notify e s = Some s'"
  shows "ev_settled Tpl s'" and "ev_live s' e" and "\<not> ev_TimerLink (ievent s' e)"
proof -
  have inv: "ev_inv s" using s by (simp add: ev_settled_def)
  have T: "ev_timers_ok s" using inv by (simp add: ev_inv_def)
  have "ev_settled Tpl s' \<and> ev_live s' e \<and> \<not> ev_TimerLink (ievent s' e)"
  proof (cases "ev_Type (ievent s e) AND EVT_TIMER \<noteq> 0")
    case True
    let ?c = "timer_cleared env e s"
    note c = timer_cleared_settled [OF s, where env = env and e = e]
    let ?r = "?c\<lparr>mEfiTimerLock := (mEfiTimerLock ?c)\<lparr>lock_Lock := EfiLockReleased\<rparr>\<rparr>"
    have "TimerCancel \<le> TimerRelative" by (simp add: efi_const)
    then have "CoreRestoreTpl n env notify Tpl ?r = Some s'"
      using run True c(2) by (auto simp: close_prepared_def CoreSetTimer_eq [OF e _ True inv] CoreReleaseLock_timer_eq bind_eq_Some_conv)
    moreover have q: "ev_quiet Tpl ?r" using s c(5) by (simp add: ev_settled_def ev_quiet_def)
    ultimately have s': "s' = restored env Tpl ?r" by (rule CoreRestoreTpl_quietD)
    have "ev_settled Tpl s'" unfolding s' using release_timer_ready(1,2) [OF c(1)] q by (rule restored_settled)
    moreover have "ev_live s' e" using c(3) [OF e True] by (simp add: s' timer_idle_def ev_live_def restored_def)
    moreover have "\<not> ev_TimerLink (ievent s' e)" using c(4) by (simp add: s' restored_def)
    ultimately show ?thesis by blast
  next
    case False
    then have "s' = s" using run by (simp add: close_prepared_def)
    then show ?thesis using s e(2) False ev_timers_okD(4) [OF T e(2)] by auto
  qed
  then show "ev_settled Tpl s'" "ev_live s' e" "\<not> ev_TimerLink (ievent s' e)" by blast+
qed

text \<open>The event after it was taken out of all lists.\<close>

definition event_unlinked :: "event_env \<Rightarrow> EFI_EVENT \<Rightarrow> event_state \<Rightarrow> event_state" where
  "event_unlinked env e s =
     (let s2 = CoreAcquireEventLock env s;
          s3 = (if ev_RuntimeLink (ievent s2 e)
                then s2\<lparr>gRuntimeEventHead := remove1 e (gRuntimeEventHead s2)\<rparr> else s2);
          s4 = (if ev_NotifyLink (ievent s3 e)
                then s3\<lparr>gEventQueue := (\<lambda>p. remove1 e (gEventQueue s3 p))\<rparr> else s3)
      in if ev_SignalLink (ievent s4 e)
         then s4\<lparr>gEventSignalQueue := remove1 e (gEventSignalQueue s4)\<rparr> else s4)"

lemma CoreCloseEvent_eq:
  assumes "e \<noteq> NULL" and "ev_live s e"
  shows "CoreCloseEvent n env notify e s =
    do {
      s1 \<leftarrow> close_prepared n env notify e s;
      s6 \<leftarrow> CoreReleaseEventLock n env notify (event_unlinked env e s1);
      let s7 = (if ev_ExFlag (ievent s6 e) AND EVT_EXFLAG_EVENT_PROTOCOL_NOTIFICATION \<noteq> 0
                then s6\<lparr>unregister_calls := unregister_calls s6 @ [e]\<rparr> else s6);
      Some (env_FreeEvent env e, update_event e (\<lambda>x. x\<lparr>ev_Signature := 0\<rparr>) s7)
    }"
  using assms unfolding CoreCloseEvent_def close_prepared_def event_unlinked_def ev_live_def
  by (simp add: Let_def)

lemma event_unlinked_eq:
  assumes s: "ev_settled Tpl s" and e: "ev_live s e"
  obtains r b where "event_unlinked env e s =
     s\<lparr>gEventQueue := (\<lambda>p. remove1 e (gEventQueue s p)), gEventSignalQueue := remove1 e (gEventSignalQueue s),
       gRuntimeEventHead := r, gEfiCurrentTpl := TPL_HIGH_LEVEL, InterruptsEnabled := b,
       gEventQueueLock := (gEventQueueLock s)\<lparr>OwnerTpl := Tpl, lock_Lock := EfiLockAcquired\<rparr>\<rparr>"
proof -
  have inv: "ev_inv s" and Tpl: "gEfiCurrentTpl s = Tpl" using s by (simp_all add: ev_settled_def)
  have ok: "ev_queues_ok s" "ev_signals_ok s" using inv by (simp_all add: ev_inv_def)
  have q: "(\<lambda>p. remove1 e (gEventQueue s p)) = gEventQueue s" if "\<not> ev_NotifyLink (ievent s e)"
  proof -
    have "e \<notin> set (gEventQueue s p)" for p using ev_queues_okD(2) [OF ok(1)] that by blast
    then show ?thesis by (simp add: fun_eq_iff remove1_idem)
  qed
  have g: "\<not> ev_SignalLink (ievent s e) \<Longrightarrow> remove1 e (gEventSignalQueue s) = gEventSignalQueue s"
    using ev_signals_okD(2) [OF ok(2)] by (auto simp: remove1_idem)
  let ?r = "if ev_RuntimeLink (ievent s e) then remove1 e (gRuntimeEventHead s) else gRuntimeEventHead s"
  have "event_unlinked env e s =
     s\<lparr>gEventQueue := (\<lambda>p. remove1 e (gEventQueue s p)), gEventSignalQueue := remove1 e (gEventSignalQueue s),
       gRuntimeEventHead := ?r, gEfiCurrentTpl := TPL_HIGH_LEVEL, InterruptsEnabled := lock_flag env s,
       gEventQueueLock := (gEventQueueLock s)\<lparr>OwnerTpl := Tpl, lock_Lock := EfiLockAcquired\<rparr>\<rparr>"
    unfolding event_unlinked_def CoreAcquireEventLock_eq [OF ev_inv_lockD [OF inv]] Tpl Let_def
    by (cases "ev_NotifyLink (ievent s e)"; cases "ev_SignalLink (ievent s e)"; cases "ev_RuntimeLink (ievent s e)")
      (simp_all add: q g)
  then show thesis by (rule that)
qed

lemma CoreCloseEvent_correct:
  assumes s: "ev_settled Tpl s" and e: "e \<noteq> NULL" "ev_live s e"
    and run: "CoreCloseEvent n env notify e s = Some (Status, s')"
  shows "ev_settled Tpl s'" and "\<not> ev_live s' e"
proof -
  obtain s1 s6 where s1: "close_prepared n env notify e s = Some s1"
    and rel: "CoreReleaseEventLock n env notify (event_unlinked env e s1) = Some s6"
    and s': "s' = update_event e (\<lambda>x. x\<lparr>ev_Signature := 0\<rparr>)
      (if ev_ExFlag (ievent s6 e) AND EVT_EXFLAG_EVENT_PROTOCOL_NOTIFICATION \<noteq> 0
       then s6\<lparr>unregister_calls := unregister_calls s6 @ [e]\<rparr> else s6)"
    using run by (auto simp: CoreCloseEvent_eq [OF e] bind_eq_Some_conv)
  note C = close_prepared_correct [OF s e s1]
  have inv: "ev_inv s1" using C(1) by (simp add: ev_settled_def)
  obtain r b where U: "event_unlinked env e s1 =
     s1\<lparr>gEventQueue := (\<lambda>p. remove1 e (gEventQueue s1 p)), gEventSignalQueue := remove1 e (gEventSignalQueue s1),
       gRuntimeEventHead := r, gEfiCurrentTpl := TPL_HIGH_LEVEL, InterruptsEnabled := b,
       gEventQueueLock := (gEventQueueLock s1)\<lparr>OwnerTpl := Tpl, lock_Lock := EfiLockAcquired\<rparr>\<rparr>"
    using event_unlinked_eq [OF C(1,2)] by metis
  have q: "ev_quiet Tpl (s1\<lparr>gEventQueue := (\<lambda>p. remove1 e (gEventQueue s1 p)), gEventSignalQueue := remove1 e (gEventSignalQueue s1),
       gRuntimeEventHead := r, gEfiCurrentTpl := TPL_HIGH_LEVEL, InterruptsEnabled := b,
       gEventQueueLock := (gEventQueueLock s1)\<lparr>OwnerTpl := Tpl, lock_Lock := EfiLockReleased\<rparr>\<rparr>)"
    using C(1) by (simp add: ev_settled_def ev_quiet_def)
  let ?x = "(ievent s1 e)\<lparr>ev_Signature := 0\<rparr>"
  let ?t = "s1\<lparr>ievent := (ievent s1)(e := ?x), gEventQueue := (\<lambda>p. remove1 e (gEventQueue s1 p)),
    gEventSignalQueue := remove1 e (gEventSignalQueue s1)\<rparr>"
  have "ev_inv ?t" by (rule close_event_inv [OF inv C(2,3)]) (simp add: efi_const)
  have s6: "s6 = restored env Tpl (s1\<lparr>gEventQueue := (\<lambda>p. remove1 e (gEventQueue s1 p)), gEventSignalQueue := remove1 e (gEventSignalQueue s1),
       gRuntimeEventHead := r, gEfiCurrentTpl := TPL_HIGH_LEVEL, InterruptsEnabled := b,
       gEventQueueLock := (gEventQueueLock s1)\<lparr>OwnerTpl := Tpl, lock_Lock := EfiLockReleased\<rparr>\<rparr>)"
    using rel q unfolding CoreReleaseEventLock_eq U by (intro CoreRestoreTpl_quietD) simp_all
  obtain b' u where "s' = ?t\<lparr>gRuntimeEventHead := r, gEfiCurrentTpl := Tpl, InterruptsEnabled := b',
      gEventQueueLock := (gEventQueueLock s1)\<lparr>OwnerTpl := Tpl, lock_Lock := EfiLockReleased\<rparr>, unregister_calls := u\<rparr>"
  proof
    show "s' = ?t\<lparr>gRuntimeEventHead := r, gEfiCurrentTpl := Tpl, InterruptsEnabled := InterruptsEnabled s',
      gEventQueueLock := (gEventQueueLock s1)\<lparr>OwnerTpl := Tpl, lock_Lock := EfiLockReleased\<rparr>, unregister_calls := unregister_calls s'\<rparr>"
      unfolding s' s6 restored_def by (cases s1) (simp add: update_event_def)
  qed
  then show "ev_settled Tpl s'" "\<not> ev_live s' e"
    using \<open>ev_inv ?t\<close> C(1) by (simp_all add: ev_settled_def ev_unlocked_def ev_quiet_def ev_live_def efi_const)
qed

end
