(* ===== verification/EventReach.thy ===== *)
theory EventReach
  imports EventLife
begin

text \<open>
  The reachable states of the event database, and what its services guarantee in them.
\<close>

section \<open>The notification functions of the core\<close>

lemma EfiEventEmptyFunction_contract: "notify_contract EfiEventEmptyFunction"
  by unfold_locales (simp add: EfiEventEmptyFunction_def)

text \<open>
  If the drivers keep their part, so do all notification functions: the core's own one checks the
  timers.
\<close>

lemma event_notify_function_contract:
  assumes "notify_contract driver"
  shows "notify_contract (event_notify_function k env driver)"
proof (induction k)
  case 0
  show ?case by unfold_locales simp
next
  case (Suc k)
  show ?case
  proof (unfold_locales)
    fix Tpl s e s'
    assume s: "ev_settled Tpl s" and run: "event_notify_function (Suc k) env driver e s = Some s'"
    from run consider "CoreCheckTimers k env (event_notify_function k env driver) s = Some s'"
      | "s' = s" | "driver e s = Some s'"
      by (simp add: EfiEventEmptyFunction_def split: if_split_asm)
    then show "ev_settled Tpl s'"
      by cases (use s notify_contract.CoreCheckTimers_settled [OF Suc.IH s] notify_contract.keeps [OF assms s] in blast)+
  qed
qed

interpretation core_notify: notify_contract env "event_notify_function k env EfiEventEmptyFunction"
  by (rule event_notify_function_contract [OF EfiEventEmptyFunction_contract])

section \<open>Reachable states\<close>

lemma ev_settled_frame [simp]:
  "ev_settled Tpl (s\<lparr>mEfiCheckTimerEvent := e\<rparr>) \<longleftrightarrow> ev_settled Tpl s"
  "ev_settled Tpl (s\<lparr>gIdleLoopEvent := e\<rparr>) \<longleftrightarrow> ev_settled Tpl s"
  by (simp_all add: ev_settled_def ev_unlocked_def ev_quiet_def)

lemma event_statics_settled: "ev_settled TPL_APPLICATION event_statics"
  by (simp add: ev_settled_def ev_quiet_def ev_inv_defs event_statics_def EFI_INITIALIZE_LOCK_VARIABLE_def
      zero_IEVENT_def efi_const)

lemma CoreRaiseTpl_settled:
  assumes "ev_settled Tpl s" and "Tpl \<le> NewTpl"
  shows "ev_settled NewTpl (snd (CoreRaiseTpl env NewTpl s))"
  using assms unfolding ev_settled_def ev_quiet_def
  by (auto simp: CoreRaiseTpl_def Let_def CoreSetInterruptState_eq ev_unlocked_def)

lemma CoreInitializeEventServices_settled:
  assumes "CoreInitializeEventServices n env notify event_statics = Some (Status, s)"
    and "\<forall>s. ev_alloc_fresh env s"
  shows "ev_settled TPL_APPLICATION s"
proof -
  have "(\<lambda>p. if p \<le> TPL_HIGH_LEVEL then [] else gEventQueue event_statics p) = gEventQueue event_statics"
    by (auto simp: event_statics_def)
  then obtain St1 E1 s1 St2 E2 s2 where
    c1: "CoreCreateEventInternal n env notify EVT_NOTIFY_SIGNAL (TPL_HIGH_LEVEL - 1) CoreCheckTimers_address 0 None True
       event_statics = Some (St1, E1, s1)"
    and c2: "CoreCreateEventEx n env notify EVT_NOTIFY_SIGNAL TPL_NOTIFY EfiEventEmptyFunction_address 0
       (Some (gIdleLoopEventGuid env)) True (case E1 of None \<Rightarrow> s1 | Some e \<Rightarrow> s1\<lparr>mEfiCheckTimerEvent := e\<rparr>) = Some (St2, E2, s2)"
    and s: "s = (case E2 of None \<Rightarrow> s2 | Some e \<Rightarrow> s2\<lparr>gIdleLoopEvent := e\<rparr>)"
    using assms(1) by (auto simp: CoreInitializeEventServices_def CoreInitializeTimer_def bind_eq_Some_conv)
  have "ev_settled TPL_APPLICATION s1"
    using CoreCreateEventInternal_settled(1) [OF event_statics_settled _ c1] assms(2) by blast
  then have "ev_settled TPL_APPLICATION (case E1 of None \<Rightarrow> s1 | Some e \<Rightarrow> s1\<lparr>mEfiCheckTimerEvent := e\<rparr>)"
    by (simp split: option.split)
  then have "ev_settled TPL_APPLICATION s2" using CoreCreateEvent_settled [OF _ _ c2] assms(2) by blast
  then show ?thesis by (auto simp: s split: option.split)
qed

inductive event_reach :: "event_env \<Rightarrow> event_notify \<Rightarrow> event_state \<Rightarrow> bool" for env notify where
  init: "CoreInitializeEventServices n env notify event_statics = Some (Status, s) \<Longrightarrow> event_reach env notify s"
| create: "\<lbrakk>event_reach env notify s;
    CoreCreateEventEx n env notify Type NotifyTpl NotifyFunction NotifyContext EventGroup EventPtr s = Some (Status, E, s')\<rbrakk>
    \<Longrightarrow> event_reach env notify s'"
| signal: "\<lbrakk>event_reach env notify s; CoreSignalEvent n env notify e s = Some (Status, s')\<rbrakk> \<Longrightarrow> event_reach env notify s'"
| check: "\<lbrakk>event_reach env notify s; CoreCheckEvent n env notify e s = Some (Status, s')\<rbrakk> \<Longrightarrow> event_reach env notify s'"
| wait: "\<lbrakk>event_reach env notify s; CoreWaitForEvent n env notify k es s = Some (Status, i, s')\<rbrakk> \<Longrightarrow> event_reach env notify s'"
| timer: "\<lbrakk>event_reach env notify s; CoreSetTimer n env notify e Type t s = Some (Status, s')\<rbrakk> \<Longrightarrow> event_reach env notify s'"
| close: "\<lbrakk>event_reach env notify s; CoreCloseEvent n env notify e s = Some (Status, s')\<rbrakk> \<Longrightarrow> event_reach env notify s'"
| tick: "\<lbrakk>event_reach env notify s; CoreTimerTick n env notify d s = Some s'\<rbrakk> \<Longrightarrow> event_reach env notify s'"
| raise_tpl: "\<lbrakk>event_reach env notify s; gEfiCurrentTpl s \<le> NewTpl; CoreRaiseTpl env NewTpl s = (OldTpl, s')\<rbrakk>
    \<Longrightarrow> event_reach env notify s'"
| restore_tpl: "\<lbrakk>event_reach env notify s; CoreRestoreTpl n env notify NewTpl s = Some s'\<rbrakk> \<Longrightarrow> event_reach env notify s'"

lemma CoreCloseEvent_settled:
  assumes "ev_settled Tpl s" and "CoreCloseEvent n env notify e s = Some (Status, s')"
  shows "ev_settled Tpl s'"
  using assms CoreCloseEvent_correct(1) [OF assms(1) _ _ assms(2)] invalid_event(4) [of e s]
  by (cases "e = NULL \<or> \<not> ev_live s e") auto

lemma ev_settled_Tpl: "ev_settled Tpl s \<Longrightarrow> ev_settled (gEfiCurrentTpl s) s"
  by (simp add: ev_settled_def)

section \<open>An example\<close>

text \<open>A machine with a CPU driver and room for two events.\<close>

definition example_env :: event_env where
  "example_env = \<lparr>env_gCpu = True, env_InSmm = None,
     env_AllocateEvent = (\<lambda>_ s. if ev_Signature (ievent s 0x1000) \<noteq> EVENT_SIGNATURE then 0x1000
       else if ev_Signature (ievent s 0x2000) \<noteq> EVENT_SIGNATURE then 0x2000
       else if ev_Signature (ievent s 0x3000) \<noteq> EVENT_SIGNATURE then 0x3000 else NULL),
     env_GetTimerPeriod = 100000,
     gEfiEventExitBootServicesGuid = replicate 16 1, gEfiEventVirtualAddressChangeGuid = replicate 16 2,
     gIdleLoopEventGuid = replicate 16 3, env_FreeEvent = (\<lambda>_. EFI_SUCCESS)\<rparr>"

lemma example_env_fresh: "\<forall>s. ev_alloc_fresh example_env s"
  by (simp add: ev_alloc_fresh_def example_env_def ev_live_def)

abbreviation "example_notify \<equiv> event_notify_function 20 example_env EfiEventEmptyFunction"

lemma example_init_returns: "CoreInitializeEventServices 20 example_env example_notify event_statics \<noteq> None"
  by code_simp

definition example_state :: event_state where
  "example_state = snd (the (CoreInitializeEventServices 20 example_env example_notify event_statics))"

lemma example_reach: "event_reach example_env example_notify example_state"
proof -
  obtain Status where "CoreInitializeEventServices 20 example_env example_notify event_statics = Some (Status, example_state)"
    using example_init_returns unfolding example_state_def
    by (cases "CoreInitializeEventServices 20 example_env example_notify event_statics") auto
  then show ?thesis by (rule event_reach.init)
qed

section \<open>Properties\<close>

text \<open>
  C8.  The invariant of the event database.  If the notification functions of the drivers keep
  their part of the contract and the allocator returns memory that is not in use, then in every
  state that calls of the event services can reach, at any priority: an event is in the queue of
  its priority at most once and exactly when it is linked, every non-empty queue has its pending
  bit, the signal queue holds exactly the events to notify when signalled, the timer list is sorted,
  the event lock is free, and nothing is pending above the current priority.
\<close>

theorem event_reach_settled:
  assumes "event_reach env (event_notify_function k env driver) s"
    and "notify_contract driver" and "\<forall>s. ev_alloc_fresh env s"
  shows "ev_settled (gEfiCurrentTpl s) s"
proof -
  have c: "notify_contract (event_notify_function k env driver)"
    using assms(2) by (rule event_notify_function_contract)
  show ?thesis using assms(1)
  proof (induction rule: event_reach.induct)
    case (restore_tpl s n NewTpl s')
    then show ?case
      using notify_contract.RestoreTpl_settled [OF c] ev_settled_Tpl by (metis ev_settled_def)
  next
    case (raise_tpl s NewTpl OldTpl s')
    then show ?case using CoreRaiseTpl_settled ev_settled_Tpl by (metis snd_conv)
  qed (use assms(3) CoreInitializeEventServices_settled CoreCreateEvent_settled CoreCloseEvent_settled
      notify_contract.CoreSignalEvent_settled [OF c] notify_contract.CoreCheckEvent_settled [OF c]
      notify_contract.CoreWaitForEvent_settled [OF c] notify_contract.CoreSetTimer_settled [OF c]
      notify_contract.CoreTimerTick_settled [OF c] ev_settled_Tpl in \<open>metis\<close>)+
qed

theorem event_reach_settled_witness: "ev_settled (gEfiCurrentTpl example_state) example_state"
  by (rule event_reach_settled [OF example_reach EfiEventEmptyFunction_contract example_env_fresh])


text \<open>The example: at high priority, with the check of the timers pending.\<close>

definition example_high :: event_state where
  "example_high = snd (CoreRaiseTpl example_env TPL_HIGH_LEVEL example_state)"

definition example_pending :: event_state where
  "example_pending = snd (the (CoreSignalEvent 20 example_env example_notify (mEfiCheckTimerEvent example_high) example_high))"

lemma example_pending_settled: "ev_settled TPL_HIGH_LEVEL example_pending"
proof -
  have e: "ev_settled TPL_APPLICATION example_state"
    using CoreInitializeEventServices_settled [OF _ example_env_fresh] example_init_returns
    unfolding example_state_def by (metis not_None_eq option.sel prod.collapse)
  have h: "ev_settled TPL_HIGH_LEVEL example_high" unfolding example_high_def
    using e by (rule CoreRaiseTpl_settled) (simp add: efi_const)
  have "\<exists>St s'. CoreSignalEvent 20 example_env example_notify (mEfiCheckTimerEvent example_high) example_high = Some (St, s')"
    using h by (rule CoreSignalEvent_high_returns) simp_all
  then show ?thesis unfolding example_pending_def
    using CoreSignalEvent_high(1) [OF h] by (metis diff_le_self option.sel snd_conv)
qed

lemma example_pending_returns:
  "CoreRestoreTpl 20 example_env example_notify TPL_APPLICATION example_pending \<noteq> None \<and>
   gEventQueue example_pending (TPL_HIGH_LEVEL - 1) \<noteq> []"
  by code_simp


end
