(* ===== verification/EventDispatch.thy ===== *)
theory EventDispatch
  imports EventReach
begin

text \<open>
  The order of dispatch: lowering the priority calls the notification functions of the pending
  events, highest priority first, in the order they were queued at each priority.  The functions
  called are \<^verbatim>\<open>EfiEventEmptyFunction\<close>, which do nothing, so that what is called is what was queued.
\<close>

section \<open>One priority\<close>

abbreviation "idle \<equiv> EfiEventEmptyFunction"

lemma release_log [simp]:
  "notify_log (unlocked_restored env Tpl s) = notify_log s" "gEventQueue (unlocked_restored env Tpl s) = gEventQueue s"
  "gEventPending (unlocked_restored env Tpl s) = gEventPending s"
  by (simp_all add: unlocked_restored_def restored_def)

lemma acquire_log: "ev_inv s \<Longrightarrow> notify_log (CoreAcquireEventLock env s) = notify_log s"
  by (simp add: CoreAcquireEventLock_eq ev_inv_lockD)

lemma dispatch_loop_idle:
  assumes "ev_owned p s" and "ev_quiet p s" and "length (gEventQueue s p) + 3 \<le> n"
  shows "\<exists>s'. CoreDispatchEventNotifies_loop n env idle p s = Some s' \<and> ev_owned p s' \<and>
    gEventPending s' = gEventPending s \<and> gEventQueue s' = (gEventQueue s)(p := []) \<and>
    notify_log s' = notify_log s @ map (\<lambda>e. (e, p)) (gEventQueue s p)"
  using assms
proof (induction "gEventQueue s p" arbitrary: s n)
  case Nil
  then obtain m where "n = Suc m" by (cases n) auto
  then show ?case using Nil by (auto simp: fun_eq_iff)
next
  case (Cons e rest)
  have "n = Suc (Suc (Suc (n - 3)))" using Cons.prems(3) by simp
  then obtain k where k: "n = Suc (Suc (Suc k))" by blast
  let ?s1 = "update_event e (\<lambda>x. x\<lparr>ev_NotifyLink := False\<rparr>) (s\<lparr>gEventQueue := (gEventQueue s)(p := rest)\<rparr>)"
  define s2 where "s2 = (if ev_Type (ievent ?s1 e) AND EVT_NOTIFY_SIGNAL \<noteq> 0
             then update_event e (\<lambda>e. e\<lparr>ev_SignalCount := 0\<rparr>) ?s1 else ?s1)"
  have o2: "ev_owned p s2" using dequeue_owned [OF Cons.prems(1) Cons.hyps(2) [symmetric]] by (simp add: s2_def)
  have q2: "ev_quiet p s2" using Cons.prems(2) by (simp add: s2_def ev_quiet_def)
  have f2: "gEventQueue s2 = (gEventQueue s)(p := rest)" "gEventPending s2 = gEventPending s" "notify_log s2 = notify_log s"
    by (simp_all add: s2_def)
  let ?s3 = "unlocked_restored env p s2"
  have rel: "CoreRestoreTpl (Suc (Suc k)) env idle (OwnerTpl (gEventQueueLock s2))
      (s2\<lparr>gEventQueueLock := (gEventQueueLock s2)\<lparr>lock_Lock := EfiLockReleased\<rparr>\<rparr>) = Some ?s3"
    using release_quiet(1) [OF o2 q2] unfolding CoreReleaseEventLock_eq .
  have s3: "ev_settled p ?s3" using o2 q2 by (rule release_quiet)
  let ?s4 = "?s3\<lparr>notify_log := notify_log ?s3 @ [(e, gEfiCurrentTpl ?s3)]\<rparr>"
  let ?s5 = "CoreAcquireEventLock env ?s4"
  have Tpl: "gEfiCurrentTpl ?s3 = p" using s3 by (simp add: ev_settled_def)
  have s4: "ev_settled p ?s4" using s3 by (simp add: ev_settled_def ev_unlocked_def ev_quiet_def)
  then have o5: "ev_owned p ?s5" by (rule acquire_owned)
  have inv4: "ev_inv ?s4" using s4 unfolding ev_settled_def by blast
  have f5: "gEventQueue ?s5 = (gEventQueue s)(p := rest)" "gEventPending ?s5 = gEventPending s"
    "notify_log ?s5 = notify_log s @ [(e, p)]"
    unfolding CoreAcquireEventLock_fields [OF inv4] acquire_log [OF inv4] using f2 Tpl by simp_all
  have step: "CoreDispatchEventNotifies_loop n env idle p s = CoreDispatchEventNotifies_loop (Suc (Suc k)) env idle p ?s5"
    unfolding k CoreDispatchEventNotifies_loop.simps(2) [of "Suc (Suc k)"] Cons.hyps(2) [symmetric] list.case Let_def s2_def [symmetric] rel
      bind.bind_lunit EfiEventEmptyFunction_def ..
  have q5: "ev_quiet p ?s5" using Cons.prems(2) f5(2) by (simp add: ev_quiet_def)
  have len: "length (gEventQueue ?s5 p) + 3 \<le> Suc (Suc k)" using f5(1) Cons.prems(3) Cons.hyps(2) [symmetric] k by simp
  have rest: "rest = gEventQueue ?s5 p" using f5(1) by simp
  show ?case using Cons.hyps(1) [OF rest o5 q5 len] Cons.hyps(2) [symmetric] unfolding step f5 by simp
qed

text \<open>All of one priority.\<close>

lemma dispatch_idle:
  assumes s: "ev_settled p s" and p: "p < TPL_HIGH_LEVEL" and n: "length (gEventQueue s p) + 4 \<le> n"
  shows "\<exists>s'. CoreDispatchEventNotifies n env idle p s = Some s' \<and> ev_settled p s' \<and>
    gEventPending s' = gEventPending s AND NOT (event_bit p) \<and> gEventQueue s' = (gEventQueue s)(p := []) \<and>
    notify_log s' = notify_log s @ map (\<lambda>e. (e, p)) (gEventQueue s p)"
proof -
  have "n = Suc (Suc (Suc (n - 3)))" using n by simp
  then obtain k where k: "n = Suc (Suc (Suc k))" by blast
  have inv: "ev_inv s" and q: "ev_quiet p s" using s by (simp_all add: ev_settled_def)
  note F = CoreAcquireEventLock_fields [OF inv, of env] and L = acquire_log [OF inv, of env]
  have "ev_quiet p (CoreAcquireEventLock env s)" using q F(3) by (simp add: ev_quiet_def)
  moreover have "length (gEventQueue (CoreAcquireEventLock env s) p) + 3 \<le> Suc (Suc k)" using n k F(4) by simp
  ultimately obtain s1 where s1: "CoreDispatchEventNotifies_loop (Suc (Suc k)) env idle p (CoreAcquireEventLock env s) = Some s1"
    "ev_owned p s1" "gEventPending s1 = gEventPending s" "gEventQueue s1 = (gEventQueue s)(p := [])"
    "notify_log s1 = notify_log s @ map (\<lambda>e. (e, p)) (gEventQueue s p)"
    using dispatch_loop_idle [OF acquire_owned [OF s, of env]] F(3,4) L by metis
  let ?s2 = "s1\<lparr>gEventPending := gEventPending s1 AND NOT (event_bit p)\<rparr>"
  have o2: "ev_owned p ?s2" using s1(2,4) p clear_pending_inv [of s1 p] by (simp add: ev_owned_def)
  have q2: "ev_quiet p ?s2" using q s1(3) by (simp add: ev_quiet_def bit_and_iff)
  have "CoreDispatchEventNotifies n env idle p s = CoreReleaseEventLock (Suc (Suc k)) env idle ?s2"
    unfolding k CoreDispatchEventNotifies.simps(2) [of "Suc (Suc k)"] s1(1) bind.bind_lunit Let_def CoreReleaseEventLock_eq ..
  then have "CoreDispatchEventNotifies n env idle p s = Some (unlocked_restored env p ?s2)"
    using release_quiet(1) [OF o2 q2] by simp
  then show ?thesis using release_quiet(3) [OF o2 q2] s1(3-5) by simp
qed

section \<open>All priorities\<close>

text \<open>What is to be called: from \<open>m\<close> down to the priority above \<open>Tpl\<close>.\<close>

definition dispatch_order :: "(nat \<Rightarrow> EFI_EVENT list) \<Rightarrow> nat \<Rightarrow> nat \<Rightarrow> (EFI_EVENT \<times> nat) list" where
  "dispatch_order queue Tpl m = concat (map (\<lambda>p. map (\<lambda>e. (e, p)) (queue p)) (rev [Suc Tpl..<Suc m]))"

lemma dispatch_order_Suc:
  "Tpl \<le> m \<Longrightarrow> dispatch_order queue Tpl (Suc m) = map (\<lambda>e. (e, Suc m)) (queue (Suc m)) @ dispatch_order queue Tpl m"
  by (simp add: dispatch_order_def)

lemma dispatch_order_cong:
  "(\<And>p. p \<le> m \<Longrightarrow> queue p = queue' p) \<Longrightarrow> dispatch_order queue Tpl m = dispatch_order queue' Tpl m"
  unfolding dispatch_order_def by (intro arg_cong [of _ _ concat] map_cong) auto

lemma ev_quiet_lower: "\<lbrakk>ev_quiet (Suc m) s; \<not> bit (gEventPending s) (Suc m)\<rbrakk> \<Longrightarrow> ev_quiet m s"
  unfolding ev_quiet_def by (metis le_SucE)

lemma ev_quiet_top:
  assumes "ev_quiet m s" and "bit (gEventPending s) m"
  shows "gEventPending s \<noteq> 0" and "nat (HighBitSet64 (gEventPending s)) = m"
proof -
  show nz: "gEventPending s \<noteq> 0" using assms(2) by auto
  from nz obtain h where "HighBitSet64 (gEventPending s) = int h" "bit (gEventPending s) h"
    "\<forall>q. bit (gEventPending s) q \<longrightarrow> q \<le> h"
    by (rule HighBitSet64_bit) blast
  then show "nat (HighBitSet64 (gEventPending s)) = m" using assms by (auto simp: ev_quiet_def intro: antisym)
qed

lemma quiet_queue:
  assumes "ev_inv s" and "ev_quiet m s" and "m < p"
  shows "gEventQueue s p = []"
proof -
  have "\<not> bit (gEventPending s) p" using assms(2,3) by (auto simp: ev_quiet_def)
  then show ?thesis using assms(1) ev_queues_okD(4) by (auto simp: ev_inv_def)
qed

lemma restore_loop_settled:
  assumes "ev_inv s" and "ev_unlocked s" and "ev_quiet Tpl s" and "m \<le> Tpl" and "0 < n"
  shows "\<exists>s'. CoreRestoreTpl_loop n env idle Tpl s = Some s' \<and> ev_inv s' \<and> ev_unlocked s' \<and> ev_quiet Tpl s' \<and>
    notify_log s' = notify_log s @ dispatch_order (gEventQueue s) Tpl m \<and>
    gEventQueue s' = (\<lambda>p. if Tpl < p then [] else gEventQueue s p)"
proof -
  obtain k where "n = Suc k" using assms(5) by (cases n) auto
  moreover have "gEventQueue s = (\<lambda>p. if Tpl < p then [] else gEventQueue s p)"
    using quiet_queue [OF assms(1,3)] by (auto simp: fun_eq_iff)
  ultimately show ?thesis using assms CoreRestoreTpl_loop_done [OF assms(3)] by (simp add: dispatch_order_def del: CoreRestoreTpl_loop.simps)
qed

lemma restore_loop_idle:
  assumes "ev_inv s" and "ev_unlocked s" and "ev_quiet m s" and "\<And>p. length (gEventQueue s p) \<le> N"
    and "m + N + 6 \<le> n"
  shows "\<exists>s'. CoreRestoreTpl_loop n env idle Tpl s = Some s' \<and> ev_inv s' \<and> ev_unlocked s' \<and> ev_quiet Tpl s' \<and>
    notify_log s' = notify_log s @ dispatch_order (gEventQueue s) Tpl m \<and>
    gEventQueue s' = (\<lambda>p. if Tpl < p then [] else gEventQueue s p)"
  using assms
proof (induction m arbitrary: s n)
  case 0
  have "ev_quiet Tpl s" using 0(3) by (auto simp: ev_quiet_def)
  then show ?case by (rule restore_loop_settled [OF 0(1,2)]) (use 0(5) in simp_all)
next
  case (Suc m)
  show ?case
  proof (cases "Suc m \<le> Tpl")
    case True
    then have "ev_quiet Tpl s" using Suc.prems(3) by (auto simp: ev_quiet_def)
    then show ?thesis by (rule restore_loop_settled [OF Suc.prems(1,2)]) (use True Suc.prems(5) in simp_all)
  next
    case above: False
    show ?thesis
    proof (cases "bit (gEventPending s) (Suc m)")
      case False
      have q: "ev_quiet m s" using Suc.prems(3) False by (rule ev_quiet_lower)
      have "gEventQueue s (Suc m) = []" using Suc.prems(1) q by (rule quiet_queue) simp
      then have "dispatch_order (gEventQueue s) Tpl (Suc m) = dispatch_order (gEventQueue s) Tpl m"
        using above by (simp add: dispatch_order_Suc)
      then show ?thesis using Suc.IH [OF Suc.prems(1,2) q Suc.prems(4)] Suc.prems(5) by simp
    next
      case True
      obtain k where k: "n = Suc k" using Suc.prems(5) by (cases n) auto
      note top = ev_quiet_top [OF Suc.prems(3) True]
      have p: "Suc m < TPL_HIGH_LEVEL" using Suc.prems(1) ev_queues_okD(5) True by (auto simp: ev_inv_def)
      have nq: "\<not> ev_quiet Tpl s" using True above by (auto simp: ev_quiet_def)
      define s2 where "s2 = CoreSetInterruptState env True (s\<lparr>gEfiCurrentTpl := Suc m\<rparr>)"
      have s2: "ev_settled (Suc m) s2" and f2: "gEventQueue s2 = gEventQueue s" "gEventPending s2 = gEventPending s" "notify_log s2 = notify_log s"
        using Suc.prems(1-3) by (simp_all add: s2_def CoreSetInterruptState_eq ev_settled_def ev_unlocked_def ev_quiet_def)
      have "length (gEventQueue s2 (Suc m)) + 4 \<le> k" using Suc.prems(4) [of "Suc m"] Suc.prems(5) k f2 by simp
      then obtain s3 where s3: "CoreDispatchEventNotifies k env idle (Suc m) s2 = Some s3" "ev_settled (Suc m) s3"
        "gEventPending s3 = gEventPending s AND NOT (event_bit (Suc m))" "gEventQueue s3 = (gEventQueue s)(Suc m := [])"
        "notify_log s3 = notify_log s @ map (\<lambda>e. (e, Suc m)) (gEventQueue s (Suc m))"
        using dispatch_idle [OF s2 p] f2 by metis
      have step: "CoreRestoreTpl_loop n env idle Tpl s = CoreRestoreTpl_loop k env idle Tpl s3"
        using CoreRestoreTpl_loop_dispatch [OF nq, of k env idle] p s3(1) unfolding k top(2) s2_def by simp
      have inv3: "ev_inv s3" "ev_unlocked s3" using s3(2) by (simp_all add: ev_settled_def)
      have q3: "ev_quiet m s3"
        using Suc.prems(3) s3(3) p by (auto simp: ev_quiet_def bit_and_iff bit_not_iff bit_event_bit efi_const le_Suc_eq)
      have len: "length (gEventQueue s3 q) \<le> N" for q using Suc.prems(4) [of q] s3(4) by simp
      have "m + N + 6 \<le> k" using Suc.prems(5) k by simp
      from Suc.IH [OF inv3 q3 len this] obtain s' where s': "CoreRestoreTpl_loop k env idle Tpl s3 = Some s'"
        "ev_inv s'" "ev_unlocked s'" "ev_quiet Tpl s'" "notify_log s' = notify_log s3 @ dispatch_order (gEventQueue s3) Tpl m"
        "gEventQueue s' = (\<lambda>p. if Tpl < p then [] else gEventQueue s3 p)"
        by blast
      have "dispatch_order (gEventQueue s3) Tpl m = dispatch_order (gEventQueue s) Tpl m"
        by (rule dispatch_order_cong) (simp add: s3(4))
      moreover have "gEventQueue s' = (\<lambda>p. if Tpl < p then [] else gEventQueue s p)"
        using s'(6) s3(4) above by (auto simp: fun_eq_iff)
      ultimately show ?thesis
        using s' s3(5) above unfolding step by (simp add: dispatch_order_Suc del: CoreRestoreTpl_loop.simps)
    qed
  qed
qed


text \<open>The example: two events at \<^verbatim>\<open>TPL_CALLBACK\<close> and one at \<^verbatim>\<open>TPL_NOTIFY\<close>, queued in this order.\<close>

definition waiting_event :: "nat \<Rightarrow> IEVENT" where
  "waiting_event Tpl = zero_IEVENT\<lparr>ev_Signature := EVENT_SIGNATURE, ev_Type := EVT_NOTIFY_WAIT, ev_NotifyTpl := Tpl\<rparr>"

definition example_events :: event_state where
  "example_events = event_statics\<lparr>ievent := (\<lambda>_. zero_IEVENT)(0x1000 := waiting_event TPL_CALLBACK,
     0x2000 := waiting_event TPL_CALLBACK, 0x3000 := waiting_event TPL_NOTIFY)\<rparr>"

definition example_queued :: event_state where
  "example_queued = CoreNotifyEvent 0x3000 (CoreNotifyEvent 0x2000 (CoreNotifyEvent 0x1000 example_events))"

lemmas example_defs = example_events_def event_statics_def waiting_event_def zero_IEVENT_def
  EFI_INITIALIZE_LOCK_VARIABLE_def efi_const

lemma example_events_inv: "ev_inv example_events"
  unfolding ev_inv_def ev_queues_ok_def ev_signals_ok_def ev_timers_ok_def ev_locks_ok_def ev_live_def
  by (auto simp: example_defs)

lemma CoreNotifyEvent_log: "notify_log (CoreNotifyEvent e s) = notify_log s"
  by (simp add: CoreNotifyEvent_def Let_def)

lemma example_queued_ok:
  "ev_inv example_queued" "ev_unlocked example_queued" "notify_log example_queued = []"
  "gEventQueue example_queued = (\<lambda>_. [])(8 := [0x1000, 0x2000], 16 := [0x3000])"
proof -
  show "ev_inv example_queued" unfolding example_queued_def
    by (intro CoreNotifyEvent_inv example_events_inv)
      (simp_all add: CoreNotifyEvent_ievent ev_live_def example_defs)
  show "ev_unlocked example_queued" "notify_log example_queued = []"
    by (simp_all add: example_queued_def ev_unlocked_def CoreNotifyEvent_log example_defs)
  show "gEventQueue example_queued = (\<lambda>_. [])(8 := [0x1000, 0x2000], 16 := [0x3000])"
    by (simp add: example_queued_def CoreNotifyEvent_def example_defs Let_def update_event_def fun_eq_iff)
qed


section \<open>Signalling and checking\<close>

definition example_plain :: event_state where
  "example_plain = event_statics\<lparr>ievent := (\<lambda>_. zero_IEVENT)(0x4000 := zero_IEVENT\<lparr>ev_Signature := EVENT_SIGNATURE\<rparr>)\<rparr>"

lemma example_plain_settled: "ev_settled TPL_APPLICATION example_plain"
  unfolding ev_settled_def ev_inv_def ev_queues_ok_def ev_signals_ok_def ev_timers_ok_def ev_locks_ok_def ev_live_def
    ev_quiet_def ev_unlocked_def
  by (auto simp: example_plain_def example_defs)



section \<open>Closing an event\<close>


lemma example_queued_high: "ev_settled 30 (example_queued\<lparr>gEfiCurrentTpl := 30\<rparr>)"
  using example_queued_ok(1,2) ev_quiet_high [OF example_queued_ok(1), of 30]
  by (simp add: ev_settled_def ev_unlocked_def ev_quiet_def efi_const)

lemma example_close_returns:
  "CoreCloseEvent 2 example_env EfiEventEmptyFunction 0x2000 (example_queued\<lparr>gEfiCurrentTpl := 30\<rparr>) \<noteq> None"
  by code_simp


end
