(* ===== verification/TimerProps.thy ===== *)
theory TimerProps
  imports TimerServices
begin

text \<open>
  What the check of the timers does: it signals the timers that are due and no other, and it
  returns, unless the time of a periodic timer wraps round.
\<close>

section \<open>An example\<close>

definition timer_event :: "u64 \<Rightarrow> u64 \<Rightarrow> IEVENT" where
  "timer_event trigger period = zero_IEVENT\<lparr>ev_Signature := EVENT_SIGNATURE, ev_Type := EVT_TIMER,
     ev_TimerLink := True, ev_TriggerTime := trigger, ev_Period := period\<rparr>"

text \<open>Two timers that are due at time 20, a periodic one and one that is not, and one that is not due.\<close>

definition example_timers :: event_state where
  "example_timers = event_statics\<lparr>gEfiCurrentTpl := TPL_HIGH_LEVEL - 1, mEfiTimerList := [0x1000, 0x2000, 0x3000],
     ievent := (\<lambda>_. zero_IEVENT)(0x1000 := timer_event 5 0, 0x2000 := timer_event 8 3, 0x3000 := timer_event 100 0)\<rparr>"

text \<open>A periodic timer with the longest period, set at time 3.\<close>

definition example_wrap :: event_state where
  "example_wrap = event_statics\<lparr>gEfiCurrentTpl := TPL_HIGH_LEVEL - 1, mEfiTimerList := [0x1000], mEfiSystemTime := 3,
     ievent := (\<lambda>_. zero_IEVENT)(0x1000 := timer_event (3 + 0xFFFFFFFFFFFFFFFF) 0xFFFFFFFFFFFFFFFF)\<rparr>"

lemmas example_timer_defs = example_timers_def example_wrap_def event_statics_def timer_event_def zero_IEVENT_def
  EFI_INITIALIZE_LOCK_VARIABLE_def efi_const

lemma example_timers_settled:
  "ev_settled (TPL_HIGH_LEVEL - 1) example_timers" "ev_settled (TPL_HIGH_LEVEL - 1) example_wrap"
  unfolding ev_settled_def ev_inv_def ev_queues_ok_def ev_signals_ok_def ev_timers_ok_def ev_locks_ok_def ev_live_def
    ev_quiet_def ev_unlocked_def
  by (auto simp: example_timer_defs)

section \<open>Properties\<close>

text \<open>
  C13.  When the loop of \<^verbatim>\<open>CoreCheckTimers\<close> has run at time \<open>t\<close>: every timer that was due is
  signalled; the timers left are those that were not due and the periodic ones, and all of them lie
  in the future; a timer that was not due keeps its time and, unless it is the core's own event,
  its signal count; the list is still sorted and the invariant holds.
\<close>

theorem CoreCheckTimers_signals_due:
  assumes "ev_settled (TPL_HIGH_LEVEL - 1) s" and "CoreCheckTimers_loop n env notify t s = Some s'"
  shows "ev_settled (TPL_HIGH_LEVEL - 1) s' \<and>
    (\<forall>e. e \<in> set (mEfiTimerList s) \<and> ev_TriggerTime (ievent s e) \<le> t \<longrightarrow> ev_SignalCount (ievent s' e) \<noteq> 0) \<and>
    set (mEfiTimerList s') =
      {e \<in> set (mEfiTimerList s). t < ev_TriggerTime (ievent s e) \<or> ev_Period (ievent s e) \<noteq> 0} \<and>
    (\<forall>e. e \<in> set (mEfiTimerList s') \<longrightarrow> t < ev_TriggerTime (ievent s' e)) \<and>
    (\<forall>e. t < ev_TriggerTime (ievent s e) \<and> e \<noteq> mEfiCheckTimerEvent s \<longrightarrow>
       ev_TriggerTime (ievent s' e) = ev_TriggerTime (ievent s e) \<and>
       ev_SignalCount (ievent s' e) = ev_SignalCount (ievent s e))"
  using CoreCheckTimers_loop_correct [OF assms(1) order_refl assms(2)] unfolding ev_counts_def by blast

text \<open>
  C14.  The loop returns if no period, added to the time of the check, wraps round; two rounds for
  each timer and three units of fuel more are enough.
\<close>

theorem CoreCheckTimers_terminates:
  assumes "ev_settled (TPL_HIGH_LEVEL - 1) s"
    and "\<forall>e \<in> set (mEfiTimerList s). ev_Period (ievent s e) = 0 \<or> t < t + ev_Period (ievent s e)"
    and "2 * length (mEfiTimerList s) + 3 \<le> n"
  shows "\<exists>s'. CoreCheckTimers_loop n env notify t s = Some s'"
  using CoreCheckTimers_loop_returns [OF assms(1) order_refl assms(2)] timer_rounds_le [of t s] assms(3) by simp

theorem CoreCheckTimers_terminates_witness:
  "\<forall>env notify. \<exists>s'. CoreCheckTimers_loop 9 env notify 20 example_timers = Some s'"
  by (intro allI, rule CoreCheckTimers_terminates [OF example_timers_settled(1)]) (simp_all add: example_timer_defs)

theorem CoreCheckTimers_signals_due_witness:
  "\<forall>env notify. \<exists>s'. CoreCheckTimers_loop 9 env notify 20 example_timers = Some s' \<and>
     ev_SignalCount (ievent s' 0x1000) \<noteq> 0 \<and> ev_SignalCount (ievent s' 0x2000) \<noteq> 0 \<and>
     ev_SignalCount (ievent s' 0x3000) = 0 \<and> set (mEfiTimerList s') = {0x2000, 0x3000}"
proof (intro allI)
  fix env notify
  obtain s' where run: "CoreCheckTimers_loop 9 env notify 20 example_timers = Some s'"
    using CoreCheckTimers_loop_returns [OF example_timers_settled(1) order_refl, of 20 9 env notify]
      timer_rounds_le [of 20 example_timers] by (auto simp: example_timer_defs)
  have "ev_TriggerTime (ievent example_timers 0x1000) \<le> 20" "ev_TriggerTime (ievent example_timers 0x2000) \<le> 20"
    "20 < ev_TriggerTime (ievent example_timers 0x3000)" "ev_SignalCount (ievent example_timers 0x3000) = 0"
    "mEfiTimerList example_timers = [0x1000, 0x2000, 0x3000]" "mEfiCheckTimerEvent example_timers = NULL"
    "{e \<in> set (mEfiTimerList example_timers). 20 < ev_TriggerTime (ievent example_timers e) \<or>
      ev_Period (ievent example_timers e) \<noteq> 0} = {0x2000, 0x3000}"
    by (auto simp: example_timer_defs)
  then show "\<exists>s'. CoreCheckTimers_loop 9 env notify 20 example_timers = Some s' \<and>
     ev_SignalCount (ievent s' 0x1000) \<noteq> 0 \<and> ev_SignalCount (ievent s' 0x2000) \<noteq> 0 \<and>
     ev_SignalCount (ievent s' 0x3000) = 0 \<and> set (mEfiTimerList s') = {0x2000, 0x3000}"
    using CoreCheckTimers_signals_due [OF example_timers_settled(1) run] run by simp
qed



end
