(* ===== verification/MemoryProps.thy ===== *)
theory MemoryProps
  imports BaseMemory
begin

text \<open>
  The memory library does what it says: copying with words in either direction copies the buffer as it
  was, filling with words fills exactly the buffer, comparing and scanning find the first byte or
  element.  The loops are verified once for any width, in the locales \<open>mem_move\<close> and \<open>mem_fill\<close>,
  which are interpreted for the widths the code uses.
\<close>

section \<open>Copying is correct\<close>

text \<open>A buffer copied as it was before the call.\<close>

definition copied :: "memory \<Rightarrow> u64 \<Rightarrow> u64 \<Rightarrow> u64 \<Rightarrow> memory" where
  "copied mem d s n = (\<lambda>a. if a - d < n then mem (s + (a - d)) else mem a)"

lemma copied_0 [simp]: "copied mem d s 0 = mem"
  by (simp add: copied_def fun_eq_iff)

lemma word_diff_less:
  assumes "unat n + unat m < 2 ^ 64"
  shows "(x :: u64) - n < m \<longleftrightarrow> n \<le> x \<and> x < n + m"
  using assms unat_u64_bound [of x] by (auto simp: word_less_nat_alt word_le_nat_alt unat_sub_if' unat_plus_if' split: if_splits)

lemma copied_up:
  assumes "d < s" and "unat s + unat n + unat m \<le> 2 ^ 64"
  shows "copied (copied mem d s n) (d + n) (s + n) m = copied mem d s (n + m)"
proof
  fix a
  define x where "x = a - d"
  have a: "a = d + x" by (simp add: x_def)
  have nm: "unat n + unat m < 2 ^ 64" using assms by (simp add: word_less_nat_alt)
  have in_range: "\<not> s + x - d < n" if "n \<le> x" "x < n + m"
    using that assms nm unat_u64_bound [of s] unat_u64_bound [of d] by (auto simp: word_less_nat_alt word_le_nat_alt unat_sub_if' unat_plus_if' split: if_splits)
  have le: "\<not> n \<le> x \<longleftrightarrow> x < n" by auto
  have below: "x < n \<Longrightarrow> x < n + m" using nm by (simp add: word_less_nat_alt unat_plus_if')
  have addr: "a - (d + n) = x - n" "s + n + (x - n) = s + x" by (simp_all add: x_def)
  show "copied (copied mem d s n) (d + n) (s + n) m a = copied mem d s (n + m) a"
    using word_diff_less [OF nm, of x] in_range le below by (simp add: copied_def x_def [symmetric] addr)
qed

lemma copied_down:
  assumes "s < d" and "unat d + unat n + unat m \<le> 2 ^ 64"
  shows "copied (copied mem (d + n) (s + n) m) d s n = copied mem d s (n + m)"
proof
  fix a
  define x where "x = a - d"
  have a: "a = d + x" by (simp add: x_def)
  have nm: "unat n + unat m < 2 ^ 64" using assms by (simp add: word_less_nat_alt)
  have in_range: "\<not> s + x - (d + n) < m" if "x < n"
    using that assms nm unat_u64_bound [of s] unat_u64_bound [of d] by (auto simp: word_less_nat_alt word_le_nat_alt unat_sub_if' unat_plus_if' split: if_splits)
  have le: "\<not> n \<le> x \<longleftrightarrow> x < n" by auto
  have below: "x < n \<Longrightarrow> x < n + m" using nm by (simp add: word_less_nat_alt unat_plus_if')
  have addr: "a - (d + n) = x - n" "s + n + (x - n) = s + x" by (simp_all add: x_def)
  show "copied (copied mem (d + n) (s + n) m) d s n a = copied mem d s (n + m) a"
    using word_diff_less [OF nm, of x] in_range le below by (simp add: copied_def x_def [symmetric] addr)
qed

text \<open>A word that is read from one memory and written into another.\<close>

definition blit :: "memory \<Rightarrow> memory \<Rightarrow> u64 \<Rightarrow> u64 \<Rightarrow> u64 \<Rightarrow> memory" where
  "blit mem mem' d s n = (\<lambda>a. if a - d < n then mem' (s + (a - d)) else mem a)"

lemma copied_blit: "copied mem d s n = blit mem mem d s n"
  by (simp add: copied_def blit_def)

lemma blit_add:
  assumes "unat n + unat m < 2 ^ 64"
  shows "blit (blit mem mem' d s n) mem' (d + n) (s + n) m = blit mem mem' d s (n + m)"
proof
  fix a
  define x where "x = a - d"
  have addr: "a - (d + n) = x - n" "s + n + (x - n) = s + x" by (simp_all add: x_def)
  have "\<not> n \<le> x \<longleftrightarrow> x < n" by auto
  moreover have "x < n \<Longrightarrow> x < n + m" using assms by (simp add: word_less_nat_alt unat_plus_if')
  ultimately show "blit (blit mem mem' d s n) mem' (d + n) (s + n) m a = blit mem mem' d s (n + m) a"
    using word_diff_less [OF assms, of x] by (auto simp: blit_def x_def [symmetric] addr)
qed

lemma byte_parts:
  "(ucast (ucast (l :: u8) OR push_bit 8 (ucast (h :: u8)) :: u16) :: u8) = l"
  "(ucast (drop_bit 8 (ucast (l :: u8) OR push_bit 8 (ucast (h :: u8)) :: u16)) :: u8) = h"
  "(ucast (ucast (l' :: u16) OR push_bit 16 (ucast (h' :: u16)) :: u32) :: u16) = l'"
  "(ucast (drop_bit 16 (ucast (l' :: u16) OR push_bit 16 (ucast (h' :: u16)) :: u32)) :: u16) = h'"
  "(ucast (ucast (l'' :: u32) OR push_bit 32 (ucast (h'' :: u32)) :: u64) :: u32) = l''"
  "(ucast (drop_bit 32 (ucast (l'' :: u32) OR push_bit 32 (ucast (h'' :: u32)) :: u64)) :: u32) = h''"
  by (rule bit_word_eqI, auto simp: bit_simps dest: bit_imp_le_length)+

lemma u64_less_2: "(x :: u64) < 2 \<longleftrightarrow> x = 0 \<or> x = 1"
  by (auto simp: word_less_nat_alt word_unat_eq_iff less_2_cases_iff)

lemma Write_Read:
  "WriteUnaligned16 mem d (ReadUnaligned16 mem' s) = blit mem mem' d s 2"
  "WriteUnaligned32 mem d (ReadUnaligned32 mem' s) = blit mem mem' d s 4"
  "WriteUnaligned64 mem d (ReadUnaligned64 mem' s) = blit mem mem' d s 8"
proof -
  show w16: "WriteUnaligned16 mem d (ReadUnaligned16 mem' s) = blit mem mem' d s 2" for mem d s
  proof
    fix a
    have "a - d = 1 \<longleftrightarrow> a = d + 1" by (auto simp: algebra_simps)
    then show "WriteUnaligned16 mem d (ReadUnaligned16 mem' s) a = blit mem mem' d s 2 a"
      unfolding WriteUnaligned16_def ReadUnaligned16_def byte_parts by (auto simp: blit_def u64_less_2)
  qed
  show w32: "WriteUnaligned32 mem d (ReadUnaligned32 mem' s) = blit mem mem' d s 4" for mem d s
    unfolding WriteUnaligned32_def ReadUnaligned32_def byte_parts w16 by (subst blit_add) simp_all
  show "WriteUnaligned64 mem d (ReadUnaligned64 mem' s) = blit mem mem' d s 8"
    unfolding WriteUnaligned64_def ReadUnaligned64_def byte_parts w32 by (subst blit_add) simp_all
qed

lemma moves_copied:
  "move8 mem d s = copied mem d s 1" "move32 mem d s = copied mem d s 4" "move64 mem d s = copied mem d s 8"
  by (auto simp: move8_def move32_def move64_def Write_Read copied_blit blit_def fun_eq_iff)

text \<open>
  What the loops rely on: one assignment moves a word of \<open>w\<close> bytes, and \<open>w\<close> is a power of two.
\<close>

locale mem_move =
  fixes move :: "memory \<Rightarrow> u64 \<Rightarrow> u64 \<Rightarrow> memory" and w :: u64
  assumes move_copied: "move mem d s = copied mem d s w"
    and w_pos: "w \<noteq> 0"
    and w_mask: "x AND (w - 1) = x mod w"
begin

lemma copy_up_copied:
  "d < s \<Longrightarrow> unat s + unat n \<le> 2 ^ 64 \<Longrightarrow>
     \<exists>k. copy_up move w d s n mem = (d + k, s + k, n - k, copied mem d s k) \<and> k \<le> n \<and> n - k < w"
proof (induction n arbitrary: d s mem rule: measure_induct_rule [where f = unat])
  case (less n)
  have stop: "copy_up move w d' s' m mem' = (d', s', m, mem')" if "m < w" for d' s' m mem'
    using that by (subst copy_up.simps) (auto simp: not_less [symmetric])
  show ?case
  proof (cases "n < w")
    case True
    then show ?thesis using stop by (intro exI [of _ 0]) simp
  next
    case False
    then have "w \<le> n" by simp
    then have wn: "w \<le> n" "unat (n - w) = unat n - unat w" "unat w \<le> unat n" by (simp_all add: unat_sub word_le_nat_alt)
    have step: "copy_up move w d s n mem = copy_up move w (d + w) (s + w) (n - w) (copied mem d s w)"
      using wn(1) w_pos by (subst copy_up.simps) (simp add: move_copied)
    show ?thesis
    proof (cases "n - w < w")
      case True
      then show ?thesis using stop step wn(1) by (intro exI [of _ w]) simp
    next
      case again: False
      have sw: "unat s + unat w < 2 ^ 64" using again w_pos less.prems(2) wn by (simp add: word_less_nat_alt unat_gt_0 [symmetric] del: unat_gt_0)
      then have lt: "d + w < s + w" and s: "unat (s + w) + unat (n - w) \<le> 2 ^ 64"
        using less.prems wn by (simp_all add: word_less_nat_alt unat_plus_if')
      obtain k where k: "copy_up move w (d + w) (s + w) (n - w) (copied mem d s w) =
          (d + w + k, s + w + k, n - w - k, copied (copied mem d s w) (d + w) (s + w) k)" "k \<le> n - w" "n - w - k < w"
        using less.IH [OF unat_sub_less [OF w_pos wn(1)] lt s] by blast
      have k': "unat k \<le> unat n - unat w" using k(2) wn by (simp add: word_le_nat_alt)
      then have "copied (copied mem d s w) (d + w) (s + w) k = copied mem d s (w + k)"
        using less.prems wn by (intro copied_up) simp_all
      moreover have "w + k \<le> n" using k' wn(3) unat_u64_less [of n] by (simp add: word_le_nat_alt unat_plus_if' del: unat_u64_less) linarith
      ultimately show ?thesis
        using k step by (intro exI [of _ "w + k"]) (simp add: add.assoc diff_diff_add)
    qed
  qed
qed

lemma copy_down_copied:
  "s < d \<Longrightarrow> unat d + unat n \<le> 2 ^ 64 \<Longrightarrow> unat n = k * unat w \<Longrightarrow> copy_down move w (d + n) (s + n) n mem = Some (copied mem d s n)"
proof (induction k arbitrary: n mem)
  case 0
  then have "n = 0" by (simp add: unat_eq_0)
  then show ?case by (simp add: copy_down.simps)
next
  case (Suc k)
  have wn: "unat w \<le> unat n" using Suc.prems(3) by simp
  then have n': "unat (n - w) = k * unat w" using Suc.prems(3) by (simp add: unat_sub word_le_nat_alt)
  have "n > 0" using wn w_pos by (simp add: word_less_nat_alt unat_gt_0 [symmetric] del: unat_gt_0)
  then have "copy_down move w (d + n) (s + n) n mem = copy_down move w (d + (n - w)) (s + (n - w)) (n - w) (copied mem (d + (n - w)) (s + (n - w)) w)"
    by (subst copy_down.simps) (simp add: move_copied add_diff_eq)
  also have "\<dots> = Some (copied (copied mem (d + (n - w)) (s + (n - w)) w) d s (n - w))"
    using Suc.IH [OF Suc.prems(1) _ n'] Suc.prems(2,3) n' by simp
  also have "\<dots> = Some (copied mem d s n)"
    using copied_down [OF Suc.prems(1), of "n - w" w mem] Suc.prems(2,3) n' by simp
  finally show ?case .
qed

lemma copy_down_tail:
  assumes "s < d" and "unat d + unat n \<le> 2 ^ 64"
  shows "copy_down move w (d + (n - n mod w)) (s + (n - n mod w)) (n - n mod w) mem = Some (copied mem d s (n - n mod w))"
proof (rule copy_down_copied [OF assms(1), where k = "unat n div unat w"])
  have "unat (n - n mod w) = unat n - unat n mod unat w" by (simp add: unat_sub word_le_nat_alt unat_mod_distrib)
  moreover have "unat n - unat n mod unat w \<le> unat n" by simp
  ultimately show "unat (n - n mod w) = unat n div unat w * unat w" "unat d + unat (n - n mod w) \<le> 2 ^ 64"
    using assms(2) by (simp only: minus_mod_eq_div_mult, linarith)
qed

end

lemma copy_tail_copied:
  assumes "s < d" and "unat d + unat n \<le> 2 ^ 64" and "j \<le> n"
  shows "copy_tail (d + n) (s + n) n j mem = (d + (n - j), s + (n - j), n - j, copied mem (d + (n - j)) (s + (n - j)) j)"
  using assms
proof (induction j arbitrary: n mem rule: measure_induct_rule [where f = unat])
  case (less j)
  show ?case
  proof (cases "j = 0")
    case True
    then show ?thesis by (subst copy_tail.simps) simp
  next
    case False
    then have j: "unat j \<ge> 1" "unat j \<le> unat n" using less.prems(3) unat_gt_0 [of j] by (simp_all add: word_le_nat_alt)
    then have n: "unat (n - 1) = unat n - 1" "unat (j - 1) = unat j - 1" "unat (n - j) = unat n - unat j"
      by (simp_all add: unat_sub word_le_nat_alt)
    have j1: "j - 1 \<le> n - 1" using n j by (simp add: word_le_nat_alt)
    have "copy_tail (d + n) (s + n) n j mem = copy_tail (d + (n - 1)) (s + (n - 1)) (n - 1) (j - 1) (copied mem (d + (n - 1)) (s + (n - 1)) 1)"
      using False by (subst copy_tail.simps) (simp add: moves_copied add_diff_eq)
    also have "\<dots> = (d + (n - j), s + (n - j), n - j, copied (copied mem (d + (n - 1)) (s + (n - 1)) 1) (d + (n - j)) (s + (n - j)) (j - 1))"
      using less.IH [OF unat_pred_less [OF False] less.prems(1) _ j1] less.prems(2) n(1) j by simp
    also have "copied (copied mem (d + (n - 1)) (s + (n - 1)) 1) (d + (n - j)) (s + (n - j)) (j - 1) = copied mem (d + (n - j)) (s + (n - j)) j"
    proof -
      have "s + (n - j) < d + (n - j)" using less.prems(1,2) n(3) j by (simp add: word_less_nat_alt unat_plus_if') linarith
      moreover have "unat (d + (n - j)) + unat (j - 1) + unat (1 :: u64) \<le> 2 ^ 64" using less.prems(2) n(2,3) j by (simp add: unat_plus_if')
      ultimately show ?thesis using copied_down [of "s + (n - j)" "d + (n - j)" "j - 1" 1 mem] by simp
    qed
    finally show ?thesis .
  qed
qed

lemma copy_down8_copied:
  assumes "s < d" and "unat d + unat n \<le> 2 ^ 64"
  shows "copy_down8 (d + (n - 1)) (s + (n - 1)) n mem = copied mem d s n"
  using assms
proof (induction n arbitrary: mem rule: measure_induct_rule [where f = unat])
  case (less n)
  show ?case
  proof (cases "n = 0")
    case True
    then show ?thesis by (subst copy_down8.simps) simp
  next
    case False
    then have n: "unat (n - 1) = unat n - 1" "unat n \<ge> 1" by (auto simp: unat_sub word_le_nat_alt unat_gt_0 Suc_le_eq)
    have "copy_down8 (d + (n - 1)) (s + (n - 1)) n mem = copy_down8 (d + (n - 1 - 1)) (s + (n - 1 - 1)) (n - 1) (copied mem (d + (n - 1)) (s + (n - 1)) 1)"
      using False by (subst copy_down8.simps) (simp add: moves_copied add_diff_eq)
    also have "\<dots> = copied (copied mem (d + (n - 1)) (s + (n - 1)) 1) d s (n - 1)"
      using less.IH [OF unat_pred_less [OF False] less.prems(1)] less.prems(2) n by simp
    also have "\<dots> = copied mem d s n" using copied_down [OF less.prems(1), of "n - 1" 1 mem] less.prems(2) n by simp
    finally show ?thesis .
  qed
qed

lemma and_mask_mod: "(x :: u64) AND 7 = x mod 8" "(x :: u64) AND 3 = x mod 4"
  using take_bit_eq_mask [of 3 x] take_bit_eq_mod [of 3 x] take_bit_eq_mask [of 2 x] take_bit_eq_mod [of 2 x]
  by (simp_all add: mask_eq_exp_minus_1)

interpretation m8: mem_move move8 1
  by unfold_locales (simp_all add: moves_copied and_mask_mod)

interpretation m32: mem_move move32 4
  by unfold_locales (simp_all add: moves_copied and_mask_mod)

interpretation m64: mem_move move64 8
  by unfold_locales (simp_all add: moves_copied and_mask_mod)

context mem_move
begin

lemma words_copied:
  assumes "unat d + unat n \<le> 2 ^ 64" and "unat s + unat n \<le> 2 ^ 64"
  shows "InternalMemCopyMem_words move w d s n mem = Some (copied mem d s n)"
proof (cases d s rule: linorder_cases)
  case less
  obtain k where k: "copy_up move w d s n mem = (d + k, s + k, n - k, copied mem d s k)" "k \<le> n"
    using copy_up_copied [OF less assms(2)] by blast
  then have k': "unat k \<le> unat n" "unat (n - k) = unat n - unat k" by (simp_all add: word_le_nat_alt unat_sub)
  have "snd (snd (snd (copy_up move8 1 (d + k) (s + k) (n - k) (copied mem d s k)))) = copied mem d s n"
  proof (cases "k = n")
    case True
    then show ?thesis by (subst copy_up.simps) simp
  next
    case False
    then have "unat k < unat n" using k'(1) by (simp add: le_neq_implies_less word_unat_eq_iff)
    then have c: "d + k < s + k" "unat (s + k) + unat (n - k) \<le> 2 ^ 64"
      using less assms k' by (simp_all add: word_less_nat_alt unat_plus_if')
    obtain j where j: "copy_up move8 1 (d + k) (s + k) (n - k) (copied mem d s k) =
        (d + k + j, s + k + j, n - k - j, copied (copied mem d s k) (d + k) (s + k) j)" "n - k - j < 1"
      using m8.copy_up_copied [OF c] by blast
    then have "j = n - k" by simp
    then show ?thesis using j(1) copied_up [OF less, of k "n - k" mem] assms(2) k' by simp
  qed
  then show ?thesis using less k by (auto simp: InternalMemCopyMem_words_def split: prod.splits)
next
  case equal
  then show ?thesis by (simp add: InternalMemCopyMem_words_def copied_def fun_eq_iff)
next
  case greater
  let ?j = "n mod w"
  have j: "?j \<le> n" "unat (n - ?j) = unat n - unat ?j" "unat ?j \<le> unat n" by (simp_all add: word_le_nat_alt unat_sub unat_mod_distrib)
  have "copied (copied mem (d + (n - ?j)) (s + (n - ?j)) ?j) d s (n - ?j) = copied mem d s n"
    using copied_down [OF greater, of "n - ?j" ?j mem] assms(1) j by simp
  then show ?thesis
    using greater copy_tail_copied [OF greater assms(1) j(1)] copy_down_tail [OF greater assms(1)] less_not_sym [OF greater]
    by (simp add: InternalMemCopyMem_words_def w_mask)
qed

end

lemma CopyMem_eq:
  assumes "unat DestinationBuffer + unat Length \<le> 2 ^ 64" and "unat SourceBuffer + unat Length \<le> 2 ^ 64"
  shows "CopyMem mem DestinationBuffer SourceBuffer Length = Some (copied mem DestinationBuffer SourceBuffer Length)"
proof (cases "Length = 0 \<or> DestinationBuffer = SourceBuffer")
  case True
  then show ?thesis by (auto simp: CopyMem_def copied_def fun_eq_iff)
next
  case False
  have "snd (snd (snd (copy_up move8 1 DestinationBuffer SourceBuffer Length mem))) = copied mem DestinationBuffer SourceBuffer Length"
    if "DestinationBuffer < SourceBuffer"
    using m8.copy_up_copied [OF that assms(2), of mem] by auto
  then show ?thesis
    using False m64.words_copied [OF assms] m32.words_copied [OF assms] copy_down8_copied [of SourceBuffer DestinationBuffer Length mem] assms(1)
    by (auto simp: CopyMem_def InternalMemCopyMem_def split: prod.splits)
qed

text \<open>
  C33. \<^verbatim>\<open>CopyMem\<close>, which moves words of 8 or 4 bytes when the buffers are aligned and goes upwards or
  downwards depending on their order, always ends and copies the buffer as it was before the call,
  also when source and destination overlap, and changes nothing else.
\<close>

theorem CopyMem_copied:
  assumes "unat DestinationBuffer + unat Length \<le> 2 ^ 64" and "unat SourceBuffer + unat Length \<le> 2 ^ 64"
  shows "CopyMem mem DestinationBuffer SourceBuffer Length = Some (copied mem DestinationBuffer SourceBuffer Length)"
  by (rule CopyMem_eq [OF assms])

section \<open>Filling is correct\<close>

definition filled :: "memory \<Rightarrow> u64 \<Rightarrow> u64 \<Rightarrow> u8 \<Rightarrow> memory" where
  "filled mem d n v = (\<lambda>a. if a - d < n then v else mem a)"

lemma filled_blit: "filled mem d n v = blit mem (\<lambda>_. v) d 0 n"
  by (simp add: filled_def blit_def)

lemma filled_add: "unat n + unat m < 2 ^ 64 \<Longrightarrow> filled (filled mem d n v) (d + n) m v = filled mem d (n + m) v"
  using blit_add [of n m mem "\<lambda>_. v" d 0] by (simp add: filled_def blit_def)

text \<open>What the filling loop relies on: one assignment fills \<open>w\<close> bytes.\<close>

locale mem_fill =
  fixes put :: "memory \<Rightarrow> u64 \<Rightarrow> memory" and w :: u64 and v :: u8
  assumes put_filled: "put mem d = filled mem d w v"
    and w_pos: "w \<noteq> 0"
begin

lemma fill_up_filled:
  "\<exists>k. fill_up put w d n mem = (d + k, n - k, filled mem d k v) \<and> k \<le> n \<and> n - k < w"
proof (induction n arbitrary: d mem rule: measure_induct_rule [where f = unat])
  case (less n)
  show ?case
  proof (cases "n < w")
    case True
    then have "fill_up put w d n mem = (d, n, mem)" by (subst fill_up.simps) (auto simp: not_less [symmetric])
    then show ?thesis using True by (intro exI [of _ 0]) (simp add: filled_def)
  next
    case False
    then have "w \<le> n" by simp
    then have wn: "w \<le> n" "unat (n - w) = unat n - unat w" "unat w \<le> unat n" by (simp_all add: unat_sub word_le_nat_alt)
    obtain k where k: "fill_up put w (d + w) (n - w) (filled mem d w v) = (d + w + k, n - w - k, filled (filled mem d w v) (d + w) k v)"
      "k \<le> n - w" "n - w - k < w"
      using less.IH [OF unat_sub_less [OF w_pos wn(1)]] by blast
    have k': "unat w + unat k \<le> unat n" using k(2) wn by (simp add: word_le_nat_alt)
    have "fill_up put w d n mem = fill_up put w (d + w) (n - w) (filled mem d w v)"
      using wn(1) w_pos by (subst fill_up.simps) (simp add: put_filled)
    moreover have "filled (filled mem d w v) (d + w) k v = filled mem d (w + k) v"
      by (rule filled_add) (use k' unat_u64_bound [of n] in linarith)
    moreover have "w + k \<le> n" using k' unat_u64_less [of n] by (simp add: word_le_nat_alt unat_plus_if' del: unat_u64_less)
    ultimately show ?thesis
      using k by (intro exI [of _ "w + k"]) (simp add: add.assoc diff_diff_add)
  qed
qed

end

lemma Value32_bytes: "SetMem_Value32 v = ReadUnaligned32 (\<lambda>_. v) 0"
  by (rule bit_word_eqI) (auto simp: SetMem_Value32_def ReadUnaligned32_def ReadUnaligned16_def bit_simps dest: bit_imp_le_length)

lemma Value64_bytes: "push_bit 32 (ucast (SetMem_Value32 v)) OR ucast (SetMem_Value32 v) = ReadUnaligned64 (\<lambda>_. v) 0"
  by (simp add: Value32_bytes ReadUnaligned64_def ReadUnaligned32_def ReadUnaligned16_def or.commute)

interpretation f8: mem_fill "\<lambda>m p. m(p := v)" 1 v for v
  by unfold_locales (auto simp: filled_def fun_eq_iff)

interpretation f32: mem_fill "\<lambda>m p. WriteUnaligned32 m p (SetMem_Value32 v)" 4 v for v
  by unfold_locales (simp_all add: Value32_bytes Write_Read filled_blit)

interpretation f64: mem_fill "\<lambda>m p. WriteUnaligned64 m p (push_bit 32 (ucast (SetMem_Value32 v)) OR ucast (SetMem_Value32 v))" 8 v for v
  by unfold_locales (simp_all only: Value64_bytes Write_Read filled_blit, simp)

lemma fill_rest:
  assumes "k \<le> n"
  shows "snd (snd (fill_up (\<lambda>m p. m(p := v)) 1 (d + k) (n - k) (filled mem d k v))) = filled mem d n v"
proof -
  obtain j where j: "fill_up (\<lambda>m p. m(p := v)) 1 (d + k) (n - k) (filled mem d k v) = (d + k + j, n - k - j, filled (filled mem d k v) (d + k) j v)" "n - k - j < 1"
    using f8.fill_up_filled by blast
  then have "j = n - k" by simp
  moreover have "unat k + unat (n - k) < 2 ^ 64" using assms unat_u64_bound [of n] by (simp add: word_le_nat_alt unat_sub)
  ultimately show ?thesis using j(1) filled_add [of k "n - k" mem d v] by simp
qed

text \<open>
  C34. \<^verbatim>\<open>SetMem\<close> fills exactly the bytes of the buffer with the value, whatever its alignment and length.
\<close>

theorem SetMem_filled: "SetMem mem Buffer Length Value = filled mem Buffer Length Value"
proof -
  obtain k where k: "fill_up (\<lambda>m p. WriteUnaligned32 m p (SetMem_Value32 Value)) 4 Buffer Length mem = (Buffer + k, Length - k, filled mem Buffer k Value)" "k \<le> Length"
    using f32.fill_up_filled by blast
  obtain l where l: "fill_up (\<lambda>m p. WriteUnaligned64 m p (push_bit 32 (ucast (SetMem_Value32 Value)) OR ucast (SetMem_Value32 Value))) 8 Buffer Length mem =
      (Buffer + l, Length - l, filled mem Buffer l Value)" "l \<le> Length"
    using f64.fill_up_filled by blast
  have "filled mem Buffer 0 Value = mem" by (simp add: filled_def)
  then show ?thesis
    using fill_rest [OF k(2), of Value Buffer mem] fill_rest [OF l(2), of Value Buffer mem] fill_rest [of 0 Length Value Buffer mem] k(1) l(1)
    by (auto simp: SetMem_def InternalMemSetMem_def Let_def split_beta)
qed

section \<open>Comparing and scanning are correct\<close>

text \<open>The first index below a length that satisfies a predicate.\<close>

definition first_index :: "(u64 \<Rightarrow> bool) \<Rightarrow> u64 \<Rightarrow> u64 option" where
  "first_index P n = map_option of_nat (find (\<lambda>i. P (of_nat i)) [0..<unat n])"

lemma find_map: "find P (map f xs) = map_option f (find (\<lambda>x. P (f x)) xs)"
  by (induction xs) auto

lemma first_index_step:
  assumes "n \<noteq> 0"
  shows "first_index P n = (if P 0 then Some 0 else map_option (\<lambda>i. i + 1) (first_index (\<lambda>i. P (i + 1)) (n - 1)))"
proof -
  have "unat n = Suc (unat (n - 1))" using unat_gt_0 [of n] assms by (simp add: unat_sub word_le_nat_alt)
  then have "[0..<unat n] = 0 # map Suc [0..<unat (n - 1)]" by (simp add: upt_conv_Cons map_Suc_upt del: upt_Suc)
  then show ?thesis
    by (simp add: first_index_def find_map option.map_comp comp_def add.commute cong: option.map_cong)
qed

lemma first_index_0 [simp]: "first_index P 0 = None"
  by (simp add: first_index_def)

lemma first_index_SomeD: "first_index P n = Some i \<Longrightarrow> P i \<and> i < n \<and> (\<forall>j < i. \<not> P j)"
proof -
  assume "first_index P n = Some i"
  then obtain k where k: "k < unat n" "P (of_nat k)" "i = of_nat k" "\<forall>l < k. \<not> P (of_nat l)"
    by (auto simp: first_index_def find_Some_iff)
  then have u: "unat i = k" using unat_u64_less [of n] by (simp add: unsigned_of_nat take_bit_nat_eq_self del: unat_u64_less)
  have "\<not> P j" if "j < i" for j using that k(4) [rule_format, of "unat j"] u by (simp add: word_less_nat_alt)
  then show ?thesis using k u by (simp add: word_less_nat_alt)
qed

lemma InternalMemCompareMem_first:
  "n \<noteq> 0 \<Longrightarrow> InternalMemCompareMem mem d s n =
     (case first_index (\<lambda>i. mem (d + i) \<noteq> mem (s + i)) n of None \<Rightarrow> 0 | Some i \<Rightarrow> uint (mem (d + i)) - uint (mem (s + i)))"
proof (induction n arbitrary: d s rule: measure_induct_rule [where f = unat])
  case (less n)
  have step: "InternalMemCompareMem mem d s n =
      (if n - 1 \<noteq> 0 \<and> mem d = mem s then InternalMemCompareMem mem (d + 1) (s + 1) (n - 1) else uint (mem d) - uint (mem s))"
    by (rule InternalMemCompareMem.simps)
  show ?case
  proof (cases "n - 1 = 0 \<or> mem d \<noteq> mem s")
    case True
    then show ?thesis unfolding step by (auto simp: first_index_step [OF less.prems])
  next
    case False
    then have "n - 1 \<noteq> 0" by blast
    then show ?thesis
      using False less.IH [OF unat_pred_less [OF less.prems], of "d + 1" "s + 1"] unfolding step
      by (auto simp: first_index_step [OF less.prems] algebra_simps split: option.split)
  qed
qed

lemma scan_mem_first:
  "n \<noteq> 0 \<Longrightarrow> scan_mem P w p n = (case first_index (\<lambda>i. P (p + w * i)) n of None \<Rightarrow> NULL | Some i \<Rightarrow> p + w * i)"
proof (induction n arbitrary: p rule: measure_induct_rule [where f = unat])
  case (less n)
  have step: "scan_mem P w p n = (if P p then p else if n - 1 \<noteq> 0 then scan_mem P w (p + w) (n - 1) else NULL)"
    by (rule scan_mem.simps)
  show ?case
  proof (cases "n - 1 = 0 \<or> P p")
    case True
    then show ?thesis unfolding step by (auto simp: first_index_step [OF less.prems])
  next
    case False
    then have "n - 1 \<noteq> 0" by blast
    then show ?thesis
      using False less.IH [OF unat_pred_less [OF less.prems], of "p + w"] unfolding step
      by (auto simp: first_index_step [OF less.prems] algebra_simps split: option.split)
  qed
qed

text \<open>
  \<^verbatim>\<open>CompareMem\<close> returns the difference of the first bytes that differ, and 0 if and only if the
  buffers are equal.
\<close>

theorem CompareMem_first:
  "CompareMem mem DestinationBuffer SourceBuffer Length =
     (case first_index (\<lambda>i. mem (DestinationBuffer + i) \<noteq> mem (SourceBuffer + i)) Length of
        None \<Rightarrow> 0 | Some i \<Rightarrow> uint (mem (DestinationBuffer + i)) - uint (mem (SourceBuffer + i))) \<and>
   (CompareMem mem DestinationBuffer SourceBuffer Length = 0 \<longleftrightarrow>
      list_all (\<lambda>i. mem (DestinationBuffer + of_nat i) = mem (SourceBuffer + of_nat i)) [0..<unat Length])"
proof -
  let ?P = "\<lambda>i. mem (DestinationBuffer + i) \<noteq> mem (SourceBuffer + i)"
  have eq: "CompareMem mem DestinationBuffer SourceBuffer Length =
     (case first_index ?P Length of None \<Rightarrow> 0 | Some i \<Rightarrow> uint (mem (DestinationBuffer + i)) - uint (mem (SourceBuffer + i)))"
  proof (cases "Length = 0 \<or> DestinationBuffer = SourceBuffer")
    case True
    then have "first_index ?P Length = None" by (auto simp: first_index_def find_None_iff)
    then show ?thesis using True by (simp add: CompareMem_def)
  next
    case False
    then show ?thesis by (simp add: CompareMem_def InternalMemCompareMem_first)
  qed
  have none: "first_index ?P Length = None \<longleftrightarrow>
      list_all (\<lambda>i. mem (DestinationBuffer + of_nat i) = mem (SourceBuffer + of_nat i)) [0..<unat Length]"
    by (auto simp: first_index_def find_None_iff list_all_iff)
  show ?thesis
  proof (cases "first_index ?P Length")
    case None
    then show ?thesis using eq none by simp
  next
    case (Some i)
    then have "mem (DestinationBuffer + i) \<noteq> mem (SourceBuffer + i)" using first_index_SomeD by blast
    then show ?thesis using eq none Some by (simp add: word_uint_eq_iff)
  qed
qed

text \<open>
  The scan functions return the address of the first element with the value, and \<^verbatim>\<open>NULL\<close> if the
  buffer has none.
\<close>

theorem ScanMem_first:
  "ScanMem8 mem Buffer Length v8 =
     (case first_index (\<lambda>i. mem (Buffer + i) = v8) Length of None \<Rightarrow> NULL | Some i \<Rightarrow> Buffer + i) \<and>
   (Length mod 2 = 0 \<longrightarrow> ScanMem16 mem Buffer Length v16 =
     (case first_index (\<lambda>i. ReadUnaligned16 mem (Buffer + 2 * i) = v16) (Length div 2) of None \<Rightarrow> NULL | Some i \<Rightarrow> Buffer + 2 * i)) \<and>
   (Length mod 4 = 0 \<longrightarrow> ScanMem32 mem Buffer Length v32 =
     (case first_index (\<lambda>i. ReadUnaligned32 mem (Buffer + 4 * i) = v32) (Length div 4) of None \<Rightarrow> NULL | Some i \<Rightarrow> Buffer + 4 * i)) \<and>
   (Length mod 8 = 0 \<longrightarrow> ScanMem64 mem Buffer Length v64 =
     (case first_index (\<lambda>i. ReadUnaligned64 mem (Buffer + 8 * i) = v64) (Length div 8) of None \<Rightarrow> NULL | Some i \<Rightarrow> Buffer + 8 * i))"
proof -
  have div: "Length div w \<noteq> 0" if "Length mod w = 0" "Length \<noteq> 0" for w
    using that div_mult_mod_eq [of Length w] by auto
  show ?thesis
    using div [of 2] div [of 4] div [of 8]
    by (simp add: ScanMem8_def ScanMem16_def ScanMem32_def ScanMem64_def InternalMemScanMem8_def InternalMemScanMem16_def
        InternalMemScanMem32_def InternalMemScanMem64_def scan_mem_first split: option.split)
qed

section \<open>Examples\<close>

definition memory_example :: memory where
  "memory_example = (\<lambda>a. ucast a)"

theorem CopyMem_copied_witness:
  "CopyMem memory_example 0x104 0x100 11 = Some (copied memory_example 0x104 0x100 11)"
  by (rule CopyMem_copied) simp_all

theorem ScanMem_first_witness:
  "ScanMem16 memory_example 0x100 8 0x0504 = 0x104 \<and> ScanMem8 memory_example 0x100 8 9 = NULL"
proof -
  have "first_index (\<lambda>i. ReadUnaligned16 memory_example (0x100 + 2 * i) = 0x0504) (8 div 2) = Some 2" by code_simp
  moreover have "first_index (\<lambda>i. memory_example (0x100 + i) = 9) 8 = None" by code_simp
  ultimately show ?thesis
    using ScanMem_first [of memory_example "0x100" 8 9 "0x0504" 0 0] by simp
qed

end
