(* ===== verification/DevicePath.thy ===== *)
theory DevicePath
  imports MemoryProps
begin

text \<open>
  Device paths in memory (\<^verbatim>\<open>MdePkg/Library/UefiDevicePathLib/DevicePathUtilities.c\<close>): a device path
  is a sequence of nodes, each a header of a type, a subtype and a length followed by data, and
  an end node.

  A function that writes returns the new memory (\<open>BaseMemory\<close>).  A loop that walks a path by the
  lengths it reads need not end (a node may have length 0): such a loop is a partial function,
  \<open>None\<close> is "does not return".  The pool, the address of the template of an end node and
  \<^verbatim>\<open>PcdMaximumDevicePathNodeCount\<close> are parameters.
\<close>

record dp_env =
  env_Pool :: "UINTN \<Rightarrow> memory \<Rightarrow> u64"
  addr_mUefiDevicePathLibEndDevicePath :: u64
  PcdMaximumDevicePathNodeCount :: u32

definition AllocateCopyPool :: "dp_env \<Rightarrow> UINTN \<Rightarrow> u64 \<Rightarrow> memory \<Rightarrow> (u64 \<times> memory) option" where
  "AllocateCopyPool env AllocationSize Buffer mem =
     (let Memory = env_Pool env AllocationSize mem
      in if Memory \<noteq> NULL then do { mem1 \<leftarrow> CopyMem mem Memory Buffer AllocationSize; Some (Memory, mem1) }
         else Some (NULL, mem))"

section \<open>Nodes\<close>

definition END_DEVICE_PATH_TYPE :: u8 where [efi_const]: "END_DEVICE_PATH_TYPE = 0x7F"
definition END_ENTIRE_DEVICE_PATH_SUBTYPE :: u8 where [efi_const]: "END_ENTIRE_DEVICE_PATH_SUBTYPE = 0xFF"
definition END_INSTANCE_DEVICE_PATH_SUBTYPE :: u8 where [efi_const]: "END_INSTANCE_DEVICE_PATH_SUBTYPE = 0x01"
definition MEDIA_DEVICE_PATH :: u8 where [efi_const]: "MEDIA_DEVICE_PATH = 0x04"
definition MEDIA_FILEPATH_DP :: u8 where [efi_const]: "MEDIA_FILEPATH_DP = 0x04"
definition END_DEVICE_PATH_LENGTH :: UINTN where [efi_const]: "END_DEVICE_PATH_LENGTH = 4"
definition MAX_UINTN_word :: UINTN where [efi_const]: "MAX_UINTN_word = 0xFFFFFFFFFFFFFFFF"

definition mUefiDevicePathLibEndDevicePath :: "u8 list" where
  "mUefiDevicePathLibEndDevicePath = [END_DEVICE_PATH_TYPE, END_ENTIRE_DEVICE_PATH_SUBTYPE, ucast END_DEVICE_PATH_LENGTH, 0]"

definition DevicePathType :: "memory \<Rightarrow> u64 \<Rightarrow> u8" where
  "DevicePathType mem Node = mem Node"

definition DevicePathSubType :: "memory \<Rightarrow> u64 \<Rightarrow> u8" where
  "DevicePathSubType mem Node = mem (Node + 1)"

definition DevicePathNodeLength :: "memory \<Rightarrow> u64 \<Rightarrow> UINTN" where
  "DevicePathNodeLength mem Node = ucast (ReadUnaligned16 mem (Node + 2))"

definition NextDevicePathNode :: "memory \<Rightarrow> u64 \<Rightarrow> u64" where
  "NextDevicePathNode mem Node = Node + DevicePathNodeLength mem Node"

definition IsDevicePathEndType :: "memory \<Rightarrow> u64 \<Rightarrow> bool" where
  "IsDevicePathEndType mem Node \<longleftrightarrow> DevicePathType mem Node = END_DEVICE_PATH_TYPE"

definition IsDevicePathEnd :: "memory \<Rightarrow> u64 \<Rightarrow> bool" where
  "IsDevicePathEnd mem Node \<longleftrightarrow>
     IsDevicePathEndType mem Node \<and> DevicePathSubType mem Node = END_ENTIRE_DEVICE_PATH_SUBTYPE"

definition IsDevicePathEndInstance :: "memory \<Rightarrow> u64 \<Rightarrow> bool" where
  "IsDevicePathEndInstance mem Node \<longleftrightarrow>
     IsDevicePathEndType mem Node \<and> DevicePathSubType mem Node = END_INSTANCE_DEVICE_PATH_SUBTYPE"

definition SetDevicePathNodeLength :: "memory \<Rightarrow> u64 \<Rightarrow> UINTN \<Rightarrow> memory" where
  "SetDevicePathNodeLength mem Node Length = WriteUnaligned16 mem (Node + 2) (ucast Length)"

definition SetDevicePathEndNode :: "dp_env \<Rightarrow> memory \<Rightarrow> u64 \<Rightarrow> memory option" where
  "SetDevicePathEndNode env mem Node =
     CopyMem mem Node (addr_mUefiDevicePathLibEndDevicePath env) (of_nat (length mUefiDevicePathLibEndDevicePath))"

section \<open>Validity and size\<close>

text \<open>The loop of \<^verbatim>\<open>IsDevicePathValid\<close> ends since the size grows and is bounded.\<close>

function IsDevicePathValid_loop :: "u32 \<Rightarrow> memory \<Rightarrow> UINTN \<Rightarrow> u64 \<Rightarrow> UINTN \<Rightarrow> UINTN \<Rightarrow> bool" where
  "IsDevicePathValid_loop PcdMax mem MaxSize DevicePath Count Size =
     (if IsDevicePathEnd mem DevicePath then DevicePathNodeLength mem DevicePath = END_DEVICE_PATH_LENGTH
      else
        let NodeLength = DevicePathNodeLength mem DevicePath
        in if NodeLength < 4 then False
           else if NodeLength > MAX_UINTN_word - Size then False
           else if Size + NodeLength > MaxSize - END_DEVICE_PATH_LENGTH then False
           else
             let Count = (if PcdMax > 0 then Count + 1 else Count)
             in if PcdMax > 0 \<and> Count \<ge> ucast PcdMax then False
                else if DevicePathType mem DevicePath = MEDIA_DEVICE_PATH \<and>
                        DevicePathSubType mem DevicePath = MEDIA_FILEPATH_DP \<and>
                        ReadUnaligned16 mem (DevicePath + NodeLength - 2) \<noteq> 0 then False
                else IsDevicePathValid_loop PcdMax mem MaxSize (NextDevicePathNode mem DevicePath) Count (Size + NodeLength))"
  by pat_completeness auto

lemma unat_u64_le: "unat (x :: u64) \<le> 18446744073709551615"
  using unat_u64_less [of x] by linarith

lemma size_grows:
  fixes n Size :: u64
  assumes "\<not> n < 4" and "\<not> n > MAX_UINTN_word - Size"
  shows "unat (Size + n) = unat Size + unat n" and "4 \<le> unat n"
proof -
  have "n \<le> MAX_UINTN_word - Size" using assms(2) by simp
  moreover have "unat (MAX_UINTN_word - Size) = 2 ^ 64 - 1 - unat Size"
    by (subst unat_sub_nowrap) (simp_all add: MAX_UINTN_word_def word_le_nat_alt less_imp_le unat_u64_le)
  ultimately have "unat n \<le> 2 ^ 64 - 1 - unat Size" by (simp add: word_le_nat_alt)
  then have "unat Size + unat n < 2 ^ 64" using unat_u64_le [of Size] by simp
  then show "unat (Size + n) = unat Size + unat n" by (rule unat_add_nowrap)
  show "4 \<le> unat n" using assms(1) by (simp add: word_less_nat_alt)
qed

termination IsDevicePathValid_loop
proof (relation "measure (\<lambda>(_, _, _, _, _, Size). 2 ^ 64 - unat Size)", goal_cases)
  case (2 PcdMax mem MaxSize DevicePath Count Size n)
  then have "unat (Size + n) = unat Size + unat n" and "4 \<le> unat n"
    using size_grows [of n Size] by simp_all
  then show ?case by (simp add: diff_less_mono2)
qed simp

declare IsDevicePathValid_loop.simps [simp del]

definition IsDevicePathValid :: "dp_env \<Rightarrow> memory \<Rightarrow> u64 \<Rightarrow> UINTN \<Rightarrow> bool" where
  "IsDevicePathValid env mem DevicePath MaxSize =
     (if DevicePath = NULL \<or> (MaxSize > 0 \<and> MaxSize < END_DEVICE_PATH_LENGTH) then False
      else IsDevicePathValid_loop (PcdMaximumDevicePathNodeCount env) mem (if MaxSize = 0 then MAX_UINTN_word else MaxSize)
             DevicePath 0 0)"

text \<open>The loops that walk to the first node with a property.\<close>

partial_function (option) DevicePath_walk :: "(u64 \<Rightarrow> bool) \<Rightarrow> memory \<Rightarrow> u64 \<Rightarrow> u64 option" where
  [code]: "DevicePath_walk stop mem Node =
     (if stop Node then Some Node else DevicePath_walk stop mem (NextDevicePathNode mem Node))"

definition GetDevicePathSize :: "dp_env \<Rightarrow> memory \<Rightarrow> u64 \<Rightarrow> UINTN option" where
  "GetDevicePathSize env mem DevicePath =
     (if DevicePath = NULL then Some 0
      else if \<not> IsDevicePathValid env mem DevicePath 0 then Some 0
      else do {
        End \<leftarrow> DevicePath_walk (IsDevicePathEnd mem) mem DevicePath;
        Some ((End - DevicePath) + DevicePathNodeLength mem End)
      })"

section \<open>New device paths\<close>

text \<open>Each function returns the pointer and the memory afterwards.\<close>

definition DuplicateDevicePath :: "dp_env \<Rightarrow> u64 \<Rightarrow> memory \<Rightarrow> (u64 \<times> memory) option" where
  "DuplicateDevicePath env DevicePath mem =
     do {
       Size \<leftarrow> GetDevicePathSize env mem DevicePath;
       if Size = 0 then Some (NULL, mem) else AllocateCopyPool env Size DevicePath mem
     }"

definition AppendDevicePath :: "dp_env \<Rightarrow> u64 \<Rightarrow> u64 \<Rightarrow> memory \<Rightarrow> (u64 \<times> memory) option" where
  "AppendDevicePath env FirstDevicePath SecondDevicePath mem =
     (if FirstDevicePath = NULL
      then DuplicateDevicePath env (if SecondDevicePath \<noteq> NULL then SecondDevicePath else addr_mUefiDevicePathLibEndDevicePath env) mem
      else if SecondDevicePath = NULL then DuplicateDevicePath env FirstDevicePath mem
      else if \<not> IsDevicePathValid env mem FirstDevicePath 0 \<or> \<not> IsDevicePathValid env mem SecondDevicePath 0
      then Some (NULL, mem)
      else do {
        Size1 \<leftarrow> GetDevicePathSize env mem FirstDevicePath;
        Size2 \<leftarrow> GetDevicePathSize env mem SecondDevicePath;
        let NewDevicePath = env_Pool env (Size1 + Size2 - END_DEVICE_PATH_LENGTH) mem;
        if NewDevicePath \<noteq> NULL
        then do {
          mem1 \<leftarrow> CopyMem mem NewDevicePath FirstDevicePath Size1;
          mem2 \<leftarrow> CopyMem mem1 (NewDevicePath + (Size1 - END_DEVICE_PATH_LENGTH)) SecondDevicePath Size2;
          Some (NewDevicePath, mem2)
        }
        else Some (NULL, mem)
      })"

definition AppendDevicePathNode :: "dp_env \<Rightarrow> u64 \<Rightarrow> u64 \<Rightarrow> memory \<Rightarrow> (u64 \<times> memory) option" where
  "AppendDevicePathNode env DevicePath DevicePathNode mem =
     (if DevicePathNode = NULL
      then DuplicateDevicePath env (if DevicePath \<noteq> NULL then DevicePath else addr_mUefiDevicePathLibEndDevicePath env) mem
      else
        let NodeLength = DevicePathNodeLength mem DevicePathNode;
            TempDevicePath = env_Pool env (NodeLength + END_DEVICE_PATH_LENGTH) mem
        in if TempDevicePath = NULL then Some (NULL, mem)
           else do {
             mem1 \<leftarrow> CopyMem mem TempDevicePath DevicePathNode NodeLength;
             mem2 \<leftarrow> SetDevicePathEndNode env mem1 (NextDevicePathNode mem1 TempDevicePath);
             AppendDevicePath env DevicePath TempDevicePath mem2
           })"

definition AppendDevicePathInstance :: "dp_env \<Rightarrow> u64 \<Rightarrow> u64 \<Rightarrow> memory \<Rightarrow> (u64 \<times> memory) option" where
  "AppendDevicePathInstance env DevicePath DevicePathInstance mem =
     (if DevicePath = NULL then DuplicateDevicePath env DevicePathInstance mem
      else if DevicePathInstance = NULL then Some (NULL, mem)
      else if \<not> IsDevicePathValid env mem DevicePath 0 \<or> \<not> IsDevicePathValid env mem DevicePathInstance 0
      then Some (NULL, mem)
      else do {
        SrcSize \<leftarrow> GetDevicePathSize env mem DevicePath;
        InstanceSize \<leftarrow> GetDevicePathSize env mem DevicePathInstance;
        let NewDevicePath = env_Pool env (SrcSize + InstanceSize) mem;
        if NewDevicePath = NULL then Some (NULL, mem)
        else do {
          mem1 \<leftarrow> CopyMem mem NewDevicePath DevicePath SrcSize;
          TempDevicePath \<leftarrow> DevicePath_walk (IsDevicePathEnd mem1) mem1 NewDevicePath;
          let mem2 = mem1(TempDevicePath + 1 := END_INSTANCE_DEVICE_PATH_SUBTYPE);
          mem3 \<leftarrow> CopyMem mem2 (NextDevicePathNode mem2 TempDevicePath) DevicePathInstance InstanceSize;
          Some (NewDevicePath, mem3)
        }
      })"

text \<open>
  \<open>DevicePathPtr\<close>: the pointer argument, \<open>None\<close> when NULL.  The result is the copy, the pointer to
  the next instance, the size (\<open>None\<close>: not written) and the memory.
\<close>

definition GetNextDevicePathInstance ::
  "dp_env \<Rightarrow> u64 option \<Rightarrow> memory \<Rightarrow> (u64 \<times> u64 option \<times> UINTN option \<times> memory) option" where
  "GetNextDevicePathInstance env DevicePathPtr mem =
     (case DevicePathPtr of
        None \<Rightarrow> Some (NULL, None, Some 0, mem)
      | Some DevicePath \<Rightarrow>
          if DevicePath = NULL then Some (NULL, DevicePathPtr, Some 0, mem)
          else if \<not> IsDevicePathValid env mem DevicePath 0 then Some (NULL, DevicePathPtr, None, mem)
          else do {
            DevPath \<leftarrow> DevicePath_walk (IsDevicePathEndType mem) mem DevicePath;
            let Size = (DevPath - DevicePath) + 4;
            let Temp = mem (DevPath + 1);
            let mem1 = mem(DevPath + 1 := END_ENTIRE_DEVICE_PATH_SUBTYPE);
            (ReturnValue, mem2) \<leftarrow> DuplicateDevicePath env DevicePath mem1;
            let mem3 = mem2(DevPath + 1 := Temp);
            Some (ReturnValue,
                  Some (if DevicePathSubType mem3 DevPath = END_ENTIRE_DEVICE_PATH_SUBTYPE then NULL
                        else NextDevicePathNode mem3 DevPath),
                  Some Size, mem3)
          })"

definition CreateDeviceNode :: "dp_env \<Rightarrow> u8 \<Rightarrow> u8 \<Rightarrow> u16 \<Rightarrow> memory \<Rightarrow> u64 \<times> memory" where
  "CreateDeviceNode env NodeType NodeSubType NodeLength mem =
     (if NodeLength < 4 then (NULL, mem)
      else
        let DevicePath = env_Pool env (ucast NodeLength) mem
        in if DevicePath = NULL then (NULL, mem)
           else (DevicePath, SetDevicePathNodeLength
                  ((ZeroMem mem DevicePath (ucast NodeLength))(DevicePath := NodeType, DevicePath + 1 := NodeSubType))
                  DevicePath (ucast NodeLength)))"

definition IsDevicePathMultiInstance :: "dp_env \<Rightarrow> memory \<Rightarrow> u64 \<Rightarrow> bool option" where
  "IsDevicePathMultiInstance env mem DevicePath =
     (if DevicePath = NULL then Some False
      else if \<not> IsDevicePathValid env mem DevicePath 0 then Some False
      else do {
        Node \<leftarrow> DevicePath_walk (\<lambda>Node. IsDevicePathEnd mem Node \<or> IsDevicePathEndInstance mem Node) mem DevicePath;
        Some (\<not> IsDevicePathEnd mem Node)
      })"

end
