(* ===== verification/DevicePathProps.thy ===== *)
theory DevicePathProps
  imports DevicePath
begin

text \<open>
  Device paths as lists of nodes: what \<^verbatim>\<open>IsDevicePathValid\<close> accepts is the encoding of a list of
  well-formed nodes, \<^verbatim>\<open>GetDevicePathSize\<close> is its length, and \<^verbatim>\<open>AppendDevicePath\<close> stores the encoding
  of the two lists one after the other.
\<close>

section \<open>Nodes and their encoding\<close>

text \<open>A node is its bytes, header included; an end node closes the path.\<close>

definition node_ok :: "u8 list \<Rightarrow> bool" where
  "node_ok b \<longleftrightarrow> 4 \<le> length b \<and> length b = unat (b ! 2) + 256 * unat (b ! 3) \<and>
     \<not> (b ! 0 = END_DEVICE_PATH_TYPE \<and> b ! 1 = END_ENTIRE_DEVICE_PATH_SUBTYPE) \<and>
     (b ! 0 = MEDIA_DEVICE_PATH \<and> b ! 1 = MEDIA_FILEPATH_DP \<longrightarrow> b ! (length b - 2) = 0 \<and> b ! (length b - 1) = 0)"

definition dp_bytes :: "u8 list list \<Rightarrow> u8 list" where
  "dp_bytes nodes = concat nodes @ mUefiDevicePathLibEndDevicePath"

text \<open>The bytes at an address.\<close>

definition bytes_at :: "memory \<Rightarrow> u64 \<Rightarrow> nat \<Rightarrow> u8 list" where
  "bytes_at mem p n = map (\<lambda>i. mem (p + of_nat i)) [0..<n]"

definition stored :: "memory \<Rightarrow> u64 \<Rightarrow> u8 list \<Rightarrow> bool" where
  "stored mem p bs \<longleftrightarrow> bytes_at mem p (length bs) = bs"

lemma bytes_at_add: "bytes_at mem p (m + n) = bytes_at mem p m @ bytes_at mem (p + of_nat m) n"
proof -
  have "[0..<m + n] = [0..<m] @ map (\<lambda>i. m + i) [0..<n]"
    using upt_add_eq_append [of 0 m n] map_add_upt [of m n] by (simp add: add.commute)
  then show ?thesis by (simp add: bytes_at_def comp_def add.assoc)
qed

lemma length_bytes_at [simp]: "length (bytes_at mem p n) = n"
  by (simp add: bytes_at_def)

lemma nth_bytes_at [simp]: "i < n \<Longrightarrow> bytes_at mem p n ! i = mem (p + of_nat i)"
  by (simp add: bytes_at_def)

lemma stored_append: "stored mem p (xs @ ys) \<longleftrightarrow> stored mem p xs \<and> stored mem (p + of_nat (length xs)) ys"
  by (simp add: stored_def bytes_at_add)

lemma stored_nth: "stored mem p bs \<Longrightarrow> i < length bs \<Longrightarrow> mem (p + of_nat i) = bs ! i"
  using nth_bytes_at [of i "length bs" mem p] by (simp add: stored_def)

lemma stored_bytes_at [simp]: "stored mem p (bytes_at mem p n)"
  by (simp add: stored_def)

lemma dp_bytes_Cons: "dp_bytes (b # bs) = b @ dp_bytes bs"
  by (simp add: dp_bytes_def)

lemma unat_ucast_wider:
  "unat (ucast (x :: u8) :: u16) = unat x" "unat (ucast (y :: u16) :: u64) = unat y" "unat (ucast (z :: u32) :: u64) = unat z"
  using unsigned_less [of x, where ?'a = nat] unsigned_less [of y, where ?'a = nat] unsigned_less [of z, where ?'a = nat]
  by (simp_all add: unsigned_ucast_eq take_bit_nat_eq_self)

lemma NodeLength_unat: "unat (DevicePathNodeLength mem p) = unat (mem (p + 2)) + 256 * unat (mem (p + 3))"
proof -
  let ?l = "mem (p + 2)" and ?h = "mem (p + 3)"
  have next_byte: "p + 2 + 1 = p + 3" by simp
  have "ReadUnaligned16 mem (p + 2) = ucast ?l + push_bit 8 (ucast ?h)"
    unfolding ReadUnaligned16_def next_byte by (rule disjunctive_add [symmetric]) (auto simp: bit_simps dest: bit_imp_le_length)
  moreover have "unat ?l < 256" "unat ?h < 256" using unsigned_less [of ?l, where ?'a = nat] unsigned_less [of ?h, where ?'a = nat] by simp_all
  ultimately have "unat (ReadUnaligned16 mem (p + 2)) = unat ?l + 256 * unat ?h"
    by (simp add: push_bit_eq_mult unat_word_ariths unat_ucast_wider)
  then show ?thesis by (simp add: DevicePathNodeLength_def unat_ucast_wider)
qed

lemma ReadUnaligned16_0: "ReadUnaligned16 mem p = 0 \<longleftrightarrow> mem p = 0 \<and> mem (p + 1) = 0"
  using byte_parts(1,2) [of "mem p" "mem (p + 1)"] by (auto simp: ReadUnaligned16_def)

lemma node_header:
  assumes "4 \<le> length b" and "stored mem p b"
  shows "mem p = b ! 0" "mem (p + 1) = b ! 1" "mem (p + 2) = b ! 2" "mem (p + 3) = b ! 3"
proof -
  have "0 < length b" "1 < length b" "2 < length b" "3 < length b" using assms(1) by linarith+
  then show "mem p = b ! 0" "mem (p + 1) = b ! 1" "mem (p + 2) = b ! 2" "mem (p + 3) = b ! 3"
    using stored_nth [OF assms(2), of 0] stored_nth [OF assms(2), of 1] stored_nth [OF assms(2), of 2] stored_nth [OF assms(2), of 3] by simp_all
qed

lemma stored_node:
  assumes "node_ok b" and "stored mem p b"
  shows "DevicePathNodeLength mem p = of_nat (length b)" "unat (DevicePathNodeLength mem p) = length b" "\<not> IsDevicePathEnd mem p"
proof -
  show "unat (DevicePathNodeLength mem p) = length b"
    using assms(1) node_header [OF _ assms(2)] by (simp add: node_ok_def NodeLength_unat)
  then show "DevicePathNodeLength mem p = of_nat (length b)" by (metis of_nat_unat ucast_id)
  show "\<not> IsDevicePathEnd mem p"
    using assms(1) node_header [OF _ assms(2)]
    by (simp add: node_ok_def IsDevicePathEnd_def IsDevicePathEndType_def DevicePathType_def DevicePathSubType_def)
qed

text \<open>The node that the header at an address describes.\<close>

abbreviation node_at :: "memory \<Rightarrow> u64 \<Rightarrow> u8 list" where
  "node_at mem p \<equiv> bytes_at mem p (unat (DevicePathNodeLength mem p))"

lemma node_at_ok:
  assumes "\<not> IsDevicePathEnd mem p" and "4 \<le> unat (DevicePathNodeLength mem p)"
  shows "node_ok (node_at mem p) \<longleftrightarrow> \<not> (DevicePathType mem p = MEDIA_DEVICE_PATH \<and> DevicePathSubType mem p = MEDIA_FILEPATH_DP \<and>
     ReadUnaligned16 mem (p + DevicePathNodeLength mem p - 2) \<noteq> 0)"
proof -
  define n where "n = unat (DevicePathNodeLength mem p)"
  define b where "b = node_at mem p"
  have b: "length b = n" "stored mem p b" "4 \<le> length b" using assms(2) by (simp_all add: b_def n_def)
  have e: "p + of_nat (n - 2) = p + DevicePathNodeLength mem p - 2" "p + of_nat (n - 1) = p + DevicePathNodeLength mem p - 2 + 1"
    using assms(2) by (simp_all add: n_def of_nat_diff)
  have last: "b ! (length b - 2) = mem (p + DevicePathNodeLength mem p - 2)" "b ! (length b - 1) = mem (p + DevicePathNodeLength mem p - 2 + 1)"
    using stored_nth [OF b(2), of "n - 2"] stored_nth [OF b(2), of "n - 1"] b(1,3) unfolding e by simp_all
  have len: "length b = unat (b ! 2) + 256 * unat (b ! 3)"
    using NodeLength_unat [of mem p] node_header [OF b(3,2)] b(1) by (simp add: n_def)
  show ?thesis
    using assms(1) node_header(1,2) [OF b(3,2)] b(3) len unfolding b_def [symmetric] node_ok_def last ReadUnaligned16_0
    by (auto simp: IsDevicePathEnd_def IsDevicePathEndType_def DevicePathType_def DevicePathSubType_def)
qed

lemma stored_Cons:
  "node_ok b \<and> stored mem p (dp_bytes (b # bs)) \<longleftrightarrow>
     node_ok b \<and> b = node_at mem p \<and> stored mem (NextDevicePathNode mem p) (dp_bytes bs)"
proof (cases "node_ok b \<and> stored mem p b")
  case True
  then have "unat (DevicePathNodeLength mem p) = length b" "DevicePathNodeLength mem p = of_nat (length b)" using stored_node [of b mem p] by blast+
  moreover have "bytes_at mem p (length b) = b" using True by (simp add: stored_def)
  ultimately show ?thesis using True by (simp add: dp_bytes_Cons stored_append NextDevicePathNode_def)
next
  case False
  then show ?thesis by (auto simp: dp_bytes_Cons stored_append)
qed

lemma stored_Cons_not_end: "node_ok b \<Longrightarrow> stored mem p (dp_bytes (b # bs)) \<Longrightarrow> \<not> IsDevicePathEnd mem p"
  by (auto simp: dp_bytes_Cons stored_append stored_node)

lemma length_dp_bytes: "length (dp_bytes nodes) = length (concat nodes) + 4"
  by (simp add: dp_bytes_def mUefiDevicePathLibEndDevicePath_def)

lemma stored_Nil: "stored mem p (dp_bytes []) \<longleftrightarrow> IsDevicePathEnd mem p \<and> DevicePathNodeLength mem p = END_DEVICE_PATH_LENGTH"
proof -
  have "DevicePathNodeLength mem p = 4 \<longleftrightarrow> unat (mem (p + 2)) + 256 * unat (mem (p + 3)) = 4"
    unfolding NodeLength_unat [symmetric] by (simp add: word_unat_eq_iff)
  also have "\<dots> \<longleftrightarrow> mem (p + 2) = 4 \<and> mem (p + 3) = 0"
  proof -
    have "x + 256 * y = 4 \<longleftrightarrow> x = 4 \<and> y = 0" for x y :: nat by (cases y) auto
    then show ?thesis by (simp add: word_unat_eq_iff)
  qed
  finally have "DevicePathNodeLength mem p = 4 \<longleftrightarrow> mem (p + 2) = 4 \<and> mem (p + 3) = 0" .
  moreover have "bytes_at mem p 4 = [mem p, mem (p + 1), mem (p + 2), mem (p + 3)]" by (simp add: bytes_at_def upt_rec)
  moreover have "stored mem p (dp_bytes []) \<longleftrightarrow> bytes_at mem p 4 = [0x7F, 0xFF, 4, 0]"
  proof -
    have "dp_bytes [] = [0x7F, 0xFF, 4, 0]" by (simp add: dp_bytes_def mUefiDevicePathLibEndDevicePath_def efi_const)
    moreover have "length (dp_bytes []) = 4" by (simp add: length_dp_bytes)
    ultimately show ?thesis by (simp only: stored_def)
  qed
  ultimately show ?thesis
    by (auto simp: IsDevicePathEnd_def IsDevicePathEndType_def DevicePathType_def DevicePathSubType_def efi_const)
qed

section \<open>Validity\<close>

text \<open>The checks on the sizes and on the number of nodes, from a node on.\<close>

definition nodes_fit :: "u32 \<Rightarrow> nat \<Rightarrow> nat \<Rightarrow> nat \<Rightarrow> u8 list list \<Rightarrow> bool" where
  "nodes_fit PcdMax MaxSize Count Size nodes \<longleftrightarrow> list_all node_ok nodes \<and>
     (PcdMax > 0 \<longrightarrow> Count + length nodes < unat PcdMax) \<and> Size + length (dp_bytes nodes) \<le> MaxSize"

lemma nodes_not_end:
  assumes "\<not> IsDevicePathEnd mem p"
  shows "(\<exists>nodes. nodes_fit PcdMax MaxSize Count Size nodes \<and> stored mem p (dp_bytes nodes)) \<longleftrightarrow> node_ok (node_at mem p) \<and>
    (\<exists>nodes. nodes_fit PcdMax MaxSize (Count + 1) (Size + unat (DevicePathNodeLength mem p)) nodes \<and>
       stored mem (NextDevicePathNode mem p) (dp_bytes nodes))" (is "?l \<longleftrightarrow> ?r")
proof
  assume ?l
  then obtain nodes where nodes: "nodes_fit PcdMax MaxSize Count Size nodes" "stored mem p (dp_bytes nodes)" by blast
  then obtain b bs where bs: "nodes = b # bs" using assms stored_Nil by (cases nodes) auto
  then have "node_ok b \<and> b = node_at mem p \<and> stored mem (NextDevicePathNode mem p) (dp_bytes bs)"
    using nodes stored_Cons [of b mem p bs] by (simp add: nodes_fit_def)
  then show ?r using nodes(1) by (intro conjI exI [of _ bs]) (auto simp: nodes_fit_def bs dp_bytes_Cons)
next
  assume ?r
  then obtain bs where "nodes_fit PcdMax MaxSize (Count + 1) (Size + unat (DevicePathNodeLength mem p)) bs" "node_ok (node_at mem p)"
    "stored mem (NextDevicePathNode mem p) (dp_bytes bs)" by blast
  then show ?l
    using stored_Cons [of "node_at mem p" mem p bs] by (intro exI [of _ "node_at mem p # bs"]) (auto simp: nodes_fit_def dp_bytes_Cons)
qed

text \<open>The checks of one round of the loop.\<close>

definition node_accepted :: "u32 \<Rightarrow> memory \<Rightarrow> UINTN \<Rightarrow> u64 \<Rightarrow> UINTN \<Rightarrow> UINTN \<Rightarrow> bool" where
  "node_accepted PcdMax mem MaxSize p Count Size \<longleftrightarrow> (let n = DevicePathNodeLength mem p in
     \<not> n < 4 \<and> \<not> n > MAX_UINTN_word - Size \<and> \<not> Size + n > MaxSize - 4 \<and> \<not> (PcdMax > 0 \<and> Count + 1 \<ge> ucast PcdMax) \<and>
     \<not> (DevicePathType mem p = MEDIA_DEVICE_PATH \<and> DevicePathSubType mem p = MEDIA_FILEPATH_DP \<and> ReadUnaligned16 mem (p + n - 2) \<noteq> 0))"

lemma IsDevicePathValid_loop_step:
  "\<not> IsDevicePathEnd mem p \<Longrightarrow> IsDevicePathValid_loop PcdMax mem MaxSize p Count Size \<longleftrightarrow>
     node_accepted PcdMax mem MaxSize p Count Size \<and>
     IsDevicePathValid_loop PcdMax mem MaxSize (NextDevicePathNode mem p) (if PcdMax > 0 then Count + 1 else Count) (Size + DevicePathNodeLength mem p)"
  by (subst IsDevicePathValid_loop.simps) (auto simp: node_accepted_def END_DEVICE_PATH_LENGTH_def Let_def)

lemma node_accepted_iff:
  assumes "\<not> IsDevicePathEnd mem p" and max: "4 \<le> unat MaxSize" and "PcdMax > 0 \<longrightarrow> unat Count < unat PcdMax"
  shows "node_accepted PcdMax mem MaxSize p Count Size \<longleftrightarrow> node_ok (node_at mem p) \<and>
    unat Size + unat (DevicePathNodeLength mem p) + 4 \<le> unat MaxSize \<and> (PcdMax > 0 \<longrightarrow> unat Count + 1 < unat PcdMax)"
proof -
  define n where "n = DevicePathNodeLength mem p"
  have M: "unat (MaxSize - 4) = unat MaxSize - 4" using max by (simp add: unat_sub word_le_nat_alt)
  have S: "unat (MAX_UINTN_word - Size) = 2 ^ 64 - 1 - unat Size"
    by (subst unat_sub_nowrap) (simp_all add: MAX_UINTN_word_def word_le_nat_alt less_imp_le unat_u64_le)
  have count: "PcdMax > 0 \<longrightarrow> unat (Count + 1) = unat Count + 1"
    using assms(3) unsigned_less [of PcdMax, where ?'a = nat] by (auto simp: unat_plus_if')
  have "\<not> n > MAX_UINTN_word - Size \<and> \<not> Size + n > MaxSize - 4 \<longleftrightarrow> unat Size + unat n + 4 \<le> unat MaxSize"
    using max unat_u64_le [of MaxSize] unat_u64_le [of Size] by (auto simp: word_less_nat_alt M S unat_plus_if' split: if_splits)
  moreover have "\<not> (PcdMax > 0 \<and> Count + 1 \<ge> ucast PcdMax) \<longleftrightarrow> (PcdMax > 0 \<longrightarrow> unat Count + 1 < unat PcdMax)"
    using count by (auto simp: word_le_nat_alt unat_ucast_wider not_le)
  moreover have "\<not> n < 4 \<longleftrightarrow> 4 \<le> unat n" by (auto simp: word_less_nat_alt)
  moreover have "node_ok (node_at mem p) \<Longrightarrow> 4 \<le> unat n" by (simp add: node_ok_def n_def)
  ultimately show ?thesis
    using node_at_ok [OF assms(1)] unfolding node_accepted_def Let_def n_def [symmetric] by blast
qed

lemma nodes_at_end:
  assumes "IsDevicePathEnd mem p"
  shows "(\<exists>nodes. nodes_fit PcdMax MaxSize Count Size nodes \<and> stored mem p (dp_bytes nodes)) \<longleftrightarrow>
    nodes_fit PcdMax MaxSize Count Size [] \<and> stored mem p (dp_bytes [])"
proof -
  have "nodes = []" if "nodes_fit PcdMax MaxSize Count Size nodes" "stored mem p (dp_bytes nodes)" for nodes
    using that assms stored_Cons_not_end by (cases nodes) (auto simp: nodes_fit_def)
  then show ?thesis by blast
qed

lemma IsDevicePathValid_loop_iff:
  "unat Size + 4 \<le> unat MaxSize \<Longrightarrow> (PcdMax > 0 \<longrightarrow> unat Count < unat PcdMax) \<Longrightarrow>
   IsDevicePathValid_loop PcdMax mem MaxSize DevicePath Count Size \<longleftrightarrow>
     (\<exists>nodes. nodes_fit PcdMax (unat MaxSize) (unat Count) (unat Size) nodes \<and> stored mem DevicePath (dp_bytes nodes))"
proof (induction "2 ^ 64 - unat Size" arbitrary: DevicePath Count Size rule: less_induct)
  case (less Size p Count)
  show ?case
  proof (cases "IsDevicePathEnd mem p")
    case True
    then show ?thesis
      using nodes_at_end [OF True] stored_Nil [of mem p] less.prems
      by (subst IsDevicePathValid_loop.simps) (auto simp: nodes_fit_def length_dp_bytes)
  next
    case False
    define n where "n = DevicePathNodeLength mem p"
    let ?count = "if PcdMax > 0 then Count + 1 else Count"
    let ?rest = "\<lambda>count size. \<exists>nodes. nodes_fit PcdMax (unat MaxSize) count size nodes \<and> stored mem (NextDevicePathNode mem p) (dp_bytes nodes)"
    have acc: "node_accepted PcdMax mem MaxSize p Count Size \<longleftrightarrow> node_ok (node_at mem p) \<and> unat Size + unat n + 4 \<le> unat MaxSize \<and>
        (PcdMax > 0 \<longrightarrow> unat Count + 1 < unat PcdMax)"
      using node_accepted_iff [OF False _ less.prems(2), of MaxSize Size] less.prems(1) by (simp add: n_def)
    have rest: "(\<exists>nodes. nodes_fit PcdMax (unat MaxSize) (unat Count) (unat Size) nodes \<and> stored mem p (dp_bytes nodes)) \<longleftrightarrow>
        node_ok (node_at mem p) \<and> ?rest (unat Count + 1) (unat Size + unat n)"
      using nodes_not_end [OF False] by (simp add: n_def)
    show ?thesis
    proof (cases "node_accepted PcdMax mem MaxSize p Count Size")
      case True
      then have a: "4 \<le> unat n" "unat Size + unat n + 4 \<le> unat MaxSize" "PcdMax > 0 \<longrightarrow> unat Count + 1 < unat PcdMax"
        using acc by (auto simp: node_ok_def n_def)
      have size: "unat (Size + n) = unat Size + unat n" using a unat_u64_bound [of MaxSize] by (intro unat_add_nowrap) linarith
      have count: "PcdMax > 0 \<longrightarrow> unat ?count = unat Count + 1"
        using a(3) unsigned_less [of PcdMax, where ?'a = nat] by (auto simp: unat_plus_if')
      have "IsDevicePathValid_loop PcdMax mem MaxSize (NextDevicePathNode mem p) ?count (Size + n) \<longleftrightarrow> ?rest (unat ?count) (unat (Size + n))"
        using a size count unat_u64_bound [of Size] by (intro less.hyps) (auto simp: diff_less_mono2)
      also have "\<dots> \<longleftrightarrow> ?rest (unat Count + 1) (unat Size + unat n)" using count size by (simp add: nodes_fit_def)
      finally show ?thesis using True acc rest IsDevicePathValid_loop_step [OF False] by (simp add: n_def)
    next
      case False': False
      have "\<not> (node_ok (node_at mem p) \<and> ?rest (unat Count + 1) (unat Size + unat n))"
        using False' acc by (auto simp: nodes_fit_def length_dp_bytes)
      then show ?thesis using False' rest IsDevicePathValid_loop_step [OF False] by simp
    qed
  qed
qed

text \<open>A list of nodes that the limits on size and number of nodes allow; a maximum of 0 is no limit.\<close>

definition dp_ok :: "dp_env \<Rightarrow> UINTN \<Rightarrow> u8 list list \<Rightarrow> bool" where
  "dp_ok env MaxSize nodes \<longleftrightarrow>
     nodes_fit (PcdMaximumDevicePathNodeCount env) (if MaxSize = 0 then 2 ^ 64 - 1 else unat MaxSize) 0 0 nodes"

lemma valid_iff:
  "IsDevicePathValid env mem p MaxSize \<longleftrightarrow> p \<noteq> NULL \<and> (\<exists>nodes. dp_ok env MaxSize nodes \<and> stored mem p (dp_bytes nodes))"
proof (cases "0 < MaxSize \<and> MaxSize < 4")
  case True
  then have "\<not> dp_ok env MaxSize nodes" for nodes
    by (auto simp: dp_ok_def nodes_fit_def length_dp_bytes word_less_nat_alt)
  then show ?thesis using True by (simp add: IsDevicePathValid_def END_DEVICE_PATH_LENGTH_def)
next
  case False
  define M where "M = (if MaxSize = 0 then MAX_UINTN_word else MaxSize)"
  have M: "unat M = (if MaxSize = 0 then 2 ^ 64 - 1 else unat MaxSize)" by (simp add: M_def MAX_UINTN_word_def)
  then have "4 \<le> unat M" using False by (auto simp: word_less_nat_alt unat_gt_0)
  then show ?thesis
    using False IsDevicePathValid_loop_iff [of 0 M "PcdMaximumDevicePathNodeCount env" 0 mem p]
    by (auto simp: IsDevicePathValid_def END_DEVICE_PATH_LENGTH_def M_def [symmetric] dp_ok_def M [symmetric] word_less_nat_alt)
qed

text \<open>
  C30. \<^verbatim>\<open>IsDevicePathValid\<close> accepts exactly the encodings of lists of well-formed nodes within the given
  size and the configured number of nodes.
\<close>

theorem IsDevicePathValid_correct:
  "IsDevicePathValid env mem DevicePath MaxSize \<longleftrightarrow>
     DevicePath \<noteq> NULL \<and> (\<exists>nodes. dp_ok env MaxSize nodes \<and> stored mem DevicePath (dp_bytes nodes))"
  by (rule valid_iff)

lemma stored_cong:
  assumes "\<And>i. i < length bs \<Longrightarrow> mem' (p + of_nat i) = mem (p + of_nat i)"
  shows "stored mem' p bs = stored mem p bs"
proof -
  have "bytes_at mem' p (length bs) = bytes_at mem p (length bs)" unfolding bytes_at_def by (rule map_cong) (simp_all add: assms)
  then show ?thesis by (simp add: stored_def)
qed

lemma unat_of_nat_u64: "n < 2 ^ 64 \<Longrightarrow> unat (of_nat n :: u64) = n"
  by (simp add: unsigned_of_nat take_bit_nat_eq_self)

lemma of_nat_less_u64: "i < unat n \<Longrightarrow> (of_nat i :: u64) < n"
  using unat_u64_le [of n] by (simp add: word_less_nat_alt unsigned_of_nat take_bit_nat_eq_self)


section \<open>Size\<close>

lemma walk_to_end:
  "list_all node_ok nodes \<Longrightarrow> stored mem p (dp_bytes nodes) \<Longrightarrow>
     DevicePath_walk (IsDevicePathEnd mem) mem p = Some (p + of_nat (length (concat nodes)))"
proof (induction nodes arbitrary: p)
  case Nil
  then show ?case by (subst DevicePath_walk.simps) (simp add: stored_Nil)
next
  case (Cons b bs)
  then have b: "node_ok b" "stored mem p b" "stored mem (p + of_nat (length b)) (dp_bytes bs)" by (simp_all add: dp_bytes_Cons stored_append)
  then show ?case
    using Cons.IH [of "p + of_nat (length b)"] Cons.prems(1) stored_node [OF b(1,2)]
    by (subst DevicePath_walk.simps) (simp add: NextDevicePathNode_def add.assoc)
qed

lemma end_node: "stored mem p (dp_bytes nodes) \<Longrightarrow> DevicePathNodeLength mem (p + of_nat (length (concat nodes))) = 4"
  using stored_Nil [of mem "p + of_nat (length (concat nodes))"] by (simp add: dp_bytes_def stored_append END_DEVICE_PATH_LENGTH_def)

lemma size_stored:
  assumes "p \<noteq> NULL" and "dp_ok env 0 nodes" and "stored mem p (dp_bytes nodes)"
  shows "GetDevicePathSize env mem p = Some (of_nat (length (dp_bytes nodes)))"
  using assms valid_iff [of env mem p 0] walk_to_end [OF _ assms(3)] end_node [OF assms(3)]
  by (auto simp: GetDevicePathSize_def dp_ok_def nodes_fit_def length_dp_bytes)

lemma dp_ok_unlimited: "dp_ok env MaxSize nodes \<Longrightarrow> dp_ok env 0 nodes"
  using unat_u64_le [of MaxSize] by (auto simp: dp_ok_def nodes_fit_def split: if_splits)

text \<open>
  \<^verbatim>\<open>GetDevicePathSize\<close> of a valid device path returns the length of its encoding, at least an end
  node and at most the size for which the path was found valid.
\<close>

theorem GetDevicePathSize_valid:
  assumes "IsDevicePathValid env mem DevicePath MaxSize"
  shows "\<exists>nodes. GetDevicePathSize env mem DevicePath = Some (of_nat (length (dp_bytes nodes))) \<and>
    stored mem DevicePath (dp_bytes nodes) \<and> 4 \<le> length (dp_bytes nodes) \<and> (MaxSize \<noteq> 0 \<longrightarrow> length (dp_bytes nodes) \<le> unat MaxSize)"
proof -
  obtain nodes where n: "DevicePath \<noteq> NULL" "dp_ok env MaxSize nodes" "stored mem DevicePath (dp_bytes nodes)"
    using assms valid_iff by blast
  then show ?thesis
    using size_stored [OF n(1) dp_ok_unlimited [OF n(2)] n(3)] by (intro exI [of _ nodes]) (auto simp: dp_ok_def nodes_fit_def length_dp_bytes)
qed

section \<open>Appending\<close>

lemma copied_inside: "i < unat n \<Longrightarrow> copied mem d s n (d + of_nat i) = mem (s + of_nat i)"
  by (simp add: copied_def of_nat_less_u64)

lemma stored_copied:
  assumes "stored mem s bs" and "length bs = unat n"
  shows "stored (copied mem d s n) d bs"
proof -
  have "bytes_at (copied mem d s n) d (length bs) = bytes_at mem s (length bs)"
    unfolding bytes_at_def by (rule map_cong) (simp_all add: copied_inside assms(2))
  then show ?thesis using assms(1) by (simp add: stored_def)
qed

lemma copied_behind:
  assumes "i < l" and "l + unat n < 2 ^ 64"
  shows "copied mem (d + of_nat l) s n (d + of_nat i) = mem (d + of_nat i)"
proof -
  have "(d + of_nat i) - (d + of_nat l) = (of_nat i - of_nat l :: u64)" by simp
  moreover have "unat (of_nat i :: u64) = i" "unat (of_nat l :: u64) = l" using assms by (simp_all add: unsigned_of_nat take_bit_nat_eq_self)
  then have "\<not> (of_nat i - of_nat l :: u64) < n" using assms by (simp add: word_less_nat_alt unat_sub_if')
  ultimately show ?thesis by (simp add: copied_def)
qed

lemma dp_ok_bound: "dp_ok env 0 nodes \<Longrightarrow> length (dp_bytes nodes) < 2 ^ 64"
  by (simp add: dp_ok_def nodes_fit_def)

lemma copied_outside:
  assumes "\<not> a - new < (of_nat (n1 + n2 - 4) :: u64)" and "n1 + n2 - 4 < 2 ^ 64" and "4 \<le> n1" "4 \<le> n2"
  shows "\<not> a - new < (of_nat n1 :: u64)" "\<not> a - (new + of_nat (n1 - 4)) < (of_nat n2 :: u64)"
proof -
  define l N x where "l = n1 - 4" and "N = n1 + n2 - 4" and "x = a - new"
  have n: "n1 = l + 4" "N = l + n2" "N < 2 ^ 64" using assms by (simp_all add: l_def N_def)
  have u: "unat (of_nat k :: u64) = k" if "k \<le> N" for k using that n(3) by (intro unat_of_nat_u64) linarith
  have le: "n1 \<le> N" "l \<le> N" "n2 \<le> N" using n(1,2) assms(4) by linarith+
  have x: "N \<le> unat x" using assms(1) u [of N] unfolding N_def [symmetric] x_def [symmetric] by (simp add: word_less_nat_alt)
  then show "\<not> a - new < (of_nat n1 :: u64)" using u [OF le(1)] le(1) unfolding x_def [symmetric] by (simp add: word_less_nat_alt)
  have eq: "a - (new + of_nat l) = x - of_nat l" by (simp add: x_def)
  show "\<not> a - (new + of_nat (n1 - 4)) < (of_nat n2 :: u64)"
    unfolding l_def [symmetric] eq using x n(2) u [OF le(2)] u [OF le(3)] by (simp add: word_less_nat_alt unat_sub_if')
qed

text \<open>The two copies of \<^verbatim>\<open>AppendDevicePath\<close>.\<close>

lemma append_stored:
  fixes nodes1 nodes2 :: "u8 list list"
  defines "n1 \<equiv> length (dp_bytes nodes1)" and "n2 \<equiv> length (dp_bytes nodes2)"
  assumes st: "stored mem p1 (dp_bytes nodes1)" "stored mem p2 (dp_bytes nodes2)" and total: "n1 + n2 - 4 < 2 ^ 64"
    and apart: "\<forall>i < n2. \<not> p2 + of_nat i - new < of_nat (n1 + n2 - 4)"
  shows "stored (copied (copied mem new p1 (of_nat n1)) (new + of_nat (n1 - 4)) p2 (of_nat n2)) new (dp_bytes (nodes1 @ nodes2))"
proof -
  let ?m1 = "copied mem new p1 (of_nat n1)" and ?l = "n1 - 4"
  let ?m2 = "copied ?m1 (new + of_nat ?l) p2 (of_nat n2)"
  have len: "n1 = length (concat nodes1) + 4" "n2 = length (concat nodes2) + 4" by (simp_all add: n1_def n2_def length_dp_bytes)
  have u: "unat (of_nat n1 :: u64) = n1" "unat (of_nat n2 :: u64) = n2"
    by (rule unat_of_nat_u64, use total len in linarith)+
  have "stored ?m1 new (dp_bytes nodes1)" by (rule stored_copied [OF st(1)]) (simp add: u n1_def [symmetric])
  then have "stored ?m1 new (concat nodes1)" by (simp add: dp_bytes_def stored_append)
  then have "stored ?m2 new (concat nodes1)"
    using total len u by (subst stored_cong [where mem = ?m1]) (auto intro!: copied_behind)
  moreover have "stored ?m1 p2 (dp_bytes nodes2)"
  proof (subst stored_cong [where mem = mem])
    fix i assume i: "i < length (dp_bytes nodes2)"
    have "(of_nat n1 :: u64) \<le> of_nat (n1 + n2 - 4)" using total len by (simp only: word_le_nat_alt u(1) unat_of_nat_u64)
    then show "?m1 (p2 + of_nat i) = mem (p2 + of_nat i)"
      using apart [rule_format, of i] i by (auto simp: copied_def n2_def dest: less_le_trans)
  qed (rule st(2))
  then have "stored ?m2 (new + of_nat ?l) (dp_bytes nodes2)" by (rule stored_copied) (simp add: u n2_def [symmetric])
  ultimately show ?thesis using len by (simp add: dp_bytes_def stored_append)
qed

text \<open>
  C32. \<^verbatim>\<open>AppendDevicePath\<close> of two valid device paths allocates a buffer of the size of both without the
  first end node and stores there the nodes of the first path, then those of the second, and an end
  node; the rest of the memory stays as it was.
\<close>

theorem AppendDevicePath_correct:
  fixes nodes1 nodes2 :: "u8 list list"
  defines "n1 \<equiv> length (dp_bytes nodes1)" and "n2 \<equiv> length (dp_bytes nodes2)"
  assumes ok: "dp_ok env 0 nodes1" "dp_ok env 0 nodes2" and nn: "p1 \<noteq> NULL" "p2 \<noteq> NULL"
    and st: "stored mem p1 (dp_bytes nodes1)" "stored mem p2 (dp_bytes nodes2)"
    and new: "env_Pool env (of_nat (n1 + n2 - 4)) mem = new" "new \<noteq> NULL"
    and wrap: "unat new + (n1 + n2 - 4) \<le> 2 ^ 64" "unat p1 + n1 \<le> 2 ^ 64" "unat p2 + n2 \<le> 2 ^ 64"
    and apart: "\<forall>i < n2. \<not> p2 + of_nat i - new < of_nat (n1 + n2 - 4)"
  shows "\<exists>mem'. AppendDevicePath env p1 p2 mem = Some (new, mem') \<and> stored mem' new (dp_bytes (nodes1 @ nodes2)) \<and>
    (\<forall>a. \<not> a - new < of_nat (n1 + n2 - 4) \<longrightarrow> mem' a = mem a)"
proof -
  have len: "4 \<le> n1" "4 \<le> n2" by (simp_all add: n1_def n2_def length_dp_bytes)
  have total: "n1 + n2 - 4 < 2 ^ 64" using wrap(1) new(2) by (simp add: unat_gt_0 [symmetric] del: unat_gt_0)
  have u: "unat (of_nat n1 :: u64) = n1" "unat (of_nat n2 :: u64) = n2"
    by (rule unat_of_nat_u64, use total len in linarith)+
  let ?m1 = "copied mem new p1 (of_nat n1)"
  let ?m2 = "copied ?m1 (new + of_nat (n1 - 4)) p2 (of_nat n2)"
  have valid: "IsDevicePathValid env mem p1 0" "IsDevicePathValid env mem p2 0" using valid_iff ok nn st by blast+
  have words: "(of_nat n1 :: u64) + of_nat n2 - 4 = of_nat (n1 + n2 - 4)" "(of_nat n1 :: u64) - 4 = of_nat (n1 - 4)"
    using len by (simp_all add: of_nat_diff)
  have c1: "CopyMem mem new p1 (of_nat n1) = Some ?m1" by (rule CopyMem_eq) (use wrap u len in simp_all)
  have c2: "CopyMem ?m1 (new + of_nat (n1 - 4)) p2 (of_nat n2) = Some ?m2"
  proof (rule CopyMem_eq)
    define l where "l = n1 - 4"
    have l: "l < 2 ^ 64" "unat new + l + n2 \<le> 2 ^ 64" using total wrap(1) len by (simp_all add: l_def)
    note l = l unat_of_nat_u64 [OF l(1)]
    then have "unat (new + of_nat l) = unat new + l" using len by (subst unat_add_nowrap) simp_all
    then show "unat (new + of_nat (n1 - 4)) + unat (of_nat n2 :: u64) \<le> 2 ^ 64" unfolding l_def [symmetric] using l u by simp
  qed (use wrap u in simp)
  have "AppendDevicePath env p1 p2 mem = Some (new, ?m2)"
    using valid nn size_stored [OF nn(1) ok(1) st(1)] size_stored [OF nn(2) ok(2) st(2)] new c1 c2 words
    by (simp add: AppendDevicePath_def END_DEVICE_PATH_LENGTH_def n1_def [symmetric] n2_def [symmetric])
  moreover have "?m2 a = mem a" if "\<not> a - new < of_nat (n1 + n2 - 4)" for a
    using copied_outside [OF that total len] by (simp add: copied_def del: of_nat_diff)
  ultimately show ?thesis
    using append_stored [OF st, folded n1_def n2_def, OF total apart] by blast
qed

section \<open>Examples\<close>

text \<open>Two device paths of one node each, at 0x100 and 0x200, and the pool at 0x1000.\<close>

definition dp_example_node :: "u8 \<Rightarrow> u8 list" where
  "dp_example_node k = [1, 1, 5, 0, k]"

definition dp_example :: memory where
  "dp_example = (\<lambda>a. if a - 0x100 < 9 then dp_bytes [dp_example_node 7] ! unat (a - 0x100)
     else if a - 0x200 < 9 then dp_bytes [dp_example_node 8] ! unat (a - 0x200) else 0)"

definition dp_example_env :: dp_env where
  "dp_example_env = \<lparr>env_Pool = (\<lambda>_ _. 0x1000), addr_mUefiDevicePathLibEndDevicePath = 0x300, PcdMaximumDevicePathNodeCount = 0\<rparr>"

lemma dp_example_stored: "stored dp_example 0x100 (dp_bytes [dp_example_node 7])" "stored dp_example 0x200 (dp_bytes [dp_example_node 8])"
  by (code_simp, code_simp)

lemma dp_example_ok: "dp_ok dp_example_env 0 [dp_example_node k]"
  by (simp add: dp_ok_def nodes_fit_def node_ok_def dp_example_node_def dp_example_env_def length_dp_bytes efi_const)


theorem GetDevicePathSize_valid_witness:
  "\<exists>nodes. GetDevicePathSize dp_example_env dp_example 0x100 = Some (of_nat (length (dp_bytes nodes))) \<and>
     stored dp_example 0x100 (dp_bytes nodes) \<and> 4 \<le> length (dp_bytes nodes) \<and> length (dp_bytes nodes) \<le> unat (9 :: u64)"
proof -
  have "dp_ok dp_example_env 9 [dp_example_node 7]"
    by (simp add: dp_ok_def nodes_fit_def node_ok_def dp_example_node_def dp_example_env_def length_dp_bytes efi_const)
  then have "IsDevicePathValid dp_example_env dp_example 0x100 9" using dp_example_stored(1) by (auto simp: valid_iff)
  then show ?thesis using GetDevicePathSize_valid [of dp_example_env dp_example "0x100" 9] by auto
qed

theorem AppendDevicePath_correct_witness:
  "\<exists>mem'. AppendDevicePath dp_example_env 0x100 0x200 dp_example = Some (0x1000, mem') \<and>
     stored mem' 0x1000 (dp_bytes [dp_example_node 7, dp_example_node 8]) \<and> mem' 0x100 = 1"
proof -
  have n: "length (dp_bytes [dp_example_node k]) = 9" for k by (simp add: length_dp_bytes dp_example_node_def)
  have "list_all (\<lambda>i. \<not> 0x200 + of_nat i - (0x1000 :: u64) < 14) [0..<9]" by code_simp
  then have "\<forall>i < 9. \<not> 0x200 + of_nat i - (0x1000 :: u64) < 14" by (simp add: list_all_iff)
  moreover have "env_Pool dp_example_env x m = 0x1000" for x m by (simp add: dp_example_env_def)
  ultimately obtain mem' where mem': "AppendDevicePath dp_example_env 0x100 0x200 dp_example = Some (0x1000, mem')"
    "stored mem' 0x1000 (dp_bytes [dp_example_node 7, dp_example_node 8])" "\<forall>a. \<not> a - 0x1000 < 14 \<longrightarrow> mem' a = dp_example a"
    using AppendDevicePath_correct [OF dp_example_ok dp_example_ok _ _ dp_example_stored, of "0x1000", unfolded n] by auto
  have "mem' 0x100 = dp_example 0x100" using mem'(3) [rule_format, of "0x100"] by simp
  moreover have "dp_example 0x100 = 1" by code_simp
  ultimately show ?thesis using mem'(1,2) by simp
qed

end
