(* ===== verification/HandleDb.thy ===== *)
theory HandleDb
  imports EventServices DevicePath
begin

text \<open>
  The database of handles and protocols of the DXE core
  (\<^verbatim>\<open>MdeModulePkg/Core/Dxe/Hand/Handle.c\<close>, \<^verbatim>\<open>Notify.c\<close> and \<^verbatim>\<open>Locate.c\<close>).

  The structures of the code live in four stores, one for each type, addressed by words; a list of
  the code is the list of the addresses in it.  An \<^verbatim>\<open>OPEN_PROTOCOL_DATA\<close> is never referred to from
  outside its list, which therefore holds the structures.  The \<^verbatim>\<open>Position\<close> of a registration
  points to the head of the list of interfaces (\<open>None\<close>) or to an interface in it.

  The lock of the database raises the priority to \<^verbatim>\<open>TPL_NOTIFY\<close>; releasing it restores the
  priority, which runs pending notifications, and these may call any service.  What they do is the
  parameter \<open>env_RestoreTpl\<close>.  Connecting and disconnecting controllers (\<^verbatim>\<open>DriverSupport.c\<close>) are
  parameters too.  \<open>signalled\<close> records the events that are signalled.
\<close>

section \<open>Constants and state\<close>

definition EFI_HANDLE_SIGNATURE :: UINTN where [efi_const]: "EFI_HANDLE_SIGNATURE = 0x6C646E68"
definition PROTOCOL_ENTRY_SIGNATURE :: UINTN where [efi_const]: "PROTOCOL_ENTRY_SIGNATURE = 0x65747270"
definition PROTOCOL_INTERFACE_SIGNATURE :: UINTN where [efi_const]: "PROTOCOL_INTERFACE_SIGNATURE = 0x63666970"
definition OPEN_PROTOCOL_DATA_SIGNATURE :: UINTN where [efi_const]: "OPEN_PROTOCOL_DATA_SIGNATURE = 0x6C646F70"
definition PROTOCOL_NOTIFY_SIGNATURE :: UINTN where [efi_const]: "PROTOCOL_NOTIFY_SIGNATURE = 0x6E747270"

definition EFI_NATIVE_INTERFACE :: u32 where [efi_const]: "EFI_NATIVE_INTERFACE = 0"

definition EFI_OPEN_PROTOCOL_BY_HANDLE_PROTOCOL :: u32 where
  [efi_const]: "EFI_OPEN_PROTOCOL_BY_HANDLE_PROTOCOL = 0x00000001"
definition EFI_OPEN_PROTOCOL_GET_PROTOCOL :: u32 where
  [efi_const]: "EFI_OPEN_PROTOCOL_GET_PROTOCOL = 0x00000002"
definition EFI_OPEN_PROTOCOL_TEST_PROTOCOL :: u32 where
  [efi_const]: "EFI_OPEN_PROTOCOL_TEST_PROTOCOL = 0x00000004"
definition EFI_OPEN_PROTOCOL_BY_CHILD_CONTROLLER :: u32 where
  [efi_const]: "EFI_OPEN_PROTOCOL_BY_CHILD_CONTROLLER = 0x00000008"
definition EFI_OPEN_PROTOCOL_BY_DRIVER :: u32 where
  [efi_const]: "EFI_OPEN_PROTOCOL_BY_DRIVER = 0x00000010"
definition EFI_OPEN_PROTOCOL_EXCLUSIVE :: u32 where
  [efi_const]: "EFI_OPEN_PROTOCOL_EXCLUSIVE = 0x00000020"

definition AllHandles :: u32 where [efi_const]: "AllHandles = 0"
definition ByRegisterNotify :: u32 where [efi_const]: "ByRegisterNotify = 1"
definition ByProtocol :: u32 where [efi_const]: "ByProtocol = 2"

record IHANDLE =
  ih_Signature :: UINTN
  ih_Protocols :: "u64 list"
  ih_LocateRequest :: UINTN
  ih_Key :: u64

record PROTOCOL_ENTRY =
  pe_Signature :: UINTN
  pe_ProtocolID :: EFI_GUID
  pe_Protocols :: "u64 list"
  pe_Notify :: "u64 list"

record OPEN_PROTOCOL_DATA =
  od_Signature :: UINTN
  od_AgentHandle :: EFI_HANDLE
  od_ControllerHandle :: EFI_HANDLE
  od_Attributes :: u32
  od_OpenCount :: u32

record PROTOCOL_INTERFACE =
  pi_Signature :: UINTN
  pi_Handle :: EFI_HANDLE
  pi_Protocol :: u64
  pi_Interface :: u64
  pi_OpenList :: "OPEN_PROTOCOL_DATA list"
  pi_OpenListCount :: UINTN

record PROTOCOL_NOTIFY =
  pn_Signature :: UINTN
  pn_Protocol :: u64
  pn_Event :: EFI_EVENT
  pn_Position :: "u64 option"

record hand_state =
  mProtocolDatabase :: "u64 list"
  gHandleList :: "EFI_HANDLE list"
  gProtocolDatabaseLock :: EFI_LOCK
  gHandleDatabaseKey :: u64
  mEfiLocateHandleRequest :: UINTN
  ihandle :: "u64 \<Rightarrow> IHANDLE"
  pentry :: "u64 \<Rightarrow> PROTOCOL_ENTRY"
  pinterface :: "u64 \<Rightarrow> PROTOCOL_INTERFACE"
  pnotify :: "u64 \<Rightarrow> PROTOCOL_NOTIFY"
  hand_Tpl :: nat
  signalled :: "EFI_EVENT list"
  notify_flagged :: "EFI_EVENT list"

text \<open>
  The environment: the pool (the address of a new object of a kind, 0 when there is none), what
  restoring a priority does, the driver services, the memory that holds device paths and
  \<^verbatim>\<open>gDxeCoreImageHandle\<close>.
\<close>

datatype hand_object = HAND_ENTRY | HAND_INTERFACE | HAND_HANDLE | HAND_NOTIFY | HAND_OPEN | HAND_BUFFER

record hand_env =
  env_AllocatePool :: "hand_object \<Rightarrow> hand_state \<Rightarrow> u64"
  env_RestoreTpl :: "nat \<Rightarrow> hand_state \<Rightarrow> hand_state"
  env_DisconnectController :: "EFI_HANDLE \<Rightarrow> EFI_HANDLE \<Rightarrow> hand_state \<Rightarrow> EFI_STATUS \<times> hand_state"
  env_ConnectController :: "EFI_HANDLE \<Rightarrow> hand_state \<Rightarrow> hand_state"
  env_memory :: memory
  env_DevicePath :: dp_env
  gDxeCoreImageHandle :: EFI_HANDLE
  gEfiDevicePathProtocolGuid :: EFI_GUID

definition update_handle :: "u64 \<Rightarrow> (IHANDLE \<Rightarrow> IHANDLE) \<Rightarrow> hand_state \<Rightarrow> hand_state" where
  "update_handle a f s = s\<lparr>ihandle := (ihandle s)(a := f (ihandle s a))\<rparr>"

definition update_entry :: "u64 \<Rightarrow> (PROTOCOL_ENTRY \<Rightarrow> PROTOCOL_ENTRY) \<Rightarrow> hand_state \<Rightarrow> hand_state" where
  "update_entry a f s = s\<lparr>pentry := (pentry s)(a := f (pentry s a))\<rparr>"

definition update_interface :: "u64 \<Rightarrow> (PROTOCOL_INTERFACE \<Rightarrow> PROTOCOL_INTERFACE) \<Rightarrow> hand_state \<Rightarrow> hand_state" where
  "update_interface a f s = s\<lparr>pinterface := (pinterface s)(a := f (pinterface s a))\<rparr>"

definition update_notify :: "u64 \<Rightarrow> (PROTOCOL_NOTIFY \<Rightarrow> PROTOCOL_NOTIFY) \<Rightarrow> hand_state \<Rightarrow> hand_state" where
  "update_notify a f s = s\<lparr>pnotify := (pnotify s)(a := f (pnotify s a))\<rparr>"

section \<open>The lock\<close>

definition CoreAcquireProtocolLock :: "hand_state \<Rightarrow> hand_state" where
  "CoreAcquireProtocolLock s = s\<lparr>gProtocolDatabaseLock := (gProtocolDatabaseLock s)\<lparr>OwnerTpl := hand_Tpl s,
     lock_Lock := EfiLockAcquired\<rparr>, hand_Tpl := lock_Tpl (gProtocolDatabaseLock s)\<rparr>"

definition CoreAcquireLockOrFail :: "hand_state \<Rightarrow> EFI_STATUS \<times> hand_state" where
  "CoreAcquireLockOrFail s =
     (if lock_Lock (gProtocolDatabaseLock s) = EfiLockAcquired then (EFI_ACCESS_DENIED, s)
      else (EFI_SUCCESS, s\<lparr>gProtocolDatabaseLock := (gProtocolDatabaseLock s)\<lparr>OwnerTpl := hand_Tpl s,
        lock_Lock := EfiLockAcquired\<rparr>, hand_Tpl := lock_Tpl (gProtocolDatabaseLock s)\<rparr>))"

definition CoreReleaseProtocolLock :: "hand_env \<Rightarrow> hand_state \<Rightarrow> hand_state" where
  "CoreReleaseProtocolLock env s = env_RestoreTpl env (OwnerTpl (gProtocolDatabaseLock s))
     (s\<lparr>gProtocolDatabaseLock := (gProtocolDatabaseLock s)\<lparr>lock_Lock := EfiLockReleased\<rparr>\<rparr>)"

section \<open>Finding things\<close>

text \<open>Search in a list of addresses; 0 is NULL.\<close>

definition find_address :: "(u64 \<Rightarrow> bool) \<Rightarrow> u64 list \<Rightarrow> u64" where
  "find_address P xs = (case find P xs of None \<Rightarrow> NULL | Some a \<Rightarrow> a)"

definition CoreValidateHandle :: "EFI_HANDLE \<Rightarrow> hand_state \<Rightarrow> EFI_STATUS" where
  "CoreValidateHandle UserHandle s =
     (if UserHandle = NULL then EFI_INVALID_PARAMETER
      else if find (\<lambda>Handle. Handle = UserHandle) (rev (gHandleList s)) \<noteq> None then EFI_SUCCESS
      else EFI_INVALID_PARAMETER)"

definition CoreFindProtocolEntry :: "hand_env \<Rightarrow> EFI_GUID \<Rightarrow> bool \<Rightarrow> hand_state \<Rightarrow> u64 \<times> hand_state" where
  "CoreFindProtocolEntry env Protocol Create s =
     (let ProtEntry = find_address (\<lambda>Item. pe_ProtocolID (pentry s Item) = Protocol) (mProtocolDatabase s)
      in if ProtEntry = NULL \<and> Create
         then let ProtEntry = env_AllocatePool env HAND_ENTRY s
           in if ProtEntry \<noteq> NULL
              then (ProtEntry, update_entry ProtEntry
                 (\<lambda>_. \<lparr>pe_Signature = PROTOCOL_ENTRY_SIGNATURE, pe_ProtocolID = Protocol,
                       pe_Protocols = [], pe_Notify = []\<rparr>)
                 (s\<lparr>mProtocolDatabase := mProtocolDatabase s @ [ProtEntry]\<rparr>))
              else (NULL, s)
         else (ProtEntry, s))"

definition CoreFindProtocolInterface :: "hand_env \<Rightarrow> u64 \<Rightarrow> EFI_GUID \<Rightarrow> u64 \<Rightarrow> hand_state \<Rightarrow> u64" where
  "CoreFindProtocolInterface env Handle Protocol Interface s =
     (let ProtEntry = fst (CoreFindProtocolEntry env Protocol False s)
      in if ProtEntry \<noteq> NULL
         then find_address (\<lambda>Prot. pi_Interface (pinterface s Prot) = Interface \<and>
                pi_Protocol (pinterface s Prot) = ProtEntry) (ih_Protocols (ihandle s Handle))
         else NULL)"

definition CoreGetProtocolInterface :: "EFI_HANDLE \<Rightarrow> EFI_GUID \<Rightarrow> hand_state \<Rightarrow> u64" where
  "CoreGetProtocolInterface UserHandle Protocol s =
     (if EFI_ERROR (CoreValidateHandle UserHandle s) then NULL
      else find_address (\<lambda>Prot. pe_ProtocolID (pentry s (pi_Protocol (pinterface s Prot))) = Protocol)
             (ih_Protocols (ihandle s UserHandle)))"

section \<open>Opening and closing protocols\<close>

text \<open>
  The scan of the open list in \<^verbatim>\<open>CoreOpenProtocol\<close>: it ends at a driver that has the interface
  open already, at an entry whose count is raised, or with the two flags.
\<close>

datatype open_scan = ScanStarted | ScanCounted nat | ScanDone bool bool

fun CoreOpenProtocol_scan ::
  "EFI_HANDLE \<Rightarrow> EFI_HANDLE \<Rightarrow> u32 \<Rightarrow> OPEN_PROTOCOL_DATA list \<Rightarrow> nat \<Rightarrow> bool \<Rightarrow> bool \<Rightarrow> open_scan" where
  "CoreOpenProtocol_scan ImageHandle ControllerHandle Attributes [] i ByDriver Exclusive = ScanDone ByDriver Exclusive"
| "CoreOpenProtocol_scan ImageHandle ControllerHandle Attributes (OpenData # rest) i ByDriver Exclusive =
     (let ExactMatch = (od_AgentHandle OpenData = ImageHandle \<and> od_Attributes OpenData = Attributes \<and>
            od_ControllerHandle OpenData = ControllerHandle);
          driver = (od_Attributes OpenData AND EFI_OPEN_PROTOCOL_BY_DRIVER \<noteq> 0)
      in if driver \<and> ExactMatch then ScanStarted
         else if od_Attributes OpenData AND EFI_OPEN_PROTOCOL_EXCLUSIVE \<noteq> 0
         then CoreOpenProtocol_scan ImageHandle ControllerHandle Attributes rest (i + 1) (ByDriver \<or> driver) True
         else if ExactMatch then ScanCounted i
         else CoreOpenProtocol_scan ImageHandle ControllerHandle Attributes rest (i + 1) (ByDriver \<or> driver) Exclusive)"

text \<open>The loop that disconnects the drivers; the status is what it ends with.\<close>

fun CoreOpenProtocol_disconnect ::
  "nat \<Rightarrow> hand_env \<Rightarrow> EFI_HANDLE \<Rightarrow> u64 \<Rightarrow> hand_state \<Rightarrow> (EFI_STATUS \<times> hand_state) option" where
  "CoreOpenProtocol_disconnect 0 env UserHandle Prot s = None"
| "CoreOpenProtocol_disconnect (Suc n) env UserHandle Prot s =
     (case find (\<lambda>OpenData. od_Attributes OpenData AND EFI_OPEN_PROTOCOL_BY_DRIVER \<noteq> 0) (pi_OpenList (pinterface s Prot)) of
        None \<Rightarrow> Some (EFI_SUCCESS, s)
      | Some OpenData \<Rightarrow>
          (let (Status, s1) = env_DisconnectController env UserHandle (od_AgentHandle OpenData) (CoreReleaseProtocolLock env s);
               s2 = CoreAcquireProtocolLock s1
           in if EFI_ERROR Status then Some (EFI_ACCESS_DENIED, s2)
              else CoreOpenProtocol_disconnect n env UserHandle Prot s2))"

text \<open>The checks of \<^verbatim>\<open>CoreOpenProtocol\<close> on its attributes.\<close>

definition CoreOpenProtocol_check ::
  "EFI_HANDLE \<Rightarrow> EFI_HANDLE \<Rightarrow> EFI_HANDLE \<Rightarrow> u32 \<Rightarrow> hand_state \<Rightarrow> EFI_STATUS" where
  "CoreOpenProtocol_check UserHandle ImageHandle ControllerHandle Attributes s =
     (if Attributes = EFI_OPEN_PROTOCOL_BY_CHILD_CONTROLLER
      then if EFI_ERROR (CoreValidateHandle ImageHandle s) then CoreValidateHandle ImageHandle s
           else if EFI_ERROR (CoreValidateHandle ControllerHandle s) then CoreValidateHandle ControllerHandle s
           else if UserHandle = ControllerHandle then EFI_INVALID_PARAMETER else EFI_SUCCESS
      else if Attributes = EFI_OPEN_PROTOCOL_BY_DRIVER \<or>
              Attributes = EFI_OPEN_PROTOCOL_BY_DRIVER OR EFI_OPEN_PROTOCOL_EXCLUSIVE
      then if EFI_ERROR (CoreValidateHandle ImageHandle s) then CoreValidateHandle ImageHandle s
           else CoreValidateHandle ControllerHandle s
      else if Attributes = EFI_OPEN_PROTOCOL_EXCLUSIVE then CoreValidateHandle ImageHandle s
      else if Attributes = EFI_OPEN_PROTOCOL_BY_HANDLE_PROTOCOL \<or> Attributes = EFI_OPEN_PROTOCOL_GET_PROTOCOL \<or>
              Attributes = EFI_OPEN_PROTOCOL_TEST_PROTOCOL
      then EFI_SUCCESS
      else EFI_INVALID_PARAMETER)"

text \<open>A new entry of the open list; an agent of NULL leaves no trace.\<close>

definition CoreOpenProtocol_add ::
  "hand_env \<Rightarrow> u64 \<Rightarrow> EFI_HANDLE \<Rightarrow> EFI_HANDLE \<Rightarrow> u32 \<Rightarrow> hand_state \<Rightarrow> EFI_STATUS \<times> hand_state" where
  "CoreOpenProtocol_add env Prot ImageHandle ControllerHandle Attributes s =
     (if ImageHandle = NULL then (EFI_SUCCESS, s)
      else if env_AllocatePool env HAND_OPEN s = NULL then (EFI_OUT_OF_RESOURCES, s)
      else (EFI_SUCCESS, update_interface Prot (\<lambda>p. p\<lparr>pi_OpenList := pi_OpenList p @
              [\<lparr>od_Signature = OPEN_PROTOCOL_DATA_SIGNATURE, od_AgentHandle = ImageHandle,
                od_ControllerHandle = ControllerHandle, od_Attributes = Attributes, od_OpenCount = 1\<rparr>],
              pi_OpenListCount := pi_OpenListCount p + 1\<rparr>) s))"

text \<open>The part of \<^verbatim>\<open>CoreOpenProtocol\<close> under the lock, for an interface that was found.\<close>

definition CoreOpenProtocol_open ::
  "nat \<Rightarrow> hand_env \<Rightarrow> EFI_HANDLE \<Rightarrow> u64 \<Rightarrow> EFI_HANDLE \<Rightarrow> EFI_HANDLE \<Rightarrow> u32 \<Rightarrow> hand_state \<Rightarrow>
     (EFI_STATUS \<times> hand_state) option" where
  "CoreOpenProtocol_open n env UserHandle Prot ImageHandle ControllerHandle Attributes s =
     (case CoreOpenProtocol_scan ImageHandle ControllerHandle Attributes (pi_OpenList (pinterface s Prot)) 0 False False of
        ScanStarted \<Rightarrow> Some (EFI_ALREADY_STARTED, s)
      | ScanCounted i \<Rightarrow>
          Some (EFI_SUCCESS, update_interface Prot (\<lambda>p. p\<lparr>pi_OpenList := (pi_OpenList p)
            [i := (pi_OpenList p ! i)\<lparr>od_OpenCount := od_OpenCount (pi_OpenList p ! i) + 1\<rparr>]\<rparr>) s)
      | ScanDone ByDriver Exclusive \<Rightarrow>
          if Attributes = EFI_OPEN_PROTOCOL_BY_DRIVER \<and> (Exclusive \<or> ByDriver) then Some (EFI_ACCESS_DENIED, s)
          else if (Attributes = EFI_OPEN_PROTOCOL_BY_DRIVER OR EFI_OPEN_PROTOCOL_EXCLUSIVE \<or>
                   Attributes = EFI_OPEN_PROTOCOL_EXCLUSIVE) \<and> Exclusive then Some (EFI_ACCESS_DENIED, s)
          else if (Attributes = EFI_OPEN_PROTOCOL_BY_DRIVER OR EFI_OPEN_PROTOCOL_EXCLUSIVE \<or>
                   Attributes = EFI_OPEN_PROTOCOL_EXCLUSIVE) \<and> ByDriver
          then do {
            (Status, s1) \<leftarrow> CoreOpenProtocol_disconnect n env UserHandle Prot s;
            Some (if EFI_ERROR Status then (Status, s1)
                  else CoreOpenProtocol_add env Prot ImageHandle ControllerHandle Attributes s1)
          }
          else Some (CoreOpenProtocol_add env Prot ImageHandle ControllerHandle Attributes s))"

text \<open>
  \<open>InterfacePtr\<close>: the out parameter is not NULL.  The second component of the result is what is
  stored there, \<open>None\<close> when nothing is.
\<close>

definition CoreOpenProtocol ::
  "nat \<Rightarrow> hand_env \<Rightarrow> EFI_HANDLE \<Rightarrow> EFI_GUID option \<Rightarrow> bool \<Rightarrow> EFI_HANDLE \<Rightarrow> EFI_HANDLE \<Rightarrow> u32 \<Rightarrow> hand_state \<Rightarrow>
     (EFI_STATUS \<times> u64 option \<times> hand_state) option" where
  "CoreOpenProtocol n env UserHandle Protocol InterfacePtr ImageHandle ControllerHandle Attributes s =
     (case Protocol of
        None \<Rightarrow> Some (EFI_INVALID_PARAMETER, None, s)
      | Some Guid \<Rightarrow>
          if Attributes \<noteq> EFI_OPEN_PROTOCOL_TEST_PROTOCOL \<and> \<not> InterfacePtr then Some (EFI_INVALID_PARAMETER, None, s)
          else if EFI_ERROR (CoreValidateHandle UserHandle s) then Some (CoreValidateHandle UserHandle s, None, s)
          else
            let Status = CoreOpenProtocol_check UserHandle ImageHandle ControllerHandle Attributes s
            in if EFI_ERROR Status then Some (Status, None, s)
               else
                 let s1 = CoreAcquireProtocolLock s;
                     Prot = CoreGetProtocolInterface UserHandle Guid s1
                 in do {
                   (Status, s2) \<leftarrow>
                     (if Prot = NULL then Some (EFI_UNSUPPORTED, s1)
                      else CoreOpenProtocol_open n env UserHandle Prot ImageHandle ControllerHandle Attributes s1);
                   let Interface =
                     (if Attributes \<noteq> EFI_OPEN_PROTOCOL_TEST_PROTOCOL
                      then if \<not> EFI_ERROR Status \<or> Status = EFI_ALREADY_STARTED
                           then Some (pi_Interface (pinterface s2 Prot))
                           else if Status = EFI_UNSUPPORTED then Some NULL else None
                      else None);
                   Some (Status, Interface, CoreReleaseProtocolLock env s2)
                 })"

definition CoreHandleProtocol ::
  "nat \<Rightarrow> hand_env \<Rightarrow> EFI_HANDLE \<Rightarrow> EFI_GUID option \<Rightarrow> bool \<Rightarrow> hand_state \<Rightarrow>
     (EFI_STATUS \<times> u64 option \<times> hand_state) option" where
  "CoreHandleProtocol n env UserHandle Protocol InterfacePtr s =
     CoreOpenProtocol n env UserHandle Protocol InterfacePtr (gDxeCoreImageHandle env) NULL
       EFI_OPEN_PROTOCOL_BY_HANDLE_PROTOCOL s"

definition CoreCloseProtocol ::
  "hand_env \<Rightarrow> EFI_HANDLE \<Rightarrow> EFI_GUID option \<Rightarrow> EFI_HANDLE \<Rightarrow> EFI_HANDLE \<Rightarrow> hand_state \<Rightarrow> EFI_STATUS \<times> hand_state" where
  "CoreCloseProtocol env UserHandle Protocol AgentHandle ControllerHandle s =
     (if EFI_ERROR (CoreValidateHandle UserHandle s) then (CoreValidateHandle UserHandle s, s)
      else if EFI_ERROR (CoreValidateHandle AgentHandle s) then (CoreValidateHandle AgentHandle s, s)
      else if ControllerHandle \<noteq> NULL \<and> EFI_ERROR (CoreValidateHandle ControllerHandle s)
      then (CoreValidateHandle ControllerHandle s, s)
      else case Protocol of
        None \<Rightarrow> (EFI_INVALID_PARAMETER, s)
      | Some Guid \<Rightarrow>
          let s1 = CoreAcquireProtocolLock s;
              Prot = CoreGetProtocolInterface UserHandle Guid s1
          in if Prot = NULL then (EFI_NOT_FOUND, CoreReleaseProtocolLock env s1)
             else
               let OpenList = pi_OpenList (pinterface s1 Prot);
                   Kept = filter (\<lambda>d. \<not> (od_AgentHandle d = AgentHandle \<and> od_ControllerHandle d = ControllerHandle)) OpenList;
                   Removed = length OpenList - length Kept;
                   s2 = update_interface Prot (\<lambda>p. p\<lparr>pi_OpenList := Kept,
                          pi_OpenListCount := pi_OpenListCount p - of_nat Removed\<rparr>) s1
               in (if Removed > 0 then EFI_SUCCESS else EFI_NOT_FOUND, CoreReleaseProtocolLock env s2))"

text \<open>The entries of the open list as the caller gets them: agent, controller, attributes, count.\<close>

definition CoreOpenProtocolInformation ::
  "hand_env \<Rightarrow> EFI_HANDLE \<Rightarrow> EFI_GUID \<Rightarrow> hand_state \<Rightarrow>
     EFI_STATUS \<times> (EFI_HANDLE \<times> EFI_HANDLE \<times> u32 \<times> u32) list \<times> hand_state" where
  "CoreOpenProtocolInformation env UserHandle Protocol s =
     (let s1 = CoreAcquireProtocolLock s;
          Prot = CoreGetProtocolInterface UserHandle Protocol s1
      in if Prot = NULL then (EFI_NOT_FOUND, [], CoreReleaseProtocolLock env s1)
         else if env_AllocatePool env HAND_BUFFER s1 = NULL
         then (EFI_OUT_OF_RESOURCES, [], CoreReleaseProtocolLock env s1)
         else (EFI_SUCCESS,
               map (\<lambda>d. (od_AgentHandle d, od_ControllerHandle d, od_Attributes d, od_OpenCount d))
                 (pi_OpenList (pinterface s1 Prot)),
               CoreReleaseProtocolLock env s1))"

section \<open>Notification\<close>

definition CoreNotifyProtocolEntry :: "u64 \<Rightarrow> hand_state \<Rightarrow> hand_state" where
  "CoreNotifyProtocolEntry ProtEntry s =
     s\<lparr>signalled := signalled s @ map (\<lambda>ProtNotify. pn_Event (pnotify s ProtNotify)) (pe_Notify (pentry s ProtEntry))\<rparr>"

text \<open>The neighbours of a node in a ring of interfaces; \<open>None\<close> is the head.\<close>

definition nodes_after :: "u64 option \<Rightarrow> u64 list \<Rightarrow> u64 list" where
  "nodes_after Position xs = (case Position of None \<Rightarrow> xs | Some a \<Rightarrow> tl (dropWhile (\<lambda>x. x \<noteq> a) xs))"

definition node_before :: "u64 \<Rightarrow> u64 list \<Rightarrow> u64 option" where
  "node_before a xs = (case rev (takeWhile (\<lambda>x. x \<noteq> a) xs) of [] \<Rightarrow> None | x # _ \<Rightarrow> Some x)"

definition CoreRemoveInterfaceFromProtocol ::
  "hand_env \<Rightarrow> u64 \<Rightarrow> EFI_GUID \<Rightarrow> u64 \<Rightarrow> hand_state \<Rightarrow> u64 \<times> hand_state" where
  "CoreRemoveInterfaceFromProtocol env Handle Protocol Interface s =
     (let Prot = CoreFindProtocolInterface env Handle Protocol Interface s
      in if Prot = NULL then (NULL, s)
         else
           let ProtEntry = pi_Protocol (pinterface s Prot);
               before = node_before Prot (pe_Protocols (pentry s ProtEntry));
               s1 = fold (\<lambda>ProtNotify s. if pn_Position (pnotify s ProtNotify) = Some Prot
                            then update_notify ProtNotify (\<lambda>x. x\<lparr>pn_Position := before\<rparr>) s else s)
                      (pe_Notify (pentry s ProtEntry)) s
           in (Prot, update_entry ProtEntry (\<lambda>x. x\<lparr>pe_Protocols := remove1 Prot (pe_Protocols x)\<rparr>) s1))"

definition CoreRegisterProtocolNotify ::
  "hand_env \<Rightarrow> EFI_GUID option \<Rightarrow> EFI_EVENT \<Rightarrow> bool \<Rightarrow> hand_state \<Rightarrow> EFI_STATUS \<times> u64 option \<times> hand_state" where
  "CoreRegisterProtocolNotify env Protocol Event RegistrationPtr s =
     (case Protocol of
        None \<Rightarrow> (EFI_INVALID_PARAMETER, None, s)
      | Some Guid \<Rightarrow>
          if Event = NULL \<or> \<not> RegistrationPtr then (EFI_INVALID_PARAMETER, None, s)
          else
            let (ProtEntry, s1) = CoreFindProtocolEntry env Guid True (CoreAcquireProtocolLock s);
                ProtNotify = (if ProtEntry \<noteq> NULL then env_AllocatePool env HAND_NOTIFY s1 else NULL);
                s2 = (if ProtNotify \<noteq> NULL
                      then update_entry ProtEntry (\<lambda>x. x\<lparr>pe_Notify := pe_Notify x @ [ProtNotify]\<rparr>)
                        (update_notify ProtNotify (\<lambda>_. \<lparr>pn_Signature = PROTOCOL_NOTIFY_SIGNATURE,
                             pn_Protocol = ProtEntry, pn_Event = Event, pn_Position = None\<rparr>)
                           (s1\<lparr>notify_flagged := notify_flagged s1 @ [Event]\<rparr>))
                      else s1);
                s3 = CoreReleaseProtocolLock env s2
            in if ProtNotify \<noteq> NULL then (EFI_SUCCESS, Some ProtNotify, s3) else (EFI_OUT_OF_RESOURCES, None, s3))"

text \<open>
  Removing the first registration of an event, and all of them: the loop ends because every round
  takes a registration away.
\<close>

definition CoreUnregisterProtocolNotifyEvent :: "hand_env \<Rightarrow> EFI_EVENT \<Rightarrow> hand_state \<Rightarrow> EFI_STATUS \<times> hand_state" where
  "CoreUnregisterProtocolNotifyEvent env Event s =
     (let s1 = CoreAcquireProtocolLock s;
          matches = (\<lambda>ProtNotify. pn_Event (pnotify s1 ProtNotify) = Event)
      in case find (\<lambda>ProtEntry. \<exists>ProtNotify \<in> set (pe_Notify (pentry s1 ProtEntry)). matches ProtNotify) (mProtocolDatabase s1) of
           None \<Rightarrow> (EFI_NOT_FOUND, CoreReleaseProtocolLock env s1)
         | Some ProtEntry \<Rightarrow>
             (EFI_SUCCESS, CoreReleaseProtocolLock env
                (update_entry ProtEntry (\<lambda>x. x\<lparr>pe_Notify := remove1 (find_address matches (pe_Notify x)) (pe_Notify x)\<rparr>) s1)))"

fun CoreUnregisterProtocolNotify :: "nat \<Rightarrow> hand_env \<Rightarrow> EFI_EVENT \<Rightarrow> hand_state \<Rightarrow> (EFI_STATUS \<times> hand_state) option" where
  "CoreUnregisterProtocolNotify 0 env Event s = None"
| "CoreUnregisterProtocolNotify (Suc n) env Event s =
     (let (Status, s1) = CoreUnregisterProtocolNotifyEvent env Event s
      in if EFI_ERROR Status then Some (EFI_SUCCESS, s1) else CoreUnregisterProtocolNotify n env Event s1)"

section \<open>Installing and uninstalling protocols\<close>

text \<open>
  \<open>UserHandle\<close>: \<open>None\<close> is a NULL pointer, else the handle pointed to; the second component of the
  result is the handle afterwards.  \<open>CoreInstallProtocolInterface_link\<close> is the part from the
  allocation of the interface on, for the protocol entry \<open>ProtEntry\<close>.
\<close>

definition CoreInstallProtocolInterface_link ::
  "hand_env \<Rightarrow> u64 \<Rightarrow> EFI_HANDLE \<Rightarrow> u64 \<Rightarrow> bool \<Rightarrow> hand_state \<Rightarrow> EFI_STATUS \<times> EFI_HANDLE \<times> hand_state" where
  "CoreInstallProtocolInterface_link env ProtEntry UserHandle Interface Notify s =
     (let Prot = env_AllocatePool env HAND_INTERFACE s
      in if Prot = NULL then (EFI_OUT_OF_RESOURCES, UserHandle, s)
         else
           let NewHandle = env_AllocatePool env HAND_HANDLE s
           in if UserHandle = NULL \<and> NewHandle = NULL then (EFI_OUT_OF_RESOURCES, UserHandle, s)
              else if UserHandle \<noteq> NULL \<and> EFI_ERROR (CoreValidateHandle UserHandle s)
              then (CoreValidateHandle UserHandle s, UserHandle, s)
              else
                let Handle = (if UserHandle = NULL then NewHandle else UserHandle);
                    s1 = (if UserHandle = NULL
                          then let Key = gHandleDatabaseKey s + 1
                            in update_handle Handle (\<lambda>_. \<lparr>ih_Signature = EFI_HANDLE_SIGNATURE, ih_Protocols = [],
                                   ih_LocateRequest = 0, ih_Key = Key\<rparr>)
                                 (s\<lparr>gHandleDatabaseKey := Key, gHandleList := gHandleList s @ [Handle]\<rparr>)
                          else s);
                    s2 = update_interface Prot (\<lambda>_. \<lparr>pi_Signature = PROTOCOL_INTERFACE_SIGNATURE, pi_Handle = Handle,
                           pi_Protocol = ProtEntry, pi_Interface = Interface, pi_OpenList = [], pi_OpenListCount = 0\<rparr>) s1;
                    s3 = update_handle Handle (\<lambda>x. x\<lparr>ih_Protocols := Prot # ih_Protocols x\<rparr>) s2;
                    s4 = update_entry ProtEntry (\<lambda>x. x\<lparr>pe_Protocols := pe_Protocols x @ [Prot]\<rparr>) s3;
                    s5 = (if Notify then CoreNotifyProtocolEntry ProtEntry s4 else s4)
                in (EFI_SUCCESS, Handle, s5))"

text \<open>The part under the lock; \<open>Status\<close> is the status so far.\<close>

definition CoreInstallProtocolInterface_insert ::
  "hand_env \<Rightarrow> EFI_STATUS \<Rightarrow> EFI_HANDLE \<Rightarrow> EFI_GUID \<Rightarrow> u64 \<Rightarrow> bool \<Rightarrow> hand_state \<Rightarrow> EFI_STATUS \<times> EFI_HANDLE \<times> hand_state" where
  "CoreInstallProtocolInterface_insert env Status UserHandle Protocol Interface Notify s =
     (let (ProtEntry, s1) = CoreFindProtocolEntry env Protocol True (CoreAcquireProtocolLock s);
          (Status, Handle, s2) =
            (if ProtEntry = NULL then (Status, UserHandle, s1)
             else CoreInstallProtocolInterface_link env ProtEntry UserHandle Interface Notify s1)
      in (Status, if EFI_ERROR Status then UserHandle else Handle, CoreReleaseProtocolLock env s2))"

definition CoreInstallProtocolInterfaceNotify ::
  "nat \<Rightarrow> hand_env \<Rightarrow> EFI_HANDLE option \<Rightarrow> EFI_GUID option \<Rightarrow> u32 \<Rightarrow> u64 \<Rightarrow> bool \<Rightarrow> hand_state \<Rightarrow>
     (EFI_STATUS \<times> EFI_HANDLE option \<times> hand_state) option" where
  "CoreInstallProtocolInterfaceNotify n env UserHandle Protocol InterfaceType Interface Notify s =
     (case (UserHandle, Protocol) of
        (Some Handle, Some Guid) \<Rightarrow>
          if InterfaceType \<noteq> EFI_NATIVE_INTERFACE then Some (EFI_INVALID_PARAMETER, UserHandle, s)
          else do {
            (Status, _, s1) \<leftarrow>
              (if Handle \<noteq> NULL then CoreHandleProtocol n env Handle (Some Guid) True s
               else Some (EFI_OUT_OF_RESOURCES, None, s));
            if Handle \<noteq> NULL \<and> \<not> EFI_ERROR Status then Some (EFI_INVALID_PARAMETER, UserHandle, s1)
            else
              let (Status, Handle, s2) = CoreInstallProtocolInterface_insert env Status Handle Guid Interface Notify s1
              in Some (Status, Some Handle, s2)
          }
      | _ \<Rightarrow> Some (EFI_INVALID_PARAMETER, UserHandle, s))"

definition CoreInstallProtocolInterface ::
  "nat \<Rightarrow> hand_env \<Rightarrow> EFI_HANDLE option \<Rightarrow> EFI_GUID option \<Rightarrow> u32 \<Rightarrow> u64 \<Rightarrow> hand_state \<Rightarrow>
     (EFI_STATUS \<times> EFI_HANDLE option \<times> hand_state) option" where
  "CoreInstallProtocolInterface n env UserHandle Protocol InterfaceType Interface s =
     CoreInstallProtocolInterfaceNotify n env UserHandle Protocol InterfaceType Interface True s"

text \<open>Disconnecting the drivers that use an interface, and the other agents.\<close>

fun CoreDisconnectControllers_loop ::
  "nat \<Rightarrow> hand_env \<Rightarrow> EFI_HANDLE \<Rightarrow> u64 \<Rightarrow> hand_state \<Rightarrow> (EFI_STATUS \<times> hand_state) option" where
  "CoreDisconnectControllers_loop 0 env UserHandle Prot s = None"
| "CoreDisconnectControllers_loop (Suc n) env UserHandle Prot s =
     (case find (\<lambda>OpenData. od_Attributes OpenData AND EFI_OPEN_PROTOCOL_BY_DRIVER \<noteq> 0) (pi_OpenList (pinterface s Prot)) of
        None \<Rightarrow> Some (EFI_SUCCESS, s)
      | Some OpenData \<Rightarrow>
          (let (Status, s1) = env_DisconnectController env UserHandle (od_AgentHandle OpenData) (CoreReleaseProtocolLock env s);
               s2 = CoreAcquireProtocolLock s1
           in if EFI_ERROR Status then Some (Status, s2) else CoreDisconnectControllers_loop n env UserHandle Prot s2))"

definition CoreDisconnectControllersUsingProtocolInterface ::
  "nat \<Rightarrow> hand_env \<Rightarrow> EFI_HANDLE \<Rightarrow> u64 \<Rightarrow> hand_state \<Rightarrow> (EFI_STATUS \<times> hand_state) option" where
  "CoreDisconnectControllersUsingProtocolInterface n env UserHandle Prot s =
     do {
       (Status, s1) \<leftarrow> CoreDisconnectControllers_loop n env UserHandle Prot s;
       let s2 = (if EFI_ERROR Status then s1
         else update_interface Prot (\<lambda>p.
           let Kept = filter (\<lambda>d. od_Attributes d AND (EFI_OPEN_PROTOCOL_BY_HANDLE_PROTOCOL OR
                        EFI_OPEN_PROTOCOL_GET_PROTOCOL OR EFI_OPEN_PROTOCOL_TEST_PROTOCOL) = 0) (pi_OpenList p)
           in p\<lparr>pi_OpenList := Kept,
                pi_OpenListCount := pi_OpenListCount p - of_nat (length (pi_OpenList p) - length Kept)\<rparr>) s1);
       Some (if EFI_ERROR Status \<or> pi_OpenListCount (pinterface s2 Prot) > 0
             then (EFI_ACCESS_DENIED,
                   CoreAcquireProtocolLock (env_ConnectController env UserHandle (CoreReleaseProtocolLock env s2)))
             else (Status, s2))
     }"

text \<open>The part of \<^verbatim>\<open>CoreUninstallProtocolInterface\<close> after the drivers are disconnected.\<close>

definition CoreUninstallProtocolInterface_remove ::
  "hand_env \<Rightarrow> EFI_HANDLE \<Rightarrow> EFI_GUID \<Rightarrow> u64 \<Rightarrow> hand_state \<Rightarrow> EFI_STATUS \<times> hand_state" where
  "CoreUninstallProtocolInterface_remove env Handle Protocol Interface s =
     (let (Prot, s1) = CoreRemoveInterfaceFromProtocol env Handle Protocol Interface s;
          s2 = (if Prot \<noteq> NULL
                then let Key = gHandleDatabaseKey s1 + 1
                  in update_interface Prot (\<lambda>x. x\<lparr>pi_Signature := 0\<rparr>)
                       (update_handle Handle (\<lambda>x. x\<lparr>ih_Key := Key, ih_Protocols := remove1 Prot (ih_Protocols x)\<rparr>)
                          (s1\<lparr>gHandleDatabaseKey := Key\<rparr>))
                else s1);
          s3 = (if ih_Protocols (ihandle s2 Handle) = []
                then update_handle Handle (\<lambda>x. x\<lparr>ih_Signature := 0\<rparr>)
                       (s2\<lparr>gHandleList := remove1 Handle (gHandleList s2)\<rparr>)
                else s2)
      in (if Prot \<noteq> NULL then EFI_SUCCESS else EFI_NOT_FOUND, s3))"

definition CoreUninstallProtocolInterface ::
  "nat \<Rightarrow> hand_env \<Rightarrow> EFI_HANDLE \<Rightarrow> EFI_GUID option \<Rightarrow> u64 \<Rightarrow> hand_state \<Rightarrow> (EFI_STATUS \<times> hand_state) option" where
  "CoreUninstallProtocolInterface n env UserHandle Protocol Interface s =
     (case Protocol of
        None \<Rightarrow> Some (EFI_INVALID_PARAMETER, s)
      | Some Guid \<Rightarrow>
          if EFI_ERROR (CoreValidateHandle UserHandle s) then Some (CoreValidateHandle UserHandle s, s)
          else
            let s1 = CoreAcquireProtocolLock s;
                Prot = CoreFindProtocolInterface env UserHandle Guid Interface s1
            in if Prot = NULL then Some (EFI_NOT_FOUND, CoreReleaseProtocolLock env s1)
               else do {
                 (Status, s2) \<leftarrow> CoreDisconnectControllersUsingProtocolInterface n env UserHandle Prot s1;
                 let (Status, s3) =
                   (if EFI_ERROR Status then (Status, s2)
                    else CoreUninstallProtocolInterface_remove env UserHandle Guid Interface s2);
                 Some (Status, CoreReleaseProtocolLock env s3)
               })"

definition CoreReinstallProtocolInterface ::
  "nat \<Rightarrow> hand_env \<Rightarrow> EFI_HANDLE \<Rightarrow> EFI_GUID option \<Rightarrow> u64 \<Rightarrow> u64 \<Rightarrow> hand_state \<Rightarrow> (EFI_STATUS \<times> hand_state) option" where
  "CoreReinstallProtocolInterface n env UserHandle Protocol OldInterface NewInterface s =
     (if EFI_ERROR (CoreValidateHandle UserHandle s) then Some (CoreValidateHandle UserHandle s, s)
      else case Protocol of
        None \<Rightarrow> Some (EFI_INVALID_PARAMETER, s)
      | Some Guid \<Rightarrow>
          let s1 = CoreAcquireProtocolLock s;
              Prot = CoreFindProtocolInterface env UserHandle Guid OldInterface s1
          in if Prot = NULL then Some (EFI_NOT_FOUND, CoreReleaseProtocolLock env s1)
             else do {
               (Status, s2) \<leftarrow> CoreDisconnectControllersUsingProtocolInterface n env UserHandle Prot s1;
               if EFI_ERROR Status then Some (Status, CoreReleaseProtocolLock env s2)
               else
                 let (Prot, s3) = CoreRemoveInterfaceFromProtocol env UserHandle Guid OldInterface s2
                 in if Prot = NULL then Some (EFI_NOT_FOUND, CoreReleaseProtocolLock env s3)
                    else
                      let ProtEntry = pi_Protocol (pinterface s3 Prot);
                          Key = gHandleDatabaseKey s3 + 1;
                          s4 = update_entry ProtEntry (\<lambda>x. x\<lparr>pe_Protocols := pe_Protocols x @ [Prot]\<rparr>)
                                 (update_interface Prot (\<lambda>x. x\<lparr>pi_Interface := NewInterface\<rparr>) s3);
                          s5 = update_handle UserHandle (\<lambda>x. x\<lparr>ih_Key := Key\<rparr>) (s4\<lparr>gHandleDatabaseKey := Key\<rparr>);
                          s6 = CoreAcquireProtocolLock (env_ConnectController env UserHandle (CoreReleaseProtocolLock env s5))
                      in Some (EFI_SUCCESS, CoreReleaseProtocolLock env (CoreNotifyProtocolEntry ProtEntry s6))
             })"

end
