(* ===== verification/HandleLocate.thy ===== *)
theory HandleLocate
  imports HandleDb
begin

text \<open>
  Searching the handle database (\<^verbatim>\<open>Hand/Locate.c\<close>) and the services on several protocols at once
  of \<^verbatim>\<open>Hand/Handle.c\<close>.

  A \<^verbatim>\<open>LOCATE_POSITION\<close> points into a ring; here it is the list of the nodes behind the position.
  The rings do not change while a search holds the lock.  \<^verbatim>\<open>CoreLocateHandle\<close> writes the handles
  one behind the other to the start of the buffer; the model returns the list of them.
\<close>

section \<open>The iterators\<close>

record LOCATE_POSITION =
  lp_SearchKey :: u64
  lp_Position :: "u64 list"

type_synonym CORE_GET_NEXT = "LOCATE_POSITION \<Rightarrow> hand_state \<Rightarrow> EFI_HANDLE \<times> u64 \<times> LOCATE_POSITION \<times> hand_state"

definition CoreGetNextLocateAllHandles :: CORE_GET_NEXT where
  "CoreGetNextLocateAllHandles Position s =
     (case lp_Position Position of
        [] \<Rightarrow> (NULL, NULL, Position, s)
      | Handle # rest \<Rightarrow> (Handle, NULL, Position\<lparr>lp_Position := rest\<rparr>, s))"

text \<open>The node behind the position of a registration; \<open>None\<close> is the head of the ring.\<close>

definition registration_next :: "u64 \<Rightarrow> hand_state \<Rightarrow> u64 option" where
  "registration_next ProtNotify s =
     (case nodes_after (pn_Position (pnotify s ProtNotify)) (pe_Protocols (pentry s (pn_Protocol (pnotify s ProtNotify)))) of
        [] \<Rightarrow> None | Prot # _ \<Rightarrow> Some Prot)"

definition CoreGetNextLocateByRegisterNotify :: CORE_GET_NEXT where
  "CoreGetNextLocateByRegisterNotify Position s =
     (let ProtNotify = lp_SearchKey Position
      in if ProtNotify \<noteq> NULL
         then case registration_next ProtNotify s of
                None \<Rightarrow> (NULL, NULL, Position\<lparr>lp_SearchKey := NULL\<rparr>, s)
              | Some Prot \<Rightarrow> (pi_Handle (pinterface s Prot), pi_Interface (pinterface s Prot), Position\<lparr>lp_SearchKey := NULL\<rparr>, s)
         else (NULL, NULL, Position, s))"

fun CoreGetNextLocateByProtocol_loop :: "u64 list \<Rightarrow> u64 \<Rightarrow> hand_state \<Rightarrow> EFI_HANDLE \<times> u64 \<times> u64 list \<times> hand_state" where
  "CoreGetNextLocateByProtocol_loop [] Interface s = (NULL, Interface, [], s)"
| "CoreGetNextLocateByProtocol_loop (Prot # rest) Interface s =
     (let Handle = pi_Handle (pinterface s Prot)
      in if ih_LocateRequest (ihandle s Handle) \<noteq> mEfiLocateHandleRequest s
         then (Handle, pi_Interface (pinterface s Prot), rest,
               update_handle Handle (\<lambda>h. h\<lparr>ih_LocateRequest := mEfiLocateHandleRequest s\<rparr>) s)
         else CoreGetNextLocateByProtocol_loop rest (pi_Interface (pinterface s Prot)) s)"

definition CoreGetNextLocateByProtocol :: CORE_GET_NEXT where
  "CoreGetNextLocateByProtocol Position s =
     (let (Handle, Interface, rest, s1) = CoreGetNextLocateByProtocol_loop (lp_Position Position) NULL s
      in (Handle, Interface, Position\<lparr>lp_Position := rest\<rparr>, s1))"

section \<open>Locating handles\<close>

text \<open>
  The enumeration: the size of the result grows by the size of a pointer (8) for every handle, a
  handle that still fits is written.
\<close>

partial_function (option) CoreLocateHandle_loop ::
  "CORE_GET_NEXT \<Rightarrow> UINTN \<Rightarrow> LOCATE_POSITION \<Rightarrow> UINTN \<Rightarrow> EFI_HANDLE list \<Rightarrow> hand_state \<Rightarrow>
     (UINTN \<times> EFI_HANDLE list \<times> hand_state) option" where
  [code]: "CoreLocateHandle_loop GetNext BufferSize Position ResultSize Buffer s =
     (let (Handle, Interface, Position1, s1) = GetNext Position s
      in if Handle = NULL then Some (ResultSize, Buffer, s1)
         else CoreLocateHandle_loop GetNext BufferSize Position1 (ResultSize + 8)
                (if ResultSize + 8 \<le> BufferSize then Buffer @ [Handle] else Buffer) s1)"

text \<open>The choice of the iterator and the position to start from.\<close>

definition CoreLocateHandle_start ::
  "hand_env \<Rightarrow> u32 \<Rightarrow> EFI_GUID option \<Rightarrow> u64 \<Rightarrow> hand_state \<Rightarrow> EFI_STATUS + CORE_GET_NEXT \<times> LOCATE_POSITION" where
  "CoreLocateHandle_start env SearchType Protocol SearchKey s =
     (if SearchType = AllHandles
      then Inr (CoreGetNextLocateAllHandles, \<lparr>lp_SearchKey = SearchKey, lp_Position = gHandleList s\<rparr>)
      else if SearchType = ByRegisterNotify
      then if SearchKey = NULL then Inl EFI_INVALID_PARAMETER
           else Inr (CoreGetNextLocateByRegisterNotify, \<lparr>lp_SearchKey = SearchKey, lp_Position = gHandleList s\<rparr>)
      else if SearchType = ByProtocol
      then case Protocol of
             None \<Rightarrow> Inl EFI_INVALID_PARAMETER
           | Some Guid \<Rightarrow>
               let ProtEntry = fst (CoreFindProtocolEntry env Guid False s)
               in if ProtEntry = NULL then Inl EFI_NOT_FOUND
                  else Inr (CoreGetNextLocateByProtocol,
                            \<lparr>lp_SearchKey = SearchKey, lp_Position = pe_Protocols (pentry s ProtEntry)\<rparr>)
      else Inl EFI_INVALID_PARAMETER)"

text \<open>
  \<open>BufferSize\<close>: \<open>None\<close> is a NULL pointer; \<open>BufferPtr\<close>: the buffer is not NULL.  The result is the
  status, the buffer size afterwards, the handles written and the state.
\<close>

definition CoreLocateHandle ::
  "hand_env \<Rightarrow> u32 \<Rightarrow> EFI_GUID option \<Rightarrow> u64 \<Rightarrow> UINTN option \<Rightarrow> bool \<Rightarrow> hand_state \<Rightarrow>
     (EFI_STATUS \<times> UINTN option \<times> EFI_HANDLE list \<times> hand_state) option" where
  "CoreLocateHandle env SearchType Protocol SearchKey BufferSizePtr BufferPtr s =
     (case BufferSizePtr of
        None \<Rightarrow> Some (EFI_INVALID_PARAMETER, None, [], s)
      | Some BufferSize \<Rightarrow>
          if BufferSize > 0 \<and> \<not> BufferPtr then Some (EFI_INVALID_PARAMETER, BufferSizePtr, [], s)
          else
            let s1 = CoreAcquireProtocolLock s
            in case CoreLocateHandle_start env SearchType Protocol SearchKey s1 of
                 Inl Status \<Rightarrow> Some (Status, BufferSizePtr, [], CoreReleaseProtocolLock env s1)
               | Inr (GetNext, Position) \<Rightarrow>
                   do {
                     (ResultSize, Buffer, s2) \<leftarrow> CoreLocateHandle_loop GetNext BufferSize Position 0 []
                       (s1\<lparr>mEfiLocateHandleRequest := mEfiLocateHandleRequest s1 + 1\<rparr>);
                     if ResultSize = 0 then Some (EFI_NOT_FOUND, BufferSizePtr, Buffer, CoreReleaseProtocolLock env s2)
                     else
                       let Status = (if ResultSize > BufferSize then EFI_BUFFER_TOO_SMALL else EFI_SUCCESS);
                           s3 = (if SearchType = ByRegisterNotify \<and> \<not> EFI_ERROR Status
                                 then update_notify SearchKey (\<lambda>n. n\<lparr>pn_Position := registration_next SearchKey s2\<rparr>) s2
                                 else s2)
                       in Some (Status, Some ResultSize, Buffer, CoreReleaseProtocolLock env s3)
                   })"

text \<open>\<open>InterfacePtr\<close>: the out parameter is not NULL; the second component is what is stored there.\<close>

definition CoreLocateProtocol ::
  "hand_env \<Rightarrow> EFI_GUID option \<Rightarrow> u64 \<Rightarrow> bool \<Rightarrow> hand_state \<Rightarrow> EFI_STATUS \<times> u64 option \<times> hand_state" where
  "CoreLocateProtocol env Protocol Registration InterfacePtr s =
     (case Protocol of
        None \<Rightarrow> (EFI_INVALID_PARAMETER, None, s)
      | Some Guid \<Rightarrow>
          if \<not> InterfacePtr then (EFI_INVALID_PARAMETER, None, s)
          else
            let (Status, s1) = CoreAcquireLockOrFail s
            in if EFI_ERROR Status then (EFI_NOT_FOUND, Some NULL, s1)
               else
                 let s2 = s1\<lparr>mEfiLocateHandleRequest := mEfiLocateHandleRequest s1 + 1\<rparr>
                 in if Registration = NULL
                    then
                      let ProtEntry = fst (CoreFindProtocolEntry env Guid False s2)
                      in if ProtEntry = NULL then (EFI_NOT_FOUND, Some NULL, CoreReleaseProtocolLock env s2)
                         else
                           let (Handle, Interface, _, s3) = CoreGetNextLocateByProtocol
                                 \<lparr>lp_SearchKey = NULL, lp_Position = pe_Protocols (pentry s2 ProtEntry)\<rparr> s2
                           in (if Handle = NULL then EFI_NOT_FOUND else EFI_SUCCESS, Some Interface, CoreReleaseProtocolLock env s3)
                    else
                      let (Handle, Interface, _, s3) = CoreGetNextLocateByRegisterNotify
                            \<lparr>lp_SearchKey = Registration, lp_Position = gHandleList s2\<rparr> s2
                      in if Handle = NULL then (EFI_NOT_FOUND, Some Interface, CoreReleaseProtocolLock env s3)
                         else (EFI_SUCCESS, Some Interface, CoreReleaseProtocolLock env
                                (update_notify Registration (\<lambda>n. n\<lparr>pn_Position := registration_next Registration s3\<rparr>) s3)))"

text \<open>
  \<open>OutPtrs\<close>: both out parameters are not NULL.  The result is the status, the number of handles,
  the handles in the buffer and the state.
\<close>

definition CoreLocateHandleBuffer ::
  "hand_env \<Rightarrow> u32 \<Rightarrow> EFI_GUID option \<Rightarrow> u64 \<Rightarrow> bool \<Rightarrow> hand_state \<Rightarrow>
     (EFI_STATUS \<times> UINTN \<times> EFI_HANDLE list \<times> hand_state) option" where
  "CoreLocateHandleBuffer env SearchType Protocol SearchKey OutPtrs s =
     (if \<not> OutPtrs then Some (EFI_INVALID_PARAMETER, 0, [], s)
      else do {
        (Status, BufferSize, _, s1) \<leftarrow> CoreLocateHandle env SearchType Protocol SearchKey (Some 0) False s;
        if EFI_ERROR Status \<and> Status \<noteq> EFI_BUFFER_TOO_SMALL
        then Some (if Status \<noteq> EFI_INVALID_PARAMETER then EFI_NOT_FOUND else Status, 0, [], s1)
        else if env_AllocatePool env HAND_BUFFER s1 = NULL then Some (EFI_OUT_OF_RESOURCES, 0, [], s1)
        else do {
          (Status, BufferSize, Buffer, s2) \<leftarrow> CoreLocateHandle env SearchType Protocol SearchKey BufferSize True s1;
          Some (Status, if EFI_ERROR Status then 0 else the BufferSize div 8, Buffer, s2)
        }
      })"

section \<open>Locating a device path\<close>

text \<open>
  The handle whose device path is the longest prefix of the source path.  Sizes are signed.
\<close>

fun CoreLocateDevicePath_loop ::
  "nat \<Rightarrow> hand_env \<Rightarrow> u64 \<Rightarrow> UINTN \<Rightarrow> EFI_HANDLE list \<Rightarrow> UINTN \<Rightarrow> EFI_HANDLE \<Rightarrow> hand_state \<Rightarrow>
     (UINTN \<times> EFI_HANDLE \<times> hand_state) option" where
  "CoreLocateDevicePath_loop n env SourcePath SourceSize [] BestMatch BestDevice s = Some (BestMatch, BestDevice, s)"
| "CoreLocateDevicePath_loop n env SourcePath SourceSize (Handle # Handles) BestMatch BestDevice s =
     do {
       (Status, Interface, s1) \<leftarrow> CoreHandleProtocol n env Handle (Some (gEfiDevicePathProtocolGuid env)) True s;
       if EFI_ERROR Status
       then CoreLocateDevicePath_loop n env SourcePath SourceSize Handles BestMatch BestDevice s1
       else do {
         Size1 \<leftarrow> GetDevicePathSize (env_DevicePath env) (env_memory env) (the Interface);
         let Size = Size1 - 4;
         if sint Size \<le> sint SourceSize \<and> CompareMem (env_memory env) SourcePath (the Interface) Size = 0 \<and> sint Size > sint BestMatch
         then CoreLocateDevicePath_loop n env SourcePath SourceSize Handles Size Handle s1
         else CoreLocateDevicePath_loop n env SourcePath SourceSize Handles BestMatch BestDevice s1
       }
     }"

text \<open>
  \<open>DevicePathPtr\<close>: \<open>None\<close> is a NULL pointer; \<open>DevicePtr\<close>: \<open>Device\<close> is not NULL.  The result is the
  status, the device (when it is stored), the device path afterwards and the state.
\<close>

definition CoreLocateDevicePath ::
  "nat \<Rightarrow> hand_env \<Rightarrow> EFI_GUID option \<Rightarrow> u64 option \<Rightarrow> bool \<Rightarrow> hand_state \<Rightarrow>
     (EFI_STATUS \<times> EFI_HANDLE option \<times> u64 option \<times> hand_state) option" where
  "CoreLocateDevicePath n env Protocol DevicePathPtr DevicePtr s =
     (if Protocol = None \<or> DevicePathPtr = None \<or> DevicePathPtr = Some NULL
      then Some (EFI_INVALID_PARAMETER, None, DevicePathPtr, s)
      else
        let SourcePath = the DevicePathPtr
        in do {
          TmpDevicePath \<leftarrow> DevicePath_walk (\<lambda>p. IsDevicePathEnd (env_memory env) p \<or> IsDevicePathEndInstance (env_memory env) p)
                            (env_memory env) SourcePath;
          let SourceSize = TmpDevicePath - SourcePath;
          (Status, HandleCount, Handles, s1) \<leftarrow> CoreLocateHandleBuffer env ByProtocol Protocol NULL True s;
          if EFI_ERROR Status \<or> HandleCount = 0 then Some (EFI_NOT_FOUND, None, DevicePathPtr, s1)
          else do {
            (BestMatch, BestDevice, s2) \<leftarrow> CoreLocateDevicePath_loop n env SourcePath SourceSize
              (take (unat HandleCount) Handles) (- 1) NULL s1;
            if BestMatch = - 1 then Some (EFI_NOT_FOUND, None, DevicePathPtr, s2)
            else if \<not> DevicePtr then Some (EFI_INVALID_PARAMETER, None, DevicePathPtr, s2)
            else Some (EFI_SUCCESS, Some BestDevice, Some (SourcePath + BestMatch), s2)
          }
        })"

section \<open>Several protocols at once\<close>

text \<open>
  The variable arguments are a list of pairs, without the NULL at its end.  The loop returns the
  status, the handle, the index it ends with and the state.
\<close>

fun CoreInstallMultipleProtocolInterfaces_loop ::
  "nat \<Rightarrow> hand_env \<Rightarrow> EFI_HANDLE \<Rightarrow> nat \<Rightarrow> EFI_STATUS \<Rightarrow> (EFI_GUID \<times> u64) list \<Rightarrow> hand_state \<Rightarrow>
     (EFI_STATUS \<times> EFI_HANDLE \<times> nat \<times> hand_state) option" where
  "CoreInstallMultipleProtocolInterfaces_loop n env Handle Index Status [] s = Some (Status, Handle, Index, s)"
| "CoreInstallMultipleProtocolInterfaces_loop n env Handle Index Status ((Protocol, Interface) # Args) s =
     do {
       (Present, s1) \<leftarrow>
         (if Protocol = gEfiDevicePathProtocolGuid env
          then do {
            (Status, Device, DevicePath, s1) \<leftarrow> CoreLocateDevicePath n env (Some Protocol) (Some Interface) True s;
            Some (\<not> EFI_ERROR Status \<and> Device \<noteq> None \<and> Device \<noteq> Some NULL \<and> IsDevicePathEnd (env_memory env) (the DevicePath), s1)
          }
          else Some (False, s));
       if Present then Some (EFI_ALREADY_STARTED, Handle, Index + 1, s1)
       else do {
         (Status, Handle1, s2) \<leftarrow> CoreInstallProtocolInterface n env (Some Handle) (Some Protocol) EFI_NATIVE_INTERFACE Interface s1;
         if EFI_ERROR Status then Some (Status, the Handle1, Index + 1, s2)
         else CoreInstallMultipleProtocolInterfaces_loop n env (the Handle1) (Index + 1) Status Args s2
       }
     }"

text \<open>The roll back: uninstall from a handle, the results are ignored.\<close>

fun CoreInstallMultipleProtocolInterfaces_undo ::
  "nat \<Rightarrow> hand_env \<Rightarrow> EFI_HANDLE \<Rightarrow> (EFI_GUID \<times> u64) list \<Rightarrow> hand_state \<Rightarrow> hand_state option" where
  "CoreInstallMultipleProtocolInterfaces_undo n env Handle [] s = Some s"
| "CoreInstallMultipleProtocolInterfaces_undo n env Handle ((Protocol, Interface) # Args) s =
     do {
       (_, s1) \<leftarrow> CoreUninstallProtocolInterface n env Handle (Some Protocol) Interface s;
       CoreInstallMultipleProtocolInterfaces_undo n env Handle Args s1
     }"

definition CoreInstallMultipleProtocolInterfaces ::
  "nat \<Rightarrow> hand_env \<Rightarrow> EFI_HANDLE option \<Rightarrow> (EFI_GUID \<times> u64) list \<Rightarrow> hand_state \<Rightarrow>
     (EFI_STATUS \<times> EFI_HANDLE option \<times> hand_state) option" where
  "CoreInstallMultipleProtocolInterfaces n env HandlePtr Args s =
     (case HandlePtr of
        None \<Rightarrow> Some (EFI_INVALID_PARAMETER, None, s)
      | Some OldHandle \<Rightarrow>
          let OldTpl = hand_Tpl s
          in do {
            (Status, Handle, Index, s1) \<leftarrow> CoreInstallMultipleProtocolInterfaces_loop n env OldHandle 0 EFI_SUCCESS Args
              (s\<lparr>hand_Tpl := TPL_NOTIFY\<rparr>);
            if EFI_ERROR Status
            then do {
              s2 \<leftarrow> CoreInstallMultipleProtocolInterfaces_undo n env Handle (take (Index - 1) Args) s1;
              Some (Status, Some OldHandle, env_RestoreTpl env OldTpl s2)
            }
            else Some (Status, Some Handle, env_RestoreTpl env OldTpl s1)
          })"

fun CoreUninstallMultipleProtocolInterfaces_loop ::
  "nat \<Rightarrow> hand_env \<Rightarrow> EFI_HANDLE \<Rightarrow> nat \<Rightarrow> EFI_STATUS \<Rightarrow> (EFI_GUID \<times> u64) list \<Rightarrow> hand_state \<Rightarrow>
     (EFI_STATUS \<times> nat \<times> hand_state) option" where
  "CoreUninstallMultipleProtocolInterfaces_loop n env Handle Index Status [] s = Some (Status, Index, s)"
| "CoreUninstallMultipleProtocolInterfaces_loop n env Handle Index Status ((Protocol, Interface) # Args) s =
     do {
       (Status, s1) \<leftarrow> CoreUninstallProtocolInterface n env Handle (Some Protocol) Interface s;
       if EFI_ERROR Status then Some (Status, Index + 1, s1)
       else CoreUninstallMultipleProtocolInterfaces_loop n env Handle (Index + 1) Status Args s1
     }"

text \<open>The roll back: the handle is the local variable, which every call may change.\<close>

fun CoreUninstallMultipleProtocolInterfaces_undo ::
  "nat \<Rightarrow> hand_env \<Rightarrow> EFI_HANDLE \<Rightarrow> (EFI_GUID \<times> u64) list \<Rightarrow> hand_state \<Rightarrow> hand_state option" where
  "CoreUninstallMultipleProtocolInterfaces_undo n env Handle [] s = Some s"
| "CoreUninstallMultipleProtocolInterfaces_undo n env Handle ((Protocol, Interface) # Args) s =
     do {
       (_, Handle1, s1) \<leftarrow> CoreInstallProtocolInterface n env (Some Handle) (Some Protocol) EFI_NATIVE_INTERFACE Interface s;
       CoreUninstallMultipleProtocolInterfaces_undo n env (the Handle1) Args s1
     }"

definition CoreUninstallMultipleProtocolInterfaces ::
  "nat \<Rightarrow> hand_env \<Rightarrow> EFI_HANDLE \<Rightarrow> (EFI_GUID \<times> u64) list \<Rightarrow> hand_state \<Rightarrow> (EFI_STATUS \<times> hand_state) option" where
  "CoreUninstallMultipleProtocolInterfaces n env Handle Args s =
     do {
       (Status, Index, s1) \<leftarrow> CoreUninstallMultipleProtocolInterfaces_loop n env Handle 0 EFI_SUCCESS Args s;
       if EFI_ERROR Status
       then do {
         s2 \<leftarrow> CoreUninstallMultipleProtocolInterfaces_undo n env Handle (take (Index - 1) Args) s1;
         Some (Status, s2)
       }
       else Some (Status, s1)
     }"

section \<open>Queries and keys\<close>

text \<open>The result is the status, the count and the protocols (\<open>None\<close>: not written) and the state.\<close>

definition CoreProtocolsPerHandle ::
  "hand_env \<Rightarrow> EFI_HANDLE \<Rightarrow> bool \<Rightarrow> bool \<Rightarrow> hand_state \<Rightarrow> EFI_STATUS \<times> (nat option \<times> EFI_GUID list option) \<times> hand_state" where
  "CoreProtocolsPerHandle env UserHandle ProtocolBufferPtr CountPtr s =
     (if EFI_ERROR (CoreValidateHandle UserHandle s) then (CoreValidateHandle UserHandle s, (None, None), s)
      else if \<not> ProtocolBufferPtr \<or> \<not> CountPtr then (EFI_INVALID_PARAMETER, (None, None), s)
      else
        let s1 = CoreAcquireProtocolLock s;
            Protocols = ih_Protocols (ihandle s1 UserHandle)
        in if Protocols = [] then (EFI_INVALID_PARAMETER, (Some 0, None), CoreReleaseProtocolLock env s1)
           else if env_AllocatePool env HAND_BUFFER s1 = NULL
           then (EFI_OUT_OF_RESOURCES, (Some 0, None), CoreReleaseProtocolLock env s1)
           else (EFI_SUCCESS,
                 (Some (length Protocols), Some (map (\<lambda>Prot. pe_ProtocolID (pentry s1 (pi_Protocol (pinterface s1 Prot)))) Protocols)),
                 CoreReleaseProtocolLock env s1))"

definition CoreGetHandleDatabaseKey :: "hand_state \<Rightarrow> u64" where
  "CoreGetHandleDatabaseKey s = gHandleDatabaseKey s"

definition CoreConnectHandlesByKey :: "hand_env \<Rightarrow> u64 \<Rightarrow> hand_state \<Rightarrow> hand_state" where
  "CoreConnectHandlesByKey env Key s =
     (let s1 = CoreAcquireProtocolLock s;
          HandleBuffer = filter (\<lambda>Handle. ih_Key (ihandle s1 Handle) > Key) (gHandleList s1);
          s2 = CoreReleaseProtocolLock env s1
      in if env_AllocatePool env HAND_BUFFER s1 = NULL then s2
         else fold (env_ConnectController env) HandleBuffer s2)"

end
