(* ===== verification/HandInv.thy ===== *)
theory HandInv
  imports HandleLocate
begin

text \<open>
  The invariant of the handle database: the lists of handles, protocol entries, interfaces and
  registrations are free of duplicates and of \<^verbatim>\<open>NULL\<close> and agree with each other.  Each change that the
  services make to the stores keeps it.
\<close>

section \<open>The invariant\<close>

definition handle_ok :: "hand_state \<Rightarrow> EFI_HANDLE \<Rightarrow> bool" where
  "handle_ok s h \<longleftrightarrow> ih_Signature (ihandle s h) = EFI_HANDLE_SIGNATURE \<and> distinct (ih_Protocols (ihandle s h)) \<and>
     (\<forall>p \<in> set (ih_Protocols (ihandle s h)). p \<noteq> NULL \<and> pi_Signature (pinterface s p) = PROTOCOL_INTERFACE_SIGNATURE \<and>
        pi_Handle (pinterface s p) = h \<and> pi_Protocol (pinterface s p) \<in> set (mProtocolDatabase s) \<and>
        p \<in> set (pe_Protocols (pentry s (pi_Protocol (pinterface s p)))) \<and>
        pi_OpenListCount (pinterface s p) = of_nat (length (pi_OpenList (pinterface s p))))"

definition entry_ok :: "hand_state \<Rightarrow> u64 \<Rightarrow> bool" where
  "entry_ok s e \<longleftrightarrow> pe_Signature (pentry s e) = PROTOCOL_ENTRY_SIGNATURE \<and>
     distinct (pe_Protocols (pentry s e)) \<and> distinct (pe_Notify (pentry s e)) \<and>
     (\<forall>p \<in> set (pe_Protocols (pentry s e)). pi_Protocol (pinterface s p) = e \<and>
        pi_Handle (pinterface s p) \<in> set (gHandleList s) \<and>
        p \<in> set (ih_Protocols (ihandle s (pi_Handle (pinterface s p))))) \<and>
     (\<forall>n \<in> set (pe_Notify (pentry s e)). n \<noteq> NULL \<and> pn_Signature (pnotify s n) = PROTOCOL_NOTIFY_SIGNATURE \<and>
        pn_Protocol (pnotify s n) = e \<and> set_option (pn_Position (pnotify s n)) \<subseteq> set (pe_Protocols (pentry s e)))"

definition hand_wf :: "hand_state \<Rightarrow> bool" where
  "hand_wf s \<longleftrightarrow> distinct (gHandleList s) \<and> NULL \<notin> set (gHandleList s) \<and>
     distinct (mProtocolDatabase s) \<and> NULL \<notin> set (mProtocolDatabase s) \<and>
     inj_on (\<lambda>e. pe_ProtocolID (pentry s e)) (set (mProtocolDatabase s)) \<and>
     (\<forall>h \<in> set (gHandleList s). handle_ok s h) \<and> (\<forall>e \<in> set (mProtocolDatabase s). entry_ok s e) \<and>
     (\<forall>h. h \<notin> set (gHandleList s) \<longrightarrow> ih_Protocols (ihandle s h) = [])"

definition hand_inv :: "hand_state \<Rightarrow> bool" where
  "hand_inv s \<longleftrightarrow> hand_wf s \<and> (\<forall>h \<in> set (gHandleList s). ih_Protocols (ihandle s h) \<noteq> [])"

definition live_interfaces :: "hand_state \<Rightarrow> u64 set" where
  "live_interfaces s = (\<Union>h \<in> set (gHandleList s). set (ih_Protocols (ihandle s h)))"

definition live_registrations :: "hand_state \<Rightarrow> u64 set" where
  "live_registrations s = (\<Union>e \<in> set (mProtocolDatabase s). set (pe_Notify (pentry s e)))"

lemmas hand_parts = hand_wf_def handle_ok_def entry_ok_def
lemmas hand_updates = update_handle_def update_entry_def update_interface_def update_notify_def

text \<open>Fields the invariant does not read.\<close>

lemma hand_inv_irrelevant [simp]:
  "hand_inv (s\<lparr>gProtocolDatabaseLock := l\<rparr>) = hand_inv s"
  "hand_inv (s\<lparr>hand_Tpl := t\<rparr>) = hand_inv s"
  "hand_inv (s\<lparr>signalled := x\<rparr>) = hand_inv s"
  "hand_inv (s\<lparr>notify_flagged := x\<rparr>) = hand_inv s"
  "hand_inv (s\<lparr>mEfiLocateHandleRequest := k\<rparr>) = hand_inv s"
  "hand_inv (s\<lparr>gHandleDatabaseKey := u\<rparr>) = hand_inv s"
  by (simp_all add: hand_inv_def hand_parts)

lemma hand_inv_interface_count:
  assumes "hand_inv s"
    and "pi_OpenListCount (pinterface s a) = of_nat (length (pi_OpenList (pinterface s a))) \<Longrightarrow>
       pi_OpenListCount (f (pinterface s a)) = of_nat (length (pi_OpenList (f (pinterface s a))))"
    and "\<And>p. pi_Signature (f p) = pi_Signature p \<and> pi_Handle (f p) = pi_Handle p \<and> pi_Protocol (f p) = pi_Protocol p"
  shows "hand_inv (update_interface a f s)"
  using assms(1) unfolding hand_inv_def hand_parts hand_updates by (auto simp: assms(2,3))

lemma hand_inv_handle_stamp:
  assumes "hand_inv s"
    and "\<And>h. ih_Signature (f h) = ih_Signature h \<and> ih_Protocols (f h) = ih_Protocols h"
  shows "hand_inv (update_handle a f s)"
  using assms(1) unfolding hand_inv_def hand_parts hand_updates by (auto simp: assms(2))

text \<open>Searching.\<close>

lemma find_address_Some: "find_address P xs \<noteq> NULL \<Longrightarrow> find_address P xs \<in> set xs \<and> P (find_address P xs)"
  by (induction xs) (auto simp: find_address_def split: if_splits)

lemma find_address_NULL: "NULL \<notin> set xs \<Longrightarrow> find_address P xs = NULL \<longleftrightarrow> (\<forall>x \<in> set xs. \<not> P x)"
  by (auto simp: find_address_def find_None_iff find_Some_iff split: option.splits) (metis nth_mem)+

lemma find_address_unique:
  assumes "NULL \<notin> set xs" and "a \<in> set xs" and "P a" and "\<And>b. b \<in> set xs \<Longrightarrow> P b \<Longrightarrow> b = a"
  shows "find_address P xs = a"
  using assms find_address_NULL [of xs P] find_address_Some [of P xs] by metis

lemma CoreValidateHandle_iff:
  "CoreValidateHandle h s = (if h \<noteq> NULL \<and> h \<in> set (gHandleList s) then EFI_SUCCESS else EFI_INVALID_PARAMETER)"
  by (auto simp: CoreValidateHandle_def find_None_iff)

lemma hand_invD:
  assumes "hand_inv s"
  shows "distinct (gHandleList s)" "NULL \<notin> set (gHandleList s)" "distinct (mProtocolDatabase s)"
    "NULL \<notin> set (mProtocolDatabase s)" "inj_on (\<lambda>e. pe_ProtocolID (pentry s e)) (set (mProtocolDatabase s))"
    "\<And>h. h \<in> set (gHandleList s) \<Longrightarrow> handle_ok s h" "\<And>e. e \<in> set (mProtocolDatabase s) \<Longrightarrow> entry_ok s e"
    "\<And>h. h \<in> set (gHandleList s) \<Longrightarrow> ih_Protocols (ihandle s h) \<noteq> []"
    "\<And>h. h \<notin> set (gHandleList s) \<Longrightarrow> ih_Protocols (ihandle s h) = []"
  using assms by (simp_all add: hand_inv_def hand_wf_def)

lemma hand_inv_NULL [simp]: "hand_inv s \<Longrightarrow> NULL \<notin> set (ih_Protocols (ihandle s h))"
  using hand_invD(6,9) [of s h] unfolding handle_ok_def by fastforce

lemma entry_okD:
  assumes "entry_ok s e"
  shows "distinct (pe_Protocols (pentry s e))" "distinct (pe_Notify (pentry s e))"
    "\<And>p. p \<in> set (pe_Protocols (pentry s e)) \<Longrightarrow> pi_Protocol (pinterface s p) = e"
    "\<And>p. p \<in> set (pe_Protocols (pentry s e)) \<Longrightarrow> pi_Handle (pinterface s p) \<in> set (gHandleList s)"
    "\<And>p. p \<in> set (pe_Protocols (pentry s e)) \<Longrightarrow> p \<in> set (ih_Protocols (ihandle s (pi_Handle (pinterface s p))))"
    "\<And>n. n \<in> set (pe_Notify (pentry s e)) \<Longrightarrow> n \<noteq> NULL"
    "\<And>n. n \<in> set (pe_Notify (pentry s e)) \<Longrightarrow> pn_Protocol (pnotify s n) = e"
    "\<And>n. n \<in> set (pe_Notify (pentry s e)) \<Longrightarrow> set_option (pn_Position (pnotify s n)) \<subseteq> set (pe_Protocols (pentry s e))"
  using assms by (simp_all add: entry_ok_def)

lemma handle_okD:
  assumes "handle_ok s h"
  shows "distinct (ih_Protocols (ihandle s h))"
    "\<And>p. p \<in> set (ih_Protocols (ihandle s h)) \<Longrightarrow> p \<noteq> NULL"
    "\<And>p. p \<in> set (ih_Protocols (ihandle s h)) \<Longrightarrow> pi_Handle (pinterface s p) = h"
    "\<And>p. p \<in> set (ih_Protocols (ihandle s h)) \<Longrightarrow> pi_Protocol (pinterface s p) \<in> set (mProtocolDatabase s)"
    "\<And>p. p \<in> set (ih_Protocols (ihandle s h)) \<Longrightarrow> p \<in> set (pe_Protocols (pentry s (pi_Protocol (pinterface s p))))"
    "\<And>p. p \<in> set (ih_Protocols (ihandle s h)) \<Longrightarrow> pi_OpenListCount (pinterface s p) = of_nat (length (pi_OpenList (pinterface s p)))"
  using assms by (simp_all add: handle_ok_def)

lemma handle_ok_cong:
  assumes "handle_ok s h" and "ihandle s' h = ihandle s h" and "pinterface s' = pinterface s"
    and "mProtocolDatabase s' = mProtocolDatabase s"
    and "\<And>e. set (pe_Protocols (pentry s' e)) = set (pe_Protocols (pentry s e))"
  shows "handle_ok s' h"
  using assms by (simp add: handle_ok_def)

lemma CoreFindProtocolEntry_cases:
  assumes "hand_inv s" and "env_AllocatePool env HAND_ENTRY s \<notin> set (mProtocolDatabase s)"
  obtains (none) "CoreFindProtocolEntry env g c s = (NULL, s)" "\<forall>e \<in> set (mProtocolDatabase s). pe_ProtocolID (pentry s e) \<noteq> g"
  | (found) e where "CoreFindProtocolEntry env g c s = (e, s)" "e \<in> set (mProtocolDatabase s)" "e \<noteq> NULL"
      "pe_ProtocolID (pentry s e) = g"
  | (new) e where "c" "e \<notin> set (mProtocolDatabase s)" "e \<noteq> NULL" "\<forall>e \<in> set (mProtocolDatabase s). pe_ProtocolID (pentry s e) \<noteq> g"
      "CoreFindProtocolEntry env g c s = (e, update_entry e (\<lambda>_. \<lparr>pe_Signature = PROTOCOL_ENTRY_SIGNATURE,
         pe_ProtocolID = g, pe_Protocols = [], pe_Notify = []\<rparr>) (s\<lparr>mProtocolDatabase := mProtocolDatabase s @ [e]\<rparr>))"
proof -
  let ?e = "find_address (\<lambda>Item. pe_ProtocolID (pentry s Item) = g) (mProtocolDatabase s)"
  show thesis
  proof (cases "?e = NULL")
    case False
    then show ?thesis
      using find_address_Some [of "\<lambda>Item. pe_ProtocolID (pentry s Item) = g" "mProtocolDatabase s"] that(2) [of ?e]
      by (simp add: CoreFindProtocolEntry_def)
  next
    case True
    then have none: "\<forall>e \<in> set (mProtocolDatabase s). pe_ProtocolID (pentry s e) \<noteq> g"
      by (simp add: find_address_NULL [OF hand_invD(4) [OF assms(1)]])
    show ?thesis
    proof (cases "c \<and> env_AllocatePool env HAND_ENTRY s \<noteq> NULL")
      case True
      show ?thesis by (rule that(3) [OF _ assms(2) _ none]) (use True \<open>?e = NULL\<close> in \<open>simp_all add: CoreFindProtocolEntry_def Let_def\<close>)
    next
      case False
      show ?thesis by (rule that(1) [OF _ none]) (use False \<open>?e = NULL\<close> in \<open>auto simp: CoreFindProtocolEntry_def\<close>)
    qed
  qed
qed

lemma hand_inv_new_entry:
  assumes "hand_inv s" and "e \<notin> set (mProtocolDatabase s)" and "e \<noteq> NULL"
    and "\<forall>e \<in> set (mProtocolDatabase s). pe_ProtocolID (pentry s e) \<noteq> g"
  shows "hand_inv (update_entry e (\<lambda>_. \<lparr>pe_Signature = PROTOCOL_ENTRY_SIGNATURE,
         pe_ProtocolID = g, pe_Protocols = [], pe_Notify = []\<rparr>) (s\<lparr>mProtocolDatabase := mProtocolDatabase s @ [e]\<rparr>))"
  using assms unfolding hand_inv_def hand_parts hand_updates inj_on_def by auto

text \<open>Linking a new interface into a handle and an entry.\<close>

lemma hand_wf_new_handle:
  assumes "hand_wf s" and "h \<notin> set (gHandleList s)" and "h \<noteq> NULL"
  shows "hand_wf (update_handle h (\<lambda>_. \<lparr>ih_Signature = EFI_HANDLE_SIGNATURE, ih_Protocols = [], ih_LocateRequest = 0, ih_Key = k\<rparr>)
    (s\<lparr>gHandleDatabaseKey := k, gHandleList := gHandleList s @ [h]\<rparr>))"
  using assms unfolding hand_parts hand_updates by (auto 0 3)

definition link_interface :: "u64 \<Rightarrow> u64 \<Rightarrow> u64 \<Rightarrow> u64 \<Rightarrow> hand_state \<Rightarrow> hand_state" where
  "link_interface e h p i s =
     update_entry e (\<lambda>x. x\<lparr>pe_Protocols := pe_Protocols x @ [p]\<rparr>)
      (update_handle h (\<lambda>x. x\<lparr>ih_Protocols := p # ih_Protocols x\<rparr>)
        (update_interface p (\<lambda>_. \<lparr>pi_Signature = PROTOCOL_INTERFACE_SIGNATURE, pi_Handle = h,
                           pi_Protocol = e, pi_Interface = i, pi_OpenList = [], pi_OpenListCount = 0\<rparr>) s))"

lemma link_interface_fields [simp]:
  "gHandleList (link_interface e h p i s) = gHandleList s"
  "mProtocolDatabase (link_interface e h p i s) = mProtocolDatabase s"
  "pe_ProtocolID (pentry (link_interface e h p i s) e') = pe_ProtocolID (pentry s e')"
  "ih_Protocols (ihandle (link_interface e h p i s) h') = (if h' = h then p # ih_Protocols (ihandle s h) else ih_Protocols (ihandle s h'))"
  by (simp_all add: link_interface_def hand_updates)

lemma hand_wf_entry_interfaces:
  assumes "hand_wf s" and "e \<in> set (mProtocolDatabase s)"
  shows "set (pe_Protocols (pentry s e)) \<subseteq> live_interfaces s"
proof
  fix p assume "p \<in> set (pe_Protocols (pentry s e))"
  then have "pi_Handle (pinterface s p) \<in> set (gHandleList s)"
    and "p \<in> set (ih_Protocols (ihandle s (pi_Handle (pinterface s p))))"
    using assms by (simp_all add: hand_parts)
  then show "p \<in> live_interfaces s" by (auto simp: live_interfaces_def)
qed

lemma hand_wf_link:
  assumes wf: "hand_wf s" and e: "e \<in> set (mProtocolDatabase s)" and h: "h \<in> set (gHandleList s)"
    and p: "p \<notin> live_interfaces s" "p \<noteq> NULL"
  shows "hand_wf (link_interface e h p i s)"
proof -
  let ?s = "link_interface e h p i s"
  have fresh_e: "p \<notin> set (pe_Protocols (pentry s e'))" if "e' \<in> set (mProtocolDatabase s)" for e'
    using hand_wf_entry_interfaces [OF wf that] p by blast
  have fresh_h: "p \<notin> set (ih_Protocols (ihandle s h'))" if "h' \<in> set (gHandleList s)" for h'
    using p that by (auto simp: live_interfaces_def)
  have "handle_ok ?s h'" if "h' \<in> set (gHandleList s)" for h'
  proof -
    have "handle_ok s h'" using wf that by (simp add: hand_wf_def)
    then show ?thesis using fresh_h [OF that] e p(2) unfolding handle_ok_def link_interface_def hand_updates by auto
  qed
  moreover have "entry_ok ?s e'" if "e' \<in> set (mProtocolDatabase s)" for e'
  proof -
    have "entry_ok s e'" using wf that by (simp add: hand_wf_def)
    then show ?thesis using fresh_e [OF that] h p(2) unfolding entry_ok_def link_interface_def hand_updates by auto
  qed
  ultimately show ?thesis
    using wf h unfolding hand_wf_def by (auto)
qed

text \<open>
  Taking an interface out of its entry moves back the registrations that point to it.  The
  interface then leaves its handle (uninstall) or goes to the end of the entry (reinstall).
\<close>

definition back_up :: "u64 \<Rightarrow> u64 option \<Rightarrow> u64 list \<Rightarrow> hand_state \<Rightarrow> hand_state" where
  "back_up p before ns s = s\<lparr>pnotify := (\<lambda>n. if n \<in> set ns \<and> pn_Position (pnotify s n) = Some p
     then (pnotify s n)\<lparr>pn_Position := before\<rparr> else pnotify s n)\<rparr>"

lemma back_up_fold:
  assumes "before \<noteq> Some p"
  shows "fold (\<lambda>n s. if pn_Position (pnotify s n) = Some p
           then update_notify n (\<lambda>x. x\<lparr>pn_Position := before\<rparr>) s else s) ns s = back_up p before ns s"
proof (induction ns arbitrary: s)
  case Nil
  show ?case by (simp add: back_up_def)
next
  case (Cons n ns)
  show ?case using assms
    by (auto simp: Cons.IH back_up_def update_notify_def fun_eq_iff)
qed

lemma node_before_mem: "node_before a xs = Some b \<Longrightarrow> b \<in> set xs \<and> b \<noteq> a"
  using set_takeWhileD [of b "\<lambda>x. x \<noteq> a" xs]
  by (auto simp: node_before_def split: list.splits)

lemma node_before_neq [simp]: "node_before a xs \<noteq> Some a"
  using node_before_mem [of a xs a] by blast

definition remove_by_protocol :: "u64 \<Rightarrow> hand_state \<Rightarrow> hand_state" where
  "remove_by_protocol p s = (let e = pi_Protocol (pinterface s p) in
     update_entry e (\<lambda>x. x\<lparr>pe_Protocols := remove1 p (pe_Protocols x)\<rparr>)
       (back_up p (node_before p (pe_Protocols (pentry s e))) (pe_Notify (pentry s e)) s))"

lemma CoreRemoveInterfaceFromProtocol_eq:
  "CoreRemoveInterfaceFromProtocol env h g i s =
     (let p = CoreFindProtocolInterface env h g i s in if p = NULL then (NULL, s) else (p, remove_by_protocol p s))"
  by (simp add: CoreRemoveInterfaceFromProtocol_def remove_by_protocol_def back_up_fold Let_def)

lemma remove_by_protocol_fields [simp]:
  "gHandleList (remove_by_protocol p s) = gHandleList s"
  "mProtocolDatabase (remove_by_protocol p s) = mProtocolDatabase s"
  "ihandle (remove_by_protocol p s) = ihandle s"
  "pinterface (remove_by_protocol p s) = pinterface s"
  "gHandleDatabaseKey (remove_by_protocol p s) = gHandleDatabaseKey s"
  "gProtocolDatabaseLock (remove_by_protocol p s) = gProtocolDatabaseLock s"
  "hand_Tpl (remove_by_protocol p s) = hand_Tpl s"
  "pe_ProtocolID (pentry (remove_by_protocol p s) e) = pe_ProtocolID (pentry s e)"
  "pe_Notify (pentry (remove_by_protocol p s) e) = pe_Notify (pentry s e)"
  "pe_Signature (pentry (remove_by_protocol p s) e) = pe_Signature (pentry s e)"
  "pe_Protocols (pentry (remove_by_protocol p s) e) =
     (if e = pi_Protocol (pinterface s p) then remove1 p (pe_Protocols (pentry s e)) else pe_Protocols (pentry s e))"
  "pn_Signature (pnotify (remove_by_protocol p s) n) = pn_Signature (pnotify s n)"
  "pn_Protocol (pnotify (remove_by_protocol p s) n) = pn_Protocol (pnotify s n)"
  "pn_Event (pnotify (remove_by_protocol p s) n) = pn_Event (pnotify s n)"
  "pn_Position (pnotify (remove_by_protocol p s) n) =
     (let e = pi_Protocol (pinterface s p)
      in if n \<in> set (pe_Notify (pentry s e)) \<and> pn_Position (pnotify s n) = Some p
         then node_before p (pe_Protocols (pentry s e)) else pn_Position (pnotify s n))"
  by (simp_all add: remove_by_protocol_def back_up_def update_entry_def Let_def)

text \<open>A registration of another entry does not point to the interface.\<close>

lemma remove_by_protocol_position:
  assumes "entry_ok s e" and "n \<in> set (pe_Notify (pentry s e))"
  shows "set_option (pn_Position (pnotify (remove_by_protocol p s) n)) \<subseteq> set (pe_Protocols (pentry s e)) - {p}"
proof -
  let ?e = "pi_Protocol (pinterface s p)"
  have pos: "set_option (pn_Position (pnotify s n)) \<subseteq> set (pe_Protocols (pentry s e))"
    using assms by (simp add: entry_ok_def)
  have own: "?e = e" if "pn_Position (pnotify s n) = Some p"
    using assms that by (auto simp: entry_ok_def)
  show ?thesis
  proof (cases "pn_Position (pnotify s n) = Some p")
    case True
    then have "pn_Position (pnotify (remove_by_protocol p s) n) = node_before p (pe_Protocols (pentry s e))"
      using own assms(2) by (simp add: Let_def)
    then show ?thesis using node_before_mem [of p "pe_Protocols (pentry s e)"] by auto
  next
    case False
    then show ?thesis using pos by (auto simp: Let_def)
  qed
qed

definition unlink_interface :: "u64 \<Rightarrow> u64 \<Rightarrow> u64 \<Rightarrow> hand_state \<Rightarrow> hand_state" where
  "unlink_interface p h k s = update_interface p (\<lambda>x. x\<lparr>pi_Signature := 0\<rparr>)
     (update_handle h (\<lambda>x. x\<lparr>ih_Key := k, ih_Protocols := remove1 p (ih_Protocols x)\<rparr>)
        ((remove_by_protocol p s)\<lparr>gHandleDatabaseKey := k\<rparr>))"

lemma unlink_interface_fields [simp]:
  "gHandleList (unlink_interface p h k s) = gHandleList s"
  "mProtocolDatabase (unlink_interface p h k s) = mProtocolDatabase s"
  "pentry (unlink_interface p h k s) = pentry (remove_by_protocol p s)"
  "pnotify (unlink_interface p h k s) = pnotify (remove_by_protocol p s)"
  "pinterface (unlink_interface p h k s) = (pinterface s)(p := (pinterface s p)\<lparr>pi_Signature := 0\<rparr>)"
  "ih_Protocols (ihandle (unlink_interface p h k s) h') =
     (if h' = h then remove1 p (ih_Protocols (ihandle s h)) else ih_Protocols (ihandle s h'))"
  "ih_Signature (ihandle (unlink_interface p h k s) h') = ih_Signature (ihandle s h')"
  by (simp_all add: unlink_interface_def hand_updates)

lemma hand_wf_unlink:
  assumes wf: "hand_wf s" and h: "h \<in> set (gHandleList s)" and p: "p \<in> set (ih_Protocols (ihandle s h))"
  shows "hand_wf (unlink_interface p h k s)"
proof -
  let ?s = "unlink_interface p h k s"
  have ph: "pi_Handle (pinterface s p) = h" using wf h p by (simp add: hand_parts)
  have "handle_ok ?s h'" if "h' \<in> set (gHandleList s)" for h'
  proof -
    have ok: "handle_ok s h'" using wf that by (simp add: hand_wf_def)
    moreover have "p \<notin> set (ih_Protocols (ihandle s h'))" if "h' \<noteq> h"
      using ok ph that by (auto simp: handle_ok_def)
    ultimately have sub: "set (ih_Protocols (ihandle ?s h')) = set (ih_Protocols (ihandle s h')) - {p}"
      using ok by (auto simp: handle_ok_def set_remove1_eq)
    have "q \<in> set (pe_Protocols (pentry ?s (pi_Protocol (pinterface s q))))" if "q \<in> set (ih_Protocols (ihandle s h')) - {p}" for q
      using ok that by (auto simp: handle_ok_def in_set_remove1)
    moreover have "distinct (ih_Protocols (ihandle s h))" using wf h by (simp add: hand_wf_def handle_ok_def)
    ultimately show ?thesis using ok unfolding handle_ok_def sub by (simp add: distinct_remove1)
  qed
  moreover have "entry_ok ?s e" if "e \<in> set (mProtocolDatabase s)" for e
  proof -
    have ok: "entry_ok s e" using wf that by (simp add: hand_wf_def)
    then have "p \<notin> set (pe_Protocols (pentry s e))" if "e \<noteq> pi_Protocol (pinterface s p)"
      using that by (auto simp: entry_ok_def)
    moreover have "\<forall>n \<in> set (pe_Notify (pentry s e)).
        set_option (pn_Position (pnotify ?s n)) \<subseteq> set (pe_Protocols (pentry s e)) - {p}"
      using remove_by_protocol_position [OF ok] by simp
    ultimately have sub: "set (pe_Protocols (pentry ?s e)) = set (pe_Protocols (pentry s e)) - {p}"
      and pos: "\<forall>n \<in> set (pe_Notify (pentry s e)). set_option (pn_Position (pnotify ?s n)) \<subseteq> set (pe_Protocols (pentry s e)) - {p}"
      using ok by (auto simp: entry_ok_def set_remove1_eq simp del: remove_by_protocol_fields(15))
    have "q \<in> set (ih_Protocols (ihandle ?s (pi_Handle (pinterface s q))))" if "q \<in> set (pe_Protocols (pentry s e)) - {p}" for q
      using entry_okD(5) [OF ok, of q] that by auto
    moreover have "distinct (pe_Protocols (pentry ?s e))" using entry_okD(1) [OF ok] by (auto simp: distinct_remove1)
    ultimately show ?thesis using ok pos unfolding entry_ok_def sub
      by (simp del: remove_by_protocol_fields(11,15))
  qed
  ultimately show ?thesis using wf h unfolding hand_wf_def by simp
qed

definition drop_handle :: "u64 \<Rightarrow> hand_state \<Rightarrow> hand_state" where
  "drop_handle h s = update_handle h (\<lambda>x. x\<lparr>ih_Signature := 0\<rparr>) (s\<lparr>gHandleList := remove1 h (gHandleList s)\<rparr>)"

lemma hand_inv_drop_handle:
  assumes wf: "hand_wf s" and "ih_Protocols (ihandle s h) = []"
    and "\<And>h'. h' \<in> set (gHandleList s) \<Longrightarrow> h' \<noteq> h \<Longrightarrow> ih_Protocols (ihandle s h') \<noteq> []"
  shows "hand_inv (drop_handle h s)"
proof -
  let ?s = "drop_handle h s"
  have hs: "set (gHandleList ?s) = set (gHandleList s) - {h}"
    using wf by (simp add: drop_handle_def update_handle_def hand_wf_def set_remove1_eq)
  have "handle_ok ?s h'" if "h' \<in> set (gHandleList s)" "h' \<noteq> h" for h'
    using wf that unfolding hand_wf_def handle_ok_def by (simp add: drop_handle_def update_handle_def)
  moreover have "entry_ok ?s e" if "e \<in> set (mProtocolDatabase s)" for e
  proof -
    have ok: "entry_ok s e" using wf that by (simp add: hand_wf_def)
    moreover have "\<forall>p \<in> set (pe_Protocols (pentry s e)). pi_Handle (pinterface s p) \<noteq> h"
      using ok assms(2) by (auto simp: entry_ok_def)
    ultimately show ?thesis
      using wf unfolding hand_wf_def entry_ok_def hs by (simp add: drop_handle_def update_handle_def)
  qed
  ultimately show ?thesis
    using wf assms(2,3) unfolding hand_inv_def hand_wf_def hs
    by (simp add: drop_handle_def update_handle_def distinct_remove1)
qed

definition relink_interface :: "u64 \<Rightarrow> u64 \<Rightarrow> hand_state \<Rightarrow> hand_state" where
  "relink_interface p i s = update_entry (pi_Protocol (pinterface s p)) (\<lambda>x. x\<lparr>pe_Protocols := pe_Protocols x @ [p]\<rparr>)
     (update_interface p (\<lambda>x. x\<lparr>pi_Interface := i\<rparr>) (remove_by_protocol p s))"

lemma relink_interface_fields [simp]:
  "gHandleList (relink_interface p i s) = gHandleList s"
  "mProtocolDatabase (relink_interface p i s) = mProtocolDatabase s"
  "ihandle (relink_interface p i s) = ihandle s"
  "pnotify (relink_interface p i s) = pnotify (remove_by_protocol p s)"
  "pinterface (relink_interface p i s) = (pinterface s)(p := (pinterface s p)\<lparr>pi_Interface := i\<rparr>)"
  "pe_ProtocolID (pentry (relink_interface p i s) e) = pe_ProtocolID (pentry s e)"
  "pe_Notify (pentry (relink_interface p i s) e) = pe_Notify (pentry s e)"
  "pe_Signature (pentry (relink_interface p i s) e) = pe_Signature (pentry s e)"
  "pe_Protocols (pentry (relink_interface p i s) e) =
     (if e = pi_Protocol (pinterface s p) then remove1 p (pe_Protocols (pentry s e)) @ [p] else pe_Protocols (pentry s e))"
  by (simp_all add: relink_interface_def hand_updates)

lemma hand_inv_relink:
  assumes inv: "hand_inv s" and h: "h \<in> set (gHandleList s)" and p: "p \<in> set (ih_Protocols (ihandle s h))"
  shows "hand_inv (relink_interface p i s)"
proof -
  let ?s = "relink_interface p i s" and ?e = "pi_Protocol (pinterface s p)"
  have pe: "p \<in> set (pe_Protocols (pentry s ?e))" and "?e \<in> set (mProtocolDatabase s)"
    using hand_invD(6) [OF inv h] p by (auto simp: handle_ok_def)
  then have "distinct (pe_Protocols (pentry s ?e))" using hand_invD(7) [OF inv] entry_okD(1) by blast
  then have sets: "set (pe_Protocols (pentry ?s e)) = set (pe_Protocols (pentry s e))"
    and dist: "distinct (pe_Protocols (pentry s e)) \<Longrightarrow> distinct (pe_Protocols (pentry ?s e))" for e
    using pe by (cases "e = ?e"; simp add: set_remove1_eq distinct_remove1 insert_absorb)+
  have "handle_ok ?s h'" if "h' \<in> set (gHandleList s)" for h'
    using hand_invD(6) [OF inv that] unfolding handle_ok_def sets by simp
  moreover have "entry_ok ?s e" if "e \<in> set (mProtocolDatabase s)" for e
  proof -
    have ok: "entry_ok s e" by (rule hand_invD(7) [OF inv that])
    have "\<forall>n \<in> set (pe_Notify (pentry s e)). set_option (pn_Position (pnotify ?s n)) \<subseteq> set (pe_Protocols (pentry s e))"
      using remove_by_protocol_position [OF ok] by (simp del: remove_by_protocol_fields) blast
    moreover have "distinct (pe_Protocols (pentry ?s e))" using ok dist by (simp add: entry_ok_def)
    ultimately show ?thesis using ok unfolding entry_ok_def sets
      by (simp del: remove_by_protocol_fields(15) relink_interface_fields(9))
  qed
  ultimately show ?thesis using inv unfolding hand_inv_def hand_wf_def by simp
qed

text \<open>Registrations.\<close>

lemma hand_inv_register:
  assumes inv: "hand_inv s" and e: "e \<in> set (mProtocolDatabase s)" and n: "n \<notin> live_registrations s" "n \<noteq> NULL"
  shows "hand_inv (update_entry e (\<lambda>x. x\<lparr>pe_Notify := pe_Notify x @ [n]\<rparr>)
     (update_notify n (\<lambda>_. \<lparr>pn_Signature = PROTOCOL_NOTIFY_SIGNATURE, pn_Protocol = e, pn_Event = v, pn_Position = None\<rparr>) s))"
    (is "hand_inv ?s")
proof -
  have "entry_ok ?s e'" if "e' \<in> set (mProtocolDatabase s)" for e'
  proof -
    have "n \<notin> set (pe_Notify (pentry s e'))" using n that by (auto simp: live_registrations_def)
    then show ?thesis using hand_invD(7) [OF inv that] n(2) unfolding entry_ok_def hand_updates by auto
  qed
  moreover have "handle_ok ?s h" if "h \<in> set (gHandleList s)" for h
    by (rule handle_ok_cong [OF hand_invD(6) [OF inv that]]) (simp_all add: hand_updates)
  moreover have "(\<lambda>e. pe_ProtocolID (pentry ?s e)) = (\<lambda>e. pe_ProtocolID (pentry s e))"
    by (simp add: hand_updates fun_eq_iff)
  ultimately show ?thesis
    using inv unfolding hand_inv_def hand_wf_def by (simp add: hand_updates)
qed

lemma hand_inv_unregister:
  assumes inv: "hand_inv s"
  shows "hand_inv (update_entry e (\<lambda>x. x\<lparr>pe_Notify := remove1 (f x) (pe_Notify x)\<rparr>) s)" (is "hand_inv ?s")
proof -
  have "entry_ok ?s e'" if "e' \<in> set (mProtocolDatabase s)" for e'
    using hand_invD(7) [OF inv that] unfolding entry_ok_def hand_updates
    by (auto simp: distinct_remove1 dest: notin_set_remove1)
  moreover have "handle_ok ?s h" if "h \<in> set (gHandleList s)" for h
    by (rule handle_ok_cong [OF hand_invD(6) [OF inv that]]) (simp_all add: hand_updates)
  moreover have "(\<lambda>e. pe_ProtocolID (pentry ?s e)) = (\<lambda>e. pe_ProtocolID (pentry s e))"
    by (simp add: hand_updates fun_eq_iff)
  ultimately show ?thesis
    using inv unfolding hand_inv_def hand_wf_def by (simp add: hand_updates)
qed

lemma hand_inv_position:
  assumes inv: "hand_inv s" and "set_option pos \<subseteq> set (pe_Protocols (pentry s (pn_Protocol (pnotify s n))))"
  shows "hand_inv (update_notify n (\<lambda>x. x\<lparr>pn_Position := pos\<rparr>) s)" (is "hand_inv ?s")
proof -
  have "entry_ok ?s e'" if "e' \<in> set (mProtocolDatabase s)" for e'
    using hand_invD(7) [OF inv that] assms(2) unfolding entry_ok_def hand_updates by auto
  moreover have "handle_ok ?s h" if "h \<in> set (gHandleList s)" for h
    by (rule handle_ok_cong [OF hand_invD(6) [OF inv that]]) (simp_all add: hand_updates)
  ultimately show ?thesis
    using inv unfolding hand_inv_def hand_wf_def by (simp add: hand_updates)
qed

end
