(* ===== verification/HandOps.thy ===== *)
theory HandOps
  imports HandInv
begin

text \<open>
  Every service of the handle database keeps the invariant, frees the lock it takes and returns at
  the priority it was called at.  The services call back into code outside the database: restoring
  the priority runs notifications, and drivers are connected and disconnected.  What these callbacks
  keep, and that the pool gives fresh addresses, is the contract \<open>hand_callbacks\<close>.
\<close>

section \<open>Results of partial computations\<close>

definition ensures :: "('a \<Rightarrow> bool) \<Rightarrow> 'a option \<Rightarrow> bool" where
  "ensures P m \<longleftrightarrow> (\<forall>x. m = Some x \<longrightarrow> P x)"

lemma ensures_simps [simp]: "ensures P None" "ensures P (Some x) \<longleftrightarrow> P x"
  by (simp_all add: ensures_def)

lemma ensures_bind: "ensures P m \<Longrightarrow> (\<And>x. P x \<Longrightarrow> ensures Q (f x)) \<Longrightarrow> ensures Q (m \<bind> f)"
  by (cases m) simp_all

lemma ensuresD: "ensures P m \<Longrightarrow> m = Some x \<Longrightarrow> P x"
  by (simp add: ensures_def)

lemma ensures_mono: "ensures P m \<Longrightarrow> (\<And>x. P x \<Longrightarrow> Q x) \<Longrightarrow> ensures Q m"
  by (simp add: ensures_def)

section \<open>The contract of the callbacks\<close>

text \<open>Between services: the lock is free and the priority is \<open>t\<close>.  Inside: the lock is held.\<close>

definition hand_ok :: "nat \<Rightarrow> hand_state \<Rightarrow> bool" where
  "hand_ok t s \<longleftrightarrow> hand_inv s \<and> lock_Lock (gProtocolDatabaseLock s) = EfiLockReleased \<and>
     lock_Tpl (gProtocolDatabaseLock s) = TPL_NOTIFY \<and> hand_Tpl s = t"

definition hand_locked :: "nat \<Rightarrow> hand_state \<Rightarrow> bool" where
  "hand_locked t s \<longleftrightarrow> hand_inv s \<and> lock_Lock (gProtocolDatabaseLock s) = EfiLockAcquired \<and>
     lock_Tpl (gProtocolDatabaseLock s) = TPL_NOTIFY \<and> OwnerTpl (gProtocolDatabaseLock s) = t \<and> hand_Tpl s = TPL_NOTIFY"

locale hand_callbacks =
  fixes env :: hand_env
  assumes fresh_entry: "hand_inv s \<Longrightarrow> env_AllocatePool env HAND_ENTRY s \<notin> set (mProtocolDatabase s)"
    and fresh_interface: "hand_inv s \<Longrightarrow> env_AllocatePool env HAND_INTERFACE s \<notin> live_interfaces s"
    and fresh_handle: "hand_inv s \<Longrightarrow> env_AllocatePool env HAND_HANDLE s \<notin> set (gHandleList s)"
    and fresh_notify: "hand_inv s \<Longrightarrow> env_AllocatePool env HAND_NOTIFY s \<notin> live_registrations s"
    and restore_ok: "hand_ok t' s \<Longrightarrow> hand_ok t (env_RestoreTpl env t s)"
    and disconnect_ok: "hand_ok t s \<Longrightarrow> hand_ok t (snd (env_DisconnectController env h a s))"
    and connect_ok: "hand_ok t s \<Longrightarrow> hand_ok t (env_ConnectController env h s)"

lemma acquire_ok: "hand_ok t s \<Longrightarrow> hand_locked t (CoreAcquireProtocolLock s)"
  by (simp add: hand_ok_def hand_locked_def CoreAcquireProtocolLock_def)

lemma hand_locked_inv: "hand_locked t s \<Longrightarrow> hand_inv s"
  by (simp add: hand_locked_def)

lemma hand_locked_step:
  assumes "hand_locked t s" and "hand_inv s'"
    and "gProtocolDatabaseLock s' = gProtocolDatabaseLock s" and "hand_Tpl s' = hand_Tpl s"
  shows "hand_locked t s'"
  using assms by (simp add: hand_locked_def)

context hand_callbacks
begin

lemma release_ok: "hand_locked t s \<Longrightarrow> hand_ok t (CoreReleaseProtocolLock env s)"
  unfolding CoreReleaseProtocolLock_def
  by (rule subst [where P = "\<lambda>u. hand_ok t (env_RestoreTpl env u _)"], simp add: hand_locked_def, rule restore_ok [of TPL_NOTIFY])
    (simp add: hand_ok_def hand_locked_def)

lemma FindProtocolEntry_locked:
  assumes "hand_locked t s"
  shows "hand_locked t (snd (CoreFindProtocolEntry env g c s))"
    and "fst (CoreFindProtocolEntry env g c s) \<noteq> NULL \<Longrightarrow>
      fst (CoreFindProtocolEntry env g c s) \<in> set (mProtocolDatabase (snd (CoreFindProtocolEntry env g c s)))"
proof -
  have inv: "hand_inv s" using assms by (simp add: hand_locked_def)
  show "hand_locked t (snd (CoreFindProtocolEntry env g c s))"
  proof (rule CoreFindProtocolEntry_cases [OF inv fresh_entry [OF inv], of g c])
    fix e
    assume e: "e \<notin> set (mProtocolDatabase s)" "e \<noteq> NULL" "\<forall>e \<in> set (mProtocolDatabase s). pe_ProtocolID (pentry s e) \<noteq> g"
    assume eq: "CoreFindProtocolEntry env g c s = (e, update_entry e (\<lambda>_. \<lparr>pe_Signature = PROTOCOL_ENTRY_SIGNATURE,
         pe_ProtocolID = g, pe_Protocols = [], pe_Notify = []\<rparr>) (s\<lparr>mProtocolDatabase := mProtocolDatabase s @ [e]\<rparr>))"
    show ?thesis unfolding eq snd_conv
      by (rule hand_locked_step [OF assms hand_inv_new_entry [OF inv e]]) (simp_all add: update_entry_def)
  qed (simp_all add: assms)
  show "fst (CoreFindProtocolEntry env g c s) \<noteq> NULL \<Longrightarrow>
      fst (CoreFindProtocolEntry env g c s) \<in> set (mProtocolDatabase (snd (CoreFindProtocolEntry env g c s)))"
    by (rule CoreFindProtocolEntry_cases [OF inv fresh_entry [OF inv], of g c]) (simp_all add: update_entry_def)
qed

end

lemma CoreGetProtocolInterface_locked:
  assumes "hand_inv s" and "CoreGetProtocolInterface h g s \<noteq> NULL"
  shows "h \<in> set (gHandleList s)" and "CoreGetProtocolInterface h g s \<in> set (ih_Protocols (ihandle s h))"
  using assms find_address_Some [of _ "ih_Protocols (ihandle s h)"]
  by (auto simp: CoreGetProtocolInterface_def CoreValidateHandle_iff split: if_splits)

lemma CoreFindProtocolInterface_locked:
  assumes "hand_inv s" and "CoreFindProtocolInterface env h g i s \<noteq> NULL"
  shows "h \<in> set (gHandleList s)" and "CoreFindProtocolInterface env h g i s \<in> set (ih_Protocols (ihandle s h))"
proof -
  show p: "CoreFindProtocolInterface env h g i s \<in> set (ih_Protocols (ihandle s h))"
    using assms(2) find_address_Some [of _ "ih_Protocols (ihandle s h)"]
    by (auto simp: CoreFindProtocolInterface_def Let_def split: if_splits)
  show "h \<in> set (gHandleList s)" using hand_invD(9) [OF assms(1), of h] p by fastforce
qed

section \<open>Opening and closing\<close>

lemma update_interface_locked:
  assumes "hand_locked t s"
    and "pi_OpenListCount (pinterface s a) = of_nat (length (pi_OpenList (pinterface s a))) \<Longrightarrow>
       pi_OpenListCount (f (pinterface s a)) = of_nat (length (pi_OpenList (f (pinterface s a))))"
    and "\<And>p. pi_Signature (f p) = pi_Signature p \<and> pi_Handle (f p) = pi_Handle p \<and> pi_Protocol (f p) = pi_Protocol p"
  shows "hand_locked t (update_interface a f s)"
proof (rule hand_locked_step [OF assms(1)])
  show "hand_inv (update_interface a f s)"
    using hand_locked_inv [OF assms(1)] assms(2,3) by (rule hand_inv_interface_count)
qed (simp_all add: update_interface_def)

lemma CoreOpenProtocol_add_locked:
  "hand_locked t s \<Longrightarrow> hand_locked t (snd (CoreOpenProtocol_add env p img ctl att s))"
  by (auto simp: CoreOpenProtocol_add_def intro!: update_interface_locked)

context hand_callbacks
begin

lemma disconnect_locked:
  assumes "hand_locked t s"
  shows "hand_locked t (CoreAcquireProtocolLock (snd (env_DisconnectController env h a (CoreReleaseProtocolLock env s))))"
  by (rule acquire_ok) (rule disconnect_ok [OF release_ok [OF assms]])

lemma OpenProtocol_disconnect_locked:
  "hand_locked t s \<Longrightarrow> ensures (\<lambda>r. hand_locked t (snd r)) (CoreOpenProtocol_disconnect n env h p s)"
proof (induction n arbitrary: s)
  case (Suc n)
  then show ?case
    using disconnect_locked [OF Suc.prems] by (auto split: option.split prod.split simp: Let_def) (metis snd_conv)+
qed simp

lemma OpenProtocol_open_locked:
  assumes "hand_locked t s"
  shows "ensures (\<lambda>r. hand_locked t (snd r)) (CoreOpenProtocol_open n env h p img ctl att s)"
  unfolding CoreOpenProtocol_open_def
  by (auto split: open_scan.split simp: assms CoreOpenProtocol_add_locked
      intro!: update_interface_locked ensures_bind [OF OpenProtocol_disconnect_locked] assms)

lemma OpenProtocol_ok:
  assumes "hand_ok t s"
  shows "ensures (\<lambda>(_, _, s'). hand_ok t s') (CoreOpenProtocol n env h g ptr img ctl att s)"
  unfolding CoreOpenProtocol_def
  by (auto split: option.split simp: assms Let_def
      intro!: ensures_bind [where P = "\<lambda>r. hand_locked t (snd r)"] OpenProtocol_open_locked acquire_ok release_ok)

lemma HandleProtocol_ok:
  assumes "hand_ok t s"
  shows "ensures (\<lambda>(_, _, s'). hand_ok t s') (CoreHandleProtocol n env h g ptr s)"
  unfolding CoreHandleProtocol_def by (rule OpenProtocol_ok [OF assms])

lemma CloseProtocol_ok: "hand_ok t s \<Longrightarrow> hand_ok t (snd (CoreCloseProtocol env h g a c s))"
  unfolding CoreCloseProtocol_def
  by (auto split: option.split simp: Let_def of_nat_diff intro!: release_ok acquire_ok update_interface_locked)

lemma OpenProtocolInformation_ok: "hand_ok t s \<Longrightarrow> hand_ok t (snd (snd (CoreOpenProtocolInformation env h g s)))"
  by (auto simp: CoreOpenProtocolInformation_def Let_def intro!: release_ok acquire_ok)

end

section \<open>Installing\<close>

lemma CoreNotifyProtocolEntry_locked [simp]: "hand_locked t (CoreNotifyProtocolEntry e s) = hand_locked t s"
  by (simp add: hand_locked_def CoreNotifyProtocolEntry_def)

definition new_handle :: "u64 \<Rightarrow> hand_state \<Rightarrow> hand_state" where
  "new_handle h s = update_handle h (\<lambda>_. \<lparr>ih_Signature = EFI_HANDLE_SIGNATURE, ih_Protocols = [], ih_LocateRequest = 0,
       ih_Key = gHandleDatabaseKey s + 1\<rparr>)
     (s\<lparr>gHandleDatabaseKey := gHandleDatabaseKey s + 1, gHandleList := gHandleList s @ [h]\<rparr>)"

lemma hand_inv_install:
  assumes inv: "hand_inv s" and e: "e \<in> set (mProtocolDatabase s)" and p: "p \<notin> live_interfaces s" "p \<noteq> NULL"
    and h: "new \<Longrightarrow> h \<notin> set (gHandleList s) \<and> h \<noteq> NULL" "\<not> new \<Longrightarrow> h \<in> set (gHandleList s)"
  shows "hand_inv (link_interface e h p i (if new then new_handle h s else s))"
proof -
  define s1 where "s1 = (if new then new_handle h s else s)"
  have wf: "hand_wf s" and full: "\<And>h. h \<in> set (gHandleList s) \<Longrightarrow> ih_Protocols (ihandle s h) \<noteq> []"
    using inv by (auto simp: hand_inv_def)
  have "hand_wf s1" using hand_wf_new_handle [OF wf] h(1) wf by (simp add: s1_def new_handle_def)
  moreover have "e \<in> set (mProtocolDatabase s1)" "h \<in> set (gHandleList s1)"
    using e h by (auto simp: s1_def new_handle_def update_handle_def)
  moreover have "p \<notin> live_interfaces s1"
    using p h by (auto simp: live_interfaces_def s1_def new_handle_def update_handle_def)
  ultimately have "hand_wf (link_interface e h p i s1)" using p(2) by (blast intro: hand_wf_link)
  moreover have "\<forall>h' \<in> set (gHandleList s1). h' \<noteq> h \<longrightarrow> ih_Protocols (ihandle s1 h') \<noteq> []"
    using full by (auto simp: s1_def new_handle_def update_handle_def)
  ultimately show ?thesis by (simp add: hand_inv_def s1_def [symmetric])
qed

lemma CoreInstallProtocolInterface_link_cases:
  assumes "CoreInstallProtocolInterface_link env e u i ntf s = (st, h, s')"
  obtains "EFI_ERROR st" "h = u" "s' = s"
  | p where "st = EFI_SUCCESS" "p = env_AllocatePool env HAND_INTERFACE s" "p \<noteq> NULL"
      "h = (if u = NULL then env_AllocatePool env HAND_HANDLE s else u)" "h \<noteq> NULL" "u \<noteq> NULL \<Longrightarrow> u \<in> set (gHandleList s)"
      "s' = (let s1 = link_interface e h p i (if u = NULL then new_handle h s else s)
             in if ntf then CoreNotifyProtocolEntry e s1 else s1)"
  using assms unfolding CoreInstallProtocolInterface_link_def link_interface_def new_handle_def
  by (fastforce simp: Let_def CoreValidateHandle_iff split: if_splits)

context hand_callbacks
begin

lemma Install_link_locked:
  assumes "hand_locked t s" and "e \<in> set (mProtocolDatabase s)"
  shows "hand_locked t (snd (snd (CoreInstallProtocolInterface_link env e u i ntf s)))"
proof -
  obtain st h s' where eq: "CoreInstallProtocolInterface_link env e u i ntf s = (st, h, s')" by (metis prod_cases3)
  have inv: "hand_inv s" by (rule hand_locked_inv [OF assms(1)])
  show ?thesis using eq
  proof (cases rule: CoreInstallProtocolInterface_link_cases)
    case 1
    then show ?thesis using eq assms(1) by simp
  next
    case (2 p)
    define s1 where "s1 = link_interface e h p i (if u = NULL then new_handle h s else s)"
    have "hand_inv s1" unfolding s1_def
      by (rule hand_inv_install [OF inv assms(2)])
        (use 2 fresh_interface [OF inv] fresh_handle [OF inv] in \<open>auto split: if_splits\<close>)
    then have "hand_locked t s1"
      by (rule hand_locked_step [OF assms(1)]) (simp_all add: s1_def link_interface_def new_handle_def hand_updates)
    moreover have "s' = (if ntf then CoreNotifyProtocolEntry e s1 else s1)" using 2 by (simp add: s1_def Let_def)
    ultimately show ?thesis using eq by simp
  qed
qed

lemma Install_insert_ok:
  assumes "hand_ok t s"
  shows "hand_ok t (snd (snd (CoreInstallProtocolInterface_insert env st h g i ntf s)))"
  using FindProtocolEntry_locked [OF acquire_ok [OF assms], of g True] Install_link_locked
  unfolding CoreInstallProtocolInterface_insert_def
  by (auto split: prod.split intro!: release_ok) (metis snd_conv)+

lemma InstallNotify_ok:
  assumes "hand_ok t s"
  shows "ensures (\<lambda>(_, _, s'). hand_ok t s') (CoreInstallProtocolInterfaceNotify n env u g ty i ntf s)"
proof -
  have "ensures (\<lambda>(_, _, s'). hand_ok t s')
      (let (Status, Handle, s2) = CoreInstallProtocolInterface_insert env st h guid i ntf s1 in Some (Status, Some Handle, s2))"
    if "hand_ok t s1" for st h guid s1
    using Install_insert_ok [OF that, of st h guid i ntf] by (auto split: prod.split)
  then show ?thesis unfolding CoreInstallProtocolInterfaceNotify_def
    by (auto split: option.split simp: assms
        intro!: ensures_bind [where P = "\<lambda>(_, _, s'). hand_ok t s'"] HandleProtocol_ok [OF assms])
qed

lemma Install_ok:
  "hand_ok t s \<Longrightarrow> ensures (\<lambda>(_, _, s'). hand_ok t s') (CoreInstallProtocolInterface n env u g ty i s)"
  unfolding CoreInstallProtocolInterface_def by (rule InstallNotify_ok)

end

section \<open>Uninstalling and reinstalling\<close>

lemma remove_by_protocol_lock [simp]:
  "hand_Tpl (unlink_interface p h k s) = hand_Tpl s" "gProtocolDatabaseLock (unlink_interface p h k s) = gProtocolDatabaseLock s"
  "hand_Tpl (relink_interface p i s) = hand_Tpl s" "gProtocolDatabaseLock (relink_interface p i s) = gProtocolDatabaseLock s"
  "hand_Tpl (drop_handle h s) = hand_Tpl s" "gProtocolDatabaseLock (drop_handle h s) = gProtocolDatabaseLock s"
  by (simp_all add: unlink_interface_def relink_interface_def drop_handle_def hand_updates)

lemma CoreUninstallProtocolInterface_remove_eq:
  "CoreUninstallProtocolInterface_remove env h g i s =
     (let p = CoreFindProtocolInterface env h g i s;
          s2 = (if p \<noteq> NULL then unlink_interface p h (gHandleDatabaseKey s + 1) s else s)
      in (if p \<noteq> NULL then EFI_SUCCESS else EFI_NOT_FOUND,
          if ih_Protocols (ihandle s2 h) = [] then drop_handle h s2 else s2))"
  by (simp add: CoreUninstallProtocolInterface_remove_def CoreRemoveInterfaceFromProtocol_eq Let_def
      unlink_interface_def drop_handle_def)

lemma hand_inv_uninstall_remove:
  assumes inv: "hand_inv s"
  shows "hand_inv (snd (CoreUninstallProtocolInterface_remove env h g i s))"
proof -
  define p where "p = CoreFindProtocolInterface env h g i s"
  define s2 where "s2 = (if p \<noteq> NULL then unlink_interface p h (gHandleDatabaseKey s + 1) s else s)"
  have "hand_wf s2"
    using hand_wf_unlink [of s h p] CoreFindProtocolInterface_locked [OF inv, of env h g i] inv
    by (auto simp: s2_def p_def hand_inv_def)
  moreover have "ih_Protocols (ihandle s2 h') \<noteq> []" if "h' \<in> set (gHandleList s2)" "h' \<noteq> h" for h'
    using that inv by (auto simp: s2_def hand_inv_def split: if_splits)
  ultimately show ?thesis
    unfolding CoreUninstallProtocolInterface_remove_eq Let_def p_def [symmetric] s2_def [symmetric]
    using hand_inv_drop_handle [of s2 h] by (auto simp: hand_inv_def)
qed

lemma CoreUninstallProtocolInterface_remove_locked:
  assumes "CoreUninstallProtocolInterface_remove env h g i s = (st, s')" and "hand_locked t s"
  shows "hand_locked t s'"
proof -
  have "hand_locked t (snd (CoreUninstallProtocolInterface_remove env h g i s))"
    by (rule hand_locked_step [OF assms(2) hand_inv_uninstall_remove [OF hand_locked_inv [OF assms(2)]]])
      (simp_all add: CoreUninstallProtocolInterface_remove_eq Let_def)
  then show ?thesis using assms(1) by simp
qed

context hand_callbacks
begin

lemma Disconnect_loop_locked:
  "hand_locked t s \<Longrightarrow> ensures (\<lambda>r. hand_locked t (snd r)) (CoreDisconnectControllers_loop n env h p s)"
proof (induction n arbitrary: s)
  case (Suc n)
  then show ?case
    using disconnect_locked [OF Suc.prems] by (auto split: option.split prod.split simp: Let_def) (metis snd_conv)+
qed simp

lemma connect_locked:
  "hand_locked t s \<Longrightarrow> hand_locked t (CoreAcquireProtocolLock (env_ConnectController env h (CoreReleaseProtocolLock env s)))"
  by (intro acquire_ok connect_ok release_ok)

lemma DisconnectControllers_locked:
  assumes "hand_locked t s"
  shows "ensures (\<lambda>r. hand_locked t (snd r)) (CoreDisconnectControllersUsingProtocolInterface n env h p s)"
  unfolding CoreDisconnectControllersUsingProtocolInterface_def
  by (rule ensures_bind [OF Disconnect_loop_locked [OF assms]])
    (auto simp: Let_def of_nat_diff intro!: connect_locked update_interface_locked)

lemma Uninstall_ok:
  assumes "hand_ok t s"
  shows "ensures (\<lambda>r. hand_ok t (snd r)) (CoreUninstallProtocolInterface n env h g i s)"
  unfolding CoreUninstallProtocolInterface_def
  by (auto split: option.split prod.split simp: assms Let_def
      intro!: ensures_bind [OF DisconnectControllers_locked] acquire_ok [OF assms] release_ok
      elim: CoreUninstallProtocolInterface_remove_locked)

lemma Reinstall_ok:
  assumes "hand_ok t s"
  shows "ensures (\<lambda>r. hand_ok t (snd r)) (CoreReinstallProtocolInterface n env h g i j s)"
proof -
  have relink: "hand_locked t (update_handle h (\<lambda>x. x\<lparr>ih_Key := k\<rparr>) ((relink_interface p j s1)\<lparr>gHandleDatabaseKey := k\<rparr>))"
    if "hand_locked t s1" "p = CoreFindProtocolInterface env h guid i s1" "p \<noteq> NULL" for s1 p guid k
  proof -
    have inv: "hand_inv s1" by (rule hand_locked_inv [OF that(1)])
    have "hand_inv (relink_interface p j s1)"
      using hand_inv_relink [OF inv, of h p] CoreFindProtocolInterface_locked [OF inv, of env h guid i] that by blast
    then have "hand_inv (update_handle h (\<lambda>x. x\<lparr>ih_Key := k\<rparr>) ((relink_interface p j s1)\<lparr>gHandleDatabaseKey := k\<rparr>))"
      by (intro hand_inv_handle_stamp) simp_all
    then show ?thesis by (rule hand_locked_step [OF that(1)]) (simp_all add: update_handle_def)
  qed
  show ?thesis
    unfolding CoreReinstallProtocolInterface_def CoreRemoveInterfaceFromProtocol_eq
    by (auto split: option.split simp: assms Let_def relink_interface_def [symmetric]
        intro!: ensures_bind [OF DisconnectControllers_locked] acquire_ok [OF assms] release_ok connect_locked relink)
qed

end

section \<open>Registrations\<close>

context hand_callbacks
begin

lemma RegisterProtocolNotify_ok:
  assumes "hand_ok t s"
  shows "hand_ok t (snd (snd (CoreRegisterProtocolNotify env g v ptr s)))"
proof -
  have reg: "hand_locked t (update_entry e (\<lambda>x. x\<lparr>pe_Notify := pe_Notify x @ [env_AllocatePool env HAND_NOTIFY s1]\<rparr>)
      (update_notify (env_AllocatePool env HAND_NOTIFY s1) (\<lambda>_. \<lparr>pn_Signature = PROTOCOL_NOTIFY_SIGNATURE,
         pn_Protocol = e, pn_Event = v, pn_Position = None\<rparr>) (s1\<lparr>notify_flagged := notify_flagged s1 @ [v]\<rparr>)))"
    if "hand_locked t s1" "e \<in> set (mProtocolDatabase s1)" "env_AllocatePool env HAND_NOTIFY s1 \<noteq> NULL" for s1 e
  proof (rule hand_locked_step [OF that(1)])
    have "live_registrations (s1\<lparr>notify_flagged := f\<rparr>) = live_registrations s1" for f
      by (simp add: live_registrations_def)
    then show "hand_inv (update_entry e (\<lambda>x. x\<lparr>pe_Notify := pe_Notify x @ [env_AllocatePool env HAND_NOTIFY s1]\<rparr>)
      (update_notify (env_AllocatePool env HAND_NOTIFY s1) (\<lambda>_. \<lparr>pn_Signature = PROTOCOL_NOTIFY_SIGNATURE,
         pn_Protocol = e, pn_Event = v, pn_Position = None\<rparr>) (s1\<lparr>notify_flagged := notify_flagged s1 @ [v]\<rparr>)))"
      using that fresh_notify [OF hand_locked_inv [OF that(1)]]
      by (intro hand_inv_register) (simp_all add: hand_locked_inv)
  qed (simp_all add: hand_updates)
  show ?thesis
  proof (cases "\<exists>guid. g = Some guid \<and> v \<noteq> NULL \<and> ptr")
    case True
    then obtain guid where g: "g = Some guid" "v \<noteq> NULL" ptr by blast
    obtain e s1 where f: "CoreFindProtocolEntry env guid True (CoreAcquireProtocolLock s) = (e, s1)" by force
    have "hand_locked t s1" "e \<noteq> NULL \<Longrightarrow> e \<in> set (mProtocolDatabase s1)"
      using FindProtocolEntry_locked [OF acquire_ok [OF assms], of guid True] f by simp_all
    then show ?thesis
      using g f by (auto simp: CoreRegisterProtocolNotify_def Let_def intro!: release_ok reg)
  next
    case False
    then show ?thesis using assms by (auto simp: CoreRegisterProtocolNotify_def split: option.split)
  qed
qed

lemma unregister_locked:
  "hand_locked t s \<Longrightarrow> hand_locked t (update_entry e (\<lambda>x. x\<lparr>pe_Notify := remove1 (f x) (pe_Notify x)\<rparr>) s)"
  by (rule hand_locked_step [OF _ hand_inv_unregister [OF hand_locked_inv]]) (simp_all add: update_entry_def)

lemma UnregisterEvent_ok: "hand_ok t s \<Longrightarrow> hand_ok t (snd (CoreUnregisterProtocolNotifyEvent env v s))"
  by (auto simp: CoreUnregisterProtocolNotifyEvent_def Let_def split: option.split
      intro!: release_ok unregister_locked acquire_ok)

lemma Unregister_ok:
  "hand_ok t s \<Longrightarrow> ensures (\<lambda>r. hand_ok t (snd r)) (CoreUnregisterProtocolNotify n env v s)"
proof (induction n arbitrary: s)
  case (Suc n)
  then show ?case using UnregisterEvent_ok [OF Suc.prems, of v]
    by (auto split: prod.split simp: Let_def)
qed simp

end

section \<open>Locating\<close>

lemma set_tlD: "x \<in> set (tl xs) \<Longrightarrow> x \<in> set xs"
  by (cases xs) simp_all

lemma set_nodes_after: "set (nodes_after pos xs) \<subseteq> set xs"
  by (auto simp: nodes_after_def split: option.split dest!: set_tlD set_dropWhileD)

lemma registration_next_mem:
  "set_option (registration_next n s) \<subseteq> set (pe_Protocols (pentry s (pn_Protocol (pnotify s n))))"
  using set_nodes_after [of "pn_Position (pnotify s n)" "pe_Protocols (pentry s (pn_Protocol (pnotify s n)))"]
  by (auto simp: registration_next_def split: list.splits)

lemma position_locked:
  "hand_locked t s \<Longrightarrow> hand_locked t (update_notify n (\<lambda>x. x\<lparr>pn_Position := registration_next n s\<rparr>) s)"
  by (rule hand_locked_step [OF _ hand_inv_position [OF hand_locked_inv registration_next_mem]])
    (simp_all add: update_notify_def)

lemma stamp_locked: "hand_locked t s \<Longrightarrow> hand_locked t (update_handle h (\<lambda>x. x\<lparr>ih_LocateRequest := k\<rparr>) s)"
  by (rule hand_locked_step [OF _ hand_inv_handle_stamp [OF hand_locked_inv]]) (simp_all add: update_handle_def)

lemma ByProtocol_loop_locked:
  "hand_locked t s \<Longrightarrow> hand_locked t (snd (snd (snd (CoreGetNextLocateByProtocol_loop ps i s))))"
  by (induction ps i s rule: CoreGetNextLocateByProtocol_loop.induct) (simp_all add: Let_def stamp_locked)

definition keeps_locked :: "nat \<Rightarrow> CORE_GET_NEXT \<Rightarrow> bool" where
  "keeps_locked t GetNext \<longleftrightarrow> (\<forall>pos s. hand_locked t s \<longrightarrow> hand_locked t (snd (snd (snd (GetNext pos s)))))"

lemma GetNext_locked:
  "keeps_locked t CoreGetNextLocateAllHandles" "keeps_locked t CoreGetNextLocateByRegisterNotify"
  "keeps_locked t CoreGetNextLocateByProtocol"
  using ByProtocol_loop_locked
  by (auto simp: keeps_locked_def CoreGetNextLocateAllHandles_def CoreGetNextLocateByRegisterNotify_def
      CoreGetNextLocateByProtocol_def Let_def split: list.split option.split prod.split) (metis snd_conv)

lemma CoreLocateHandle_loop_locked:
  assumes "keeps_locked t GetNext" and "hand_locked t s"
  shows "ensures (\<lambda>(_, _, s'). hand_locked t s') (CoreLocateHandle_loop GetNext sz pos n buf s)"
proof -
  have "keeps_locked t GetNext \<longrightarrow> hand_locked t s \<longrightarrow> hand_locked t (snd (snd r))"
    if loop: "CoreLocateHandle_loop GetNext sz pos n buf s = Some r" for r
  proof (rule CoreLocateHandle_loop.raw_induct
      [where P = "\<lambda>GetNext _ _ _ _ s r. keeps_locked t GetNext \<longrightarrow> hand_locked t s \<longrightarrow> hand_locked t (snd (snd r))", OF _ loop],
      intro impI)
    fix f GetNext sz pos n buf s r
    assume IH: "\<And>GetNext sz pos n buf s r. f GetNext sz pos n buf s = Some r \<Longrightarrow>
        keeps_locked t GetNext \<longrightarrow> hand_locked t s \<longrightarrow> hand_locked t (snd (snd r))"
      and step: "(let (Handle, Interface, Position1, s1) = GetNext pos s
         in if Handle = NULL then Some (n, buf, s1)
            else f GetNext sz Position1 (n + 8) (if n + 8 \<le> sz then buf @ [Handle] else buf) s1) = Some r"
      and k: "keeps_locked t GetNext" and l: "hand_locked t s"
    obtain h i pos1 s1 where g: "GetNext pos s = (h, i, pos1, s1)" by (metis prod_cases4)
    have "hand_locked t s1" using k l g unfolding keeps_locked_def by (metis snd_conv)
    then show "hand_locked t (snd (snd r))" using IH k step by (auto simp: g split: if_splits)
  qed
  then show ?thesis using assms by (auto simp: ensures_def)
qed

context hand_callbacks
begin

lemma LocateHandle_ok:
  assumes "hand_ok t s"
  shows "ensures (\<lambda>(_, _, _, s'). hand_ok t s') (CoreLocateHandle env st g k bs ptr s)"
proof -
  have start: "keeps_locked t GetNext" if "CoreLocateHandle_start env st g k s1 = Inr (GetNext, pos)" for s1 GetNext pos
    using that GetNext_locked by (auto simp: CoreLocateHandle_start_def Let_def split: if_splits option.splits)
  have req: "hand_locked t ((CoreAcquireProtocolLock s)\<lparr>mEfiLocateHandleRequest := r\<rparr>)" for r
    by (rule hand_locked_step [OF acquire_ok [OF assms]]) (simp_all add: hand_locked_inv [OF acquire_ok [OF assms]])
  show ?thesis
    unfolding CoreLocateHandle_def
    by (auto split: option.split sum.split simp: assms Let_def
        intro!: ensures_bind [OF CoreLocateHandle_loop_locked [OF start req]] release_ok acquire_ok [OF assms] position_locked)
qed

lemma LocateProtocol_ok:
  assumes "hand_ok t s"
  shows "hand_ok t (snd (snd (CoreLocateProtocol env g reg ptr s)))"
proof -
  have acq: "CoreAcquireLockOrFail s = (EFI_SUCCESS, CoreAcquireProtocolLock s)"
    using assms by (simp add: hand_ok_def CoreAcquireLockOrFail_def CoreAcquireProtocolLock_def)
  have req: "hand_locked t ((CoreAcquireProtocolLock s)\<lparr>mEfiLocateHandleRequest := r\<rparr>)" for r
    by (rule hand_locked_step [OF acquire_ok [OF assms]]) (simp_all add: hand_locked_inv [OF acquire_ok [OF assms]])
  have gets: "hand_locked t s3" if "GetNext pos ((CoreAcquireProtocolLock s)\<lparr>mEfiLocateHandleRequest := r\<rparr>) = (h, i, pos', s3)"
    "keeps_locked t GetNext" for GetNext pos r h i pos' s3
    using that req unfolding keeps_locked_def by (metis snd_conv)
  show ?thesis
    unfolding CoreLocateProtocol_def acq
    by (auto split: option.split prod.split simp: assms Let_def
        intro!: release_ok req position_locked elim: gets intro: GetNext_locked)
qed

lemma LocateHandleBuffer_ok:
  assumes "hand_ok t s"
  shows "ensures (\<lambda>(_, _, _, s'). hand_ok t s') (CoreLocateHandleBuffer env st g k ptr s)"
  unfolding CoreLocateHandleBuffer_def
  by (auto simp: assms intro!: ensures_bind [OF LocateHandle_ok] assms)

lemma LocateDevicePath_loop_ok:
  "hand_ok t s \<Longrightarrow> ensures (\<lambda>(_, _, s'). hand_ok t s') (CoreLocateDevicePath_loop n env sp ss hs bm bd s)"
proof (induction hs arbitrary: bm bd s)
  case (Cons h hs)
  have any: "ensures (\<lambda>_. True) m" for m :: "UINTN option" by (simp add: ensures_def)
  show ?case
    by (auto simp: Let_def intro!: ensures_bind [OF HandleProtocol_ok] ensures_bind [OF any] Cons)
qed simp

lemma LocateDevicePath_ok:
  assumes "hand_ok t s"
  shows "ensures (\<lambda>(_, _, _, s'). hand_ok t s') (CoreLocateDevicePath n env g dp ptr s)"
  unfolding CoreLocateDevicePath_def Let_def
  by (auto simp: assms ensures_def [of "\<lambda>_. True"] intro!: ensures_bind [where P = "\<lambda>_. True"] ensures_bind [OF LocateHandleBuffer_ok [OF assms]]
      ensures_bind [OF LocateDevicePath_loop_ok])

end

section \<open>Several protocols, queries, keys\<close>

context hand_callbacks
begin

lemma InstallMultiple_loop_ok:
  "hand_ok t s \<Longrightarrow> ensures (\<lambda>(_, _, _, s'). hand_ok t s') (CoreInstallMultipleProtocolInterfaces_loop n env h k st args s)"
proof (induction args arbitrary: h k st s)
  case (Cons a args)
  obtain g i where a: "a = (g, i)" by force
  have "ensures (\<lambda>(_, s'). hand_ok t s')
     (if g = gEfiDevicePathProtocolGuid env
      then do {
        (Status, Device, DevicePath, s1) \<leftarrow> CoreLocateDevicePath n env (Some g) (Some i) True s;
        Some (\<not> EFI_ERROR Status \<and> Device \<noteq> None \<and> Device \<noteq> Some NULL \<and> IsDevicePathEnd (env_memory env) (the DevicePath), s1)
      }
      else Some (False, s))"
    using Cons.prems by (auto intro!: ensures_bind [OF LocateDevicePath_ok])
  then show ?case unfolding a CoreInstallMultipleProtocolInterfaces_loop.simps
    by (rule ensures_bind) (auto intro!: ensures_bind [OF Install_ok] Cons.IH)
qed simp

lemma InstallMultiple_undo_ok:
  "hand_ok t s \<Longrightarrow> ensures (hand_ok t) (CoreInstallMultipleProtocolInterfaces_undo n env h args s)"
proof (induction args arbitrary: s)
  case (Cons a args)
  then show ?case by (cases a) (auto intro!: ensures_bind [OF Uninstall_ok])
qed simp

lemma InstallMultiple_ok:
  assumes "hand_ok t s"
  shows "ensures (\<lambda>(_, _, s'). hand_ok t s') (CoreInstallMultipleProtocolInterfaces n env h args s)"
proof -
  have "hand_ok TPL_NOTIFY (s\<lparr>hand_Tpl := TPL_NOTIFY\<rparr>)" and t: "hand_Tpl s = t"
    using assms by (simp_all add: hand_ok_def)
  then show ?thesis
    unfolding CoreInstallMultipleProtocolInterfaces_def Let_def t
    by (auto split: option.split simp: assms
        intro!: ensures_bind [OF InstallMultiple_loop_ok] ensures_bind [OF InstallMultiple_undo_ok] restore_ok)
qed

lemma UninstallMultiple_loop_ok:
  "hand_ok t s \<Longrightarrow> ensures (\<lambda>(_, _, s'). hand_ok t s') (CoreUninstallMultipleProtocolInterfaces_loop n env h k st args s)"
proof (induction args arbitrary: k st s)
  case (Cons a args)
  then show ?case by (cases a) (auto intro!: ensures_bind [OF Uninstall_ok])
qed simp

lemma UninstallMultiple_undo_ok:
  "hand_ok t s \<Longrightarrow> ensures (hand_ok t) (CoreUninstallMultipleProtocolInterfaces_undo n env h args s)"
proof (induction args arbitrary: h s)
  case (Cons a args)
  then show ?case by (cases a) (auto intro!: ensures_bind [OF Install_ok])
qed simp

lemma UninstallMultiple_ok:
  assumes "hand_ok t s"
  shows "ensures (\<lambda>r. hand_ok t (snd r)) (CoreUninstallMultipleProtocolInterfaces n env h args s)"
  unfolding CoreUninstallMultipleProtocolInterfaces_def
  by (auto intro!: ensures_bind [OF UninstallMultiple_loop_ok [OF assms]] ensures_bind [OF UninstallMultiple_undo_ok])

lemma ProtocolsPerHandle_ok: "hand_ok t s \<Longrightarrow> hand_ok t (snd (snd (CoreProtocolsPerHandle env h a b s)))"
  by (auto simp: CoreProtocolsPerHandle_def Let_def intro!: release_ok acquire_ok)

lemma fold_connect_ok: "hand_ok t s \<Longrightarrow> hand_ok t (fold (env_ConnectController env) hs s)"
  by (induction hs arbitrary: s) (simp_all add: connect_ok)

lemma ConnectHandlesByKey_ok: "hand_ok t s \<Longrightarrow> hand_ok t (CoreConnectHandlesByKey env k s)"
  by (auto simp: CoreConnectHandlesByKey_def Let_def intro!: fold_connect_ok release_ok acquire_ok)

end

end
