(* ===== verification/HandReach.thy ===== *)
theory HandReach
  imports HandOps
begin

text \<open>
  The database as a closed system: the callbacks are themselves sequences of calls of the services,
  chosen by arbitrary functions of the state (the scripts), nested to an arbitrary depth.  This is
  an instance of the contract \<open>hand_callbacks\<close>, so that the invariant holds in every state that
  calls of the services reach.
\<close>

section \<open>Calls\<close>

datatype hand_call =
    CallInstallProtocolInterface "EFI_HANDLE option" "EFI_GUID option" u32 u64
  | CallReinstallProtocolInterface EFI_HANDLE "EFI_GUID option" u64 u64
  | CallUninstallProtocolInterface EFI_HANDLE "EFI_GUID option" u64
  | CallHandleProtocol EFI_HANDLE "EFI_GUID option" bool
  | CallRegisterProtocolNotify "EFI_GUID option" EFI_EVENT bool
  | CallUnregisterProtocolNotify EFI_EVENT
  | CallLocateHandle u32 "EFI_GUID option" u64 "UINTN option" bool
  | CallLocateDevicePath "EFI_GUID option" "u64 option" bool
  | CallOpenProtocol EFI_HANDLE "EFI_GUID option" bool EFI_HANDLE EFI_HANDLE u32
  | CallCloseProtocol EFI_HANDLE "EFI_GUID option" EFI_HANDLE EFI_HANDLE
  | CallOpenProtocolInformation EFI_HANDLE EFI_GUID
  | CallProtocolsPerHandle EFI_HANDLE bool bool
  | CallLocateHandleBuffer u32 "EFI_GUID option" u64 bool
  | CallLocateProtocol "EFI_GUID option" u64 bool
  | CallInstallMultipleProtocolInterfaces "EFI_HANDLE option" "(EFI_GUID \<times> u64) list"
  | CallUninstallMultipleProtocolInterfaces EFI_HANDLE "(EFI_GUID \<times> u64) list"
  | CallConnectHandlesByKey u64

text \<open>The state after a call, \<open>None\<close> when it does not return within the fuel.\<close>

fun hand_call_run :: "nat \<Rightarrow> hand_env \<Rightarrow> hand_call \<Rightarrow> hand_state \<Rightarrow> hand_state option" where
  "hand_call_run n env (CallInstallProtocolInterface u g ty i) s = map_option (\<lambda>(_, _, s). s) (CoreInstallProtocolInterface n env u g ty i s)"
| "hand_call_run n env (CallReinstallProtocolInterface h g i j) s = map_option snd (CoreReinstallProtocolInterface n env h g i j s)"
| "hand_call_run n env (CallUninstallProtocolInterface h g i) s = map_option snd (CoreUninstallProtocolInterface n env h g i s)"
| "hand_call_run n env (CallHandleProtocol h g p) s = map_option (\<lambda>(_, _, s). s) (CoreHandleProtocol n env h g p s)"
| "hand_call_run n env (CallRegisterProtocolNotify g v p) s = Some (snd (snd (CoreRegisterProtocolNotify env g v p s)))"
| "hand_call_run n env (CallUnregisterProtocolNotify v) s = map_option snd (CoreUnregisterProtocolNotify n env v s)"
| "hand_call_run n env (CallLocateHandle ty g k b p) s = map_option (\<lambda>(_, _, _, s). s) (CoreLocateHandle env ty g k b p s)"
| "hand_call_run n env (CallLocateDevicePath g dp p) s = map_option (\<lambda>(_, _, _, s). s) (CoreLocateDevicePath n env g dp p s)"
| "hand_call_run n env (CallOpenProtocol h g p img ctl a) s = map_option (\<lambda>(_, _, s). s) (CoreOpenProtocol n env h g p img ctl a s)"
| "hand_call_run n env (CallCloseProtocol h g a c) s = Some (snd (CoreCloseProtocol env h g a c s))"
| "hand_call_run n env (CallOpenProtocolInformation h g) s = Some (snd (snd (CoreOpenProtocolInformation env h g s)))"
| "hand_call_run n env (CallProtocolsPerHandle h a b) s = Some (snd (snd (CoreProtocolsPerHandle env h a b s)))"
| "hand_call_run n env (CallLocateHandleBuffer ty g k p) s = map_option (\<lambda>(_, _, _, s). s) (CoreLocateHandleBuffer env ty g k p s)"
| "hand_call_run n env (CallLocateProtocol g r p) s = Some (snd (snd (CoreLocateProtocol env g r p s)))"
| "hand_call_run n env (CallInstallMultipleProtocolInterfaces h a) s =
     map_option (\<lambda>(_, _, s). s) (CoreInstallMultipleProtocolInterfaces n env h a s)"
| "hand_call_run n env (CallUninstallMultipleProtocolInterfaces h a) s = map_option snd (CoreUninstallMultipleProtocolInterfaces n env h a s)"
| "hand_call_run n env (CallConnectHandlesByKey k) s = Some (CoreConnectHandlesByKey env k s)"

lemma ensures_map_option: "ensures P (map_option f m) = ensures (\<lambda>x. P (f x)) m"
  by (cases m) simp_all

context hand_callbacks
begin

lemma hand_call_ok:
  assumes "hand_ok t s"
  shows "ensures (hand_ok t) (hand_call_run n env c s)"
  using assms
  by (cases c) (auto simp: ensures_map_option RegisterProtocolNotify_ok CloseProtocol_ok OpenProtocolInformation_ok
      ProtocolsPerHandle_ok LocateProtocol_ok ConnectHandlesByKey_ok Reinstall_ok Uninstall_ok Unregister_ok UninstallMultiple_ok
      intro: ensures_mono [OF Install_ok] ensures_mono [OF HandleProtocol_ok] ensures_mono [OF LocateHandle_ok]
        ensures_mono [OF LocateDevicePath_ok] ensures_mono [OF OpenProtocol_ok] ensures_mono [OF LocateHandleBuffer_ok]
        ensures_mono [OF InstallMultiple_ok])

end

text \<open>A sequence of calls; one that does not return ends it.\<close>

fun hand_calls :: "nat \<Rightarrow> hand_env \<Rightarrow> hand_call list \<Rightarrow> hand_state \<Rightarrow> hand_state" where
  "hand_calls n env [] s = s"
| "hand_calls n env (c # cs) s = (case hand_call_run n env c s of None \<Rightarrow> s | Some s' \<Rightarrow> hand_calls n env cs s')"

context hand_callbacks
begin

lemma hand_calls_ok: "hand_ok t s \<Longrightarrow> hand_ok t (hand_calls n env cs s)"
proof (induction cs arbitrary: s)
  case (Cons c cs)
  then show ?case
    using ensuresD [OF hand_call_ok [OF Cons.prems, of n c]] by (auto split: option.split)
qed simp

end

section \<open>The closed system\<close>

text \<open>Addresses that are in use.  The pool does not give them out again.\<close>

fun hand_in_use :: "hand_object \<Rightarrow> u64 \<Rightarrow> hand_state \<Rightarrow> bool" where
  "hand_in_use HAND_ENTRY a s = (a \<in> set (mProtocolDatabase s))"
| "hand_in_use HAND_INTERFACE a s = list_ex (\<lambda>h. a \<in> set (ih_Protocols (ihandle s h))) (gHandleList s)"
| "hand_in_use HAND_HANDLE a s = (a \<in> set (gHandleList s))"
| "hand_in_use HAND_NOTIFY a s = list_ex (\<lambda>e. a \<in> set (pe_Notify (pentry s e))) (mProtocolDatabase s)"
| "hand_in_use _ a s = False"

record hand_world =
  world_Pool :: "hand_object \<Rightarrow> hand_state \<Rightarrow> u64"
  world_Notifications :: "nat \<Rightarrow> hand_state \<Rightarrow> hand_call list"
  world_Disconnect :: "EFI_HANDLE \<Rightarrow> EFI_HANDLE \<Rightarrow> hand_state \<Rightarrow> EFI_STATUS \<times> hand_call list"
  world_Connect :: "EFI_HANDLE \<Rightarrow> hand_state \<Rightarrow> hand_call list"
  world_fuel :: nat
  world_memory :: memory
  world_DevicePath :: dp_env
  world_gDxeCoreImageHandle :: EFI_HANDLE
  world_gEfiDevicePathProtocolGuid :: EFI_GUID

text \<open>
  The environment in which callbacks nest \<open>d\<close> deep.  Notifications run before the new priority is
  set.
\<close>

fun hand_core_env :: "nat \<Rightarrow> hand_world \<Rightarrow> hand_env" where
  "hand_core_env d w =
     (let run = (\<lambda>cs s. case d of 0 \<Rightarrow> s | Suc d' \<Rightarrow> hand_calls (world_fuel w) (hand_core_env d' w) cs s)
      in \<lparr>env_AllocatePool = (\<lambda>k s. let a = world_Pool w k s in if hand_in_use k a s then NULL else a),
          env_RestoreTpl = (\<lambda>t s. (run (world_Notifications w t s) s)\<lparr>hand_Tpl := t\<rparr>),
          env_DisconnectController = (\<lambda>h a s. let (st, cs) = world_Disconnect w h a s in (st, run cs s)),
          env_ConnectController = (\<lambda>h s. run (world_Connect w h s) s),
          env_memory = world_memory w, env_DevicePath = world_DevicePath w,
          gDxeCoreImageHandle = world_gDxeCoreImageHandle w,
          gEfiDevicePathProtocolGuid = world_gEfiDevicePathProtocolGuid w\<rparr>)"

declare hand_core_env.simps [simp del]

lemma hand_ok_Tpl: "hand_ok t s \<Longrightarrow> hand_ok t' (s\<lparr>hand_Tpl := t'\<rparr>)"
  by (simp add: hand_ok_def)

lemma hand_inv_NULL_interfaces: "hand_inv s \<Longrightarrow> NULL \<notin> live_interfaces s \<and> NULL \<notin> live_registrations s"
  using entry_okD(6) [OF hand_invD(7)] by (auto simp: live_interfaces_def live_registrations_def)

lemma hand_callbacks_core: "hand_callbacks (hand_core_env d w)"
proof (induction d)
  case 0
  show ?case
    by unfold_locales (use hand_inv_NULL_interfaces in \<open>auto simp: hand_core_env.simps [of 0] Let_def hand_ok_Tpl hand_invD(2,4)
      live_interfaces_def live_registrations_def list_ex_iff split: prod.split\<close>)
next
  case (Suc d)
  show ?case
    by unfold_locales (use hand_inv_NULL_interfaces in \<open>auto simp: hand_core_env.simps [of "Suc d"] Let_def hand_invD(2,4)
      live_interfaces_def live_registrations_def list_ex_iff split: prod.split
      intro: hand_ok_Tpl hand_callbacks.hand_calls_ok [OF Suc]\<close>)
qed

interpretation hand_core: hand_callbacks "hand_core_env d w" for d w
  by (rule hand_callbacks_core)

section \<open>Reachable states\<close>

definition hand_initial :: "hand_state" where
  "hand_initial = \<lparr>mProtocolDatabase = [], gHandleList = [],
     gProtocolDatabaseLock = EFI_INITIALIZE_LOCK_VARIABLE TPL_NOTIFY, gHandleDatabaseKey = 0, mEfiLocateHandleRequest = 0,
     ihandle = (\<lambda>_. \<lparr>ih_Signature = 0, ih_Protocols = [], ih_LocateRequest = 0, ih_Key = 0\<rparr>),
     pentry = (\<lambda>_. \<lparr>pe_Signature = 0, pe_ProtocolID = [], pe_Protocols = [], pe_Notify = []\<rparr>),
     pinterface = (\<lambda>_. \<lparr>pi_Signature = 0, pi_Handle = NULL, pi_Protocol = NULL, pi_Interface = NULL, pi_OpenList = [], pi_OpenListCount = 0\<rparr>),
     pnotify = (\<lambda>_. \<lparr>pn_Signature = 0, pn_Protocol = NULL, pn_Event = NULL, pn_Position = None\<rparr>),
     hand_Tpl = TPL_APPLICATION, signalled = [], notify_flagged = []\<rparr>"

inductive hand_reach :: "nat \<Rightarrow> hand_world \<Rightarrow> hand_state \<Rightarrow> bool" for d w where
  init: "hand_reach d w hand_initial"
| call: "hand_reach d w s \<Longrightarrow> hand_call_run n (hand_core_env d w) c s = Some s' \<Longrightarrow> hand_reach d w s'"
| tpl: "hand_reach d w s \<Longrightarrow> hand_reach d w (s\<lparr>hand_Tpl := t\<rparr>)"

lemma hand_initial_ok: "hand_ok TPL_APPLICATION hand_initial"
  by (simp add: hand_ok_def hand_initial_def hand_inv_def hand_parts EFI_INITIALIZE_LOCK_VARIABLE_def)

lemma reach_ok: "hand_reach d w s \<Longrightarrow> hand_ok (hand_Tpl s) s"
proof (induction rule: hand_reach.induct)
  case init
  show ?case using hand_initial_ok by (simp add: hand_initial_def)
next
  case (call s n c s')
  then have "hand_ok (hand_Tpl s) s'" using hand_core.hand_call_ok by (blast dest: ensuresD)
  then show ?case by (simp add: hand_ok_def)
next
  case (tpl s t)
  then show ?case using hand_ok_Tpl by (simp add: hand_ok_def)
qed

end
