(* ===== verification/HandLookup.thy ===== *)
theory HandLookup
  imports HandReach
begin

text \<open>
  What the database means to its clients: a partial map from a handle and a protocol to an
  interface.  When no notification is pending (\<open>hand_quiet\<close>), installing is an update of this map,
  uninstalling removes from it, and \<^verbatim>\<open>HandleProtocol\<close> reads it.
\<close>

section \<open>The abstract map\<close>

definition guid_of :: "hand_state \<Rightarrow> u64 \<Rightarrow> EFI_GUID" where
  "guid_of s p = pe_ProtocolID (pentry s (pi_Protocol (pinterface s p)))"

definition hand_lookup :: "hand_state \<Rightarrow> EFI_HANDLE \<times> EFI_GUID \<Rightarrow> u64 option" where
  "hand_lookup s = (\<lambda>(h, g). if h \<in> set (gHandleList s)
     then map_option (\<lambda>p. pi_Interface (pinterface s p)) (find (\<lambda>p. guid_of s p = g) (ih_Protocols (ihandle s h)))
     else None)"

definition hand_unique :: "hand_state \<Rightarrow> bool" where
  "hand_unique s \<longleftrightarrow> (\<forall>h \<in> set (gHandleList s). inj_on (guid_of s) (set (ih_Protocols (ihandle s h))))"

definition hand_same :: "hand_state \<Rightarrow> hand_state \<Rightarrow> bool" where
  "hand_same s s' \<longleftrightarrow> gHandleList s' = gHandleList s \<and> mProtocolDatabase s' = mProtocolDatabase s \<and>
     (\<forall>h. ih_Protocols (ihandle s' h) = ih_Protocols (ihandle s h)) \<and>
     (\<forall>p. pi_Interface (pinterface s' p) = pi_Interface (pinterface s p) \<and> pi_Protocol (pinterface s' p) = pi_Protocol (pinterface s p) \<and>
        pi_Handle (pinterface s' p) = pi_Handle (pinterface s p)) \<and>
     pentry s' = pentry s \<and> pnotify s' = pnotify s"

definition hand_quiet :: "hand_env \<Rightarrow> bool" where
  "hand_quiet env \<longleftrightarrow> (\<forall>t s. env_RestoreTpl env t s = s\<lparr>hand_Tpl := t\<rparr>)"

lemma hand_same_refl [simp]: "hand_same s s"
  by (simp add: hand_same_def)

lemma hand_same_trans: "hand_same s s' \<Longrightarrow> hand_same s' s'' \<Longrightarrow> hand_same s s''"
  by (simp add: hand_same_def)

lemma guid_of_same: "hand_same s s' \<Longrightarrow> guid_of s' = guid_of s"
  by (simp add: hand_same_def guid_of_def fun_eq_iff)

lemma hand_lookup_same: "hand_same s s' \<Longrightarrow> hand_lookup s' = hand_lookup s"
  using guid_of_same [of s s'] by (auto simp: hand_same_def hand_lookup_def fun_eq_iff)

lemma hand_unique_same: "hand_same s s' \<Longrightarrow> hand_unique s' = hand_unique s"
  using guid_of_same [of s s'] by (simp add: hand_same_def hand_unique_def)

lemma hand_same_acquire [simp]: "hand_same s (CoreAcquireProtocolLock s)"
  by (simp add: CoreAcquireProtocolLock_def hand_same_def)

lemma hand_same_release: "hand_quiet env \<Longrightarrow> hand_same s s' \<Longrightarrow> hand_same s (CoreReleaseProtocolLock env s')"
  by (simp add: CoreReleaseProtocolLock_def hand_same_def hand_quiet_def)

lemma hand_same_update_interface:
  assumes "\<And>p. pi_Interface (f p) = pi_Interface p \<and> pi_Protocol (f p) = pi_Protocol p \<and> pi_Handle (f p) = pi_Handle p"
  shows "hand_same s (update_interface a f s)"
  by (simp add: hand_same_def update_interface_def assms)

lemma hand_lookup_None:
  assumes "hand_inv s"
  shows "hand_lookup s (h, g) = None \<longleftrightarrow> CoreGetProtocolInterface h g s = NULL"
proof (cases "h \<in> set (gHandleList s)")
  case True
  then have "h \<noteq> NULL" using hand_invD(2) [OF assms] by blast
  then show ?thesis
    using True find_address_NULL [OF hand_inv_NULL [OF assms], of "\<lambda>p. guid_of s p = g" h]
    by (simp add: hand_lookup_def CoreGetProtocolInterface_def CoreValidateHandle_iff guid_of_def find_None_iff Ball_def)
qed (simp add: hand_lookup_def CoreGetProtocolInterface_def CoreValidateHandle_iff)

lemma hand_lookup_Some:
  assumes "hand_inv s" and "CoreGetProtocolInterface h g s \<noteq> NULL"
  shows "hand_lookup s (h, g) = Some (pi_Interface (pinterface s (CoreGetProtocolInterface h g s)))"
proof -
  let ?P = "\<lambda>p. guid_of s p = g"
  have h: "h \<in> set (gHandleList s)" and "h \<noteq> NULL"
    using CoreGetProtocolInterface_locked [OF assms] hand_invD(2) [OF assms(1)] by blast+
  then have eq: "CoreGetProtocolInterface h g s = find_address ?P (ih_Protocols (ihandle s h))"
    by (simp add: CoreGetProtocolInterface_def CoreValidateHandle_iff guid_of_def)
  with assms(2) obtain p where "find ?P (ih_Protocols (ihandle s h)) = Some p"
    by (cases "find ?P (ih_Protocols (ihandle s h))") (simp_all add: find_address_def)
  then show ?thesis using h eq by (simp add: hand_lookup_def find_address_def)
qed

section \<open>Reading\<close>

text \<open>Opening by \<^verbatim>\<open>HandleProtocol\<close> never disconnects anything.\<close>

lemma scan_by_handle:
  "CoreOpenProtocol_scan img ctl EFI_OPEN_PROTOCOL_BY_HANDLE_PROTOCOL ds i a b \<noteq> ScanStarted"
  by (induction ds arbitrary: i a b) (auto simp: Let_def efi_const)

lemma CoreOpenProtocol_open_by_handle:
  "\<exists>st s'. CoreOpenProtocol_open n env h p img ctl EFI_OPEN_PROTOCOL_BY_HANDLE_PROTOCOL s = Some (st, s') \<and>
     hand_same s s' \<and> (st = EFI_SUCCESS \<or> st = EFI_OUT_OF_RESOURCES \<and> env_AllocatePool env HAND_OPEN s = NULL)"
  using scan_by_handle [of img ctl "pi_OpenList (pinterface s p)" 0 False False]
  by (cases "CoreOpenProtocol_scan img ctl EFI_OPEN_PROTOCOL_BY_HANDLE_PROTOCOL (pi_OpenList (pinterface s p)) 0 False False")
    (auto simp: CoreOpenProtocol_open_def CoreOpenProtocol_add_def efi_const intro!: hand_same_update_interface)

lemma CoreAcquireProtocolLock_inv [simp]: "hand_inv (CoreAcquireProtocolLock s) = hand_inv s"
  by (simp add: CoreAcquireProtocolLock_def)

lemma CoreHandleProtocol_cases:
  assumes inv: "hand_inv s"
  obtains (invalid) "h \<notin> set (gHandleList s)" "hand_lookup s (h, g) = None"
      "CoreHandleProtocol n env h (Some g) True s = Some (EFI_INVALID_PARAMETER, None, s)"
  | (unsupported) "h \<in> set (gHandleList s)" "hand_lookup s (h, g) = None"
      "CoreHandleProtocol n env h (Some g) True s =
         Some (EFI_UNSUPPORTED, Some NULL, CoreReleaseProtocolLock env (CoreAcquireProtocolLock s))"
  | (found) i s' where "h \<in> set (gHandleList s)" "hand_lookup s (h, g) = Some i" "hand_same s s'"
      "CoreHandleProtocol n env h (Some g) True s = Some (EFI_SUCCESS, Some i, CoreReleaseProtocolLock env s')"
  | (failed) i s' where "h \<in> set (gHandleList s)" "hand_lookup s (h, g) = Some i" "hand_same s s'"
      "env_AllocatePool env HAND_OPEN (CoreAcquireProtocolLock s) = NULL"
      "CoreHandleProtocol n env h (Some g) True s = Some (EFI_OUT_OF_RESOURCES, None, CoreReleaseProtocolLock env s')"
proof (cases "h \<in> set (gHandleList s)")
  case False
  then show thesis
    by (intro invalid) (simp_all add: hand_lookup_def CoreHandleProtocol_def CoreOpenProtocol_def CoreValidateHandle_iff efi_const)
next
  case True
  then have h: "h \<noteq> NULL" using hand_invD(2) [OF inv] by blast
  define s1 where "s1 = CoreAcquireProtocolLock s"
  have inv1: "hand_inv s1" and same1: "hand_same s s1" using inv by (simp_all add: s1_def)
  have look: "hand_lookup s1 = hand_lookup s" by (rule hand_lookup_same [OF same1])
  define p where "p = CoreGetProtocolInterface h g s1"
  have eq: "CoreHandleProtocol n env h (Some g) True s =
     do {
       (Status, s2) \<leftarrow> (if p = NULL then Some (EFI_UNSUPPORTED, s1)
          else CoreOpenProtocol_open n env h p (gDxeCoreImageHandle env) NULL EFI_OPEN_PROTOCOL_BY_HANDLE_PROTOCOL s1);
       Some (Status, if \<not> EFI_ERROR Status \<or> Status = EFI_ALREADY_STARTED then Some (pi_Interface (pinterface s2 p))
          else if Status = EFI_UNSUPPORTED then Some NULL else None, CoreReleaseProtocolLock env s2)
     }"
    using True h unfolding p_def s1_def
    by (simp add: CoreHandleProtocol_def CoreOpenProtocol_def CoreValidateHandle_iff CoreOpenProtocol_check_def efi_const Let_def)
  show thesis
  proof (cases "p = NULL")
    case p: True
    show thesis
      by (rule unsupported [OF True]) (use p hand_lookup_None [OF inv1, of h g] look in \<open>simp_all add: p_def eq [unfolded p_def] s1_def\<close>)
  next
    case False
    obtain st s' where o: "CoreOpenProtocol_open n env h p (gDxeCoreImageHandle env) NULL EFI_OPEN_PROTOCOL_BY_HANDLE_PROTOCOL s1 = Some (st, s')"
      and same: "hand_same s1 s'" and st: "st = EFI_SUCCESS \<or> st = EFI_OUT_OF_RESOURCES \<and> env_AllocatePool env HAND_OPEN s1 = NULL"
      using CoreOpenProtocol_open_by_handle by blast
    have l: "hand_lookup s (h, g) = Some (pi_Interface (pinterface s1 p))"
      using hand_lookup_Some [OF inv1, of h g] False look by (simp add: p_def)
    have i: "pi_Interface (pinterface s' p) = pi_Interface (pinterface s1 p)" using same by (simp add: hand_same_def)
    have ss: "hand_same s s'" by (rule hand_same_trans [OF same1 same])
    from st show thesis
    proof
      assume "st = EFI_SUCCESS"
      then show thesis using found [OF True l ss] False o i by (simp add: eq)
    next
      assume a: "st = EFI_OUT_OF_RESOURCES \<and> env_AllocatePool env HAND_OPEN s1 = NULL"
      then show thesis using failed [OF True l ss] False o by (simp add: eq s1_def)
    qed
  qed
qed

section \<open>Installing\<close>

lemma find_map_cong: "(\<And>x. x \<in> set xs \<Longrightarrow> P x = Q x \<and> f x = g x) \<Longrightarrow> map_option f (find P xs) = map_option g (find Q xs)"
  by (induction xs) auto

lemma live_entry:
  assumes "hand_wf s" and "h \<in> set (gHandleList s)" and "p \<in> set (ih_Protocols (ihandle s h))"
  shows "pi_Protocol (pinterface s p) \<in> set (mProtocolDatabase s)"
  using assms by (simp add: hand_wf_def handle_ok_def)

lemma hand_lookup_new_entry:
  fixes x :: PROTOCOL_ENTRY
  assumes "hand_wf s" and "e \<notin> set (mProtocolDatabase s)"
  defines "s' \<equiv> update_entry e (\<lambda>_. x) (s\<lparr>mProtocolDatabase := mProtocolDatabase s @ [e]\<rparr>)"
  shows "hand_lookup s' = hand_lookup s" and "hand_unique s' = hand_unique s"
proof -
  have g: "guid_of s' p = guid_of s p" if "h \<in> set (gHandleList s)" "p \<in> set (ih_Protocols (ihandle s h))" for h p
    using live_entry [OF assms(1) that] assms(2) by (auto simp: guid_of_def s'_def update_entry_def)
  have f: "gHandleList s' = gHandleList s" "ihandle s' = ihandle s" "pinterface s' = pinterface s"
    by (simp_all add: s'_def update_entry_def)
  show "hand_lookup s' = hand_lookup s" using g
    by (auto simp: hand_lookup_def f fun_eq_iff intro!: find_map_cong)
  show "hand_unique s' = hand_unique s" using g by (auto simp: hand_unique_def f inj_on_def)
qed

lemma hand_lookup_new_handle:
  assumes "hand_wf s" and "h \<notin> set (gHandleList s)"
  shows "hand_lookup (new_handle h s) = hand_lookup s" and "hand_unique (new_handle h s) = hand_unique s"
proof -
  have g: "guid_of (new_handle h s) = guid_of s" by (simp add: guid_of_def new_handle_def update_handle_def fun_eq_iff)
  show "hand_lookup (new_handle h s) = hand_lookup s" unfolding hand_lookup_def g
    using assms(2) by (auto simp: new_handle_def update_handle_def fun_eq_iff)
  show "hand_unique (new_handle h s) = hand_unique s" unfolding hand_unique_def g
    using assms(2) by (auto simp: new_handle_def update_handle_def)
qed

lemma link_interface_guid:
  "q \<noteq> p \<Longrightarrow> guid_of (link_interface e h p i s) q = guid_of s q"
  "guid_of (link_interface e h p i s) p = pe_ProtocolID (pentry s e)"
  "pi_Interface (pinterface (link_interface e h p i s) q) = (if q = p then i else pi_Interface (pinterface s q))"
  by (auto simp: guid_of_def link_interface_def hand_updates)

lemma hand_lookup_link:
  assumes "h \<in> set (gHandleList s)" and "p \<notin> live_interfaces s"
  shows "hand_lookup (link_interface e h p i s) = (hand_lookup s)((h, pe_ProtocolID (pentry s e)) \<mapsto> i)"
proof
  fix x :: "EFI_HANDLE \<times> EFI_GUID"
  obtain h' g where x: "x = (h', g)" by force
  have old: "map_option (\<lambda>q. pi_Interface (pinterface (link_interface e h p i s) q)) (find (\<lambda>q. guid_of (link_interface e h p i s) q = g) (ih_Protocols (ihandle s h'))) =
      map_option (\<lambda>q. pi_Interface (pinterface s q)) (find (\<lambda>q. guid_of s q = g) (ih_Protocols (ihandle s h')))"
    if "h' \<in> set (gHandleList s)"
    using assms(2) that by (intro find_map_cong) (auto simp: link_interface_guid live_interfaces_def)
  show "hand_lookup (link_interface e h p i s) x = ((hand_lookup s)((h, pe_ProtocolID (pentry s e)) \<mapsto> i)) x"
    using assms(1) old by (auto simp: x hand_lookup_def link_interface_guid)
qed

lemma hand_unique_link:
  assumes "hand_unique s" and "p \<notin> live_interfaces s" and "hand_lookup s (h, pe_ProtocolID (pentry s e)) = None"
    and "h \<in> set (gHandleList s)"
  shows "hand_unique (link_interface e h p i s)"
proof -
  let ?s = "link_interface e h p i s"
  have fresh: "p \<notin> set (ih_Protocols (ihandle s h'))" if "h' \<in> set (gHandleList s)" for h'
    using assms(2) that by (auto simp: live_interfaces_def)
  have "inj_on (guid_of ?s) (set (ih_Protocols (ihandle s h')))" if "h' \<in> set (gHandleList s)" for h'
  proof -
    have "inj_on (guid_of s) (set (ih_Protocols (ihandle s h')))" using assms(1) that by (simp add: hand_unique_def)
    then show ?thesis
      by (rule inj_on_cong [THEN iffD1, rotated]) (use fresh [OF that] link_interface_guid(1) in metis)
  qed
  moreover have "pe_ProtocolID (pentry s e) \<notin> guid_of ?s ` set (ih_Protocols (ihandle s h))"
    using assms(3,4) fresh [OF assms(4)] link_interface_guid(1) [of _ p e h i s]
    by (auto simp: hand_lookup_def find_None_iff) metis
  ultimately show ?thesis
    using fresh by (auto simp: hand_unique_def link_interface_guid(2))
qed

text \<open>Finding or creating the entry.\<close>

lemma CoreFindProtocolEntry_create:
  assumes inv: "hand_inv s" and fresh: "env_AllocatePool env HAND_ENTRY s \<notin> set (mProtocolDatabase s)"
    and mem: "fst (CoreFindProtocolEntry env g True s) \<noteq> NULL"
  obtains e s1 where "CoreFindProtocolEntry env g True s = (e, s1)" "e \<noteq> NULL" "e \<in> set (mProtocolDatabase s1)"
    "pe_ProtocolID (pentry s1 e) = g" "hand_inv s1" "hand_lookup s1 = hand_lookup s" "hand_unique s1 = hand_unique s"
    "gHandleList s1 = gHandleList s" "gProtocolDatabaseLock s1 = gProtocolDatabaseLock s" "hand_Tpl s1 = hand_Tpl s"
    "ihandle s1 = ihandle s" "pinterface s1 = pinterface s"
proof (rule CoreFindProtocolEntry_cases [OF inv fresh, of g True])
  assume "CoreFindProtocolEntry env g True s = (NULL, s)"
  then show thesis using mem by simp
next
  fix e assume "CoreFindProtocolEntry env g True s = (e, s)" "e \<in> set (mProtocolDatabase s)" "e \<noteq> NULL" "pe_ProtocolID (pentry s e) = g"
  then show thesis using that inv by blast
next
  fix e assume e: "e \<notin> set (mProtocolDatabase s)" "e \<noteq> NULL" "\<forall>e \<in> set (mProtocolDatabase s). pe_ProtocolID (pentry s e) \<noteq> g"
    and eq: "CoreFindProtocolEntry env g True s = (e, update_entry e (\<lambda>_. \<lparr>pe_Signature = PROTOCOL_ENTRY_SIGNATURE,
         pe_ProtocolID = g, pe_Protocols = [], pe_Notify = []\<rparr>) (s\<lparr>mProtocolDatabase := mProtocolDatabase s @ [e]\<rparr>))"
  have wf: "hand_wf s" using inv by (simp add: hand_inv_def)
  show thesis
    by (rule that [OF eq e(2) _ _ hand_inv_new_entry [OF inv e] hand_lookup_new_entry [OF wf e(1)]])
      (simp_all add: update_entry_def)
qed

text \<open>An allocation that fails while the map is as in \<open>s\<close>.\<close>

definition pool_fails :: "hand_env \<Rightarrow> hand_state \<Rightarrow> bool" where
  "pool_fails env s \<longleftrightarrow> (\<exists>k s1. env_AllocatePool env k s1 = NULL \<and> gHandleList s1 = gHandleList s \<and> hand_lookup s1 = hand_lookup s)"

definition install_spec :: "hand_env \<Rightarrow> EFI_HANDLE \<Rightarrow> EFI_GUID \<Rightarrow> u64 \<Rightarrow> hand_state \<Rightarrow> EFI_STATUS \<times> EFI_HANDLE \<times> hand_state \<Rightarrow> bool" where
  "install_spec env h g i s = (\<lambda>(st, h', s'). hand_unique s' \<and>
     (if EFI_ERROR st
      then h' = h \<and> hand_lookup s' = hand_lookup s \<and>
        (h \<noteq> NULL \<and> (h \<notin> set (gHandleList s) \<or> hand_lookup s (h, g) \<noteq> None) \<or> pool_fails env s)
      else h' \<noteq> NULL \<and> (if h = NULL then h' \<notin> set (gHandleList s) else h' = h \<and> h \<in> set (gHandleList s)) \<and>
        hand_lookup s (h', g) = None \<and> hand_lookup s' = (hand_lookup s)((h', g) \<mapsto> i)))"

lemma hand_lookup_release: "hand_quiet env \<Longrightarrow> hand_lookup (CoreReleaseProtocolLock env s) = hand_lookup s"
  and hand_unique_release: "hand_quiet env \<Longrightarrow> hand_unique (CoreReleaseProtocolLock env s) = hand_unique s"
  using hand_same_release [of env s s] by (simp_all add: hand_lookup_same hand_unique_same)

lemma CoreNotifyProtocolEntry_same: "hand_same s (CoreNotifyProtocolEntry e s)"
  by (simp add: CoreNotifyProtocolEntry_def hand_same_def)

lemma pool_failsI: "env_AllocatePool env k s1 = NULL \<Longrightarrow> gHandleList s1 = gHandleList s \<Longrightarrow> hand_lookup s1 = hand_lookup s \<Longrightarrow> pool_fails env s"
  by (auto simp: pool_fails_def)

lemma link_refines:
  assumes inv: "hand_inv s" and u: "hand_unique s" and e: "e \<in> set (mProtocolDatabase s)" "pe_ProtocolID (pentry s e) = g"
    and none: "hand_lookup s (h, g) = None" and cb: "hand_callbacks env"
    and eq: "CoreInstallProtocolInterface_link env e h i ntf s = (st, h', s')"
  shows "install_spec env h g i s (st, h', s')"
  using eq
proof (cases rule: CoreInstallProtocolInterface_link_cases)
  case 1
  have "h \<noteq> NULL \<and> h \<notin> set (gHandleList s) \<or> pool_fails env s"
    using 1(1) eq pool_failsI [of env HAND_INTERFACE s s] pool_failsI [of env HAND_HANDLE s s]
    by (auto simp: CoreInstallProtocolInterface_link_def Let_def CoreValidateHandle_iff split: if_splits)
  then show ?thesis using 1 u by (auto simp: install_spec_def)
next
  case (2 p)
  define s1 where "s1 = (if h = NULL then new_handle h' s else s)"
  define s2 where "s2 = link_interface e h' p i s1"
  have wf: "hand_wf s" using inv by (simp add: hand_inv_def)
  have fresh: "h = NULL \<Longrightarrow> h' \<notin> set (gHandleList s)" "p \<notin> live_interfaces s"
    using 2 hand_callbacks.fresh_handle [OF cb inv] hand_callbacks.fresh_interface [OF cb inv] by simp_all
  have s1: "hand_lookup s1 = hand_lookup s" "hand_unique s1" "pe_ProtocolID (pentry s1 e) = g"
    using hand_lookup_new_handle [OF wf fresh(1)] u e by (auto simp: s1_def new_handle_def update_handle_def)
  have h': "h' \<in> set (gHandleList s1)" using 2 by (auto simp: s1_def new_handle_def update_handle_def)
  have p: "p \<notin> live_interfaces s1" using fresh by (auto simp: s1_def new_handle_def update_handle_def live_interfaces_def)
  have look: "hand_lookup s (h', g) = None" using none fresh 2 by (auto simp: hand_lookup_def)
  have "hand_unique s2"
    unfolding s2_def by (rule hand_unique_link [OF s1(2) p _ h']) (simp add: s1 look)
  moreover have "hand_lookup s2 = (hand_lookup s)((h', g) \<mapsto> i)"
    unfolding s2_def using hand_lookup_link [OF h' p] s1 by simp
  moreover have "hand_same s2 s'" using 2 by (auto simp: s2_def s1_def Let_def CoreNotifyProtocolEntry_same)
  ultimately have "hand_unique s'" "hand_lookup s' = (hand_lookup s)((h', g) \<mapsto> i)"
    using hand_lookup_same hand_unique_same by metis+
  then show ?thesis using 2 fresh look by (auto simp: install_spec_def)
qed

lemma insert_refines:
  assumes cb: "hand_callbacks env" and q: "hand_quiet env" and inv: "hand_inv s" and u: "hand_unique s"
    and st: "EFI_ERROR st" and none: "hand_lookup s (h, g) = None"
  shows "install_spec env h g i s (CoreInstallProtocolInterface_insert env st h g i ntf s)"
proof -
  define s1 where "s1 = CoreAcquireProtocolLock s"
  have s1: "hand_inv s1" "hand_unique s1" "hand_lookup s1 = hand_lookup s" "gHandleList s1 = gHandleList s"
    using inv u hand_lookup_same [OF hand_same_acquire] hand_unique_same [OF hand_same_acquire]
    by (simp_all add: s1_def CoreAcquireProtocolLock_def)
  show ?thesis
  proof (cases "fst (CoreFindProtocolEntry env g True s1) = NULL")
    case True
    then have "CoreFindProtocolEntry env g True s1 = (NULL, s1)" "env_AllocatePool env HAND_ENTRY s1 = NULL"
      by (auto simp: CoreFindProtocolEntry_def Let_def split: if_splits)
    then show ?thesis
      using st u s1 q pool_failsI [of env HAND_ENTRY s1 s]
      by (simp add: CoreInstallProtocolInterface_insert_def s1_def [symmetric] install_spec_def
          hand_lookup_release hand_unique_release)
  next
    case False
    have fr: "env_AllocatePool env HAND_ENTRY s1 \<notin> set (mProtocolDatabase s1)"
      by (rule hand_callbacks.fresh_entry [OF cb s1(1)])
    obtain e s2 where e: "CoreFindProtocolEntry env g True s1 = (e, s2)" "e \<noteq> NULL" "e \<in> set (mProtocolDatabase s2)"
      "pe_ProtocolID (pentry s2 e) = g" "hand_inv s2" "hand_lookup s2 = hand_lookup s1" "hand_unique s2 = hand_unique s1"
      "gHandleList s2 = gHandleList s1"
      by (rule CoreFindProtocolEntry_create [OF s1(1) fr False])
    obtain st' h' s3 where l: "CoreInstallProtocolInterface_link env e h i ntf s2 = (st', h', s3)" by (metis prod_cases3)
    have "install_spec env h g i s2 (st', h', s3)"
      by (rule link_refines [OF e(5) _ e(3,4) _ cb l]) (use e s1 none in simp_all)
    then show ?thesis
      using e s1 q l by (auto simp: CoreInstallProtocolInterface_insert_def s1_def [symmetric] install_spec_def pool_fails_def
          hand_lookup_release hand_unique_release)
  qed
qed

lemma CoreInstallProtocolInterfaceNotify_cases:
  assumes inv: "hand_inv s" and mem: "env_AllocatePool env HAND_OPEN (CoreAcquireProtocolLock s) \<noteq> NULL"
  obtains (present) s1 where "h \<noteq> NULL" "hand_lookup s (h, g) \<noteq> None" "hand_same s s1"
      "CoreInstallProtocolInterfaceNotify n env (Some h) (Some g) EFI_NATIVE_INTERFACE i ntf s =
         Some (EFI_INVALID_PARAMETER, Some h, CoreReleaseProtocolLock env s1)"
  | (insert) st s1 where "EFI_ERROR st" "hand_lookup s (h, g) = None"
      "s1 = s \<or> s1 = CoreReleaseProtocolLock env (CoreAcquireProtocolLock s)"
      "CoreInstallProtocolInterfaceNotify n env (Some h) (Some g) EFI_NATIVE_INTERFACE i ntf s =
         (let (st, h', s2) = CoreInstallProtocolInterface_insert env st h g i ntf s1 in Some (st, Some h', s2))"
proof (cases "h = NULL")
  case True
  then have "hand_lookup s (h, g) = None" using hand_invD(2) [OF inv] by (simp add: hand_lookup_def)
  then show thesis
    using True by (intro insert [of EFI_OUT_OF_RESOURCES s]) (simp_all add: CoreInstallProtocolInterfaceNotify_def efi_const)
next
  case False
  show thesis
    using inv
  proof (cases rule: CoreHandleProtocol_cases [of s h g n env])
    case invalid
    then show ?thesis
      using False by (intro insert [of EFI_INVALID_PARAMETER s]) (simp_all add: CoreInstallProtocolInterfaceNotify_def efi_const)
  next
    case unsupported
    then show ?thesis
      using False by (intro insert [of EFI_UNSUPPORTED "CoreReleaseProtocolLock env (CoreAcquireProtocolLock s)"])
        (simp_all add: CoreInstallProtocolInterfaceNotify_def efi_const)
  next
    case (found j s')
    then show ?thesis
      using False by (intro present [of s']) (simp_all add: CoreInstallProtocolInterfaceNotify_def efi_const)
  qed (use mem in simp)
qed

lemma Install_refines:
  assumes cb: "hand_callbacks env" and q: "hand_quiet env" and ok: "hand_ok t s" and u: "hand_unique s"
    and mem: "env_AllocatePool env HAND_OPEN (CoreAcquireProtocolLock s) \<noteq> NULL"
  shows "\<exists>st h' s'. CoreInstallProtocolInterface n env (Some h) (Some g) EFI_NATIVE_INTERFACE i s = Some (st, Some h', s') \<and>
     hand_ok t s' \<and> install_spec env h g i s (st, h', s')"
proof -
  have inv: "hand_inv s" using ok by (simp add: hand_ok_def)
  have "\<exists>st h' s'. CoreInstallProtocolInterface n env (Some h) (Some g) EFI_NATIVE_INTERFACE i s = Some (st, Some h', s') \<and>
     install_spec env h g i s (st, h', s')"
  proof (rule CoreInstallProtocolInterfaceNotify_cases [OF inv mem, of h g n i True])
    fix s1 assume "h \<noteq> NULL" "hand_lookup s (h, g) \<noteq> None" "hand_same s s1"
      "CoreInstallProtocolInterfaceNotify n env (Some h) (Some g) EFI_NATIVE_INTERFACE i True s =
         Some (EFI_INVALID_PARAMETER, Some h, CoreReleaseProtocolLock env s1)"
    then show ?thesis
      using u q by (simp add: CoreInstallProtocolInterface_def install_spec_def hand_lookup_release hand_unique_release
          hand_lookup_same [of s s1] hand_unique_same [of s s1])
  next
    fix st s1 assume st: "EFI_ERROR st" "hand_lookup s (h, g) = None"
      and s1: "s1 = s \<or> s1 = CoreReleaseProtocolLock env (CoreAcquireProtocolLock s)"
      and eq: "CoreInstallProtocolInterfaceNotify n env (Some h) (Some g) EFI_NATIVE_INTERFACE i True s =
         (let (st, h', s2) = CoreInstallProtocolInterface_insert env st h g i True s1 in Some (st, Some h', s2))"
    have same: "hand_same s s1" using s1 q by (auto intro: hand_same_release)
    have "hand_ok t s1" using s1 ok hand_callbacks.release_ok [OF cb acquire_ok [OF ok]] by blast
    then have "install_spec env h g i s1 (CoreInstallProtocolInterface_insert env st h g i True s1)"
      using st u same by (intro insert_refines [OF cb q]) (simp_all add: hand_ok_def hand_lookup_same [of s s1] hand_unique_same [of s s1])
    moreover have fields: "gHandleList s1 = gHandleList s" "hand_lookup s1 = hand_lookup s"
      using same hand_lookup_same by (simp_all add: hand_same_def)
    have "install_spec env h g i s1 = install_spec env h g i s" unfolding install_spec_def pool_fails_def fields ..
    ultimately show ?thesis unfolding CoreInstallProtocolInterface_def eq by (auto split: prod.split)
  qed
  then show ?thesis using ensuresD [OF hand_callbacks.Install_ok [OF cb ok]] by blast
qed

section \<open>Uninstalling\<close>

text \<open>
  Open items of the kinds \<^verbatim>\<open>BY_HANDLE_PROTOCOL\<close>, \<^verbatim>\<open>GET_PROTOCOL\<close> and \<^verbatim>\<open>TEST_PROTOCOL\<close> do not hold an
  interface.
\<close>

definition open_weak :: "OPEN_PROTOCOL_DATA \<Rightarrow> bool" where
  "open_weak d \<longleftrightarrow> od_Attributes d AND (EFI_OPEN_PROTOCOL_BY_HANDLE_PROTOCOL OR
     EFI_OPEN_PROTOCOL_GET_PROTOCOL OR EFI_OPEN_PROTOCOL_TEST_PROTOCOL) \<noteq> 0"

definition open_driver :: "OPEN_PROTOCOL_DATA \<Rightarrow> bool" where
  "open_driver d \<longleftrightarrow> od_Attributes d AND EFI_OPEN_PROTOCOL_BY_DRIVER \<noteq> 0"

lemma CoreDisconnectControllers_loop_idle:
  "\<forall>d \<in> set (pi_OpenList (pinterface s p)). \<not> open_driver d \<Longrightarrow> CoreDisconnectControllers_loop (Suc n) env h p s = Some (EFI_SUCCESS, s)"
  using find_None_iff [of "\<lambda>d. od_Attributes d AND EFI_OPEN_PROTOCOL_BY_DRIVER \<noteq> 0" "pi_OpenList (pinterface s p)"]
  by (auto simp: open_driver_def)

text \<open>With no driver on the interface, the weak items go and the rest decides.\<close>

definition drop_weak :: "u64 \<Rightarrow> hand_state \<Rightarrow> hand_state" where
  "drop_weak p s = update_interface p (\<lambda>x. x\<lparr>pi_OpenList := filter (\<lambda>d. \<not> open_weak d) (pi_OpenList x),
     pi_OpenListCount := pi_OpenListCount x - of_nat (length (pi_OpenList x) - length (filter (\<lambda>d. \<not> open_weak d) (pi_OpenList x)))\<rparr>) s"

lemma CoreDisconnectControllers_idle:
  assumes "\<forall>d \<in> set (pi_OpenList (pinterface s p)). \<not> open_driver d"
  shows "CoreDisconnectControllersUsingProtocolInterface (Suc n) env h p s =
     Some (if pi_OpenListCount (pinterface (drop_weak p s) p) > 0
       then (EFI_ACCESS_DENIED, CoreAcquireProtocolLock (env_ConnectController env h (CoreReleaseProtocolLock env (drop_weak p s))))
       else (EFI_SUCCESS, drop_weak p s))"
  unfolding CoreDisconnectControllersUsingProtocolInterface_def CoreDisconnectControllers_loop_idle [OF assms]
  by (simp add: drop_weak_def Let_def open_weak_def)

lemma hand_same_drop_weak: "hand_same s (drop_weak p s)"
  unfolding drop_weak_def by (rule hand_same_update_interface) simp

lemma hand_lookup_unlink:
  assumes inv: "hand_inv s" and u: "hand_unique s" and h: "h \<in> set (gHandleList s)" and p: "p \<in> set (ih_Protocols (ihandle s h))"
  shows "hand_lookup (unlink_interface p h k s) = (hand_lookup s)((h, guid_of s p) := None)"
    and "hand_unique (unlink_interface p h k s)"
proof -
  let ?s = "unlink_interface p h k s"
  have g: "guid_of ?s q = guid_of s q" for q by (simp add: guid_of_def)
  have i: "pi_Interface (pinterface ?s q) = pi_Interface (pinterface s q)" for q by simp
  have inj: "inj_on (guid_of s) (set (ih_Protocols (ihandle s h)))" using u h by (simp add: hand_unique_def)
  have d: "distinct (ih_Protocols (ihandle s h))" by (rule handle_okD(1) [OF hand_invD(6) [OF inv h]])
  have rm: "find (\<lambda>q. guid_of s q = x) (remove1 p (ih_Protocols (ihandle s h))) =
      (if x = guid_of s p then None else find (\<lambda>q. guid_of s q = x) (ih_Protocols (ihandle s h)))" for x
  proof (cases "x = guid_of s p")
    case True
    then show ?thesis using inj d p by (auto simp: find_None_iff inj_on_def set_remove1_eq)
  next
    case False
    then have "find (\<lambda>q. guid_of s q = x) (remove1 p ps) = find (\<lambda>q. guid_of s q = x) ps" for ps by (induction ps) auto
    with False show ?thesis by simp
  qed
  show "hand_lookup ?s = (hand_lookup s)((h, guid_of s p) := None)"
    using h by (auto simp: hand_lookup_def g i rm fun_eq_iff simp del: unlink_interface_fields(5))
  show "hand_unique ?s"
    using u unfolding hand_unique_def by (auto simp: g inj_on_def dest: notin_set_remove1 [rotated])
qed

lemma hand_lookup_drop_handle:
  assumes "distinct (gHandleList s)" and "ih_Protocols (ihandle s h) = []"
  shows "hand_lookup (drop_handle h s) = hand_lookup s" and "hand_unique s \<Longrightarrow> hand_unique (drop_handle h s)"
proof -
  have g: "guid_of (drop_handle h s) = guid_of s" by (simp add: guid_of_def drop_handle_def update_handle_def fun_eq_iff)
  show "hand_lookup (drop_handle h s) = hand_lookup s" and "hand_unique s \<Longrightarrow> hand_unique (drop_handle h s)"
    unfolding hand_lookup_def hand_unique_def g
    using assms by (auto simp: drop_handle_def update_handle_def fun_eq_iff set_remove1_eq)
qed

lemma hand_lookup_live:
  assumes u: "hand_unique s" and h: "h \<in> set (gHandleList s)" and p: "p \<in> set (ih_Protocols (ihandle s h))"
  shows "find (\<lambda>q. guid_of s q = guid_of s p) (ih_Protocols (ihandle s h)) = Some p"
proof -
  have "\<exists>q. find (\<lambda>q. guid_of s q = guid_of s p) (ih_Protocols (ihandle s h)) = Some q"
    using p find_None_iff [of "\<lambda>q. guid_of s q = guid_of s p" "ih_Protocols (ihandle s h)"] by fastforce
  then obtain q where q: "find (\<lambda>q. guid_of s q = guid_of s p) (ih_Protocols (ihandle s h)) = Some q" ..
  then have "q \<in> set (ih_Protocols (ihandle s h))" "guid_of s q = guid_of s p" by (auto simp: find_Some_iff)
  then have "q = p" using u h p by (auto simp: hand_unique_def inj_on_def)
  then show ?thesis using q by simp
qed

lemma CoreFindProtocolInterface_found:
  assumes "CoreFindProtocolInterface env h g i s \<noteq> NULL"
  shows "guid_of s (CoreFindProtocolInterface env h g i s) = g"
    and "pi_Interface (pinterface s (CoreFindProtocolInterface env h g i s)) = i"
proof -
  let ?p = "CoreFindProtocolInterface env h g i s" and ?e = "fst (CoreFindProtocolEntry env g False s)"
  have e: "?e \<noteq> NULL" using assms by (auto simp: CoreFindProtocolInterface_def Let_def)
  then have "pe_ProtocolID (pentry s ?e) = g"
    using find_address_Some [of "\<lambda>e. pe_ProtocolID (pentry s e) = g" "mProtocolDatabase s"] by (simp add: CoreFindProtocolEntry_def)
  moreover have "pi_Interface (pinterface s ?p) = i \<and> pi_Protocol (pinterface s ?p) = ?e"
    using assms e find_address_Some [of "\<lambda>p. pi_Interface (pinterface s p) = i \<and> pi_Protocol (pinterface s p) = ?e" "ih_Protocols (ihandle s h)"]
    by (simp add: CoreFindProtocolInterface_def Let_def)
  ultimately show "guid_of s ?p = g" "pi_Interface (pinterface s ?p) = i" by (simp_all add: guid_of_def)
qed

lemma CoreFindProtocolInterface_eq:
  assumes inv: "hand_inv s" and u: "hand_unique s"
  shows "CoreFindProtocolInterface env h g i s = (if hand_lookup s (h, g) = Some i then CoreGetProtocolInterface h g s else NULL)"
proof (cases "CoreFindProtocolInterface env h g i s = NULL")
  case False
  let ?p = "CoreFindProtocolInterface env h g i s"
  have h: "h \<in> set (gHandleList s)" and p: "?p \<in> set (ih_Protocols (ihandle s h))"
    using CoreFindProtocolInterface_locked [OF inv False] by blast+
  have f: "find (\<lambda>q. guid_of s q = g) (ih_Protocols (ihandle s h)) = Some ?p"
    using hand_lookup_live [OF u h p] CoreFindProtocolInterface_found [OF False] by simp
  then have "hand_lookup s (h, g) = Some i" using h CoreFindProtocolInterface_found(2) [OF False] by (simp add: hand_lookup_def)
  moreover have "h \<noteq> NULL" using h hand_invD(2) [OF inv] by blast
  then have "CoreGetProtocolInterface h g s = ?p"
    using f h by (simp add: CoreGetProtocolInterface_def CoreValidateHandle_iff find_address_def guid_of_def)
  ultimately show ?thesis by simp
next
  case True
  have "hand_lookup s (h, g) \<noteq> Some i"
  proof
    assume "hand_lookup s (h, g) = Some i"
    then obtain p where h: "h \<in> set (gHandleList s)" and f: "find (\<lambda>q. guid_of s q = g) (ih_Protocols (ihandle s h)) = Some p"
      and i: "pi_Interface (pinterface s p) = i" by (auto simp: hand_lookup_def split: if_splits)
    then have p: "p \<in> set (ih_Protocols (ihandle s h))" "guid_of s p = g" by (auto simp: find_Some_iff)
    let ?e = "pi_Protocol (pinterface s p)"
    have e: "?e \<in> set (mProtocolDatabase s)" by (rule handle_okD(4) [OF hand_invD(6) [OF inv h] p(1)])
    have "fst (CoreFindProtocolEntry env g False s) = ?e"
      using find_address_unique [OF hand_invD(4) [OF inv] e, of "\<lambda>e. pe_ProtocolID (pentry s e) = g"]
        inj_onD [OF hand_invD(5) [OF inv]] e p(2) by (auto simp: CoreFindProtocolEntry_def guid_of_def)
    moreover have "?e \<noteq> NULL" using e hand_invD(4) [OF inv] by auto
    ultimately have "find_address (\<lambda>q. pi_Interface (pinterface s q) = i \<and> pi_Protocol (pinterface s q) = ?e) (ih_Protocols (ihandle s h)) = NULL"
      using True by (simp add: CoreFindProtocolInterface_def Let_def)
    then show False
      using p(1) i find_address_NULL [OF hand_inv_NULL [OF inv], of "\<lambda>q. pi_Interface (pinterface s q) = i \<and> pi_Protocol (pinterface s q) = ?e" h]
      by blast
  qed
  then show ?thesis using True by simp
qed

definition uninstall_spec :: "EFI_HANDLE \<Rightarrow> EFI_GUID \<Rightarrow> u64 \<Rightarrow> hand_state \<Rightarrow> EFI_STATUS \<times> hand_state \<Rightarrow> bool" where
  "uninstall_spec h g i s = (\<lambda>(st, s'). hand_unique s' \<and>
     (if h \<notin> set (gHandleList s) then st = EFI_INVALID_PARAMETER \<and> hand_lookup s' = hand_lookup s
      else if hand_lookup s (h, g) \<noteq> Some i then st = EFI_NOT_FOUND \<and> hand_lookup s' = hand_lookup s
      else if \<exists>d \<in> set (pi_OpenList (pinterface s (CoreGetProtocolInterface h g s))). \<not> open_weak d
      then st = EFI_ACCESS_DENIED \<and> hand_lookup s' = hand_lookup s
      else st = EFI_SUCCESS \<and> hand_lookup s' = (hand_lookup s)((h, g) := None) \<and>
        (h \<in> set (gHandleList s') \<longleftrightarrow> (\<exists>g'. g' \<noteq> g \<and> hand_lookup s (h, g') \<noteq> None))))"

lemma of_nat_u64_eq_0: "n < 2 ^ 64 \<Longrightarrow> (of_nat n :: u64) = 0 \<longleftrightarrow> n = 0"
  by (auto simp: word_of_nat_eq_0_iff dest!: dvd_imp_le)

lemma drop_weak_count:
  assumes "pi_OpenListCount (pinterface s p) = of_nat (length (pi_OpenList (pinterface s p)))"
    and "length (pi_OpenList (pinterface s p)) < 2 ^ 64"
  shows "pi_OpenListCount (pinterface (drop_weak p s) p) > 0 \<longleftrightarrow> (\<exists>d \<in> set (pi_OpenList (pinterface s p)). \<not> open_weak d)"
proof -
  let ?ds = "pi_OpenList (pinterface s p)" and ?kept = "filter (\<lambda>d. \<not> open_weak d) (pi_OpenList (pinterface s p))"
  have le: "length ?kept \<le> length ?ds" by simp
  have "pi_OpenListCount (pinterface (drop_weak p s) p) = of_nat (length ?kept)"
    using assms(1) le by (simp add: drop_weak_def update_interface_def of_nat_diff)
  moreover have "(of_nat (length ?kept) :: u64) = 0 \<longleftrightarrow> length ?kept = 0"
    by (rule of_nat_u64_eq_0) (rule le_less_trans [OF le assms(2)])
  ultimately show ?thesis by (simp add: word_gt_0 filter_empty_conv)
qed

lemma uninstall_remove_refines:
  assumes inv: "hand_inv s" and u: "hand_unique s" and look: "hand_lookup s (h, g) = Some i"
    and eq: "CoreUninstallProtocolInterface_remove env h g i s = (st, s')"
  shows "st = EFI_SUCCESS" "hand_lookup s' = (hand_lookup s)((h, g) := None)" "hand_unique s'"
    "h \<in> set (gHandleList s') \<longleftrightarrow> (\<exists>g'. g' \<noteq> g \<and> hand_lookup s (h, g') \<noteq> None)"
proof -
  define p where "p = CoreFindProtocolInterface env h g i s"
  have "CoreGetProtocolInterface h g s \<noteq> NULL" using hand_lookup_None [OF inv, of h g] look by simp
  then have p: "p \<noteq> NULL" using CoreFindProtocolInterface_eq [OF inv u, of env h g i] look by (simp add: p_def)
  have h: "h \<in> set (gHandleList s)" "p \<in> set (ih_Protocols (ihandle s h))"
    using CoreFindProtocolInterface_locked [OF inv] p unfolding p_def by blast+
  have g: "guid_of s p = g" using CoreFindProtocolInterface_found p unfolding p_def by blast
  define s2 where "s2 = unlink_interface p h (gHandleDatabaseKey s + 1) s"
  have s2: "hand_lookup s2 = (hand_lookup s)((h, g) := None)" "hand_unique s2" "gHandleList s2 = gHandleList s"
    using hand_lookup_unlink [OF inv u h] g by (simp_all add: s2_def)
  have r: "st = EFI_SUCCESS" "s' = (if ih_Protocols (ihandle s2 h) = [] then drop_handle h s2 else s2)"
    using eq p by (simp_all add: CoreUninstallProtocolInterface_remove_eq Let_def p_def [symmetric] s2_def cong: if_cong)
  have d: "distinct (gHandleList s2)" using s2(3) hand_invD(1) [OF inv] by simp
  show "st = EFI_SUCCESS" by (rule r)
  show "hand_lookup s' = (hand_lookup s)((h, g) := None)" "hand_unique s'"
    using s2 r hand_lookup_drop_handle [OF d] by auto
  have "ih_Protocols (ihandle s2 h) = [] \<longleftrightarrow> (\<forall>x. hand_lookup s2 (h, x) = None)"
    using h s2(3) by (auto simp: hand_lookup_def find_None_iff) (metis list.set_intros(1) neq_Nil_conv)
  moreover have "h \<in> set (gHandleList s') \<longleftrightarrow> ih_Protocols (ihandle s2 h) \<noteq> []"
    using r(2) h s2(3) d by (simp add: drop_handle_def update_handle_def)
  ultimately show "h \<in> set (gHandleList s') \<longleftrightarrow> (\<exists>g'. g' \<noteq> g \<and> hand_lookup s (h, g') \<noteq> None)"
    unfolding s2(1) by auto
qed

end
