(* ===== verification/HandProps.thy ===== *)
theory HandProps
  imports HandLookup
begin

text \<open>
  Uninstalling an interface, as an operation on the map of \<open>HandLookup\<close>.
\<close>

lemma hand_inv_drop_weak: "hand_inv s \<Longrightarrow> hand_inv (drop_weak p s)"
  unfolding drop_weak_def by (rule hand_inv_interface_count) (simp_all add: of_nat_diff)

lemma CoreAcquireProtocolLock_fields [simp]:
  "pinterface (CoreAcquireProtocolLock s) = pinterface s" "gHandleList (CoreAcquireProtocolLock s) = gHandleList s"
  "CoreGetProtocolInterface h g (CoreAcquireProtocolLock s) = CoreGetProtocolInterface h g s"
  "hand_lookup (CoreAcquireProtocolLock s) = hand_lookup s" "hand_unique (CoreAcquireProtocolLock s) = hand_unique s"
  using hand_lookup_same [OF hand_same_acquire] hand_unique_same [OF hand_same_acquire]
  by (simp_all add: CoreAcquireProtocolLock_def CoreGetProtocolInterface_def CoreValidateHandle_def)

lemma gHandleList_release: "hand_quiet env \<Longrightarrow> gHandleList (CoreReleaseProtocolLock env s) = gHandleList s"
  by (simp add: CoreReleaseProtocolLock_def hand_quiet_def)

lemma CoreUninstallProtocolInterface_run:
  assumes inv: "hand_inv s" and u: "hand_unique s" and look: "hand_lookup s (h, g) = Some i"
    and idle: "\<forall>d \<in> set (pi_OpenList (pinterface s (CoreGetProtocolInterface h g s))). \<not> open_driver d"
    and small: "length (pi_OpenList (pinterface s (CoreGetProtocolInterface h g s))) < 2 ^ 64"
  defines "s2 \<equiv> drop_weak (CoreGetProtocolInterface h g s) (CoreAcquireProtocolLock s)"
  shows "CoreUninstallProtocolInterface (Suc n) env h (Some g) i s =
      (if \<exists>d \<in> set (pi_OpenList (pinterface s (CoreGetProtocolInterface h g s))). \<not> open_weak d
       then Some (EFI_ACCESS_DENIED, CoreReleaseProtocolLock env (CoreAcquireProtocolLock (env_ConnectController env h (CoreReleaseProtocolLock env s2))))
       else let (st, s3) = CoreUninstallProtocolInterface_remove env h g i s2 in Some (st, CoreReleaseProtocolLock env s3))"
proof -
  define p where "p = CoreGetProtocolInterface h g s"
  have p: "p \<noteq> NULL" using hand_lookup_None [OF inv, of h g] look by (auto simp: p_def)
  have h: "h \<in> set (gHandleList s)" "p \<in> set (ih_Protocols (ihandle s h))"
    using CoreGetProtocolInterface_locked [OF inv] p unfolding p_def by blast+
  then have h0: "h \<noteq> NULL" using hand_invD(2) [OF inv] by auto
  have find1: "CoreFindProtocolInterface env h g i (CoreAcquireProtocolLock s) = p"
    using CoreFindProtocolInterface_eq [of "CoreAcquireProtocolLock s"] inv u look by (simp add: p_def)
  have "pi_OpenListCount (pinterface s2 p) > 0 \<longleftrightarrow> (\<exists>d \<in> set (pi_OpenList (pinterface s p)). \<not> open_weak d)"
    using drop_weak_count [of "CoreAcquireProtocolLock s" p] handle_okD(6) [OF hand_invD(6) [OF inv h(1)] h(2)] small
    by (simp add: s2_def p_def)
  moreover note CoreDisconnectControllers_idle [of "CoreAcquireProtocolLock s" p n env h]
  ultimately show ?thesis
    using h h0 p find1 idle by (simp add: CoreUninstallProtocolInterface_def CoreValidateHandle_iff p_def [symmetric] s2_def)
qed

lemma Uninstall_refines:
  assumes cb: "hand_callbacks env" and q: "hand_quiet env" and ok: "hand_ok t s" and u: "hand_unique s"
    and conn: "\<forall>h s. hand_same s (env_ConnectController env h s)"
    and idle: "\<forall>d \<in> set (pi_OpenList (pinterface s (CoreGetProtocolInterface h g s))). \<not> open_driver d"
    and small: "length (pi_OpenList (pinterface s (CoreGetProtocolInterface h g s))) < 2 ^ 64"
  shows "\<exists>r. CoreUninstallProtocolInterface (Suc n) env h (Some g) i s = Some r \<and> hand_ok t (snd r) \<and> uninstall_spec h g i s r"
proof -
  have inv: "hand_inv s" using ok by (simp add: hand_ok_def)
  have "\<exists>r. CoreUninstallProtocolInterface (Suc n) env h (Some g) i s = Some r \<and> uninstall_spec h g i s r"
  proof (cases "hand_lookup s (h, g) = Some i")
    case False
    then have "CoreFindProtocolInterface env h g i (CoreAcquireProtocolLock s) = NULL"
      using CoreFindProtocolInterface_eq [of "CoreAcquireProtocolLock s"] inv u by simp
    then show ?thesis
      using False hand_invD(2) [OF inv] u hand_lookup_release [OF q] hand_unique_release [OF q]
      by (auto simp: CoreUninstallProtocolInterface_def CoreValidateHandle_iff uninstall_spec_def)
  next
    case True
    define s2 where "s2 = drop_weak (CoreGetProtocolInterface h g s) (CoreAcquireProtocolLock s)"
    have h: "h \<in> set (gHandleList s)" using True by (auto simp: hand_lookup_def split: if_splits)
    have same: "hand_same s s2" unfolding s2_def by (rule hand_same_trans [OF hand_same_acquire hand_same_drop_weak])
    have s2: "hand_inv s2" "hand_unique s2" "hand_lookup s2 = hand_lookup s"
      using inv u same by (simp_all add: s2_def hand_inv_drop_weak hand_lookup_same [of s s2, unfolded s2_def] hand_unique_same [of s s2, unfolded s2_def])
    have denied: "hand_same s (CoreReleaseProtocolLock env (CoreAcquireProtocolLock (env_ConnectController env h (CoreReleaseProtocolLock env s2))))"
      using conn hand_same_release [OF q] hand_same_trans hand_same_acquire same by meson
    obtain st s3 where r: "CoreUninstallProtocolInterface_remove env h g i s2 = (st, s3)" by force
    note rr = uninstall_remove_refines [OF s2(1,2) _ r]
    note run = CoreUninstallProtocolInterface_run [OF inv u True idle small, of n env, folded s2_def]
    show ?thesis
      unfolding run uninstall_spec_def
      using True h r rr s2(3) hand_lookup_same [OF denied] hand_unique_same [OF denied] u
        hand_lookup_release [OF q, of s3] hand_unique_release [OF q, of s3] gHandleList_release [OF q, of s3]
      by (simp add: Let_def)
  qed
  then show ?thesis using ensuresD [OF hand_callbacks.Uninstall_ok [OF cb ok]] by blast
qed

end
