(* ===== verification/HandOpen.thy ===== *)
theory HandOpen
  imports HandProps "HOL-Library.Sublist"
begin

text \<open>
  Opening and closing protocols: an interface has at most one owner (a driver or an exclusive
  agent), and closing takes away what opening recorded.
\<close>

definition open_excl :: "OPEN_PROTOCOL_DATA \<Rightarrow> bool" where
  "open_excl d \<longleftrightarrow> od_Attributes d AND EFI_OPEN_PROTOCOL_EXCLUSIVE \<noteq> 0"

definition open_owner :: "OPEN_PROTOCOL_DATA \<Rightarrow> bool" where
  "open_owner d \<longleftrightarrow> open_driver d \<or> open_excl d"

definition owning :: "u32 \<Rightarrow> bool" where
  "owning a \<longleftrightarrow> a \<in> {EFI_OPEN_PROTOCOL_BY_DRIVER, EFI_OPEN_PROTOCOL_BY_DRIVER OR EFI_OPEN_PROTOCOL_EXCLUSIVE, EFI_OPEN_PROTOCOL_EXCLUSIVE}"

abbreviation OpenList :: "hand_state \<Rightarrow> u64 \<Rightarrow> OPEN_PROTOCOL_DATA list" where
  "OpenList s p \<equiv> pi_OpenList (pinterface s p)"

definition open_matches :: "EFI_HANDLE \<Rightarrow> EFI_HANDLE \<Rightarrow> u32 \<Rightarrow> OPEN_PROTOCOL_DATA \<Rightarrow> bool" where
  "open_matches img ctl att d \<longleftrightarrow> od_AgentHandle d = img \<and> od_Attributes d = att \<and> od_ControllerHandle d = ctl"

lemma scan_Cons:
  "CoreOpenProtocol_scan img ctl att (d # ds) i a b =
     (if open_driver d \<and> open_matches img ctl att d then ScanStarted
      else if \<not> open_excl d \<and> open_matches img ctl att d then ScanCounted i
      else CoreOpenProtocol_scan img ctl att ds (i + 1) (a \<or> open_driver d) (b \<or> open_excl d))"
  by (auto simp: open_driver_def open_excl_def open_matches_def Let_def)

declare CoreOpenProtocol_scan.simps(2) [simp del]

lemma scan_done:
  "CoreOpenProtocol_scan img ctl att ds i a b = ScanDone a' b' \<Longrightarrow>
     a' = (a \<or> (\<exists>d \<in> set ds. open_driver d)) \<and> b' = (b \<or> (\<exists>d \<in> set ds. open_excl d))"
proof (induction ds arbitrary: i a b)
  case (Cons d ds)
  show ?case using Cons.prems Cons.IH [of "i + 1" "a \<or> open_driver d" "b \<or> open_excl d"] by (auto simp: scan_Cons split: if_splits)
qed simp

lemma scan_counted:
  "CoreOpenProtocol_scan img ctl att ds i a b = ScanCounted k \<Longrightarrow>
     i \<le> k \<and> k - i < length ds \<and> \<not> open_owner (ds ! (k - i)) \<and> open_matches img ctl att (ds ! (k - i))"
proof (induction ds arbitrary: i a b)
  case (Cons d ds)
  have "Suc i \<le> k \<Longrightarrow> (d # ds) ! (k - i) = ds ! (k - Suc i)" by (simp add: Suc_diff_Suc [symmetric])
  then show ?case
    using Cons.prems Cons.IH [of "i + 1" "a \<or> open_driver d" "b \<or> open_excl d"]
    by (auto simp: scan_Cons open_owner_def split: if_splits)
qed simp

lemma check_attributes:
  assumes "\<not> EFI_ERROR (CoreOpenProtocol_check h img ctl att s)"
  shows "owning att \<and> img \<noteq> NULL \<or>
     att \<in> {EFI_OPEN_PROTOCOL_BY_CHILD_CONTROLLER, EFI_OPEN_PROTOCOL_BY_HANDLE_PROTOCOL, EFI_OPEN_PROTOCOL_GET_PROTOCOL, EFI_OPEN_PROTOCOL_TEST_PROTOCOL}"
  using assms by (auto simp: CoreOpenProtocol_check_def CoreValidateHandle_iff owning_def split: if_splits)

definition disconnect_closes :: "hand_env \<Rightarrow> bool" where
  "disconnect_closes env \<longleftrightarrow> (\<forall>h a s p. subseq (OpenList (snd (env_DisconnectController env h a s)) p) (OpenList s p))"

lemma CoreOpenProtocol_disconnect_closes:
  assumes "hand_quiet env" and "disconnect_closes env"
  shows "CoreOpenProtocol_disconnect n env h p s = Some (st, s') \<Longrightarrow>
     (\<forall>q. subseq (OpenList s' q) (OpenList s q)) \<and> (EFI_ERROR st \<or> (\<forall>d \<in> set (OpenList s' p). \<not> open_driver d))"
proof (induction n arbitrary: s)
  case (Suc n)
  show ?case
  proof (cases "find (\<lambda>OpenData. od_Attributes OpenData AND EFI_OPEN_PROTOCOL_BY_DRIVER \<noteq> 0) (OpenList s p)")
    case None
    then have "\<forall>d \<in> set (OpenList s p). \<not> open_driver d" by (auto simp: find_None_iff open_driver_def)
    then show ?thesis using Suc.prems None by auto
  next
    case (Some d)
    obtain st1 s1 where d: "env_DisconnectController env h (od_AgentHandle d) (CoreReleaseProtocolLock env s) = (st1, s1)" by force
    have sub: "subseq (OpenList (CoreAcquireProtocolLock s1) q) (OpenList s q)" for q
      using assms(2) [unfolded disconnect_closes_def, rule_format, of h "od_AgentHandle d" "CoreReleaseProtocolLock env s" q] d assms(1)
      by (simp add: CoreReleaseProtocolLock_def hand_quiet_def)
    show ?thesis
    proof (cases "EFI_ERROR st1")
      case True
      then show ?thesis using Suc.prems Some d sub by auto
    next
      case False
      then have "CoreOpenProtocol_disconnect n env h p (CoreAcquireProtocolLock s1) = Some (st, s')"
        using Suc.prems Some d by simp
      from Suc.IH [OF this] show ?thesis using sub subseq_order.order_trans by blast
    qed
  qed
qed simp

lemma owner_new:
  "open_owner \<lparr>od_Signature = x, od_AgentHandle = img, od_ControllerHandle = ctl, od_Attributes = att, od_OpenCount = 1\<rparr> \<longleftrightarrow>
     att AND EFI_OPEN_PROTOCOL_BY_DRIVER \<noteq> 0 \<or> att AND EFI_OPEN_PROTOCOL_EXCLUSIVE \<noteq> 0"
  by (simp add: open_owner_def open_driver_def open_excl_def)

lemma length_filter_update_non_owner:
  assumes "k < length ds" and "\<not> P (ds ! k)" and "\<not> P x"
  shows "filter P (ds[k := x]) = filter P ds"
proof -
  have "ds = take k ds @ ds ! k # drop (Suc k) ds" by (rule id_take_nth_drop [OF assms(1)])
  moreover have "ds[k := x] = take k ds @ x # drop (Suc k) ds" by (rule upd_conv_take_nth_drop [OF assms(1)])
  ultimately show ?thesis using assms(2,3) by (metis filter.simps(2) filter_append)
qed

lemma subseq_few:
  assumes "subseq xs ys" and "length (filter P ys) \<le> 1"
  shows "length (filter P xs) \<le> 1"
  using list_emb_length [OF subseq_filter [OF assms(1)]] assms(2) by (rule order_trans)

text \<open>The part under the lock.\<close>

lemma CoreOpenProtocol_open_owners:
  assumes q: "hand_quiet env" and dis: "disconnect_closes env" and chk: "\<not> EFI_ERROR (CoreOpenProtocol_check h img ctl att s0)"
    and eq: "CoreOpenProtocol_open n env h p img ctl att s = Some (st, s')"
    and one: "\<forall>q. length (filter open_owner (OpenList s q)) \<le> 1"
  shows "(\<forall>q. length (filter open_owner (OpenList s' q)) \<le> 1) \<and>
    (owning att \<and> st = EFI_SUCCESS \<longrightarrow> filter open_owner (OpenList s' p) =
       [\<lparr>od_Signature = OPEN_PROTOCOL_DATA_SIGNATURE, od_AgentHandle = img, od_ControllerHandle = ctl, od_Attributes = att, od_OpenCount = 1\<rparr>])"
proof -
  let ?new = "\<lparr>od_Signature = OPEN_PROTOCOL_DATA_SIGNATURE, od_AgentHandle = img, od_ControllerHandle = ctl, od_Attributes = att, od_OpenCount = 1\<rparr>"
  have att: "owning att \<and> img \<noteq> NULL \<or> \<not> owning att \<and> \<not> open_owner ?new"
    using check_attributes [OF chk] by (auto simp: owner_new owning_def efi_const)
  have own: "owning att \<Longrightarrow> open_owner ?new" by (auto simp: owner_new owning_def efi_const)
  have add: ?thesis if a: "CoreOpenProtocol_add env p img ctl att s1 = (st, s')"
      and sub: "\<forall>q. subseq (OpenList s1 q) (OpenList s q)" and free: "owning att \<Longrightarrow> \<forall>d \<in> set (OpenList s1 p). \<not> open_owner d" for s1
  proof -
    have le: "length (filter open_owner (OpenList s1 q)) \<le> 1" for q
      using one sub subseq_few by blast
    have emp: "owning att \<Longrightarrow> filter open_owner (OpenList s1 p) = []" using free by (simp add: filter_empty_conv)
    show ?thesis
      using a le emp att own by (auto simp: CoreOpenProtocol_add_def update_interface_def split: if_splits)
  qed
  show ?thesis
  proof (cases "CoreOpenProtocol_scan img ctl att (OpenList s p) 0 False False")
    case ScanStarted
    then show ?thesis using eq one by (auto simp: CoreOpenProtocol_open_def)
  next
    case (ScanCounted k)
    note k = scan_counted [OF this]
    have "\<not> owning att" using k own by (auto simp: open_owner_def open_driver_def open_excl_def open_matches_def)
    moreover have "filter open_owner (OpenList s' q) = filter open_owner (OpenList s q)" for q
      using eq ScanCounted k length_filter_update_non_owner [of k "OpenList s p" open_owner]
      by (auto simp: CoreOpenProtocol_open_def update_interface_def open_owner_def open_driver_def open_excl_def)
    ultimately show ?thesis using one by simp
  next
    case (ScanDone byd exc)
    note f = scan_done [OF this]
    define ex where "ex = (att = EFI_OPEN_PROTOCOL_BY_DRIVER OR EFI_OPEN_PROTOCOL_EXCLUSIVE \<or> att = EFI_OPEN_PROTOCOL_EXCLUSIVE)"
    consider (denied) "st = EFI_ACCESS_DENIED" "s' = s"
      | (disc) "ex" "\<not> exc" "CoreOpenProtocol_disconnect n env h p s = Some (st, s')" "EFI_ERROR st"
      | (conn) st1 s1 where "ex" "\<not> exc" "CoreOpenProtocol_disconnect n env h p s = Some (st1, s1)" "\<not> EFI_ERROR st1"
          "CoreOpenProtocol_add env p img ctl att s1 = (st, s')"
      | (direct) "owning att \<longrightarrow> \<not> byd \<and> \<not> exc" "CoreOpenProtocol_add env p img ctl att s = (st, s')"
      using eq ScanDone by (auto simp: CoreOpenProtocol_open_def ex_def owning_def split: if_splits bind_splits)
    then show ?thesis
    proof cases
      case disc
      have "\<forall>q. subseq (OpenList s' q) (OpenList s q)" using CoreOpenProtocol_disconnect_closes [OF q dis disc(3)] by blast
      then have "\<forall>q. length (filter open_owner (OpenList s' q)) \<le> 1" using one subseq_few by blast
      then show ?thesis using disc(4) by auto
    next
      case conn
      have c: "\<forall>q. subseq (OpenList s1 q) (OpenList s q)" "\<forall>d \<in> set (OpenList s1 p). \<not> open_driver d"
        using CoreOpenProtocol_disconnect_closes [OF q dis conn(3)] conn(4) by blast+
      moreover have "\<forall>d \<in> set (OpenList s1 p). \<not> open_excl d"
        using list_emb_set [OF c(1) [rule_format, of p]] f conn(2) by blast
      ultimately show ?thesis using add [OF conn(5)] by (simp add: open_owner_def)
    next
      case direct
      then show ?thesis using add [of s] f by (auto simp: open_owner_def)
    qed (use one in auto)
  qed
qed


lemma scan_nomatch:
  assumes "\<forall>d \<in> set ds. \<not> (od_AgentHandle d = img \<and> od_ControllerHandle d = ctl)"
  shows "CoreOpenProtocol_scan img ctl att ds i a b = ScanDone (a \<or> (\<exists>d \<in> set ds. open_driver d)) (b \<or> (\<exists>d \<in> set ds. open_excl d))"
  using assms by (induction ds arbitrary: i a b) (auto simp: scan_Cons open_matches_def)

lemma CoreGetProtocolInterface_same:
  "hand_same s s' \<Longrightarrow> CoreGetProtocolInterface h g s' = CoreGetProtocolInterface h g s"
  by (simp add: hand_same_def CoreGetProtocolInterface_def CoreValidateHandle_iff)

definition add_open :: "EFI_HANDLE \<Rightarrow> EFI_HANDLE \<Rightarrow> u32 \<Rightarrow> PROTOCOL_INTERFACE \<Rightarrow> PROTOCOL_INTERFACE" where
  "add_open img ctl att p = p\<lparr>pi_OpenList := pi_OpenList p @
     [\<lparr>od_Signature = OPEN_PROTOCOL_DATA_SIGNATURE, od_AgentHandle = img, od_ControllerHandle = ctl, od_Attributes = att, od_OpenCount = 1\<rparr>],
     pi_OpenListCount := pi_OpenListCount p + 1\<rparr>"


end
