(* ===== verification/HandOpens.thy ===== *)
theory HandOpens
  imports HandOpen
begin

text \<open>
  Which interface a handle has for a protocol (\<open>hand_find\<close>), and what installing, opening and
  removing do to it and to the open items of the other interfaces.
\<close>

section \<open>The interface of a handle and a protocol\<close>

definition hand_find :: "hand_state \<Rightarrow> EFI_HANDLE \<times> EFI_GUID \<Rightarrow> u64 option" where
  "hand_find s = (\<lambda>(h, g). if h \<in> set (gHandleList s) then find (\<lambda>p. guid_of s p = g) (ih_Protocols (ihandle s h)) else None)"

lemma hand_lookup_find: "hand_lookup s x = map_option (\<lambda>p. pi_Interface (pinterface s p)) (hand_find s x)"
  by (cases x) (simp add: hand_lookup_def hand_find_def)

lemma hand_find_None: "hand_find s x = None \<longleftrightarrow> hand_lookup s x = None"
  by (simp add: hand_lookup_find)

lemma hand_find_same: "hand_same s s' \<Longrightarrow> hand_find s' = hand_find s"
  unfolding hand_find_def guid_of_same [of s s'] by (auto simp: hand_same_def fun_eq_iff)

lemma find_SomeD: "find P xs = Some x \<Longrightarrow> x \<in> set xs \<and> P x"
  by (auto simp: find_Some_iff)

lemma hand_find_live:
  assumes "hand_find s (h, g) = Some p"
  shows "h \<in> set (gHandleList s)" "p \<in> set (ih_Protocols (ihandle s h))" "guid_of s p = g" "p \<in> live_interfaces s"
  using assms by (auto simp: hand_find_def live_interfaces_def dest: find_SomeD split: if_splits)

lemma CoreGetProtocolInterface_find:
  assumes "hand_inv s" and "hand_find s (h, g) = Some p"
  shows "CoreGetProtocolInterface h g s = p"
proof -
  have h: "h \<in> set (gHandleList s)" using hand_find_live(1) [OF assms(2)] .
  then have "h \<noteq> NULL" using hand_invD(2) [OF assms(1)] by blast
  then show ?thesis
    using assms(2) h by (simp add: hand_find_def CoreGetProtocolInterface_def CoreValidateHandle_iff find_address_def guid_of_def)
qed

text \<open>Two handles do not share an interface.\<close>

lemma hand_find_inj:
  assumes inv: "hand_inv s" and "hand_find s x = Some p" "hand_find s y = Some p"
  shows "x = y"
proof -
  obtain h g h' g' where [simp]: "x = (h, g)" "y = (h', g')" by (metis prod.exhaust)
  have "pi_Handle (pinterface s p) = h" "pi_Handle (pinterface s p) = h'"
    using handle_okD [OF hand_invD(6) [OF inv]] hand_find_live assms by auto
  then show ?thesis using hand_find_live(3) [of s h g p] hand_find_live(3) [of s h' g' p] assms by simp
qed

lemma find_cong_on: "(\<And>x. x \<in> set xs \<Longrightarrow> P x = Q x) \<Longrightarrow> find P xs = find Q xs"
  by (induction xs) auto

lemma hand_find_new_handle:
  "h \<notin> set (gHandleList s) \<Longrightarrow> hand_find (new_handle h s) = hand_find s"
  by (auto simp: hand_find_def new_handle_def update_handle_def guid_of_def fun_eq_iff)

lemma hand_find_link:
  assumes "h \<in> set (gHandleList s)" and "p \<notin> live_interfaces s"
  shows "hand_find (link_interface e h p i s) = (hand_find s)((h, pe_ProtocolID (pentry s e)) \<mapsto> p)"
proof
  fix x :: "EFI_HANDLE \<times> EFI_GUID"
  obtain h' g where x: "x = (h', g)" by force
  have old: "find (\<lambda>q. guid_of (link_interface e h p i s) q = g) (ih_Protocols (ihandle s h')) = find (\<lambda>q. guid_of s q = g) (ih_Protocols (ihandle s h'))"
    if "h' \<in> set (gHandleList s)"
    using assms(2) that link_interface_guid(1) [of _ p e h i s] by (intro find_cong_on) (metis UN_I live_interfaces_def)
  show "hand_find (link_interface e h p i s) x = ((hand_find s)((h, pe_ProtocolID (pentry s e)) \<mapsto> p)) x"
    using assms(1) old by (auto simp: x hand_find_def link_interface_guid)
qed

lemma hand_find_unlink:
  assumes inv: "hand_inv s" and u: "hand_unique s" and h: "h \<in> set (gHandleList s)" and p: "p \<in> set (ih_Protocols (ihandle s h))"
  shows "hand_find (unlink_interface p h k s) = (hand_find s)((h, guid_of s p) := None)"
proof
  fix x :: "EFI_HANDLE \<times> EFI_GUID"
  have g: "guid_of (unlink_interface p h k s) = guid_of s" by (simp add: guid_of_def fun_eq_iff)
  have rm: "find (\<lambda>q. guid_of s q = y) (remove1 p ps) = find (\<lambda>q. guid_of s q = y) ps" if "y \<noteq> guid_of s p" for y ps
    using that by (induction ps) auto
  have "hand_find (unlink_interface p h k s) (h, guid_of s p) = None"
    using fun_cong [OF hand_lookup_unlink(1) [OF inv u h p, of k], of "(h, guid_of s p)"] by (simp add: hand_lookup_find)
  then show "hand_find (unlink_interface p h k s) x = ((hand_find s)((h, guid_of s p) := None)) x"
    using rm by (cases x) (auto simp: hand_find_def g)
qed

lemma hand_find_drop_handle:
  "distinct (gHandleList s) \<Longrightarrow> ih_Protocols (ihandle s h) = [] \<Longrightarrow> hand_find (drop_handle h s) = hand_find s"
  by (auto simp: hand_find_def drop_handle_def update_handle_def guid_of_def fun_eq_iff set_remove1_eq)

lemma hand_find_create:
  assumes inv: "hand_inv s" and fresh: "env_AllocatePool env HAND_ENTRY s \<notin> set (mProtocolDatabase s)"
  shows "hand_find (snd (CoreFindProtocolEntry env g c s)) = hand_find s"
proof -
  have "guid_of (snd (CoreFindProtocolEntry env g c s)) p = guid_of s p" if "h \<in> set (gHandleList s)" "p \<in> set (ih_Protocols (ihandle s h))" for h p
    using live_entry [OF _ that] inv fresh by (auto simp: CoreFindProtocolEntry_def Let_def guid_of_def update_entry_def hand_inv_def)
  then have "find (\<lambda>p. guid_of (snd (CoreFindProtocolEntry env g c s)) p = x) (ih_Protocols (ihandle s h)) =
      find (\<lambda>p. guid_of s p = x) (ih_Protocols (ihandle s h))" if "h \<in> set (gHandleList s)" for h x
    using that by (intro find_cong_on) simp
  moreover have "gHandleList (snd (CoreFindProtocolEntry env g c s)) = gHandleList s" "ihandle (snd (CoreFindProtocolEntry env g c s)) = ihandle s"
    by (simp_all add: CoreFindProtocolEntry_def Let_def update_entry_def)
  ultimately show ?thesis by (auto simp: hand_find_def fun_eq_iff)
qed

section \<open>What a call does to the open items\<close>

text \<open>Items that do not hold the interface; a call may add one.\<close>

definition open_soft :: "OPEN_PROTOCOL_DATA \<Rightarrow> bool" where
  "open_soft d \<longleftrightarrow> open_weak d \<and> \<not> open_driver d"

definition opens_grow :: "hand_state \<Rightarrow> hand_state \<Rightarrow> bool" where
  "opens_grow s s' \<longleftrightarrow> (\<forall>p. length (OpenList s' p) \<le> length (OpenList s p) + 1 \<and> (list_all open_soft (OpenList s p) \<longrightarrow> list_all open_soft (OpenList s' p)))"

lemma opens_grow_refl: "pinterface s' = pinterface s \<Longrightarrow> opens_grow s s'"
  by (simp add: opens_grow_def)

lemma list_all_update: "list_all P xs \<Longrightarrow> P x \<Longrightarrow> list_all P (xs[k := x])"
  using set_update_subset_insert [of xs k x] by (auto simp: list_all_iff)

lemma open_by_handle_grow:
  assumes "CoreOpenProtocol_open n env h p img ctl EFI_OPEN_PROTOCOL_BY_HANDLE_PROTOCOL s = Some (st, s')"
  shows "opens_grow s s'"
proof (cases "CoreOpenProtocol_scan img ctl EFI_OPEN_PROTOCOL_BY_HANDLE_PROTOCOL (OpenList s p) 0 False False")
  case (ScanCounted k)
  then have "k < length (OpenList s p)" using scan_counted [OF ScanCounted] by simp
  then have "list_all open_soft (OpenList s p) \<Longrightarrow> open_soft (OpenList s p ! k)" by (simp add: list_all_length)
  then show ?thesis
    using assms ScanCounted
    by (auto simp: CoreOpenProtocol_open_def opens_grow_def update_interface_def open_soft_def open_weak_def open_driver_def intro!: list_all_update)
next
  case (ScanDone a b)
  then show ?thesis
    using assms by (auto simp: CoreOpenProtocol_open_def CoreOpenProtocol_add_def opens_grow_def update_interface_def open_soft_def
        open_weak_def open_driver_def efi_const split: if_splits)
qed (use scan_by_handle in auto)

lemma release_fields: "hand_quiet env \<Longrightarrow> pinterface (CoreReleaseProtocolLock env s) = pinterface s"
  by (simp add: CoreReleaseProtocolLock_def hand_quiet_def)

lemma CoreHandleProtocol_grow:
  assumes q: "hand_quiet env" and eq: "CoreHandleProtocol n env h (Some g) True s = Some (st, i, s')"
  shows "opens_grow s s'"
proof (cases "CoreGetProtocolInterface h g s = NULL \<or> s' = s")
  case True
  then have "pinterface s' = pinterface s" using eq q
    by (auto simp: CoreHandleProtocol_def CoreOpenProtocol_def Let_def release_fields split: if_splits)
  then show ?thesis by (rule opens_grow_refl)
next
  case False
  then obtain st' s2 where "CoreOpenProtocol_open n env h (CoreGetProtocolInterface h g s) (gDxeCoreImageHandle env) NULL
      EFI_OPEN_PROTOCOL_BY_HANDLE_PROTOCOL (CoreAcquireProtocolLock s) = Some (st', s2)" "s' = CoreReleaseProtocolLock env s2"
    using eq by (auto simp: CoreHandleProtocol_def CoreOpenProtocol_def Let_def split: if_splits bind_splits)
  then show ?thesis using open_by_handle_grow q by (fastforce simp: opens_grow_def release_fields)
qed

text \<open>The new interface has nothing open, the others keep their items.\<close>

definition interface_added :: "EFI_HANDLE \<times> EFI_GUID \<Rightarrow> hand_state \<Rightarrow> hand_state \<Rightarrow> bool" where
  "interface_added x s s' \<longleftrightarrow> (\<exists>p. p \<notin> live_interfaces s \<and> hand_find s' = (hand_find s)(x \<mapsto> p) \<and> OpenList s' p = [] \<and>
     (\<forall>q. q \<noteq> p \<longrightarrow> OpenList s' q = OpenList s q))"

lemma live_interfaces_acquire [simp]: "live_interfaces (CoreAcquireProtocolLock s) = live_interfaces s"
  by (simp add: live_interfaces_def CoreAcquireProtocolLock_def)

lemma insert_opens:
  assumes cb: "hand_callbacks env" and q: "hand_quiet env" and inv: "hand_inv s" and st: "EFI_ERROR st"
    and eq: "CoreInstallProtocolInterface_insert env st h g i ntf s = (st', h', s')"
  shows "if EFI_ERROR st' then hand_find s' = hand_find s \<and> pinterface s' = pinterface s else interface_added (h', g) s s'"
proof -
  let ?s1 = "CoreAcquireProtocolLock s"
  obtain e s2 where e: "CoreFindProtocolEntry env g True ?s1 = (e, s2)" by force
  have inv1: "hand_inv ?s1" using inv by simp
  have s2: "hand_find s2 = hand_find s" "pinterface s2 = pinterface s" "live_interfaces s2 = live_interfaces s" "gHandleList s2 = gHandleList s"
    using hand_find_create [OF inv1 hand_callbacks.fresh_entry [OF cb inv1], of g True] e hand_find_same [OF hand_same_acquire, of s]
    by (auto simp: CoreFindProtocolEntry_def Let_def update_entry_def live_interfaces_def CoreAcquireProtocolLock_def split: if_splits)
  show ?thesis
  proof (cases "e = NULL")
    case True
    then show ?thesis
      using eq e st s2 hand_find_same [OF hand_same_release [OF q, of s2 s2]] q
      by (auto simp: CoreInstallProtocolInterface_insert_def release_fields)
  next
    case False
    obtain st2 h2 s3 where l: "CoreInstallProtocolInterface_link env e h i ntf s2 = (st2, h2, s3)" by (metis prod_cases3)
    then have r: "st' = st2" "s' = CoreReleaseProtocolLock env s3" "h' = (if EFI_ERROR st2 then h else h2)"
      using eq e False by (auto simp: CoreInstallProtocolInterface_insert_def)
    have rel: "hand_find s' = hand_find s3" "pinterface s' = pinterface s3"
      using r hand_find_same [OF hand_same_release [OF q, of s3 s3]] q by (simp_all add: release_fields)
    obtain e2: "e \<in> set (mProtocolDatabase s2)" "pe_ProtocolID (pentry s2 e) = g" "hand_inv s2"
      using CoreFindProtocolEntry_create [OF inv1 hand_callbacks.fresh_entry [OF cb inv1], of g] e False by (metis Pair_inject fst_conv)
    from l show ?thesis
    proof (cases rule: CoreInstallProtocolInterface_link_cases)
      case 1
      then show ?thesis using r rel s2 by simp
    next
      case (2 p)
      define s4 where "s4 = (if h = NULL then new_handle h2 s2 else s2)"
      have p: "p \<notin> live_interfaces s2" and h2: "h = NULL \<Longrightarrow> h2 \<notin> set (gHandleList s2)"
        using 2 hand_callbacks.fresh_interface [OF cb e2(3)] hand_callbacks.fresh_handle [OF cb e2(3)] by simp_all
      have s4: "hand_find s4 = hand_find s2" "pentry s4 = pentry s2" "p \<notin> live_interfaces s4" "h2 \<in> set (gHandleList s4)" "pinterface s4 = pinterface s2"
        using hand_find_new_handle [OF h2] p h2 2 by (auto simp: s4_def new_handle_def update_handle_def live_interfaces_def)
      have s3: "s3 = (if ntf then CoreNotifyProtocolEntry e (link_interface e h2 p i s4) else link_interface e h2 p i s4)"
        using 2 by (simp add: s4_def Let_def)
      have "hand_same (link_interface e h2 p i s4) s3" by (simp add: s3 CoreNotifyProtocolEntry_same)
      moreover have "pinterface s3 = pinterface (link_interface e h2 p i s4)" by (simp add: s3 CoreNotifyProtocolEntry_def)
      ultimately have "hand_find s3 = (hand_find s)((h2, g) \<mapsto> p)" "OpenList s3 p = []" "\<forall>q. q \<noteq> p \<longrightarrow> OpenList s3 q = OpenList s q"
        using hand_find_same hand_find_link [OF s4(4,3), of e i] s4 s2 e2(2)
        by (auto simp: link_interface_def hand_updates)
      then show ?thesis
        using r rel p s2 2(1) by (auto simp: interface_added_def efi_const)
    qed
  qed
qed

lemma CoreHandleProtocol_same:
  assumes "hand_inv s" and q: "hand_quiet env" and "CoreHandleProtocol n env h (Some g) True s = Some (st, i, s')"
  shows "hand_same s s'"
  using assms(1)
proof (cases rule: CoreHandleProtocol_cases [of s h g n env])
  case unsupported
  then show ?thesis using assms(3) hand_same_release [OF q hand_same_acquire] by simp
qed (use assms(3) hand_same_release [OF q] in auto)

lemma live_interfaces_same: "hand_same s s' \<Longrightarrow> live_interfaces s' = live_interfaces s"
  by (simp add: hand_same_def live_interfaces_def)

lemma Install_opens:
  assumes cb: "hand_callbacks env" and q: "hand_quiet env" and ok: "hand_ok t s"
    and mem: "env_AllocatePool env HAND_OPEN (CoreAcquireProtocolLock s) \<noteq> NULL"
    and eq: "CoreInstallProtocolInterface n env (Some h) (Some g) EFI_NATIVE_INTERFACE i s = Some (st, Some h', s')"
  shows "if EFI_ERROR st then hand_find s' = hand_find s \<and> opens_grow s s' else interface_added (h', g) s s'"
proof -
  have inv: "hand_inv s" using ok by (simp add: hand_ok_def)
  show ?thesis
  proof (rule CoreInstallProtocolInterfaceNotify_cases [OF inv mem, of h g n i True])
    fix s1 assume h: "h \<noteq> NULL" "hand_same s s1"
      and r: "CoreInstallProtocolInterfaceNotify n env (Some h) (Some g) EFI_NATIVE_INTERFACE i True s =
         Some (EFI_INVALID_PARAMETER, Some h, CoreReleaseProtocolLock env s1)"
      and present: "hand_lookup s (h, g) \<noteq> None"
    obtain j where "CoreHandleProtocol n env h (Some g) True s = Some (EFI_SUCCESS, j, s')"
      using inv
    proof (cases rule: CoreHandleProtocol_cases [of s h g n env])
      case (found j s2)
      then show ?thesis
        using that [of "Some j"] eq h by (simp add: CoreInstallProtocolInterface_def CoreInstallProtocolInterfaceNotify_def efi_const)
    qed (use present mem in auto)
    then show ?thesis
      using r eq CoreHandleProtocol_grow [OF q] hand_find_same [OF CoreHandleProtocol_same [OF inv q]]
      by (auto simp: CoreInstallProtocolInterface_def efi_const)
  next
    fix st0 s1 assume st: "EFI_ERROR st0"
      and s1: "s1 = s \<or> s1 = CoreReleaseProtocolLock env (CoreAcquireProtocolLock s)"
      and r: "CoreInstallProtocolInterfaceNotify n env (Some h) (Some g) EFI_NATIVE_INTERFACE i True s =
         (let (st, h', s2) = CoreInstallProtocolInterface_insert env st0 h g i True s1 in Some (st, Some h', s2))"
    have same: "hand_same s s1" "pinterface s1 = pinterface s" using s1 q by (auto intro: hand_same_release simp: release_fields)
    have "hand_inv s1" using s1 ok hand_callbacks.release_ok [OF cb acquire_ok [OF ok]] by (auto simp: hand_ok_def)
    then have "if EFI_ERROR st then hand_find s' = hand_find s1 \<and> pinterface s' = pinterface s1 else interface_added (h', g) s1 s'"
      using r eq by (intro insert_opens [OF cb q _ st, of s1 h g i True]) (auto simp: CoreInstallProtocolInterface_def split: prod.splits)
    then show ?thesis
      using same hand_find_same [OF same(1)] live_interfaces_same [OF same(1)]
      by (auto simp: interface_added_def opens_grow_refl split: if_splits)
  qed
qed

text \<open>Removing an interface leaves the others with their items.\<close>

lemma remove_opens:
  assumes inv: "hand_inv s" and u: "hand_unique s" and look: "hand_lookup s (h, g) = Some i"
    and eq: "CoreUninstallProtocolInterface_remove env h g i s = (st, s')"
  shows "hand_find s' = (hand_find s)((h, g) := None)" "OpenList s' q = OpenList s q"
proof -
  define p where "p = CoreFindProtocolInterface env h g i s"
  have "CoreGetProtocolInterface h g s \<noteq> NULL" using hand_lookup_None [OF inv, of h g] look by simp
  then have p: "p \<noteq> NULL" using CoreFindProtocolInterface_eq [OF inv u, of env h g i] look by (simp add: p_def)
  have h: "h \<in> set (gHandleList s)" "p \<in> set (ih_Protocols (ihandle s h))"
    using CoreFindProtocolInterface_locked [OF inv] p unfolding p_def by blast+
  have g: "guid_of s p = g" using CoreFindProtocolInterface_found p unfolding p_def by blast
  define s2 where "s2 = unlink_interface p h (gHandleDatabaseKey s + 1) s"
  have r: "s' = (if ih_Protocols (ihandle s2 h) = [] then drop_handle h s2 else s2)"
    using eq p by (simp_all add: CoreUninstallProtocolInterface_remove_eq Let_def p_def [symmetric] s2_def cong: if_cong)
  have d: "distinct (gHandleList s2)" using hand_invD(1) [OF inv] by (simp add: s2_def)
  show "hand_find s' = (hand_find s)((h, g) := None)"
    using r hand_find_unlink [OF inv u h] g hand_find_drop_handle [OF d] by (auto simp: s2_def)
  show "OpenList s' q = OpenList s q"
    by (simp add: r s2_def drop_handle_def update_handle_def)
qed

end
