(* ===== verification/HandMultiple.thy ===== *)
theory HandMultiple
  imports HandOpens
begin

text \<open>
  Installing and uninstalling lists of protocols, with their roll back, and the check for a protocol
  that is already installed.
\<close>

section \<open>Uninstalling many\<close>

lemma CoreUninstallProtocolInterface_invalid:
  "h \<notin> set (gHandleList s) \<Longrightarrow> CoreUninstallProtocolInterface n env h (Some g) i s = Some (EFI_INVALID_PARAMETER, s)"
  by (simp add: CoreUninstallProtocolInterface_def CoreValidateHandle_iff efi_const)


section \<open>Installing a protocol twice\<close>

text \<open>The interface that is found first for a handle and a protocol.\<close>

lemma hand_lookup_interface:
  assumes "hand_lookup s (h, g) = Some j"
  obtains p where "h \<in> set (gHandleList s)" "p \<in> set (ih_Protocols (ihandle s h))" "guid_of s p = g"
  using assms by (auto simp: hand_lookup_def find_Some_iff in_set_conv_nth split: if_splits)

lemma CoreHandleProtocol_no_memory:
  assumes inv: "hand_inv s" and present: "hand_lookup s (h, g) = Some j" and img: "gDxeCoreImageHandle env \<noteq> NULL"
    and mem: "env_AllocatePool env HAND_OPEN (CoreAcquireProtocolLock s) = NULL"
    and new: "\<forall>d \<in> set (pi_OpenList (pinterface s (CoreGetProtocolInterface h g s))). od_AgentHandle d \<noteq> gDxeCoreImageHandle env"
  shows "CoreHandleProtocol n env h (Some g) True s = Some (EFI_OUT_OF_RESOURCES, None, CoreReleaseProtocolLock env (CoreAcquireProtocolLock s))"
proof -
  let ?s = "CoreAcquireProtocolLock s" and ?p = "CoreGetProtocolInterface h g s"
  have h: "h \<in> set (gHandleList s)" using present by (auto simp: hand_lookup_def split: if_splits)
  then have "h \<noteq> NULL" using hand_invD(2) [OF inv] by blast
  moreover have p: "?p \<noteq> NULL" using hand_lookup_None [OF inv, of h g] present by auto
  moreover have "CoreOpenProtocol_scan (gDxeCoreImageHandle env) NULL EFI_OPEN_PROTOCOL_BY_HANDLE_PROTOCOL (OpenList s ?p) 0 False False =
      ScanDone (\<exists>d \<in> set (OpenList s ?p). open_driver d) (\<exists>d \<in> set (OpenList s ?p). open_excl d)"
    by (subst scan_nomatch) (use new in auto)
  ultimately show ?thesis
    using h img mem
    by (simp add: CoreHandleProtocol_def CoreOpenProtocol_def CoreValidateHandle_iff CoreOpenProtocol_check_def
        CoreOpenProtocol_open_def CoreOpenProtocol_add_def efi_const Let_def)
qed

lemma hand_unique_link_again:
  assumes "hand_lookup s (h, pe_ProtocolID (pentry s e)) = Some j" and "q \<notin> live_interfaces s"
  shows "\<not> hand_unique (link_interface e h q i s)"
proof
  assume u: "hand_unique (link_interface e h q i s)"
  obtain p where p: "h \<in> set (gHandleList s)" "p \<in> set (ih_Protocols (ihandle s h))" "guid_of s p = pe_ProtocolID (pentry s e)"
    by (rule hand_lookup_interface [OF assms(1)])
  have "p \<noteq> q" using p assms(2) by (auto simp: live_interfaces_def)
  then show False
    using u p link_interface_guid(1) [of p q e h i s] link_interface_guid(2) [of e h q i s]
    by (auto simp: hand_unique_def dest!: bspec [where x = h] inj_onD [where x = p and y = q])
qed

text \<open>
  The check for a protocol that the handle has already is made by opening it, and any failure to
  open counts as absent: when there is no memory for the open item, a second interface of the same
  protocol is installed on the handle.
\<close>

theorem CoreInstallProtocolInterface_duplicates:
  assumes cb: "hand_callbacks env" and q: "hand_quiet env" and ok: "hand_ok t s"
    and mem: "env_AllocatePool env HAND_OPEN (CoreAcquireProtocolLock s) = NULL"
      "env_AllocatePool env HAND_INTERFACE (CoreAcquireProtocolLock (CoreReleaseProtocolLock env (CoreAcquireProtocolLock s))) \<noteq> NULL"
    and img: "gDxeCoreImageHandle env \<noteq> NULL" and present: "hand_lookup s (h, g) = Some j"
    and new: "\<forall>d \<in> set (pi_OpenList (pinterface s (CoreGetProtocolInterface h g s))). od_AgentHandle d \<noteq> gDxeCoreImageHandle env"
  shows "\<exists>s'. CoreInstallProtocolInterface n env (Some h) (Some g) EFI_NATIVE_INTERFACE i s = Some (EFI_SUCCESS, Some h, s') \<and> \<not> hand_unique s'"
proof -
  let ?s1 = "CoreReleaseProtocolLock env (CoreAcquireProtocolLock s)"
  have inv: "hand_inv s" using ok by (simp add: hand_ok_def)
  have same: "hand_same s ?s1" by (rule hand_same_release [OF q hand_same_acquire])
  define s2 where "s2 = CoreAcquireProtocolLock ?s1"
  have s2: "hand_inv s2" "hand_lookup s2 = hand_lookup s"
    using hand_callbacks.release_ok [OF cb acquire_ok [OF ok]] hand_lookup_same [OF hand_same_trans [OF same hand_same_acquire]]
    by (simp_all add: s2_def hand_ok_def)
  obtain p where p: "h \<in> set (gHandleList s2)" "p \<in> set (ih_Protocols (ihandle s2 h))" "guid_of s2 p = g"
    using hand_lookup_interface [of s2 h g j] present s2(2) by auto
  have h: "h \<noteq> NULL" using p(1) hand_invD(2) [OF s2(1)] by auto
  define e where "e = find_address (\<lambda>e. pe_ProtocolID (pentry s2 e) = g) (mProtocolDatabase s2)"
  have "pi_Protocol (pinterface s2 p) \<in> set (mProtocolDatabase s2)" using live_entry [OF _ p(1,2)] s2(1) by (simp add: hand_inv_def)
  then have e: "e \<noteq> NULL"
    using find_address_NULL [OF hand_invD(4) [OF s2(1)], of "\<lambda>e. pe_ProtocolID (pentry s2 e) = g"] p(3) by (auto simp: e_def guid_of_def)
  then have entry: "CoreFindProtocolEntry env g True s2 = (e, s2)" "pe_ProtocolID (pentry s2 e) = g"
    using find_address_Some [of "\<lambda>e. pe_ProtocolID (pentry s2 e) = g" "mProtocolDatabase s2"]
    by (simp_all add: CoreFindProtocolEntry_def e_def)
  define r where "r = env_AllocatePool env HAND_INTERFACE s2"
  have r: "r \<noteq> NULL" "r \<notin> live_interfaces s2"
    using mem(2) hand_callbacks.fresh_interface [OF cb s2(1)] by (simp_all add: r_def s2_def)
  define s4 where "s4 = CoreNotifyProtocolEntry e (link_interface e h r i s2)"
  have "CoreInstallProtocolInterface_link env e h i True s2 = (EFI_SUCCESS, h, s4)"
    using r h p(1) by (simp add: CoreInstallProtocolInterface_link_def CoreValidateHandle_iff link_interface_def s4_def r_def Let_def)
  then have "CoreInstallProtocolInterface_insert env EFI_OUT_OF_RESOURCES h g i True ?s1 = (EFI_SUCCESS, h, CoreReleaseProtocolLock env s4)"
    using e entry by (simp add: CoreInstallProtocolInterface_insert_def s2_def [symmetric] efi_const)
  moreover have "\<not> hand_unique s4"
    using hand_unique_link_again [of s2 h e j r i] present r entry s2(2) hand_unique_same [OF CoreNotifyProtocolEntry_same] by (simp add: s4_def)
  ultimately show ?thesis
    using CoreHandleProtocol_no_memory [OF inv present img mem(1) new, of n] h hand_unique_release [OF q]
    by (simp add: CoreInstallProtocolInterface_def CoreInstallProtocolInterfaceNotify_def efi_const)
qed

section \<open>Installing and removing many\<close>

definition opens_soft :: "hand_state \<Rightarrow> EFI_HANDLE \<times> EFI_GUID \<Rightarrow> bool" where
  "opens_soft s x \<longleftrightarrow> (\<exists>p. hand_find s x = Some p \<and> length (OpenList s p) \<le> 1 \<and> list_all open_soft (OpenList s p))"

lemma Uninstall_soft:
  assumes cb: "hand_callbacks env" and q: "hand_quiet env" and ok: "hand_ok t s" and u: "hand_unique s"
    and conn: "\<forall>h s. hand_same s (env_ConnectController env h s)"
    and look: "hand_lookup s (h, g) = Some i" and soft: "opens_soft s (h, g)"
  obtains s' where "CoreUninstallProtocolInterface (Suc n) env h (Some g) i s = Some (EFI_SUCCESS, s')" "hand_ok t s'" "hand_unique s'"
    "hand_lookup s' = (hand_lookup s)((h, g) := None)" "\<And>x. x \<noteq> (h, g) \<Longrightarrow> opens_soft s x \<Longrightarrow> opens_soft s' x"
proof -
  have inv: "hand_inv s" using ok by (simp add: hand_ok_def)
  obtain p where p: "hand_find s (h, g) = Some p" "length (OpenList s p) \<le> 1" "list_all open_soft (OpenList s p)"
    using soft by (auto simp: opens_soft_def)
  have get: "CoreGetProtocolInterface h g s = p" by (rule CoreGetProtocolInterface_find [OF inv p(1)])
  have items: "\<forall>d \<in> set (OpenList s p). open_weak d \<and> \<not> open_driver d" using p(3) by (simp add: list_all_iff open_soft_def)
  have "length (OpenList s p) < 2 ^ 64" using p(2) by (rule le_less_trans) simp
  then obtain r where r: "CoreUninstallProtocolInterface (Suc n) env h (Some g) i s = Some r" "hand_ok t (snd r)" "uninstall_spec h g i s r"
    using Uninstall_refines [OF cb q ok u conn, of h g n i] items get by auto
  define s2 where "s2 = drop_weak p (CoreAcquireProtocolLock s)"
  have same: "hand_same s s2" unfolding s2_def by (rule hand_same_trans [OF hand_same_acquire hand_same_drop_weak])
  have s2: "hand_inv s2" "hand_unique s2" "hand_lookup s2 (h, g) = Some i"
    using inv u look by (simp_all add: s2_def hand_inv_drop_weak hand_lookup_same [OF same, unfolded s2_def] hand_unique_same [OF same, unfolded s2_def])
  obtain st s3 where rm: "CoreUninstallProtocolInterface_remove env h g i s2 = (st, s3)" by force
  define s' where "s' = CoreReleaseProtocolLock env s3"
  have rr: "r = (st, s')"
    using r(1) CoreUninstallProtocolInterface_run [OF inv u look, of n env] get items p(2) rm by (auto simp: s2_def s'_def le_less_trans)
  have "h \<in> set (gHandleList s)" using hand_find_live(1) [OF p(1)] .
  then have spec: "st = EFI_SUCCESS" "hand_unique s'" "hand_lookup s' = (hand_lookup s)((h, g) := None)"
    using r(3) look get items by (auto simp: uninstall_spec_def rr split: if_splits)
  have find: "hand_find s' = (hand_find s)((h, g) := None)"
    using hand_find_same [OF hand_same_release [OF q, of s3 s3]] remove_opens(1) [OF s2 rm] hand_find_same [OF same] by (simp add: s'_def)
  have opens: "OpenList s' x = OpenList s x" if "x \<noteq> p" for x
    using that remove_opens(2) [OF s2 rm] q by (simp add: s'_def release_fields s2_def drop_weak_def update_interface_def)
  have "opens_soft s' x" if x: "x \<noteq> (h, g)" "opens_soft s x" for x
  proof -
    obtain y where y: "hand_find s x = Some y" "length (OpenList s y) \<le> 1" "list_all open_soft (OpenList s y)"
      using x(2) by (auto simp: opens_soft_def)
    then have "y \<noteq> p" using hand_find_inj [OF inv p(1)] x(1) by blast
    then show ?thesis using y x(1) find opens by (simp add: opens_soft_def)
  qed
  then show thesis using that [of s'] r rr spec by simp
qed

lemma undo_removes:
  assumes cb: "hand_callbacks env" and q: "hand_quiet env" and conn: "\<forall>h s. hand_same s (env_ConnectController env h s)"
  shows "hand_ok t s \<Longrightarrow> hand_unique s \<Longrightarrow> distinct (map fst Args) \<Longrightarrow>
    \<forall>(g, i) \<in> set Args. hand_lookup s (h, g) = Some i \<and> opens_soft s (h, g) \<Longrightarrow>
    \<exists>s'. CoreInstallMultipleProtocolInterfaces_undo (Suc n) env h Args s = Some s' \<and> hand_ok t s' \<and>
      hand_lookup s' = (\<lambda>x. if x \<in> {h} \<times> fst ` set Args then None else hand_lookup s x)"
proof (induction Args arbitrary: s)
  case (Cons a Args)
  obtain g i where a: "a = (g, i)" by force
  have a': "hand_lookup s (h, g) = Some i" "opens_soft s (h, g)" using Cons.prems(4) a by auto
  obtain s1 where s1: "CoreUninstallProtocolInterface (Suc n) env h (Some g) i s = Some (EFI_SUCCESS, s1)" "hand_ok t s1" "hand_unique s1"
    "hand_lookup s1 = (hand_lookup s)((h, g) := None)" "\<And>x. x \<noteq> (h, g) \<Longrightarrow> opens_soft s x \<Longrightarrow> opens_soft s1 x"
    using Uninstall_soft [OF cb q Cons.prems(1,2) conn a'] by metis
  have rest: "\<forall>(g', i') \<in> set Args. hand_lookup s1 (h, g') = Some i' \<and> opens_soft s1 (h, g')"
    using Cons.prems(3,4) s1(4,5) by (force simp: a)
  obtain s' where "CoreInstallMultipleProtocolInterfaces_undo (Suc n) env h Args s1 = Some s'" "hand_ok t s'"
    "hand_lookup s' = (\<lambda>x. if x \<in> {h} \<times> fst ` set Args then None else hand_lookup s1 x)"
    using Cons.IH [OF s1(2,3) _ rest] Cons.prems(3) by auto
  then show ?case using s1(1,4) by (auto simp: a fun_eq_iff)
qed auto

text \<open>The pairs that a list of arguments puts on a handle.\<close>

definition protocols_on :: "EFI_HANDLE \<Rightarrow> (EFI_GUID \<times> u64) list \<Rightarrow> EFI_HANDLE \<times> EFI_GUID \<Rightarrow> u64 option" where
  "protocols_on h Args = map_of (map (\<lambda>(g, i). ((h, g), i)) Args)"

lemma protocols_on_simps [simp]:
  "protocols_on h [] = Map.empty"
  "protocols_on h ((g, i) # Args) = (protocols_on h Args)((h, g) \<mapsto> i)"
  by (simp_all add: protocols_on_def)

lemma dom_protocols_on: "dom (protocols_on h Args) = {h} \<times> fst ` set Args"
  by (force simp: protocols_on_def dom_map_of_conv_image_fst image_iff split_def)

text \<open>What the loop has done when it ends: the interfaces of \<open>Done\<close> are on the handle, which had none of them.\<close>

definition loop_done :: "EFI_HANDLE \<Rightarrow> (EFI_GUID \<times> u64) list \<Rightarrow> hand_state \<Rightarrow> EFI_HANDLE \<times> hand_state \<Rightarrow> bool" where
  "loop_done h Done s = (\<lambda>(h', s'). distinct (map fst Done) \<and> (\<forall>(g, i) \<in> set Done. hand_lookup s (h', g) = None \<and> opens_soft s' (h', g)) \<and>
     hand_lookup s' = hand_lookup s ++ protocols_on h' Done \<and> (h \<noteq> NULL \<or> Done = [] \<longrightarrow> h' = h) \<and>
     (\<forall>x p. hand_find s x = Some p \<longrightarrow> hand_find s' x = Some p \<and> length (OpenList s' p) \<le> length (OpenList s p) + 1 \<and>
        (list_all open_soft (OpenList s p) \<longrightarrow> list_all open_soft (OpenList s' p))))"

lemma loop_done_Nil: "hand_find s' = hand_find s \<Longrightarrow> hand_lookup s' = hand_lookup s \<Longrightarrow> opens_grow s s' \<Longrightarrow> loop_done h [] s (h, s')"
  by (simp add: loop_done_def opens_grow_def)

lemma loop_done_Cons:
  assumes added: "interface_added (h1, g) s s1" and look: "hand_lookup s1 = (hand_lookup s)((h1, g) \<mapsto> i)" "hand_lookup s (h1, g) = None"
    and h1: "h1 \<noteq> NULL" "h \<noteq> NULL \<Longrightarrow> h1 = h" and rest: "loop_done h1 Done s1 (h', s')"
  shows "loop_done h ((g, i) # Done) s (h', s')"
proof -
  have h': "h' = h1" using rest h1 by (simp add: loop_done_def)
  obtain p where p: "p \<notin> live_interfaces s" "hand_find s1 = (hand_find s)((h1, g) \<mapsto> p)" "OpenList s1 p = []"
    "\<And>q. q \<noteq> p \<Longrightarrow> OpenList s1 q = OpenList s q" using added by (auto simp: interface_added_def)
  have mono: "hand_find s' x = Some q \<and> length (OpenList s' q) \<le> length (OpenList s1 q) + 1 \<and>
      (list_all open_soft (OpenList s1 q) \<longrightarrow> list_all open_soft (OpenList s' q))" if "hand_find s1 x = Some q" for x q
    using rest that by (cases x) (simp add: loop_done_def)
  have new: "opens_soft s' (h1, g)" using mono [of "(h1, g)" p] p(2,3) by (auto simp: opens_soft_def)
  have g: "g \<notin> fst ` set Done" using rest look(1) by (force simp: loop_done_def h')
  have "hand_find s' x = Some q \<and> length (OpenList s' q) \<le> length (OpenList s q) + 1 \<and>
      (list_all open_soft (OpenList s q) \<longrightarrow> list_all open_soft (OpenList s' q))" if x: "hand_find s x = Some q" for x q
  proof -
    have "x \<noteq> (h1, g)" using x look(2) by (auto simp: hand_lookup_find)
    moreover have "q \<noteq> p" using x p(1) hand_find_live(4) by (cases x) blast
    ultimately show ?thesis using mono [of x q] x p(2,4) by simp
  qed
  moreover have "hand_lookup s' = hand_lookup s ++ protocols_on h' ((g, i) # Done)"
    using rest g look(1) dom_protocols_on [of h1 Done] by (simp add: loop_done_def h' map_add_upd_left)
  moreover have "hand_lookup s (h', g') = None \<and> opens_soft s' (h', g')" if "(g', i') \<in> set Done" for g' i'
    using rest that look(1) by (force simp: loop_done_def h' split: if_splits)
  ultimately show ?thesis
    using rest new look(2) g h1 h' by (auto simp: loop_done_def)
qed

lemma loop_installs:
  assumes cb: "hand_callbacks env" and q: "hand_quiet env" and mem: "\<forall>s. env_AllocatePool env HAND_OPEN s \<noteq> NULL"
  shows "hand_ok t s \<Longrightarrow> hand_unique s \<Longrightarrow> gEfiDevicePathProtocolGuid env \<notin> fst ` set Args \<Longrightarrow> \<not> EFI_ERROR st \<Longrightarrow>
    \<exists>st' h' k s' Done. CoreInstallMultipleProtocolInterfaces_loop n env h idx st Args s = Some (st', h', idx + k, s') \<and>
      hand_ok t s' \<and> hand_unique s' \<and> loop_done h Done s (h', s') \<and>
      Done = (if EFI_ERROR st' then take (k - 1) Args else Args) \<and> (EFI_ERROR st' \<longrightarrow> 0 < k)"
proof (induction Args arbitrary: s h idx st)
  case Nil
  then show ?case using loop_done_Nil [of s s h] by (intro exI [of _ st] exI [of _ h] exI [of _ 0]) (auto simp: opens_grow_refl)
next
  case (Cons a Args)
  obtain g i where a: "a = (g, i)" by force
  obtain st1 h1 s1 where s1: "CoreInstallProtocolInterface n env (Some h) (Some g) EFI_NATIVE_INTERFACE i s = Some (st1, Some h1, s1)"
    "hand_ok t s1" "install_spec env h g i s (st1, h1, s1)"
    using Install_refines [OF cb q Cons.prems(1,2)] mem by blast
  note opens = Install_opens [OF cb q Cons.prems(1) _ s1(1)]
  have u1: "hand_unique s1" using s1(3) by (simp add: install_spec_def)
  have step: "CoreInstallMultipleProtocolInterfaces_loop n env h idx st (a # Args) s =
      (if EFI_ERROR st1 then Some (st1, h1, idx + 1, s1) else CoreInstallMultipleProtocolInterfaces_loop n env h1 (idx + 1) st1 Args s1)"
    using Cons.prems(3) s1(1) by (auto simp: a)
  show ?case
  proof (cases "EFI_ERROR st1")
    case True
    then have "loop_done h [] s (h1, s1)" using opens mem s1(3) loop_done_Nil [of s1 s h] by (simp add: install_spec_def)
    then show ?thesis
      using True s1(2) u1 unfolding step by (intro exI [of _ st1] exI [of _ h1] exI [of _ 1] exI [of _ s1] exI [of _ "[]"]) simp
  next
    case False
    obtain st' h' k s' Done where r: "CoreInstallMultipleProtocolInterfaces_loop n env h1 (idx + 1) st1 Args s1 = Some (st', h', idx + 1 + k, s')"
      "hand_ok t s'" "hand_unique s'" "loop_done h1 Done s1 (h', s')" "Done = (if EFI_ERROR st' then take (k - 1) Args else Args)" "EFI_ERROR st' \<longrightarrow> 0 < k"
      using Cons.IH [OF s1(2) u1 _ False, of h1 "idx + 1"] Cons.prems(3) by auto
    have "loop_done h ((g, i) # Done) s (h', s')"
      using opens mem s1(3) False by (intro loop_done_Cons [OF _ _ _ _ _ r(4)]) (auto simp: install_spec_def split: if_splits)
    moreover have "(g, i) # Done = (if EFI_ERROR st' then take (Suc k - 1) (a # Args) else a # Args)"
      using r(5,6) by (cases k) (auto simp: a)
    ultimately show ?thesis
      using False r(1-3) unfolding step by (intro exI [of _ st'] exI [of _ h'] exI [of _ "Suc k"] exI [of _ s'] exI [of _ "(g, i) # Done"]) simp
  qed
qed


end
