(* ===== verification/HandSearch.thy ===== *)
theory HandSearch
  imports HandProps
begin

text \<open>
  Searches: a search by protocol finds exactly the handles that have the protocol, each once; a
  registration is a queue of the interfaces that are new to its owner.
\<close>

section \<open>Searching by protocol\<close>

text \<open>The handles of a list of interfaces in order, without those seen before.\<close>

fun first_handles :: "(u64 \<Rightarrow> EFI_HANDLE) \<Rightarrow> (EFI_HANDLE \<Rightarrow> bool) \<Rightarrow> u64 list \<Rightarrow> EFI_HANDLE list" where
  "first_handles f seen [] = []"
| "first_handles f seen (p # ps) =
     (if seen (f p) then first_handles f seen ps else f p # first_handles f (\<lambda>h. seen h \<or> h = f p) ps)"

lemma set_first_handles: "set (first_handles f seen ps) = {h \<in> f ` set ps. \<not> seen h}"
  by (induction f seen ps rule: first_handles.induct) auto

lemma distinct_first_handles: "distinct (first_handles f seen ps)"
  by (induction f seen ps rule: first_handles.induct) (auto simp: set_first_handles)

lemma length_first_handles: "length (first_handles f seen ps) \<le> length ps"
  by (induction f seen ps rule: first_handles.induct) (simp_all add: le_SucI)

definition stamped :: "hand_state \<Rightarrow> EFI_HANDLE \<Rightarrow> bool" where
  "stamped s h \<longleftrightarrow> ih_LocateRequest (ihandle s h) = mEfiLocateHandleRequest s"

text \<open>What a search leaves as it was.\<close>

definition search_same :: "hand_state \<Rightarrow> hand_state \<Rightarrow> bool" where
  "search_same s s' \<longleftrightarrow> hand_same s s' \<and> pinterface s' = pinterface s \<and> mEfiLocateHandleRequest s' = mEfiLocateHandleRequest s \<and>
     (\<forall>h. ih_LocateRequest (ihandle s' h) \<in> {ih_LocateRequest (ihandle s h), mEfiLocateHandleRequest s})"

lemma search_same_trans: "search_same s s1 \<Longrightarrow> search_same s1 s' \<Longrightarrow> search_same s s'"
  by (auto simp: search_same_def intro: hand_same_trans) metis

lemma CoreGetNextLocateByProtocol_Cons:
  "CoreGetNextLocateByProtocol \<lparr>lp_SearchKey = k, lp_Position = p # ps\<rparr> s =
     (let h = pi_Handle (pinterface s p)
      in if stamped s h
         then (let (h', _, pos, s') = CoreGetNextLocateByProtocol \<lparr>lp_SearchKey = k, lp_Position = ps\<rparr> s
               in (h', fst (snd (CoreGetNextLocateByProtocol_loop ps (pi_Interface (pinterface s p)) s)), pos, s'))
         else (h, pi_Interface (pinterface s p), \<lparr>lp_SearchKey = k, lp_Position = ps\<rparr>,
               update_handle h (\<lambda>x. x\<lparr>ih_LocateRequest := mEfiLocateHandleRequest s\<rparr>) s))"
proof -
  have "CoreGetNextLocateByProtocol_loop ps i s = (let (h', _, ps', s') = CoreGetNextLocateByProtocol_loop ps j s
      in (h', fst (snd (CoreGetNextLocateByProtocol_loop ps i s)), ps', s'))" for i j
    by (induction ps arbitrary: i j) (auto simp: Let_def split: prod.split)
  from this [of "pi_Interface (pinterface s p)" NULL] show ?thesis
    by (auto simp: CoreGetNextLocateByProtocol_def Let_def stamped_def split: prod.split)
qed

text \<open>The interface an iterator returns does not matter to the loop.\<close>

lemma CoreLocateHandle_loop_skip:
  assumes "GetNext pos s = (h, i, pos', s')" and "GetNext pos2 s2 = (h, j, pos', s')"
  shows "CoreLocateHandle_loop GetNext sz pos n buf s = CoreLocateHandle_loop GetNext sz pos2 n buf s2"
  by (subst (1 2) CoreLocateHandle_loop.simps) (simp add: assms)

lemma take_snoc_fit:
  assumes "8 * (length prev + 1) < (2 ^ 64 :: nat)"
  shows "(if of_nat (8 * length prev) + 8 \<le> (sz :: u64) then take (unat sz div 8) prev @ [h] else take (unat sz div 8) prev) =
     take (unat sz div 8) (prev @ [h])"
proof -
  have "unat (of_nat (8 * length prev) + 8 :: u64) = 8 * length prev + 8"
    using assms by (simp add: unat_word_ariths unsigned_of_nat take_bit_nat_eq_self)
  then have "of_nat (8 * length prev) + 8 \<le> sz \<longleftrightarrow> length prev + 1 \<le> unat sz div 8"
    by (simp add: word_le_nat_alt less_eq_div_iff_mult_less_eq algebra_simps)
  then show ?thesis by auto
qed

lemma CoreLocateHandle_loop_by_protocol:
  assumes "\<forall>p \<in> set ps. pi_Handle (pinterface s p) \<noteq> NULL" and "8 * (length prev + length ps) < (2 ^ 64 :: nat)"
  defines "L \<equiv> first_handles (\<lambda>p. pi_Handle (pinterface s p)) (stamped s) ps"
  shows "\<exists>s'. CoreLocateHandle_loop CoreGetNextLocateByProtocol sz \<lparr>lp_SearchKey = k, lp_Position = ps\<rparr>
      (of_nat (8 * length prev)) (take (unat sz div 8) prev) s =
    Some (of_nat (8 * length (prev @ L)), take (unat sz div 8) (prev @ L), s') \<and> search_same s s' \<and>
    gProtocolDatabaseLock s' = gProtocolDatabaseLock s \<and> hand_Tpl s' = hand_Tpl s"
  using assms(1,2) unfolding L_def
proof (induction ps arbitrary: s prev)
  case Nil
  show ?case
    by (subst CoreLocateHandle_loop.simps) (simp add: CoreGetNextLocateByProtocol_def search_same_def)
next
  case (Cons p ps)
  let ?h = "pi_Handle (pinterface s p)" and ?pos = "\<lambda>ps. \<lparr>lp_SearchKey = k, lp_Position = ps\<rparr>"
  show ?case
  proof (cases "stamped s ?h")
    case True
    obtain h' i pos' s' where g: "CoreGetNextLocateByProtocol (?pos ps) s = (h', i, pos', s')" by (metis prod_cases4)
    have "CoreLocateHandle_loop CoreGetNextLocateByProtocol sz (?pos (p # ps)) n b s =
        CoreLocateHandle_loop CoreGetNextLocateByProtocol sz (?pos ps) n b s" for n b
      by (rule CoreLocateHandle_loop_skip [where GetNext = CoreGetNextLocateByProtocol, OF _ g])
        (simp add: CoreGetNextLocateByProtocol_Cons True g)
    then show ?thesis using Cons.IH [of s prev] Cons.prems True by simp
  next
    case False
    define s1 where "s1 = update_handle ?h (\<lambda>x. x\<lparr>ih_LocateRequest := mEfiLocateHandleRequest s\<rparr>) s"
    have f: "pinterface s1 = pinterface s" "stamped s1 = (\<lambda>h. stamped s h \<or> h = ?h)" "search_same s s1"
      "gProtocolDatabaseLock s1 = gProtocolDatabaseLock s" "hand_Tpl s1 = hand_Tpl s"
      by (auto simp: s1_def update_handle_def stamped_def search_same_def hand_same_def fun_eq_iff)
    have g: "CoreGetNextLocateByProtocol (?pos (p # ps)) s = (?h, pi_Interface (pinterface s p), ?pos ps, s1)"
      using False by (simp add: CoreGetNextLocateByProtocol_Cons s1_def Let_def)
    have "CoreLocateHandle_loop CoreGetNextLocateByProtocol sz (?pos (p # ps)) (of_nat (8 * length prev)) (take (unat sz div 8) prev) s =
        CoreLocateHandle_loop CoreGetNextLocateByProtocol sz (?pos ps) (of_nat (8 * length (prev @ [?h]))) (take (unat sz div 8) (prev @ [?h])) s1"
      using Cons.prems take_snoc_fit [of prev sz ?h]
      by (subst CoreLocateHandle_loop.simps) (simp add: g algebra_simps)
    moreover have "\<exists>s'. CoreLocateHandle_loop CoreGetNextLocateByProtocol sz (?pos ps) (of_nat (8 * length (prev @ [?h])))
          (take (unat sz div 8) (prev @ [?h])) s1 =
        Some (of_nat (8 * length ((prev @ [?h]) @ first_handles (\<lambda>p. pi_Handle (pinterface s1 p)) (stamped s1) ps)),
          take (unat sz div 8) ((prev @ [?h]) @ first_handles (\<lambda>p. pi_Handle (pinterface s1 p)) (stamped s1) ps), s') \<and>
        search_same s1 s' \<and> gProtocolDatabaseLock s' = gProtocolDatabaseLock s1 \<and> hand_Tpl s' = hand_Tpl s1"
      by (rule Cons.IH) (use Cons.prems f(1) in auto)
    moreover have "first_handles (\<lambda>p. pi_Handle (pinterface s p)) (stamped s) (p # ps) =
        ?h # first_handles (\<lambda>p. pi_Handle (pinterface s1 p)) (stamped s1) ps" using False f(1,2) by simp
    ultimately show ?thesis
      using f(3-5) search_same_trans by (simp only: append_assoc append_Cons append_Nil) blast
  qed
qed

text \<open>The interfaces in an entry belong to the handles that have the protocol.\<close>

lemma lookup_entry:
  assumes inv: "hand_inv s"
  shows "{h. hand_lookup s (h, g) \<noteq> None} =
     (if fst (CoreFindProtocolEntry env g False s) = NULL then {}
      else (\<lambda>p. pi_Handle (pinterface s p)) ` set (pe_Protocols (pentry s (fst (CoreFindProtocolEntry env g False s)))))"
proof -
  let ?e = "fst (CoreFindProtocolEntry env g False s)"
  have look: "hand_lookup s (h, g) \<noteq> None \<longleftrightarrow> h \<in> set (gHandleList s) \<and> (\<exists>p \<in> set (ih_Protocols (ihandle s h)). guid_of s p = g)" for h
    using find_None_iff [of "\<lambda>p. guid_of s p = g" "ih_Protocols (ihandle s h)"] by (auto simp: hand_lookup_def)
  have e: "?e = find_address (\<lambda>e. pe_ProtocolID (pentry s e) = g) (mProtocolDatabase s)" by (simp add: CoreFindProtocolEntry_def)
  have entry: "pi_Protocol (pinterface s p) = ?e \<and> ?e \<noteq> NULL"
    if "h \<in> set (gHandleList s)" "p \<in> set (ih_Protocols (ihandle s h))" "guid_of s p = g" for h p
  proof -
    have m: "pi_Protocol (pinterface s p) \<in> set (mProtocolDatabase s)" by (rule handle_okD(4) [OF hand_invD(6) [OF inv that(1)] that(2)])
    then have "?e = pi_Protocol (pinterface s p)"
      unfolding e using that(3) inj_onD [OF hand_invD(5) [OF inv]]
      by (intro find_address_unique [OF hand_invD(4) [OF inv] m]) (auto simp: guid_of_def)
    then show ?thesis using m hand_invD(4) [OF inv] by auto
  qed
  have "hand_lookup s (h, g) \<noteq> None \<longleftrightarrow> ?e \<noteq> NULL \<and> (\<exists>p \<in> set (pe_Protocols (pentry s ?e)). pi_Handle (pinterface s p) = h)" for h
  proof
    assume "hand_lookup s (h, g) \<noteq> None"
    then obtain p where p: "h \<in> set (gHandleList s)" "p \<in> set (ih_Protocols (ihandle s h))" "guid_of s p = g" using look by blast
    then show "?e \<noteq> NULL \<and> (\<exists>p \<in> set (pe_Protocols (pentry s ?e)). pi_Handle (pinterface s p) = h)"
      using entry [OF p] handle_okD(3,5) [OF hand_invD(6) [OF inv p(1)] p(2)] by metis
  next
    assume r: "?e \<noteq> NULL \<and> (\<exists>p \<in> set (pe_Protocols (pentry s ?e)). pi_Handle (pinterface s p) = h)"
    then have m: "?e \<in> set (mProtocolDatabase s)" and "pe_ProtocolID (pentry s ?e) = g"
      unfolding e using find_address_Some [of "\<lambda>e. pe_ProtocolID (pentry s e) = g" "mProtocolDatabase s"] by auto
    then show "hand_lookup s (h, g) \<noteq> None"
      using r entry_okD(3-5) [OF hand_invD(7) [OF inv m]] unfolding look guid_of_def by metis
  qed
  then show ?thesis by auto
qed

definition stamps_ok :: "hand_state \<Rightarrow> bool" where
  "stamps_ok s \<longleftrightarrow> (\<forall>h \<in> set (gHandleList s). ih_LocateRequest (ihandle s h) \<le> mEfiLocateHandleRequest s)"

definition few_interfaces :: "hand_state \<Rightarrow> bool" where
  "few_interfaces s \<longleftrightarrow> (\<forall>e \<in> set (mProtocolDatabase s). 8 * length (pe_Protocols (pentry s e)) < (2 ^ 64 :: nat))"

text \<open>The handles with a protocol, in the order in which it was installed.\<close>

definition protocol_handles :: "hand_env \<Rightarrow> EFI_GUID \<Rightarrow> hand_state \<Rightarrow> EFI_HANDLE list" where
  "protocol_handles env g s = (let e = fst (CoreFindProtocolEntry env g False s)
     in if e = NULL then [] else first_handles (\<lambda>p. pi_Handle (pinterface s p)) (\<lambda>_. False) (pe_Protocols (pentry s e)))"

lemma protocol_handles:
  assumes "hand_inv s"
  shows "set (protocol_handles env g s) = {h. hand_lookup s (h, g) \<noteq> None}" and "distinct (protocol_handles env g s)"
  unfolding lookup_entry [OF assms, of g env]
  by (auto simp: protocol_handles_def Let_def set_first_handles distinct_first_handles)

lemma first_handles_cong:
  "\<forall>p \<in> set ps. seen (f p) = seen' (f p) \<Longrightarrow> first_handles f seen ps = first_handles f seen' ps"
proof (induction ps arbitrary: seen seen')
  case (Cons p ps)
  show ?case
    using Cons.prems Cons.IH [of seen seen'] Cons.IH [of "\<lambda>h. seen h \<or> h = f p" "\<lambda>h. seen' h \<or> h = f p"] by auto
qed simp

lemma CoreAcquireProtocolLock_request: "mEfiLocateHandleRequest (CoreAcquireProtocolLock s) = mEfiLocateHandleRequest s"
  by (simp add: CoreAcquireProtocolLock_def)

text \<open>The status, the size and the buffer of a search that finds the handles \<open>L\<close>.\<close>

definition locate_result :: "EFI_HANDLE list \<Rightarrow> UINTN \<Rightarrow> EFI_STATUS \<times> UINTN option \<times> EFI_HANDLE list" where
  "locate_result L sz =
     (if L = [] then EFI_NOT_FOUND else if unat sz < 8 * length L then EFI_BUFFER_TOO_SMALL else EFI_SUCCESS,
      Some (if L = [] then sz else of_nat (8 * length L)), take (unat sz div 8) L)"

lemma locate_result_size:
  assumes "8 * length L < (2 ^ 64 :: nat)"
  shows "(of_nat (8 * length L) :: u64) = 0 \<longleftrightarrow> L = []" and "of_nat (8 * length L) > (sz :: u64) \<longleftrightarrow> unat sz < 8 * length L"
proof -
  have u: "unat (of_nat (8 * length L) :: u64) = 8 * length L"
    using assms by (simp add: unsigned_of_nat take_bit_nat_eq_self del: of_nat_mult)
  then show "(of_nat (8 * length L) :: u64) = 0 \<longleftrightarrow> L = []" by (metis length_0_conv mult_eq_0_iff unat_eq_zero zero_neq_numeral)
  show "of_nat (8 * length L) > (sz :: u64) \<longleftrightarrow> unat sz < 8 * length L" by (simp add: word_less_nat_alt u del: of_nat_mult)
qed

lemma stamps_fresh:
  assumes "stamps_ok s" and "unat (mEfiLocateHandleRequest s) + 1 < 2 ^ 64" and "h \<in> set (gHandleList s)"
  shows "ih_LocateRequest (ihandle s h) \<noteq> mEfiLocateHandleRequest s + 1" and "ih_LocateRequest (ihandle s h) \<le> mEfiLocateHandleRequest s + 1"
  using assms(1,3) unat_succ [OF assms(2)] by (auto simp: stamps_ok_def word_le_nat_alt)

lemma CoreLocateHandle_loop_entry:
  fixes k sz :: u64
  assumes inv: "hand_inv s" and st: "stamps_ok s" and few: "few_interfaces s"
    and cnt: "unat (mEfiLocateHandleRequest s) + 1 < 2 ^ 64" and e: "e \<in> set (mProtocolDatabase s)"
  defines "L \<equiv> first_handles (\<lambda>p. pi_Handle (pinterface s p)) (\<lambda>_. False) (pe_Protocols (pentry s e))"
  obtains s3 where "CoreLocateHandle_loop CoreGetNextLocateByProtocol sz \<lparr>lp_SearchKey = k, lp_Position = pe_Protocols (pentry s e)\<rparr> 0 []
      ((CoreAcquireProtocolLock s)\<lparr>mEfiLocateHandleRequest := mEfiLocateHandleRequest s + 1\<rparr>) =
        Some (of_nat (8 * length L), take (unat sz div 8) L, s3)"
    and "hand_same s s3" and "mEfiLocateHandleRequest s3 = mEfiLocateHandleRequest s + 1" and "stamps_ok s3"
    and "8 * length L < (2 ^ 64 :: nat)"
proof -
  define s2 where "s2 = (CoreAcquireProtocolLock s)\<lparr>mEfiLocateHandleRequest := mEfiLocateHandleRequest s + 1\<rparr>"
  have s2: "pentry s2 = pentry s" "pinterface s2 = pinterface s" by (simp_all add: s2_def CoreAcquireProtocolLock_def)
  have hs: "pi_Handle (pinterface s p) \<in> set (gHandleList s)" if "p \<in> set (pe_Protocols (pentry s e))" for p
    using entry_okD(4) [OF hand_invD(7) [OF inv e] that] .
  then have nn: "\<forall>p \<in> set (pe_Protocols (pentry s e)). pi_Handle (pinterface s p) \<noteq> NULL" using hand_invD(2) [OF inv] by metis
  have L: "first_handles (\<lambda>p. pi_Handle (pinterface s2 p)) (stamped s2) (pe_Protocols (pentry s e)) = L"
    using stamps_fresh(1) [OF st cnt] hs unfolding L_def s2_def
    by (auto simp: CoreAcquireProtocolLock_def stamped_def intro!: first_handles_cong)
  have len: "8 * length (pe_Protocols (pentry s e)) < (2 ^ 64 :: nat)" using few e by (simp add: few_interfaces_def)
  obtain s3 where loop: "CoreLocateHandle_loop CoreGetNextLocateByProtocol sz \<lparr>lp_SearchKey = k, lp_Position = pe_Protocols (pentry s e)\<rparr> 0 [] s2 =
      Some (of_nat (8 * length L), take (unat sz div 8) L, s3)" and s3: "search_same s2 s3"
    using CoreLocateHandle_loop_by_protocol [of "pe_Protocols (pentry s e)" s2 "[]" sz k] len nn by (auto simp: L [unfolded s2] s2)
  have same: "hand_same s s3" "mEfiLocateHandleRequest s3 = mEfiLocateHandleRequest s + 1"
    "\<forall>h. ih_LocateRequest (ihandle s3 h) \<in> {ih_LocateRequest (ihandle s h), mEfiLocateHandleRequest s + 1}"
    using s3 by (auto simp: search_same_def s2_def CoreAcquireProtocolLock_def hand_same_def)
  then have "stamps_ok s3"
    using stamps_fresh(2) [OF st cnt] by (auto simp: stamps_ok_def hand_same_def) (metis insertE order_refl singletonD)
  moreover have "8 * length L < (2 ^ 64 :: nat)"
    using len length_first_handles [of "\<lambda>p. pi_Handle (pinterface s p)" "\<lambda>_. False" "pe_Protocols (pentry s e)"] by (simp add: L_def)
  ultimately show thesis using that [OF loop [unfolded s2_def] same(1,2)] by blast
qed

lemma CoreLocateHandle_by_protocol:
  fixes g :: EFI_GUID and k sz :: u64
  assumes cb: "hand_callbacks env" and q: "hand_quiet env" and ok: "hand_ok t s" and st: "stamps_ok s" and few: "few_interfaces s"
    and cnt: "unat (mEfiLocateHandleRequest s) + 1 < 2 ^ 64" and ptr: "sz = 0 \<or> ptr"
  defines "L \<equiv> protocol_handles env g s"
  shows "\<exists>s'. CoreLocateHandle env ByProtocol (Some g) k (Some sz) ptr s = (let (a, b, c) = locate_result L sz in Some (a, b, c, s')) \<and>
    hand_same s s' \<and> hand_ok t s' \<and> stamps_ok s' \<and> unat (mEfiLocateHandleRequest s') \<le> unat (mEfiLocateHandleRequest s) + 1"
proof -
  have inv: "hand_inv s" using ok by (simp add: hand_ok_def)
  define e where "e = fst (CoreFindProtocolEntry env g False s)"
  have e1: "fst (CoreFindProtocolEntry env g False (CoreAcquireProtocolLock s)) = e"
    by (simp add: e_def CoreFindProtocolEntry_def CoreAcquireProtocolLock_def)
  have "\<exists>s'. CoreLocateHandle env ByProtocol (Some g) k (Some sz) ptr s = (let (a, b, c) = locate_result L sz in Some (a, b, c, s')) \<and>
    hand_same s s' \<and> stamps_ok s' \<and> unat (mEfiLocateHandleRequest s') \<le> unat (mEfiLocateHandleRequest s) + 1"
  proof (cases "e = NULL")
    case True
    then have "L = []" by (simp add: L_def protocol_handles_def e_def)
    then show ?thesis
      using True ptr q st e1 hand_same_release [OF q hand_same_acquire]
      by (auto simp: CoreLocateHandle_def CoreLocateHandle_start_def Let_def efi_const locate_result_def stamps_ok_def
          CoreReleaseProtocolLock_def CoreAcquireProtocolLock_def hand_quiet_def)
  next
    case False
    then have e: "e \<in> set (mProtocolDatabase s)"
      using find_address_Some [of "\<lambda>e. pe_ProtocolID (pentry s e) = g" "mProtocolDatabase s"] by (simp add: e_def CoreFindProtocolEntry_def)
    have L: "first_handles (\<lambda>p. pi_Handle (pinterface s p)) (\<lambda>_. False) (pe_Protocols (pentry s e)) = L"
      using False by (simp add: L_def protocol_handles_def Let_def e_def)
    obtain s3 where loop: "CoreLocateHandle_loop CoreGetNextLocateByProtocol sz \<lparr>lp_SearchKey = k, lp_Position = pe_Protocols (pentry s e)\<rparr> 0 []
      ((CoreAcquireProtocolLock s)\<lparr>mEfiLocateHandleRequest := mEfiLocateHandleRequest s + 1\<rparr>) =
        Some (of_nat (8 * length L), take (unat sz div 8) L, s3)"
      and same: "hand_same s s3" "mEfiLocateHandleRequest s3 = mEfiLocateHandleRequest s + 1" "stamps_ok s3"
      and len: "8 * length L < (2 ^ 64 :: nat)"
      by (rule CoreLocateHandle_loop_entry [OF inv st few cnt e, of sz k, unfolded L])
    have "CoreLocateHandle_start env ByProtocol (Some g) k (CoreAcquireProtocolLock s) =
        Inr (CoreGetNextLocateByProtocol, \<lparr>lp_SearchKey = k, lp_Position = pe_Protocols (pentry s e)\<rparr>)"
      using False e1 by (simp add: CoreLocateHandle_start_def efi_const CoreAcquireProtocolLock_def)
    then have "CoreLocateHandle env ByProtocol (Some g) k (Some sz) ptr s =
        (let (a, b, c) = locate_result L sz in Some (a, b, c, CoreReleaseProtocolLock env s3))"
      using ptr loop locate_result_size(1) [OF len] locate_result_size(2) [OF len, of sz]
      by (auto simp: CoreAcquireProtocolLock_request CoreLocateHandle_def locate_result_def Let_def efi_const simp del: of_nat_mult)
    then show ?thesis
      using hand_same_release [OF q same(1)] unat_succ [OF cnt] q same(2,3)
      by (intro exI [of _ "CoreReleaseProtocolLock env s3"])
        (auto simp: stamps_ok_def CoreReleaseProtocolLock_def hand_quiet_def)
  qed
  then show ?thesis using ensuresD [OF hand_callbacks.LocateHandle_ok [OF cb ok]] by (fastforce simp: locate_result_def)
qed

lemma word_unat_eqI: "unat a = unat b \<Longrightarrow> a = (b :: u64)"
  by (simp add: unat_arith_simps)

lemma protocol_handles_length:
  assumes "few_interfaces s"
  shows "8 * length (protocol_handles env g s) < (2 ^ 64 :: nat)"
proof -
  let ?e = "fst (CoreFindProtocolEntry env g False s)"
  have "?e \<noteq> NULL \<Longrightarrow> ?e \<in> set (mProtocolDatabase s)"
    using find_address_Some [of "\<lambda>e. pe_ProtocolID (pentry s e) = g" "mProtocolDatabase s"] by (simp add: CoreFindProtocolEntry_def)
  then have "?e \<noteq> NULL \<Longrightarrow> 8 * length (pe_Protocols (pentry s ?e)) < (2 ^ 64 :: nat)"
    using assms by (simp add: few_interfaces_def)
  then show ?thesis
    using length_first_handles [of "\<lambda>p. pi_Handle (pinterface s p)" "\<lambda>_. False" "pe_Protocols (pentry s ?e)"]
    by (cases "?e = NULL") (simp_all add: protocol_handles_def Let_def)
qed

lemma protocol_handles_same: "hand_same s s' \<Longrightarrow> protocol_handles env g s' = protocol_handles env g s"
proof -
  assume same: "hand_same s s'"
  then have f: "(\<lambda>p. pi_Handle (pinterface s' p)) = (\<lambda>p. pi_Handle (pinterface s p))" "pentry s' = pentry s"
    "mProtocolDatabase s' = mProtocolDatabase s" by (simp_all add: hand_same_def)
  have "fst (CoreFindProtocolEntry env g False s') = fst (CoreFindProtocolEntry env g False s)"
    by (simp add: CoreFindProtocolEntry_def f)
  then show ?thesis unfolding protocol_handles_def f by simp
qed

text \<open>
  C21. \<^verbatim>\<open>LocateHandleBuffer\<close> by protocol returns exactly the handles that have the protocol installed,
  each once and in the order of installation, or that there are none.
\<close>

theorem CoreLocateHandleBuffer_by_protocol:
  assumes cb: "hand_callbacks env" and q: "hand_quiet env" and ok: "hand_ok t s" and st: "stamps_ok s" and few: "few_interfaces s"
    and cnt: "unat (mEfiLocateHandleRequest s) + 2 < 2 ^ 64" and mem: "\<forall>s. env_AllocatePool env HAND_BUFFER s \<noteq> NULL"
  shows "\<exists>L s'. CoreLocateHandleBuffer env ByProtocol (Some g) k True s =
      Some (if L = [] then EFI_NOT_FOUND else EFI_SUCCESS, of_nat (length L), L, s') \<and>
    distinct L \<and> set L = {h. hand_lookup s (h, g) \<noteq> None} \<and> hand_lookup s' = hand_lookup s \<and> hand_ok t s'"
proof -
  define L where "L = protocol_handles env g s"
  have inv: "hand_inv s" using ok by (simp add: hand_ok_def)
  obtain s1 where s1: "CoreLocateHandle env ByProtocol (Some g) k (Some 0) False s = (let (a, b, c) = locate_result L 0 in Some (a, b, c, s1))"
    "hand_same s s1" "hand_ok t s1" "stamps_ok s1" "unat (mEfiLocateHandleRequest s1) \<le> unat (mEfiLocateHandleRequest s) + 1"
    using CoreLocateHandle_by_protocol [OF cb q ok st few, of 0 False g k] cnt unfolding L_def by auto
  have L1: "protocol_handles env g s1 = L" using protocol_handles_same [OF s1(2)] by (simp add: L_def)
  have few1: "few_interfaces s1" using few s1(2) by (simp add: few_interfaces_def hand_same_def)
  obtain s2 where s2: "CoreLocateHandle env ByProtocol (Some g) k (Some (of_nat (8 * length L))) True s1 =
      (let (a, b, c) = locate_result L (of_nat (8 * length L)) in Some (a, b, c, s2))" "hand_same s1 s2" "hand_ok t s2"
    using CoreLocateHandle_by_protocol [OF cb q s1(3,4) few1, of "of_nat (8 * length L)" True g k] cnt s1(5) L1 by auto
  have len: "8 * length L < (2 ^ 64 :: nat)" unfolding L_def by (rule protocol_handles_length [OF few])
  have u: "unat (of_nat (8 * length L) :: u64) = 8 * length L"
    using len by (simp add: unsigned_of_nat take_bit_nat_eq_self del: of_nat_mult)
  have d: "(of_nat (8 * length L) :: u64) div 8 = of_nat (length L)"
    by (rule word_unat_eqI) (use len in \<open>simp add: unat_div u unsigned_of_nat take_bit_nat_eq_self del: of_nat_mult\<close>)
  have "CoreLocateHandleBuffer env ByProtocol (Some g) k True s =
      Some (if L = [] then EFI_NOT_FOUND else EFI_SUCCESS, of_nat (length L), L, if L = [] then s1 else s2)"
    using s1(1) s2(1) mem u d
    by (cases "L = []") (simp_all add: CoreLocateHandleBuffer_def locate_result_def del: of_nat_mult)
  moreover have "hand_lookup s1 = hand_lookup s" "hand_lookup s2 = hand_lookup s"
    using hand_lookup_same [OF s1(2)] hand_lookup_same [OF s2(2)] by simp_all
  ultimately show ?thesis
    using protocol_handles [OF inv, of env g] s1(3) s2(3)
    by (intro exI [of _ L] exI [of _ "if L = [] then s1 else s2"]) (simp add: L_def)
qed

section \<open>Registrations\<close>

text \<open>The interfaces a registration has not reported yet.\<close>

definition pending :: "hand_state \<Rightarrow> u64 \<Rightarrow> u64 list" where
  "pending s n = nodes_after (pn_Position (pnotify s n)) (pe_Protocols (pentry s (pn_Protocol (pnotify s n))))"

lemma nodes_after_split: "distinct (xs @ a # ys) \<Longrightarrow> nodes_after (Some a) (xs @ a # ys) = ys"
  by (induction xs) (auto simp: nodes_after_def)

lemma nodes_after_suffix: "\<exists>xs. ys = xs @ nodes_after pos ys"
proof (cases pos)
  case (Some a)
  show ?thesis
  proof (cases "dropWhile (\<lambda>x. x \<noteq> a) ys")
    case Nil
    then have "nodes_after pos ys = []" by (simp only: nodes_after_def Some option.case list.sel)
    then show ?thesis by simp
  next
    case (Cons b zs)
    have "takeWhile (\<lambda>x. x \<noteq> a) ys @ dropWhile (\<lambda>x. x \<noteq> a) ys = ys" by simp
    then have "ys = (takeWhile (\<lambda>x. x \<noteq> a) ys @ [b]) @ zs" unfolding Cons by simp
    moreover have "nodes_after pos ys = zs" by (simp add: nodes_after_def Some Cons)
    ultimately show ?thesis by metis
  qed
qed (simp add: nodes_after_def)

lemma nodes_after_next:
  assumes "distinct ps" and "nodes_after pos ps = p # rest"
  shows "nodes_after (Some p) ps = rest"
proof -
  obtain xs where "ps = xs @ p # rest" using nodes_after_suffix [of ps pos] assms(2) by auto
  then show ?thesis using nodes_after_split assms(1) by metis
qed

lemma nodes_after_append:
  assumes "set_option pos \<subseteq> set ps"
  shows "nodes_after pos (ps @ [p]) = nodes_after pos ps @ [p]"
proof (cases pos)
  case (Some a)
  then have "a \<in> set ps" using assms by simp
  then have "dropWhile (\<lambda>x. x \<noteq> a) ps \<noteq> []" by (auto simp: dropWhile_eq_Nil_conv)
  moreover have "dropWhile (\<lambda>x. x \<noteq> a) (ps @ [p]) = dropWhile (\<lambda>x. x \<noteq> a) ps @ [p]"
    using \<open>a \<in> set ps\<close> by (simp add: dropWhile_append1)
  ultimately show ?thesis using Some by (simp add: nodes_after_def)
qed (simp add: nodes_after_def)

lemma nodes_after_remove:
  assumes d: "distinct ps" and "set_option pos \<subseteq> set ps" and p: "p \<in> set ps"
  shows "nodes_after (if pos = Some p then node_before p ps else pos) (remove1 p ps) = remove1 p (nodes_after pos ps)"
proof (cases "pos = Some p")
  case True
  obtain xs ys where ps: "ps = xs @ p # ys" using p by (meson split_list)
  have np: "p \<notin> set xs" "p \<notin> set ys" using d ps by auto
  have tw: "takeWhile (\<lambda>x. x \<noteq> p) ps = xs" using np(1) unfolding ps by (induction xs) auto
  have rm: "remove1 p ps = xs @ ys" using np ps by (simp add: remove1_append)
  have "nodes_after (node_before p ps) (xs @ ys) = ys"
  proof (cases xs rule: rev_cases)
    case Nil
    then show ?thesis by (simp add: node_before_def tw nodes_after_def)
  next
    case (snoc zs z)
    then have "node_before p ps = Some z" by (simp add: node_before_def tw)
    moreover have "distinct (zs @ z # ys)" using d ps snoc by auto
    ultimately show ?thesis using nodes_after_split [of zs z ys] snoc by simp
  qed
  moreover have "nodes_after (Some p) ps = ys" using nodes_after_split d ps by metis
  ultimately show ?thesis using True rm np by (simp add: remove1_idem)
next
  case False
  show ?thesis
  proof (cases pos)
    case (Some a)
    then have "a \<in> set ps" "a \<noteq> p" using assms(2) False by auto
    then obtain xs ys where ps: "ps = xs @ a # ys" by (meson split_list)
    then have "remove1 p ps = remove1 p xs @ a # ys \<or> p \<notin> set xs \<and> remove1 p ps = xs @ a # remove1 p ys"
      using \<open>a \<noteq> p\<close> by (auto simp: remove1_append)
    moreover have "nodes_after pos ps = ys" using nodes_after_split d ps Some by metis
    moreover have "distinct (remove1 p ps)" using d by (simp add: distinct_remove1)
    moreover have "p \<in> set xs \<Longrightarrow> p \<notin> set ys" using d ps by auto
    ultimately show ?thesis
      using False Some nodes_after_split [of "remove1 p xs" a ys] nodes_after_split [of xs a "remove1 p ys"] ps \<open>a \<noteq> p\<close>
      by (auto simp: remove1_append remove1_idem)
  qed (simp add: nodes_after_def)
qed

lemma set_pending: "set (pending s n) \<subseteq> set (pe_Protocols (pentry s (pn_Protocol (pnotify s n))))"
  by (simp add: pending_def set_nodes_after)

lemma pending_locate:
  fixes g :: EFI_GUID
  assumes inv: "hand_inv s" and q: "hand_quiet env" and free: "lock_Lock (gProtocolDatabaseLock s) \<noteq> EfiLockAcquired"
    and e: "e \<in> set (mProtocolDatabase s)" and n: "n \<in> set (pe_Notify (pentry s e))"
  defines "r \<equiv> CoreLocateProtocol env (Some g) n True s"
  shows "case pending s n of
      [] \<Rightarrow> fst r = EFI_NOT_FOUND \<and> pending (snd (snd r)) n = []
    | p # rest \<Rightarrow> fst r = EFI_SUCCESS \<and> fst (snd r) = Some (pi_Interface (pinterface s p)) \<and> pending (snd (snd r)) n = rest"
proof -
  have ok: "entry_ok s e" by (rule hand_invD(7) [OF inv e])
  have pe: "pn_Protocol (pnotify s n) = e" and n0: "n \<noteq> NULL" using entry_okD(6,7) [OF ok n] by blast+
  have acq: "CoreAcquireLockOrFail s = (EFI_SUCCESS, CoreAcquireProtocolLock s)"
    using free by (simp add: CoreAcquireLockOrFail_def CoreAcquireProtocolLock_def)
  define s2 where "s2 = (CoreAcquireProtocolLock s)\<lparr>mEfiLocateHandleRequest := mEfiLocateHandleRequest s + 1\<rparr>"
  have s2: "pnotify s2 = pnotify s" "pentry s2 = pentry s" "pinterface s2 = pinterface s"
    by (simp_all add: s2_def CoreAcquireProtocolLock_def)
  have nxt: "registration_next n s2 = (case pending s n of [] \<Rightarrow> None | p # _ \<Rightarrow> Some p)"
    by (simp add: registration_next_def pending_def s2)
  have r: "r = (let (h, i, _, s3) = CoreGetNextLocateByRegisterNotify \<lparr>lp_SearchKey = n, lp_Position = gHandleList s2\<rparr> s2
     in if h = NULL then (EFI_NOT_FOUND, Some i, CoreReleaseProtocolLock env s3)
        else (EFI_SUCCESS, Some i, CoreReleaseProtocolLock env (update_notify n (\<lambda>x. x\<lparr>pn_Position := registration_next n s3\<rparr>) s3)))"
    using n0 by (simp add: r_def CoreLocateProtocol_def acq s2_def CoreAcquireProtocolLock_request)
  show ?thesis
  proof (cases "pending s n")
    case Nil
    then show ?thesis
      using n0 q nxt by (simp add: r CoreGetNextLocateByRegisterNotify_def pending_def s2 CoreReleaseProtocolLock_def hand_quiet_def)
  next
    case (Cons p rest)
    then have "p \<in> set (pe_Protocols (pentry s e))" using set_pending [of s n] pe by simp
    then have "pi_Handle (pinterface s p) \<noteq> NULL" using entry_okD(4) [OF ok] hand_invD(2) [OF inv] by metis
    moreover have "nodes_after (Some p) (pe_Protocols (pentry s e)) = rest"
      using nodes_after_next [OF entry_okD(1) [OF ok]] Cons pe by (simp add: pending_def)
    ultimately show ?thesis
      using n0 q nxt Cons pe
      by (simp add: r CoreGetNextLocateByRegisterNotify_def pending_def s2 CoreReleaseProtocolLock_def hand_quiet_def update_notify_def)
  qed
qed

lemma pending_install:
  assumes ok: "entry_ok s e" and n: "n \<in> set (pe_Notify (pentry s e))"
    and eq: "CoreInstallProtocolInterface_link env e u i ntf s = (EFI_SUCCESS, h, s')"
  shows "pending s' n = pending s n @ [env_AllocatePool env HAND_INTERFACE s]"
  using eq
proof (cases rule: CoreInstallProtocolInterface_link_cases)
  case (2 p)
  then show ?thesis
    using nodes_after_append [OF entry_okD(8) [OF ok n]] entry_okD(7) [OF ok n]
    by (simp add: pending_def Let_def link_interface_def new_handle_def hand_updates CoreNotifyProtocolEntry_def)
qed simp

lemma pending_remove:
  assumes inv: "hand_inv s" and e: "e \<in> set (mProtocolDatabase s)" and n: "n \<in> set (pe_Notify (pentry s e))"
    and eq: "CoreRemoveInterfaceFromProtocol env h g i s = (p, s')"
  shows "pending s' n = remove1 p (pending s n)"
proof -
  have ok: "entry_ok s e" by (rule hand_invD(7) [OF inv e])
  have pe: "pn_Protocol (pnotify s n) = e" using entry_okD(7) [OF ok n] .
  show ?thesis
  proof (cases "p = NULL \<or> p \<notin> set (pe_Protocols (pentry s e))")
    case True
    have "p \<notin> set (pe_Protocols (pentry s e))"
      using True hand_wf_entry_interfaces [OF _ e] hand_inv_NULL_interfaces [OF inv] inv by (auto simp: hand_inv_def)
    moreover have "pending s' n = pending s n"
    proof (cases "p = NULL")
      case True
      then show ?thesis using eq by (auto simp: CoreRemoveInterfaceFromProtocol_eq Let_def split: if_splits)
    next
      case False
      then have p: "p = CoreFindProtocolInterface env h g i s" "s' = remove_by_protocol p s"
        using eq by (auto simp: CoreRemoveInterfaceFromProtocol_eq Let_def split: if_splits)
      have "p \<in> set (pe_Protocols (pentry s (pi_Protocol (pinterface s p))))"
        using CoreFindProtocolInterface_locked [OF inv, of env h g i] False p(1) handle_okD(5) [OF hand_invD(6) [OF inv]] by metis
      then have "pi_Protocol (pinterface s p) \<noteq> e" using \<open>p \<notin> set (pe_Protocols (pentry s e))\<close> by metis
      moreover have "pn_Position (pnotify s n) \<noteq> Some p" using entry_okD(8) [OF ok n] \<open>p \<notin> set (pe_Protocols (pentry s e))\<close> by auto
      ultimately show ?thesis by (simp add: p(2) pending_def pe Let_def)
    qed
    moreover have "p \<notin> set (pending s n)" using calculation(1) set_pending [of s n] pe by blast
    ultimately show ?thesis by (simp add: remove1_idem)
  next
    case False
    then have "s' = remove_by_protocol p s" using eq by (auto simp: CoreRemoveInterfaceFromProtocol_eq Let_def split: if_splits)
    moreover have "pi_Protocol (pinterface s p) = e" using entry_okD(3) [OF ok] False by blast
    ultimately show ?thesis
      using nodes_after_remove [OF entry_okD(1) [OF ok] entry_okD(8) [OF ok n], of p] False n
      by (simp add: pending_def pe Let_def)
  qed
qed

text \<open>
  C22. A registration is a first-in first-out queue of the interfaces of its protocol:
  \<^verbatim>\<open>LocateProtocol\<close> with the registration takes the oldest one out and reports it, or that there is
  none; installing an interface puts it at the end; taking an interface out of the protocol removes
  it and keeps the rest, so that none is reported twice or skipped.
\<close>

theorem registration_queue:
  assumes "hand_inv s" and "hand_quiet env" and "lock_Lock (gProtocolDatabaseLock s) \<noteq> EfiLockAcquired"
    and "e \<in> set (mProtocolDatabase s)" and "n \<in> set (pe_Notify (pentry s e))"
  shows "(case (pending s n, CoreLocateProtocol env (Some g) n True s) of
      ([], st, _, s') \<Rightarrow> st = EFI_NOT_FOUND \<and> pending s' n = []
    | (p # rest, st, x, s') \<Rightarrow> st = EFI_SUCCESS \<and> x = Some (pi_Interface (pinterface s p)) \<and> pending s' n = rest) \<and>
    (\<forall>u i ntf h s'. CoreInstallProtocolInterface_link env e u i ntf s = (EFI_SUCCESS, h, s') \<longrightarrow>
       pending s' n = pending s n @ [env_AllocatePool env HAND_INTERFACE s]) \<and>
    (\<forall>h i p s'. CoreRemoveInterfaceFromProtocol env h g i s = (p, s') \<longrightarrow> pending s' n = remove1 p (pending s n))"
  using pending_locate [OF assms, of g] pending_install [OF hand_invD(7) [OF assms(1,4)] assms(5)]
    pending_remove [OF assms(1,4,5)]
  by (auto split: list.splits prod.splits)

section \<open>Unregistering\<close>

definition registrations :: "EFI_EVENT \<Rightarrow> hand_state \<Rightarrow> nat" where
  "registrations v s = (\<Sum>e \<leftarrow> mProtocolDatabase s. length (filter (\<lambda>n. pn_Event (pnotify s n) = v) (pe_Notify (pentry s e))))"

text \<open>All but the registrations of an event.\<close>

definition other_registrations :: "EFI_EVENT \<Rightarrow> hand_state \<Rightarrow> u64 \<Rightarrow> u64 list" where
  "other_registrations v s e = filter (\<lambda>n. pn_Event (pnotify s n) \<noteq> v) (pe_Notify (pentry s e))"

lemma sum_list_update:
  assumes "distinct xs" and "e \<in> set xs" and "f e = Suc m"
  shows "sum_list (map f xs) = Suc (sum_list (map (f(e := m)) xs :: nat list))"
proof -
  have "map (f(e := m)) ys = map f ys" if "e \<notin> set ys" for ys using that by (intro map_cong) auto
  then show ?thesis using assms by (induction xs) auto
qed

lemma length_filter_remove1:
  "x \<in> set xs \<Longrightarrow> P x \<Longrightarrow> length (filter P xs) = Suc (length (filter P (remove1 x xs)))"
  by (induction xs) auto

lemma filter_remove1_not: "\<not> P x \<Longrightarrow> filter P (remove1 x xs) = filter P xs"
  by (induction xs) auto

lemma CoreUnregisterProtocolNotifyEvent_step:
  assumes q: "hand_quiet env" and inv: "hand_inv s"
  obtains (none) "CoreUnregisterProtocolNotifyEvent env v s = (EFI_NOT_FOUND, CoreReleaseProtocolLock env (CoreAcquireProtocolLock s))"
      "registrations v s = 0"
  | (some) s' where "CoreUnregisterProtocolNotifyEvent env v s = (EFI_SUCCESS, s')" "registrations v s = Suc (registrations v s')"
      "\<forall>e. other_registrations v s' e = other_registrations v s e" "hand_inv s'" "mProtocolDatabase s' = mProtocolDatabase s"
proof -
  define s1 where "s1 = CoreAcquireProtocolLock s"
  have s1: "pnotify s1 = pnotify s" "pentry s1 = pentry s" "mProtocolDatabase s1 = mProtocolDatabase s"
    by (simp_all add: s1_def CoreAcquireProtocolLock_def)
  let ?m = "\<lambda>n. pn_Event (pnotify s n) = v" and ?P = "\<lambda>e. \<exists>n \<in> set (pe_Notify (pentry s e)). pn_Event (pnotify s n) = v"
  show thesis
  proof (cases "find ?P (mProtocolDatabase s)")
    case None
    then have "registrations v s = 0" by (auto simp: registrations_def find_None_iff filter_empty_conv)
    then show thesis using none None by (simp add: CoreUnregisterProtocolNotifyEvent_def s1_def [symmetric] s1 Let_def)
  next
    case (Some e)
    then have e: "e \<in> set (mProtocolDatabase s)" and ex: "?P e" by (auto simp: find_Some_iff)
    have ok: "entry_ok s e" by (rule hand_invD(7) [OF inv e])
    define x where "x = find_address ?m (pe_Notify (pentry s e))"
    have "NULL \<notin> set (pe_Notify (pentry s e))" using entry_okD(6) [OF ok] by blast
    then have x: "x \<in> set (pe_Notify (pentry s e))" "?m x"
      using ex find_address_NULL [of "pe_Notify (pentry s e)" ?m] find_address_Some [of ?m "pe_Notify (pentry s e)"] by (auto simp: x_def)
    define s2 where "s2 = update_entry e (\<lambda>y. y\<lparr>pe_Notify := remove1 (find_address ?m (pe_Notify y)) (pe_Notify y)\<rparr>) s1"
    have eq: "CoreUnregisterProtocolNotifyEvent env v s = (EFI_SUCCESS, CoreReleaseProtocolLock env s2)"
      using Some by (simp add: CoreUnregisterProtocolNotifyEvent_def s1_def [symmetric] s1 s2_def Let_def)
    have n2: "pe_Notify (pentry s2 e') = (if e' = e then remove1 x (pe_Notify (pentry s e)) else pe_Notify (pentry s e'))" for e'
      by (simp add: s2_def update_entry_def s1 x_def)
    have f2: "pnotify s2 = pnotify s" "mProtocolDatabase s2 = mProtocolDatabase s" by (simp_all add: s2_def update_entry_def s1)
    have "length (filter ?m (pe_Notify (pentry s e))) = Suc (length (filter ?m (remove1 x (pe_Notify (pentry s e)))))"
      by (rule length_filter_remove1) (fact x)+
    then have "registrations v s = Suc (registrations v s2)"
      unfolding registrations_def f2
      by (subst sum_list_update [OF hand_invD(3) [OF inv] e]) (auto simp: n2 intro!: arg_cong [where f = sum_list])
    moreover have "other_registrations v s2 e' = other_registrations v s e'" for e'
      using x by (simp add: other_registrations_def n2 f2 filter_remove1_not)
    moreover have "hand_inv s2" using inv unfolding s2_def s1_def by (intro hand_inv_unregister) simp
    ultimately show thesis
      using some [OF eq] q f2 by (simp add: CoreReleaseProtocolLock_def hand_quiet_def registrations_def other_registrations_def)
  qed
qed

text \<open>
  Unregistering an event ends after one round for each of its registrations and one more, and
  removes them all; every other registration stays in its place.
\<close>

theorem CoreUnregisterProtocolNotify_removes:
  assumes "hand_quiet env" and "hand_inv s" and "registrations v s < n"
  shows "\<exists>s'. CoreUnregisterProtocolNotify n env v s = Some (EFI_SUCCESS, s') \<and> registrations v s' = 0 \<and>
    (\<forall>e. other_registrations v s' e = other_registrations v s e)"
  using assms(2,3)
proof (induction n arbitrary: s)
  case (Suc n)
  show ?case
  proof (rule CoreUnregisterProtocolNotifyEvent_step [OF assms(1) Suc.prems(1), of v])
    assume "CoreUnregisterProtocolNotifyEvent env v s = (EFI_NOT_FOUND, CoreReleaseProtocolLock env (CoreAcquireProtocolLock s))"
      "registrations v s = 0"
    then show ?thesis
      using assms(1) by (simp add: CoreReleaseProtocolLock_def CoreAcquireProtocolLock_def hand_quiet_def registrations_def other_registrations_def)
  next
    fix s' assume "CoreUnregisterProtocolNotifyEvent env v s = (EFI_SUCCESS, s')" "registrations v s = Suc (registrations v s')"
      "\<forall>e. other_registrations v s' e = other_registrations v s e" "hand_inv s'"
    then show ?thesis using Suc.IH [of s'] Suc.prems(2) by simp
  qed
qed simp

end
