(* ===== verification/HandClaims.thy ===== *)
theory HandClaims
  imports HandMultiple HandSearch
begin

text \<open>
  The properties of the handle database that span its theories, and examples that show that the
  hypotheses can hold.
\<close>

section \<open>An example\<close>

text \<open>A world without callbacks whose pool counts the objects in use.\<close>

definition hand_example_pool :: "hand_object \<Rightarrow> hand_state \<Rightarrow> u64" where
  "hand_example_pool k s = (case k of
      HAND_ENTRY \<Rightarrow> 0x1000 + of_nat (length (mProtocolDatabase s))
    | HAND_HANDLE \<Rightarrow> 0x2000 + of_nat (length (gHandleList s))
    | HAND_INTERFACE \<Rightarrow> 0x3000 + of_nat (sum_list (map (\<lambda>h. length (ih_Protocols (ihandle s h))) (gHandleList s)))
    | HAND_NOTIFY \<Rightarrow> 0x4000 + of_nat (sum_list (map (\<lambda>e. length (pe_Notify (pentry s e))) (mProtocolDatabase s)))
    | HAND_OPEN \<Rightarrow> 0x5000
    | HAND_BUFFER \<Rightarrow> 0x6000)"

definition hand_example_world :: hand_world where
  "hand_example_world = \<lparr>world_Pool = hand_example_pool, world_Notifications = (\<lambda>_ _. []), world_Disconnect = (\<lambda>_ _ _. (EFI_SUCCESS, [])),
     world_Connect = (\<lambda>_ _. []), world_fuel = 1, world_memory = (\<lambda>_. 0),
     world_DevicePath = \<lparr>env_Pool = (\<lambda>_ _. 0), addr_mUefiDevicePathLibEndDevicePath = 0, PcdMaximumDevicePathNodeCount = 0\<rparr>,
     world_gDxeCoreImageHandle = 0x2000, world_gEfiDevicePathProtocolGuid = [0xDB]\<rparr>"

definition hand_example_env :: hand_env where
  "hand_example_env = hand_core_env 0 hand_example_world"

lemma hand_example_env_callbacks: "hand_callbacks hand_example_env"
  unfolding hand_example_env_def by (rule hand_callbacks_core)

lemma hand_example_env_quiet:
  "hand_quiet hand_example_env" "disconnect_closes hand_example_env" "\<forall>h s. hand_same s (env_ConnectController hand_example_env h s)"
  "\<forall>s. env_AllocatePool hand_example_env HAND_BUFFER s \<noteq> NULL" "\<forall>s. env_AllocatePool hand_example_env HAND_OPEN s \<noteq> NULL"
  by (simp_all add: hand_quiet_def disconnect_closes_def hand_example_env_def hand_core_env.simps [of 0] hand_example_world_def hand_example_pool_def Let_def)

text \<open>The state after a sequence of calls.\<close>

definition hand_example_state :: "hand_call list \<Rightarrow> hand_state" where
  "hand_example_state cs = hand_calls 1 hand_example_env cs hand_initial"

lemma hand_reach_calls: "hand_reach d w s \<Longrightarrow> hand_reach d w (hand_calls n (hand_core_env d w) cs s)"
proof (induction cs arbitrary: s)
  case (Cons c cs)
  then show ?case by (cases "hand_call_run n (hand_core_env d w) c s") (auto intro: hand_reach.call)
qed simp

lemma hand_example_state_reach: "hand_reach 0 hand_example_world (hand_example_state cs)"
  unfolding hand_example_state_def hand_example_env_def by (rule hand_reach_calls [OF hand_reach.init])

lemma hand_example_state_ok: "hand_ok (hand_Tpl (hand_example_state cs)) (hand_example_state cs)"
  by (rule reach_ok [OF hand_example_state_reach])

lemma hand_example_state_inv: "hand_inv (hand_example_state cs)"
  using hand_example_state_ok [of cs] by (simp add: hand_ok_def)

text \<open>A handle with the protocol \<open>[1]\<close>, a driver with the protocol \<open>[2]\<close>, and a registration for the protocol \<open>[1]\<close>.\<close>

definition hand_example_calls :: "hand_call list" where
  "hand_example_calls = [CallRegisterProtocolNotify (Some [1]) 0xE1 True,
     CallInstallProtocolInterface (Some NULL) (Some [1]) EFI_NATIVE_INTERFACE 0xA,
     CallInstallProtocolInterface (Some NULL) (Some [2]) EFI_NATIVE_INTERFACE 0xB]"

section \<open>The invariant\<close>


lemma hand_example_calls_value:
  "gHandleList (hand_example_state hand_example_calls) = [0x2000, 0x2001]" "hand_lookup (hand_example_state hand_example_calls) (0x2000, [1]) = Some 0xA"
  "hand_unique (hand_example_state hand_example_calls)" "stamps_ok (hand_example_state hand_example_calls)" "mEfiLocateHandleRequest (hand_example_state hand_example_calls) = 0"
  by (code_simp, code_simp, code_simp, code_simp, code_simp)

lemma hand_example_calls_few: "few_interfaces (hand_example_state hand_example_calls)"
proof -
  have "\<forall>e \<in> set (mProtocolDatabase (hand_example_state hand_example_calls)). length (pe_Protocols (pentry (hand_example_state hand_example_calls) e)) \<le> 1"
    by code_simp
  then show ?thesis unfolding few_interfaces_def by fastforce
qed


section \<open>Installing and removing an interface\<close>




lemma hand_example_calls_open: "pi_OpenList (pinterface (hand_example_state hand_example_calls) (CoreGetProtocolInterface 0x2000 [1] (hand_example_state hand_example_calls))) = []"
  by code_simp


section \<open>Witnesses of the other properties\<close>

theorem CoreLocateHandleBuffer_by_protocol_witness:
  "\<exists>L s'. CoreLocateHandleBuffer hand_example_env ByProtocol (Some [1]) 0 True (hand_example_state hand_example_calls) =
      Some (if L = [] then EFI_NOT_FOUND else EFI_SUCCESS, of_nat (length L), L, s') \<and>
    distinct L \<and> set L = {h. hand_lookup (hand_example_state hand_example_calls) (h, [1]) \<noteq> None} \<and>
    hand_lookup s' = hand_lookup (hand_example_state hand_example_calls) \<and> hand_ok (hand_Tpl (hand_example_state hand_example_calls)) s'"
  by (rule CoreLocateHandleBuffer_by_protocol)
    (simp_all add: hand_example_env_callbacks hand_example_env_quiet hand_example_state_ok hand_example_calls_value hand_example_calls_few)

theorem registration_queue_witness:
  "pending (hand_example_state hand_example_calls) 0x4000 = [0x3000] \<and>
   (case CoreLocateProtocol hand_example_env (Some [1]) 0x4000 True (hand_example_state hand_example_calls) of
      (st, x, s') \<Rightarrow> st = EFI_SUCCESS \<and> x = Some 0xA \<and> pending s' 0x4000 = [])"
proof -
  have "lock_Lock (gProtocolDatabaseLock (hand_example_state hand_example_calls)) \<noteq> EfiLockAcquired"
    using hand_example_state_ok [of hand_example_calls] by (simp add: hand_ok_def)
  moreover have "0x1000 \<in> set (mProtocolDatabase (hand_example_state hand_example_calls))" by code_simp
  moreover have "0x4000 \<in> set (pe_Notify (pentry (hand_example_state hand_example_calls) 0x1000))" by code_simp
  moreover have "pending (hand_example_state hand_example_calls) 0x4000 = [0x3000]" by code_simp
  moreover have "pi_Interface (pinterface (hand_example_state hand_example_calls) 0x3000) = 0xA" by code_simp
  ultimately show ?thesis
    using registration_queue [OF hand_example_state_inv [of hand_example_calls] hand_example_env_quiet(1), where e = "0x1000" and n = "0x4000" and g = "[1]"]
    by (simp split: prod.splits)
qed

theorem CoreUnregisterProtocolNotify_removes_witness:
  "\<exists>s'. CoreUnregisterProtocolNotify 2 hand_example_env 0xE1 (hand_example_state hand_example_calls) = Some (EFI_SUCCESS, s') \<and>
     registrations 0xE1 (hand_example_state hand_example_calls) = 1 \<and> registrations 0xE1 s' = 0 \<and>
     (\<forall>e. other_registrations 0xE1 s' e = other_registrations 0xE1 (hand_example_state hand_example_calls) e)"
proof -
  have "registrations 0xE1 (hand_example_state hand_example_calls) = 1" by code_simp
  then show ?thesis
    using CoreUnregisterProtocolNotify_removes [OF hand_example_env_quiet(1) hand_example_state_inv [of hand_example_calls], where v = "0xE1" and n = 2] by simp
qed


text \<open>A database in which nothing is open yet: the handles of the example with their first interface.\<close>

definition hand_example_idle :: hand_state where
  "hand_example_idle = hand_initial\<lparr>gHandleList := [0x2000, 0x2001], mProtocolDatabase := [0x1000],
     ihandle := (ihandle hand_initial)(0x2000 := \<lparr>ih_Signature = EFI_HANDLE_SIGNATURE, ih_Protocols = [0x3000], ih_LocateRequest = 0, ih_Key = 1\<rparr>,
       0x2001 := \<lparr>ih_Signature = EFI_HANDLE_SIGNATURE, ih_Protocols = [], ih_LocateRequest = 0, ih_Key = 1\<rparr>),
     pentry := (pentry hand_initial)(0x1000 := \<lparr>pe_Signature = PROTOCOL_ENTRY_SIGNATURE, pe_ProtocolID = [1], pe_Protocols = [0x3000], pe_Notify = []\<rparr>),
     pinterface := (pinterface hand_initial)(0x3000 := \<lparr>pi_Signature = PROTOCOL_INTERFACE_SIGNATURE, pi_Handle = 0x2000, pi_Protocol = 0x1000,
       pi_Interface = 0xA, pi_OpenList = [], pi_OpenListCount = 0\<rparr>)\<rparr>"




text \<open>The example without memory for open items.\<close>

definition hand_example_starved :: hand_world where
  "hand_example_starved = hand_example_world\<lparr>world_Pool := \<lambda>k s. if k = HAND_OPEN then NULL else hand_example_pool k s\<rparr>"

theorem CoreInstallProtocolInterface_duplicates_witness:
  "\<exists>s'. CoreInstallProtocolInterface 1 (hand_core_env 0 hand_example_starved) (Some 0x2000) (Some [1]) EFI_NATIVE_INTERFACE 0xC
     (hand_example_state hand_example_calls) = Some (EFI_SUCCESS, Some 0x2000, s') \<and> \<not> hand_unique s'"
proof (rule CoreInstallProtocolInterface_duplicates [OF hand_callbacks_core _ hand_example_state_ok])
  show "hand_quiet (hand_core_env 0 hand_example_starved)"
    by (simp add: hand_quiet_def hand_core_env.simps [of 0] hand_example_starved_def hand_example_world_def Let_def)
  show "env_AllocatePool (hand_core_env 0 hand_example_starved) HAND_OPEN (CoreAcquireProtocolLock (hand_example_state hand_example_calls)) = NULL"
    by code_simp
  show "env_AllocatePool (hand_core_env 0 hand_example_starved) HAND_INTERFACE (CoreAcquireProtocolLock
      (CoreReleaseProtocolLock (hand_core_env 0 hand_example_starved) (CoreAcquireProtocolLock (hand_example_state hand_example_calls)))) \<noteq> NULL"
    by code_simp
  show "gDxeCoreImageHandle (hand_core_env 0 hand_example_starved) \<noteq> NULL" by code_simp
qed (simp_all add: hand_example_calls_value hand_example_calls_open)

end
