(* ===== verification/RedBlackTree.thy ===== *)
theory RedBlackTree
  imports UefiBase "HOL-Library.Monad_Syntax"
begin

text \<open>
  The ordered collection of \<^verbatim>\<open>MdePkg/Library/BaseOrderedCollectionRedBlackTreeLib\<close>, a red-black tree
  of nodes with parent pointers.

  The nodes live in a heap, a function from addresses to nodes; a tree structure is its root and
  the two comparison functions the client gave, which read the client's memory, of any type \<open>'m\<close>.
  The state has all of it and the addresses of the pool blocks in use.  The allocator is a parameter.  Loops are partial functions with values in the
  option type, an \<^verbatim>\<open>ASSERT\<close> that fails does not return either: \<open>None\<close> is the value of a call
  that does not come back.
\<close>

section \<open>Nodes, trees and the pool\<close>

type_synonym INTN = "64 word"

datatype RED_BLACK_TREE_COLOR = RedBlackTreeRed | RedBlackTreeBlack

record RED_BLACK_TREE_NODE =
  nd_UserStruct :: u64
  nd_Parent :: u64
  nd_Left :: u64
  nd_Right :: u64
  nd_Color :: RED_BLACK_TREE_COLOR

record 'm RED_BLACK_TREE =
  rbt_Root :: u64
  rbt_UserStructCompare :: "'m \<Rightarrow> u64 \<Rightarrow> u64 \<Rightarrow> INTN"
  rbt_KeyCompare :: "'m \<Rightarrow> u64 \<Rightarrow> u64 \<Rightarrow> INTN"

type_synonym rb_heap = "u64 \<Rightarrow> RED_BLACK_TREE_NODE"

record 'm rb_state =
  rb_tree :: "u64 \<Rightarrow> 'm RED_BLACK_TREE"
  rb_node :: rb_heap
  rb_live :: "u64 list"
  rb_memory :: 'm

record 'm rb_env =
  rb_AllocatePool :: "'m rb_state \<Rightarrow> u64"
  PcdValidateOrderedCollection :: bool

definition set_Parent :: "u64 \<Rightarrow> u64 \<Rightarrow> rb_heap \<Rightarrow> rb_heap" where
  "set_Parent a p h = h(a := (h a)\<lparr>nd_Parent := p\<rparr>)"

definition set_Left :: "u64 \<Rightarrow> u64 \<Rightarrow> rb_heap \<Rightarrow> rb_heap" where
  "set_Left a p h = h(a := (h a)\<lparr>nd_Left := p\<rparr>)"

definition set_Right :: "u64 \<Rightarrow> u64 \<Rightarrow> rb_heap \<Rightarrow> rb_heap" where
  "set_Right a p h = h(a := (h a)\<lparr>nd_Right := p\<rparr>)"

definition set_Color :: "u64 \<Rightarrow> RED_BLACK_TREE_COLOR \<Rightarrow> rb_heap \<Rightarrow> rb_heap" where
  "set_Color a c h = h(a := (h a)\<lparr>nd_Color := c\<rparr>)"

definition ASSERT :: "bool \<Rightarrow> unit option" where
  "ASSERT b = (if b then Some () else None)"

section \<open>Searching and walking\<close>

definition OrderedCollectionUserStruct :: "u64 \<Rightarrow> 'm rb_state \<Rightarrow> u64" where
  "OrderedCollectionUserStruct Node s = nd_UserStruct (rb_node s Node)"

definition OrderedCollectionIsEmpty :: "u64 \<Rightarrow> 'm rb_state \<Rightarrow> bool" where
  "OrderedCollectionIsEmpty Tree s = (rbt_Root (rb_tree s Tree) = NULL)"

partial_function (option) OrderedCollectionFind_loop :: "(u64 \<Rightarrow> INTN) \<Rightarrow> rb_heap \<Rightarrow> u64 \<Rightarrow> u64 option" where
  "OrderedCollectionFind_loop KeyCompare h Node =
     (if Node = NULL then Some Node
      else let Result = KeyCompare (nd_UserStruct (h Node))
           in if Result = 0 then Some Node
              else OrderedCollectionFind_loop KeyCompare h
                     (if sint Result < 0 then nd_Left (h Node) else nd_Right (h Node)))"

definition OrderedCollectionFind :: "u64 \<Rightarrow> u64 \<Rightarrow> 'm rb_state \<Rightarrow> u64 option" where
  "OrderedCollectionFind Tree StandaloneKey s =
     OrderedCollectionFind_loop (rbt_KeyCompare (rb_tree s Tree) (rb_memory s) StandaloneKey) (rb_node s) (rbt_Root (rb_tree s Tree))"

text \<open>The loops that go down on one side.\<close>

partial_function (option) rb_leftmost :: "rb_heap \<Rightarrow> u64 \<Rightarrow> u64 option" where
  "rb_leftmost h Node = (if nd_Left (h Node) \<noteq> NULL then rb_leftmost h (nd_Left (h Node)) else Some Node)"

partial_function (option) rb_rightmost :: "rb_heap \<Rightarrow> u64 \<Rightarrow> u64 option" where
  "rb_rightmost h Node = (if nd_Right (h Node) \<noteq> NULL then rb_rightmost h (nd_Right (h Node)) else Some Node)"

definition OrderedCollectionMin :: "u64 \<Rightarrow> 'm rb_state \<Rightarrow> u64 option" where
  "OrderedCollectionMin Tree s =
     (let Node = rbt_Root (rb_tree s Tree) in if Node = NULL then Some NULL else rb_leftmost (rb_node s) Node)"

definition OrderedCollectionMax :: "u64 \<Rightarrow> 'm rb_state \<Rightarrow> u64 option" where
  "OrderedCollectionMax Tree s =
     (let Node = rbt_Root (rb_tree s Tree) in if Node = NULL then Some NULL else rb_rightmost (rb_node s) Node)"

partial_function (option) OrderedCollectionNext_ascend :: "rb_heap \<Rightarrow> u64 \<Rightarrow> u64 \<Rightarrow> u64 option" where
  "OrderedCollectionNext_ascend h Child Walk =
     (if Walk \<noteq> NULL \<and> Child = nd_Right (h Walk) then OrderedCollectionNext_ascend h Walk (nd_Parent (h Walk))
      else Some Walk)"

definition OrderedCollectionNext :: "u64 \<Rightarrow> 'm rb_state \<Rightarrow> u64 option" where
  "OrderedCollectionNext Node s =
     (if Node = NULL then Some NULL
      else let h = rb_node s; Walk = nd_Right (h Node)
           in if Walk \<noteq> NULL then rb_leftmost h Walk
              else OrderedCollectionNext_ascend h Node (nd_Parent (h Node)))"

partial_function (option) OrderedCollectionPrev_ascend :: "rb_heap \<Rightarrow> u64 \<Rightarrow> u64 \<Rightarrow> u64 option" where
  "OrderedCollectionPrev_ascend h Child Walk =
     (if Walk \<noteq> NULL \<and> Child = nd_Left (h Walk) then OrderedCollectionPrev_ascend h Walk (nd_Parent (h Walk))
      else Some Walk)"

definition OrderedCollectionPrev :: "u64 \<Rightarrow> 'm rb_state \<Rightarrow> u64 option" where
  "OrderedCollectionPrev Node s =
     (if Node = NULL then Some NULL
      else let h = rb_node s; Walk = nd_Left (h Node)
           in if Walk \<noteq> NULL then rb_rightmost h Walk
              else OrderedCollectionPrev_ascend h Node (nd_Parent (h Node)))"

definition NodeIsNullOrBlack :: "rb_heap \<Rightarrow> u64 \<Rightarrow> bool" where
  "NodeIsNullOrBlack h Node \<longleftrightarrow> Node = NULL \<or> nd_Color (h Node) = RedBlackTreeBlack"

section \<open>The self check\<close>

partial_function (option) RedBlackTreeRecursiveCheck :: "rb_heap \<Rightarrow> u64 \<Rightarrow> u32 option" where
  "RedBlackTreeRecursiveCheck h Node =
     (if Node = NULL then Some 1
      else do {
        ASSERT (nd_Color (h Node) = RedBlackTreeRed \<or> nd_Color (h Node) = RedBlackTreeBlack);
        ASSERT (nd_Color (h Node) = RedBlackTreeRed \<longrightarrow> NodeIsNullOrBlack h (nd_Left (h Node)));
        ASSERT (nd_Color (h Node) = RedBlackTreeRed \<longrightarrow> NodeIsNullOrBlack h (nd_Right (h Node)));
        LeftHeight \<leftarrow> RedBlackTreeRecursiveCheck h (nd_Left (h Node));
        RightHeight \<leftarrow> RedBlackTreeRecursiveCheck h (nd_Right (h Node));
        ASSERT (LeftHeight = RightHeight);
        Some ((if nd_Color (h Node) = RedBlackTreeBlack then 1 else 0) + LeftHeight)
      })"

text \<open>The two ordering loops; \<open>step\<close> is the next or the previous node, \<open>ok\<close> the asserted order.\<close>

partial_function (option) RedBlackTreeValidate_loop ::
  "(u64 \<Rightarrow> u64 option) \<Rightarrow> (u64 \<Rightarrow> u64 \<Rightarrow> bool) \<Rightarrow> u64 \<Rightarrow> u32 \<Rightarrow> u32 option" where
  "RedBlackTreeValidate_loop step ok Last Count =
     do {
       Node \<leftarrow> step Last;
       if Node \<noteq> NULL
       then do {
         ASSERT (ok Last Node);
         RedBlackTreeValidate_loop step ok Node (Count + 1)
       }
       else Some Count
     }"

definition RedBlackTreeValidate :: "u64 \<Rightarrow> 'm rb_state \<Rightarrow> unit option" where
  "RedBlackTreeValidate Tree s =
     (let compare = (\<lambda>a b. sint (rbt_UserStructCompare (rb_tree s Tree) (rb_memory s) (nd_UserStruct (rb_node s a)) (nd_UserStruct (rb_node s b))))
      in do {
        ASSERT (NodeIsNullOrBlack (rb_node s) (rbt_Root (rb_tree s Tree)));
        RedBlackTreeRecursiveCheck (rb_node s) (rbt_Root (rb_tree s Tree));
        Last \<leftarrow> OrderedCollectionMin Tree s;
        ForwardCount \<leftarrow> RedBlackTreeValidate_loop (\<lambda>a. OrderedCollectionNext a s) (\<lambda>a b. compare a b < 0) Last
          (if Last \<noteq> NULL then 1 else 0);
        Last \<leftarrow> OrderedCollectionMax Tree s;
        BackwardCount \<leftarrow> RedBlackTreeValidate_loop (\<lambda>a. OrderedCollectionPrev a s) (\<lambda>a b. compare a b > 0) Last
          (if Last \<noteq> NULL then 1 else 0);
        ASSERT (ForwardCount = BackwardCount)
      })"

definition rb_validate :: "'m rb_env \<Rightarrow> u64 \<Rightarrow> 'm rb_state \<Rightarrow> unit option" where
  "rb_validate env Tree s = (if PcdValidateOrderedCollection env then RedBlackTreeValidate Tree s else Some ())"

section \<open>Creating and releasing a collection\<close>

definition OrderedCollectionInit ::
  "'m rb_env \<Rightarrow> ('m \<Rightarrow> u64 \<Rightarrow> u64 \<Rightarrow> INTN) \<Rightarrow> ('m \<Rightarrow> u64 \<Rightarrow> u64 \<Rightarrow> INTN) \<Rightarrow> 'm rb_state \<Rightarrow> (u64 \<times> 'm rb_state) option" where
  "OrderedCollectionInit env UserStructCompare KeyCompare s =
     (let Tree = rb_AllocatePool env s
      in if Tree = NULL then Some (NULL, s)
         else
           let s1 = s\<lparr>rb_live := Tree # rb_live s,
                 rb_tree := (rb_tree s)(Tree := \<lparr>rbt_Root = NULL, rbt_UserStructCompare = UserStructCompare,
                   rbt_KeyCompare = KeyCompare\<rparr>)\<rparr>
           in do {
             rb_validate env Tree s1;
             Some (Tree, s1)
           })"

definition OrderedCollectionUninit :: "u64 \<Rightarrow> 'm rb_state \<Rightarrow> 'm rb_state option" where
  "OrderedCollectionUninit Tree s =
     do {
       ASSERT (OrderedCollectionIsEmpty Tree s);
       Some (s\<lparr>rb_live := remove1 Tree (rb_live s)\<rparr>)
     }"

section \<open>Rotations\<close>

text \<open>
  \<open>rb_replace_child\<close>: the statement that puts \<open>New\<close> in the place of \<open>Old\<close> below \<open>Parent\<close>, or at
  the root; it stands in both rotations and twice in the deletion.
\<close>

definition rb_replace_child :: "u64 \<Rightarrow> u64 \<Rightarrow> u64 \<Rightarrow> u64 \<Rightarrow> rb_heap \<Rightarrow> u64 \<times> rb_heap" where
  "rb_replace_child Parent Old New NewRoot h =
     (if Parent = NULL then (New, h)
      else if Old = nd_Left (h Parent) then (NewRoot, set_Left Parent New h)
      else (NewRoot, set_Right Parent New h))"

definition RedBlackTreeRotateRight :: "u64 \<Rightarrow> u64 \<Rightarrow> rb_heap \<Rightarrow> u64 \<times> rb_heap" where
  "RedBlackTreeRotateRight Pivot NewRoot h =
     (let Parent = nd_Parent (h Pivot);
          LeftChild = nd_Left (h Pivot);
          LeftRightChild = nd_Right (h LeftChild);
          h1 = set_Left Pivot LeftRightChild h;
          h2 = (if LeftRightChild \<noteq> NULL then set_Parent LeftRightChild Pivot h1 else h1);
          h3 = set_Parent LeftChild Parent h2;
          (NewRoot, h4) = rb_replace_child Parent Pivot LeftChild NewRoot h3;
          h5 = set_Right LeftChild Pivot h4
      in (NewRoot, set_Parent Pivot LeftChild h5))"

definition RedBlackTreeRotateLeft :: "u64 \<Rightarrow> u64 \<Rightarrow> rb_heap \<Rightarrow> u64 \<times> rb_heap" where
  "RedBlackTreeRotateLeft Pivot NewRoot h =
     (let Parent = nd_Parent (h Pivot);
          RightChild = nd_Right (h Pivot);
          RightLeftChild = nd_Left (h RightChild);
          h1 = set_Right Pivot RightLeftChild h;
          h2 = (if RightLeftChild \<noteq> NULL then set_Parent RightLeftChild Pivot h1 else h1);
          h3 = set_Parent RightChild Parent h2;
          (NewRoot, h4) = rb_replace_child Parent Pivot RightChild NewRoot h3;
          h5 = set_Left RightChild Pivot h4
      in (NewRoot, set_Parent Pivot RightChild h5))"

section \<open>Insertion\<close>

text \<open>The search: the node that collides or NULL, the last examined node and its comparison.\<close>

partial_function (option) OrderedCollectionInsert_search ::
  "(u64 \<Rightarrow> INTN) \<Rightarrow> rb_heap \<Rightarrow> u64 \<Rightarrow> u64 \<Rightarrow> INTN \<Rightarrow> (u64 \<times> u64 \<times> INTN) option" where
  "OrderedCollectionInsert_search compare h Tmp Parent Result =
     (if Tmp = NULL then Some (Tmp, Parent, Result)
      else let Result = compare (nd_UserStruct (h Tmp))
           in if Result = 0 then Some (Tmp, Parent, Result)
              else OrderedCollectionInsert_search compare h
                     (if sint Result < 0 then nd_Left (h Tmp) else nd_Right (h Tmp)) Tmp Result)"

text \<open>One round of the loop that restores the colours; the new \<open>Tmp\<close>, \<open>Parent\<close> and \<open>NewRoot\<close>.\<close>

definition OrderedCollectionInsert_left ::
  "u64 \<Rightarrow> u64 \<Rightarrow> u64 \<Rightarrow> u64 \<Rightarrow> rb_heap \<Rightarrow> (u64 \<times> u64 \<times> u64 \<times> rb_heap) option" where
  "OrderedCollectionInsert_left GrandParent Tmp Parent NewRoot h =
     (let Uncle = nd_Right (h GrandParent)
      in if Uncle \<noteq> NULL \<and> nd_Color (h Uncle) = RedBlackTreeRed
         then let h1 = set_Color GrandParent RedBlackTreeRed
                    (set_Color Uncle RedBlackTreeBlack (set_Color Parent RedBlackTreeBlack h))
              in Some (GrandParent, nd_Parent (h1 GrandParent), NewRoot, h1)
         else do {
           (Tmp, Parent, NewRoot, h1) \<leftarrow>
             (if Tmp = nd_Right (h Parent)
              then let Tmp = Parent;
                       (NewRoot, h1) = RedBlackTreeRotateLeft Tmp NewRoot h;
                       Parent = nd_Parent (h1 Tmp)
                   in do {
                     ASSERT (GrandParent = nd_Parent (h1 Parent));
                     Some (Tmp, Parent, NewRoot, h1)
                   }
              else Some (Tmp, Parent, NewRoot, h));
           let h2 = set_Color GrandParent RedBlackTreeRed (set_Color Parent RedBlackTreeBlack h1);
           let (NewRoot, h3) = RedBlackTreeRotateRight GrandParent NewRoot h2;
           Some (Tmp, Parent, NewRoot, h3)
         })"

definition OrderedCollectionInsert_right ::
  "u64 \<Rightarrow> u64 \<Rightarrow> u64 \<Rightarrow> u64 \<Rightarrow> rb_heap \<Rightarrow> (u64 \<times> u64 \<times> u64 \<times> rb_heap) option" where
  "OrderedCollectionInsert_right GrandParent Tmp Parent NewRoot h =
     (let Uncle = nd_Left (h GrandParent)
      in if Uncle \<noteq> NULL \<and> nd_Color (h Uncle) = RedBlackTreeRed
         then let h1 = set_Color GrandParent RedBlackTreeRed
                    (set_Color Uncle RedBlackTreeBlack (set_Color Parent RedBlackTreeBlack h))
              in Some (GrandParent, nd_Parent (h1 GrandParent), NewRoot, h1)
         else do {
           (Tmp, Parent, NewRoot, h1) \<leftarrow>
             (if Tmp = nd_Left (h Parent)
              then let Tmp = Parent;
                       (NewRoot, h1) = RedBlackTreeRotateRight Tmp NewRoot h;
                       Parent = nd_Parent (h1 Tmp)
                   in do {
                     ASSERT (GrandParent = nd_Parent (h1 Parent));
                     Some (Tmp, Parent, NewRoot, h1)
                   }
              else Some (Tmp, Parent, NewRoot, h));
           let h2 = set_Color GrandParent RedBlackTreeRed (set_Color Parent RedBlackTreeBlack h1);
           let (NewRoot, h3) = RedBlackTreeRotateLeft GrandParent NewRoot h2;
           Some (Tmp, Parent, NewRoot, h3)
         })"

partial_function (option) OrderedCollectionInsert_loop ::
  "u64 \<Rightarrow> u64 \<Rightarrow> u64 \<Rightarrow> rb_heap \<Rightarrow> (u64 \<times> rb_heap) option" where
  "OrderedCollectionInsert_loop Tmp Parent NewRoot h =
     (if Tmp \<noteq> NewRoot \<and> nd_Color (h Parent) = RedBlackTreeRed
      then let GrandParent = nd_Parent (h Parent)
           in do {
             (Tmp, Parent, NewRoot, h1) \<leftarrow>
               (if Parent = nd_Left (h GrandParent) then OrderedCollectionInsert_left GrandParent Tmp Parent NewRoot h
                else OrderedCollectionInsert_right GrandParent Tmp Parent NewRoot h);
             OrderedCollectionInsert_loop Tmp Parent NewRoot h1
           }
      else Some (NewRoot, h))"

text \<open>The new node, linked below \<open>Parent\<close>.\<close>

definition OrderedCollectionInsert_link :: "u64 \<Rightarrow> u64 \<Rightarrow> INTN \<Rightarrow> u64 \<Rightarrow> rb_heap \<Rightarrow> rb_heap" where
  "OrderedCollectionInsert_link Tmp Parent Result UserStruct h =
     (let h1 = h(Tmp := (h Tmp)\<lparr>nd_UserStruct := UserStruct, nd_Parent := Parent, nd_Left := NULL, nd_Right := NULL\<rparr>)
      in if Parent = NULL then set_Color Tmp RedBlackTreeBlack h1
         else set_Color Tmp RedBlackTreeRed
                (if sint Result < 0 then set_Left Parent Tmp h1 else set_Right Parent Tmp h1))"

definition rb_update :: "u64 \<Rightarrow> u64 \<Rightarrow> rb_heap \<Rightarrow> 'm rb_state \<Rightarrow> 'm rb_state" where
  "rb_update Tree NewRoot h s =
     s\<lparr>rb_node := h, rb_tree := (rb_tree s)(Tree := (rb_tree s Tree)\<lparr>rbt_Root := NewRoot\<rparr>)\<rparr>"

text \<open>The second component is what is stored in \<open>Node\<close>, \<open>None\<close> when it is left alone.\<close>

definition OrderedCollectionInsert ::
  "'m rb_env \<Rightarrow> u64 \<Rightarrow> u64 \<Rightarrow> 'm rb_state \<Rightarrow> (EFI_STATUS \<times> u64 option \<times> 'm rb_state) option" where
  "OrderedCollectionInsert env Tree UserStruct s =
     do {
       (Tmp, Parent, Result) \<leftarrow>
         OrderedCollectionInsert_search (rbt_UserStructCompare (rb_tree s Tree) (rb_memory s) UserStruct) (rb_node s)
           (rbt_Root (rb_tree s Tree)) NULL 0;
       (Status, Node, s2) \<leftarrow>
         (if Tmp \<noteq> NULL then Some (EFI_ALREADY_STARTED, Some Tmp, s)
          else
            let Tmp = rb_AllocatePool env s
            in if Tmp = NULL then Some (EFI_OUT_OF_RESOURCES, None, s)
               else
                 let s1 = s\<lparr>rb_live := Tmp # rb_live s\<rparr>;
                     h1 = OrderedCollectionInsert_link Tmp Parent Result UserStruct (rb_node s1)
                 in if Parent = NULL then Some (EFI_SUCCESS, Some Tmp, rb_update Tree Tmp h1 s1)
                    else do {
                      (NewRoot, h2) \<leftarrow> OrderedCollectionInsert_loop Tmp Parent (rbt_Root (rb_tree s1 Tree)) h1;
                      Some (EFI_SUCCESS, Some Tmp, rb_update Tree NewRoot (set_Color NewRoot RedBlackTreeBlack h2) s1)
                    });
       rb_validate env Tree s2;
       Some (Status, Node, s2)
     }"

section \<open>Deletion\<close>

text \<open>
  Unlinking a node with at most one child, and a node with two children, whose successor
  (\<open>ToRelink\<close>, taken out of the right subtree first) takes its place: \<open>Child\<close>, \<open>Parent\<close> and \<open>NewRoot\<close> afterwards and the colour of what was unlinked.
\<close>

definition OrderedCollectionDelete_single ::
  "u64 \<Rightarrow> u64 \<Rightarrow> rb_heap \<Rightarrow> u64 \<times> u64 \<times> RED_BLACK_TREE_COLOR \<times> u64 \<times> rb_heap" where
  "OrderedCollectionDelete_single Node NewRoot h =
     (let OrigLeftChild = nd_Left (h Node);
          OrigRightChild = nd_Right (h Node);
          OrigParent = nd_Parent (h Node);
          Child = (if OrigLeftChild \<noteq> NULL then OrigLeftChild else OrigRightChild);
          h1 = (if Child \<noteq> NULL then set_Parent Child OrigParent h else h);
          (NewRoot, h2) = rb_replace_child OrigParent Node Child NewRoot h1
      in (Child, OrigParent, nd_Color (h Node), NewRoot, h2))"

definition OrderedCollectionDelete_successor :: "u64 \<Rightarrow> rb_heap \<Rightarrow> (u64 \<times> u64 \<times> u64 \<times> rb_heap) option" where
  "OrderedCollectionDelete_successor OrigRightChild h =
     (if nd_Left (h OrigRightChild) = NULL
      then Some (OrigRightChild, OrigRightChild, nd_Right (h OrigRightChild), h)
      else do {
        ToRelink \<leftarrow> rb_leftmost h (nd_Left (h OrigRightChild));
        let Parent = nd_Parent (h ToRelink);
        let Child = nd_Right (h ToRelink);
        let h1 = set_Left Parent Child h;
        let h2 = (if Child \<noteq> NULL then set_Parent Child Parent h1 else h1);
        Some (ToRelink, Parent, Child, set_Parent OrigRightChild ToRelink (set_Right ToRelink OrigRightChild h2))
      })"

definition OrderedCollectionDelete_double ::
  "u64 \<Rightarrow> u64 \<Rightarrow> rb_heap \<Rightarrow> (u64 \<times> u64 \<times> RED_BLACK_TREE_COLOR \<times> u64 \<times> rb_heap) option" where
  "OrderedCollectionDelete_double Node NewRoot h =
     (let OrigLeftChild = nd_Left (h Node);
          OrigRightChild = nd_Right (h Node);
          OrigParent = nd_Parent (h Node)
      in do {
        (ToRelink, Parent, Child, h2) \<leftarrow> OrderedCollectionDelete_successor OrigRightChild h;
        let h3 = set_Parent OrigLeftChild ToRelink (set_Left ToRelink OrigLeftChild h2);
        let ColorOfUnlinked = nd_Color (h3 ToRelink);
        let h4 = set_Parent ToRelink OrigParent (set_Color ToRelink (nd_Color (h3 Node)) h3);
        let (NewRoot, h5) = rb_replace_child OrigParent Node ToRelink NewRoot h4;
        Some (Child, Parent, ColorOfUnlinked, NewRoot, h5)
      })"

text \<open>
  One round of the loop that moves the extra black up; the new \<open>Child\<close>, \<open>Parent\<close> and
  \<open>NewRoot\<close>.  A black sibling is the second half of the round.
\<close>

definition OrderedCollectionDelete_left_black ::
  "u64 \<Rightarrow> u64 \<Rightarrow> u64 \<Rightarrow> u64 \<Rightarrow> rb_heap \<Rightarrow> (u64 \<times> u64 \<times> u64 \<times> rb_heap) option" where
  "OrderedCollectionDelete_left_black Sibling Child Parent NewRoot h =
     do {
       ASSERT (nd_Color (h Sibling) = RedBlackTreeBlack);
       let LeftNephew = nd_Left (h Sibling);
       let RightNephew = nd_Right (h Sibling);
       if NodeIsNullOrBlack h LeftNephew \<and> NodeIsNullOrBlack h RightNephew
       then let h1 = set_Color Sibling RedBlackTreeRed h
            in Some (Parent, nd_Parent (h1 Parent), NewRoot, h1)
       else do {
         let (Sibling, RightNephew, NewRoot, h1) =
           (if NodeIsNullOrBlack h RightNephew
            then let h1 = set_Color Sibling RedBlackTreeRed (set_Color LeftNephew RedBlackTreeBlack h);
                     (NewRoot, h2) = RedBlackTreeRotateRight Sibling NewRoot h1;
                     Sibling = nd_Right (h2 Parent)
                 in (Sibling, nd_Right (h2 Sibling), NewRoot, h2)
            else (Sibling, RightNephew, NewRoot, h));
         ASSERT (RightNephew \<noteq> NULL);
         ASSERT (nd_Color (h1 RightNephew) = RedBlackTreeRed);
         ASSERT (Sibling \<noteq> NULL);
         ASSERT (nd_Color (h1 Sibling) = RedBlackTreeBlack);
         let h2 = set_Color RightNephew RedBlackTreeBlack
           (set_Color Parent RedBlackTreeBlack (set_Color Sibling (nd_Color (h1 Parent)) h1));
         let (NewRoot, h3) = RedBlackTreeRotateLeft Parent NewRoot h2;
         Some (NewRoot, Parent, NewRoot, h3)
       }
     }"

definition OrderedCollectionDelete_left ::
  "u64 \<Rightarrow> u64 \<Rightarrow> u64 \<Rightarrow> rb_heap \<Rightarrow> (u64 \<times> u64 \<times> u64 \<times> rb_heap) option" where
  "OrderedCollectionDelete_left Child Parent NewRoot h =
     do {
       let Sibling = nd_Right (h Parent);
       ASSERT (Sibling \<noteq> NULL);
       if nd_Color (h Sibling) = RedBlackTreeRed
       then do {
         let h1 = set_Color Parent RedBlackTreeRed (set_Color Sibling RedBlackTreeBlack h);
         let (NewRoot, h2) = RedBlackTreeRotateLeft Parent NewRoot h1;
         ASSERT (nd_Right (h2 Parent) \<noteq> NULL);
         OrderedCollectionDelete_left_black (nd_Right (h2 Parent)) Child Parent NewRoot h2
       }
       else OrderedCollectionDelete_left_black Sibling Child Parent NewRoot h
     }"

definition OrderedCollectionDelete_right_black ::
  "u64 \<Rightarrow> u64 \<Rightarrow> u64 \<Rightarrow> u64 \<Rightarrow> rb_heap \<Rightarrow> (u64 \<times> u64 \<times> u64 \<times> rb_heap) option" where
  "OrderedCollectionDelete_right_black Sibling Child Parent NewRoot h =
     do {
       ASSERT (nd_Color (h Sibling) = RedBlackTreeBlack);
       let RightNephew = nd_Right (h Sibling);
       let LeftNephew = nd_Left (h Sibling);
       if NodeIsNullOrBlack h RightNephew \<and> NodeIsNullOrBlack h LeftNephew
       then let h1 = set_Color Sibling RedBlackTreeRed h
            in Some (Parent, nd_Parent (h1 Parent), NewRoot, h1)
       else do {
         let (Sibling, LeftNephew, NewRoot, h1) =
           (if NodeIsNullOrBlack h LeftNephew
            then let h1 = set_Color Sibling RedBlackTreeRed (set_Color RightNephew RedBlackTreeBlack h);
                     (NewRoot, h2) = RedBlackTreeRotateLeft Sibling NewRoot h1;
                     Sibling = nd_Left (h2 Parent)
                 in (Sibling, nd_Left (h2 Sibling), NewRoot, h2)
            else (Sibling, LeftNephew, NewRoot, h));
         ASSERT (LeftNephew \<noteq> NULL);
         ASSERT (nd_Color (h1 LeftNephew) = RedBlackTreeRed);
         ASSERT (Sibling \<noteq> NULL);
         ASSERT (nd_Color (h1 Sibling) = RedBlackTreeBlack);
         let h2 = set_Color LeftNephew RedBlackTreeBlack
           (set_Color Parent RedBlackTreeBlack (set_Color Sibling (nd_Color (h1 Parent)) h1));
         let (NewRoot, h3) = RedBlackTreeRotateRight Parent NewRoot h2;
         Some (NewRoot, Parent, NewRoot, h3)
       }
     }"

definition OrderedCollectionDelete_right ::
  "u64 \<Rightarrow> u64 \<Rightarrow> u64 \<Rightarrow> rb_heap \<Rightarrow> (u64 \<times> u64 \<times> u64 \<times> rb_heap) option" where
  "OrderedCollectionDelete_right Child Parent NewRoot h =
     do {
       let Sibling = nd_Left (h Parent);
       ASSERT (Sibling \<noteq> NULL);
       if nd_Color (h Sibling) = RedBlackTreeRed
       then do {
         let h1 = set_Color Parent RedBlackTreeRed (set_Color Sibling RedBlackTreeBlack h);
         let (NewRoot, h2) = RedBlackTreeRotateRight Parent NewRoot h1;
         ASSERT (nd_Left (h2 Parent) \<noteq> NULL);
         OrderedCollectionDelete_right_black (nd_Left (h2 Parent)) Child Parent NewRoot h2
       }
       else OrderedCollectionDelete_right_black Sibling Child Parent NewRoot h
     }"

partial_function (option) OrderedCollectionDelete_loop ::
  "u64 \<Rightarrow> u64 \<Rightarrow> u64 \<Rightarrow> rb_heap \<Rightarrow> (u64 \<times> u64 \<times> rb_heap) option" where
  "OrderedCollectionDelete_loop Child Parent NewRoot h =
     (if Child \<noteq> NewRoot \<and> NodeIsNullOrBlack h Child
      then do {
        (Child, Parent, NewRoot, h1) \<leftarrow>
          (if Child = nd_Left (h Parent) then OrderedCollectionDelete_left Child Parent NewRoot h
           else OrderedCollectionDelete_right Child Parent NewRoot h);
        OrderedCollectionDelete_loop Child Parent NewRoot h1
      }
      else Some (Child, NewRoot, h))"

text \<open>The first component of the result is what is stored in \<open>UserStruct\<close>.\<close>

definition OrderedCollectionDelete :: "'m rb_env \<Rightarrow> u64 \<Rightarrow> u64 \<Rightarrow> 'm rb_state \<Rightarrow> (u64 \<times> 'm rb_state) option" where
  "OrderedCollectionDelete env Tree Node s =
     (let NewRoot = rbt_Root (rb_tree s Tree);
          h = rb_node s;
          UserStruct = nd_UserStruct (h Node)
      in do {
        (Child, Parent, ColorOfUnlinked, NewRoot, h1) \<leftarrow>
          (if nd_Left (h Node) = NULL \<or> nd_Right (h Node) = NULL then Some (OrderedCollectionDelete_single Node NewRoot h)
           else OrderedCollectionDelete_double Node NewRoot h);
        let s1 = s\<lparr>rb_live := remove1 Node (rb_live s)\<rparr>;
        (NewRoot, h2) \<leftarrow>
          (if ColorOfUnlinked = RedBlackTreeBlack
           then do {
             (Child, NewRoot, h2) \<leftarrow> OrderedCollectionDelete_loop Child Parent NewRoot h1;
             Some (NewRoot, if Child \<noteq> NULL then set_Color Child RedBlackTreeBlack h2 else h2)
           }
           else Some (NewRoot, h1));
        let s2 = rb_update Tree NewRoot h2 s1;
        rb_validate env Tree s2;
        Some (UserStruct, s2)
      })"

end
