(* ===== verification/RbtHeap.thy ===== *)
theory RbtHeap
  imports RedBlackTree "HOL-Library.Tree"
begin

text \<open>
  What a heap of nodes represents: a binary tree of addresses and colours (\<open>rb_at\<close>), seen from the
  root or from a node inside it, whose surroundings are a context (\<open>plug\<close>).  Lemmas on the
  elementary steps of the code: reading a node, painting it, replacing a child, rotating.
\<close>

section \<open>Shapes and contexts\<close>

abbreviation Red :: RED_BLACK_TREE_COLOR where "Red \<equiv> RedBlackTreeRed"
abbreviation Black :: RED_BLACK_TREE_COLOR where "Black \<equiv> RedBlackTreeBlack"

type_synonym rb_shape = "(u64 \<times> RED_BLACK_TREE_COLOR) tree"

lemma color_neq [simp]: "(c \<noteq> Black) = (c = Red)" "(c \<noteq> Red) = (c = Black)"
  by (cases c; simp)+

definition addrs :: "rb_shape \<Rightarrow> u64 list" where
  "addrs t = map fst (inorder t)"

lemma addrs_simps [simp]:
  "addrs Leaf = []"
  "addrs (Node l (x, c) r) = addrs l @ x # addrs r"
  by (simp_all add: addrs_def)

fun rb_ptr :: "rb_shape \<Rightarrow> u64" where
  "rb_ptr Leaf = NULL"
| "rb_ptr (Node l (x, c) r) = x"

fun rb_color :: "rb_shape \<Rightarrow> RED_BLACK_TREE_COLOR" where
  "rb_color Leaf = Black"
| "rb_color (Node l (x, c) r) = c"

text \<open>A context is the path from a hole up to the root, with the subtrees on the other side.\<close>

datatype rb_frame = InLeft u64 RED_BLACK_TREE_COLOR rb_shape | InRight rb_shape u64 RED_BLACK_TREE_COLOR

fun fill :: "rb_frame \<Rightarrow> rb_shape \<Rightarrow> rb_shape" where
  "fill (InLeft x c r) t = Node t (x, c) r"
| "fill (InRight l x c) t = Node l (x, c) t"

fun plug :: "rb_frame list \<Rightarrow> rb_shape \<Rightarrow> rb_shape" where
  "plug [] t = t"
| "plug (f # C) t = plug C (fill f t)"

fun before :: "rb_frame list \<Rightarrow> u64 list" where
  "before [] = []"
| "before (InLeft x c r # C) = before C"
| "before (InRight l x c # C) = before C @ addrs l @ [x]"

fun after :: "rb_frame list \<Rightarrow> u64 list" where
  "after [] = []"
| "after (InLeft x c r # C) = x # addrs r @ after C"
| "after (InRight l x c # C) = after C"

lemma addrs_plug [simp]: "addrs (plug C t) = before C @ addrs t @ after C"
proof (induction C arbitrary: t)
  case (Cons f C)
  then show ?case by (cases f) simp_all
qed simp

fun frame_addr :: "rb_frame \<Rightarrow> u64" where
  "frame_addr (InLeft x c r) = x"
| "frame_addr (InRight l x c) = x"

fun hole_parent :: "u64 \<Rightarrow> rb_frame list \<Rightarrow> u64" where
  "hole_parent p [] = p"
| "hole_parent p (f # C) = frame_addr f"

fun top_ptr :: "rb_frame list \<Rightarrow> u64 \<Rightarrow> u64" where
  "top_ptr [] a = a"
| "top_ptr (f # C) a = top_ptr C (frame_addr f)"

lemma rb_ptr_fill [simp]: "rb_ptr (fill f t) = frame_addr f"
  by (cases f) simp_all

lemma rb_ptr_plug [simp]: "rb_ptr (plug C t) = top_ptr C (rb_ptr t)"
  by (induction C arbitrary: t) simp_all

lemma plug_append [simp]: "plug (C @ D) t = plug D (plug C t)"
  by (induction C arbitrary: t) simp_all

lemma before_append [simp]: "before (C @ D) = before D @ before C"
  and after_append [simp]: "after (C @ D) = after C @ after D"
  by (induction C rule: before.induct) simp_all

lemma top_ptr_in: "C \<noteq> [] \<Longrightarrow> top_ptr C a \<in> set (before C) \<union> set (after C)"
proof (induction C arbitrary: a)
  case (Cons f C)
  then show ?case by (cases f; cases "C = []") auto
qed simp

section \<open>Heaps that represent a shape\<close>

fun linked :: "rb_heap \<Rightarrow> u64 \<Rightarrow> rb_shape \<Rightarrow> bool" where
  "linked h p Leaf = True"
| "linked h p (Node l (x, c) r) \<longleftrightarrow> x \<noteq> NULL \<and> nd_Parent (h x) = p \<and> nd_Color (h x) = c \<and>
     nd_Left (h x) = rb_ptr l \<and> nd_Right (h x) = rb_ptr r \<and> linked h x l \<and> linked h x r"

fun linked_context :: "rb_heap \<Rightarrow> u64 \<Rightarrow> rb_frame list \<Rightarrow> u64 \<Rightarrow> bool" where
  "linked_context h p [] a = True"
| "linked_context h p (InLeft x c r # C) a \<longleftrightarrow> x \<noteq> NULL \<and> nd_Parent (h x) = hole_parent p C \<and> nd_Color (h x) = c \<and>
     nd_Left (h x) = a \<and> nd_Right (h x) = rb_ptr r \<and> linked h x r \<and> linked_context h p C x"
| "linked_context h p (InRight l x c # C) a \<longleftrightarrow> x \<noteq> NULL \<and> nd_Parent (h x) = hole_parent p C \<and> nd_Color (h x) = c \<and>
     nd_Left (h x) = rb_ptr l \<and> nd_Right (h x) = a \<and> linked h x l \<and> linked_context h p C x"

lemma linked_plug [simp]:
  "linked h p (plug C t) \<longleftrightarrow> linked h (hole_parent p C) t \<and> linked_context h p C (rb_ptr t)"
proof (induction C arbitrary: t)
  case (Cons f C)
  then show ?case by (cases f) auto
qed simp

lemma linked_cong: "(\<And>x. x \<in> set (addrs t) \<Longrightarrow> h' x = h x) \<Longrightarrow> linked h' p t = linked h p t"
  by (induction h p t rule: linked.induct) auto

lemma linked_context_cong:
  "(\<And>x. x \<in> set (before C) \<union> set (after C) \<Longrightarrow> h' x = h x) \<Longrightarrow> linked_context h' p C a = linked_context h p C a"
proof (induction C arbitrary: a)
  case (Cons f C)
  then show ?case by (cases f) (auto cong: linked_cong)
qed simp

lemma linked_upd [simp]: "x \<notin> set (addrs t) \<Longrightarrow> linked (h(x := n)) p t = linked h p t"
  by (rule linked_cong) auto

lemma linked_context_upd [simp]:
  "x \<notin> set (before C) \<Longrightarrow> x \<notin> set (after C) \<Longrightarrow> linked_context (h(x := n)) p C a = linked_context h p C a"
  by (rule linked_context_cong) auto

lemma linked_nonnull: "linked h p t \<Longrightarrow> NULL \<notin> set (addrs t)"
  by (induction h p t rule: linked.induct) auto

lemma rb_ptr_null [simp]: "linked h p t \<Longrightarrow> (rb_ptr t = NULL) = (t = Leaf)"
  by (cases "(h, p, t)" rule: linked.cases) auto

lemma rb_ptr_in: "t \<noteq> Leaf \<Longrightarrow> rb_ptr t \<in> set (addrs t)"
  by (cases t rule: rb_ptr.cases) auto

lemma rb_ptr_neq: "x \<notin> set (addrs t) \<Longrightarrow> x \<noteq> NULL \<Longrightarrow> rb_ptr t \<noteq> x"
  by (cases t rule: rb_ptr.cases) auto

text \<open>The heap \<open>h\<close> has the tree \<open>t\<close> with the given root.\<close>

definition rb_at :: "rb_heap \<Rightarrow> rb_shape \<Rightarrow> u64 \<Rightarrow> bool" where
  "rb_at h t root \<longleftrightarrow> linked h NULL t \<and> distinct (addrs t) \<and> rb_ptr t = root"

text \<open>A step that keeps the nodes in order, their user structures, and all other nodes.\<close>

definition rb_keeps :: "rb_heap \<Rightarrow> u64 list \<Rightarrow> rb_heap \<Rightarrow> bool" where
  "rb_keeps h xs h' \<longleftrightarrow> (\<forall>z. nd_UserStruct (h' z) = nd_UserStruct (h z)) \<and> (\<forall>z. z \<notin> set xs \<longrightarrow> h' z = h z)"

lemma rb_keeps_refl [simp]: "rb_keeps h xs h"
  by (simp add: rb_keeps_def)

lemma rb_keeps_trans [trans]: "rb_keeps h xs h' \<Longrightarrow> rb_keeps h' xs h'' \<Longrightarrow> rb_keeps h xs h''"
  by (simp add: rb_keeps_def)

section \<open>Elementary steps\<close>

lemmas rb_set_defs = set_Parent_def set_Left_def set_Right_def set_Color_def

lemma rb_at_node:
  assumes "rb_at h (plug C (Node l (x, c) r)) root"
  shows "x \<noteq> NULL" and "nd_Left (h x) = rb_ptr l" and "nd_Right (h x) = rb_ptr r"
    and "nd_Color (h x) = c" and "nd_Parent (h x) = hole_parent NULL C" and "root = top_ptr C x"
  using assms by (auto simp: rb_at_def)

lemma rb_at_child_null:
  assumes "rb_at h (plug C t) root"
  shows "rb_ptr t = NULL \<longleftrightarrow> t = Leaf"
  using assms by (auto simp: rb_at_def)

lemma rb_at_is_root:
  assumes "rb_at h (plug C t) root"
  shows "rb_ptr t = root \<longleftrightarrow> C = [] \<or> (t = Leaf \<and> root = NULL)"
proof (cases "C = []")
  case True
  then show ?thesis using assms by (auto simp: rb_at_def)
next
  case False
  have "root \<in> set (before C) \<union> set (after C)" using assms top_ptr_in [OF False] by (auto simp: rb_at_def)
  moreover have "NULL \<notin> set (before C) \<union> set (after C)"
    using assms linked_nonnull [of h NULL "plug C t"] by (auto simp: rb_at_def)
  ultimately show ?thesis using assms False rb_ptr_in [of t] by (auto simp: rb_at_def)
qed

lemma rb_at_root_nonnull:
  assumes "rb_at h (plug C t) root" and "C \<noteq> []"
  shows "root \<noteq> NULL"
  using assms top_ptr_in [OF assms(2), of "rb_ptr t"] linked_nonnull [of h NULL "plug C t"]
  by (auto simp: rb_at_def)

lemma rb_at_paint:
  assumes "rb_at h (plug C (Node l (x, c) r)) root"
  shows "rb_at (set_Color x c' h) (plug C (Node l (x, c') r)) root"
    and "rb_keeps h (addrs (plug C (Node l (x, c) r))) (set_Color x c' h)"
  using assms by (auto simp: rb_at_def rb_set_defs rb_keeps_def)

lemma rb_at_color:
  assumes "rb_at h (plug C t) root"
  shows "NodeIsNullOrBlack h (rb_ptr t) \<longleftrightarrow> rb_color t = Black"
  using assms by (cases t rule: rb_ptr.cases) (auto simp: NodeIsNullOrBlack_def rb_at_def)

text \<open>The pointer to a hole is stored in the node above it.\<close>

fun set_hole :: "rb_frame list \<Rightarrow> u64 \<Rightarrow> rb_heap \<Rightarrow> rb_heap" where
  "set_hole [] b h = h"
| "set_hole (InLeft x c r # C) b h = set_Left x b h"
| "set_hole (InRight l x c # C) b h = set_Right x b h"

lemma rb_replace_child_eq:
  assumes "linked_context h NULL C a" and "a \<noteq> NULL" and "a \<notin> set (before C)" and "a \<notin> set (after C)"
  shows "rb_replace_child (hole_parent NULL C) a b (top_ptr C a) h = (top_ptr C b, set_hole C b h)"
proof (cases C)
  case (Cons f D)
  then show ?thesis
    using assms rb_ptr_in [of "case f of InLeft x c r \<Rightarrow> r | InRight l x c \<Rightarrow> l"]
    by (cases f) (auto simp: rb_replace_child_def)
qed (simp add: rb_replace_child_def)

lemma linked_context_set_hole:
  assumes "linked_context h p C a" and "distinct (before C @ after C)"
  shows "linked_context (set_hole C b h) p C b"
proof (cases C)
  case (Cons f D)
  then show ?thesis using assms by (cases f) (auto simp: rb_set_defs)
qed simp

lemma linked_set_hole [simp]:
  assumes "set (addrs t) \<inter> (set (before C) \<union> set (after C)) = {}"
  shows "linked (set_hole C b h) p t = linked h p t"
  using assms by (cases C rule: before.cases) (auto simp: rb_set_defs)

lemma set_hole_other [simp]:
  assumes "x \<notin> set (before C)" and "x \<notin> set (after C)"
  shows "set_hole C b h x = h x"
  using assms by (cases C rule: before.cases) (auto simp: rb_set_defs)

lemma set_hole_user [simp]: "nd_UserStruct (set_hole C b h x) = nd_UserStruct (h x)"
  by (cases C rule: before.cases) (auto simp: rb_set_defs)

text \<open>Giving a subtree another parent.\<close>

definition reparent :: "rb_shape \<Rightarrow> u64 \<Rightarrow> rb_heap \<Rightarrow> rb_heap" where
  "reparent t p h = (if rb_ptr t \<noteq> NULL then set_Parent (rb_ptr t) p h else h)"

lemma linked_reparent: "linked h q t \<Longrightarrow> distinct (addrs t) \<Longrightarrow> linked (reparent t p h) p t"
  by (cases t rule: rb_ptr.cases) (auto simp: reparent_def rb_set_defs)

lemma reparent_other [simp]: "x \<notin> set (addrs t) \<Longrightarrow> reparent t p h x = h x"
  by (cases t rule: rb_ptr.cases) (auto simp: reparent_def rb_set_defs)

lemma reparent_user [simp]: "nd_UserStruct (reparent t p h x) = nd_UserStruct (h x)"
  by (auto simp: reparent_def rb_set_defs)

lemma linked_reparent_other [simp]:
  "set (addrs u) \<inter> set (addrs t) = {} \<Longrightarrow> linked (reparent t p h) q u = linked h q u"
  by (rule linked_cong) (rule reparent_other, blast)

lemma linked_context_reparent [simp]:
  "set (addrs t) \<inter> (set (before C) \<union> set (after C)) = {} \<Longrightarrow>
     linked_context (reparent t p h) q C a = linked_context h q C a"
  by (rule linked_context_cong) (rule reparent_other, blast)

section \<open>Rotations\<close>

lemma RedBlackTreeRotateRight_step:
  assumes "rb_at h (plug C (Node (Node A (x, cx) B) (y, cy) D)) root"
  obtains root' h' where "RedBlackTreeRotateRight y root h = (root', h')"
    and "rb_at h' (plug C (Node A (x, cx) (Node B (y, cy) D))) root'"
    and "rb_keeps h (addrs (plug C (Node (Node A (x, cx) B) (y, cy) D))) h'"
proof -
  define h3 where "h3 = set_Parent x (hole_parent NULL C) (reparent B y (set_Left y (rb_ptr B) h))"
  define h' where "h' = set_Parent y x (set_Right x y (set_hole C x h3))"
  have disj: "set (addrs B) \<inter> (set (before C) \<union> set (after C)) = {}" "set (addrs A) \<inter> set (addrs B) = {}"
      "set (addrs D) \<inter> set (addrs B) = {}" "set (addrs A) \<inter> (set (before C) \<union> set (after C)) = {}"
      "set (addrs D) \<inter> (set (before C) \<union> set (after C)) = {}" "set (before C) \<inter> set (after C) = {}"
    using assms by (auto simp: rb_at_def)
  have f: "nd_Parent (h y) = hole_parent NULL C" "nd_Left (h y) = x" "nd_Right (h x) = rb_ptr B"
      "root = top_ptr C y" "y \<noteq> NULL" "y \<notin> set (before C)" "y \<notin> set (after C)"
    using assms by (auto simp: rb_at_def)
  have ctx: "linked_context h3 NULL C y" using assms disj by (auto simp: h3_def rb_at_def rb_set_defs)
  have "RedBlackTreeRotateRight y root h = (top_ptr C x, h')"
    unfolding RedBlackTreeRotateRight_def Let_def f reparent_def [symmetric] h3_def [symmetric]
    by (simp add: rb_replace_child_eq [OF ctx] f h'_def)
  moreover have "linked (reparent B y (set_Left y (rb_ptr B) h)) y B"
    by (rule linked_reparent [of _ x]) (use assms in \<open>auto simp: rb_at_def rb_set_defs\<close>)
  then have "rb_at h' (plug C (Node A (x, cx) (Node B (y, cy) D))) (top_ptr C x)"
    using assms disj linked_context_set_hole [OF ctx, of x]
    by (auto simp: rb_at_def h'_def h3_def rb_set_defs)
  moreover have "rb_keeps h (addrs (plug C (Node (Node A (x, cx) B) (y, cy) D))) h'"
    by (auto simp: rb_keeps_def h'_def h3_def rb_set_defs)
  ultimately show thesis by (rule that)
qed

lemma RedBlackTreeRotateLeft_step:
  assumes "rb_at h (plug C (Node A (x, cx) (Node B (y, cy) D))) root"
  obtains root' h' where "RedBlackTreeRotateLeft x root h = (root', h')"
    and "rb_at h' (plug C (Node (Node A (x, cx) B) (y, cy) D)) root'"
    and "rb_keeps h (addrs (plug C (Node A (x, cx) (Node B (y, cy) D)))) h'"
proof -
  define h3 where "h3 = set_Parent y (hole_parent NULL C) (reparent B x (set_Right x (rb_ptr B) h))"
  define h' where "h' = set_Parent x y (set_Left y x (set_hole C y h3))"
  have disj: "set (addrs B) \<inter> (set (before C) \<union> set (after C)) = {}" "set (addrs A) \<inter> set (addrs B) = {}"
      "set (addrs D) \<inter> set (addrs B) = {}" "set (addrs A) \<inter> (set (before C) \<union> set (after C)) = {}"
      "set (addrs D) \<inter> (set (before C) \<union> set (after C)) = {}" "set (before C) \<inter> set (after C) = {}"
    using assms by (auto simp: rb_at_def)
  have f: "nd_Parent (h x) = hole_parent NULL C" "nd_Right (h x) = y" "nd_Left (h y) = rb_ptr B"
      "root = top_ptr C x" "x \<noteq> NULL" "x \<notin> set (before C)" "x \<notin> set (after C)"
    using assms by (auto simp: rb_at_def)
  have ctx: "linked_context h3 NULL C x" using assms disj by (auto simp: h3_def rb_at_def rb_set_defs)
  have "RedBlackTreeRotateLeft x root h = (top_ptr C y, h')"
    unfolding RedBlackTreeRotateLeft_def Let_def f reparent_def [symmetric] h3_def [symmetric]
    by (simp add: rb_replace_child_eq [OF ctx] f h'_def)
  moreover have "linked (reparent B x (set_Right x (rb_ptr B) h)) x B"
    by (rule linked_reparent [of _ y]) (use assms in \<open>auto simp: rb_at_def rb_set_defs\<close>)
  then have "rb_at h' (plug C (Node (Node A (x, cx) B) (y, cy) D)) (top_ptr C y)"
    using assms disj linked_context_set_hole [OF ctx, of y]
    by (auto simp: rb_at_def h'_def h3_def rb_set_defs)
  moreover have "rb_keeps h (addrs (plug C (Node A (x, cx) (Node B (y, cy) D)))) h'"
    by (auto simp: rb_keeps_def h'_def h3_def rb_set_defs)
  ultimately show thesis by (rule that)
qed

section \<open>Balance\<close>

abbreviation black_count :: "RED_BLACK_TREE_COLOR \<Rightarrow> nat" where
  "black_count c \<equiv> if c = Black then 1 else 0"

text \<open>Property 4 of the source, the same number of black nodes on all paths, and property 3.\<close>

fun rb_height :: "rb_shape \<Rightarrow> nat \<Rightarrow> bool" where
  "rb_height Leaf n \<longleftrightarrow> n = 0"
| "rb_height (Node l (x, c) r) n \<longleftrightarrow> black_count c \<le> n \<and> rb_height l (n - black_count c) \<and> rb_height r (n - black_count c)"

fun rb_colored :: "rb_shape \<Rightarrow> bool" where
  "rb_colored Leaf = True"
| "rb_colored (Node l (x, c) r) \<longleftrightarrow> (c = Red \<longrightarrow> rb_color l = Black \<and> rb_color r = Black) \<and> rb_colored l \<and> rb_colored r"

definition rb_balanced :: "rb_shape \<Rightarrow> bool" where
  "rb_balanced t \<longleftrightarrow> rb_colored t \<and> rb_color t = Black \<and> (\<exists>n. rb_height t n)"

text \<open>The same of a context, for a hole of height \<open>n\<close> and colour \<open>c\<close>; the root is black.\<close>

fun context_height :: "rb_frame list \<Rightarrow> nat \<Rightarrow> bool" where
  "context_height [] n = True"
| "context_height (InLeft x c r # C) n \<longleftrightarrow> rb_height r n \<and> context_height C (n + black_count c)"
| "context_height (InRight l x c # C) n \<longleftrightarrow> rb_height l n \<and> context_height C (n + black_count c)"

fun context_colored :: "rb_frame list \<Rightarrow> RED_BLACK_TREE_COLOR \<Rightarrow> bool" where
  "context_colored [] d \<longleftrightarrow> d = Black"
| "context_colored (InLeft x c r # C) d \<longleftrightarrow> (c = Red \<longrightarrow> d = Black \<and> rb_color r = Black) \<and> rb_colored r \<and> context_colored C c"
| "context_colored (InRight l x c # C) d \<longleftrightarrow> (c = Red \<longrightarrow> d = Black \<and> rb_color l = Black) \<and> rb_colored l \<and> context_colored C c"

lemma black_count_shift: "(\<exists>n \<ge> black_count c. P (n - black_count c) n) \<longleftrightarrow> (\<exists>n. P n (n + black_count c))"
  by (metis add_diff_cancel_right' le_add2 le_add_diff_inverse2)

lemma rb_height_plug: "(\<exists>m. rb_height (plug C t) m) \<longleftrightarrow> (\<exists>n. rb_height t n \<and> context_height C n)"
proof (induction C arbitrary: t rule: before.induct)
  case (2 x c r C)
  show ?case
    using black_count_shift [of c "\<lambda>n m. rb_height t n \<and> rb_height r n \<and> context_height C m"] 2 [of "Node t (x, c) r"]
    by (simp only: plug.simps fill.simps rb_height.simps context_height.simps conj_assoc)
next
  case (3 l x c C)
  show ?case
    using black_count_shift [of c "\<lambda>n m. rb_height l n \<and> rb_height t n \<and> context_height C m"] 3 [of "Node l (x, c) t"]
    by (simp only: plug.simps fill.simps rb_height.simps context_height.simps conj_assoc conj_left_commute)
qed simp

lemma rb_colored_plug:
  "rb_colored (plug C t) \<and> rb_color (plug C t) = Black \<longleftrightarrow> rb_colored t \<and> context_colored C (rb_color t)"
  by (induction C arbitrary: t rule: before.induct) auto

lemma rb_balanced_plug:
  "rb_balanced (plug C t) \<longleftrightarrow> rb_colored t \<and> context_colored C (rb_color t) \<and> (\<exists>n. rb_height t n \<and> context_height C n)"
  unfolding rb_balanced_def using rb_height_plug [of C t] rb_colored_plug [of C t] by blast

lemma context_colored_Black: "context_colored C d \<Longrightarrow> context_colored C Black"
  by (cases C rule: before.cases) auto

end
