(* ===== verification/RbtWalk.thy ===== *)
theory RbtWalk
  imports RbtHeap
begin

text \<open>
  Walking and searching in a red-black tree: the minimum, the maximum, the neighbours of a node, the
  library's self check, and the search for a key.  The comparison functions are the client's; the
  locales \<open>user_compare\<close> and \<open>key_compare\<close> state what the library expects of them.
\<close>

section \<open>Positions\<close>

text \<open>The first element of a list of nodes, or NULL.\<close>

definition first_or_null :: "u64 list \<Rightarrow> u64" where
  "first_or_null xs = (case xs of [] \<Rightarrow> NULL | x # _ \<Rightarrow> x)"

lemma first_or_null_simps [simp]: "first_or_null [] = NULL" "first_or_null (x # xs) = x"
  by (simp_all add: first_or_null_def)

lemma addrs_split:
  assumes "addrs t = xs @ x # ys"
  obtains C l c r where "t = plug C (Node l (x, c) r)" and "xs = before C @ addrs l" and "ys = addrs r @ after C"
  using assms
proof (induction t arbitrary: xs ys thesis)
  case (Node l v r)
  obtain y c where v: "v = (y, c)" by fastforce
  from Node.prems(2) consider us where "addrs l = xs @ x # us" "us @ y # addrs r = ys"
    | "xs = addrs l" "x = y" "ys = addrs r" | us where "xs = addrs l @ y # us" "addrs r = us @ x # ys"
    by (auto simp: v append_eq_append_conv2 append_eq_Cons_conv Cons_eq_append_conv)
  then show ?case
  proof cases
    case (1 us)
    obtain C l' c' r' where "l = plug C (Node l' (x, c') r')" "xs = before C @ addrs l'" "us = addrs r' @ after C"
      using Node.IH(1) [OF _ 1(1)] by blast
    then show ?thesis using Node.prems(1) [of "C @ [InLeft y c r]" l' c' r'] 1 v by simp
  next
    case 2
    then show ?thesis using Node.prems(1) [of "[]" l c r] v by simp
  next
    case (3 us)
    obtain C l' c' r' where "r = plug C (Node l' (x, c') r')" "us = before C @ addrs l'" "ys = addrs r' @ after C"
      using Node.IH(2) [OF _ 3(2)] by blast
    then show ?thesis using Node.prems(1) [of "C @ [InRight l y c]" l' c' r'] 3 v by simp
  qed
qed simp

section \<open>Minimum, maximum and neighbours\<close>

lemma first_or_null_append: "xs \<noteq> [] \<Longrightarrow> first_or_null (xs @ ys) = first_or_null xs"
  by (cases xs) simp_all

lemma addrs_Nil [simp]: "addrs t = [] \<longleftrightarrow> t = Leaf"
  by (cases t rule: rb_ptr.cases) auto

lemma rb_leftmost_eq: "linked h p t \<Longrightarrow> t \<noteq> Leaf \<Longrightarrow> rb_leftmost h (rb_ptr t) = Some (first_or_null (addrs t))"
proof (induction h p t rule: linked.induct)
  case (2 h p l x c r)
  then show ?case
    by (cases "l = Leaf") (auto simp: first_or_null_append rb_leftmost.simps [of h x])
qed simp

lemma rb_rightmost_eq: "linked h p t \<Longrightarrow> t \<noteq> Leaf \<Longrightarrow> rb_rightmost h (rb_ptr t) = Some (first_or_null (rev (addrs t)))"
proof (induction h p t rule: linked.induct)
  case (2 h p l x c r)
  then show ?case
    by (cases "r = Leaf") (auto simp: first_or_null_append rb_rightmost.simps [of h x])
qed simp

lemma Next_ascend_eq:
  assumes "linked_context h NULL C a" and "a \<noteq> NULL" and "a \<notin> set (before C)" and "a \<notin> set (after C)"
    and "distinct (before C @ after C)"
  shows "OrderedCollectionNext_ascend h a (hole_parent NULL C) = Some (first_or_null (after C))"
  using assms
proof (induction C arbitrary: a rule: before.induct)
  case 1
  then show ?case by (simp add: OrderedCollectionNext_ascend.simps)
next
  case (2 x c r C)
  then show ?case using rb_ptr_neq [of a r] by (subst OrderedCollectionNext_ascend.simps) auto
next
  case (3 l x c C)
  then show ?case by (subst OrderedCollectionNext_ascend.simps) auto
qed

lemma Prev_ascend_eq:
  assumes "linked_context h NULL C a" and "a \<noteq> NULL" and "a \<notin> set (before C)" and "a \<notin> set (after C)"
    and "distinct (before C @ after C)"
  shows "OrderedCollectionPrev_ascend h a (hole_parent NULL C) = Some (first_or_null (rev (before C)))"
  using assms
proof (induction C arbitrary: a rule: before.induct)
  case 1
  then show ?case by (simp add: OrderedCollectionPrev_ascend.simps)
next
  case (2 x c r C)
  then show ?case by (subst OrderedCollectionPrev_ascend.simps) auto
next
  case (3 l x c C)
  then show ?case using rb_ptr_neq [of a l] by (subst OrderedCollectionPrev_ascend.simps) auto
qed

lemma Next_eq:
  assumes "rb_at (rb_node s) t root" and "addrs t = xs @ x # ys"
  shows "OrderedCollectionNext x s = Some (first_or_null ys)"
proof -
  obtain C l c r where t: "t = plug C (Node l (x, c) r)" and ys: "ys = addrs r @ after C"
    using assms(2) by (rule addrs_split)
  have n: "x \<noteq> NULL" "nd_Right (rb_node s x) = rb_ptr r" "nd_Parent (rb_node s x) = hole_parent NULL C"
    using assms(1) unfolding t by (auto simp: rb_at_def)
  have lr: "linked (rb_node s) x r" using assms(1) unfolding t by (auto simp: rb_at_def)
  show ?thesis
  proof (cases "r = Leaf")
    case True
    moreover have "OrderedCollectionNext_ascend (rb_node s) x (hole_parent NULL C) = Some (first_or_null (after C))"
      by (rule Next_ascend_eq) (use assms(1) t in \<open>auto simp: rb_at_def\<close>)
    ultimately show ?thesis using n ys by (simp add: OrderedCollectionNext_def)
  next
    case False
    then show ?thesis
      using n ys lr rb_leftmost_eq [OF lr False] by (simp add: OrderedCollectionNext_def first_or_null_append)
  qed
qed

lemma Prev_eq:
  assumes "rb_at (rb_node s) t root" and "addrs t = xs @ x # ys"
  shows "OrderedCollectionPrev x s = Some (first_or_null (rev xs))"
proof -
  obtain C l c r where t: "t = plug C (Node l (x, c) r)" and xs: "xs = before C @ addrs l"
    using assms(2) by (rule addrs_split)
  have n: "x \<noteq> NULL" "nd_Left (rb_node s x) = rb_ptr l" "nd_Parent (rb_node s x) = hole_parent NULL C"
    using assms(1) unfolding t by (auto simp: rb_at_def)
  have ll: "linked (rb_node s) x l" using assms(1) unfolding t by (auto simp: rb_at_def)
  show ?thesis
  proof (cases "l = Leaf")
    case True
    moreover have "OrderedCollectionPrev_ascend (rb_node s) x (hole_parent NULL C) = Some (first_or_null (rev (before C)))"
      by (rule Prev_ascend_eq) (use assms(1) t in \<open>auto simp: rb_at_def\<close>)
    ultimately show ?thesis using n xs by (simp add: OrderedCollectionPrev_def)
  next
    case False
    then show ?thesis
      using n xs ll rb_rightmost_eq [OF ll False] by (simp add: OrderedCollectionPrev_def first_or_null_append)
  qed
qed

lemma Min_eq:
  assumes "rb_at (rb_node s) t (rbt_Root (rb_tree s Tree))"
  shows "OrderedCollectionMin Tree s = Some (first_or_null (addrs t))"
  using assms rb_leftmost_eq [of "rb_node s" NULL t]
  by (cases "t = Leaf") (auto simp: OrderedCollectionMin_def rb_at_def Let_def)

lemma Max_eq:
  assumes "rb_at (rb_node s) t (rbt_Root (rb_tree s Tree))"
  shows "OrderedCollectionMax Tree s = Some (first_or_null (rev (addrs t)))"
  using assms rb_rightmost_eq [of "rb_node s" NULL t]
  by (cases "t = Leaf") (auto simp: OrderedCollectionMax_def rb_at_def Let_def)

section \<open>The self check\<close>

lemma RecursiveCheck_eq:
  assumes "linked h p t" and "rb_colored t" and "rb_height t n"
  shows "RedBlackTreeRecursiveCheck h (rb_ptr t) = Some (of_nat n + 1)"
  using assms
proof (induction h p t arbitrary: n rule: linked.induct)
  case (1 h p)
  then show ?case by (simp add: RedBlackTreeRecursiveCheck.simps)
next
  case (2 h p l x c r)
  have nb: "NodeIsNullOrBlack h (rb_ptr u) \<longleftrightarrow> rb_color u = Black" if "linked h x u" for u
    using that by (cases u rule: rb_ptr.cases) (auto simp: NodeIsNullOrBlack_def)
  have sub: "RedBlackTreeRecursiveCheck h (rb_ptr l) = Some (of_nat (n - black_count c) + 1)"
    "RedBlackTreeRecursiveCheck h (rb_ptr r) = Some (of_nat (n - black_count c) + 1)"
    using "2.IH" "2.prems" by auto
  have "c = Red \<longrightarrow> NodeIsNullOrBlack h (rb_ptr l) \<and> NodeIsNullOrBlack h (rb_ptr r)" using 2 nb by auto
  then show ?case
    using "2.prems" sub by (subst RedBlackTreeRecursiveCheck.simps) (cases c; auto simp: ASSERT_def of_nat_diff)
qed

lemma Validate_loop_eq:
  assumes "\<And>pre y post. xs = pre @ y # post \<Longrightarrow> step y = Some (first_or_null post)"
    and "sorted_wrt ok xs" and "NULL \<notin> set xs" and "xs = pre @ y # post"
  shows "RedBlackTreeValidate_loop step ok y n = Some (n + of_nat (length post))"
  using assms(4)
proof (induction post arbitrary: pre y n)
  case Nil
  then show ?case using assms(1) [OF Nil] by (simp add: RedBlackTreeValidate_loop.simps)
next
  case (Cons z post)
  have "step y = Some z" "ok y z" "z \<noteq> NULL" using assms(1) [OF Cons.prems] assms(2,3) Cons.prems by (auto simp: sorted_wrt_append)
  moreover have "RedBlackTreeValidate_loop step ok z (n + 1) = Some (n + 1 + of_nat (length post))"
    using Cons.IH [of "pre @ [y]" z "n + 1"] Cons.prems by simp
  ultimately show ?case by (subst RedBlackTreeValidate_loop.simps) (simp add: ASSERT_def add_ac)
qed

text \<open>Counting from an end of the list, which may be empty.\<close>

lemma Validate_count:
  assumes "\<And>pre y post. xs = pre @ y # post \<Longrightarrow> step y = Some (first_or_null post)"
    and "sorted_wrt ok xs" and "NULL \<notin> set xs" and "step NULL = Some NULL"
  shows "RedBlackTreeValidate_loop step ok (first_or_null xs) (if first_or_null xs \<noteq> NULL then 1 else 0) =
     Some (of_nat (length xs))"
proof (cases xs)
  case Nil
  then show ?thesis using assms(4) by (simp add: RedBlackTreeValidate_loop.simps)
next
  case (Cons y ys)
  then show ?thesis using Validate_loop_eq [OF assms(1-3), of _ _ "[]" y ys 1] assms(3) by auto
qed

abbreviation rb_less :: "(u64 \<Rightarrow> u64 \<Rightarrow> INTN) \<Rightarrow> rb_heap \<Rightarrow> u64 \<Rightarrow> u64 \<Rightarrow> bool" where
  "rb_less cmp h a b \<equiv> sint (cmp (nd_UserStruct (h a)) (nd_UserStruct (h b))) < 0"

lemma Validate_ok:
  assumes "rb_at (rb_node s) t (rbt_Root (rb_tree s Tree))" and "rb_balanced t"
    and "sorted_wrt (rb_less (rbt_UserStructCompare (rb_tree s Tree) (rb_memory s)) (rb_node s)) (addrs t)"
    and "\<And>a b. sint (rbt_UserStructCompare (rb_tree s Tree) (rb_memory s) a b) > 0 \<longleftrightarrow> sint (rbt_UserStructCompare (rb_tree s Tree) (rb_memory s) b a) < 0"
  shows "RedBlackTreeValidate Tree s = Some ()"
proof -
  obtain n where "rb_height t n" using assms(2) by (auto simp: rb_balanced_def)
  then have check: "RedBlackTreeRecursiveCheck (rb_node s) (rbt_Root (rb_tree s Tree)) = Some (of_nat n + 1)"
    using RecursiveCheck_eq [of "rb_node s" NULL t n] assms(1,2) by (auto simp: rb_at_def rb_balanced_def)
  have root: "NodeIsNullOrBlack (rb_node s) (rbt_Root (rb_tree s Tree))"
    using assms(1,2) rb_at_color [of "rb_node s" "[]" t] by (auto simp: rb_at_def rb_balanced_def)
  have null: "NULL \<notin> set (addrs t)" using assms(1) linked_nonnull by (auto simp: rb_at_def)
  have "OrderedCollectionNext y s = Some (first_or_null post)" if "addrs t = pre @ y # post" for pre y post
    using Next_eq [OF assms(1) that] .
  note forward = Validate_count [OF this assms(3) null]
  have prev: "OrderedCollectionPrev y s = Some (first_or_null post)" if "rev (addrs t) = pre @ y # post" for pre y post
    using Prev_eq [OF assms(1), of "rev post" y "rev pre"] that by (simp add: rev_swap)
  have "sorted_wrt (\<lambda>a b. sint (rbt_UserStructCompare (rb_tree s Tree) (rb_memory s) (nd_UserStruct (rb_node s a)) (nd_UserStruct (rb_node s b))) > 0)
      (rev (addrs t))"
    using assms(3) by (simp add: sorted_wrt_rev assms(4))
  note backward = Validate_count [OF prev this]
  show ?thesis
    unfolding RedBlackTreeValidate_def Let_def Min_eq [OF assms(1)] Max_eq [OF assms(1)] check
    using root forward backward null by (simp add: ASSERT_def OrderedCollectionNext_def OrderedCollectionPrev_def)
qed

section \<open>Comparison functions\<close>

locale user_compare =
  fixes cmp :: "u64 \<Rightarrow> u64 \<Rightarrow> INTN"
  assumes cmp_swap: "sint (cmp a b) > 0 \<longleftrightarrow> sint (cmp b a) < 0"
    and cmp_trans: "sint (cmp a b) \<le> 0 \<Longrightarrow> sint (cmp b c) < 0 \<Longrightarrow> sint (cmp a c) < 0"

locale key_compare = user_compare +
  fixes key :: "u64 \<Rightarrow> u64 \<Rightarrow> INTN"
  assumes key_less: "sint (key k a) \<le> 0 \<Longrightarrow> sint (cmp a b) < 0 \<Longrightarrow> sint (key k b) < 0"
    and key_greater: "sint (key k b) \<ge> 0 \<Longrightarrow> sint (cmp a b) < 0 \<Longrightarrow> sint (key k a) > 0"

lemma sint_nonzero: "(w :: INTN) \<noteq> 0 \<Longrightarrow> \<not> sint w < 0 \<Longrightarrow> sint w > 0"
  by (metis linorder_neqE_linordered_idom signed_eq_0_iff)

context key_compare
begin

lemma Find_loop_result:
  assumes "linked h p t" and "sorted_wrt (rb_less cmp h) (addrs t)"
  shows "\<exists>a. OrderedCollectionFind_loop (key k) h (rb_ptr t) = Some a \<and>
     (if a = NULL then \<forall>x \<in> set (addrs t). key k (nd_UserStruct (h x)) \<noteq> 0
      else a \<in> set (addrs t) \<and> key k (nd_UserStruct (h a)) = 0)"
  using assms
proof (induction h p t rule: linked.induct)
  case (1 h p)
  then show ?case by (simp add: OrderedCollectionFind_loop.simps)
next
  case (2 h p l x c r)
  let ?R = "key k (nd_UserStruct (h x))"
  have srt: "sorted_wrt (rb_less cmp h) (addrs l)" "sorted_wrt (rb_less cmp h) (addrs r)"
    "\<forall>y \<in> set (addrs l). rb_less cmp h y x" "\<forall>y \<in> set (addrs r). rb_less cmp h x y"
    using "2.prems"(2) by (auto simp: sorted_wrt_append)
  consider "?R = 0" | "?R \<noteq> 0" "sint ?R < 0" | "?R \<noteq> 0" "sint ?R > 0" using sint_nonzero by blast
  then show ?case
  proof cases
    case 1
    then show ?thesis using "2.prems" by (intro exI [of _ x]) (simp add: OrderedCollectionFind_loop.simps [of _ _ x])
  next
    case 2
    have "key k (nd_UserStruct (h y)) \<noteq> 0" if "y \<in> set (addrs r)" for y
      using key_less [of k "nd_UserStruct (h x)" "nd_UserStruct (h y)"] 2(2) srt(4) that by auto
    then show ?thesis
      using "2.IH"(1) "2.prems"(1) srt(1) 2 by (auto simp: OrderedCollectionFind_loop.simps [of _ _ x] split: if_splits)
  next
    case 3
    have "key k (nd_UserStruct (h y)) \<noteq> 0" if "y \<in> set (addrs l)" for y
      using key_greater [of k "nd_UserStruct (h x)" "nd_UserStruct (h y)"] 3(2) srt(3) that by auto
    then show ?thesis
      using "2.IH"(2) "2.prems"(1) srt(2) 3 by (auto simp: OrderedCollectionFind_loop.simps [of _ _ x] split: if_splits)
  qed
qed

end

text \<open>Where a search for the place of a structure ends: at a hole with smaller nodes before and larger ones after.\<close>

definition insert_place :: "(u64 \<Rightarrow> u64 \<Rightarrow> INTN) \<Rightarrow> rb_heap \<Rightarrow> u64 \<Rightarrow> rb_frame list \<Rightarrow> INTN \<Rightarrow> bool" where
  "insert_place cmp h u C Result \<longleftrightarrow> (\<forall>x \<in> set (before C). sint (cmp (nd_UserStruct (h x)) u) < 0) \<and>
     (\<forall>x \<in> set (after C). sint (cmp u (nd_UserStruct (h x))) < 0) \<and>
     (case C of [] \<Rightarrow> True | InLeft x c r # _ \<Rightarrow> sint Result < 0 | InRight l x c # _ \<Rightarrow> \<not> sint Result < 0)"

context user_compare
begin

lemma Insert_search_result:
  assumes "linked h (hole_parent NULL C) t" and "sorted_wrt (rb_less cmp h) (addrs t)"
    and "insert_place cmp h u C Result"
  shows "\<exists>Tmp Parent Result'. OrderedCollectionInsert_search (cmp u) h (rb_ptr t) (hole_parent NULL C) Result =
       Some (Tmp, Parent, Result') \<and>
     (if Tmp \<noteq> NULL then Tmp \<in> set (addrs t) \<and> cmp u (nd_UserStruct (h Tmp)) = 0
      else \<exists>D. plug C t = plug D Leaf \<and> Parent = hole_parent NULL D \<and> insert_place cmp h u D Result')"
  using assms
proof (induction h "hole_parent NULL C" t arbitrary: C Result rule: linked.induct)
  case (1 h)
  then show ?case by (auto simp: OrderedCollectionInsert_search.simps)
next
  case (2 h l x c r C Result)
  let ?R = "cmp u (nd_UserStruct (h x))"
  have srt: "sorted_wrt (rb_less cmp h) (addrs l)" "sorted_wrt (rb_less cmp h) (addrs r)"
    "\<forall>y \<in> set (addrs l). rb_less cmp h y x" "\<forall>y \<in> set (addrs r). rb_less cmp h x y"
    using "2.prems"(2) by (auto simp: sorted_wrt_append)
  have x: "x \<noteq> NULL" "nd_Left (h x) = rb_ptr l" "nd_Right (h x) = rb_ptr r" "linked h x l" "linked h x r"
    using "2.prems"(1) by auto
  consider "?R = 0" | "?R \<noteq> 0" "sint ?R < 0" | "?R \<noteq> 0" "\<not> sint ?R < 0" "sint ?R > 0"
    using sint_nonzero by fastforce
  then show ?case
  proof cases
    case 1
    then show ?thesis using x by (auto simp: OrderedCollectionInsert_search.simps [of _ _ x])
  next
    case 2
    have "insert_place cmp h u (InLeft x c r # C) ?R"
      using "2.prems"(3) 2 cmp_trans [OF less_imp_le [OF 2(2)]] srt(4) by (auto simp: insert_place_def)
    from "2.hyps"(1) [of "InLeft x c r # C", OF _ _ srt(1) this] show ?thesis
      using x 2 by (fastforce simp: OrderedCollectionInsert_search.simps [of _ _ x] split: if_splits)
  next
    case 3
    then have "sint (cmp (nd_UserStruct (h x)) u) < 0" using cmp_swap by blast
    then have "insert_place cmp h u (InRight l x c # C) ?R"
      using "2.prems"(3) 3 cmp_trans [OF less_imp_le, of _ "nd_UserStruct (h x)" u] srt(3) by (auto simp: insert_place_def)
    from "2.hyps"(2) [of "InRight l x c # C", OF _ _ srt(2) this] show ?thesis
      using x 3 by (fastforce simp: OrderedCollectionInsert_search.simps [of _ _ x] split: if_splits)
  qed
qed

end

section \<open>Collections\<close>

text \<open>
  A collection: its tree with the nodes in order of their structures, all in live pool blocks.  Its
  abstract value is the list of its entries, the node and the user structure, in order.
\<close>

definition rb_collection :: "'m rb_state \<Rightarrow> u64 \<Rightarrow> rb_shape \<Rightarrow> bool" where
  "rb_collection s Tree t \<longleftrightarrow> rb_at (rb_node s) t (rbt_Root (rb_tree s Tree)) \<and> rb_balanced t \<and>
     sorted_wrt (rb_less (rbt_UserStructCompare (rb_tree s Tree) (rb_memory s)) (rb_node s)) (addrs t) \<and>
     set (addrs t) \<subseteq> set (rb_live s) \<and> distinct (rb_live s)"

definition collection_entries :: "'m rb_state \<Rightarrow> u64 \<Rightarrow> (u64 \<times> u64) list \<Rightarrow> bool" where
  "collection_entries s Tree xs \<longleftrightarrow>
     (\<exists>t. rb_collection s Tree t \<and> xs = map (\<lambda>a. (a, nd_UserStruct (rb_node s a))) (addrs t))"

lemma rb_collection_validate:
  assumes "rb_collection s Tree t" and "user_compare (rbt_UserStructCompare (rb_tree s Tree) (rb_memory s))"
  shows "rb_validate env Tree s = Some ()"
  using Validate_ok [of s t Tree] assms by (auto simp: rb_validate_def rb_collection_def user_compare_def)

end
