(* ===== verification/RbtInsert.thy ===== *)
theory RbtInsert
  imports RbtWalk
begin

text \<open>
  Insertion into the red-black tree: one round of the loop that restores the colours, the loop,
  the search for the place, and the whole operation.
\<close>

section \<open>One round\<close>

text \<open>Painting a parent, an uncle and a grandparent.\<close>

lemma paint_family_left:
  assumes "rb_at h (plug C (Node (Node a (p, cp) b) (g, cg) (Node c (u, cu) d))) root"
  defines "h' \<equiv> set_Color g Red (set_Color u Black (set_Color p Black h))"
  shows "rb_at h' (plug C (Node (Node a (p, Black) b) (g, Red) (Node c (u, Black) d))) root"
    and "rb_keeps h (addrs (plug C (Node (Node a (p, cp) b) (g, cg) (Node c (u, cu) d)))) h'"
proof -
  have "rb_at (set_Color p Black h) (plug C (Node (Node a (p, Black) b) (g, cg) (Node c (u, cu) d))) root"
    using rb_at_paint(1) [of h "InLeft g cg (Node c (u, cu) d) # C" a p cp b root Black] assms(1) by simp
  then have "rb_at (set_Color u Black (set_Color p Black h)) (plug C (Node (Node a (p, Black) b) (g, cg) (Node c (u, Black) d))) root"
    using rb_at_paint(1) [of _ "InRight (Node a (p, Black) b) g cg # C" c u cu d root Black] by simp
  then show "rb_at h' (plug C (Node (Node a (p, Black) b) (g, Red) (Node c (u, Black) d))) root"
    unfolding h'_def by (rule rb_at_paint(1))
  show "rb_keeps h (addrs (plug C (Node (Node a (p, cp) b) (g, cg) (Node c (u, cu) d)))) h'"
    by (auto simp: h'_def rb_set_defs rb_keeps_def)
qed

lemma paint_family_right:
  assumes "rb_at h (plug C (Node (Node c (u, cu) d) (g, cg) (Node a (p, cp) b))) root"
  defines "h' \<equiv> set_Color g Red (set_Color u Black (set_Color p Black h))"
  shows "rb_at h' (plug C (Node (Node c (u, Black) d) (g, Red) (Node a (p, Black) b))) root"
    and "rb_keeps h (addrs (plug C (Node (Node c (u, cu) d) (g, cg) (Node a (p, cp) b)))) h'"
proof -
  have "rb_at (set_Color p Black h) (plug C (Node (Node c (u, cu) d) (g, cg) (Node a (p, Black) b))) root"
    using rb_at_paint(1) [of h "InRight (Node c (u, cu) d) g cg # C" a p cp b root Black] assms(1) by simp
  then have "rb_at (set_Color u Black (set_Color p Black h)) (plug C (Node (Node c (u, Black) d) (g, cg) (Node a (p, Black) b))) root"
    using rb_at_paint(1) [of _ "InLeft g cg (Node a (p, Black) b) # C" c u cu d root Black] by simp
  then show "rb_at h' (plug C (Node (Node c (u, Black) d) (g, Red) (Node a (p, Black) b))) root"
    unfolding h'_def by (rule rb_at_paint(1))
  show "rb_keeps h (addrs (plug C (Node (Node c (u, cu) d) (g, cg) (Node a (p, cp) b)))) h'"
    by (auto simp: h'_def rb_set_defs rb_keeps_def)
qed

lemma OrderedCollectionInsert_left_recolor:
  assumes "rb_at h (plug C (Node (Node a (p, Red) b) (g, cg) (Node c (u, Red) d))) root"
  obtains h' where "OrderedCollectionInsert_left g x p root h = Some (g, hole_parent NULL C, root, h')"
    and "rb_at h' (plug C (Node (Node a (p, Black) b) (g, Red) (Node c (u, Black) d))) root"
    and "rb_keeps h (addrs (plug C (Node (Node a (p, Red) b) (g, cg) (Node c (u, Red) d)))) h'"
proof -
  note p = paint_family_left [OF assms] and g = rb_at_node [OF assms]
  have u: "u \<noteq> NULL" "nd_Color (h u) = Red" using assms by (auto simp: rb_at_def)
  show thesis
    by (rule that [OF _ p]) (simp add: OrderedCollectionInsert_left_def g u rb_at_node [OF p(1)])
qed

lemma OrderedCollectionInsert_right_recolor:
  assumes "rb_at h (plug C (Node (Node c (u, Red) d) (g, cg) (Node a (p, Red) b))) root"
  obtains h' where "OrderedCollectionInsert_right g x p root h = Some (g, hole_parent NULL C, root, h')"
    and "rb_at h' (plug C (Node (Node c (u, Black) d) (g, Red) (Node a (p, Black) b))) root"
    and "rb_keeps h (addrs (plug C (Node (Node c (u, Red) d) (g, cg) (Node a (p, Red) b)))) h'"
proof -
  note p = paint_family_right [OF assms] and g = rb_at_node [OF assms]
  have u: "u \<noteq> NULL" "nd_Color (h u) = Red" using assms by (auto simp: rb_at_def)
  show thesis
    by (rule that [OF _ p]) (simp add: OrderedCollectionInsert_right_def g u rb_at_node [OF p(1)])
qed

text \<open>The rotation at the grandparent, after the repainting.\<close>

lemma rotate_right_recolored:
  assumes "rb_at h (plug C (Node (Node a (p, cp) b) (g, cg) u)) root"
  obtains root' h' where
    "RedBlackTreeRotateRight g root (set_Color g Red (set_Color p Black h)) = (root', h')"
    and "rb_at h' (plug C (Node a (p, Black) (Node b (g, Red) u))) root'"
    and "rb_keeps h (addrs (plug C (Node (Node a (p, cp) b) (g, cg) u))) h'"
proof -
  define h1 where "h1 = set_Color g Red (set_Color p Black h)"
  have "rb_at h1 (plug C (Node (Node a (p, Black) b) (g, Red) u)) root"
    using assms by (auto simp: h1_def rb_at_def rb_set_defs)
  then obtain root' h' where r: "RedBlackTreeRotateRight g root h1 = (root', h')"
    "rb_at h' (plug C (Node a (p, Black) (Node b (g, Red) u))) root'"
    "rb_keeps h1 (addrs (plug C (Node (Node a (p, Black) b) (g, Red) u))) h'"
    by (rule RedBlackTreeRotateRight_step)
  have "rb_keeps h (addrs (plug C (Node (Node a (p, cp) b) (g, cg) u))) h1"
    by (auto simp: h1_def rb_keeps_def rb_set_defs)
  then show thesis using that [OF r(1)[unfolded h1_def] r(2)] r(3) by (auto intro: rb_keeps_trans)
qed

lemma rotate_left_recolored:
  assumes "rb_at h (plug C (Node u (g, cg) (Node a (p, cp) b))) root"
  obtains root' h' where
    "RedBlackTreeRotateLeft g root (set_Color g Red (set_Color p Black h)) = (root', h')"
    and "rb_at h' (plug C (Node (Node u (g, Red) a) (p, Black) b)) root'"
    and "rb_keeps h (addrs (plug C (Node u (g, cg) (Node a (p, cp) b)))) h'"
proof -
  define h1 where "h1 = set_Color g Red (set_Color p Black h)"
  have "rb_at h1 (plug C (Node u (g, Red) (Node a (p, Black) b))) root"
    using assms by (auto simp: h1_def rb_at_def rb_set_defs)
  then obtain root' h' where r: "RedBlackTreeRotateLeft g root h1 = (root', h')"
    "rb_at h' (plug C (Node (Node u (g, Red) a) (p, Black) b)) root'"
    "rb_keeps h1 (addrs (plug C (Node u (g, Red) (Node a (p, Black) b)))) h'"
    by (rule RedBlackTreeRotateLeft_step)
  have "rb_keeps h (addrs (plug C (Node u (g, cg) (Node a (p, cp) b)))) h1"
    by (auto simp: h1_def rb_keeps_def rb_set_defs)
  then show thesis using that [OF r(1)[unfolded h1_def] r(2)] r(3) by (auto intro: rb_keeps_trans)
qed

text \<open>The uncle is black: one rotation when the new node is on the outer side, else two.\<close>

lemma OrderedCollectionInsert_left_outer:
  assumes "rb_at h (plug C (Node (Node (Node a (x, cx) b) (p, cp) c) (g, cg) u)) root" and "rb_color u = Black"
  obtains root' h' where "OrderedCollectionInsert_left g x p root h = Some (x, p, root', h')"
    and "rb_at h' (plug C (Node (Node a (x, cx) b) (p, Black) (Node c (g, Red) u))) root'"
    and "rb_keeps h (addrs (plug C (Node (Node (Node a (x, cx) b) (p, cp) c) (g, cg) u))) h'"
proof -
  obtain root' h' where r: "RedBlackTreeRotateRight g root (set_Color g Red (set_Color p Black h)) = (root', h')"
    "rb_at h' (plug C (Node (Node a (x, cx) b) (p, Black) (Node c (g, Red) u))) root'"
    "rb_keeps h (addrs (plug C (Node (Node (Node a (x, cx) b) (p, cp) c) (g, cg) u))) h'"
    by (rule rotate_right_recolored [OF assms(1)])
  have "\<not> (rb_ptr u \<noteq> NULL \<and> nd_Color (h (rb_ptr u)) = Red)"
    using assms by (cases u rule: rb_ptr.cases) (auto simp: rb_at_def)
  moreover have "nd_Right (h p) \<noteq> x" using assms(1) rb_ptr_neq [of x c] by (auto simp: rb_at_def)
  ultimately have "OrderedCollectionInsert_left g x p root h = Some (x, p, root', h')"
    using r(1) by (auto simp: OrderedCollectionInsert_left_def rb_at_node(3) [OF assms(1)] Let_def)
  then show thesis using r that by blast
qed

lemma OrderedCollectionInsert_left_inner:
  assumes "rb_at h (plug C (Node (Node c (p, cp) (Node a (x, cx) b)) (g, cg) u)) root" and "rb_color u = Black"
  obtains root' h' where "OrderedCollectionInsert_left g x p root h = Some (p, x, root', h')"
    and "rb_at h' (plug C (Node (Node c (p, cp) a) (x, Black) (Node b (g, Red) u))) root'"
    and "rb_keeps h (addrs (plug C (Node (Node c (p, cp) (Node a (x, cx) b)) (g, cg) u))) h'"
proof -
  have u: "\<not> (rb_ptr u \<noteq> NULL \<and> nd_Color (h (rb_ptr u)) = Red)"
    using assms by (cases u rule: rb_ptr.cases) (auto simp: rb_at_def)
  have f: "nd_Right (h p) = x" using assms(1) by (auto simp: rb_at_def)
  have "rb_at h (plug (InLeft g cg u # C) (Node c (p, cp) (Node a (x, cx) b))) root" using assms(1) by simp
  then obtain root1 h1 where r: "RedBlackTreeRotateLeft p root h = (root1, h1)"
    "rb_at h1 (plug (InLeft g cg u # C) (Node (Node c (p, cp) a) (x, cx) b)) root1"
    "rb_keeps h (addrs (plug (InLeft g cg u # C) (Node c (p, cp) (Node a (x, cx) b)))) h1"
    by (rule RedBlackTreeRotateLeft_step)
  then have at1: "rb_at h1 (plug C (Node (Node (Node c (p, cp) a) (x, cx) b) (g, cg) u)) root1" by simp
  then obtain root' h' where r': "RedBlackTreeRotateRight g root1 (set_Color g Red (set_Color x Black h1)) = (root', h')"
    "rb_at h' (plug C (Node (Node c (p, cp) a) (x, Black) (Node b (g, Red) u))) root'"
    "rb_keeps h1 (addrs (plug C (Node (Node (Node c (p, cp) a) (x, cx) b) (g, cg) u))) h'"
    by (rule rotate_right_recolored)
  have "nd_Parent (h1 p) = x" "nd_Parent (h1 x) = g" using at1 by (auto simp: rb_at_def)
  then have "OrderedCollectionInsert_left g x p root h = Some (p, x, root', h')"
    using u f r(1) r'(1) by (auto simp: OrderedCollectionInsert_left_def rb_at_node(3) [OF assms(1)] Let_def ASSERT_def)
  then show thesis using that r'(2) rb_keeps_trans [OF r(3)] r'(3) by auto
qed

lemma OrderedCollectionInsert_right_outer:
  assumes "rb_at h (plug C (Node u (g, cg) (Node c (p, cp) (Node a (x, cx) b)))) root" and "rb_color u = Black"
  obtains root' h' where "OrderedCollectionInsert_right g x p root h = Some (x, p, root', h')"
    and "rb_at h' (plug C (Node (Node u (g, Red) c) (p, Black) (Node a (x, cx) b))) root'"
    and "rb_keeps h (addrs (plug C (Node u (g, cg) (Node c (p, cp) (Node a (x, cx) b))))) h'"
proof -
  obtain root' h' where r: "RedBlackTreeRotateLeft g root (set_Color g Red (set_Color p Black h)) = (root', h')"
    "rb_at h' (plug C (Node (Node u (g, Red) c) (p, Black) (Node a (x, cx) b))) root'"
    "rb_keeps h (addrs (plug C (Node u (g, cg) (Node c (p, cp) (Node a (x, cx) b))))) h'"
    by (rule rotate_left_recolored [OF assms(1)])
  have "\<not> (rb_ptr u \<noteq> NULL \<and> nd_Color (h (rb_ptr u)) = Red)"
    using assms by (cases u rule: rb_ptr.cases) (auto simp: rb_at_def)
  moreover have "nd_Left (h p) \<noteq> x" using assms(1) rb_ptr_neq [of x c] by (auto simp: rb_at_def)
  ultimately have "OrderedCollectionInsert_right g x p root h = Some (x, p, root', h')"
    using r(1) by (auto simp: OrderedCollectionInsert_right_def rb_at_node(2) [OF assms(1)] Let_def)
  then show thesis using r that by blast
qed

lemma OrderedCollectionInsert_right_inner:
  assumes "rb_at h (plug C (Node u (g, cg) (Node (Node a (x, cx) b) (p, cp) c))) root" and "rb_color u = Black"
  obtains root' h' where "OrderedCollectionInsert_right g x p root h = Some (p, x, root', h')"
    and "rb_at h' (plug C (Node (Node u (g, Red) a) (x, Black) (Node b (p, cp) c))) root'"
    and "rb_keeps h (addrs (plug C (Node u (g, cg) (Node (Node a (x, cx) b) (p, cp) c)))) h'"
proof -
  have u: "\<not> (rb_ptr u \<noteq> NULL \<and> nd_Color (h (rb_ptr u)) = Red)"
    using assms by (cases u rule: rb_ptr.cases) (auto simp: rb_at_def)
  have f: "nd_Left (h p) = x" using assms(1) by (auto simp: rb_at_def)
  have "rb_at h (plug (InRight u g cg # C) (Node (Node a (x, cx) b) (p, cp) c)) root" using assms(1) by simp
  then obtain root1 h1 where r: "RedBlackTreeRotateRight p root h = (root1, h1)"
    "rb_at h1 (plug (InRight u g cg # C) (Node a (x, cx) (Node b (p, cp) c))) root1"
    "rb_keeps h (addrs (plug (InRight u g cg # C) (Node (Node a (x, cx) b) (p, cp) c))) h1"
    by (rule RedBlackTreeRotateRight_step)
  then have at1: "rb_at h1 (plug C (Node u (g, cg) (Node a (x, cx) (Node b (p, cp) c)))) root1" by simp
  then obtain root' h' where r': "RedBlackTreeRotateLeft g root1 (set_Color g Red (set_Color x Black h1)) = (root', h')"
    "rb_at h' (plug C (Node (Node u (g, Red) a) (x, Black) (Node b (p, cp) c))) root'"
    "rb_keeps h1 (addrs (plug C (Node u (g, cg) (Node a (x, cx) (Node b (p, cp) c))))) h'"
    by (rule rotate_left_recolored)
  have "nd_Parent (h1 p) = x" "nd_Parent (h1 x) = g" using at1 by (auto simp: rb_at_def)
  then have "OrderedCollectionInsert_right g x p root h = Some (p, x, root', h')"
    using u f r(1) r'(1) by (auto simp: OrderedCollectionInsert_right_def rb_at_node(2) [OF assms(1)] Let_def ASSERT_def)
  then show thesis using that r'(2) rb_keeps_trans [OF r(3)] r'(3) by auto
qed

section \<open>The loop\<close>

fun blacken :: "rb_shape \<Rightarrow> rb_shape" where
  "blacken Leaf = Leaf"
| "blacken (Node l (x, c) r) = Node l (x, Black) r"

lemma blacken_id [simp]: "rb_color t = Black \<Longrightarrow> blacken t = t"
  by (cases t rule: rb_ptr.cases) auto

lemma addrs_blacken [simp]: "addrs (blacken t) = addrs t"
  by (cases t rule: rb_ptr.cases) auto

lemma Insert_loop_stop:
  "x = root \<or> nd_Color (h p) = Black \<Longrightarrow> OrderedCollectionInsert_loop x p root h = Some (root, h)"
  by (subst OrderedCollectionInsert_loop.simps) auto

lemma Insert_loop_left:
  assumes "rb_at h (plug C (Node l (g, cg) u)) root" and "l = Node a (p, Red) b" and "x \<noteq> root"
    and "OrderedCollectionInsert_left g x p root h = Some (x', p', root', h')"
  shows "OrderedCollectionInsert_loop x p root h = OrderedCollectionInsert_loop x' p' root' h'"
proof -
  have "nd_Color (h p) = Red" "nd_Parent (h p) = g" "nd_Left (h g) = p" using assms(1,2) by (auto simp: rb_at_def)
  then show ?thesis using assms(3,4) by (subst OrderedCollectionInsert_loop.simps) (simp add: Let_def)
qed

lemma Insert_loop_right:
  assumes "rb_at h (plug C (Node u (g, cg) r)) root" and "r = Node a (p, Red) b" and "x \<noteq> root"
    and "OrderedCollectionInsert_right g x p root h = Some (x', p', root', h')"
  shows "OrderedCollectionInsert_loop x p root h = OrderedCollectionInsert_loop x' p' root' h'"
proof -
  have "nd_Color (h p) = Red" "nd_Parent (h p) = g" using assms(1,2) by (auto simp: rb_at_def)
  moreover have "nd_Left (h g) \<noteq> p" using assms(1,2) rb_ptr_neq [of p u] by (auto simp: rb_at_def)
  ultimately show ?thesis using assms(3,4) by (subst OrderedCollectionInsert_loop.simps) (simp add: Let_def)
qed

text \<open>What the loop achieves from the heap \<open>h\<close> with the nodes \<open>xs\<close>.\<close>

definition insert_fixed :: "rb_heap \<Rightarrow> u64 list \<Rightarrow> (u64 \<times> rb_heap) option \<Rightarrow> bool" where
  "insert_fixed h xs res \<longleftrightarrow> (\<exists>root' h' t'. res = Some (root', h') \<and> rb_at h' t' root' \<and> addrs t' = xs \<and>
     rb_keeps h xs h' \<and> rb_balanced (blacken t'))"

lemma insert_fixedI:
  assumes "rb_at h' (plug C t) root'" and "addrs (plug C t) = xs" and "rb_keeps h xs h'" and "rb_balanced (plug C t)"
    and "nd_Color (h' p) = Black"
  shows "insert_fixed h xs (OrderedCollectionInsert_loop x p root' h')"
  unfolding insert_fixed_def using assms Insert_loop_stop [of x root' h' p]
  by (intro exI [of _ root'] exI [of _ h'] exI [of _ "plug C t"]) (simp add: rb_balanced_def)

lemma insert_fixed_trans:
  "rb_keeps h xs h1 \<Longrightarrow> insert_fixed h1 xs res \<Longrightarrow> insert_fixed h xs res"
  unfolding insert_fixed_def using rb_keeps_trans by blast

text \<open>
  The induction: the hole has the red node \<open>x\<close>, and only the edge to its parent may break the
  colour property.
\<close>

definition insert_pending :: "rb_frame list \<Rightarrow> rb_shape \<Rightarrow> bool" where
  "insert_pending C t \<longleftrightarrow> rb_colored t \<and> context_colored C Black \<and> (\<exists>n. rb_height t n \<and> context_height C n)"

lemma rb_height_blacken: "rb_height t n \<Longrightarrow> \<exists>m. rb_height (blacken t) m"
  by (cases t rule: rb_ptr.cases) (auto intro: exI [of _ "Suc n"])

lemma rb_balanced_blacken: "rb_colored t \<Longrightarrow> rb_height t n \<Longrightarrow> rb_balanced (blacken t)"
  using rb_height_blacken [of t n] by (cases t rule: rb_ptr.cases) (auto simp: rb_balanced_def)

lemma insert_loop_done:
  assumes "rb_at h (plug C t) root" and "t = Node a (x, Red) b" and "insert_pending C t"
    and "C = [] \<or> nd_Color (h (hole_parent NULL C)) = Black"
  shows "insert_fixed h (addrs (plug C t)) (OrderedCollectionInsert_loop x (hole_parent NULL C) root h)"
proof (cases "C = []")
  case True
  then have "OrderedCollectionInsert_loop x (hole_parent NULL C) root h = Some (root, h)"
    using assms by (intro Insert_loop_stop) (auto simp: rb_at_def)
  then show ?thesis using assms True rb_balanced_blacken [of t] by (auto simp: insert_fixed_def insert_pending_def)
next
  case False
  then have "context_colored C Red"
    using assms by (cases C rule: before.cases) (auto simp: insert_pending_def rb_at_def)
  then have "rb_balanced (plug C t)" using assms(2,3) by (auto simp: rb_balanced_plug insert_pending_def)
  then show ?thesis using assms False by (intro insert_fixedI) auto
qed

definition insert_ready :: "rb_frame list \<Rightarrow> nat \<Rightarrow> rb_shape \<Rightarrow> rb_shape \<Rightarrow> rb_shape \<Rightarrow> rb_shape \<Rightarrow> bool" where
  "insert_ready E n a b c u \<longleftrightarrow> context_colored E Black \<and> context_height E (Suc n) \<and>
     rb_colored a \<and> rb_colored b \<and> rb_colored c \<and> rb_colored u \<and> rb_color a = Black \<and> rb_color b = Black \<and> rb_color c = Black \<and>
     rb_height a n \<and> rb_height b n \<and> rb_height c n \<and> rb_height u n"

text \<open>
  A grandparent \<open>g\<close> with the uncle \<open>u\<close>: the round ends the loop when the uncle is black, and
  goes on at the grandparent when it is red.
\<close>

lemma insert_left_black_uncle:
  assumes at: "rb_at h (plug E (Node l (g, Black) u)) root" and u: "rb_color u = Black"
    and l: "l = Node (Node a (x, Red) b) (p, Red) c \<or> l = Node c (p, Red) (Node a (x, Red) b)"
    and ok: "insert_ready E n a b c u"
  obtains root' h' x' p' t' where "OrderedCollectionInsert_left g x p root h = Some (x', p', root', h')"
    and "rb_at h' (plug E t') root'" and "addrs (plug E t') = addrs (plug E (Node l (g, Black) u))"
    and "rb_keeps h (addrs (plug E (Node l (g, Black) u))) h'" and "rb_balanced (plug E t')" and "nd_Color (h' p') = Black"
  using l
proof (elim disjE, goal_cases)
  case 1
  obtain root' h' where r: "OrderedCollectionInsert_left g x p root h = Some (x, p, root', h')"
    "rb_at h' (plug E (Node (Node a (x, Red) b) (p, Black) (Node c (g, Red) u))) root'"
    "rb_keeps h (addrs (plug E (Node l (g, Black) u))) h'"
    using at u unfolding 1(2) by (rule OrderedCollectionInsert_left_outer)
  show ?thesis
    by (rule 1(1) [OF r(1,2) _ r(3) _ rb_at_node(4) [OF r(2)]])
      (use u ok in \<open>auto simp: 1(2) insert_ready_def rb_balanced_plug intro!: exI [of _ "Suc n"]\<close>)
next
  case 2
  obtain root' h' where r: "OrderedCollectionInsert_left g x p root h = Some (p, x, root', h')"
    "rb_at h' (plug E (Node (Node c (p, Red) a) (x, Black) (Node b (g, Red) u))) root'"
    "rb_keeps h (addrs (plug E (Node l (g, Black) u))) h'"
    using at u unfolding 2(2) by (rule OrderedCollectionInsert_left_inner)
  show ?thesis
    by (rule 2(1) [OF r(1,2) _ r(3) _ rb_at_node(4) [OF r(2)]])
      (use u ok in \<open>auto simp: 2(2) insert_ready_def rb_balanced_plug intro!: exI [of _ "Suc n"]\<close>)
qed

lemma insert_right_black_uncle:
  assumes at: "rb_at h (plug E (Node u (g, Black) l)) root" and u: "rb_color u = Black"
    and l: "l = Node c (p, Red) (Node a (x, Red) b) \<or> l = Node (Node a (x, Red) b) (p, Red) c"
    and ok: "insert_ready E n a b c u"
  obtains root' h' x' p' t' where "OrderedCollectionInsert_right g x p root h = Some (x', p', root', h')"
    and "rb_at h' (plug E t') root'" and "addrs (plug E t') = addrs (plug E (Node u (g, Black) l))"
    and "rb_keeps h (addrs (plug E (Node u (g, Black) l))) h'" and "rb_balanced (plug E t')" and "nd_Color (h' p') = Black"
  using l
proof (elim disjE, goal_cases)
  case 1
  obtain root' h' where r: "OrderedCollectionInsert_right g x p root h = Some (x, p, root', h')"
    "rb_at h' (plug E (Node (Node u (g, Red) c) (p, Black) (Node a (x, Red) b))) root'"
    "rb_keeps h (addrs (plug E (Node u (g, Black) l))) h'"
    using at u unfolding 1(2) by (rule OrderedCollectionInsert_right_outer)
  show ?thesis
    by (rule 1(1) [OF r(1,2) _ r(3) _ rb_at_node(4) [OF r(2)]])
      (use u ok in \<open>auto simp: 1(2) insert_ready_def rb_balanced_plug intro!: exI [of _ "Suc n"]\<close>)
next
  case 2
  obtain root' h' where r: "OrderedCollectionInsert_right g x p root h = Some (p, x, root', h')"
    "rb_at h' (plug E (Node (Node u (g, Red) a) (x, Black) (Node b (p, Red) c))) root'"
    "rb_keeps h (addrs (plug E (Node u (g, Black) l))) h'"
    using at u unfolding 2(2) by (rule OrderedCollectionInsert_right_inner)
  show ?thesis
    by (rule 2(1) [OF r(1,2) _ r(3) _ rb_at_node(4) [OF r(2)]])
      (use u ok in \<open>auto simp: 2(2) insert_ready_def rb_balanced_plug intro!: exI [of _ "Suc n"]\<close>)
qed

lemma insert_loop_left_step:
  assumes at: "rb_at h (plug E (Node l (g, Black) u)) root"
    and l: "l = Node (Node a (x, Red) b) (p, Red) c \<or> l = Node c (p, Red) (Node a (x, Red) b)"
    and ok: "insert_ready E n a b c u"
    and IH: "\<And>h root t. rb_at h (plug E t) root \<Longrightarrow> rb_color t = Red \<Longrightarrow> insert_pending E t \<Longrightarrow>
       insert_fixed h (addrs (plug E t)) (OrderedCollectionInsert_loop (rb_ptr t) (hole_parent NULL E) root h)"
  shows "insert_fixed h (addrs (plug E (Node l (g, Black) u))) (OrderedCollectionInsert_loop x p root h)"
proof -
  obtain l1 l2 where lp: "l = Node l1 (p, Red) l2" using l by blast
  have x: "x \<noteq> root" using at l top_ptr_in [of E g] by (cases "E = []") (auto simp: rb_at_def)
  show ?thesis
  proof (cases "rb_color u = Red")
    case True
    then obtain d v e where u: "u = Node d (v, Red) e" by (cases u rule: rb_ptr.cases) auto
    obtain h' where r: "OrderedCollectionInsert_left g x p root h = Some (g, hole_parent NULL E, root, h')"
      "rb_at h' (plug E (Node (Node l1 (p, Black) l2) (g, Red) (Node d (v, Black) e))) root"
      "rb_keeps h (addrs (plug E (Node l (g, Black) u))) h'"
      using at unfolding lp u by (rule OrderedCollectionInsert_left_recolor)
    have "insert_pending E (Node (Node l1 (p, Black) l2) (g, Red) (Node d (v, Black) e))"
      using ok l u lp by (auto simp: insert_ready_def insert_pending_def intro!: exI [of _ "Suc n"])
    from IH [OF r(2) _ this] show ?thesis
      using Insert_loop_left [OF at lp x r(1)] insert_fixed_trans [OF r(3)] by (simp add: lp u)
  next
    case False
    then have "rb_color u = Black" by simp
    then obtain root' h' x' p' t' where r: "OrderedCollectionInsert_left g x p root h = Some (x', p', root', h')"
      "rb_at h' (plug E t') root'" "addrs (plug E t') = addrs (plug E (Node l (g, Black) u))"
      "rb_keeps h (addrs (plug E (Node l (g, Black) u))) h'" "rb_balanced (plug E t')" "nd_Color (h' p') = Black"
      using at l ok by (blast elim!: insert_left_black_uncle)
    show ?thesis using Insert_loop_left [OF at lp x r(1)] insert_fixedI [OF r(2-6)] by simp
  qed
qed

lemma insert_loop_right_step:
  assumes at: "rb_at h (plug E (Node u (g, Black) l)) root"
    and l: "l = Node c (p, Red) (Node a (x, Red) b) \<or> l = Node (Node a (x, Red) b) (p, Red) c"
    and ok: "insert_ready E n a b c u"
    and IH: "\<And>h root t. rb_at h (plug E t) root \<Longrightarrow> rb_color t = Red \<Longrightarrow> insert_pending E t \<Longrightarrow>
       insert_fixed h (addrs (plug E t)) (OrderedCollectionInsert_loop (rb_ptr t) (hole_parent NULL E) root h)"
  shows "insert_fixed h (addrs (plug E (Node u (g, Black) l))) (OrderedCollectionInsert_loop x p root h)"
proof -
  obtain l1 l2 where lp: "l = Node l1 (p, Red) l2" using l by blast
  have x: "x \<noteq> root" using at l top_ptr_in [of E g] by (cases "E = []") (auto simp: rb_at_def)
  show ?thesis
  proof (cases "rb_color u = Red")
    case True
    then obtain d v e where u: "u = Node d (v, Red) e" by (cases u rule: rb_ptr.cases) auto
    obtain h' where r: "OrderedCollectionInsert_right g x p root h = Some (g, hole_parent NULL E, root, h')"
      "rb_at h' (plug E (Node (Node d (v, Black) e) (g, Red) (Node l1 (p, Black) l2))) root"
      "rb_keeps h (addrs (plug E (Node u (g, Black) l))) h'"
      using at unfolding lp u by (rule OrderedCollectionInsert_right_recolor)
    have "insert_pending E (Node (Node d (v, Black) e) (g, Red) (Node l1 (p, Black) l2))"
      using ok l u lp by (auto simp: insert_ready_def insert_pending_def intro!: exI [of _ "Suc n"])
    from IH [OF r(2) _ this] show ?thesis
      using Insert_loop_right [OF at lp x r(1)] insert_fixed_trans [OF r(3)] by (simp add: lp u)
  next
    case False
    then have "rb_color u = Black" by simp
    then obtain root' h' x' p' t' where r: "OrderedCollectionInsert_right g x p root h = Some (x', p', root', h')"
      "rb_at h' (plug E t') root'" "addrs (plug E t') = addrs (plug E (Node u (g, Black) l))"
      "rb_keeps h (addrs (plug E (Node u (g, Black) l))) h'" "rb_balanced (plug E t')" "nd_Color (h' p') = Black"
      using at l ok by (blast elim!: insert_right_black_uncle)
    show ?thesis using Insert_loop_right [OF at lp x r(1)] insert_fixedI [OF r(2-6)] by simp
  qed
qed

lemma insert_loop_fixed:
  assumes "rb_at h (plug C t) root" and "rb_color t = Red" and "insert_pending C t"
  shows "insert_fixed h (addrs (plug C t)) (OrderedCollectionInsert_loop (rb_ptr t) (hole_parent NULL C) root h)"
  using assms
proof (induction "length C" arbitrary: C t h root rule: less_induct)
  case less
  then obtain a x b where t: "t = Node a (x, Red) b" by (cases t rule: rb_ptr.cases) auto
  show ?case
  proof (cases "C = [] \<or> nd_Color (h (hole_parent NULL C)) = Black")
    case True
    then show ?thesis using insert_loop_done [OF less.prems(1) t less.prems(3)] t by simp
  next
    case False
    then obtain p c g u E where C: "C = InLeft p Red c # InLeft g Black u # E \<or> C = InRight c p Red # InLeft g Black u # E \<or>
        C = InLeft p Red c # InRight u g Black # E \<or> C = InRight c p Red # InRight u g Black # E"
      using less.prems t by (cases C rule: before.cases; cases "tl C" rule: before.cases)
        (auto simp: insert_pending_def rb_at_def)
    then obtain n where ok: "insert_ready E n a b c u"
      using less.prems(3) t by (auto simp: insert_pending_def insert_ready_def)
    have IH: "insert_fixed h (addrs (plug E t)) (OrderedCollectionInsert_loop (rb_ptr t) (hole_parent NULL E) root h)"
      if "rb_at h (plug E t) root" "rb_color t = Red" "insert_pending E t" for h root t
      using less.hyps [OF _ that] C by auto
    note L = insert_loop_left_step [OF _ _ ok IH] and R = insert_loop_right_step [OF _ _ ok IH]
    from C less.prems(1) show ?thesis unfolding t
      by (elim disjE) (auto dest: L [OF _ disjI1 [OF refl]] L [OF _ disjI2 [OF refl]]
        R [OF _ disjI1 [OF refl]] R [OF _ disjI2 [OF refl]])
  qed
qed

section \<open>The whole operation\<close>

lemma Insert_link_at:
  assumes "rb_at h (plug D Leaf) root" and "D \<noteq> []" and "insert_place cmp h u D Result"
    and "a \<noteq> NULL" and "a \<notin> set (before D)" and "a \<notin> set (after D)"
  shows "rb_at (OrderedCollectionInsert_link a (hole_parent NULL D) Result u h) (plug D (Node Leaf (a, Red) Leaf)) root"
proof (cases D rule: before.cases)
  case (2 x c r E)
  then show ?thesis
    using assms by (auto simp: rb_at_def OrderedCollectionInsert_link_def rb_set_defs insert_place_def Let_def)
next
  case (3 l x c E)
  then show ?thesis
    using assms by (auto simp: rb_at_def OrderedCollectionInsert_link_def rb_set_defs insert_place_def Let_def)
qed (use assms in simp)

lemma Insert_link_root:
  "a \<noteq> NULL \<Longrightarrow> rb_at (OrderedCollectionInsert_link a NULL Result u h) (Node Leaf (a, Black) Leaf) a"
  by (simp add: rb_at_def OrderedCollectionInsert_link_def rb_set_defs)

lemma Insert_link_user:
  "nd_UserStruct (OrderedCollectionInsert_link a p Result u h z) = (if z = a then u else nd_UserStruct (h z))"
  by (auto simp: OrderedCollectionInsert_link_def rb_set_defs Let_def)

lemma Insert_link_other: "z \<noteq> a \<Longrightarrow> z \<noteq> p \<or> p = NULL \<Longrightarrow> OrderedCollectionInsert_link a p Result u h z = h z"
  by (auto simp: OrderedCollectionInsert_link_def rb_set_defs Let_def)

lemma insert_pending_new:
  "rb_balanced (plug D Leaf) \<Longrightarrow> insert_pending D (Node Leaf (a, Red) Leaf)"
  by (auto simp: insert_pending_def rb_balanced_plug)

lemma insert_rebalanced:
  assumes "rb_at h (plug D (Node Leaf (a, Red) Leaf)) root" and "rb_balanced (plug D Leaf)"
  obtains root' h' t' where "OrderedCollectionInsert_loop a (hole_parent NULL D) root h = Some (root', h')"
    and "rb_at (set_Color root' Black h') t' root'" and "addrs t' = before D @ a # after D" and "rb_balanced t'"
    and "rb_keeps h (before D @ a # after D) (set_Color root' Black h')"
proof -
  have "insert_fixed h (before D @ a # after D) (OrderedCollectionInsert_loop a (hole_parent NULL D) root h)"
    using insert_loop_fixed [OF assms(1) _ insert_pending_new [OF assms(2)]] by simp
  then obtain root' h' t' where r: "OrderedCollectionInsert_loop a (hole_parent NULL D) root h = Some (root', h')"
    "rb_at h' t' root'" "addrs t' = before D @ a # after D" "rb_keeps h (before D @ a # after D) h'" "rb_balanced (blacken t')"
    by (auto simp: insert_fixed_def)
  obtain l c r where t': "t' = Node l (root', c) r" using r(2,3) by (cases t' rule: rb_ptr.cases) (auto simp: rb_at_def)
  then have at': "rb_at h' (plug [] (Node l (root', c) r)) root'" using r(2) by simp
  note paint = rb_at_paint [OF at', of Black]
  show thesis
  proof (rule that [OF r(1)])
    show "rb_at (set_Color root' Black h') (blacken t') root'" using paint(1) by (simp add: t')
    have "addrs (plug [] (Node l (root', c) r)) = before D @ a # after D" using t' r(3) by simp
    then show "rb_keeps h (before D @ a # after D) (set_Color root' Black h')"
      using paint(2) rb_keeps_trans [OF r(4)] by metis
  qed (use r(3,5) in simp_all)
qed

text \<open>The new list of entries.\<close>

definition insert_entry :: "(u64 \<Rightarrow> u64 \<Rightarrow> INTN) \<Rightarrow> u64 \<Rightarrow> u64 \<Rightarrow> (u64 \<times> u64) list \<Rightarrow> (u64 \<times> u64) list" where
  "insert_entry cmp a u xs =
     takeWhile (\<lambda>(_, v). sint (cmp v u) < 0) xs @ (a, u) # dropWhile (\<lambda>(_, v). sint (cmp v u) < 0) xs"

text \<open>What an insertion of the node \<open>a\<close> below the hole \<open>D\<close> leaves.\<close>

lemma insert_into_hole:
  assumes col: "rb_collection s Tree (plug D Leaf)" and cmp: "user_compare (rbt_UserStructCompare (rb_tree s Tree) (rb_memory s))"
    and place: "insert_place (rbt_UserStructCompare (rb_tree s Tree) (rb_memory s)) (rb_node s) u D Result"
    and at: "rb_at h t (rb_ptr t)" "addrs t = before D @ a # after D" "rb_balanced t"
    and user: "\<And>z. nd_UserStruct (h z) = (if z = a then u else nd_UserStruct (rb_node s z))"
    and a: "a \<notin> set (rb_live s)"
  shows "rb_collection (rb_update Tree (rb_ptr t) h (s\<lparr>rb_live := a # rb_live s\<rparr>)) Tree t"
proof -
  have new: "a \<notin> set (before D)" "a \<notin> set (after D)" using col a by (auto simp: rb_collection_def)
  have "sorted_wrt (rb_less (rbt_UserStructCompare (rb_tree s Tree) (rb_memory s)) h) (before D @ after D)"
    by (rule sorted_wrt_mono_rel [of _ "rb_less (rbt_UserStructCompare (rb_tree s Tree) (rb_memory s)) (rb_node s)"])
      (use col new in \<open>auto simp: rb_collection_def user\<close>)
  then have "sorted_wrt (rb_less (rbt_UserStructCompare (rb_tree s Tree) (rb_memory s)) h) (before D @ a # after D)"
    using new place by (auto simp: sorted_wrt_append insert_place_def user)
  then show ?thesis using assms by (auto simp: rb_collection_def rb_update_def)
qed

text \<open>The search, seen from the collection.\<close>

definition colliding :: "'m rb_state \<Rightarrow> u64 \<Rightarrow> u64 \<Rightarrow> u64 list \<Rightarrow> u64 \<Rightarrow> bool" where
  "colliding s Tree u xs a \<longleftrightarrow> a \<in> set xs \<and> rbt_UserStructCompare (rb_tree s Tree) (rb_memory s) u (nd_UserStruct (rb_node s a)) = 0"

abbreviation insert_search :: "'m rb_state \<Rightarrow> u64 \<Rightarrow> u64 \<Rightarrow> (u64 \<times> u64 \<times> INTN) option" where
  "insert_search s Tree u \<equiv> OrderedCollectionInsert_search (rbt_UserStructCompare (rb_tree s Tree) (rb_memory s) u) (rb_node s)
     (rbt_Root (rb_tree s Tree)) NULL 0"

lemma Insert_search_collection [consumes 2, case_names found missed]:
  assumes "rb_collection s Tree t" and "user_compare (rbt_UserStructCompare (rb_tree s Tree) (rb_memory s))"
  obtains (found) Tmp Parent Result where "insert_search s Tree u = Some (Tmp, Parent, Result)" and "Tmp \<noteq> NULL"
      and "colliding s Tree u (addrs t) Tmp"
  | (missed) D Result where "t = plug D Leaf" and "insert_search s Tree u = Some (NULL, hole_parent NULL D, Result)"
      and "insert_place (rbt_UserStructCompare (rb_tree s Tree) (rb_memory s)) (rb_node s) u D Result"
  using user_compare.Insert_search_result [OF assms(2), of "rb_node s" "[]" t u 0] assms(1)
  by (auto simp: rb_collection_def rb_at_def insert_place_def colliding_def split: if_splits)

lemma sorted_wrt_cases: "sorted_wrt P xs \<Longrightarrow> a \<in> set xs \<Longrightarrow> b \<in> set xs \<Longrightarrow> a = b \<or> P a b \<or> P b a"
  by (induction xs) auto

lemma colliding_unique:
  assumes "rb_collection s Tree t" and "user_compare (rbt_UserStructCompare (rb_tree s Tree) (rb_memory s))"
    and "colliding s Tree u (addrs t) a" and "colliding s Tree u (addrs t) b"
  shows "a = b"
proof -
  have "\<not> rb_less (rbt_UserStructCompare (rb_tree s Tree) (rb_memory s)) (rb_node s) c d"
    if "colliding s Tree u (addrs t) c" "colliding s Tree u (addrs t) d" for c d
    using user_compare.cmp_trans [OF assms(2), of u "nd_UserStruct (rb_node s c)" "nd_UserStruct (rb_node s d)"] that
    by (auto simp: colliding_def)
  then show ?thesis
    using assms(3,4) sorted_wrt_cases [of "rb_less (rbt_UserStructCompare (rb_tree s Tree) (rb_memory s)) (rb_node s)" "addrs t" a b] assms(1)
    by (auto simp: rb_collection_def colliding_def)
qed

lemma insert_place_no_collision:
  assumes "user_compare (rbt_UserStructCompare (rb_tree s Tree) (rb_memory s))"
    and "insert_place (rbt_UserStructCompare (rb_tree s Tree) (rb_memory s)) (rb_node s) u D Result"
  shows "\<not> colliding s Tree u (addrs (plug D Leaf)) a"
proof
  assume *: "colliding s Tree u (addrs (plug D Leaf)) a"
  then have "sint (rbt_UserStructCompare (rb_tree s Tree) (rb_memory s) (nd_UserStruct (rb_node s a)) u) < 0"
    using assms(2) by (auto simp: colliding_def insert_place_def)
  then have "sint (rbt_UserStructCompare (rb_tree s Tree) (rb_memory s) u (nd_UserStruct (rb_node s a))) > 0"
    using user_compare.cmp_swap [OF assms(1)] by blast
  then show False using * by (simp add: colliding_def)
qed

lemma Insert_collision:
  assumes "rb_collection s Tree t" and "user_compare (rbt_UserStructCompare (rb_tree s Tree) (rb_memory s))"
    and "colliding s Tree u (addrs t) a"
  shows "OrderedCollectionInsert env Tree u s = Some (EFI_ALREADY_STARTED, Some a, s)"
  using assms(1,2)
proof (cases rule: Insert_search_collection [where u = u])
  case (found Tmp Parent Result)
  moreover have "Tmp = a" using colliding_unique [OF assms(1,2) found(3) assms(3)] .
  ultimately show ?thesis
    using rb_collection_validate [OF assms(1,2)] by (simp add: OrderedCollectionInsert_def)
next
  case (missed D Result)
  then show ?thesis using insert_place_no_collision [OF assms(2) missed(3)] assms(3) by blast
qed

text \<open>Without a collision, a new node is linked, unless there is no memory.\<close>

lemma Insert_no_collision:
  assumes "rb_collection s Tree t" and "user_compare (rbt_UserStructCompare (rb_tree s Tree) (rb_memory s))"
    and "\<And>a. \<not> colliding s Tree u (addrs t) a"
  obtains D Result where "t = plug D Leaf" and "insert_search s Tree u = Some (NULL, hole_parent NULL D, Result)"
    and "insert_place (rbt_UserStructCompare (rb_tree s Tree) (rb_memory s)) (rb_node s) u D Result"
  by (rule Insert_search_collection [OF assms(1,2), of u]) (use assms(3) in blast)+

lemma Insert_no_memory:
  assumes "rb_collection s Tree t" and "user_compare (rbt_UserStructCompare (rb_tree s Tree) (rb_memory s))"
    and "\<And>a. \<not> colliding s Tree u (addrs t) a" and "rb_AllocatePool env s = NULL"
  shows "OrderedCollectionInsert env Tree u s = Some (EFI_OUT_OF_RESOURCES, None, s)"
  by (rule Insert_no_collision [OF assms(1-3)])
    (use assms(4) rb_collection_validate [OF assms(1,2)] in \<open>auto simp: OrderedCollectionInsert_def\<close>)

lemma insert_heap:
  assumes "rb_at h (plug D Leaf) root" and "rb_balanced (plug D Leaf)" and "insert_place cmp h u D Result"
    and a: "a \<noteq> NULL" "a \<notin> set (before D)" "a \<notin> set (after D)"
  obtains h' t' where "rb_at h' t' (rb_ptr t')" and "addrs t' = before D @ a # after D" and "rb_balanced t'"
    and "\<And>z. nd_UserStruct (h' z) = (if z = a then u else nd_UserStruct (h z))"
    and "\<And>z. z \<notin> set (before D @ a # after D) \<Longrightarrow> h' z = h z"
    and "(if hole_parent NULL D = NULL
          then Some (a, OrderedCollectionInsert_link a (hole_parent NULL D) Result u h)
          else do {
            (NewRoot, h2) \<leftarrow> OrderedCollectionInsert_loop a (hole_parent NULL D) root (OrderedCollectionInsert_link a (hole_parent NULL D) Result u h);
            Some (NewRoot, set_Color NewRoot Black h2)
          }) = Some (rb_ptr t', h')"
proof (cases "D = []")
  case True
  then show thesis
    using that [of "OrderedCollectionInsert_link a NULL Result u h" "Node Leaf (a, Black) Leaf"] Insert_link_root [OF a(1)]
    by (auto simp: Insert_link_user Insert_link_other rb_balanced_def intro: exI [of _ 1])
next
  case False
  let ?h = "OrderedCollectionInsert_link a (hole_parent NULL D) Result u h"
  have p: "hole_parent NULL D \<noteq> NULL" "hole_parent NULL D \<in> set (before D @ a # after D)"
    using assms(1) False by (cases D rule: before.cases; auto simp: rb_at_def)+
  obtain root' h' t' where r: "OrderedCollectionInsert_loop a (hole_parent NULL D) root ?h = Some (root', h')"
    "rb_at (set_Color root' Black h') t' root'" "addrs t' = before D @ a # after D" "rb_balanced t'"
    "rb_keeps ?h (before D @ a # after D) (set_Color root' Black h')"
    using Insert_link_at [OF assms(1) False assms(3) a] assms(2) by (rule insert_rebalanced)
  have root': "root' = rb_ptr t'" using r(2) by (simp add: rb_at_def)
  show thesis
  proof (rule that [of "set_Color root' Black h'" t'])
    show "nd_UserStruct (set_Color root' Black h' z) = (if z = a then u else nd_UserStruct (h z))" for z
      using r(5) by (simp add: rb_keeps_def Insert_link_user)
    show "set_Color root' Black h' z = h z" if "z \<notin> set (before D @ a # after D)" for z
    proof -
      have "z \<noteq> a" "z \<noteq> hole_parent NULL D" using that p(2) by auto
      then show ?thesis using r(5) that Insert_link_other [of z a] by (simp add: rb_keeps_def)
    qed
  qed (use r p(1) root' in simp_all)
qed

lemma Insert_new:
  assumes "rb_collection s Tree t" and "user_compare (rbt_UserStructCompare (rb_tree s Tree) (rb_memory s))"
    and "\<And>a. \<not> colliding s Tree u (addrs t) a" and "rb_AllocatePool env s = a" and "a \<noteq> NULL" and "a \<notin> set (rb_live s)"
  obtains h' t' xs ys where
    "OrderedCollectionInsert env Tree u s =
       Some (EFI_SUCCESS, Some a, rb_update Tree (rb_ptr t') h' (s\<lparr>rb_live := a # rb_live s\<rparr>))"
    and "rb_collection (rb_update Tree (rb_ptr t') h' (s\<lparr>rb_live := a # rb_live s\<rparr>)) Tree t'"
    and "addrs t = xs @ ys" and "addrs t' = xs @ a # ys"
    and "\<forall>x \<in> set xs. sint (rbt_UserStructCompare (rb_tree s Tree) (rb_memory s) (nd_UserStruct (rb_node s x)) u) < 0"
    and "\<forall>y \<in> set ys. sint (rbt_UserStructCompare (rb_tree s Tree) (rb_memory s) u (nd_UserStruct (rb_node s y))) < 0"
    and "\<And>z. nd_UserStruct (h' z) = (if z = a then u else nd_UserStruct (rb_node s z))"
    and "\<And>z. z \<notin> set (addrs t) \<Longrightarrow> z \<noteq> a \<Longrightarrow> h' z = rb_node s z"
proof -
  obtain D Result where t: "t = plug D Leaf" and search: "insert_search s Tree u = Some (NULL, hole_parent NULL D, Result)"
    and place: "insert_place (rbt_UserStructCompare (rb_tree s Tree) (rb_memory s)) (rb_node s) u D Result"
    by (rule Insert_no_collision [OF assms(1-3)])
  have a: "a \<notin> set (before D)" "a \<notin> set (after D)" using assms(1,6) by (auto simp: t rb_collection_def)
  have at: "rb_at (rb_node s) (plug D Leaf) (rbt_Root (rb_tree s Tree))" "rb_balanced (plug D Leaf)"
    using assms(1) by (auto simp: t rb_collection_def)
  let ?l = "OrderedCollectionInsert_link a (hole_parent NULL D) Result u (rb_node s)"
  obtain h' t' where r: "rb_at h' t' (rb_ptr t')" "addrs t' = before D @ a # after D" "rb_balanced t'"
    "\<And>z. nd_UserStruct (h' z) = (if z = a then u else nd_UserStruct (rb_node s z))"
    "\<And>z. z \<notin> set (before D @ a # after D) \<Longrightarrow> h' z = rb_node s z"
    "(if hole_parent NULL D = NULL then Some (a, ?l)
      else do {
        (NewRoot, h2) \<leftarrow> OrderedCollectionInsert_loop a (hole_parent NULL D) (rbt_Root (rb_tree s Tree)) ?l;
        Some (NewRoot, set_Color NewRoot Black h2)
      }) = Some (rb_ptr t', h')"
    by (rule insert_heap [OF at place assms(5) a]) blast
  let ?s = "rb_update Tree (rb_ptr t') h' (s\<lparr>rb_live := a # rb_live s\<rparr>)"
  have col: "rb_collection ?s Tree t'"
    using insert_into_hole [OF assms(1) [unfolded t] assms(2) place r(1-4) assms(6)] .
  have "user_compare (rbt_UserStructCompare (rb_tree ?s Tree) (rb_memory ?s))" using assms(2) by (simp add: rb_update_def)
  then have "rb_validate env Tree ?s = Some ()" using rb_collection_validate [OF col] by blast
  then have "OrderedCollectionInsert env Tree u s = Some (EFI_SUCCESS, Some a, ?s)"
    using search r(6) assms(4,5)
    by (auto simp: OrderedCollectionInsert_def Let_def bind_eq_Some_conv split: if_splits)
  then show thesis using that col r t place by (auto simp: insert_place_def)
qed

end
