(* ===== verification/RbtDelete.thy ===== *)
theory RbtDelete
  imports RbtInsert
begin

text \<open>
  Deletion from the red-black tree: one round of the loop that moves the extra black up, the loop,
  the unlinking of a node, and the whole operation.
\<close>

section \<open>One round with a black sibling\<close>

text \<open>Exchanging the colours of parent and sibling, painting the outer nephew black, and rotating.\<close>

lemma rotate_left_flush:
  assumes at: "rb_at h (plug D (Node t (p, c) (Node a (s, cs) (Node b (v, cv) d)))) root"
  obtains root' h' where
    "RedBlackTreeRotateLeft p root (set_Color v Black (set_Color p Black (set_Color s (nd_Color (h p)) h))) = (root', h')"
    and "rb_at h' (plug D (Node (Node t (p, Black) a) (s, c) (Node b (v, Black) d))) root'"
    and "rb_keeps h (addrs (plug D (Node t (p, c) (Node a (s, cs) (Node b (v, cv) d))))) h'"
proof -
  let ?h1 = "set_Color s c h" and ?xs = "addrs (plug D (Node t (p, c) (Node a (s, cs) (Node b (v, cv) d))))"
  have "rb_at ?h1 (plug D (Node t (p, c) (Node a (s, c) (Node b (v, cv) d)))) root"
    using rb_at_paint(1) [of h "InRight t p c # D" a s cs "Node b (v, cv) d" root c] at by simp
  then have "rb_at (set_Color p Black ?h1) (plug D (Node t (p, Black) (Node a (s, c) (Node b (v, cv) d)))) root"
    by (rule rb_at_paint(1))
  then have at1: "rb_at (set_Color v Black (set_Color p Black ?h1)) (plug D (Node t (p, Black) (Node a (s, c) (Node b (v, Black) d)))) root"
    using rb_at_paint(1) [of _ "InRight a s c # InRight t p Black # D" b v cv d root Black] by simp
  have "rb_keeps h ?xs (set_Color v Black (set_Color p Black ?h1))" by (auto simp: rb_keeps_def rb_set_defs)
  moreover obtain root' h' where r: "RedBlackTreeRotateLeft p root (set_Color v Black (set_Color p Black ?h1)) = (root', h')"
    "rb_at h' (plug D (Node (Node t (p, Black) a) (s, c) (Node b (v, Black) d))) root'"
    "rb_keeps (set_Color v Black (set_Color p Black ?h1)) (addrs (plug D (Node t (p, Black) (Node a (s, c) (Node b (v, Black) d))))) h'"
    using at1 by (rule RedBlackTreeRotateLeft_step)
  ultimately show thesis using that rb_at_node(4) [OF at] by (auto intro: rb_keeps_trans)
qed

lemma rotate_right_flush:
  assumes at: "rb_at h (plug D (Node (Node (Node b (v, cv) d) (s, cs) a) (p, c) t)) root"
  obtains root' h' where
    "RedBlackTreeRotateRight p root (set_Color v Black (set_Color p Black (set_Color s (nd_Color (h p)) h))) = (root', h')"
    and "rb_at h' (plug D (Node (Node b (v, Black) d) (s, c) (Node a (p, Black) t))) root'"
    and "rb_keeps h (addrs (plug D (Node (Node (Node b (v, cv) d) (s, cs) a) (p, c) t))) h'"
proof -
  let ?h1 = "set_Color s c h" and ?xs = "addrs (plug D (Node (Node (Node b (v, cv) d) (s, cs) a) (p, c) t))"
  have "rb_at ?h1 (plug D (Node (Node (Node b (v, cv) d) (s, c) a) (p, c) t)) root"
    using rb_at_paint(1) [of h "InLeft p c t # D" "Node b (v, cv) d" s cs a root c] at by simp
  then have "rb_at (set_Color p Black ?h1) (plug D (Node (Node (Node b (v, cv) d) (s, c) a) (p, Black) t)) root"
    by (rule rb_at_paint(1))
  then have at1: "rb_at (set_Color v Black (set_Color p Black ?h1)) (plug D (Node (Node (Node b (v, Black) d) (s, c) a) (p, Black) t)) root"
    using rb_at_paint(1) [of _ "InLeft s c a # InLeft p Black t # D" b v cv d root Black] by simp
  have "rb_keeps h ?xs (set_Color v Black (set_Color p Black ?h1))" by (auto simp: rb_keeps_def rb_set_defs)
  moreover obtain root' h' where r: "RedBlackTreeRotateRight p root (set_Color v Black (set_Color p Black ?h1)) = (root', h')"
    "rb_at h' (plug D (Node (Node b (v, Black) d) (s, c) (Node a (p, Black) t))) root'"
    "rb_keeps (set_Color v Black (set_Color p Black ?h1)) (addrs (plug D (Node (Node (Node b (v, Black) d) (s, c) a) (p, Black) t))) h'"
    using at1 by (rule RedBlackTreeRotateRight_step)
  ultimately show thesis using that rb_at_node(4) [OF at] by (auto intro: rb_keeps_trans)
qed

text \<open>Both nephews are black: the extra black goes to the parent.\<close>

lemma Delete_left_black_up:
  assumes at: "rb_at h (plug D (Node t (p, c) (Node a (s, Black) b))) root" and "rb_color a = Black" "rb_color b = Black"
  obtains h' where "OrderedCollectionDelete_left_black s x p root h = Some (p, hole_parent NULL D, root, h')"
    and "rb_at h' (plug D (Node t (p, c) (Node a (s, Red) b))) root"
    and "rb_keeps h (addrs (plug D (Node t (p, c) (Node a (s, Black) b)))) h'"
proof -
  have at1: "rb_at h (plug (InRight t p c # D) (Node a (s, Black) b)) root" using at by simp
  note f = rb_at_node [OF at1]
  have "NodeIsNullOrBlack h (rb_ptr a)" "NodeIsNullOrBlack h (rb_ptr b)"
    using rb_at_color [of h "InLeft s Black b # InRight t p c # D" a] rb_at_color [of h "InRight a s Black # InRight t p c # D" b]
      at assms(2,3) by auto
  moreover have paint: "rb_at (set_Color s Red h) (plug D (Node t (p, c) (Node a (s, Red) b))) root"
    using rb_at_paint(1) [OF at1, of Red] by simp
  ultimately show thesis
    using that [OF _ paint] rb_at_paint(2) [OF at1, of Red] f rb_at_node(5) [OF paint]
    by (simp add: OrderedCollectionDelete_left_black_def ASSERT_def)
qed

lemma Delete_right_black_up:
  assumes at: "rb_at h (plug D (Node (Node b (s, Black) a) (p, c) t)) root" and "rb_color a = Black" "rb_color b = Black"
  obtains h' where "OrderedCollectionDelete_right_black s x p root h = Some (p, hole_parent NULL D, root, h')"
    and "rb_at h' (plug D (Node (Node b (s, Red) a) (p, c) t)) root"
    and "rb_keeps h (addrs (plug D (Node (Node b (s, Black) a) (p, c) t))) h'"
proof -
  have at1: "rb_at h (plug (InLeft p c t # D) (Node b (s, Black) a)) root" using at by simp
  note f = rb_at_node [OF at1]
  have "NodeIsNullOrBlack h (rb_ptr a)" "NodeIsNullOrBlack h (rb_ptr b)"
    using rb_at_color [of h "InLeft s Black a # InLeft p c t # D" b] rb_at_color [of h "InRight b s Black # InLeft p c t # D" a]
      at assms(2,3) by auto
  moreover have paint: "rb_at (set_Color s Red h) (plug D (Node (Node b (s, Red) a) (p, c) t)) root"
    using rb_at_paint(1) [OF at1, of Red] by simp
  ultimately show thesis
    using that [OF _ paint] rb_at_paint(2) [OF at1, of Red] f rb_at_node(5) [OF paint]
    by (simp add: OrderedCollectionDelete_right_black_def ASSERT_def)
qed

text \<open>The outer nephew is red.\<close>

lemma Delete_left_black_outer:
  assumes at: "rb_at h (plug D (Node t (p, c) (Node a (s, Black) (Node b (v, Red) d)))) root"
  obtains root' h' where "OrderedCollectionDelete_left_black s x p root h = Some (root', p, root', h')"
    and "rb_at h' (plug D (Node (Node t (p, Black) a) (s, c) (Node b (v, Black) d))) root'"
    and "rb_keeps h (addrs (plug D (Node t (p, c) (Node a (s, Black) (Node b (v, Red) d))))) h'"
proof -
  have at1: "rb_at h (plug (InRight t p c # D) (Node a (s, Black) (Node b (v, Red) d))) root"
    and at2: "rb_at h (plug (InRight a s Black # InRight t p c # D) (Node b (v, Red) d)) root" using at by simp_all
  note f = rb_at_node [OF at1] rb_at_node [OF at2]
  obtain root' h' where "RedBlackTreeRotateLeft p root (set_Color v Black (set_Color p Black (set_Color s (nd_Color (h p)) h))) = (root', h')"
    "rb_at h' (plug D (Node (Node t (p, Black) a) (s, c) (Node b (v, Black) d))) root'"
    "rb_keeps h (addrs (plug D (Node t (p, c) (Node a (s, Black) (Node b (v, Red) d))))) h'"
    by (rule rotate_left_flush [OF at])
  then show thesis
    using that f by (simp add: OrderedCollectionDelete_left_black_def ASSERT_def NodeIsNullOrBlack_def)
qed

lemma Delete_right_black_outer:
  assumes at: "rb_at h (plug D (Node (Node (Node b (v, Red) d) (s, Black) a) (p, c) t)) root"
  obtains root' h' where "OrderedCollectionDelete_right_black s x p root h = Some (root', p, root', h')"
    and "rb_at h' (plug D (Node (Node b (v, Black) d) (s, c) (Node a (p, Black) t))) root'"
    and "rb_keeps h (addrs (plug D (Node (Node (Node b (v, Red) d) (s, Black) a) (p, c) t))) h'"
proof -
  have at1: "rb_at h (plug (InLeft p c t # D) (Node (Node b (v, Red) d) (s, Black) a)) root"
    and at2: "rb_at h (plug (InLeft s Black a # InLeft p c t # D) (Node b (v, Red) d)) root" using at by simp_all
  note f = rb_at_node [OF at1] rb_at_node [OF at2]
  obtain root' h' where "RedBlackTreeRotateRight p root (set_Color v Black (set_Color p Black (set_Color s (nd_Color (h p)) h))) = (root', h')"
    "rb_at h' (plug D (Node (Node b (v, Black) d) (s, c) (Node a (p, Black) t))) root'"
    "rb_keeps h (addrs (plug D (Node (Node (Node b (v, Red) d) (s, Black) a) (p, c) t))) h'"
    by (rule rotate_right_flush [OF at])
  then show thesis
    using that f by (simp add: OrderedCollectionDelete_right_black_def ASSERT_def NodeIsNullOrBlack_def)
qed

text \<open>Only the inner nephew is red: a rotation at the sibling first.\<close>

lemma Delete_left_black_inner:
  assumes at: "rb_at h (plug D (Node t (p, c) (Node (Node a (v, Red) b) (s, Black) d))) root" and "rb_color d = Black"
  obtains root' h' where "OrderedCollectionDelete_left_black s x p root h = Some (root', p, root', h')"
    and "rb_at h' (plug D (Node (Node t (p, Black) a) (v, c) (Node b (s, Black) d))) root'"
    and "rb_keeps h (addrs (plug D (Node t (p, c) (Node (Node a (v, Red) b) (s, Black) d)))) h'"
proof -
  have at1: "rb_at h (plug (InRight t p c # D) (Node (Node a (v, Red) b) (s, Black) d)) root"
    and at2: "rb_at h (plug (InLeft s Black d # InRight t p c # D) (Node a (v, Red) b)) root" using at by simp_all
  note f = rb_at_node [OF at1] rb_at_node [OF at2]
  have d: "NodeIsNullOrBlack h (rb_ptr d)" "\<not> NodeIsNullOrBlack h v"
    using rb_at_color [of h "InRight (Node a (v, Red) b) s Black # InRight t p c # D" d] rb_at_color [OF at2] at assms(2) by auto
  obtain root1 h1 where r1: "RedBlackTreeRotateRight s root (set_Color s Red (set_Color v Black h)) = (root1, h1)"
    "rb_at h1 (plug (InRight t p c # D) (Node a (v, Black) (Node b (s, Red) d))) root1"
    "rb_keeps h (addrs (plug (InRight t p c # D) (Node (Node a (v, Red) b) (s, Black) d))) h1"
    by (rule rotate_right_recolored [OF at1])
  have at3: "rb_at h1 (plug D (Node t (p, c) (Node a (v, Black) (Node b (s, Red) d)))) root1"
    and at4: "rb_at h1 (plug (InRight a v Black # InRight t p c # D) (Node b (s, Red) d)) root1" using r1(2) by simp_all
  obtain root' h' where r': "RedBlackTreeRotateLeft p root1 (set_Color s Black (set_Color p Black (set_Color v (nd_Color (h1 p)) h1))) = (root', h')"
    "rb_at h' (plug D (Node (Node t (p, Black) a) (v, c) (Node b (s, Black) d))) root'"
    "rb_keeps h1 (addrs (plug D (Node t (p, c) (Node a (v, Black) (Node b (s, Red) d))))) h'"
    by (rule rotate_left_flush [OF at3])
  have "OrderedCollectionDelete_left_black s x p root h = Some (root', p, root', h')"
    using f d r1(1) r'(1) rb_at_node [OF r1(2)] rb_at_node [OF at3] rb_at_node [OF at4]
    by (simp add: OrderedCollectionDelete_left_black_def ASSERT_def)
  then show thesis using that r'(2) rb_keeps_trans [OF r1(3)] r'(3) by simp
qed

lemma Delete_right_black_inner:
  assumes at: "rb_at h (plug D (Node (Node d (s, Black) (Node a (v, Red) b)) (p, c) t)) root" and "rb_color d = Black"
  obtains root' h' where "OrderedCollectionDelete_right_black s x p root h = Some (root', p, root', h')"
    and "rb_at h' (plug D (Node (Node d (s, Black) a) (v, c) (Node b (p, Black) t))) root'"
    and "rb_keeps h (addrs (plug D (Node (Node d (s, Black) (Node a (v, Red) b)) (p, c) t))) h'"
proof -
  have at1: "rb_at h (plug (InLeft p c t # D) (Node d (s, Black) (Node a (v, Red) b))) root"
    and at2: "rb_at h (plug (InRight d s Black # InLeft p c t # D) (Node a (v, Red) b)) root" using at by simp_all
  note f = rb_at_node [OF at1] rb_at_node [OF at2]
  have d: "NodeIsNullOrBlack h (rb_ptr d)" "\<not> NodeIsNullOrBlack h v"
    using rb_at_color [of h "InLeft s Black (Node a (v, Red) b) # InLeft p c t # D" d] rb_at_color [OF at2] at assms(2) by auto
  obtain root1 h1 where r1: "RedBlackTreeRotateLeft s root (set_Color s Red (set_Color v Black h)) = (root1, h1)"
    "rb_at h1 (plug (InLeft p c t # D) (Node (Node d (s, Red) a) (v, Black) b)) root1"
    "rb_keeps h (addrs (plug (InLeft p c t # D) (Node d (s, Black) (Node a (v, Red) b)))) h1"
    by (rule rotate_left_recolored [OF at1])
  have at3: "rb_at h1 (plug D (Node (Node (Node d (s, Red) a) (v, Black) b) (p, c) t)) root1"
    and at4: "rb_at h1 (plug (InLeft v Black b # InLeft p c t # D) (Node d (s, Red) a)) root1" using r1(2) by simp_all
  obtain root' h' where r': "RedBlackTreeRotateRight p root1 (set_Color s Black (set_Color p Black (set_Color v (nd_Color (h1 p)) h1))) = (root', h')"
    "rb_at h' (plug D (Node (Node d (s, Black) a) (v, c) (Node b (p, Black) t))) root'"
    "rb_keeps h1 (addrs (plug D (Node (Node (Node d (s, Red) a) (v, Black) b) (p, c) t))) h'"
    by (rule rotate_right_flush [OF at3])
  have "OrderedCollectionDelete_right_black s x p root h = Some (root', p, root', h')"
    using f d r1(1) r'(1) rb_at_node [OF r1(2)] rb_at_node [OF at3] rb_at_node [OF at4]
    by (simp add: OrderedCollectionDelete_right_black_def ASSERT_def)
  then show thesis using that r'(2) rb_keeps_trans [OF r1(3)] r'(3) by simp
qed

section \<open>The loop\<close>

text \<open>
  The hole has one black node too few below it; a red node there will be painted black.  \<open>delete_level\<close> is what holds at a parent \<open>p\<close>
  with the colour \<open>c\<close> whose other subtree has the black sibling with the subtrees \<open>a\<close> and \<open>b\<close>.
\<close>

definition delete_pending :: "rb_frame list \<Rightarrow> rb_shape \<Rightarrow> bool" where
  "delete_pending C t \<longleftrightarrow> rb_colored (blacken t) \<and> context_colored C Black \<and> (\<exists>n. rb_height t n \<and> context_height C (Suc n))"

definition delete_level :: "rb_frame list \<Rightarrow> rb_shape \<Rightarrow> RED_BLACK_TREE_COLOR \<Rightarrow> rb_shape \<Rightarrow> rb_shape \<Rightarrow> nat \<Rightarrow> bool" where
  "delete_level D t c a b n \<longleftrightarrow> rb_colored t \<and> rb_color t = Black \<and> rb_colored a \<and> rb_colored b \<and>
     rb_height t n \<and> rb_height a n \<and> rb_height b n \<and> context_colored D c \<and> context_height D (Suc n + black_count c)"

text \<open>The result of the loop, painted black at \<open>Child\<close> as the code does after it.\<close>

definition delete_fixed :: "rb_heap \<Rightarrow> u64 list \<Rightarrow> (u64 \<times> u64 \<times> rb_heap) option \<Rightarrow> bool" where
  "delete_fixed h xs res \<longleftrightarrow> (\<exists>Child root' h' t'. res = Some (Child, root', h') \<and>
     (let h2 = (if Child \<noteq> NULL then set_Color Child Black h' else h')
      in rb_at h2 t' root' \<and> addrs t' = xs \<and> rb_keeps h xs h2 \<and> rb_balanced t'))"

lemma delete_fixed_trans: "rb_keeps h xs h1 \<Longrightarrow> delete_fixed h1 xs res \<Longrightarrow> delete_fixed h xs res"
  unfolding delete_fixed_def Let_def using rb_keeps_trans by blast

lemma Delete_loop_stop:
  "x = root \<or> \<not> NodeIsNullOrBlack h x \<Longrightarrow> OrderedCollectionDelete_loop x p root h = Some (x, root, h)"
  by (subst OrderedCollectionDelete_loop.simps) auto

text \<open>Three ways to stop: at a red node, at the root, and after the last rotation.\<close>

lemma delete_stop_red:
  assumes at: "rb_at h (plug C (Node a (x, Red) b)) root" and "delete_pending C (Node a (x, Red) b)"
  shows "delete_fixed h (addrs (plug C (Node a (x, Red) b))) (OrderedCollectionDelete_loop x p root h)"
proof -
  have "\<not> NodeIsNullOrBlack h x" using rb_at_node [OF at] by (simp add: NodeIsNullOrBlack_def)
  then have "OrderedCollectionDelete_loop x p root h = Some (x, root, h)" by (simp add: Delete_loop_stop)
  moreover obtain n where "rb_height a n" "rb_height b n" "context_height C (Suc n)"
    using assms(2) by (auto simp: delete_pending_def)
  then have "rb_balanced (plug C (Node a (x, Black) b))"
    using assms(2) by (auto simp: delete_pending_def rb_balanced_plug intro!: exI [of _ "Suc n"])
  ultimately show ?thesis
    using rb_at_paint [OF at, of Black] rb_at_node(1) [OF at] by (fastforce simp: delete_fixed_def)
qed

lemma rb_at_paint_root:
  assumes "rb_at h t root"
  shows "rb_at (if root \<noteq> NULL then set_Color root Black h else h) (blacken t) root"
    and "rb_keeps h (addrs t) (if root \<noteq> NULL then set_Color root Black h else h)"
proof -
  consider "t = Leaf" "root = NULL" | l c r where "t = Node l (root, c) r" "root \<noteq> NULL"
    using assms by (cases t rule: rb_ptr.cases) (auto simp: rb_at_def)
  then have "rb_at (if root \<noteq> NULL then set_Color root Black h else h) (blacken t) root \<and>
      rb_keeps h (addrs t) (if root \<noteq> NULL then set_Color root Black h else h)"
    using assms rb_at_paint [of h "[]"] by cases auto
  then show "rb_at (if root \<noteq> NULL then set_Color root Black h else h) (blacken t) root"
    and "rb_keeps h (addrs t) (if root \<noteq> NULL then set_Color root Black h else h)" by simp_all
qed

lemma delete_stop_root:
  assumes "rb_at h t root" and "rb_balanced (blacken t)"
  shows "delete_fixed h (addrs t) (OrderedCollectionDelete_loop root p root h)"
  unfolding delete_fixed_def Let_def using Delete_loop_stop [of root root h p] rb_at_paint_root [OF assms(1)] assms(2)
  by (intro exI [of _ root] exI [of _ h] exI [of _ "blacken t"]) simp

text \<open>A black sibling on either side.\<close>

lemma rb_color_cases: "rb_color t = Black \<or> (\<exists>d v e. t = Node d (v, Red) e)"
  by (cases t rule: rb_color.cases) auto

lemma Delete_left_black_cases [consumes 2, case_names up flushed]:
  assumes at: "rb_at h (plug D (Node t (p, c) (Node a (s, Black) b))) root" and lv: "delete_level D t c a b n"
  obtains (up) h' where "OrderedCollectionDelete_left_black s x p root h = Some (p, hole_parent NULL D, root, h')"
      and "rb_at h' (plug D (Node t (p, c) (Node a (s, Red) b))) root"
      and "rb_keeps h (addrs (plug D (Node t (p, c) (Node a (s, Black) b)))) h'"
      and "rb_colored (Node a (s, Red) b)"
  | (flushed) root' h' t' where "OrderedCollectionDelete_left_black s x p root h = Some (root', p, root', h')"
      and "rb_at h' t' root'" and "addrs t' = addrs (plug D (Node t (p, c) (Node a (s, Black) b)))"
      and "rb_keeps h (addrs (plug D (Node t (p, c) (Node a (s, Black) b)))) h'" and "rb_balanced t'"
proof -
  consider "rb_color a = Black" "rb_color b = Black" | d v e where "b = Node d (v, Red) e"
    | d v e where "a = Node d (v, Red) e" "rb_color b = Black"
    using rb_color_cases [of a] rb_color_cases [of b] by blast
  then show thesis
  proof cases
    case 1
    with at show thesis by (rule Delete_left_black_up) (use 1 lv in \<open>auto intro: up simp: delete_level_def\<close>)
  next
    case (2 d v e)
    show thesis
      by (rule Delete_left_black_outer [OF at [unfolded 2]], rule flushed)
        (use lv in \<open>auto simp: 2 delete_level_def rb_balanced_plug intro!: exI [of _ "Suc n + black_count c"]\<close>)
  next
    case (3 d v e)
    show thesis
      by (rule Delete_left_black_inner [OF at [unfolded 3(1)] 3(2)], rule flushed)
        (use lv in \<open>auto simp: 3 delete_level_def rb_balanced_plug intro!: exI [of _ "Suc n + black_count c"]\<close>)
  qed
qed

lemma Delete_right_black_cases [consumes 2, case_names up flushed]:
  assumes at: "rb_at h (plug D (Node (Node b (s, Black) a) (p, c) t)) root" and lv: "delete_level D t c a b n"
  obtains (up) h' where "OrderedCollectionDelete_right_black s x p root h = Some (p, hole_parent NULL D, root, h')"
      and "rb_at h' (plug D (Node (Node b (s, Red) a) (p, c) t)) root"
      and "rb_keeps h (addrs (plug D (Node (Node b (s, Black) a) (p, c) t))) h'"
      and "rb_colored (Node b (s, Red) a)"
  | (flushed) root' h' t' where "OrderedCollectionDelete_right_black s x p root h = Some (root', p, root', h')"
      and "rb_at h' t' root'" and "addrs t' = addrs (plug D (Node (Node b (s, Black) a) (p, c) t))"
      and "rb_keeps h (addrs (plug D (Node (Node b (s, Black) a) (p, c) t))) h'" and "rb_balanced t'"
proof -
  consider "rb_color a = Black" "rb_color b = Black" | d v e where "b = Node d (v, Red) e"
    | d v e where "a = Node d (v, Red) e" "rb_color b = Black"
    using rb_color_cases [of a] rb_color_cases [of b] by blast
  then show thesis
  proof cases
    case 1
    with at show thesis by (rule Delete_right_black_up) (use 1 lv in \<open>auto intro: up simp: delete_level_def\<close>)
  next
    case (2 d v e)
    show thesis
      by (rule Delete_right_black_outer [OF at [unfolded 2]], rule flushed)
        (use lv in \<open>auto simp: 2 delete_level_def rb_balanced_plug intro!: exI [of _ "Suc n + black_count c"]\<close>)
  next
    case (3 d v e)
    show thesis
      by (rule Delete_right_black_inner [OF at [unfolded 3(1)] 3(2)], rule flushed)
        (use lv in \<open>auto simp: 3 delete_level_def rb_balanced_plug intro!: exI [of _ "Suc n + black_count c"]\<close>)
  qed
qed

text \<open>
  A whole round.  It either ends the loop, or it moves the extra black to the parent; after a red
  sibling the parent is red, which ends the loop as well.
\<close>

lemma Delete_loop_left:
  assumes at: "rb_at h (plug D (Node t (p, c) u)) root" and "rb_color t = Black"
    and "OrderedCollectionDelete_left (rb_ptr t) p root h = Some (x', p', root', h')"
  shows "OrderedCollectionDelete_loop (rb_ptr t) p root h = OrderedCollectionDelete_loop x' p' root' h'"
proof -
  have at1: "rb_at h (plug (InLeft p c u # D) t) root" using at by simp
  have "rb_ptr t \<noteq> root" using rb_at_is_root [OF at1] rb_at_root_nonnull [OF at1] by simp
  then show ?thesis
    using assms(2,3) rb_at_color [OF at1] rb_at_node(2) [OF at] by (subst OrderedCollectionDelete_loop.simps) simp
qed

lemma Delete_loop_right:
  assumes at: "rb_at h (plug D (Node u (p, c) t)) root" and "rb_color t = Black" and "u \<noteq> Leaf"
    and "OrderedCollectionDelete_right (rb_ptr t) p root h = Some (x', p', root', h')"
  shows "OrderedCollectionDelete_loop (rb_ptr t) p root h = OrderedCollectionDelete_loop x' p' root' h'"
proof -
  have at1: "rb_at h (plug (InRight u p c # D) t) root" using at by simp
  have "rb_ptr t \<noteq> root" using rb_at_is_root [OF at1] rb_at_root_nonnull [OF at1] by simp
  moreover have "rb_ptr t \<noteq> rb_ptr u"
    using at assms(3) rb_ptr_in [of u] rb_ptr_in [of t] by (cases "t = Leaf") (auto simp: rb_at_def)
  ultimately show ?thesis
    using assms(2,4) rb_at_color [OF at1] rb_at_node(2) [OF at] by (subst OrderedCollectionDelete_loop.simps) simp
qed

lemma delete_level_pending:
  assumes "delete_level D t c a b n"
  shows "rb_colored (Node a (s, Red) b) \<Longrightarrow> delete_pending D (Node t (p, c) (Node a (s, Red) b))"
    and "rb_colored (Node b (s, Red) a) \<Longrightarrow> delete_pending D (Node (Node b (s, Red) a) (p, c) t)"
  using assms context_colored_Black [of D c]
  by (auto simp: delete_level_def delete_pending_def intro!: exI [of _ "n + black_count c"])

lemma delete_left_black_fixed:
  assumes at: "rb_at h (plug D (Node t (p, c) (Node a (s, Black) b))) root" and lv: "delete_level D t c a b n"
    and left: "OrderedCollectionDelete_left_black s x p root h = Some (x', p', root', h')"
    and up: "\<And>h. rb_at h (plug D (Node t (p, c) (Node a (s, Red) b))) root \<Longrightarrow>
       delete_pending D (Node t (p, c) (Node a (s, Red) b)) \<Longrightarrow>
       delete_fixed h (addrs (plug D (Node t (p, c) (Node a (s, Red) b))))
         (OrderedCollectionDelete_loop p (hole_parent NULL D) root h)"
  shows "delete_fixed h (addrs (plug D (Node t (p, c) (Node a (s, Black) b)))) (OrderedCollectionDelete_loop x' p' root' h')"
  using at lv
proof (cases rule: Delete_left_black_cases [where x = x])
  case (up h1)
  then show ?thesis
    using left assms(4) [OF up(2)] delete_level_pending(1) [OF lv up(4)] delete_fixed_trans [OF up(3)] by auto
next
  case (flushed root1 h1 t1)
  then show ?thesis
    using left delete_stop_root [OF flushed(2)] delete_fixed_trans [OF flushed(4)] by (auto simp: rb_balanced_def)
qed

lemma delete_right_black_fixed:
  assumes at: "rb_at h (plug D (Node (Node b (s, Black) a) (p, c) t)) root" and lv: "delete_level D t c a b n"
    and right: "OrderedCollectionDelete_right_black s x p root h = Some (x', p', root', h')"
    and up: "\<And>h. rb_at h (plug D (Node (Node b (s, Red) a) (p, c) t)) root \<Longrightarrow>
       delete_pending D (Node (Node b (s, Red) a) (p, c) t) \<Longrightarrow>
       delete_fixed h (addrs (plug D (Node (Node b (s, Red) a) (p, c) t)))
         (OrderedCollectionDelete_loop p (hole_parent NULL D) root h)"
  shows "delete_fixed h (addrs (plug D (Node (Node b (s, Black) a) (p, c) t))) (OrderedCollectionDelete_loop x' p' root' h')"
  using at lv
proof (cases rule: Delete_right_black_cases [where x = x])
  case (up h1)
  then show ?thesis
    using right assms(4) [OF up(2)] delete_level_pending(2) [OF lv up(4)] delete_fixed_trans [OF up(3)] by auto
next
  case (flushed root1 h1 t1)
  then show ?thesis
    using right delete_stop_root [OF flushed(2)] delete_fixed_trans [OF flushed(4)] by (auto simp: rb_balanced_def)
qed

text \<open>The round on either side; \<open>D\<close> is the context of the parent.\<close>

lemma Delete_left_black_total:
  assumes "rb_at h (plug D (Node t (p, c) (Node a (s, Black) b))) root" and "delete_level D t c a b n"
  obtains x' p' root' h' where "OrderedCollectionDelete_left_black s x p root h = Some (x', p', root', h')"
  using assms by (cases rule: Delete_left_black_cases [where x = x]) (rule that; assumption)+

lemma Delete_right_black_total:
  assumes "rb_at h (plug D (Node (Node b (s, Black) a) (p, c) t)) root" and "delete_level D t c a b n"
  obtains x' p' root' h' where "OrderedCollectionDelete_right_black s x p root h = Some (x', p', root', h')"
  using assms by (cases rule: Delete_right_black_cases [where x = x]) (rule that; assumption)+

lemma delete_left_fixed:
  assumes at: "rb_at h (plug D (Node t (p, c) u)) root" and pend: "delete_pending (InLeft p c u # D) t" and t: "rb_color t = Black"
    and IH: "\<And>u' h. rb_at h (plug D (Node t (p, c) u')) root \<Longrightarrow> delete_pending D (Node t (p, c) u') \<Longrightarrow>
       delete_fixed h (addrs (plug D (Node t (p, c) u'))) (OrderedCollectionDelete_loop p (hole_parent NULL D) root h)"
  shows "delete_fixed h (addrs (plug D (Node t (p, c) u))) (OrderedCollectionDelete_loop (rb_ptr t) p root h)"
proof -
  obtain n where n: "rb_height t n" "rb_height u (Suc n)" "context_height D (Suc n + black_count c)"
    using pend by (auto simp: delete_pending_def)
  have col: "rb_colored t" "rb_colored u" "context_colored D c" "c = Red \<Longrightarrow> rb_color u = Black"
    using pend t by (auto simp: delete_pending_def)
  obtain a s cs b where u: "u = Node a (s, cs) b" using n(2) by (cases u rule: rb_ptr.cases) auto
  have atu: "rb_at h (plug (InRight t p c # D) (Node a (s, cs) b)) root" using at u by simp
  show ?thesis
  proof (cases cs)
    case RedBlackTreeBlack
    then have at': "rb_at h (plug D (Node t (p, c) (Node a (s, Black) b))) root" and lv: "delete_level D t c a b n"
      using at u n col t by (auto simp: delete_level_def)
    obtain x' p' root' h' where bl: "OrderedCollectionDelete_left_black s (rb_ptr t) p root h = Some (x', p', root', h')"
      using Delete_left_black_total [OF at' lv] .
    then have "OrderedCollectionDelete_left (rb_ptr t) p root h = Some (x', p', root', h')"
      using rb_at_node [OF atu] rb_at_node(3) [OF at] u RedBlackTreeBlack
      by (simp add: OrderedCollectionDelete_left_def ASSERT_def)
    then show ?thesis
      using Delete_loop_left [OF at t] delete_left_black_fixed [OF at' lv bl IH] u RedBlackTreeBlack by simp
  next
    case RedBlackTreeRed
    then have c: "c = Black" and ab: "rb_color a = Black" "rb_color b = Black" "rb_height a (Suc n)" "rb_height b (Suc n)"
      using col u n by (cases c; auto)+
    then obtain d v e where a: "a = Node d (v, Black) e" by (cases a rule: rb_ptr.cases) auto
    obtain root1 h1 where r: "RedBlackTreeRotateLeft p root (set_Color p Red (set_Color s Black h)) = (root1, h1)"
      "rb_at h1 (plug D (Node (Node t (p, Red) a) (s, Black) b)) root1" "rb_keeps h (addrs (plug D (Node t (p, c) u))) h1"
      using at unfolding u by (rule rotate_left_recolored)
    have at': "rb_at h1 (plug (InLeft s Black b # D) (Node t (p, Red) (Node d (v, Black) e))) root1" using r(2) a by simp
    have lv: "delete_level (InLeft s Black b # D) t Red d e n"
      using n col u ab a c RedBlackTreeRed t by (auto simp: delete_level_def)
    obtain x' p' root' h' where bl: "OrderedCollectionDelete_left_black v (rb_ptr t) p root1 h1 = Some (x', p', root', h')"
      using Delete_left_black_total [OF at' lv] .
    have v: "v \<noteq> NULL" using at' by (auto simp: rb_at_def)
    have "OrderedCollectionDelete_left (rb_ptr t) p root h = Some (x', p', root', h')"
      using rb_at_node [OF atu] rb_at_node(3) [OF at] rb_at_node(3) [OF at'] u RedBlackTreeRed r(1) bl v
      by (simp add: OrderedCollectionDelete_left_def ASSERT_def)
    moreover have "delete_fixed h1 (addrs (plug D (Node t (p, c) u))) (OrderedCollectionDelete_loop x' p' root' h')"
      using delete_left_black_fixed [OF at' lv bl delete_stop_red] a u by simp
    ultimately show ?thesis using Delete_loop_left [OF at t] delete_fixed_trans [OF r(3)] by simp
  qed
qed

lemma delete_right_fixed:
  assumes at: "rb_at h (plug D (Node u (p, c) t)) root" and pend: "delete_pending (InRight u p c # D) t" and t: "rb_color t = Black"
    and IH: "\<And>u' h. rb_at h (plug D (Node u' (p, c) t)) root \<Longrightarrow> delete_pending D (Node u' (p, c) t) \<Longrightarrow>
       delete_fixed h (addrs (plug D (Node u' (p, c) t))) (OrderedCollectionDelete_loop p (hole_parent NULL D) root h)"
  shows "delete_fixed h (addrs (plug D (Node u (p, c) t))) (OrderedCollectionDelete_loop (rb_ptr t) p root h)"
proof -
  obtain n where n: "rb_height t n" "rb_height u (Suc n)" "context_height D (Suc n + black_count c)"
    using pend by (auto simp: delete_pending_def)
  have col: "rb_colored t" "rb_colored u" "context_colored D c" "c = Red \<Longrightarrow> rb_color u = Black"
    using pend t by (auto simp: delete_pending_def)
  obtain a s cs b where u: "u = Node b (s, cs) a" using n(2) by (cases u rule: rb_ptr.cases) auto
  have atu: "rb_at h (plug (InLeft p c t # D) (Node b (s, cs) a)) root" using at u by simp
  have leaf: "u \<noteq> Leaf" using u by simp
  show ?thesis
  proof (cases cs)
    case RedBlackTreeBlack
    then have at': "rb_at h (plug D (Node (Node b (s, Black) a) (p, c) t)) root" and lv: "delete_level D t c a b n"
      using at u n col t by (auto simp: delete_level_def)
    obtain x' p' root' h' where bl: "OrderedCollectionDelete_right_black s (rb_ptr t) p root h = Some (x', p', root', h')"
      using Delete_right_black_total [OF at' lv] .
    then have "OrderedCollectionDelete_right (rb_ptr t) p root h = Some (x', p', root', h')"
      using rb_at_node [OF atu] rb_at_node(2) [OF at] u RedBlackTreeBlack
      by (simp add: OrderedCollectionDelete_right_def ASSERT_def)
    then show ?thesis
      using Delete_loop_right [OF at t leaf] delete_right_black_fixed [OF at' lv bl IH] u RedBlackTreeBlack by simp
  next
    case RedBlackTreeRed
    then have c: "c = Black" and ab: "rb_color a = Black" "rb_color b = Black" "rb_height a (Suc n)" "rb_height b (Suc n)"
      using col u n by (cases c; auto)+
    then obtain d v e where a: "a = Node e (v, Black) d" by (cases a rule: rb_ptr.cases) auto
    obtain root1 h1 where r: "RedBlackTreeRotateRight p root (set_Color p Red (set_Color s Black h)) = (root1, h1)"
      "rb_at h1 (plug D (Node b (s, Black) (Node a (p, Red) t))) root1" "rb_keeps h (addrs (plug D (Node u (p, c) t))) h1"
      using at unfolding u by (rule rotate_right_recolored)
    have at': "rb_at h1 (plug (InRight b s Black # D) (Node (Node e (v, Black) d) (p, Red) t)) root1" using r(2) a by simp
    have lv: "delete_level (InRight b s Black # D) t Red d e n"
      using n col u ab a c RedBlackTreeRed t by (auto simp: delete_level_def)
    obtain x' p' root' h' where bl: "OrderedCollectionDelete_right_black v (rb_ptr t) p root1 h1 = Some (x', p', root', h')"
      using Delete_right_black_total [OF at' lv] .
    have v: "v \<noteq> NULL" using at' by (auto simp: rb_at_def)
    have "OrderedCollectionDelete_right (rb_ptr t) p root h = Some (x', p', root', h')"
      using rb_at_node [OF atu] rb_at_node(2) [OF at] rb_at_node(2) [OF at'] u RedBlackTreeRed r(1) bl v
      by (simp add: OrderedCollectionDelete_right_def ASSERT_def)
    moreover have "delete_fixed h1 (addrs (plug D (Node u (p, c) t))) (OrderedCollectionDelete_loop x' p' root' h')"
      using delete_right_black_fixed [OF at' lv bl delete_stop_red] a u by simp
    ultimately show ?thesis using Delete_loop_right [OF at t leaf] delete_fixed_trans [OF r(3)] by simp
  qed
qed

lemma rb_balanced_blackenI: "rb_colored (blacken t) \<Longrightarrow> rb_height t n \<Longrightarrow> rb_balanced (blacken t)"
  using rb_height_blacken [of t n] by (cases t rule: rb_ptr.cases) (auto simp: rb_balanced_def)

lemma delete_loop_fixed:
  assumes "rb_at h (plug C t) root" and "delete_pending C t"
  shows "delete_fixed h (addrs (plug C t)) (OrderedCollectionDelete_loop (rb_ptr t) (hole_parent NULL C) root h)"
  using assms
proof (induction C arbitrary: t h root)
  case Nil
  then have "rb_at h t root" "rb_balanced (blacken t)" "rb_ptr t = root"
    using rb_balanced_blackenI [of t] by (auto simp: delete_pending_def rb_at_def)
  then show ?case using delete_stop_root by simp
next
  case (Cons f D)
  show ?case
  proof (cases "rb_color t = Red")
    case True
    then obtain a x b where "t = Node a (x, Red) b" by (cases t rule: rb_ptr.cases) auto
    then show ?thesis using delete_stop_red [of h "f # D" a x b root] Cons.prems by simp
  next
    case False
    then have t: "rb_color t = Black" by simp
    show ?thesis
    proof (cases f)
      case (InLeft p c u)
      show ?thesis
        using delete_left_fixed [of h D t p c u root] Cons.prems Cons.IH [of _ "Node t (p, c) _"] t by (simp add: InLeft)
    next
      case (InRight u p c)
      show ?thesis
        using delete_right_fixed [of h D u p c t root] Cons.prems Cons.IH [of _ "Node _ (p, c) t"] t by (simp add: InRight)
    qed
  qed
qed

section \<open>Unlinking\<close>

lemma Delete_single_step:
  assumes at: "rb_at h (plug C (Node l (x, c) r)) root" and leaf: "l = Leaf \<or> r = Leaf"
  defines "t \<equiv> if l = Leaf then r else l"
  obtains root' h' where "OrderedCollectionDelete_single x root h = (rb_ptr t, hole_parent NULL C, c, root', h')"
    and "rb_at h' (plug C t) root'" and "rb_keeps h (addrs (plug C (Node l (x, c) r))) h'"
proof -
  let ?p = "hole_parent NULL C"
  define h1 where "h1 = reparent t ?p h"
  have t: "linked h x t" "distinct (addrs t)" "set (addrs t) \<inter> (set (before C) \<union> set (after C)) = {}" "x \<notin> set (addrs t)"
    using at leaf by (auto simp: rb_at_def t_def)
  have C: "linked_context h1 NULL C x" "x \<notin> set (before C)" "x \<notin> set (after C)" "distinct (before C @ after C)" "x \<noteq> NULL"
    using at t(3) by (auto simp: rb_at_def h1_def)
  have child: "(if nd_Left (h x) \<noteq> NULL then nd_Left (h x) else nd_Right (h x)) = rb_ptr t"
    using at leaf by (auto simp: rb_at_def t_def)
  have "OrderedCollectionDelete_single x root h = (rb_ptr t, ?p, c, top_ptr C (rb_ptr t), set_hole C (rb_ptr t) h1)"
    unfolding OrderedCollectionDelete_single_def Let_def child rb_at_node(4,5) [OF at] reparent_def [symmetric] h1_def [symmetric]
    using rb_replace_child_eq [OF C(1,5,2,3)] rb_at_node(6) [OF at] by simp
  moreover have "rb_at (set_hole C (rb_ptr t) h1) (plug C t) (top_ptr C (rb_ptr t))"
    using linked_context_set_hole [OF C(1,4), of "rb_ptr t"] linked_reparent [OF t(1,2), of ?p] t(2,3) C(4)
    by (auto simp: rb_at_def h1_def)
  moreover have "rb_keeps h (addrs (plug C (Node l (x, c) r))) (set_hole C (rb_ptr t) h1)"
    by (auto simp: rb_keeps_def h1_def t_def)
  ultimately show thesis by (rule that)
qed

lemma top_ptr_nonempty: "F \<noteq> [] \<Longrightarrow> top_ptr F a = top_ptr F b"
  by (cases F) simp_all

lemma set_hole_left: "before F = [] \<Longrightarrow> F \<noteq> [] \<Longrightarrow> set_hole F b h = set_Left (hole_parent p F) b h"
  by (cases F rule: before.cases) auto

lemma Delete_successor_step:
  assumes r: "linked h x r" "distinct (addrs r)" "r \<noteq> Leaf"
  obtains F m cm rr h' where "r = plug F (Node Leaf (m, cm) rr)" and "before F = []"
    and "OrderedCollectionDelete_successor (rb_ptr r) h = Some (m, hole_parent m F, rb_ptr rr, h')"
    and "linked h' m (plug F rr)" and "nd_Right (h' m) = rb_ptr (plug F rr)" and "nd_Color (h' m) = cm"
    and "\<And>z. z \<notin> set (addrs r) \<Longrightarrow> h' z = h z" and "\<And>z. nd_UserStruct (h' z) = nd_UserStruct (h z)"
proof -
  obtain m ys where "addrs r = [] @ m # ys" using r(3) by (cases "addrs r") auto
  then obtain F l cm rr where "r = plug F (Node l (m, cm) rr)" "[] = before F @ addrs l" by (rule addrs_split)
  then have rF: "r = plug F (Node Leaf (m, cm) rr)" "before F = []" by auto
  have lm: "rb_leftmost h (rb_ptr r) = Some m" using rb_leftmost_eq [OF r(1,3)] rF by simp
  have rp: "rb_ptr r \<noteq> NULL" using r by simp
  show thesis
  proof (cases "F = []")
    case True
    then have "OrderedCollectionDelete_successor (rb_ptr r) h = Some (m, hole_parent m F, rb_ptr rr, h)"
      using r(1) rF by (auto simp: OrderedCollectionDelete_successor_def)
    then show thesis by (rule that [OF rF]) (use r(1) rF True in auto)
  next
    case False
    let ?p = "hole_parent x F"
    define h2 where "h2 = reparent rr ?p (set_Left ?p (rb_ptr rr) h)"
    define h' where "h' = set_Parent (rb_ptr r) m (set_Right m (rb_ptr r) h2)"
    have m: "nd_Parent (h m) = ?p" "nd_Right (h m) = rb_ptr rr" "m \<notin> set (after F)" "m \<notin> set (addrs rr)" "linked h m rr"
      "linked_context h x F m" "set (addrs rr) \<inter> set (after F) = {}" "distinct (addrs rr)" "distinct (after F)" "nd_Color (h m) = cm"
      using r rF by auto
    have ptr: "rb_ptr r = rb_ptr (plug F rr)" using rF top_ptr_nonempty [OF False] by simp
    have p: "?p \<in> set (after F)" using False rF(2) by (cases F rule: before.cases) auto
    then have p2: "?p \<notin> set (addrs rr)" using m(7) by blast
    have left: "nd_Left (h (rb_ptr r)) \<noteq> NULL"
      using lm rb_leftmost.simps [of h "rb_ptr r"] ptr m(3) top_ptr_in [OF False, of "rb_ptr rr"] rF(2) by auto
    then have "rb_leftmost h (nd_Left (h (rb_ptr r))) = Some m" using lm rb_leftmost.simps [of h "rb_ptr r"] by simp
    then have "OrderedCollectionDelete_successor (rb_ptr r) h = Some (m, ?p, rb_ptr rr, h')"
      using left m(1,2) by (simp add: OrderedCollectionDelete_successor_def Let_def reparent_def h'_def h2_def)
    moreover have "linked h2 ?p rr" unfolding h2_def
      by (rule linked_reparent [of _ m]) (use m p2 in \<open>auto simp: rb_set_defs\<close>)
    moreover have "linked_context h2 x F (rb_ptr rr)"
      unfolding h2_def set_hole_left [OF rF(2) False, symmetric] using linked_context_set_hole [OF m(6)] m(7,9) rF(2) by simp
    ultimately have "linked (set_Right m (rb_ptr r) h2) x (plug F rr)" using m rF(2) by (simp add: set_Right_def)
    then have "linked (reparent (plug F rr) m (set_Right m (rb_ptr r) h2)) m (plug F rr)"
      by (rule linked_reparent) (use m rF(2) in auto)
    then have "linked h' m (plug F rr)" using rp ptr by (simp add: reparent_def h'_def)
    moreover have "hole_parent m F = ?p" using False by (cases F) auto
    moreover have "nd_Right (h' m) = rb_ptr (plug F rr)" "nd_Color (h' m) = cm"
      using ptr m p by (auto simp: h'_def h2_def rb_set_defs)
    moreover have "h' z = h z" if "z \<notin> set (addrs r)" for z
      using that p rb_ptr_in [OF r(3)] rF by (auto simp: h'_def h2_def rb_set_defs)
    ultimately show thesis
      using \<open>OrderedCollectionDelete_successor _ _ = _\<close>
      by (intro that [OF rF, of h']) (auto simp: h'_def h2_def rb_set_defs)
  qed
qed

text \<open>
  The successor \<open>m\<close> takes the place of \<open>x\<close>: \<open>h2\<close> is the heap with \<open>m\<close> out of the right
  subtree, whose rest is \<open>R\<close>.
\<close>

lemma relink_successor:
  assumes at: "rb_at h (plug C (Node l (x, c) r)) root"
    and h2: "linked h2 m R" "nd_Right (h2 m) = rb_ptr R" "\<And>z. z \<notin> set (addrs r) \<Longrightarrow> h2 z = h z"
    and m: "m \<in> set (addrs r)" "m \<notin> set (addrs R)" "m \<noteq> NULL" "set (addrs R) \<subseteq> set (addrs r)" "distinct (addrs R)"
  defines "h3 \<equiv> reparent l m (set_Left m (rb_ptr l) h2)"
  defines "h4 \<equiv> set_Parent m (hole_parent NULL C) (set_Color m c h3)"
  shows "linked_context h4 NULL C x" and "nd_Color (h3 m) = nd_Color (h2 m)" and "nd_Color (h3 x) = c"
    and "rb_at (set_hole C m h4) (plug C (Node l (m, c) R)) (top_ptr C m)"
proof -
  have d: "set (addrs l) \<inter> set (addrs r) = {}" "x \<notin> set (addrs l)" "x \<notin> set (addrs r)" "distinct (addrs l)"
    "set (addrs r) \<inter> (set (before C) \<union> set (after C)) = {}" "set (addrs l) \<inter> (set (before C) \<union> set (after C)) = {}"
    "distinct (before C @ after C)" "linked_context h NULL C x" "linked h x l" "nd_Color (h x) = c"
    using at by (auto simp: rb_at_def)
  have ml: "m \<notin> set (addrs l)" "m \<notin> set (before C)" "m \<notin> set (after C)" "x \<noteq> m" "set (addrs R) \<inter> set (addrs l) = {}"
    "set (addrs R) \<inter> (set (before C) \<union> set (after C)) = {}" using d m(1,4) by blast+
  have h4: "h4 z = h z" if "z \<notin> set (addrs l)" "z \<notin> set (addrs r)" for z
  proof -
    have "z \<noteq> m" using that m(1) by blast
    then show ?thesis using that h2(3) [of z] by (simp add: h4_def h3_def rb_set_defs)
  qed
  have "h4 z = h z" if "z \<in> set (before C) \<union> set (after C)" for z by (rule h4) (use that d(5,6) in blast)+
  then show C4: "linked_context h4 NULL C x" using linked_context_cong [of C h4 h NULL x] d(8) by blast
  show "nd_Color (h3 m) = nd_Color (h2 m)" using ml(1) by (simp add: h3_def rb_set_defs)
  show "nd_Color (h3 x) = c" using h2(3) [OF d(3)] d(2,10) ml(4) by (simp add: h3_def rb_set_defs)
  have "linked h2 x l" using d(9) linked_cong [of l h2 h x] h2(3) d(1) by blast
  then have "linked h3 m l"
    unfolding h3_def by (intro linked_reparent [of _ x]) (use d(4) ml(1) in \<open>simp_all add: rb_set_defs\<close>)
  then have "linked (set_hole C m h4) m l" using ml(1) d(6) by (simp add: h4_def rb_set_defs)
  moreover have "linked (set_hole C m h4) m R"
    using h2(1) m(2) ml(5,6) by (simp add: h4_def h3_def rb_set_defs)
  moreover have "nd_Right (set_hole C m h4 m) = rb_ptr R" "nd_Left (set_hole C m h4 m) = rb_ptr l"
    "nd_Parent (set_hole C m h4 m) = hole_parent NULL C" "nd_Color (set_hole C m h4 m) = c"
    using h2(2) ml by (simp_all add: h4_def h3_def rb_set_defs)
  moreover have "distinct (addrs (plug C (Node l (m, c) R)))" using d(4-7) m(2,5) ml by auto
  ultimately show "rb_at (set_hole C m h4) (plug C (Node l (m, c) R)) (top_ptr C m)"
    using linked_context_set_hole [OF C4 d(7), of m] m(3) by (simp add: rb_at_def)
qed

lemma Delete_double_step:
  assumes at: "rb_at h (plug C (Node l (x, c) r)) root" and "l \<noteq> Leaf" and "r \<noteq> Leaf"
  obtains F m cm rr root' h' where "r = plug F (Node Leaf (m, cm) rr)" and "before F = []"
    and "OrderedCollectionDelete_double x root h = Some (rb_ptr rr, hole_parent NULL (F @ InRight l m c # C), cm, root', h')"
    and "rb_at h' (plug (F @ InRight l m c # C) rr) root'" and "rb_keeps h (addrs (plug C (Node l (x, c) r))) h'"
proof -
  have lr: "linked h x r" "distinct (addrs r)" using at by (auto simp: rb_at_def)
  obtain F m cm rr h2 where r: "r = plug F (Node Leaf (m, cm) rr)" "before F = []"
    and succ: "OrderedCollectionDelete_successor (rb_ptr r) h = Some (m, hole_parent m F, rb_ptr rr, h2)"
    and h2: "linked h2 m (plug F rr)" "nd_Right (h2 m) = rb_ptr (plug F rr)" "nd_Color (h2 m) = cm"
    and out: "\<And>z. z \<notin> set (addrs r) \<Longrightarrow> h2 z = h z" and user: "\<And>z. nd_UserStruct (h2 z) = nd_UserStruct (h z)"
    by (rule Delete_successor_step [OF lr assms(3)]) blast
  have m: "m \<in> set (addrs r)" "m \<notin> set (addrs (plug F rr))" "m \<noteq> NULL" "set (addrs (plug F rr)) \<subseteq> set (addrs r)"
    "distinct (addrs (plug F rr))" using lr unfolding r(1) by auto
  note relink = relink_successor [OF at h2(1,2) out m]
  let ?h3 = "reparent l m (set_Left m (rb_ptr l) h2)"
  let ?h4 = "set_Parent m (hole_parent NULL C) (set_Color m c ?h3)"
  have x: "x \<noteq> NULL" "x \<notin> set (before C)" "x \<notin> set (after C)" "rb_ptr l \<noteq> NULL" "x \<notin> set (addrs l)"
    using at assms(2) by (auto simp: rb_at_def)
  have "OrderedCollectionDelete_double x root h = Some (rb_ptr rr, hole_parent m F, cm, top_ptr C m, set_hole C m ?h4)"
    unfolding OrderedCollectionDelete_double_def Let_def rb_at_node(2-6) [OF at] succ
    using rb_replace_child_eq [OF relink(1) x(1-3), of m] relink(2,3) h2(3) x(4) by (simp add: reparent_def)
  moreover have "hole_parent m F = hole_parent NULL (F @ InRight l m c # C)" by (cases F) auto
  moreover have "rb_keeps h (addrs (plug C (Node l (x, c) r))) (set_hole C m ?h4)"
    using user out m(1) by (auto simp: rb_keeps_def rb_set_defs)
  ultimately show thesis using that [OF r] relink(4) by simp
qed

section \<open>The whole operation\<close>

text \<open>The node that is unlinked leaves a hole that is in order, or one with an extra black.\<close>

lemma delete_single_balance:
  assumes "rb_balanced (plug C (Node l (x, c) r))" and "l = Leaf \<or> r = Leaf"
  defines "t \<equiv> if l = Leaf then r else l"
  shows "if c = Black then delete_pending C t else rb_balanced (plug C t)"
proof (cases c)
  case RedBlackTreeRed
  then show ?thesis
    using assms context_colored_Black [of C Red] by (auto simp: rb_balanced_plug)
next
  case RedBlackTreeBlack
  then obtain n where "rb_height t n" "context_height C (Suc n)" "context_colored C Black" "rb_colored t"
    using assms by (auto simp: rb_balanced_plug Suc_le_eq gr0_conv_Suc split: if_splits)
  moreover have "rb_colored t \<Longrightarrow> rb_colored (blacken t)" by (cases t rule: rb_ptr.cases) auto
  ultimately show ?thesis using RedBlackTreeBlack by (auto simp: delete_pending_def)
qed

lemma context_readdress:
  "context_height (F @ InRight l m c # C) n = context_height (F @ InRight l x c # C) n"
  "context_colored (F @ InRight l m c # C) d = context_colored (F @ InRight l x c # C) d"
  by (induction F arbitrary: n d rule: before.induct) auto

lemma delete_double_balance:
  assumes "rb_balanced (plug C (Node l (x, c) (plug F (Node Leaf (m, cm) rr))))"
  defines "E \<equiv> F @ InRight l m c # C"
  shows "if cm = Black then delete_pending E rr else rb_balanced (plug E rr)"
proof -
  have "rb_balanced (plug (F @ InRight l x c # C) (Node Leaf (m, cm) rr))" using assms(1) by simp
  then have "rb_balanced (plug E (Node Leaf (m, cm) rr))"
    unfolding rb_balanced_plug E_def by (simp only: context_readdress(1) [of F l m c C _ x] context_readdress(2) [of F l m c C _ x])
  then show ?thesis using delete_single_balance [of E Leaf m cm rr] by (simp split: if_splits)
qed

text \<open>Both ways of unlinking, as the code chooses between them.\<close>

lemma Delete_unlink:
  assumes at: "rb_at h (plug C (Node l (x, c) r)) root" and bal: "rb_balanced (plug C (Node l (x, c) r))"
  obtains E t cu root' h' where
    "(if nd_Left (h x) = NULL \<or> nd_Right (h x) = NULL then Some (OrderedCollectionDelete_single x root h)
      else OrderedCollectionDelete_double x root h) = Some (rb_ptr t, hole_parent NULL E, cu, root', h')"
    and "rb_at h' (plug E t) root'" and "rb_keeps h (addrs (plug C (Node l (x, c) r))) h'"
    and "addrs (plug E t) = before C @ addrs l @ addrs r @ after C"
    and "if cu = Black then delete_pending E t else rb_balanced (plug E t)"
proof -
  have ch: "nd_Left (h x) = NULL \<longleftrightarrow> l = Leaf" "nd_Right (h x) = NULL \<longleftrightarrow> r = Leaf"
    using at by (auto simp: rb_at_def)
  show thesis
  proof (cases "l = Leaf \<or> r = Leaf")
    case True
    show thesis
      by (rule Delete_single_step [OF at True], rule that [of "if l = Leaf then r else l" C c])
        (use ch True delete_single_balance [OF bal True] in auto)
  next
    case False
    obtain F m cm rr root' h' where r: "r = plug F (Node Leaf (m, cm) rr)" "before F = []"
      "OrderedCollectionDelete_double x root h = Some (rb_ptr rr, hole_parent NULL (F @ InRight l m c # C), cm, root', h')"
      "rb_at h' (plug (F @ InRight l m c # C) rr) root'" "rb_keeps h (addrs (plug C (Node l (x, c) r))) h'"
      using False by (blast intro: Delete_double_step [OF at])
    have "addrs (plug (F @ InRight l m c # C) rr) = before C @ addrs l @ addrs r @ after C"
      using r(1,2) by simp
    then show thesis
      using that [OF _ r(4,5)] r(3) ch False delete_double_balance [OF bal [unfolded r(1)]] by auto
  qed
qed

lemma delete_heap:
  assumes at: "rb_at h t root" and bal: "rb_balanced t" and x: "addrs t = xs @ x # ys"
  obtains Child Parent cu root1 h1 h' t' where
    "(if nd_Left (h x) = NULL \<or> nd_Right (h x) = NULL then Some (OrderedCollectionDelete_single x root h)
      else OrderedCollectionDelete_double x root h) = Some (Child, Parent, cu, root1, h1)"
    and "(if cu = Black
          then do {
            (Child, NewRoot, h2) \<leftarrow> OrderedCollectionDelete_loop Child Parent root1 h1;
            Some (NewRoot, if Child \<noteq> NULL then set_Color Child Black h2 else h2)
          }
          else Some (root1, h1)) = Some (rb_ptr t', h')"
    and "rb_at h' t' (rb_ptr t')" and "rb_balanced t'" and "addrs t' = xs @ ys" and "rb_keeps h (xs @ x # ys) h'"
proof -
  obtain C l c r where t: "t = plug C (Node l (x, c) r)" and xs: "xs = before C @ addrs l" "ys = addrs r @ after C"
    using x by (rule addrs_split)
  obtain E u cu root1 h1 where un: "(if nd_Left (h x) = NULL \<or> nd_Right (h x) = NULL then Some (OrderedCollectionDelete_single x root h)
      else OrderedCollectionDelete_double x root h) = Some (rb_ptr u, hole_parent NULL E, cu, root1, h1)"
    "rb_at h1 (plug E u) root1" "rb_keeps h (addrs (plug C (Node l (x, c) r))) h1"
    "addrs (plug E u) = before C @ addrs l @ addrs r @ after C"
    "if cu = Black then delete_pending E u else rb_balanced (plug E u)"
    by (rule Delete_unlink [OF at [unfolded t] bal [unfolded t]])
  have keep: "rb_keeps h (xs @ x # ys) h1" using un(3) xs by simp
  show thesis
  proof (cases cu)
    case RedBlackTreeRed
    then show thesis using that [OF un(1), of "plug E u" h1] un(2,4,5) keep xs by (auto simp: rb_at_def)
  next
    case RedBlackTreeBlack
    then have "delete_fixed h1 (xs @ ys) (OrderedCollectionDelete_loop (rb_ptr u) (hole_parent NULL E) root1 h1)"
      using delete_loop_fixed [OF un(2)] un(4,5) xs by simp
    then obtain Child root' h2 t' where l: "OrderedCollectionDelete_loop (rb_ptr u) (hole_parent NULL E) root1 h1 = Some (Child, root', h2)"
      "rb_at (if Child \<noteq> NULL then set_Color Child Black h2 else h2) t' root'" "addrs t' = xs @ ys"
      "rb_keeps h1 (xs @ ys) (if Child \<noteq> NULL then set_Color Child Black h2 else h2)" "rb_balanced t'"
      by (auto simp: delete_fixed_def Let_def)
    have "rb_ptr t' = root'" using l(2) by (simp add: rb_at_def)
    moreover have "rb_keeps h1 (xs @ x # ys) (if Child \<noteq> NULL then set_Color Child Black h2 else h2)"
      using l(4) by (auto simp: rb_keeps_def)
    ultimately show thesis
      using that [OF un(1), of t' "if Child \<noteq> NULL then set_Color Child Black h2 else h2"] l RedBlackTreeBlack rb_keeps_trans [OF keep]
      by auto
  qed
qed

lemma Delete_result:
  assumes "rb_collection s Tree t" and "user_compare (rbt_UserStructCompare (rb_tree s Tree) (rb_memory s))" and x: "addrs t = xs @ x # ys"
  obtains h' t' where
    "OrderedCollectionDelete env Tree x s =
       Some (nd_UserStruct (rb_node s x), rb_update Tree (rb_ptr t') h' (s\<lparr>rb_live := remove1 x (rb_live s)\<rparr>))"
    and "rb_collection (rb_update Tree (rb_ptr t') h' (s\<lparr>rb_live := remove1 x (rb_live s)\<rparr>)) Tree t'"
    and "addrs t' = xs @ ys" and "rb_keeps (rb_node s) (addrs t) h'"
proof -
  let ?cmp = "rbt_UserStructCompare (rb_tree s Tree) (rb_memory s)"
  have col: "rb_at (rb_node s) t (rbt_Root (rb_tree s Tree))" "rb_balanced t"
    "sorted_wrt (rb_less ?cmp (rb_node s)) (addrs t)" "set (addrs t) \<subseteq> set (rb_live s)" "distinct (rb_live s)" "distinct (addrs t)"
    using assms(1) by (auto simp: rb_collection_def rb_at_def)
  obtain Child Parent cu root1 h1 h' t' where d:
    "(if nd_Left (rb_node s x) = NULL \<or> nd_Right (rb_node s x) = NULL
      then Some (OrderedCollectionDelete_single x (rbt_Root (rb_tree s Tree)) (rb_node s))
      else OrderedCollectionDelete_double x (rbt_Root (rb_tree s Tree)) (rb_node s)) = Some (Child, Parent, cu, root1, h1)"
    "(if cu = Black
      then do {
        (Child, NewRoot, h2) \<leftarrow> OrderedCollectionDelete_loop Child Parent root1 h1;
        Some (NewRoot, if Child \<noteq> NULL then set_Color Child Black h2 else h2)
      }
      else Some (root1, h1)) = Some (rb_ptr t', h')"
    "rb_at h' t' (rb_ptr t')" "rb_balanced t'" "addrs t' = xs @ ys" "rb_keeps (rb_node s) (xs @ x # ys) h'"
    by (rule delete_heap [OF col(1,2) x])
  let ?s = "rb_update Tree (rb_ptr t') h' (s\<lparr>rb_live := remove1 x (rb_live s)\<rparr>)"
  have "sorted_wrt (rb_less ?cmp h') (xs @ ys)"
    using col(3) x d(6) by (simp add: sorted_wrt_append rb_keeps_def)
  then have c': "rb_collection ?s Tree t'"
    using d(3-5) col(4-6) x by (auto simp: rb_collection_def rb_update_def)
  have "user_compare (rbt_UserStructCompare (rb_tree ?s Tree) (rb_memory ?s))" using assms(2) by (simp add: rb_update_def)
  then have "rb_validate env Tree ?s = Some ()" using rb_collection_validate [OF c'] by blast
  then have "OrderedCollectionDelete env Tree x s = Some (nd_UserStruct (rb_node s x), ?s)"
    unfolding OrderedCollectionDelete_def Let_def d(1) using d(2) by simp
  then show thesis using that c' d(5,6) x by simp
qed

end
