(* ===== verification/OrderedCollection.thy ===== *)
theory OrderedCollection
  imports RbtDelete
begin

text \<open>
  The ordered collection as its clients see it: a list of entries in the order of the comparison
  function.  Insertion, deletion, lookup and iteration refine operations on that list.  The
  comparison function of \<^verbatim>\<open>OvmfPkg/AcpiPlatformDxe/QemuFwCfgAcpi.c\<close> for pointers satisfies
  the contract of the library.
\<close>

section \<open>A client's comparison function\<close>

definition PointerCompare :: "u64 \<Rightarrow> u64 \<Rightarrow> INTN" where
  "PointerCompare Pointer1 Pointer2 =
     (if Pointer1 = Pointer2 then 0 else if Pointer1 < Pointer2 then -1 else 1)"

lemma sint_PointerCompare:
  "sint (PointerCompare a b) = (if a = b then 0 else if a < b then -1 else 1)"
  by (simp add: PointerCompare_def)

interpretation pointers: key_compare PointerCompare PointerCompare
  by unfold_locales (auto simp: sint_PointerCompare split: if_splits)

section \<open>Lists of entries\<close>

lemma find_colliding:
  "find (\<lambda>(a, v). rbt_UserStructCompare (rb_tree s Tree) (rb_memory s) u v = 0) (map (\<lambda>a. (a, nd_UserStruct (rb_node s a))) xs) = None
     \<longleftrightarrow> (\<forall>a. \<not> colliding s Tree u xs a)"
  by (auto simp: find_None_iff colliding_def)

lemma insert_entry_place:
  assumes "\<forall>(a, v) \<in> set xs. sint (cmp v u) < 0" and "\<forall>(a, v) \<in> set ys. \<not> sint (cmp v u) < 0"
  shows "insert_entry cmp a u (xs @ ys) = xs @ (a, u) # ys"
proof -
  have "takeWhile (\<lambda>(_, v). sint (cmp v u) < 0) (xs @ ys) = xs"
    using assms by (subst takeWhile_append2) (auto simp: takeWhile_eq_Nil_iff neq_Nil_conv)
  moreover have "dropWhile (\<lambda>(_, v). sint (cmp v u) < 0) (xs @ ys) = ys"
    using assms by (subst dropWhile_append2) (auto simp: dropWhile_eq_self_iff neq_Nil_conv)
  ultimately show ?thesis by (simp add: insert_entry_def)
qed

lemma insert_entries:
  assumes "user_compare cmp" and "\<forall>x \<in> set xs. sint (cmp (f x) u) < 0" and "\<forall>y \<in> set ys. sint (cmp u (f y)) < 0"
    and "a \<notin> set xs" and "a \<notin> set ys" and "\<And>z. g z = (if z = a then u else f z)"
  shows "map (\<lambda>a. (a, g a)) (xs @ a # ys) = insert_entry cmp a u (map (\<lambda>a. (a, f a)) (xs @ ys))"
proof -
  have "\<not> sint (cmp (f y) u) < 0" if "y \<in> set ys" for y
    using user_compare.cmp_swap [OF assms(1), of u "f y"] assms(3) that by force
  then have "insert_entry cmp a u (map (\<lambda>a. (a, f a)) xs @ map (\<lambda>a. (a, f a)) ys) =
      map (\<lambda>a. (a, f a)) xs @ (a, u) # map (\<lambda>a. (a, f a)) ys"
    using assms(2) by (intro insert_entry_place) auto
  then show ?thesis using assms(4-6) by (auto intro!: map_cong)
qed

text \<open>
  Two states that agree on the tree structure and the nodes of a collection, and in which its
  structures compare alike.
\<close>

lemma rb_collection_cong:
  assumes "rb_collection s Tree t" and "rb_tree s' Tree = rb_tree s Tree" and "\<forall>z \<in> set (addrs t). rb_node s' z = rb_node s z"
    and "set (addrs t) \<subseteq> set (rb_live s')" and "distinct (rb_live s')"
    and "\<forall>a \<in> set (addrs t). \<forall>b \<in> set (addrs t).
       rbt_UserStructCompare (rb_tree s Tree) (rb_memory s') (nd_UserStruct (rb_node s a)) (nd_UserStruct (rb_node s b)) =
       rbt_UserStructCompare (rb_tree s Tree) (rb_memory s) (nd_UserStruct (rb_node s a)) (nd_UserStruct (rb_node s b))"
  shows "rb_collection s' Tree t"
proof -
  have "linked (rb_node s') NULL t" using assms(1,3) linked_cong [of t "rb_node s'" "rb_node s" NULL] by (auto simp: rb_collection_def rb_at_def)
  moreover have "sorted_wrt (rb_less (rbt_UserStructCompare (rb_tree s Tree) (rb_memory s')) (rb_node s')) (addrs t)"
    by (rule sorted_wrt_mono_rel [of _ "rb_less (rbt_UserStructCompare (rb_tree s Tree) (rb_memory s)) (rb_node s)"])
      (use assms(1,3,6) in \<open>auto simp: rb_collection_def\<close>)
  ultimately show ?thesis using assms(1-5) by (auto simp: rb_collection_def rb_at_def)
qed

lemma collection_entries_cong:
  assumes "collection_entries s Tree xs" and "rb_tree s' Tree = rb_tree s Tree" and "\<forall>z \<in> fst ` set xs. rb_node s' z = rb_node s z"
    and "fst ` set xs \<subseteq> set (rb_live s')" and "distinct (rb_live s')"
    and "\<forall>u \<in> snd ` set xs. \<forall>v \<in> snd ` set xs.
       rbt_UserStructCompare (rb_tree s Tree) (rb_memory s') u v = rbt_UserStructCompare (rb_tree s Tree) (rb_memory s) u v"
  shows "collection_entries s' Tree xs"
proof -
  obtain t where t: "rb_collection s Tree t" "xs = map (\<lambda>a. (a, nd_UserStruct (rb_node s a))) (addrs t)"
    using assms(1) by (auto simp: collection_entries_def)
  have "rb_collection s' Tree t" using rb_collection_cong [OF t(1) assms(2)] assms(3-6) t(2) by (auto simp: image_image)
  then show ?thesis using t(2) assms(3) unfolding collection_entries_def by (auto intro!: exI [of _ t])
qed

text \<open>What an operation on one collection leaves of the rest of the state.\<close>

definition other_collections :: "'m rb_state \<Rightarrow> u64 \<Rightarrow> u64 set \<Rightarrow> 'm rb_state \<Rightarrow> bool" where
  "other_collections s Tree A s' \<longleftrightarrow> rb_memory s' = rb_memory s \<and>
     (\<exists>r. rb_tree s' = (rb_tree s)(Tree := (rb_tree s Tree)\<lparr>rbt_Root := r\<rparr>)) \<and>
     (\<forall>z. z \<notin> A \<longrightarrow> rb_node s' z = rb_node s z)"

lemma other_collections_update:
  "(\<And>z. z \<notin> A \<Longrightarrow> h z = rb_node s z) \<Longrightarrow> other_collections s Tree A (rb_update Tree r h (s\<lparr>rb_live := live\<rparr>))"
  by (auto simp: other_collections_def rb_update_def)

section \<open>Height\<close>

lemma rb_height_size: "rb_height t n \<Longrightarrow> 2 ^ n \<le> size t + 1"
proof (induction t arbitrary: n)
  case (Node l v r)
  then obtain x c where v: "v = (x, c)" by fastforce
  let ?m = "n - black_count c"
  have "2 ^ ?m \<le> size l + 1" "2 ^ ?m \<le> size r + 1" using Node v by auto
  moreover have "(2 :: nat) ^ n \<le> 2 * 2 ^ ?m" by (cases n) auto
  ultimately show ?case by simp
qed simp

lemma rb_height_depth: "rb_height t n \<Longrightarrow> rb_colored t \<Longrightarrow> height t \<le> 2 * n + (if rb_color t = Red then 1 else 0)"
proof (induction t arbitrary: n)
  case (Node l v r)
  then obtain x c where v: "v = (x, c)" by fastforce
  have "height l \<le> 2 * (n - black_count c) + (if rb_color l = Red then 1 else 0)"
    "height r \<le> 2 * (n - black_count c) + (if rb_color r = Red then 1 else 0)"
    using Node v by auto
  then show ?case using Node.prems v by (cases c) (auto split: if_splits)
qed simp

fun child_path :: "rb_heap \<Rightarrow> u64 \<Rightarrow> u64 list \<Rightarrow> bool" where
  "child_path h a [] = True"
| "child_path h a (b # bs) \<longleftrightarrow> b \<noteq> NULL \<and> (b = nd_Left (h a) \<or> b = nd_Right (h a)) \<and> child_path h b bs"

lemma child_path_height: "linked h p t \<Longrightarrow> t \<noteq> Leaf \<Longrightarrow> child_path h (rb_ptr t) ps \<Longrightarrow> length ps < height t"
proof (induction h p t arbitrary: ps rule: linked.induct)
  case (2 h p l x c r)
  then show ?case by (cases ps; cases "l = Leaf"; cases "r = Leaf") (auto simp: less_Suc_eq_le Suc_le_eq less_max_iff_disj)
qed simp

section \<open>Correctness of the operations\<close>

lemma Init_entries:
  assumes "user_compare (cmp (rb_memory s))" and "Tree = rb_AllocatePool env s" and "Tree \<noteq> NULL" and "Tree \<notin> set (rb_live s)"
    and "distinct (rb_live s)"
  shows "\<exists>s'. OrderedCollectionInit env cmp key s = Some (Tree, s') \<and> collection_entries s' Tree [] \<and>
     s' = s\<lparr>rb_live := Tree # rb_live s, rb_tree := (rb_tree s)(Tree := \<lparr>rbt_Root = NULL, rbt_UserStructCompare = cmp, rbt_KeyCompare = key\<rparr>)\<rparr>"
proof -
  let ?s = "s\<lparr>rb_live := Tree # rb_live s, rb_tree := (rb_tree s)(Tree := \<lparr>rbt_Root = NULL, rbt_UserStructCompare = cmp, rbt_KeyCompare = key\<rparr>)\<rparr>"
  have col: "rb_collection ?s Tree Leaf" using assms(4,5) by (simp add: rb_collection_def rb_at_def rb_balanced_def)
  have "rb_validate env Tree ?s = Some ()" by (rule rb_collection_validate [OF col]) (use assms(1) in simp)
  moreover have "collection_entries ?s Tree []" using col by (auto simp: collection_entries_def)
  ultimately show ?thesis using assms(2,3) by (simp add: OrderedCollectionInit_def Let_def)
qed

lemma Uninit_entries:
  assumes "collection_entries s Tree xs"
  shows "OrderedCollectionUninit Tree s = (if xs = [] then Some (s\<lparr>rb_live := remove1 Tree (rb_live s)\<rparr>) else None)"
  using assms by (auto simp: OrderedCollectionUninit_def OrderedCollectionIsEmpty_def ASSERT_def collection_entries_def
    rb_collection_def rb_at_def)

text \<open>A collection with the structures 3, 5 and 9, ordered as pointers, in a heap with room at 0x40.\<close>

definition rb_example_state :: "unit rb_state" where
  "rb_example_state = \<lparr>
     rb_tree = (\<lambda>_. \<lparr>rbt_Root = 0x10, rbt_UserStructCompare = (\<lambda>_. PointerCompare), rbt_KeyCompare = (\<lambda>_. PointerCompare)\<rparr>),
     rb_node = (\<lambda>a. \<lparr>nd_UserStruct = (if a = 0x10 then 5 else if a = 0x20 then 3 else 9),
       nd_Parent = (if a = 0x10 then NULL else 0x10),
       nd_Left = (if a = 0x10 then 0x20 else NULL), nd_Right = (if a = 0x10 then 0x30 else NULL),
       nd_Color = (if a = 0x10 then RedBlackTreeBlack else RedBlackTreeRed)\<rparr>),
     rb_live = [0x10, 0x20, 0x30, 0x100], rb_memory = ()\<rparr>"

definition rb_example_env :: "unit rb_env" where
  "rb_example_env = \<lparr>rb_AllocatePool = (\<lambda>s. if 0x40 \<in> set (rb_live s) then NULL else 0x40), PcdValidateOrderedCollection = True\<rparr>"

definition rb_example_list :: "(u64 \<times> u64) list" where
  "rb_example_list = [(0x20, 3), (0x10, 5), (0x30, 9)]"

lemma rb_example_entries: "collection_entries rb_example_state 0x100 rb_example_list"
  unfolding collection_entries_def rb_example_list_def
  by (rule exI [of _ "Node (Node Leaf (0x20, Red) Leaf) (0x10, Black) (Node Leaf (0x30, Red) Leaf)"])
    (auto simp: rb_collection_def rb_at_def rb_balanced_def rb_example_state_def sint_PointerCompare intro: exI [of _ 1])

lemma rb_example_compare:
  "user_compare (rbt_UserStructCompare (rb_tree rb_example_state Tree) (rb_memory rb_example_state))"
  "key_compare (rbt_UserStructCompare (rb_tree rb_example_state Tree) (rb_memory rb_example_state)) (rbt_KeyCompare (rb_tree rb_example_state Tree) (rb_memory rb_example_state))"
  using pointers.user_compare_axioms pointers.key_compare_axioms by (simp_all add: rb_example_state_def)

lemma Insert_new_entries:
  assumes t: "rb_collection s Tree t" and xs: "xs = map (\<lambda>a. (a, nd_UserStruct (rb_node s a))) (addrs t)"
    and cmp: "user_compare (rbt_UserStructCompare (rb_tree s Tree) (rb_memory s))"
    and nc: "\<And>a. \<not> colliding s Tree u (addrs t) a" and a: "rb_AllocatePool env s = a" "a \<noteq> NULL" "a \<notin> set (rb_live s)"
  shows "\<exists>s'. OrderedCollectionInsert env Tree u s = Some (EFI_SUCCESS, Some a, s') \<and> rb_live s' = a # rb_live s \<and>
     collection_entries s' Tree (insert_entry (rbt_UserStructCompare (rb_tree s Tree) (rb_memory s)) a u xs) \<and>
     other_collections s Tree (insert a (fst ` set xs)) s'"
proof -
  obtain h' t' us vs where
    r: "OrderedCollectionInsert env Tree u s = Some (EFI_SUCCESS, Some a, rb_update Tree (rb_ptr t') h' (s\<lparr>rb_live := a # rb_live s\<rparr>))"
    "rb_collection (rb_update Tree (rb_ptr t') h' (s\<lparr>rb_live := a # rb_live s\<rparr>)) Tree t'"
    "addrs t = us @ vs" "addrs t' = us @ a # vs"
    "\<forall>x \<in> set us. sint (rbt_UserStructCompare (rb_tree s Tree) (rb_memory s) (nd_UserStruct (rb_node s x)) u) < 0"
    "\<forall>y \<in> set vs. sint (rbt_UserStructCompare (rb_tree s Tree) (rb_memory s) u (nd_UserStruct (rb_node s y))) < 0"
    "\<And>z. nd_UserStruct (h' z) = (if z = a then u else nd_UserStruct (rb_node s z))"
    "\<And>z. z \<notin> set (addrs t) \<Longrightarrow> z \<noteq> a \<Longrightarrow> h' z = rb_node s z"
    by (rule Insert_new [OF t cmp nc a]) blast
  let ?s = "rb_update Tree (rb_ptr t') h' (s\<lparr>rb_live := a # rb_live s\<rparr>)"
  have "distinct (us @ a # vs)" using r(2,4) by (simp add: rb_collection_def rb_at_def)
  then have "map (\<lambda>a. (a, nd_UserStruct (h' a))) (addrs t') = insert_entry (rbt_UserStructCompare (rb_tree s Tree) (rb_memory s)) a u xs"
    unfolding r(4) xs r(3) using insert_entries [OF cmp r(5,6) _ _ r(7)] by simp
  then have "collection_entries ?s Tree (insert_entry (rbt_UserStructCompare (rb_tree s Tree) (rb_memory s)) a u xs)"
    using r(2) unfolding collection_entries_def by (intro exI [of _ t']) (simp add: rb_update_def)
  moreover have "other_collections s Tree (insert a (fst ` set xs)) ?s"
    by (rule other_collections_update) (use r(8) xs in \<open>auto simp: image_image\<close>)
  ultimately show ?thesis using r(1) by (auto simp: rb_update_def)
qed

lemma Insert_entries:
  assumes "collection_entries s Tree xs" and "user_compare (rbt_UserStructCompare (rb_tree s Tree) (rb_memory s))"
    and "rb_AllocatePool env s = NULL \<or> rb_AllocatePool env s \<notin> set (rb_live s)"
  shows "\<exists>Status Node s'. OrderedCollectionInsert env Tree UserStruct s = Some (Status, Node, s') \<and>
     (case find (\<lambda>(a, v). rbt_UserStructCompare (rb_tree s Tree) (rb_memory s) UserStruct v = 0) xs of
        Some (a, v) \<Rightarrow> Status = EFI_ALREADY_STARTED \<and> Node = Some a \<and> s' = s
      | None \<Rightarrow>
          if rb_AllocatePool env s = NULL then Status = EFI_OUT_OF_RESOURCES \<and> Node = None \<and> s' = s
          else Status = EFI_SUCCESS \<and> Node = Some (rb_AllocatePool env s) \<and> rb_live s' = rb_AllocatePool env s # rb_live s \<and>
            collection_entries s' Tree
              (insert_entry (rbt_UserStructCompare (rb_tree s Tree) (rb_memory s)) (rb_AllocatePool env s) UserStruct xs) \<and>
            other_collections s Tree (insert (rb_AllocatePool env s) (fst ` set xs)) s')"
proof -
  obtain t where t: "rb_collection s Tree t" and xs: "xs = map (\<lambda>a. (a, nd_UserStruct (rb_node s a))) (addrs t)"
    using assms(1) by (auto simp: collection_entries_def)
  show ?thesis
  proof (cases "find (\<lambda>(a, v). rbt_UserStructCompare (rb_tree s Tree) (rb_memory s) UserStruct v = 0) xs")
    case (Some e)
    then obtain a v where e: "e = (a, v)" "(a, v) \<in> set xs" "rbt_UserStructCompare (rb_tree s Tree) (rb_memory s) UserStruct v = 0"
      by (auto simp: find_Some_iff) (metis nth_mem)
    then have "colliding s Tree UserStruct (addrs t) a" using xs by (auto simp: colliding_def)
    from Insert_collision [OF t assms(2) this] show ?thesis using Some e by auto
  next
    case None
    then have nc: "\<And>a. \<not> colliding s Tree UserStruct (addrs t) a" unfolding xs find_colliding by blast
    show ?thesis
    proof (cases "rb_AllocatePool env s = NULL")
      case True
      then show ?thesis using Insert_no_memory [OF t assms(2) nc, of env] None by auto
    next
      case False
      then have "rb_AllocatePool env s \<notin> set (rb_live s)" using assms(3) by blast
      from Insert_new_entries [OF t xs assms(2) nc refl False this] show ?thesis using None False by auto
    qed
  qed
qed

text \<open>
  C25.  \<^verbatim>\<open>OrderedCollectionInsert\<close> returns, its assertions hold, and it inserts into the sorted list of
  entries: a structure that compares equal is reported with its node and nothing changes; without
  memory nothing changes; otherwise the new node stands at its place, every other node keeps its
  address and its structure, and nodes of other collections are not touched.
\<close>

theorem OrderedCollectionInsert_refines:
  assumes "collection_entries s Tree xs" and "user_compare (rbt_UserStructCompare (rb_tree s Tree) (rb_memory s))"
    and "rb_AllocatePool env s = NULL \<or> rb_AllocatePool env s \<notin> set (rb_live s)"
  shows "\<exists>Status Node s'. OrderedCollectionInsert env Tree UserStruct s = Some (Status, Node, s') \<and>
     (case find (\<lambda>(a, v). rbt_UserStructCompare (rb_tree s Tree) (rb_memory s) UserStruct v = 0) xs of
        Some (a, v) \<Rightarrow> Status = EFI_ALREADY_STARTED \<and> Node = Some a \<and> s' = s
      | None \<Rightarrow>
          if rb_AllocatePool env s = NULL then Status = EFI_OUT_OF_RESOURCES \<and> Node = None \<and> s' = s
          else Status = EFI_SUCCESS \<and> Node = Some (rb_AllocatePool env s) \<and> rb_live s' = rb_AllocatePool env s # rb_live s \<and>
            collection_entries s' Tree
              (insert_entry (rbt_UserStructCompare (rb_tree s Tree) (rb_memory s)) (rb_AllocatePool env s) UserStruct xs) \<and>
            other_collections s Tree (insert (rb_AllocatePool env s) (fst ` set xs)) s')"
  using assms by (rule Insert_entries)

lemma OrderedCollectionInsert_refines_witness:
  "\<exists>s'. OrderedCollectionInsert rb_example_env 0x100 7 rb_example_state = Some (EFI_SUCCESS, Some 0x40, s') \<and>
     collection_entries s' 0x100 [(0x20, 3), (0x10, 5), (0x40, 7), (0x30, 9)]"
proof -
  have a: "rb_AllocatePool rb_example_env rb_example_state = 0x40" by (simp add: rb_example_env_def rb_example_state_def)
  have "find (\<lambda>(a, v). rbt_UserStructCompare (rb_tree rb_example_state 0x100) (rb_memory rb_example_state) 7 v = 0) rb_example_list = None"
    and "insert_entry (rbt_UserStructCompare (rb_tree rb_example_state 0x100) (rb_memory rb_example_state)) 0x40 7 rb_example_list =
       [(0x20, 3), (0x10, 5), (0x40, 7), (0x30, 9)]"
    by (simp_all add: rb_example_state_def rb_example_list_def PointerCompare_def insert_entry_def)
  then show ?thesis
    using OrderedCollectionInsert_refines [OF rb_example_entries rb_example_compare(1), of rb_example_env 7] a
    by (auto simp: rb_example_state_def [THEN arg_cong [of _ _ rb_live]])
qed

lemma Delete_entries:
  assumes "collection_entries s Tree (ys @ (Entry, u) # zs)" and "user_compare (rbt_UserStructCompare (rb_tree s Tree) (rb_memory s))"
  shows "\<exists>s'. OrderedCollectionDelete env Tree Entry s = Some (u, s') \<and> collection_entries s' Tree (ys @ zs) \<and>
     rb_live s' = remove1 Entry (rb_live s) \<and> other_collections s Tree (fst ` set (ys @ (Entry, u) # zs)) s'"
proof -
  let ?e = "\<lambda>a. (a, nd_UserStruct (rb_node s a))"
  obtain t where t: "rb_collection s Tree t" and "ys @ (Entry, u) # zs = map ?e (addrs t)"
    using assms(1) by (auto simp: collection_entries_def)
  then obtain us vs where e: "addrs t = us @ Entry # vs" "ys = map ?e us" "zs = map ?e vs" "u = nd_UserStruct (rb_node s Entry)"
    by (auto simp: append_eq_map_conv Cons_eq_map_conv map_eq_append_conv map_eq_Cons_conv)
  obtain h' t' where r: "OrderedCollectionDelete env Tree Entry s =
      Some (u, rb_update Tree (rb_ptr t') h' (s\<lparr>rb_live := remove1 Entry (rb_live s)\<rparr>))"
    "rb_collection (rb_update Tree (rb_ptr t') h' (s\<lparr>rb_live := remove1 Entry (rb_live s)\<rparr>)) Tree t'"
    "addrs t' = us @ vs" "rb_keeps (rb_node s) (addrs t) h'"
    using Delete_result [OF t assms(2) e(1)] e(4) by metis
  then have "collection_entries (rb_update Tree (rb_ptr t') h' (s\<lparr>rb_live := remove1 Entry (rb_live s)\<rparr>)) Tree (ys @ zs)"
    using e unfolding collection_entries_def by (intro exI [of _ t']) (auto simp: rb_update_def rb_keeps_def)
  moreover have "other_collections s Tree (fst ` set (ys @ (Entry, u) # zs))
      (rb_update Tree (rb_ptr t') h' (s\<lparr>rb_live := remove1 Entry (rb_live s)\<rparr>))"
    by (rule other_collections_update) (use r(4) e(1-3) in \<open>auto simp: rb_keeps_def image_image image_Un\<close>)
  ultimately show ?thesis using r(1) by (auto simp: rb_update_def)
qed

text \<open>
  C26.  \<^verbatim>\<open>OrderedCollectionDelete\<close> returns, its assertions hold, it hands out the structure of the node
  and frees the node; the other entries stay, with their addresses, and nothing else changes.
\<close>

theorem OrderedCollectionDelete_refines:
  assumes "collection_entries s Tree (ys @ (Entry, u) # zs)" and "user_compare (rbt_UserStructCompare (rb_tree s Tree) (rb_memory s))"
  shows "\<exists>s'. OrderedCollectionDelete env Tree Entry s = Some (u, s') \<and> collection_entries s' Tree (ys @ zs) \<and>
     rb_live s' = remove1 Entry (rb_live s) \<and> other_collections s Tree (fst ` set (ys @ (Entry, u) # zs)) s'"
  using assms by (rule Delete_entries)

lemma OrderedCollectionDelete_refines_witness:
  "\<exists>s'. OrderedCollectionDelete rb_example_env 0x100 0x10 rb_example_state = Some (5, s') \<and>
     collection_entries s' 0x100 [(0x20, 3), (0x30, 9)]"
  using OrderedCollectionDelete_refines [OF _ rb_example_compare(1), of "0x100" "[(0x20, 3)]" "0x10" 5 "[(0x30, 9)]" rb_example_env]
    rb_example_entries by (auto simp: rb_example_list_def)

context key_compare
begin

lemma key_match_unique:
  assumes "sorted_wrt (rb_less cmp h) xs" and "a \<in> set xs" and "b \<in> set xs"
    and "key k (nd_UserStruct (h a)) = 0" and "key k (nd_UserStruct (h b)) = 0"
  shows "a = b"
  using sorted_wrt_cases [OF assms(1-3)] key_less [of k "nd_UserStruct (h a)" "nd_UserStruct (h b)"]
    key_less [of k "nd_UserStruct (h b)" "nd_UserStruct (h a)"] assms(4,5) by auto

lemma Find_entry:
  assumes "linked h p t" and "sorted_wrt (rb_less cmp h) (addrs t)"
  shows "OrderedCollectionFind_loop (key k) h (rb_ptr t) =
     Some (case find (\<lambda>(a, v). key k v = 0) (map (\<lambda>a. (a, nd_UserStruct (h a))) (addrs t)) of None \<Rightarrow> NULL | Some (a, v) \<Rightarrow> a)"
proof -
  let ?xs = "map (\<lambda>a. (a, nd_UserStruct (h a))) (addrs t)"
  obtain a where a: "OrderedCollectionFind_loop (key k) h (rb_ptr t) = Some a"
    "if a = NULL then \<forall>x \<in> set (addrs t). key k (nd_UserStruct (h x)) \<noteq> 0 else a \<in> set (addrs t) \<and> key k (nd_UserStruct (h a)) = 0"
    using Find_loop_result [OF assms] by blast
  show ?thesis
  proof (cases "find (\<lambda>(a, v). key k v = 0) ?xs")
    case None
    then have "\<forall>x \<in> set (addrs t). key k (nd_UserStruct (h x)) \<noteq> 0" by (auto simp: find_None_iff)
    then show ?thesis using a None by (auto split: if_splits)
  next
    case (Some e)
    then obtain b v where e: "e = (b, v)" "(b, v) \<in> set ?xs" "key k v = 0" by (auto simp: find_Some_iff)
    moreover from this have "a \<noteq> NULL" using a(2) by (auto split: if_splits)
    ultimately have "a = b" using key_match_unique [OF assms(2)] a(2) by auto
    then show ?thesis using a(1) Some e by simp
  qed
qed

end

lemma Find_entries:
  assumes "collection_entries s Tree xs"
    and "key_compare (rbt_UserStructCompare (rb_tree s Tree) (rb_memory s)) (rbt_KeyCompare (rb_tree s Tree) (rb_memory s))"
  shows "OrderedCollectionFind Tree StandaloneKey s =
     Some (case find (\<lambda>(a, v). rbt_KeyCompare (rb_tree s Tree) (rb_memory s) StandaloneKey v = 0) xs of None \<Rightarrow> NULL | Some (a, v) \<Rightarrow> a)"
proof -
  obtain t where t: "rb_collection s Tree t" and xs: "xs = map (\<lambda>a. (a, nd_UserStruct (rb_node s a))) (addrs t)"
    using assms(1) by (auto simp: collection_entries_def)
  then show ?thesis
    using key_compare.Find_entry [OF assms(2), of "rb_node s" NULL t]
    by (simp add: OrderedCollectionFind_def rb_collection_def rb_at_def)
qed

text \<open>
  C27.  \<^verbatim>\<open>OrderedCollectionFind\<close> is a search in the list: the node it returns is the one whose
  structure matches the key, and NULL when there is none.
\<close>

theorem OrderedCollectionFind_correct:
  assumes "collection_entries s Tree xs"
    and "key_compare (rbt_UserStructCompare (rb_tree s Tree) (rb_memory s)) (rbt_KeyCompare (rb_tree s Tree) (rb_memory s))"
  shows "OrderedCollectionFind Tree StandaloneKey s =
     Some (case find (\<lambda>(a, v). rbt_KeyCompare (rb_tree s Tree) (rb_memory s) StandaloneKey v = 0) xs of None \<Rightarrow> NULL | Some (a, v) \<Rightarrow> a)"
  using assms by (rule Find_entries)

lemma OrderedCollectionFind_correct_witness:
  "OrderedCollectionFind 0x100 9 rb_example_state = Some 0x30 \<and> OrderedCollectionFind 0x100 4 rb_example_state = Some NULL"
  using OrderedCollectionFind_correct [OF rb_example_entries rb_example_compare(2), of 9]
    OrderedCollectionFind_correct [OF rb_example_entries rb_example_compare(2), of 4]
  by (simp add: rb_example_state_def rb_example_list_def PointerCompare_def)

lemma Iterate_entries:
  assumes "collection_entries s Tree xs"
  shows "OrderedCollectionMin Tree s = Some (first_or_null (map fst xs)) \<and>
     OrderedCollectionMax Tree s = Some (first_or_null (rev (map fst xs))) \<and>
     (\<forall>ys a v zs. xs = ys @ (a, v) # zs \<longrightarrow> OrderedCollectionUserStruct a s = v \<and>
        OrderedCollectionNext a s = Some (first_or_null (map fst zs)) \<and>
        OrderedCollectionPrev a s = Some (first_or_null (rev (map fst ys))))"
proof -
  obtain t where t: "rb_collection s Tree t" and xs: "xs = map (\<lambda>a. (a, nd_UserStruct (rb_node s a))) (addrs t)"
    using assms(1) by (auto simp: collection_entries_def)
  have at: "rb_at (rb_node s) t (rbt_Root (rb_tree s Tree))" using t by (simp add: rb_collection_def)
  have fst: "map fst xs = addrs t" by (simp add: xs comp_def)
  have "OrderedCollectionUserStruct a s = v \<and> OrderedCollectionNext a s = Some (first_or_null (map fst zs)) \<and>
      OrderedCollectionPrev a s = Some (first_or_null (rev (map fst ys)))" if split: "xs = ys @ (a, v) # zs" for ys a v zs
  proof -
    have "addrs t = map fst ys @ a # map fst zs" using fst split by simp
    moreover have "(a, v) \<in> set xs" using split by simp
    ultimately show ?thesis
      using Next_eq [OF at] Prev_eq [OF at] xs by (auto simp: OrderedCollectionUserStruct_def)
  qed
  then show ?thesis using Min_eq [OF at] Max_eq [OF at] fst by simp
qed

text \<open>
  C28.  Iteration: the minimum and the maximum are the ends of the list, the next and the previous node
  of an entry its neighbours, and NULL beyond the ends.
\<close>

theorem OrderedCollection_iterates:
  assumes "collection_entries s Tree xs"
  shows "OrderedCollectionMin Tree s = Some (first_or_null (map fst xs)) \<and>
     OrderedCollectionMax Tree s = Some (first_or_null (rev (map fst xs))) \<and>
     (\<forall>ys a v zs. xs = ys @ (a, v) # zs \<longrightarrow> OrderedCollectionUserStruct a s = v \<and>
        OrderedCollectionNext a s = Some (first_or_null (map fst zs)) \<and>
        OrderedCollectionPrev a s = Some (first_or_null (rev (map fst ys))))"
  using assms by (rule Iterate_entries)

lemma OrderedCollection_iterates_witness:
  "OrderedCollectionMin 0x100 rb_example_state = Some 0x20 \<and> OrderedCollectionNext 0x20 rb_example_state = Some 0x10 \<and>
     OrderedCollectionNext 0x30 rb_example_state = Some NULL"
proof -
  have split: "rb_example_list = [] @ (0x20, 3) # [(0x10, 5), (0x30, 9)]" "rb_example_list = [(0x20, 3), (0x10, 5)] @ (0x30, 9) # []"
    and "first_or_null (map fst rb_example_list) = 0x20" by (simp_all add: rb_example_list_def)
  note it = OrderedCollection_iterates [OF rb_example_entries, THEN conjunct2, THEN conjunct2, rule_format]
  show ?thesis
    using OrderedCollection_iterates [OF rb_example_entries] it [OF split(1)] it [OF split(2)] by (simp add: rb_example_list_def)
qed



end
