(* ===== verification/Spec2Isabelle.thy ===== *)
theory Spec2Isabelle
  imports GcdReach LinkedList Depex SafeIntMath EventDispatch TimerProps DevicePathProps HandClaims OrderedCollection
begin

text \<open>
  Verification of core parts of EDK II, the reference implementation of UEFI firmware.

  \<^bold>\<open>The program.\<close>  Firmware starts in the PEI phase, which describes the machine in a list of HOBs;
  the DXE core (\<^verbatim>\<open>MdeModulePkg/Core/Dxe\<close>) then takes over, and drivers, boot loaders and the
  operating system call its services.  The core keeps the \<^emph>\<open>global coherency domain\<close> (GCD), the
  maps of the memory and I/O address spaces; page and pool allocators on top of it; events at
  task priority levels and timers; the database of handles and protocols; and the dispatcher, which
  starts a driver when the dependency expression of its file holds.  All of it stands on the base
  libraries of \<^verbatim>\<open>MdePkg\<close>: linked lists, memory copying, device paths, ordered collections,
  64-bit arithmetic, checked integers.

  \<^bold>\<open>Conventions.\<close>  The model is of an X64 build: \<^verbatim>\<open>UINTN\<close> has 64 bits.  Machine integers are
  words, structures are records, pointers are 64-bit words and objects live in stores, functions
  from addresses.  Freed memory keeps its content.  A \<^verbatim>\<open>DEBUG\<close> print is not modelled.  An
  \<^verbatim>\<open>ASSERT\<close> is a hypothesis of the property that needs it, except in the ordered collection,
  where it is a branch that does not return.  Code outside the modelled files (allocators, the CPU
  protocol, notification functions, driver bindings) is a parameter of the definitions that call
  it, and what a property needs of it is a named hypothesis.  Loops that may not end are partial
  functions or take fuel; their properties say that they return.

  \<^bold>\<open>Base.\<close>
  \<^item> \<open>UefiBase\<close>: types, \<^verbatim>\<open>EFI_STATUS\<close>, attribute bits, lemmas on words and lists.
  \<^item> \<open>BaseBits\<close>: \<^verbatim>\<open>HighBitSet64\<close> and the other bit functions of \<^verbatim>\<open>BaseLib\<close>.

  \<^bold>\<open>Global coherency domain\<close> (\<^verbatim>\<open>Gcd/Gcd.c\<close>).
  \<^item> \<open>GcdMap\<close>: the map of an address space, the entry operations from \<^verbatim>\<open>AlignValue\<close> to
    \<^verbatim>\<open>CoreCountGcdMapEntry\<close>.  A map is the list of its entries in list order; links are positions.
    \<open>gcd_tiles\<close> says that the entries partition the space, \<open>gcd_lookup\<close> is the abstract view, a
    function of addresses.
  \<^item> \<open>GcdRange\<close>: the loop that both services share, splitting, changing and merging entries, as
    an operation on the abstract view.
  \<^item> \<open>GcdServices\<close>: \<^verbatim>\<open>CoreConvertSpace\<close>, \<^verbatim>\<open>CoreAllocateSpace\<close> and every service built on
    them, with the locks, the allocator for work entries and the logged calls into the CPU
    protocol and the page allocator.
  \<^item> \<open>GcdConvert\<close> and \<open>GcdAllocate\<close>: what the two do, on success and on error, for all
    operations.  The search of \<^verbatim>\<open>CoreAllocateSpace\<close> runs on fuel, one more than the entries of
    the map; this is proved to be always enough, although the loop jumps back.
  \<^item> \<open>GcdReach\<close>: the services as a step relation, the invariant of all reachable states, and
    the services that read the map.

  \<^bold>\<open>Events\<close> (\<^verbatim>\<open>Event/Event.c\<close>, \<^verbatim>\<open>Tpl.c\<close>, \<^verbatim>\<open>Timer.c\<close>).
  \<^item> \<open>EventServices\<close>: the state (events, one queue per task priority, the signal queue, the timer
    list, the current priority) and every service.  Notification functions are a parameter that may
    itself change the state; the mutual recursion of dispatch and lowering the priority runs on fuel.
  \<^item> \<open>EventInv\<close>, \<open>EventTpl\<close>, \<open>EventTimer\<close>, \<open>EventLife\<close>, \<open>EventReach\<close>: the invariant, that
    every service keeps it, and that it holds in all reachable states when the notification functions
    keep it (locale \<open>notify_contract\<close>, interpreted on the services themselves).
  \<^item> \<open>EventDispatch\<close>: the order of dispatch, with fuel for 37 priorities and the longest queue
    proved to be enough.
  \<^item> \<open>TimerCheck\<close>, \<open>TimerServices\<close>, \<open>TimerProps\<close>: the timer list and its check; fuel of twice
    the timers and three is enough unless a period wraps the time round.

  \<^bold>\<open>Handles and protocols\<close> (\<^verbatim>\<open>Hand/Handle.c\<close>, \<^verbatim>\<open>Locate.c\<close>, \<^verbatim>\<open>Notify.c\<close>).
  \<^item> \<open>HandleDb\<close> and \<open>HandleLocate\<close>: the database and every service, over stores of handles,
    protocol entries, interfaces and registrations.
  \<^item> \<open>HandInv\<close>, \<open>HandOps\<close>, \<open>HandReach\<close>: the invariant, kept by every step; the callbacks into
    drivers are a locale, \<open>hand_callbacks\<close>, interpreted on the services themselves.
  \<^item> \<open>HandLookup\<close>, \<open>HandProps\<close>: installation and removal as updates of a map from handle and
    protocol to interface.
  \<^item> \<open>HandOpen\<close>, \<open>HandOpens\<close>: opening and closing.  \<open>HandSearch\<close>: the enumerations.
    \<open>HandMultiple\<close>: the services on several interfaces.  \<open>HandClaims\<close>: concrete states.

  \<^bold>\<open>Dependency expressions.\<close>
  \<^item> \<open>Depex\<close>: \<^verbatim>\<open>Dispatcher/Dependency.c\<close>, the evaluator with its growing stack and its
    rewriting of the expression, against the value of the expression.

  \<^bold>\<open>Libraries of\<close> \<^verbatim>\<open>MdePkg\<close>.
  \<^item> \<open>LinkedList\<close>: \<^verbatim>\<open>BaseLib/LinkedList.c\<close> on a memory of link fields, refined to operations on
    lists of nodes.
  \<^item> \<open>BaseMemory\<close>, \<open>MemoryProps\<close>: \<^verbatim>\<open>BaseMemoryLib\<close> over a memory of bytes; the copies and fills by
    words equal the copies and fills by bytes (locales \<open>mem_move\<close> and \<open>mem_fill\<close>, interpreted for
    8, 32 and 64 bits).
  \<^item> \<open>DevicePath\<close>, \<open>DevicePathProps\<close>: \<^verbatim>\<open>UefiDevicePathLib\<close> over the same memory, against lists of
    nodes.
  \<^item> \<open>RedBlackTree\<close>: \<^verbatim>\<open>BaseOrderedCollectionRedBlackTreeLib\<close>, every function, over a heap of nodes
    with parent pointers.  \<open>RbtHeap\<close>: heaps that represent a tree, seen from any node through the
    context above it, and the rotations.  \<open>RbtWalk\<close>: iteration, search and the library's self
    check; the client's comparison functions are the locales \<open>user_compare\<close> and \<open>key_compare\<close>.
    \<open>RbtInsert\<close>, \<open>RbtDelete\<close>: the two loops, by induction on the context.
    \<open>OrderedCollection\<close>: the operations as operations on a sorted list.
  \<^item> \<open>SafeIntConv\<close> and \<open>SafeIntMath\<close>: \<^verbatim>\<open>BaseSafeIntLib\<close>, every conversion and arithmetic function
    against one contract: the exact value, or a report.

  Further locales: \<open>gcd_body\<close>, \<open>gcd_uniform_body\<close> and \<open>gcd_check\<close> (what the shared range loop
  needs of the change and of the verification of an entry), \<open>node_list\<close> (what a user of the linked
  lists may rely on), \<open>bool_stack\<close> (the evaluation stack) and \<open>c_integer\<close> (an integer type with its
  limits), each interpreted on the code's definitions.

  \<^bold>\<open>Not modelled.\<close>  The debug dumps, which print; the construction of the first GCD maps from HOBs;
  page and pool allocation, image loading and the dispatcher's queues; the PEI core and drivers;
  shell and network stack; vendored libraries (Oniguruma, LZMA, Brotli) and host tools.
\<close>

end
